(* ===== verification/Abox_Prelude.thy ===== *)
theory Abox_Prelude
  imports Main "HOL-Library.Sublist"
begin

text \<open>
  The prelude of the development: the parts of the Go standard library that the modelled
  code calls on strings, and the generic lemmas the components share.

  A Go string is a sequence of bytes, so it is modelled as an Isabelle \<open>string\<close>, a list of
  8-bit characters; \<open>len\<close> is \<open>length\<close>. Where Go decodes UTF-8 the model works on the bytes:
  a byte below 128 always decodes to the rune of the same value and is never part of another
  rune, so a test such as \<open>r < 32\<close> over the runes of a string is the same test over its bytes.

  Three collections carry the component proofs: \<open>go_string\<close> holds the defining equations of
  the string functions, \<open>go_char\<close> the character classes, and \<open>go_eval\<close> the equations with which
  the simplifier evaluates a function on a closed string, as the witnesses need it.
\<close>

named_theorems go_string \<open>definitions of the Go string functions\<close>
named_theorems go_char \<open>definitions of character classes\<close>
named_theorems go_eval \<open>equations that evaluate closed strings\<close>

section \<open>Characters\<close>

definition code :: "char \<Rightarrow> nat" where
  [go_eval]: "code c = of_char c"

lemma code_less_256 [simp]: "code c < 256"
  by (simp add: code_def)

lemma code_eq_iff [simp]: "code c = code d \<longleftrightarrow> c = d"
  by (simp add: code_def)

definition is_lower :: "char \<Rightarrow> bool" where
  [go_char, go_eval]: "is_lower c \<longleftrightarrow> 97 \<le> code c \<and> code c \<le> 122"

definition is_upper :: "char \<Rightarrow> bool" where
  [go_char, go_eval]: "is_upper c \<longleftrightarrow> 65 \<le> code c \<and> code c \<le> 90"

definition is_digit :: "char \<Rightarrow> bool" where
  [go_char, go_eval]: "is_digit c \<longleftrightarrow> 48 \<le> code c \<and> code c \<le> 57"

definition is_alpha :: "char \<Rightarrow> bool" where
  [go_char, go_eval]: "is_alpha c \<longleftrightarrow> is_lower c \<or> is_upper c"

definition is_alnum :: "char \<Rightarrow> bool" where
  [go_char, go_eval]: "is_alnum c \<longleftrightarrow> is_alpha c \<or> is_digit c"

definition is_ascii :: "char \<Rightarrow> bool" where
  [go_char, go_eval]: "is_ascii c \<longleftrightarrow> code c < 128"

text \<open>The control characters every validator rejects: \<open>r < 32 || r == 127\<close>.\<close>

definition is_control :: "char \<Rightarrow> bool" where
  [go_char, go_eval]: "is_control c \<longleftrightarrow> code c < 32 \<or> code c = 127"

definition lower_char :: "char \<Rightarrow> char" where
  [go_char]: "lower_char c = (if is_upper c then char_of (code c + 32) else c)"

lemma code_char_of [simp]: "n < 256 \<Longrightarrow> code (char_of n) = n"
  by (simp add: code_def)

lemma code_lower_char: "code (lower_char c) = (if is_upper c then code c + 32 else code c)"
  by (simp add: lower_char_def is_upper_def)

lemma code_Char: "code (Char b0 b1 b2 b3 b4 b5 b6 b7) =
    of_bool b0 + 2 * of_bool b1 + 4 * of_bool b2 + 8 * of_bool b3 + 16 * of_bool b4
    + 32 * of_bool b5 + 64 * of_bool b6 + 128 * of_bool b7"
  by (simp add: code_def)

lemma lower_char_Char [go_eval]:
  "lower_char (Char b0 b1 b2 b3 b4 b5 b6 b7) =
     (if is_upper (Char b0 b1 b2 b3 b4 b5 b6 b7) then Char b0 b1 b2 b3 b4 True b6 b7
      else Char b0 b1 b2 b3 b4 b5 b6 b7)"
proof -
  have "is_upper (Char b0 b1 b2 b3 b4 b5 b6 b7) \<Longrightarrow> \<not> b5"
    by (cases b5; cases b6; cases b7) (auto simp: is_upper_def code_Char of_bool_def split: if_splits)
  then show ?thesis
    by (auto simp: code_lower_char code_Char simp flip: code_eq_iff)
qed

declare char_of_eq_iff [go_eval]

lemma eq_char_of_iff [go_eval]: "c = char_of (n::nat) \<longleftrightarrow> take_bit 8 n = of_char c"
  by (subst eq_commute) (rule char_of_eq_iff)

lemma lower_char_not_upper [simp]: "\<not> is_upper (lower_char c)"
  by (auto simp: is_upper_def code_lower_char)

lemma lower_char_idem [simp]: "lower_char (lower_char c) = lower_char c"
  by (simp add: lower_char_def [of "lower_char c"])

lemma lower_char_id: "\<not> is_upper c \<Longrightarrow> lower_char c = c"
  by (simp add: lower_char_def)

lemma is_alnum_ascii: "is_alnum c \<Longrightarrow> is_ascii c"
  by (auto simp: go_char)

lemma is_alnum_not_control: "is_alnum c \<Longrightarrow> \<not> is_control c"
  by (auto simp: go_char)

section \<open>Prefixes, suffixes and searching\<close>

text \<open>\<open>strings.HasPrefix\<close>, \<open>strings.HasSuffix\<close>, \<open>strings.TrimPrefix\<close>, \<open>strings.TrimSuffix\<close>,
  \<open>strings.CutPrefix\<close>.\<close>

fun HasPrefix :: "string \<Rightarrow> string \<Rightarrow> bool" where
  "HasPrefix s [] = True"
| "HasPrefix [] (p # ps) = False"
| "HasPrefix (c # s) (p # ps) = (c = p \<and> HasPrefix s ps)"

definition HasSuffix :: "string \<Rightarrow> string \<Rightarrow> bool" where
  [go_string, go_eval]: "HasSuffix s p = HasPrefix (rev s) (rev p)"

definition TrimPrefix :: "string \<Rightarrow> string \<Rightarrow> string" where
  [go_string, go_eval]: "TrimPrefix s p = (if HasPrefix s p then drop (length p) s else s)"

definition TrimSuffix :: "string \<Rightarrow> string \<Rightarrow> string" where
  [go_string, go_eval]: "TrimSuffix s p = (if HasSuffix s p then take (length s - length p) s else s)"

definition CutPrefix :: "string \<Rightarrow> string \<Rightarrow> string option" where
  [go_string, go_eval]: "CutPrefix s p = (if HasPrefix s p then Some (drop (length p) s) else None)"

lemma HasPrefix_iff: "HasPrefix s p \<longleftrightarrow> prefix p s"
  by (induction s p rule: HasPrefix.induct) auto

lemma HasSuffix_iff: "HasSuffix s p \<longleftrightarrow> suffix p s"
  by (simp add: HasSuffix_def HasPrefix_iff suffix_to_prefix)

lemma HasPrefix_append [simp]: "HasPrefix (p @ s) p"
  by (simp add: HasPrefix_iff)

lemma HasSuffix_append [simp]: "HasSuffix (s @ p) p"
  by (simp add: HasSuffix_iff suffix_def)

lemma TrimSuffix_append [simp]: "TrimSuffix (s @ p) p = s"
  by (simp add: TrimSuffix_def)

lemma TrimSuffix_no [simp]: "\<not> HasSuffix s p \<Longrightarrow> TrimSuffix s p = s"
  by (simp add: TrimSuffix_def)

lemma TrimPrefix_append [simp]: "TrimPrefix (p @ s) p = s"
  by (simp add: TrimPrefix_def)

lemma HasSuffix_single: "HasSuffix s [c] \<longleftrightarrow> s \<noteq> [] \<and> last s = c"
  by (cases s rule: rev_cases) (auto simp: HasSuffix_iff suffix_def)

lemma TrimSuffix_cases:
  obtains (cut) t where "s = t @ p" "TrimSuffix s p = t" | (keep) "\<not> HasSuffix s p" "TrimSuffix s p = s"
  by (cases "HasSuffix s p") (auto simp: HasSuffix_iff suffix_def)

lemma set_TrimSuffix: "set (TrimSuffix s p) \<subseteq> set s"
  by (auto simp: TrimSuffix_def dest: in_set_takeD)

lemma set_TrimPrefix: "set (TrimPrefix s p) \<subseteq> set s"
  by (auto simp: TrimPrefix_def dest: in_set_dropD)

text \<open>\<open>strings.ContainsAny\<close> on ASCII sets, and \<open>strings.Contains\<close>.\<close>

definition ContainsAny :: "string \<Rightarrow> string \<Rightarrow> bool" where
  [go_string, go_eval]: "ContainsAny s cs = list_ex (\<lambda>c. c \<in> set cs) s"

fun Contains :: "string \<Rightarrow> string \<Rightarrow> bool" where
  "Contains [] p = (p = [])"
| "Contains (c # s) p = (HasPrefix (c # s) p \<or> Contains s p)"

definition has_control :: "string \<Rightarrow> bool" where
  [go_string, go_eval]: "has_control s = list_ex is_control s"

text \<open>\<open>strings.Index\<close> of a single byte, the place of its first occurrence.\<close>

fun IndexByte :: "string \<Rightarrow> char \<Rightarrow> nat option" where
  "IndexByte [] c = None"
| "IndexByte (x # s) c = (if x = c then Some 0 else map_option Suc (IndexByte s c))"

lemma IndexByte_None: "IndexByte s c = None \<longleftrightarrow> c \<notin> set s"
  by (induction s c rule: IndexByte.induct) auto

lemma IndexByte_append: "c \<notin> set a \<Longrightarrow> IndexByte (a @ c # b) c = Some (length a)"
  by (induction a) auto

text \<open>\<open>strings.LastIndex\<close> of a single byte.\<close>

definition LastIndexByte :: "string \<Rightarrow> char \<Rightarrow> nat option" where
  [go_string, go_eval]: "LastIndexByte s c = map_option (\<lambda>i. length s - 1 - i) (IndexByte (rev s) c)"

section \<open>Splitting and joining\<close>

text \<open>\<open>strings.Split\<close> on a one-byte separator; the result is never empty.\<close>

fun Split :: "string \<Rightarrow> char \<Rightarrow> string list" where
  "Split [] c = [[]]"
| "Split (x # s) c =
     (if x = c then [] # Split s c
      else (case Split s c of [] \<Rightarrow> [[x]] | w # ws \<Rightarrow> (x # w) # ws))"

fun Join :: "string list \<Rightarrow> string \<Rightarrow> string" where
  "Join [] sep = []"
| "Join [w] sep = w"
| "Join (w # v # ws) sep = w @ sep @ Join (v # ws) sep"

lemma Split_not_Nil [simp]: "Split s c \<noteq> []"
  by (induction s c rule: Split.induct) (auto split: list.splits)

lemma Split_no_sep: "w \<in> set (Split s c) \<Longrightarrow> c \<notin> set w"
proof (induction s c arbitrary: w rule: Split.induct)
  case (2 x s c)
  then show ?case by (cases "Split s c") (auto split: if_splits)
qed simp

lemma Join_Split: "Join (Split s c) [c] = s"
proof (induction s c rule: Split.induct)
  case (2 x s c)
  then show ?case
  proof (cases "Split s c")
    case (Cons w ws)
    with 2 show ?thesis by (cases ws) auto
  qed simp
qed simp

lemma Split_atom: "c \<notin> set w \<Longrightarrow> Split w c = [w]"
  by (induction w) auto

lemma Split_append: "c \<notin> set w \<Longrightarrow> Split (w @ c # s) c = w # Split s c"
  by (induction w) auto

lemma Split_Join: "ws \<noteq> [] \<Longrightarrow> \<forall>w\<in>set ws. c \<notin> set w \<Longrightarrow> Split (Join ws [c]) c = ws"
  by (induction ws "[c]" rule: Join.induct) (auto simp: Split_atom Split_append)

lemma set_Split: "w \<in> set (Split s c) \<Longrightarrow> set w \<subseteq> set s"
proof (induction s c arbitrary: w rule: Split.induct)
  case (2 x s c)
  then show ?case by (cases "Split s c") (fastforce split: if_splits)+
qed simp

lemma set_Join: "set (Join ws sep) \<subseteq> (\<Union>w\<in>set ws. set w) \<union> set sep"
  by (induction ws sep rule: Join.induct) auto

lemma Join_Cons: "ws \<noteq> [] \<Longrightarrow> Join (w # ws) sep = w @ sep @ Join ws sep"
  by (cases ws) auto

lemma Join_snoc: "Join ws [c] @ [c] = (if ws = [] then [c] else concat (map (\<lambda>w. w @ [c]) ws))"
  by (induction ws "[c]" rule: Join.induct) auto

end
