(* ===== verification/Go_Text.thy ===== *)
theory Go_Text
  imports Abox_Prelude
begin

text \<open>
  More of the Go standard library: \<open>strings.TrimSpace\<close>, \<open>strings.ToLower\<close>,
  \<open>strings.EqualFold\<close>, \<open>strings.Fields\<close> and the decimal conversions of \<open>strconv\<close>.

  \<open>TrimSpace\<close> is modelled for every byte string: \<open>space_runes\<close> lists the UTF-8 encodings of
  the code points with \<open>unicode.IsSpace\<close>, and the function removes them from both ends.
  \<open>ToLower\<close> has Go's two cases: a string of ASCII bytes is mapped byte by byte; the Unicode
  tables used for any other string are a parameter.
\<close>

section \<open>TrimSpace\<close>

definition ascii_spaces :: "string list" where
  "ascii_spaces = [[char_of (9::nat)], [char_of (10::nat)], [char_of (11::nat)],
     [char_of (12::nat)], [char_of (13::nat)], [char_of (32::nat)]]"

definition bytes :: "nat list \<Rightarrow> string" where
  "bytes ns = map char_of ns"

text \<open>U+0085, U+00A0, U+1680, U+2000 to U+200A, U+2028, U+2029, U+202F, U+205F, U+3000.\<close>

definition unicode_spaces :: "string list" where
  "unicode_spaces = [bytes [194, 133], bytes [194, 160], bytes [225, 154, 128]]
     @ map (\<lambda>k. bytes [226, 128, k]) [128, 129, 130, 131, 132, 133, 134, 135, 136, 137, 138]
     @ [bytes [226, 128, 168], bytes [226, 128, 169], bytes [226, 128, 175],
        bytes [226, 129, 159], bytes [227, 128, 128]]"

definition space_runes :: "string list" where
  "space_runes = ascii_spaces @ unicode_spaces"

function trim_left_by :: "string list \<Rightarrow> string \<Rightarrow> string" where
  "trim_left_by ws s =
     (case find (\<lambda>w. w \<noteq> [] \<and> HasPrefix s w) ws of
        None \<Rightarrow> s
      | Some w \<Rightarrow> trim_left_by ws (drop (length w) s))"
  by pat_completeness auto
termination
  by (relation "measure (\<lambda>(ws, s). length s)")
    (auto simp: find_Some_iff HasPrefix_iff prefix_def)

declare trim_left_by.simps [simp del]

definition TrimSpace :: "string \<Rightarrow> string" where
  "TrimSpace s = rev (trim_left_by (map rev space_runes) (rev (trim_left_by space_runes s)))"

lemma trim_left_by_suffix: "suffix (trim_left_by ws s) s"
proof (induction ws s rule: trim_left_by.induct)
  case (1 ws s)
  then show ?case
    by (subst trim_left_by.simps)
      (auto split: option.splits intro: suffix_order.trans suffix_drop)
qed

lemma trim_left_by_stop: "w \<in> set ws \<Longrightarrow> w \<noteq> [] \<Longrightarrow> \<not> HasPrefix (trim_left_by ws s) w"
proof (induction ws s rule: trim_left_by.induct)
  case (1 ws s)
  then show ?case
    by (subst trim_left_by.simps) (auto simp: find_None_iff split: option.splits)
qed

lemma trim_left_by_id: "\<forall>w\<in>set ws. w \<noteq> [] \<longrightarrow> \<not> HasPrefix s w \<Longrightarrow> trim_left_by ws s = s"
proof -
  assume "\<forall>w\<in>set ws. w \<noteq> [] \<longrightarrow> \<not> HasPrefix s w"
  then have "find (\<lambda>w. w \<noteq> [] \<and> HasPrefix s w) ws = None"
    by (auto simp: find_None_iff)
  then show ?thesis by (subst trim_left_by.simps) simp
qed

text \<open>A byte at which no space rune starts or ends: ASCII and beyond the blank.\<close>

definition is_graphic :: "char \<Rightarrow> bool" where
  [go_char, go_eval]: "is_graphic c \<longleftrightarrow> 32 < code c \<and> code c < 128"

lemma space_rune_ends:
  assumes "w \<in> set space_runes"
  shows "w \<noteq> []" "\<not> is_graphic (hd w)" "\<not> is_graphic (last w)"
  using assms
  by (auto simp: space_runes_def ascii_spaces_def unicode_spaces_def bytes_def is_graphic_def)

lemma TrimSpace_graphic [go_eval]:
  assumes "s = [] \<or> is_graphic (hd s) \<and> is_graphic (last s)"
  shows "TrimSpace s = s"
proof -
  have "trim_left_by space_runes s = s"
    using assms
    by (intro trim_left_by_id ballI impI)
      (auto simp: HasPrefix_iff prefix_def dest: space_rune_ends(2))
  moreover have "trim_left_by (map rev space_runes) (rev s) = rev s"
  proof (intro trim_left_by_id ballI impI)
    fix v assume "v \<in> set (map rev space_runes)"
    then obtain w where w: "w \<in> set space_runes" "v = rev w" by auto
    show "\<not> HasPrefix (rev s) v"
    proof
      assume "HasPrefix (rev s) v"
      then have "suffix w s" by (simp add: w HasPrefix_iff suffix_to_prefix)
      then have "s \<noteq> []" "last w = last s"
        using space_rune_ends(1) [OF w(1)] by (auto simp: suffix_def)
      with assms space_rune_ends(3) [OF w(1)] show False by simp
    qed
  qed
  ultimately show ?thesis by (simp add: TrimSpace_def)
qed

lemma TrimSpace_sublist:
  obtains a b where "s = a @ TrimSpace s @ b"
proof -
  obtain a where a: "s = a @ trim_left_by space_runes s"
    using trim_left_by_suffix [of space_runes s] by (auto simp: suffix_def)
  obtain b where "rev (trim_left_by space_runes s) = b @ rev (TrimSpace s)"
    using trim_left_by_suffix [of "map rev space_runes" "rev (trim_left_by space_runes s)"]
    by (auto simp: suffix_def TrimSpace_def)
  then have "trim_left_by space_runes s = TrimSpace s @ rev b"
    by (metis rev_append rev_rev_ident)
  with a that show ?thesis by metis
qed

lemma set_TrimSpace: "set (TrimSpace s) \<subseteq> set s"
  by (rule TrimSpace_sublist [of s]) (metis Un_iff set_append subsetI)

lemma TrimSpace_idem [simp]: "TrimSpace (TrimSpace s) = TrimSpace s"
proof -
  let ?t = "trim_left_by space_runes s" and ?r = "TrimSpace s"
  have "prefix ?r ?t"
    using trim_left_by_suffix [of "map rev space_runes" "rev ?t"]
    by (simp add: TrimSpace_def suffix_to_prefix)
  then have "trim_left_by space_runes ?r = ?r"
    using trim_left_by_stop [of _ space_runes s]
    by (intro trim_left_by_id) (auto simp: HasPrefix_iff dest: prefix_order.trans)
  moreover have "trim_left_by (map rev space_runes) (rev ?r) = rev ?r"
    using trim_left_by_stop [of _ "map rev space_runes" "rev ?t"]
    by (intro trim_left_by_id) (auto simp: TrimSpace_def)
  ultimately show ?thesis by (simp add: TrimSpace_def [of ?r])
qed

section \<open>Case\<close>

definition ToLower :: "(string \<Rightarrow> string) \<Rightarrow> string \<Rightarrow> string" where
  [go_eval]: "ToLower unicode_lower s =
     (if list_all is_ascii s then map lower_char s else unicode_lower s)"

lemma is_ascii_lower_char [simp]: "is_ascii (lower_char c) = is_ascii c"
  by (auto simp: is_ascii_def code_lower_char is_upper_def)

lemma ToLower_ascii: "list_all is_ascii s \<Longrightarrow> ToLower u s = map lower_char s"
  by (simp add: ToLower_def)

lemma ToLower_id: "list_all (\<lambda>c. is_ascii c \<and> \<not> is_upper c) s \<Longrightarrow> ToLower u s = s"
  by (auto simp: ToLower_def list_all_iff lower_char_id map_idI)

text \<open>
  \<open>strings.EqualFold(s, t)\<close> for an ASCII \<open>t\<close>: simple case folding identifies \<open>k\<close> and \<open>K\<close>
  with the Kelvin sign (bytes E2 84 AA) and \<open>s\<close> and \<open>S\<close> with the long s (bytes C5 BF); no
  other code point beyond ASCII folds to an ASCII letter.
\<close>

fun EqualFold :: "string \<Rightarrow> string \<Rightarrow> bool" where
  "EqualFold s [] = (s = [])"
| "EqualFold s (c # t) =
     (case s of
        [] \<Rightarrow> False
      | d # s' \<Rightarrow>
          if lower_char d = lower_char c then EqualFold s' t
          else if lower_char c = CHR ''k'' \<and> HasPrefix s (bytes [226, 132, 170])
            then EqualFold (drop 3 s) t
          else if lower_char c = CHR ''s'' \<and> HasPrefix s (bytes [197, 191])
            then EqualFold (drop 2 s) t
          else False)"

lemma EqualFold_lower: "map lower_char s = map lower_char t \<Longrightarrow> EqualFold s t"
  by (induction t arbitrary: s) (auto split: list.splits)

section \<open>Fields\<close>

text \<open>
  \<open>strings.Fields\<close>: the maximal runs of bytes between space runes. No space rune starts inside
  another rune, so the runes can be looked for at every byte.
\<close>

definition space_at :: "string \<Rightarrow> nat" where
  "space_at s = (case find (HasPrefix s) space_runes of Some w \<Rightarrow> length w | None \<Rightarrow> 0)"

function fields_acc :: "string \<Rightarrow> string \<Rightarrow> string list" where
  "fields_acc acc s =
     (if s = [] then (if acc = [] then [] else [rev acc])
      else if 0 < space_at s
        then (if acc = [] then [] else [rev acc]) @ fields_acc [] (drop (space_at s) s)
      else fields_acc (hd s # acc) (tl s))"
  by pat_completeness auto
termination
  by (relation "measure (\<lambda>(acc, s). length s)") auto

declare fields_acc.simps [simp del]

definition Fields :: "string \<Rightarrow> string list" where
  "Fields s = fields_acc [] s"

lemma space_at_graphic [simp]: "is_graphic c \<Longrightarrow> space_at (c # s) = 0"
proof -
  assume c: "is_graphic c"
  have "\<not> HasPrefix (c # s) w" if "w \<in> set space_runes" for w
    using space_rune_ends(1,2) [OF that] c by (cases w) auto
  then have "find (HasPrefix (c # s)) space_runes = None" by (auto simp: find_None_iff)
  then show ?thesis by (simp add: space_at_def)
qed

lemma space_at_blank [simp]: "space_at (CHR '' '' # s) = 1"
  by (simp add: space_at_def space_runes_def ascii_spaces_def eq_char_of_iff char_of_eq_iff)

lemma fields_acc_Nil: "fields_acc acc [] = (if acc = [] then [] else [rev acc])"
  by (subst fields_acc.simps) simp

lemma fields_acc_run:
  "list_all is_graphic w \<Longrightarrow> fields_acc acc (w @ s) = fields_acc (rev w @ acc) s"
proof (induction w arbitrary: acc)
  case (Cons c w)
  then show ?case by (subst fields_acc.simps) simp
qed simp

lemma Fields_Cons:
  assumes "list_all is_graphic w" "w \<noteq> []"
  shows "Fields (w @ CHR '' '' # s) = w # Fields s"
  using assms by (simp add: Fields_def fields_acc_run fields_acc.simps [of "rev w" "CHR '' '' # s"])

lemma Fields_single: "list_all is_graphic w \<Longrightarrow> w \<noteq> [] \<Longrightarrow> Fields w = [w]"
  using fields_acc_run [of w "[]" "[]"] by (simp add: Fields_def fields_acc_Nil)

section \<open>Decimal numbers\<close>

definition digit_val :: "char \<Rightarrow> nat" where
  "digit_val c = code c - 48"

definition dec_val :: "string \<Rightarrow> nat" where
  "dec_val s = foldl (\<lambda>n c. 10 * n + digit_val c) 0 s"

function Itoa :: "nat \<Rightarrow> string" where
  "Itoa n = (if n < 10 then [char_of (48 + n)] else Itoa (n div 10) @ [char_of (48 + n mod 10)])"
  by pat_completeness auto
termination
  by (relation "measure (\<lambda>n. n)") auto

declare Itoa.simps [simp del]

definition Itoa_int :: "int \<Rightarrow> string" where
  "Itoa_int i = (if i < 0 then CHR ''-'' # Itoa (nat (- i)) else Itoa (nat i))"

text \<open>
  \<open>strconv.Atoi\<close>, which is \<open>strconv.ParseInt(s, 10, 64)\<close> on the 64-bit targets: an optional
  sign, then at least one decimal digit; a value outside the range of \<open>int64\<close> is an error.
\<close>

definition parse_digits :: "string \<Rightarrow> nat option" where
  "parse_digits s = (if s \<noteq> [] \<and> list_all is_digit s then Some (dec_val s) else None)"

definition Atoi :: "string \<Rightarrow> int option" where
  "Atoi s =
     (let (neg, body) =
        (case s of [] \<Rightarrow> (False, [])
         | c # r \<Rightarrow> if c = CHR ''-'' then (True, r) else if c = CHR ''+'' then (False, r)
                     else (False, s))
      in case parse_digits body of
           None \<Rightarrow> None
         | Some n \<Rightarrow>
             if neg then (if n \<le> 2 ^ 63 then Some (- int n) else None)
             else (if n < 2 ^ 63 then Some (int n) else None))"

lemma digit_val_char_of: "n < 10 \<Longrightarrow> digit_val (char_of (48 + n)) = n"
  by (simp add: digit_val_def)

lemma dec_val_snoc: "dec_val (s @ [c]) = 10 * dec_val s + digit_val c"
  by (simp add: dec_val_def)

lemma dec_val_Itoa [simp]: "dec_val (Itoa n) = n"
proof (induction n rule: Itoa.induct)
  case (1 n)
  show ?case
  proof (cases "n < 10")
    case True
    then show ?thesis
      by (simp add: Itoa.simps [of n] dec_val_def digit_val_char_of)
  next
    case False
    with "1" show ?thesis
      by (simp add: Itoa.simps [of n] dec_val_snoc digit_val_char_of)
  qed
qed

lemma Itoa_digits: "list_all is_digit (Itoa n)"
proof (induction n rule: Itoa.induct)
  case (1 n)
  then show ?case by (subst Itoa.simps) (auto simp: is_digit_def [of "char_of _"])
qed

lemma Itoa_not_Nil [simp]: "Itoa n \<noteq> []"
  by (subst Itoa.simps) simp

lemma parse_digits_Itoa [simp]: "parse_digits (Itoa n) = Some n"
  by (simp add: parse_digits_def Itoa_digits)

lemma Itoa_inj: "Itoa m = Itoa n \<longleftrightarrow> m = n"
  by (metis dec_val_Itoa)

lemma Itoa_hd_digit: "is_digit (hd (Itoa n))"
  by (metis Itoa_digits Itoa_not_Nil list.pred_set list.set_sel(1))

lemma Atoi_Itoa: "n < 2 ^ 63 \<Longrightarrow> Atoi (Itoa n) = Some (int n)"
proof -
  assume n: "n < 2 ^ 63"
  obtain c r where cr: "Itoa n = c # r" by (cases "Itoa n") auto
  then have "is_digit c" using Itoa_hd_digit [of n] by simp
  then have "c \<noteq> CHR ''-''" "c \<noteq> CHR ''+''" by (auto simp: is_digit_def code_def)
  then have "Atoi (c # r) = (case parse_digits (c # r) of None \<Rightarrow> None
      | Some n \<Rightarrow> if n < 2 ^ 63 then Some (int n) else None)"
    by (simp add: Atoi_def cong: option.case_cong if_cong)
  with n show ?thesis using parse_digits_Itoa [of n] by (simp add: cr)
qed

lemma Atoi_range: "Atoi s = Some i \<Longrightarrow> - (2 ^ 63) \<le> i \<and> i < 2 ^ 63"
  by (auto simp: Atoi_def Let_def split: prod.splits option.splits if_splits)

end
