(* ===== verification/Go_Net.thy ===== *)
theory Go_Net
  imports Go_Text "HOL-Library.Word"
begin

unbundle bit_operations_syntax

text \<open>
  The parts of Go's packages \<open>net\<close> and \<open>net/netip\<close> that the filters call: the type \<open>net.IP\<close>
  (4 or 16 bytes), its parser and printer, the address classes, CIDR networks, and
  \<open>SplitHostPort\<close> and \<open>JoinHostPort\<close>. A nil \<open>net.IP\<close> is \<open>None\<close> where a function can
  return one.
\<close>

type_synonym u8 = "8 word"
type_synonym IP = "u8 list"

named_theorems ip_class \<open>definitions of the address classes\<close>

section \<open>Addresses\<close>

definition v4InV6Prefix :: IP where
  "v4InV6Prefix = [0, 0, 0, 0, 0, 0, 0, 0, 0, 0, 0xff, 0xff]"

definition IPv4 :: "u8 \<Rightarrow> u8 \<Rightarrow> u8 \<Rightarrow> u8 \<Rightarrow> IP" where
  "IPv4 a b c d = v4InV6Prefix @ [a, b, c, d]"

definition To4 :: "IP \<Rightarrow> IP option" where
  "To4 ip =
     (if length ip = 4 then Some ip
      else if length ip = 16 \<and> take 12 ip = v4InV6Prefix then Some (drop 12 ip)
      else None)"

definition To16 :: "IP \<Rightarrow> IP option" where
  "To16 ip =
     (if length ip = 4 then Some (v4InV6Prefix @ ip)
      else if length ip = 16 then Some ip else None)"

definition IP_Equal :: "IP \<Rightarrow> IP \<Rightarrow> bool" where
  "IP_Equal ip x =
     (if length ip = length x then ip = x
      else if length ip = 4 \<and> length x = 16 then take 12 x = v4InV6Prefix \<and> ip = drop 12 x
      else if length ip = 16 \<and> length x = 4 then take 12 ip = v4InV6Prefix \<and> drop 12 ip = x
      else False)"

definition IPv4bcast :: IP where "IPv4bcast = IPv4 255 255 255 255"
definition IPv4zero :: IP where "IPv4zero = IPv4 0 0 0 0"
definition IPv6unspecified :: IP where "IPv6unspecified = replicate 16 0"
definition IPv6loopback :: IP where "IPv6loopback = replicate 15 0 @ [1]"

definition IsUnspecified :: "IP \<Rightarrow> bool" where
  [ip_class]: "IsUnspecified ip \<longleftrightarrow> IP_Equal ip IPv4zero \<or> IP_Equal ip IPv6unspecified"

definition IsLoopback :: "IP \<Rightarrow> bool" where
  [ip_class]: "IsLoopback ip =
     (case To4 ip of Some ip4 \<Rightarrow> ip4 ! 0 = 127 | None \<Rightarrow> IP_Equal ip IPv6loopback)"

definition IsPrivate :: "IP \<Rightarrow> bool" where
  [ip_class]: "IsPrivate ip =
     (case To4 ip of
        Some ip4 \<Rightarrow> ip4 ! 0 = 10 \<or> (ip4 ! 0 = 172 \<and> (ip4 ! 1) AND 0xf0 = 16)
          \<or> (ip4 ! 0 = 192 \<and> ip4 ! 1 = 168)
      | None \<Rightarrow> length ip = 16 \<and> (ip ! 0) AND 0xfe = 0xfc)"

definition IsMulticast :: "IP \<Rightarrow> bool" where
  [ip_class]: "IsMulticast ip =
     (case To4 ip of Some ip4 \<Rightarrow> (ip4 ! 0) AND 0xf0 = 0xe0
      | None \<Rightarrow> length ip = 16 \<and> ip ! 0 = 0xff)"

definition IsLinkLocalMulticast :: "IP \<Rightarrow> bool" where
  [ip_class]: "IsLinkLocalMulticast ip =
     (case To4 ip of Some ip4 \<Rightarrow> ip4 ! 0 = 224 \<and> ip4 ! 1 = 0 \<and> ip4 ! 2 = 0
      | None \<Rightarrow> length ip = 16 \<and> ip ! 0 = 0xff \<and> (ip ! 1) AND 0x0f = 0x02)"

definition IsLinkLocalUnicast :: "IP \<Rightarrow> bool" where
  [ip_class]: "IsLinkLocalUnicast ip =
     (case To4 ip of Some ip4 \<Rightarrow> ip4 ! 0 = 169 \<and> ip4 ! 1 = 254
      | None \<Rightarrow> length ip = 16 \<and> ip ! 0 = 0xfe \<and> (ip ! 1) AND 0xc0 = 0x80)"

section \<open>Parsing addresses\<close>

text \<open>One field of a dotted quad: at most 255, no leading zero.\<close>

definition parse_octet :: "string \<Rightarrow> u8 option" where
  "parse_octet s =
     (if s \<noteq> [] \<and> list_all is_digit s \<and> (hd s = CHR ''0'' \<longrightarrow> s = ''0'') \<and> dec_val s \<le> 255
      then Some (of_nat (dec_val s)) else None)"

definition parse_v4 :: "string \<Rightarrow> IP option" where
  "parse_v4 s =
     (case Split s CHR ''.'' of
        [a, b, c, d] \<Rightarrow>
          (case (parse_octet a, parse_octet b, parse_octet c, parse_octet d) of
             (Some w, Some x, Some y, Some z) \<Rightarrow> Some [w, x, y, z]
           | _ \<Rightarrow> None)
      | _ \<Rightarrow> None)"

definition hex_val :: "char \<Rightarrow> nat option" where
  "hex_val c =
     (if is_digit c then Some (code c - 48)
      else if 97 \<le> code c \<and> code c \<le> 102 then Some (code c - 87)
      else if 65 \<le> code c \<and> code c \<le> 70 then Some (code c - 55)
      else None)"

text \<open>The hexadecimal digits at the head of a string: their number, their value, the rest.\<close>

fun scan_hex :: "nat \<Rightarrow> nat \<Rightarrow> string \<Rightarrow> nat \<times> nat \<times> string" where
  "scan_hex n acc [] = (n, acc, [])"
| "scan_hex n acc (c # s) =
     (case hex_val c of
        Some v \<Rightarrow> scan_hex (Suc n) (16 * acc + v) s
      | None \<Rightarrow> (n, acc, c # s))"

definition u16_bytes :: "nat \<Rightarrow> IP" where
  "u16_bytes g = [of_nat (g div 256), of_nat g]"

text \<open>
  The loop of \<open>netip.parseIPv6\<close>: \<open>acc\<close> holds the bytes written so far (\<open>i\<close> is its length),
  \<open>ell\<close> the place of the ellipsis. The result is the state after the loop, with the part of
  the string that was not used.
\<close>

function parse_v6_loop :: "IP \<Rightarrow> nat option \<Rightarrow> string \<Rightarrow> (IP \<times> nat option \<times> string) option" where
  "parse_v6_loop acc ell s =
     (if 16 \<le> length acc then Some (acc, ell, s)
      else
        (case scan_hex 0 0 s of (n, g, r) \<Rightarrow>
           if n = 0 \<or> 4 < n then None
           else if r \<noteq> [] \<and> hd r = CHR ''.'' then
             (if ell = None \<and> length acc \<noteq> 12 then None
              else if 16 < length acc + 4 then None
              else case parse_v4 s of None \<Rightarrow> None | Some q \<Rightarrow> Some (acc @ q, ell, []))
           else
             (let acc' = acc @ u16_bytes g in
              if r = [] then Some (acc', ell, [])
              else if hd r \<noteq> CHR '':'' then None
              else if length r = 1 then None
              else if r ! 1 = CHR '':'' then
                (if ell \<noteq> None then None
                 else if length r = 2 then Some (acc', Some (length acc'), [])
                 else parse_v6_loop acc' (Some (length acc')) (drop 2 r))
              else parse_v6_loop acc' ell (drop 1 r))))"
  by pat_completeness auto
termination
  by (relation "measure (\<lambda>(acc, ell, s). 16 - length acc)") (auto simp: u16_bytes_def)

declare parse_v6_loop.simps [simp del]

definition expand_v6 :: "IP \<times> nat option \<times> string \<Rightarrow> IP option" where
  "expand_v6 r =
     (case r of (acc, ell, s) \<Rightarrow>
        if s \<noteq> [] then None
        else if length acc < 16 then
          (case ell of
             None \<Rightarrow> None
           | Some e \<Rightarrow> Some (take e acc @ replicate (16 - length acc) 0 @ drop e acc))
        else if ell \<noteq> None then None else Some acc)"

definition parse_v6 :: "string \<Rightarrow> IP option" where
  "parse_v6 s =
     (if CHR ''%'' \<in> set s then None
      else if HasPrefix s ''::'' then
        (if length s = 2 then Some (replicate 16 0)
         else Option.bind (parse_v6_loop [] (Some 0) (drop 2 s)) expand_v6)
      else Option.bind (parse_v6_loop [] None s) expand_v6)"

text \<open>\<open>netip.ParseAddr\<close> looks for the first dot, colon or percent sign. An address with a
  zone is refused by the callers, so it is \<open>None\<close> here.\<close>

definition ParseAddr :: "string \<Rightarrow> IP option" where
  "ParseAddr s =
     (case find (\<lambda>c. c = CHR ''.'' \<or> c = CHR '':'' \<or> c = CHR ''%'') s of
        None \<Rightarrow> None
      | Some c \<Rightarrow> if c = CHR ''.'' then parse_v4 s
                   else if c = CHR '':'' then parse_v6 s else None)"

definition ParseIP :: "string \<Rightarrow> IP option" where
  "ParseIP s = Option.bind (ParseAddr s) To16"

section \<open>Printing addresses\<close>

definition hex_digit :: "nat \<Rightarrow> char" where
  "hex_digit n = (if n < 10 then char_of (48 + n) else char_of (87 + n))"

function hex_str :: "nat \<Rightarrow> string" where
  "hex_str n = (if n < 16 then [hex_digit n] else hex_str (n div 16) @ [hex_digit (n mod 16)])"
  by pat_completeness auto
termination
  by (relation "measure (\<lambda>n. n)") auto

declare hex_str.simps [simp del]

definition v4_string :: "IP \<Rightarrow> string" where
  "v4_string ip = Join (map (\<lambda>b. Itoa (unat b)) ip) ''.''"

fun groups :: "IP \<Rightarrow> nat list" where
  "groups (a # b # r) = (256 * unat a + unat b) # groups r"
| "groups _ = []"

definition zero_run :: "nat list \<Rightarrow> nat" where
  "zero_run gs = length (takeWhile (\<lambda>g. g = 0) gs)"

text \<open>The search for the longest run of at least two zero groups, the first one on a tie.\<close>

fun best_run :: "nat \<Rightarrow> nat list \<Rightarrow> nat \<times> nat \<Rightarrow> nat \<times> nat" where
  "best_run i [] best = best"
| "best_run i (g # gs) best =
     (let l = zero_run (g # gs) in
      best_run (Suc i) gs (if 2 \<le> l \<and> snd best < l then (i, l) else best))"

definition v6_string :: "IP \<Rightarrow> string" where
  "v6_string ip =
     (let gs = groups ip; (st, l) = best_run 0 gs (255, 0) in
      if l = 0 then Join (map hex_str gs) '':''
      else Join (map hex_str (take st gs)) '':'' @ ''::'' @ Join (map hex_str (drop (st + l) gs)) '':'')"

text \<open>\<open>IP.String\<close>; the bytes of an address of another length are printed after a question mark.\<close>

definition hex_bytes :: "IP \<Rightarrow> string" where
  "hex_bytes ip = concat (map (\<lambda>b. [hex_digit (unat b div 16), hex_digit (unat b mod 16)]) ip)"

definition IP_String :: "IP \<Rightarrow> string" where
  "IP_String ip =
     (if ip = [] then ''<nil>''
      else if length ip \<noteq> 4 \<and> length ip \<noteq> 16 then CHR ''?'' # hex_bytes ip
      else case To4 ip of Some p4 \<Rightarrow> v4_string p4 | None \<Rightarrow> v6_string ip)"

section \<open>Networks\<close>

record IPNet =
  net_IP :: IP
  net_Mask :: IP

definition CIDRMask :: "nat \<Rightarrow> nat \<Rightarrow> IP" where
  "CIDRMask ones n = map (\<lambda>i. NOT (mask (8 - min 8 (ones - 8 * i)))) [0..<n]"

definition apply_mask :: "IP \<Rightarrow> IP \<Rightarrow> IP" where
  "apply_mask ip m = map2 (AND) ip m"

text \<open>\<open>dtoi\<close> on the whole prefix length: digits only, below 0xFFFFFF.\<close>

definition prefix_len :: "string \<Rightarrow> nat option" where
  "prefix_len s = (case parse_digits s of Some n \<Rightarrow> if n < 0xFFFFFF then Some n else None | None \<Rightarrow> None)"

text \<open>
  \<open>net.ParseCIDR\<close>, its second result. A dotted quad has 32 bits and a 4-byte mask; every
  other address, also an IPv4-mapped one, has 128 bits.
\<close>

definition ParseCIDR :: "string \<Rightarrow> IPNet option" where
  "ParseCIDR s =
     (case IndexByte s CHR ''/'' of
        None \<Rightarrow> None
      | Some i \<Rightarrow>
          (case (ParseAddr (take i s), prefix_len (drop (Suc i) s)) of
             (Some a, Some n) \<Rightarrow>
               if 8 * length a < n then None
               else (let m = CIDRMask n (length a)
                     in Some \<lparr>net_IP = apply_mask a m, net_Mask = m\<rparr>)
           | _ \<Rightarrow> None))"

text \<open>Its first result, the address before masking, in 16-byte form.\<close>

definition ParseCIDR_IP :: "string \<Rightarrow> IP option" where
  "ParseCIDR_IP s =
     (case (ParseCIDR s, IndexByte s CHR ''/'') of
        (Some _, Some i) \<Rightarrow> ParseIP (take i s)
      | _ \<Rightarrow> None)"

text \<open>\<open>networkNumberAndMask\<close> and \<open>IPNet.Contains\<close>.\<close>

definition networkNumberAndMask :: "IPNet \<Rightarrow> (IP \<times> IP) option" where
  "networkNumberAndMask n =
     (let ip = (case To4 (net_IP n) of Some p4 \<Rightarrow> p4 | None \<Rightarrow> net_IP n); m = net_Mask n in
      if length ip \<noteq> 4 \<and> length ip \<noteq> 16 then None
      else if length m = 4 then (if length ip = 4 then Some (ip, m) else None)
      else if length m = 16 then Some (ip, if length ip = 4 then drop 12 m else m)
      else None)"

definition IPNet_Contains :: "IPNet \<Rightarrow> IP \<Rightarrow> bool" where
  "IPNet_Contains n ip =
     (let x = (case To4 ip of Some p4 \<Rightarrow> p4 | None \<Rightarrow> ip) in
      case networkNumberAndMask n of
        None \<Rightarrow> x = []
      | Some (nn, m) \<Rightarrow> length x = length nn \<and> apply_mask nn m = apply_mask x m)"

text \<open>\<open>IPMask.Size\<close>: the number of leading ones of a canonical mask.\<close>

definition mask_ones :: "IP \<Rightarrow> nat" where
  "mask_ones m = sum_list (map (\<lambda>b. length (filter (bit b) [0..<8])) m)"

section \<open>Host and port\<close>

definition JoinHostPort :: "string \<Rightarrow> string \<Rightarrow> string" where
  "JoinHostPort host port =
     (if CHR '':'' \<in> set host then ''['' @ host @ '']:'' @ port else host @ '':'' @ port)"

datatype addr_error = MissingPort | TooManyColons | MissingBracket | UnexpectedOpen | UnexpectedClose

fun addr_reason :: "addr_error \<Rightarrow> string" where
  "addr_reason MissingPort = ''missing port in address''"
| "addr_reason TooManyColons = ''too many colons in address''"
| "addr_reason MissingBracket = ''missing '' @ [char_of (39::nat)] @ '']'' @ [char_of (39::nat)] @ '' in address''"
| "addr_reason UnexpectedOpen = ''unexpected '' @ [char_of (39::nat)] @ ''['' @ [char_of (39::nat)] @ '' in address''"
| "addr_reason UnexpectedClose = ''unexpected '' @ [char_of (39::nat)] @ '']'' @ [char_of (39::nat)] @ '' in address''"

text \<open>The text of a \<open>net.AddrError\<close>, which holds the address itself.\<close>

definition addr_error_text :: "string \<Rightarrow> addr_error \<Rightarrow> string" where
  "addr_error_text hp e = ''address '' @ hp @ '': '' @ addr_reason e"

text \<open>The brackets that may still appear: \<open>j\<close> and \<open>k\<close> are where the search starts.\<close>

definition check_brackets :: "string \<Rightarrow> nat \<Rightarrow> nat \<Rightarrow> string \<Rightarrow> nat \<Rightarrow> addr_error + (string \<times> string)" where
  "check_brackets hp j k host i =
     (if CHR ''['' \<in> set (drop j hp) then Inl UnexpectedOpen
      else if CHR '']'' \<in> set (drop k hp) then Inl UnexpectedClose
      else Inr (host, drop (i + 1) hp))"

definition SplitHostPort :: "string \<Rightarrow> addr_error + (string \<times> string)" where
  "SplitHostPort hp =
     (case LastIndexByte hp CHR '':'' of
        None \<Rightarrow> Inl MissingPort
      | Some i \<Rightarrow>
          if hp ! 0 = CHR ''['' then
            (case IndexByte hp CHR '']'' of
               None \<Rightarrow> Inl MissingBracket
             | Some e \<Rightarrow>
                 if e + 1 = length hp then Inl MissingPort
                 else if e + 1 = i then check_brackets hp 1 (e + 1) (take (e - 1) (drop 1 hp)) i
                 else if hp ! (e + 1) = CHR '':'' then Inl TooManyColons
                 else Inl MissingPort)
          else if CHR '':'' \<in> set (take i hp) then Inl TooManyColons
          else check_brackets hp 0 0 (take i hp) i)"

lemma LastIndexByte_append: "c \<notin> set b \<Longrightarrow> LastIndexByte (a @ c # b) c = Some (length a)"
  using IndexByte_append [of c "rev b" "rev a"] by (simp add: LastIndexByte_def)

lemma SplitHostPort_Join:
  assumes "CHR ''['' \<notin> set host" "CHR '']'' \<notin> set host"
    and "CHR '':'' \<notin> set port" "CHR ''['' \<notin> set port" "CHR '']'' \<notin> set port"
  shows "SplitHostPort (JoinHostPort host port) = Inr (host, port)"
proof (cases "CHR '':'' \<in> set host")
  case True
  have "LastIndexByte ((''['' @ host @ '']'') @ CHR '':'' # port) CHR '':'' = Some (length host + 2)"
    using LastIndexByte_append [OF assms(3), of "''['' @ host @ '']''"] by simp
  moreover have "IndexByte ((''['' @ host) @ CHR '']'' # '':'' @ port) CHR '']'' = Some (length host + 1)"
    using IndexByte_append [of "CHR '']''" "''['' @ host" "'':'' @ port"] assms(2) by simp
  ultimately show ?thesis
    using True assms by (simp add: JoinHostPort_def SplitHostPort_def check_brackets_def)
next
  case False
  have "(host @ CHR '':'' # port) ! 0 \<noteq> CHR ''[''" using assms(1) by (cases host) auto
  then show ?thesis
    using False assms LastIndexByte_append [OF assms(3), of host]
    by (simp add: JoinHostPort_def SplitHostPort_def check_brackets_def)
qed

section \<open>Reading back what is printed\<close>

lemma Itoa_hd_zero: "hd (Itoa n) = CHR ''0'' \<Longrightarrow> Itoa n = ''0''"
proof (induction n rule: Itoa.induct)
  case (1 n)
  show ?case
  proof (cases "n < 10")
    case True
    then show ?thesis using "1.prems" by (simp add: Itoa.simps [of n])
  next
    case False
    then have "hd (Itoa (n div 10)) = CHR ''0''" using "1.prems" by (simp add: Itoa.simps [of n])
    then have "Itoa (n div 10) = Itoa 0" using "1.IH" False by (simp add: Itoa.simps [of 0] eq_char_of_iff)
    then have "n div 10 = 0" by (simp only: Itoa_inj)
    with False show ?thesis by simp
  qed
qed

lemma parse_octet_Itoa: "parse_octet (Itoa (unat (b :: u8))) = Some b"
proof -
  have "unat b \<le> 255" using unsigned_less [of b, where ?'a = nat] by simp
  then show ?thesis using Itoa_hd_zero [of "unat b"] by (auto simp: parse_octet_def Itoa_digits)
qed

lemma Itoa_no_dot: "CHR ''.'' \<notin> set (Itoa n)" "CHR '':'' \<notin> set (Itoa n)" "CHR ''%'' \<notin> set (Itoa n)"
  using Itoa_digits [of n] by (auto simp: list_all_iff is_digit_def code_def)

lemma parse_v4_string:
  assumes "length ip = 4"
  shows "parse_v4 (v4_string ip) = Some ip"
proof -
  from assms obtain a b c d where ip: "ip = [a, b, c, d]"
    by (auto simp: numeral_eq_Suc length_Suc_conv)
  let ?ws = "map (\<lambda>b. Itoa (unat b)) ip"
  have "Split (Join ?ws ''.'') CHR ''.'' = ?ws"
    using ip Itoa_no_dot by (intro Split_Join) auto
  then show ?thesis by (simp add: parse_v4_def v4_string_def ip parse_octet_Itoa)
qed

lemma find_append_first: "\<forall>c\<in>set a. \<not> P c \<Longrightarrow> P x \<Longrightarrow> find P (a @ x # b) = Some x"
  by (induction a) auto

lemma ParseAddr_v4_string:
  assumes "length ip = 4"
  shows "ParseAddr (v4_string ip) = Some ip"
proof -
  from assms obtain a b c d where ip: "ip = [a, b, c, d]"
    by (auto simp: numeral_eq_Suc length_Suc_conv)
  then have "find (\<lambda>c. c = CHR ''.'' \<or> c = CHR '':'' \<or> c = CHR ''%'') (v4_string ip) = Some CHR ''.''"
    using Itoa_no_dot [of "unat a"] by (simp add: v4_string_def) (intro find_append_first; auto)
  then show ?thesis using parse_v4_string [OF assms] by (simp add: ParseAddr_def)
qed

lemma hex_val_digit: "n < 16 \<Longrightarrow> hex_val (hex_digit n) = Some n"
  by (auto simp: hex_val_def hex_digit_def is_digit_def)

lemma scan_hex_append:
  "list_all (\<lambda>c. hex_val c \<noteq> None) s \<Longrightarrow>
   scan_hex n acc (s @ t) = scan_hex (n + length s) (foldl (\<lambda>a c. 16 * a + the (hex_val c)) acc s) t"
  by (induction s arbitrary: n acc) auto

lemma hex_str_digits: "list_all (\<lambda>c. hex_val c \<noteq> None) (hex_str g)"
proof (induction g rule: hex_str.induct)
  case (1 g)
  then show ?case by (subst hex_str.simps) (auto simp: hex_val_digit)
qed

lemma hex_str_value: "foldl (\<lambda>a c. 16 * a + the (hex_val c)) 0 (hex_str g) = g"
proof (induction g rule: hex_str.induct)
  case (1 g)
  then show ?case by (subst hex_str.simps) (auto simp: hex_val_digit)
qed

lemma hex_str_not_Nil [simp]: "hex_str g \<noteq> []"
  by (subst hex_str.simps) simp

lemma hex_str_length: "g < 16 ^ Suc k \<Longrightarrow> length (hex_str g) \<le> Suc k"
proof (induction k arbitrary: g)
  case 0
  then show ?case by (subst hex_str.simps) simp
next
  case (Suc k)
  then have "g div 16 < 16 ^ Suc k" by (simp add: less_mult_imp_div_less)
  with Suc.IH [of "g div 16"] show ?case by (subst hex_str.simps) simp
qed

lemma scan_hex_str:
  assumes "t = [] \<or> hex_val (hd t) = None"
  shows "scan_hex 0 0 (hex_str g @ t) = (length (hex_str g), g, t)"
  using assms scan_hex_append [OF hex_str_digits, of 0 0 g t] by (cases t) (simp_all add: hex_str_value)

lemma hex_val_colon [simp]: "hex_val CHR '':'' = None"
  by (simp add: hex_val_def is_digit_def code_def)

lemma parse_group_last:
  assumes "length acc < 16" "g < 65536"
  shows "parse_v6_loop acc ell (hex_str g) = Some (acc @ u16_bytes g, ell, [])"
proof -
  have "length (hex_str g) \<le> 4" using hex_str_length [of g 3] assms(2) by simp
  then show ?thesis
    using scan_hex_str [of "[]" g] assms(1) by (subst parse_v6_loop.simps) simp
qed

lemma parse_group_colon:
  assumes "length acc < 16" "g < 65536" "t \<noteq> []" "hd t \<noteq> CHR '':''"
  shows "parse_v6_loop acc ell (hex_str g @ '':'' @ t) = parse_v6_loop (acc @ u16_bytes g) ell t"
proof -
  have "length (hex_str g) \<le> 4" using hex_str_length [of g 3] assms(2) by simp
  then show ?thesis
    using scan_hex_str [of "'':'' @ t" g] assms
    by (subst parse_v6_loop.simps) (auto simp: hd_conv_nth)
qed

lemma parse_group_ellipsis:
  assumes "length acc < 16" "g < 65536"
  shows "parse_v6_loop acc None (hex_str g @ ''::'' @ t) =
     (if t = [] then Some (acc @ u16_bytes g, Some (length acc + 2), [])
      else parse_v6_loop (acc @ u16_bytes g) (Some (length acc + 2)) t)"
proof -
  have "length (hex_str g) \<le> 4" using hex_str_length [of g 3] assms(2) by simp
  then show ?thesis
    using scan_hex_str [of "''::'' @ t" g] assms
    by (subst parse_v6_loop.simps) (auto simp: u16_bytes_def)
qed

abbreviation hex_groups :: "nat list \<Rightarrow> string" where
  "hex_groups gs \<equiv> Join (map hex_str gs) '':''"

abbreviation group_bytes :: "nat list \<Rightarrow> IP" where
  "group_bytes gs \<equiv> concat (map u16_bytes gs)"

lemma length_group_bytes [simp]: "length (group_bytes gs) = 2 * length gs"
  by (induction gs) (simp_all add: u16_bytes_def)

lemma hex_str_hd: "hd (hex_str g @ t) \<noteq> CHR '':''"
proof -
  have "hex_val (hd (hex_str g)) \<noteq> None"
    using hex_str_digits [of g] by (cases "hex_str g") simp_all
  then show ?thesis by (metis hd_append2 hex_str_not_Nil hex_val_colon)
qed

lemma hex_groups_hd: "gs \<noteq> [] \<Longrightarrow> hd (hex_groups gs @ t) \<noteq> CHR '':'' \<and> hex_groups gs \<noteq> []"
  using hex_str_hd by (cases "(map hex_str gs, '':'')" rule: Join.cases) auto

lemma parse_groups:
  "gs \<noteq> [] \<Longrightarrow> \<forall>g\<in>set gs. g < 65536 \<Longrightarrow> length acc + 2 * length gs \<le> 16 \<Longrightarrow>
   parse_v6_loop acc ell (hex_groups gs) = Some (acc @ group_bytes gs, ell, [])"
proof (induction gs arbitrary: acc)
  case (Cons g gs)
  show ?case
  proof (cases gs)
    case Nil
    then show ?thesis using Cons.prems parse_group_last by simp
  next
    case (Cons h hs)
    have "parse_v6_loop acc ell (hex_str g @ '':'' @ hex_groups gs) = parse_v6_loop (acc @ u16_bytes g) ell (hex_groups gs)"
      using Cons Cons.prems hex_groups_hd [of gs "[]"] by (intro parse_group_colon) auto
    then show ?thesis using Cons Cons.prems Cons.IH [of "acc @ u16_bytes g"] by (simp add: u16_bytes_def)
  qed
qed simp

lemma parse_groups_ellipsis:
  "gs \<noteq> [] \<Longrightarrow> \<forall>g\<in>set gs. g < 65536 \<Longrightarrow> length acc + 2 * length gs \<le> 16 \<Longrightarrow>
   parse_v6_loop acc None (hex_groups gs @ ''::'' @ t) =
     (let a = acc @ group_bytes gs in
      if t = [] then Some (a, Some (length a), []) else parse_v6_loop a (Some (length a)) t)"
proof (induction gs arbitrary: acc)
  case (Cons g gs)
  show ?case
  proof (cases gs)
    case Nil
    then show ?thesis using Cons.prems parse_group_ellipsis [of acc g t] by (simp add: u16_bytes_def Let_def)
  next
    case (Cons h hs)
    have "parse_v6_loop acc None (hex_str g @ '':'' @ hex_groups gs @ ''::'' @ t) =
        parse_v6_loop (acc @ u16_bytes g) None (hex_groups gs @ ''::'' @ t)"
      using Cons Cons.prems hex_groups_hd [of gs "''::'' @ t"] by (intro parse_group_colon) auto
    then show ?thesis using Cons Cons.prems Cons.IH [of "acc @ u16_bytes g"] by (simp add: u16_bytes_def)
  qed
qed simp

lemma groups_bytes: "even (length ip) \<Longrightarrow> group_bytes (groups ip) = ip"
proof (induction ip rule: groups.induct)
  case (1 a b r)
  have "(256 :: u8) = 0" by simp
  then have "(256 :: u8) * a = 0" by (metis mult_zero_left)
  moreover have "unat b < 256" using unsigned_less [of b, where ?'a = nat] by simp
  ultimately show ?case using 1 by (simp add: u16_bytes_def)
qed auto

lemma groups_less: "g \<in> set (groups ip) \<Longrightarrow> g < 65536"
proof (induction ip rule: groups.induct)
  case (1 a b r)
  have "unat a < 256" "unat b < 256" using unsigned_less [of a, where ?'a = nat] unsigned_less [of b, where ?'a = nat] by simp_all
  with 1 show ?case by auto
qed simp_all

lemma length_groups: "length (groups ip) = length ip div 2"
  by (induction ip rule: groups.induct) auto

text \<open>The run that \<open>best_run\<close> chooses holds zeros only and lies inside the list.\<close>

definition zero_span :: "nat list \<Rightarrow> nat \<times> nat \<Rightarrow> bool" where
  "zero_span gs r \<longleftrightarrow> snd r = 0 \<or> fst r + snd r \<le> length gs \<and> take (snd r) (drop (fst r) gs) = replicate (snd r) 0"

lemma zero_run_span: "take (zero_run gs) gs = replicate (zero_run gs) 0" "zero_run gs \<le> length gs"
proof -
  let ?w = "takeWhile (\<lambda>g. g = 0) gs"
  have "\<forall>x\<in>set ?w. x = 0" by (auto dest: set_takeWhileD)
  then have "?w = replicate (length ?w) 0" by (rule replicate_length_same [symmetric])
  moreover have "take (length ?w) gs = ?w" by (metis takeWhile_eq_take)
  ultimately show "take (zero_run gs) gs = replicate (zero_run gs) 0" by (simp add: zero_run_def)
  show "zero_run gs \<le> length gs" by (simp add: zero_run_def length_takeWhile_le)
qed

lemma best_run_span:
  "zero_span all best \<Longrightarrow> drop i all = gs \<Longrightarrow> zero_span all (best_run i gs best)"
proof (induction i gs best rule: best_run.induct)
  case (2 i g gs best)
  let ?l = "zero_run (g # gs)"
  have "i + ?l \<le> length all"
    using "2.prems"(2) zero_run_span(2) [of "g # gs"] by (metis length_drop le_diff_conv2 drop_all list.distinct(1) nat_le_linear add.commute)
  then have "zero_span all (i, ?l)" using "2.prems"(2) zero_run_span(1) [of "g # gs"] by (simp add: zero_span_def)
  moreover have "drop (Suc i) all = gs" using "2.prems"(2) by (metis drop_Suc list.sel(3) tl_drop)
  ultimately show ?case using "2.IH" [OF refl, of ] "2.prems" by (simp add: Let_def)
qed simp

lemma hex_groups_chars: "c \<in> set (hex_groups gs) \<Longrightarrow> hex_val c \<noteq> None \<or> c = CHR '':''"
  using set_Join [of "map hex_str gs" "'':''"] hex_str_digits by (fastforce simp: list_all_iff)

lemma hex_char: "hex_val c \<noteq> None \<Longrightarrow> c \<noteq> CHR ''.'' \<and> c \<noteq> CHR ''%'' \<and> c \<noteq> CHR '':''"
  by (auto simp: hex_val_def is_digit_def code_def)

lemma best_run_start: "zero_span gs (best_run 0 gs (255, 0))"
  by (rule best_run_span) (simp_all add: zero_span_def)

lemma zero_group_bytes: "concat (replicate n (u16_bytes 0)) = replicate (2 * n) 0"
  by (induction n) (simp_all add: u16_bytes_def)

lemma expand_ellipsis:
  assumes "length as + l + length bs = 8" "0 < l"
  shows "expand_v6 (group_bytes as @ group_bytes bs, Some (2 * length as), []) =
     Some (group_bytes (as @ replicate l 0 @ bs))"
proof -
  have "16 - (2 * length as + 2 * length bs) = 2 * l" using assms(1) by simp
  then show ?thesis using assms by (simp add: expand_v6_def zero_group_bytes)
qed

lemma no_percent: "CHR ''%'' \<notin> set (hex_groups gs)"
  using hex_groups_chars [of "CHR ''%''"] by (auto simp: hex_val_def is_digit_def code_def)

lemma hex_groups_Nil: "hex_groups gs = [] \<longleftrightarrow> gs = []"
  using hex_groups_hd [of gs] by auto

lemma not_ellipsis_start: "gs \<noteq> [] \<Longrightarrow> \<not> HasPrefix (hex_groups gs @ t) ''::''"
  using hex_groups_hd [of gs t] by (cases "hex_groups gs @ t") auto

lemma parse_v6_ellipsis:
  assumes len: "length as + l + length bs = 8" "0 < l" and lt: "\<forall>g\<in>set as \<union> set bs. g < 65536"
  shows "parse_v6 (hex_groups as @ ''::'' @ hex_groups bs) = Some (group_bytes (as @ replicate l 0 @ bs))"
proof -
  note ex = expand_ellipsis [OF len]
  have np: "CHR ''%'' \<notin> set (hex_groups as @ ''::'' @ hex_groups bs)" using no_percent by simp
  have B: "parse_v6_loop acc ell (hex_groups bs) = Some (acc @ group_bytes bs, ell, [])"
    if "bs \<noteq> []" "length acc = 2 * length as" for acc ell
    using that lt len by (intro parse_groups) auto
  show ?thesis
  proof (cases "as = []")
    case True
    then show ?thesis
      using np B [of "[]" "Some 0"] ex hex_groups_Nil [of bs] len zero_group_bytes [of 8]
      by (cases "bs = []") (auto simp: parse_v6_def)
  next
    case a: False
    have "parse_v6_loop [] None (hex_groups as @ ''::'' @ hex_groups bs) =
        Some (group_bytes as @ group_bytes bs, Some (2 * length as), [])"
      using parse_groups_ellipsis [OF a, of "[]" "hex_groups bs"] lt len hex_groups_Nil [of bs]
        B [of "group_bytes as" "Some (2 * length as)"] by (cases "bs = []") (simp_all add: Let_def)
    then show ?thesis using np ex not_ellipsis_start [OF a] by (simp add: parse_v6_def)
  qed
qed

lemma parse_v6_string:
  assumes "length ip = 16"
  shows "parse_v6 (v6_string ip) = Some ip"
proof -
  define gs where "gs = groups ip"
  obtain st l where b: "best_run 0 gs (255, 0) = (st, l)" by force
  have len: "length gs = 8" and lt: "\<forall>g\<in>set gs. g < 65536" and ip: "group_bytes gs = ip"
    using assms groups_bytes [of ip] groups_less by (auto simp: gs_def length_groups)
  have ne: "gs \<noteq> []" using len by auto
  show ?thesis
  proof (cases "l = 0")
    case True
    then have "v6_string ip = hex_groups gs" using b by (simp add: v6_string_def gs_def Let_def)
    moreover have "parse_v6_loop [] None (hex_groups gs) = Some (ip, None, [])"
      using parse_groups [OF ne lt, of "[]" None] len ip by simp
    ultimately show ?thesis
      using assms no_percent [of gs] not_ellipsis_start [OF ne, of "[]"] by (simp add: parse_v6_def expand_v6_def)
  next
    case False
    let ?a = "take st gs" and ?b = "drop (st + l) gs"
    have span: "st + l \<le> 8" "take l (drop st gs) = replicate l 0"
      using best_run_start [of gs] False len by (simp_all add: b zero_span_def)
    have split: "gs = ?a @ replicate l 0 @ ?b"
      by (metis append_take_drop_id drop_drop add.commute span(2))
    have "v6_string ip = hex_groups ?a @ ''::'' @ hex_groups ?b"
      using b False by (simp add: v6_string_def gs_def Let_def)
    then show ?thesis
      using parse_v6_ellipsis [of ?a l ?b] False span(1) len lt split ip
      by (auto dest: in_set_takeD in_set_dropD)
  qed
qed

lemma find_colon: "c \<in> set s \<Longrightarrow> c = CHR '':'' \<Longrightarrow> \<forall>d\<in>set s. d \<noteq> CHR ''.'' \<and> d \<noteq> CHR ''%'' \<Longrightarrow>
  find (\<lambda>c. c = CHR ''.'' \<or> c = CHR '':'' \<or> c = CHR ''%'') s = Some CHR '':''"
  by (induction s) auto

lemma Join_colon: "2 \<le> length ws \<Longrightarrow> c \<in> set (Join ws [c])"
  by (cases "(ws, [c])" rule: Join.cases) auto

lemma v6_string_chars:
  assumes "length ip = 16"
  shows "CHR '':'' \<in> set (v6_string ip)" "\<forall>c\<in>set (v6_string ip). c \<noteq> CHR ''.'' \<and> c \<noteq> CHR ''%''"
proof -
  have "length (map hex_str (groups ip)) = 8" using assms by (simp add: length_groups)
  then have "CHR '':'' \<in> set (hex_groups (groups ip))" by (intro Join_colon) simp
  then show "CHR '':'' \<in> set (v6_string ip)" by (cases "best_run 0 (groups ip) (255, 0)") (simp add: v6_string_def Let_def)
  have "c \<noteq> CHR ''.'' \<and> c \<noteq> CHR ''%''" if "c \<in> set (hex_groups gs)" for c gs
    using hex_groups_chars [OF that] hex_char [of c] by auto
  then show "\<forall>c\<in>set (v6_string ip). c \<noteq> CHR ''.'' \<and> c \<noteq> CHR ''%''"
    by (auto simp: v6_string_def Let_def split: prod.splits if_splits)
qed

lemma ParseAddr_v6_string: "length ip = 16 \<Longrightarrow> ParseAddr (v6_string ip) = Some ip"
  using find_colon [OF v6_string_chars(1) refl v6_string_chars(2)] parse_v6_string by (simp add: ParseAddr_def)

text \<open>What \<open>IP.String\<close> prints, \<open>net.ParseIP\<close> reads back, as the 16-byte form of the address.\<close>

lemma ParseIP_String:
  assumes "length ip = 4 \<or> length ip = 16"
  shows "ParseIP (IP_String ip) = To16 ip"
proof (cases "To4 ip")
  case None
  then have "length ip = 16" using assms by (auto simp: To4_def)
  then show ?thesis using None ParseAddr_v6_string [of ip] by (auto simp: ParseIP_def IP_String_def)
next
  case (Some p)
  then have p: "length p = 4" "To16 ip = To16 p"
    using assms by (auto simp: To4_def To16_def split: if_splits) (metis append_take_drop_id)
  then have "IP_String ip = v4_string p" using Some assms by (auto simp: IP_String_def)
  then show ?thesis using ParseAddr_v4_string [OF p(1)] p(2) by (simp add: ParseIP_def)
qed

lemma ParseIP_length: "ParseIP s = Some ip \<Longrightarrow> length ip = 16"
  by (auto simp: ParseIP_def To16_def v4InV6Prefix_def Option.bind_eq_Some_conv split: if_splits)

end
