(* ===== verification/Go_Regexp.thy ===== *)
theory Go_Regexp
  imports Abox_Prelude
begin

text \<open>
  The fragment of Go's \<open>regexp\<close> syntax the validators use. Every pattern of the program is
  anchored with \<open>^\<close> and \<open>$\<close>, and neither flag \<open>m\<close> nor \<open>s\<close> is set, so \<open>MatchString\<close> is
  membership of the whole string in the pattern's language. The patterns are translated
  constructor by constructor into \<open>rx\<close>; \<open>rx_match\<close> decides membership with derivatives and
  \<open>rx_match_lang\<close> shows that it decides the language \<open>lang\<close>.
\<close>

datatype rx =
    Zero
  | One
  | Cls "char \<Rightarrow> bool"
  | Alt rx rx
  | Seq rx rx
  | Star rx

abbreviation Chr :: "char \<Rightarrow> rx" where
  "Chr c \<equiv> Cls (\<lambda>d. d = c)"

definition Opt :: "rx \<Rightarrow> rx" where
  "Opt r = Alt r One"

definition Plus :: "rx \<Rightarrow> rx" where
  "Plus r = Seq r (Star r)"

text \<open>\<open>r{0,n}\<close> and \<open>r{n}\<close>.\<close>

primrec UpTo :: "rx \<Rightarrow> nat \<Rightarrow> rx" where
  "UpTo r 0 = One"
| "UpTo r (Suc n) = Alt One (Seq r (UpTo r n))"

primrec Times :: "rx \<Rightarrow> nat \<Rightarrow> rx" where
  "Times r 0 = One"
| "Times r (Suc n) = Seq r (Times r n)"

fun Lit :: "string \<Rightarrow> rx" where
  "Lit [] = One"
| "Lit (c # s) = Seq (Chr c) (Lit s)"

fun AltList :: "rx list \<Rightarrow> rx" where
  "AltList [] = Zero"
| "AltList (r # rs) = Alt r (AltList rs)"

section \<open>The language of a pattern\<close>

inductive_set star :: "string set \<Rightarrow> string set" for L where
  star_Nil: "[] \<in> star L"
| star_step: "u \<in> L \<Longrightarrow> v \<in> star L \<Longrightarrow> u @ v \<in> star L"

primrec lang :: "rx \<Rightarrow> string set" where
  "lang Zero = {}"
| "lang One = {[]}"
| "lang (Cls p) = {[c] | c. p c}"
| "lang (Alt r s) = lang r \<union> lang s"
| "lang (Seq r s) = {u @ v | u v. u \<in> lang r \<and> v \<in> lang s}"
| "lang (Star r) = star (lang r)"

section \<open>Matching by derivatives\<close>

primrec nullable :: "rx \<Rightarrow> bool" where
  "nullable Zero = False"
| "nullable One = True"
| "nullable (Cls p) = False"
| "nullable (Alt r s) = (nullable r \<or> nullable s)"
| "nullable (Seq r s) = (nullable r \<and> nullable s)"
| "nullable (Star r) = True"

primrec deriv :: "char \<Rightarrow> rx \<Rightarrow> rx" where
  "deriv c Zero = Zero"
| "deriv c One = Zero"
| "deriv c (Cls p) = (if p c then One else Zero)"
| "deriv c (Alt r s) = Alt (deriv c r) (deriv c s)"
| "deriv c (Seq r s) =
     (if nullable r then Alt (Seq (deriv c r) s) (deriv c s) else Seq (deriv c r) s)"
| "deriv c (Star r) = Seq (deriv c r) (Star r)"

fun rx_match :: "rx \<Rightarrow> string \<Rightarrow> bool" where
  "rx_match r [] = nullable r"
| "rx_match r (c # s) = rx_match (deriv c r) s"

lemma nullable_lang: "nullable r \<longleftrightarrow> [] \<in> lang r"
  by (induction r) (auto intro: star_Nil)

lemma star_Cons:
  assumes "c # w \<in> star L"
  shows "\<exists>u v. c # u \<in> L \<and> v \<in> star L \<and> w = u @ v"
proof -
  have "x \<in> star L \<Longrightarrow> x = c # w \<Longrightarrow> \<exists>u v. c # u \<in> L \<and> v \<in> star L \<and> w = u @ v" for x w
  proof (induction x arbitrary: w rule: star.induct)
    case (star_step u v)
    then show ?case by (cases u) auto
  qed simp
  with assms show ?thesis by blast
qed

lemma deriv_lang: "w \<in> lang (deriv c r) \<longleftrightarrow> c # w \<in> lang r"
proof (induction r arbitrary: w)
  case (Seq r s)
  have "c # w \<in> lang (Seq r s) \<longleftrightarrow>
      (\<exists>u v. w = u @ v \<and> c # u \<in> lang r \<and> v \<in> lang s) \<or> ([] \<in> lang r \<and> c # w \<in> lang s)"
    by (auto simp: Cons_eq_append_conv)
  with Seq show ?case by (auto simp: nullable_lang)
next
  case (Star r)
  have "c # w \<in> star (lang r) \<longleftrightarrow> (\<exists>u v. c # u \<in> lang r \<and> v \<in> star (lang r) \<and> w = u @ v)"
    using star_Cons star_step [of "c # _" "lang r"] by fastforce
  with Star show ?case by auto
qed auto

theorem rx_match_lang: "rx_match r s \<longleftrightarrow> s \<in> lang r"
  by (induction r s rule: rx_match.induct) (simp_all add: nullable_lang deriv_lang)

section \<open>Languages of the usual shapes\<close>

named_theorems rx_lang \<open>closed forms of pattern languages\<close>

lemma star_Cls: "s \<in> star {[c] | c. p c} \<longleftrightarrow> list_all p s"
proof
  assume "s \<in> star {[c] | c. p c}"
  then show "list_all p s" by induction auto
next
  assume "list_all p s"
  then show "s \<in> star {[c] | c. p c}"
  proof (induction s)
    case (Cons a s)
    then show ?case using star_step [of "[a]" "{[c] | c. p c}" s] by auto
  qed (simp add: star_Nil)
qed

lemma lang_Star_Cls [rx_lang]: "s \<in> lang (Star (Cls p)) \<longleftrightarrow> list_all p s"
  by (simp add: star_Cls)

lemma lang_Opt [rx_lang]: "s \<in> lang (Opt r) \<longleftrightarrow> s = [] \<or> s \<in> lang r"
  by (auto simp: Opt_def)

lemma lang_Cls [rx_lang]: "s \<in> lang (Cls p) \<longleftrightarrow> (\<exists>c. s = [c] \<and> p c)"
  by simp

lemma lang_Alt [rx_lang]: "s \<in> lang (Alt q r) \<longleftrightarrow> s \<in> lang q \<or> s \<in> lang r"
  by simp

lemma lang_Seq_Cls [rx_lang]:
  "s \<in> lang (Seq (Cls p) r) \<longleftrightarrow> (\<exists>c t. s = c # t \<and> p c \<and> t \<in> lang r)"
  by auto (metis append_Cons append_Nil)

lemma lang_Seq_last [rx_lang]:
  "s \<in> lang (Seq r (Cls p)) \<longleftrightarrow> (\<exists>c t. s = t @ [c] \<and> p c \<and> t \<in> lang r)"
  by auto

lemma lang_Plus_Cls [rx_lang]: "s \<in> lang (Plus (Cls p)) \<longleftrightarrow> s \<noteq> [] \<and> list_all p s"
  by (cases s) (auto simp: Plus_def star_Cls lang_Seq_Cls simp del: lang.simps(5))

lemma lang_Lit [rx_lang]: "s \<in> lang (Lit t) \<longleftrightarrow> s = t"
  by (induction t arbitrary: s) auto

lemma lang_AltList [rx_lang]: "s \<in> lang (AltList rs) \<longleftrightarrow> (\<exists>r\<in>set rs. s \<in> lang r)"
  by (induction rs) auto

lemma lang_UpTo_Cls [rx_lang]:
  "s \<in> lang (UpTo (Cls p) n) \<longleftrightarrow> length s \<le> n \<and> list_all p s"
proof (induction n arbitrary: s)
  case (Suc n)
  then show ?case by (cases s) (auto simp: lang_Seq_Cls simp del: lang.simps(5))
qed auto

lemma lang_Times_Cls [rx_lang]:
  "s \<in> lang (Times (Cls p) n) \<longleftrightarrow> length s = n \<and> list_all p s"
proof (induction n arbitrary: s)
  case (Suc n)
  then show ?case by (cases s) (auto simp: lang_Seq_Cls simp del: lang.simps(5))
qed auto

declare lang.simps [simp del]

end
