(* ===== verification/Validation.thy ===== *)
theory Validation
  imports Go_Net Go_Regexp
begin

text \<open>
  \<^verbatim>\<open>internal/validation/validation.go\<close>: the validators every security-sensitive value goes
  through. A validator returns \<open>None\<close> for Go's \<open>nil\<close> and \<open>Some e\<close> for an error, where \<open>e\<close> names
  the return statement and carries the values its message prints. The compiled patterns are
  translated into \<open>rx\<close>; the lemmas named \<open>_iff\<close> give the closed form of what a validator
  accepts, and the properties at the end of the theory state what the rest of the program
  relies on.
\<close>

datatype val_error =
    NameEmpty | NameTooLong nat | NameInvalid string
  | MACEmpty | MACInvalid string
  | SnapshotEmpty | SnapshotTooLong | SnapshotInvalid string
  | DomainEmpty | DomainControl | DomainEmptyAfterStrip | DomainTooLong nat
  | DomainEmptyLabel | DomainLabelTooLong string | DomainLabelInvalid string
  | SSHUserEmpty | SSHUserTooLong nat | SSHUserInvalid string
  | CPUsRange int | MemoryRange int
  | DiskSizeInvalid string | DiskSizeSuffix string | DiskSizeNotPositive string
  | DiskSizeTooSmall string | DiskSizeTooLarge string
  | PubKeyEmpty | PubKeyControl nat | PubKeyFormat | PubKeyTooLong nat
  | LogLevelInvalid string | LogFormatInvalid string
  | SecretKeyInvalid string | HeaderNameInvalid string | HeaderValueControl nat
  | IPv4Invalid string
  | YAMLControl string nat | YAMLChar string char nat
  | TetragonVersionInvalid string

section \<open>Names\<close>

definition name_char :: "char \<Rightarrow> bool" where
  [go_char, go_eval]: "name_char c \<longleftrightarrow> is_alnum c \<or> c = CHR ''_'' \<or> c = CHR ''-''"

definition validInstanceNameRegex :: rx where
  "validInstanceNameRegex = Seq (Cls is_alpha) (UpTo (Cls name_char) 62)"

definition ValidateInstanceName :: "string \<Rightarrow> val_error option" where
  "ValidateInstanceName name =
     (if name = [] then Some NameEmpty
      else if 63 < length name then Some (NameTooLong (length name))
      else if \<not> rx_match validInstanceNameRegex name then Some (NameInvalid name)
      else None)"

definition hexdig :: "char \<Rightarrow> bool" where
  [go_char, go_eval]: "hexdig c \<longleftrightarrow> is_digit c \<or> (65 \<le> code c \<and> code c \<le> 70) \<or> (97 \<le> code c \<and> code c \<le> 102)"

definition validMACAddressRegex :: rx where
  "validMACAddressRegex =
     Seq (Times (Seq (Times (Cls hexdig) 2) (Chr CHR '':'')) 5) (Times (Cls hexdig) 2)"

definition ValidateMACAddress :: "string \<Rightarrow> val_error option" where
  "ValidateMACAddress mac =
     (if mac = [] then Some MACEmpty
      else if \<not> rx_match validMACAddressRegex mac then Some (MACInvalid mac)
      else None)"

definition validSnapshotNameRegex :: rx where
  "validSnapshotNameRegex = Seq (Cls is_alnum) (Star (Cls name_char))"

definition ValidateSnapshotName :: "string \<Rightarrow> val_error option" where
  "ValidateSnapshotName name =
     (if name = [] then Some SnapshotEmpty
      else if 255 < length name then Some SnapshotTooLong
      else if \<not> rx_match validSnapshotNameRegex name then Some (SnapshotInvalid name)
      else None)"

section \<open>Domains\<close>

definition label_char :: "char \<Rightarrow> bool" where
  [go_char, go_eval]: "label_char c \<longleftrightarrow> is_alnum c \<or> c = CHR ''-''"

definition validDomainLabelRegex :: rx where
  "validDomainLabelRegex =
     Alt (Seq (Cls is_alnum) (Opt (Seq (Star (Cls label_char)) (Cls is_alnum)))) (Cls is_alnum)"

fun validate_labels :: "string list \<Rightarrow> val_error option" where
  "validate_labels [] = None"
| "validate_labels (l # ls) =
     (if length l = 0 then Some DomainEmptyLabel
      else if 63 < length l then Some (DomainLabelTooLong l)
      else if \<not> rx_match validDomainLabelRegex l then Some (DomainLabelInvalid l)
      else validate_labels ls)"

declare validate_labels.simps [simp del]

definition ValidateDomain :: "string \<Rightarrow> val_error option" where
  "ValidateDomain domain =
     (if domain = [] then Some DomainEmpty
      else if has_control domain then Some DomainControl
      else
        (let stripped = (case CutPrefix domain ''*.'' of Some after \<Rightarrow> after | None \<Rightarrow> domain);
             toValidate = TrimSuffix stripped ''.''
         in if toValidate = [] then Some DomainEmptyAfterStrip
            else if 253 < length toValidate then Some (DomainTooLong (length toValidate))
            else validate_labels (Split toValidate CHR ''.'')))"

section \<open>Users, resources and disks\<close>

definition validSSHUserRegex :: rx where
  "validSSHUserRegex = Seq (Cls (\<lambda>c. is_alpha c \<or> c = CHR ''_'')) (UpTo (Cls name_char) 31)"

definition ValidateSSHUser :: "string \<Rightarrow> val_error option" where
  "ValidateSSHUser user =
     (if user = [] then Some SSHUserEmpty
      else if 32 < length user then Some (SSHUserTooLong (length user))
      else if \<not> rx_match validSSHUserRegex user then Some (SSHUserInvalid user)
      else None)"

definition MinCPUs :: int where "MinCPUs = 1"
definition MaxCPUs :: int where "MaxCPUs = 128"
definition MinMemory :: int where "MinMemory = 256"
definition MaxMemory :: int where "MaxMemory = 262144"

definition ValidateResourceLimits :: "int \<Rightarrow> int \<Rightarrow> val_error option" where
  "ValidateResourceLimits cpus memoryMB =
     (if cpus < MinCPUs \<or> MaxCPUs < cpus then Some (CPUsRange cpus)
      else if memoryMB < MinMemory \<or> MaxMemory < memoryMB then Some (MemoryRange memoryMB)
      else None)"

definition ValidateDiskSize :: "string \<Rightarrow> val_error option" where
  "ValidateDiskSize sz =
     (if length sz < 2 then Some (DiskSizeInvalid sz)
      else
        (let suffix = last sz; numPart = butlast sz in
         if suffix \<notin> set ''KMGT'' then Some (DiskSizeSuffix sz)
         else
           (case Atoi numPart of
              None \<Rightarrow> Some (DiskSizeNotPositive sz)
            | Some num \<Rightarrow>
                if num \<le> 0 then Some (DiskSizeNotPositive sz)
                else if suffix = CHR ''K'' \<or> suffix = CHR ''M'' then Some (DiskSizeTooSmall sz)
                else if suffix = CHR ''T'' \<and> 10 < num then Some (DiskSizeTooLarge sz)
                else if suffix = CHR ''G'' \<and> 10240 < num then Some (DiskSizeTooLarge sz)
                else None)))"

text \<open>The product is an \<open>int64\<close> product, which wraps around.\<close>

definition mul_int64 :: "int \<Rightarrow> int \<Rightarrow> int" where
  "mul_int64 a b = sint (word_of_int a * word_of_int b :: 64 word)"

definition disk_multiplier :: "char \<Rightarrow> int option" where
  "disk_multiplier c =
     (if c = CHR ''K'' \<or> c = CHR ''k'' then Some (2 ^ 10)
      else if c = CHR ''M'' \<or> c = CHR ''m'' then Some (2 ^ 20)
      else if c = CHR ''G'' \<or> c = CHR ''g'' then Some (2 ^ 30)
      else if c = CHR ''T'' \<or> c = CHR ''t'' then Some (2 ^ 40)
      else None)"

definition ParseDiskSize :: "string \<Rightarrow> val_error + int" where
  "ParseDiskSize raw =
     (let sz = TrimSpace raw in
      if length sz < 2 then Inl (DiskSizeInvalid sz)
      else
        (case disk_multiplier (last sz) of
           None \<Rightarrow> Inl (DiskSizeSuffix sz)
         | Some multiplier \<Rightarrow>
             (case Atoi (butlast sz) of
                None \<Rightarrow> Inl (DiskSizeInvalid sz)
              | Some value \<Rightarrow> Inr (mul_int64 value multiplier))))"

section \<open>Keys, upstreams and log settings\<close>

definition base64_char :: "char \<Rightarrow> bool" where
  [go_char, go_eval]: "base64_char c \<longleftrightarrow> is_alnum c \<or> c = CHR ''+'' \<or> c = CHR ''/''"

definition pubkey_types :: "string list" where
  "pubkey_types = [''ssh-rsa'', ''ssh-ed25519'', ''ssh-dss'', ''ecdsa-sha2-nistp256'',
     ''ecdsa-sha2-nistp384'', ''ecdsa-sha2-nistp521'', ''sk-ssh-ed25519@openssh.com'',
     ''sk-ecdsa-sha2-nistp256@openssh.com'']"

definition validSSHPubKeyRegex :: rx where
  "validSSHPubKeyRegex =
     Seq (AltList (map Lit pubkey_types))
       (Seq (Chr CHR '' '')
         (Seq (Plus (Cls base64_char))
           (Seq (Star (Chr CHR ''=''))
             (Opt (Seq (Chr CHR '' '') (Plus (Cls (\<lambda>c. \<not> is_control c))))))))"

fun find_control :: "nat \<Rightarrow> string \<Rightarrow> nat option" where
  "find_control i [] = None"
| "find_control i (c # s) = (if is_control c then Some i else find_control (Suc i) s)"

definition ValidateSSHPublicKey :: "string \<Rightarrow> val_error option" where
  "ValidateSSHPublicKey key =
     (if key = [] then Some PubKeyEmpty
      else
        (case find_control 0 key of
           Some i \<Rightarrow> Some (PubKeyControl i)
         | None \<Rightarrow>
             if \<not> rx_match validSSHPubKeyRegex key then Some PubKeyFormat
             else if 8192 < length key then Some (PubKeyTooLong (length key))
             else None))"

datatype upstream_error =
    UpstreamEmpty | UpstreamHostEmpty string | UpstreamPort string
  | UpstreamIPv4 string | UpstreamHostTooLong | UpstreamFormat string

definition host_char :: "char \<Rightarrow> bool" where
  [go_char, go_eval]: "host_char c \<longleftrightarrow> is_alnum c \<or> c = CHR ''.'' \<or> c = CHR ''-''"

definition validHostnameRegex :: rx where
  "validHostnameRegex = Seq (Cls is_alnum) (Opt (Seq (Star (Cls host_char)) (Cls is_alnum)))"

definition looksLikeIP :: "string \<Rightarrow> bool" where
  "looksLikeIP host = list_all (\<lambda>c. is_digit c \<or> c = CHR ''.'') host"

definition NormalizeUpstreamDNS :: "string \<Rightarrow> upstream_error + string" where
  "NormalizeUpstreamDNS upstream =
     (if upstream = [] then Inl UpstreamEmpty
      else
        (let (host, port) = (case SplitHostPort upstream of
               Inr hp \<Rightarrow> hp | Inl _ \<Rightarrow> (upstream, ''53''))
         in if host = [] then Inl (UpstreamHostEmpty upstream)
            else if \<not> (case Atoi port of None \<Rightarrow> False | Some n \<Rightarrow> 1 \<le> n \<and> n \<le> 65535)
              then Inl (UpstreamPort port)
            else if looksLikeIP host then
              (if Option.bind (ParseIP host) To4 = None then Inl (UpstreamIPv4 host)
               else Inr (JoinHostPort host port))
            else if 253 < length host then Inl UpstreamHostTooLong
            else if \<not> rx_match validHostnameRegex host then Inl (UpstreamFormat upstream)
            else Inr (JoinHostPort host port)))"

definition validLogLevels :: "string list" where
  "validLogLevels = [''debug'', ''info'', ''warn'', ''warning'', ''error'']"

definition ValidateLogLevel :: "(string \<Rightarrow> string) \<Rightarrow> string \<Rightarrow> val_error option" where
  "ValidateLogLevel ul level =
     (if level = [] then None
      else if ToLower ul level \<notin> set validLogLevels then Some (LogLevelInvalid level)
      else None)"

definition validLogFormats :: "string list" where
  "validLogFormats = [''text'', ''json'']"

definition ValidateLogFormat :: "(string \<Rightarrow> string) \<Rightarrow> string \<Rightarrow> val_error option" where
  "ValidateLogFormat ul fmt =
     (if fmt = [] then None
      else if ToLower ul fmt \<notin> set validLogFormats then Some (LogFormatInvalid fmt)
      else None)"

section \<open>Secrets, headers and YAML\<close>

definition validSecretKeyRegex :: rx where
  "validSecretKeyRegex =
     Seq (Cls (\<lambda>c. is_alpha c \<or> c = CHR ''_'')) (Star (Cls (\<lambda>c. is_alnum c \<or> c = CHR ''_'')))"

definition ValidateSecretKey :: "string \<Rightarrow> val_error option" where
  "ValidateSecretKey name =
     (if \<not> rx_match validSecretKeyRegex name then Some (SecretKeyInvalid name) else None)"

definition tchar :: "char \<Rightarrow> bool" where
  [go_char, go_eval]: "tchar c \<longleftrightarrow> is_alnum c \<or> c \<in> set ''!#$%&*+-.^_|~'' \<or> code c = 39 \<or> code c = 96"

definition validHeaderNameRegex :: rx where
  "validHeaderNameRegex = Plus (Cls tchar)"

definition ValidateHTTPHeaderName :: "string \<Rightarrow> val_error option" where
  "ValidateHTTPHeaderName name =
     (if \<not> rx_match validHeaderNameRegex name then Some (HeaderNameInvalid name) else None)"

definition bad_header_byte :: "char \<Rightarrow> bool" where
  [go_char, go_eval]: "bad_header_byte c \<longleftrightarrow> (code c < 0x20 \<and> code c \<noteq> 9) \<or> code c = 0x7f"

fun header_value_from :: "nat \<Rightarrow> string \<Rightarrow> val_error option" where
  "header_value_from i [] = None"
| "header_value_from i (c # s) =
     (if bad_header_byte c then Some (HeaderValueControl i) else header_value_from (Suc i) s)"

definition ValidateHTTPHeaderValue :: "string \<Rightarrow> val_error option" where
  "ValidateHTTPHeaderValue value = header_value_from 0 value"

definition ValidateIPv4 :: "string \<Rightarrow> val_error option" where
  "ValidateIPv4 ip =
     (case ParseIP ip of
        None \<Rightarrow> Some (IPv4Invalid ip)
      | Some parsed \<Rightarrow> if To4 parsed = None then Some (IPv4Invalid ip) else None)"

definition yaml_dangerous :: "char list" where
  "yaml_dangerous = '':#&*!|>'' @ [char_of (39::nat), char_of (34::nat), CHR ''%'', CHR ''@'',
     char_of (96::nat), char_of (92::nat)]"

fun yaml_scan :: "string \<Rightarrow> char list \<Rightarrow> string \<Rightarrow> val_error option" where
  "yaml_scan field [] s = None"
| "yaml_scan field (d # ds) s =
     (case IndexByte s d of Some i \<Rightarrow> Some (YAMLChar field d i) | None \<Rightarrow> yaml_scan field ds s)"

definition ValidateYAMLSafeString :: "string \<Rightarrow> string \<Rightarrow> val_error option" where
  "ValidateYAMLSafeString s fieldName =
     (if s = [] then None
      else
        (case find_control 0 s of
           Some i \<Rightarrow> Some (YAMLControl fieldName i)
         | None \<Rightarrow> yaml_scan fieldName yaml_dangerous s))"

definition tetragonVersionRegexp :: rx where
  "tetragonVersionRegexp =
     Seq (Chr CHR ''v'')
       (Seq (Plus (Cls is_digit)) (Seq (Chr CHR ''.'')
         (Seq (Plus (Cls is_digit)) (Seq (Chr CHR ''.'')
           (Seq (Plus (Cls is_digit))
             (Opt (Seq (Chr CHR ''-'') (Plus (Cls (\<lambda>c. is_alnum c \<or> c = CHR ''.'')))))))))) "

definition ValidateTetragonVersion :: "string \<Rightarrow> val_error option" where
  "ValidateTetragonVersion version =
     (if version = [] then None
      else if \<not> rx_match tetragonVersionRegexp version then Some (TetragonVersionInvalid version)
      else None)"

section \<open>What the validators accept\<close>

lemma ValidateInstanceName_iff:
  "ValidateInstanceName n = None \<longleftrightarrow>
     n \<noteq> [] \<and> length n \<le> 63 \<and> is_alpha (hd n) \<and> list_all name_char n"
  by (cases n) (auto simp: ValidateInstanceName_def validInstanceNameRegex_def rx_match_lang rx_lang
      name_char_def is_alnum_def)

lemma ValidateSnapshotName_iff:
  "ValidateSnapshotName n = None \<longleftrightarrow>
     n \<noteq> [] \<and> length n \<le> 255 \<and> is_alnum (hd n) \<and> list_all name_char n"
  by (cases n) (auto simp: ValidateSnapshotName_def validSnapshotNameRegex_def rx_match_lang rx_lang
      name_char_def)

lemma ValidateSSHUser_iff:
  "ValidateSSHUser n = None \<longleftrightarrow>
     n \<noteq> [] \<and> length n \<le> 32 \<and> (is_alpha (hd n) \<or> hd n = CHR ''_'') \<and> list_all name_char n"
  by (cases n) (auto simp: ValidateSSHUser_def validSSHUserRegex_def rx_match_lang rx_lang
      name_char_def is_alnum_def)

lemma ValidateSecretKey_iff:
  "ValidateSecretKey n = None \<longleftrightarrow>
     n \<noteq> [] \<and> \<not> is_digit (hd n) \<and> list_all (\<lambda>c. is_alnum c \<or> c = CHR ''_'') n"
proof -
  have "\<not> is_digit CHR ''_''" by (simp add: is_digit_def code_def)
  moreover have "is_alpha c \<Longrightarrow> \<not> is_digit c" for c by (auto simp: go_char)
  ultimately show ?thesis
    by (cases n) (auto simp: ValidateSecretKey_def validSecretKeyRegex_def rx_match_lang rx_lang
        is_alnum_def)
qed

lemma ValidateHTTPHeaderName_iff: "ValidateHTTPHeaderName n = None \<longleftrightarrow> n \<noteq> [] \<and> list_all tchar n"
  by (simp add: ValidateHTTPHeaderName_def validHeaderNameRegex_def rx_match_lang rx_lang)

lemma ValidateHTTPHeaderValue_iff:
  "ValidateHTTPHeaderValue v = None \<longleftrightarrow> list_all (\<lambda>c. \<not> bad_header_byte c) v"
proof -
  have "header_value_from i v = None \<longleftrightarrow> list_all (\<lambda>c. \<not> bad_header_byte c) v" for i
    by (induction v arbitrary: i) auto
  then show ?thesis by (simp add: ValidateHTTPHeaderValue_def)
qed

text \<open>The labels a domain may have: letters, digits and inner hyphens, 1 to 63 of them.\<close>

definition ldh_label :: "string \<Rightarrow> bool" where
  "ldh_label l \<longleftrightarrow> l \<noteq> [] \<and> length l \<le> 63 \<and> is_alnum (hd l) \<and> is_alnum (last l) \<and> list_all label_char l"

lemma label_regex_iff:
  "rx_match validDomainLabelRegex l \<longleftrightarrow>
     l \<noteq> [] \<and> is_alnum (hd l) \<and> is_alnum (last l) \<and> list_all label_char l"
proof (cases l)
  case (Cons a m)
  then show ?thesis
    by (cases m rule: rev_cases)
      (auto simp: rx_match_lang validDomainLabelRegex_def rx_lang label_char_def)
qed (simp add: rx_match_lang validDomainLabelRegex_def rx_lang)

lemma validate_labels_iff: "validate_labels ls = None \<longleftrightarrow> list_all ldh_label ls"
  by (induction ls) (auto simp: ldh_label_def label_regex_iff validate_labels.simps)

lemma validate_labels_ldh: "list_all ldh_label ls \<Longrightarrow> validate_labels ls = None"
  by (simp add: validate_labels_iff)

lemma validate_labels_Some: "(\<exists>e. validate_labels ls = Some e) \<longleftrightarrow> \<not> list_all ldh_label ls"
  using validate_labels_iff [of ls] by (cases "validate_labels ls") auto

lemmas domain_eval = ValidateDomain_def validate_labels_ldh validate_labels_Some ldh_label_def go_eval

lemma ldh_label_chars: "ldh_label l \<Longrightarrow> c \<in> set l \<Longrightarrow> label_char c"
  by (auto simp: ldh_label_def list_all_iff)

lemma label_char_facts:
  assumes "label_char c"
  shows "c \<noteq> CHR ''.''" "code c \<noteq> 92" "is_ascii c" "\<not> is_control c" "is_graphic c" "c \<noteq> CHR ''*''"
    "c \<noteq> CHR ''#''"
  using assms by (auto simp: label_char_def is_alnum_def go_char code_def)

text \<open>The fully qualified form of a list of labels, each followed by a dot.\<close>

definition fqdn :: "string list \<Rightarrow> string" where
  "fqdn ls = Join ls ''.'' @ ''.''"

lemma Join_ldh_chars:
  "list_all ldh_label ls \<Longrightarrow> c \<in> set (Join ls ''.'') \<Longrightarrow> label_char c \<or> c = CHR ''.''"
  using set_Join [of ls "''.''"] by (fastforce simp: list_all_iff dest: ldh_label_chars)

lemma Join_not_Nil: "ls \<noteq> [] \<Longrightarrow> list_all ldh_label ls \<Longrightarrow> Join ls ''.'' \<noteq> []"
  by (cases "(ls, ''.'')" rule: Join.cases) (auto simp: ldh_label_def)

lemma hd_Join_ldh: "ls \<noteq> [] \<Longrightarrow> list_all ldh_label ls \<Longrightarrow> is_alnum (hd (Join ls ''.''))"
  by (cases "(ls, ''.'')" rule: Join.cases) (auto simp: ldh_label_def)

lemma last_Join_ldh: "ls \<noteq> [] \<Longrightarrow> list_all ldh_label ls \<Longrightarrow> is_alnum (last (Join ls ''.''))"
proof (induction ls "''.''" rule: Join.induct)
  case (3 w v ws)
  then show ?case using Join_not_Nil [of "v # ws"] by auto
qed (auto simp: ldh_label_def)

lemma not_alnum_dot [simp]: "\<not> is_alnum CHR ''.''" "\<not> is_alnum CHR ''*''"
  by (simp_all add: go_char code_def)

lemma Join_ldh_no_dot_end:
  "ls \<noteq> [] \<Longrightarrow> list_all ldh_label ls \<Longrightarrow> \<not> HasSuffix (Join ls ''.'') ''.''"
  using last_Join_ldh [of ls] by (auto simp: HasSuffix_single)

lemma Join_ldh_no_star:
  "ls \<noteq> [] \<Longrightarrow> list_all ldh_label ls \<Longrightarrow> \<not> HasPrefix (Join ls ''.'' @ t) ''*.''"
  using hd_Join_ldh [of ls] Join_not_Nil [of ls] by (cases "Join ls ''.''") auto

lemma TrimSuffix_fqdn [simp]: "TrimSuffix (fqdn ls) ''.'' = Join ls ''.''"
  by (simp add: fqdn_def)

lemma ldh_no_dot: "list_all ldh_label ls \<Longrightarrow> \<forall>l\<in>set ls. CHR ''.'' \<notin> set l"
  by (auto simp: list_all_iff dest!: ldh_label_chars label_char_facts(1))

lemma Split_Join_ldh:
  "ls \<noteq> [] \<Longrightarrow> list_all ldh_label ls \<Longrightarrow> Split (Join ls ''.'') CHR ''.'' = ls"
  by (rule Split_Join) (auto dest: ldh_no_dot)

lemma has_control_Join_ldh: "list_all ldh_label ls \<Longrightarrow> \<not> has_control (Join ls ''.'')"
  by (auto simp: has_control_def list_ex_iff is_control_def code_def
      dest!: Join_ldh_chars label_char_facts(4))

text \<open>The body a validator looks at, and the domains it accepts.\<close>

definition domain_body :: "string \<Rightarrow> string" where
  "domain_body d = TrimSuffix (case CutPrefix d ''*.'' of Some after \<Rightarrow> after | None \<Rightarrow> d) ''.''"

lemma domain_body_cases:
  obtains "d = domain_body d" | "d = domain_body d @ ''.''" | "d = ''*.'' @ domain_body d"
    | "d = ''*.'' @ domain_body d @ ''.''"
proof -
  define s where "s = (case CutPrefix d ''*.'' of Some after \<Rightarrow> after | None \<Rightarrow> d)"
  have s: "d = s \<or> d = ''*.'' @ s"
    by (auto simp: s_def CutPrefix_def HasPrefix_iff prefix_def)
  have b: "domain_body d = TrimSuffix s ''.''"
    by (simp add: domain_body_def s_def)
  show ?thesis
    by (rule TrimSuffix_cases [of s "''.''"]) (use s b that in auto)
qed

lemma ValidateDomain_body:
  assumes "ValidateDomain d = None"
  obtains ls where "ls \<noteq> []" "list_all ldh_label ls" "domain_body d = Join ls ''.''"
    "length (domain_body d) \<le> 253"
proof (rule that)
  let ?ls = "Split (domain_body d) CHR ''.''"
  from assms show "list_all ldh_label ?ls" "length (domain_body d) \<le> 253"
    by (auto simp: ValidateDomain_def domain_body_def Let_def validate_labels_iff split: if_splits)
qed (simp_all add: Join_Split)

lemma ValidateDomain_plain:
  assumes "ls \<noteq> []" "list_all ldh_label ls" "length (Join ls ''.'') \<le> 253"
    and d: "d = pre @ Join ls ''.'' @ suf" "pre = [] \<or> pre = ''*.''" "suf = [] \<or> suf = ''.''"
  shows "ValidateDomain d = None"
proof -
  let ?b = "Join ls ''.''"
  have ne: "?b \<noteq> []" using assms(1,2) by (rule Join_not_Nil)
  then have dne: "d \<noteq> []" using d(1) by simp
  have "\<not> has_control d"
    using d has_control_Join_ldh [OF assms(2)]
    by (auto simp: has_control_def is_control_def code_def)
  moreover have "(case CutPrefix d ''*.'' of Some after \<Rightarrow> after | None \<Rightarrow> d) = ?b @ suf"
    using d Join_ldh_no_star [OF assms(1,2), of suf] by (auto simp: CutPrefix_def)
  moreover have "TrimSuffix (?b @ suf) ''.'' = ?b"
    using d(3) Join_ldh_no_dot_end [OF assms(1,2)] by auto
  ultimately show ?thesis
    using assms(3) ne dne
    by (simp add: ValidateDomain_def Let_def Split_Join_ldh [OF assms(1,2)] validate_labels_iff assms(2))
qed

lemma ValidateDomain_Join:
  assumes "ls \<noteq> []" "list_all ldh_label ls"
  shows "ValidateDomain (Join ls ''.'') = None \<longleftrightarrow> length (Join ls ''.'') \<le> 253"
proof
  assume v: "ValidateDomain (Join ls ''.'') = None"
  have "domain_body (Join ls ''.'') = Join ls ''.''"
    using Join_ldh_no_star [OF assms, of "[]"] Join_ldh_no_dot_end [OF assms]
    by (simp add: domain_body_def CutPrefix_def)
  with v show "length (Join ls ''.'') \<le> 253" by (metis ValidateDomain_body)
qed (use ValidateDomain_plain [OF assms, of _ "[]" "[]"] in simp)

section \<open>Properties\<close>

text \<open>
  \<open>ValidateDomain\<close> accepts exactly the domains of at most 253 bytes whose
  labels are 1 to 63 letters, digits and inner hyphens, written with or without a leading
  wildcard and with or without a trailing dot. In particular no accepted domain holds a
  control character, a blank, a slash or an escape.
\<close>

theorem ValidateDomain_accepts:
  "ValidateDomain d = None \<longleftrightarrow>
     (\<exists>ls pre suf. ls \<noteq> [] \<and> list_all ldh_label ls \<and> length (Join ls ''.'') \<le> 253
        \<and> d = pre @ Join ls ''.'' @ suf \<and> pre \<in> {[], ''*.''} \<and> suf \<in> {[], ''.''})"
    (is "_ \<longleftrightarrow> ?R")
proof
  assume "ValidateDomain d = None"
  then obtain ls where ls: "ls \<noteq> []" "list_all ldh_label ls" "domain_body d = Join ls ''.''"
    "length (domain_body d) \<le> 253" by (rule ValidateDomain_body)
  then have R: "d = pre @ Join ls ''.'' @ suf \<Longrightarrow> pre \<in> {[], ''*.''} \<Longrightarrow> suf \<in> {[], ''.''} \<Longrightarrow> ?R" for pre suf
    by (intro exI [of _ ls] exI [of _ pre] exI [of _ suf]) simp
  show ?R
  proof (rule domain_body_cases [of d])
    show ?R if "d = domain_body d" using R [of "[]" "[]"] that ls(3) by simp
    show ?R if "d = domain_body d @ ''.''" using R [of "[]" "''.''"] that ls(3) by simp
    show ?R if "d = ''*.'' @ domain_body d" using R [of "''*.''" "[]"] that ls(3) by simp
    show ?R if "d = ''*.'' @ domain_body d @ ''.''" using R [of "''*.''" "''.''"] that ls(3) by simp
  qed
next
  assume ?R
  then show "ValidateDomain d = None" by (auto intro: ValidateDomain_plain)
qed

lemma mul_int64_exact: "- (2 ^ 63) \<le> a * b \<Longrightarrow> a * b < 2 ^ 63 \<Longrightarrow> mul_int64 a b = a * b"
  unfolding mul_int64_def wi_hom_mult
  by (subst sint_sbintrunc') (simp add: signed_take_bit_int_eq_self_iff)

lemma Atoi_hd: "Atoi s = Some n \<Longrightarrow> s \<noteq> [] \<and> is_graphic (hd s)"
  by (cases s) (auto simp: Atoi_def parse_digits_def Let_def go_char code_def split: if_splits)

lemma ValidateDiskSize_cases:
  assumes "ValidateDiskSize sz = None"
  obtains n m where "Atoi (butlast sz) = Some n" "0 < n" "sz = butlast sz @ [last sz]"
    "disk_multiplier (last sz) = Some m"
    "last sz = CHR ''G'' \<and> m = 2 ^ 30 \<and> n \<le> 10240 \<or> last sz = CHR ''T'' \<and> m = 2 ^ 40 \<and> n \<le> 10"
    "is_graphic (last sz)"
proof -
  have ne: "sz \<noteq> []" using assms by (auto simp: ValidateDiskSize_def)
  have "last sz \<in> set ''KMGT''" using assms by (auto simp: ValidateDiskSize_def Let_def split: if_splits)
  with assms that ne show ?thesis
    by (auto simp: ValidateDiskSize_def Let_def disk_multiplier_def is_graphic_def code_def
        split: if_splits option.splits)
qed

lemma Atoi_positive_digits:
  assumes "Atoi s = Some n" "0 < n"
  shows "\<exists>sg ds. s = sg @ ds \<and> sg \<in> {[], ''+''} \<and> ds \<noteq> [] \<and> list_all is_digit ds \<and> n = int (dec_val ds)"
proof (cases s)
  case Nil
  then show ?thesis using assms by (simp add: Atoi_def parse_digits_def)
next
  case (Cons c r)
  show ?thesis
  proof (cases "c = CHR ''+''")
    case True
    then have "s = ''+'' @ r \<and> r \<noteq> [] \<and> list_all is_digit r \<and> n = int (dec_val r)"
      using assms Cons by (auto simp: Atoi_def parse_digits_def split: if_splits)
    then show ?thesis by blast
  next
    case False
    then have "s = [] @ s \<and> s \<noteq> [] \<and> list_all is_digit s \<and> n = int (dec_val s)"
      using assms Cons by (auto simp: Atoi_def parse_digits_def split: if_splits)
    then show ?thesis by blast
  qed
qed

text \<open>
  C39 (bounds). A disk size that passes \<open>ValidateDiskSize\<close> is a number written in decimal digits
  (after an optional plus sign) and one of the letters G and T, and \<open>ParseDiskSize\<close> converts it
  to exactly that number of GiB (1 to 10240) or of TiB (1 to 10): the \<open>int64\<close> product does not
  wrap around.
\<close>

theorem ParseDiskSize_validated:
  assumes "ValidateDiskSize sz = None"
  shows "\<exists>sg ds u. sz = sg @ ds @ [u] \<and> sg \<in> {[], ''+''} \<and> ds \<noteq> [] \<and> list_all is_digit ds \<and> 1 \<le> dec_val ds
       \<and> (u = CHR ''G'' \<and> dec_val ds \<le> 10240 \<and> ParseDiskSize sz = Inr (int (dec_val ds) * 2 ^ 30)
          \<or> u = CHR ''T'' \<and> dec_val ds \<le> 10 \<and> ParseDiskSize sz = Inr (int (dec_val ds) * 2 ^ 40))"
proof -
  from assms obtain n m where n: "Atoi (butlast sz) = Some n" "0 < n" "sz = butlast sz @ [last sz]"
    "disk_multiplier (last sz) = Some m"
    "last sz = CHR ''G'' \<and> m = 2 ^ 30 \<and> n \<le> 10240 \<or> last sz = CHR ''T'' \<and> m = 2 ^ 40 \<and> n \<le> 10"
    "is_graphic (last sz)"
    by (rule ValidateDiskSize_cases)
  obtain c r where cr: "butlast sz = c # r" "is_graphic c"
    using Atoi_hd [OF n(1)] by (cases "butlast sz") auto
  then have sz: "sz = c # r @ [last sz]" using n(3) by simp
  then have "TrimSpace sz = sz" using cr(2) n(6) by (metis TrimSpace_graphic list.sel(1))
  moreover have "2 \<le> length sz" by (subst sz) simp
  ultimately have "ParseDiskSize sz = Inr (mul_int64 n m)"
    using n by (simp add: ParseDiskSize_def)
  moreover have "2 ^ 30 \<le> n * m \<and> n * m \<le> 10 * 2 ^ 40"
    using n(2,5) by auto
  ultimately have P: "ParseDiskSize sz = Inr (n * m)" by (simp add: mul_int64_exact)
  obtain sg ds where d: "butlast sz = sg @ ds" "sg \<in> {[], ''+''}" "ds \<noteq> []" "list_all is_digit ds" "n = int (dec_val ds)"
    using Atoi_positive_digits [OF n(1,2)] by blast
  have "sz = sg @ ds @ [last sz]" using n(3) d(1) by simp
  moreover have "1 \<le> dec_val ds" using n(2) d(5) by simp
  moreover have "last sz = CHR ''G'' \<and> dec_val ds \<le> 10240 \<and> ParseDiskSize sz = Inr (int (dec_val ds) * 2 ^ 30)
      \<or> last sz = CHR ''T'' \<and> dec_val ds \<le> 10 \<and> ParseDiskSize sz = Inr (int (dec_val ds) * 2 ^ 40)"
    using n(5) P d(5) by auto
  ultimately show ?thesis using d(2-4) by blast
qed

theorem ParseDiskSize_validated_witness:
  "ValidateDiskSize ''20G'' = None \<and> ParseDiskSize ''20G'' = Inr (20 * 2 ^ 30)
   \<and> ValidateDiskSize ''+2T'' = None \<and> ParseDiskSize ''+2T'' = Inr (2 * 2 ^ 40)"
proof -
  have v: "ValidateDiskSize ''20G'' = None" "ValidateDiskSize ''+2T'' = None"
    by (simp_all add: ValidateDiskSize_def Atoi_def parse_digits_def dec_val_def digit_val_def go_char code_def)
  have d: "dec_val ''20'' = 20" "dec_val ''2'' = 2" "\<not> list_all is_digit ''+2''" "\<not> list_all is_digit ''+20''"
    by (simp_all add: dec_val_def digit_val_def go_char code_def)
  obtain sg ds u where g: "''20G'' = sg @ ds @ [u]" "sg \<in> {[], ''+''}"
      "u = CHR ''G'' \<and> ParseDiskSize ''20G'' = Inr (int (dec_val ds) * 2 ^ 30) \<or> u = CHR ''T''"
    using ParseDiskSize_validated [OF v(1)] by blast
  have "sg = [] \<and> ds = ''20'' \<and> u = CHR ''G''" using g(1,2) by (auto simp: Cons_eq_append_conv)
  then have 1: "ParseDiskSize ''20G'' = Inr (20 * 2 ^ 30)" using g(3) d(1) by auto
  obtain sg ds u where h: "''+2T'' = sg @ ds @ [u]" "sg \<in> {[], ''+''}" "list_all is_digit ds"
      "u = CHR ''T'' \<and> ParseDiskSize ''+2T'' = Inr (int (dec_val ds) * 2 ^ 40) \<or> u = CHR ''G''"
    using ParseDiskSize_validated [OF v(2)] by blast
  have "ds = ''2'' \<and> u = CHR ''T''" using h(1,2,3) d(3) by (auto simp: Cons_eq_append_conv)
  then have "ParseDiskSize ''+2T'' = Inr (2 * 2 ^ 40)" using h(4) d(2) by auto
  with v 1 show ?thesis by blast
qed

end
