(* ===== verification/Allowlist_Filter.thy ===== *)
theory Allowlist_Filter
  imports Validation "HOL-Library.AList"
begin

text \<open>
  \<^verbatim>\<open>internal/allowlist/filter.go\<close>: the domain filter both daemons share.

  Code from outside the repository is a parameter. \<open>dom_ext\<close> holds the functions of
  \<^verbatim>\<open>golang.org/x/net/idna\<close> and \<^verbatim>\<open>github.com/miekg/dns\<close> that the filter calls, and the Unicode
  case tables; \<open>radix_ops\<close> holds the operations of \<^verbatim>\<open>github.com/armon/go-radix\<close>. What the code
  relies on is stated in the locales \<open>dns_names\<close> (how names split into labels) and
  \<open>radix_tree\<close> (a finite map from strings with longest-prefix lookup); the reference
  implementations at the end of the theory satisfy both.

  Each operation of the Go type holds its lock for the whole access to the tree, so a
  concurrent execution is an interleaving of the operations below.
\<close>

section \<open>Names\<close>

record dom_ext =
  unicode_ToLower :: "string \<Rightarrow> string"
  idna_ToASCII :: "string \<Rightarrow> string option"
  SplitDomainName :: "string \<Rightarrow> string list"

definition toASCIIDomain :: "dom_ext \<Rightarrow> string \<Rightarrow> string" where
  "toASCIIDomain E d =
     (let domain = ToLower (unicode_ToLower E) d in
      if domain = [] then domain
      else case idna_ToASCII E domain of Some ascii \<Rightarrow> ascii | None \<Rightarrow> domain)"

text \<open>The loop \<open>for i, j := 0, len(labels)-1; i < j; i, j = i+1, j-1\<close> that swaps in place.\<close>

function swap_loop :: "nat \<Rightarrow> nat \<Rightarrow> string list \<Rightarrow> string list" where
  "swap_loop i j labels =
     (if i < j then swap_loop (i + 1) (j - 1) (labels[i := labels ! j, j := labels ! i])
      else labels)"
  by pat_completeness auto
termination
  by (relation "measure (\<lambda>(i, j, labels). j - i)") auto

declare swap_loop.simps [simp del]

definition ReverseDomain :: "dom_ext \<Rightarrow> string \<Rightarrow> string" where
  "ReverseDomain E n =
     (let name = (if \<not> HasSuffix n ''.'' then n @ ''.'' else n);
          labels = SplitDomainName E name
      in Join (swap_loop 0 (length labels - 1) labels) ''.'' @ ''.'')"

definition NormalizeDomain :: "dom_ext \<Rightarrow> string \<Rightarrow> string" where
  "NormalizeDomain E d = toASCIIDomain E (TrimSuffix (TrimSpace d) ''.'') @ ''.''"

section \<open>The filter\<close>

record 't radix_ops =
  radix_New :: 't
  radix_Get :: "'t \<Rightarrow> string \<Rightarrow> string option"
  radix_Insert :: "'t \<Rightarrow> string \<Rightarrow> string \<Rightarrow> 't"
  radix_Delete :: "'t \<Rightarrow> string \<Rightarrow> 't \<times> bool"
  radix_LongestPrefix :: "'t \<Rightarrow> string \<Rightarrow> (string \<times> string) option"
  radix_Walk :: "'t \<Rightarrow> (string \<times> string) list"
  radix_Len :: "'t \<Rightarrow> nat"

record 't Filter =
  tree :: 't

definition NewFilter :: "'t radix_ops \<Rightarrow> 't Filter" where
  "NewFilter R = \<lparr>tree = radix_New R\<rparr>"

text \<open>The check \<open>Add\<close> and \<open>Replace\<close> make on a normalized domain.\<close>

definition entry_ok :: "string \<Rightarrow> bool" where
  "entry_ok domain \<longleftrightarrow> ValidateDomain (TrimSuffix domain ''.'') = None"

definition Filter_Add :: "dom_ext \<Rightarrow> 't radix_ops \<Rightarrow> 't Filter \<Rightarrow> string \<Rightarrow> 't Filter \<times> bool" where
  "Filter_Add E R f d =
     (let domain = NormalizeDomain E d in
      if \<not> entry_ok domain then (f, False)
      else
        (let key = ReverseDomain E domain in
         case radix_Get R (tree f) key of
           Some _ \<Rightarrow> (f, False)
         | None \<Rightarrow> (f\<lparr>tree := radix_Insert R (tree f) key domain\<rparr>, True)))"

definition Filter_Remove :: "dom_ext \<Rightarrow> 't radix_ops \<Rightarrow> 't Filter \<Rightarrow> string \<Rightarrow> 't Filter \<times> bool" where
  "Filter_Remove E R f d =
     (let key = ReverseDomain E (NormalizeDomain E d); (t, exists) = radix_Delete R (tree f) key
      in (f\<lparr>tree := t\<rparr>, exists))"

definition Filter_IsAllowed :: "dom_ext \<Rightarrow> 't radix_ops \<Rightarrow> 't Filter \<Rightarrow> string \<Rightarrow> bool" where
  "Filter_IsAllowed E R f d =
     (case radix_LongestPrefix R (tree f) (ReverseDomain E (NormalizeDomain E d)) of
        Some _ \<Rightarrow> True | None \<Rightarrow> False)"

definition Filter_List :: "'t radix_ops \<Rightarrow> 't Filter \<Rightarrow> string list" where
  "Filter_List R f = map snd (radix_Walk R (tree f))"

definition Filter_Count :: "'t radix_ops \<Rightarrow> 't Filter \<Rightarrow> nat" where
  "Filter_Count R f = radix_Len R (tree f)"

definition Filter_Clear :: "'t radix_ops \<Rightarrow> 't Filter \<Rightarrow> 't Filter" where
  "Filter_Clear R f = f\<lparr>tree := radix_New R\<rparr>"

fun replace_loop :: "dom_ext \<Rightarrow> 't radix_ops \<Rightarrow> 't \<Rightarrow> string list \<Rightarrow> 't" where
  "replace_loop E R t [] = t"
| "replace_loop E R t (d # ds) =
     (let domain = NormalizeDomain E d in
      if \<not> entry_ok domain then replace_loop E R t ds
      else replace_loop E R (radix_Insert R t (ReverseDomain E domain) domain) ds)"

definition Filter_Replace :: "dom_ext \<Rightarrow> 't radix_ops \<Rightarrow> 't Filter \<Rightarrow> string list \<Rightarrow> 't Filter" where
  "Filter_Replace E R f domains = f\<lparr>tree := replace_loop E R (radix_New R) domains\<rparr>"

section \<open>Reversing and matching label lists\<close>

lemma length_swap_loop [simp]: "length (swap_loop i j l) = length l"
proof (induction i j l rule: swap_loop.induct)
  case (1 i j l)
  then show ?case by (subst swap_loop.simps) simp
qed

lemma nth_swap_loop:
  "j < length l \<Longrightarrow> k < length l \<Longrightarrow>
   swap_loop i j l ! k = (if i \<le> k \<and> k \<le> j then l ! (i + j - k) else l ! k)"
proof (induction i j l rule: swap_loop.induct)
  case (1 i j l)
  show ?case
  proof (cases "i < j")
    case True
    let ?l = "l[i := l ! j, j := l ! i]"
    have "swap_loop i j l ! k = swap_loop (i + 1) (j - 1) ?l ! k"
      using True by (subst swap_loop.simps) simp
    also have "\<dots> = (if i + 1 \<le> k \<and> k \<le> j - 1 then ?l ! (i + 1 + (j - 1) - k) else ?l ! k)"
      using True "1.prems" by (intro "1.IH") auto
    also have "\<dots> = (if i \<le> k \<and> k \<le> j then l ! (i + j - k) else l ! k)"
      using True "1.prems" by (auto simp: nth_list_update)
    finally show ?thesis .
  next
    case False
    then have "i \<le> k \<Longrightarrow> k \<le> j \<Longrightarrow> i + j - k = k" by simp
    with False show ?thesis by (subst swap_loop.simps) simp
  qed
qed

lemma swap_loop_rev: "swap_loop 0 (length l - 1) l = rev l"
proof (rule nth_equalityI)
  fix k assume "k < length (swap_loop 0 (length l - 1) l)"
  then show "swap_loop 0 (length l - 1) l ! k = rev l ! k"
    by (subst nth_swap_loop) (auto simp: rev_nth Suc_diff_Suc)
qed simp

text \<open>
  The labels of a name in presentation format: no dot that is not escaped, and every escape
  character is followed by the character it escapes.
\<close>

fun label_ok :: "string \<Rightarrow> bool" where
  "label_ok [] = True"
| "label_ok (c # s) =
     (if code c = 92 then (case s of [] \<Rightarrow> False | _ # s' \<Rightarrow> label_ok s')
      else c \<noteq> CHR ''.'' \<and> label_ok s)"

definition plain_label :: "string \<Rightarrow> bool" where
  "plain_label l \<longleftrightarrow> list_all (\<lambda>c. c \<noteq> CHR ''.'' \<and> code c \<noteq> 92) l"

lemma plain_label_ok: "plain_label l \<Longrightarrow> label_ok l"
  by (induction l) (auto simp: plain_label_def)

lemma plain_label_ldh: "ldh_label l \<Longrightarrow> plain_label l"
  by (auto simp: plain_label_def list_all_iff dest: ldh_label_chars label_char_facts(1,2))

definition dotted :: "string list \<Rightarrow> string" where
  "dotted ls = concat (map (\<lambda>l. l @ ''.'') ls)"

lemma dotted_simps [simp]: "dotted [] = []" "dotted (l # ls) = l @ ''.'' @ dotted ls"
  by (simp_all add: dotted_def)

lemma fqdn_dotted: "ls \<noteq> [] \<Longrightarrow> fqdn ls = dotted ls"
  by (simp add: fqdn_def dotted_def Join_snoc)

lemma label_head_unique:
  assumes "plain_label a" "label_ok q" "prefix (a @ ''.'' @ x) (q @ ''.'' @ y)"
  shows "a = q"
  using assms
proof (induction q arbitrary: a rule: label_ok.induct)
  case 1
  then show ?case by (cases a) (auto simp: plain_label_def)
next
  case (2 c s)
  show ?case
  proof (cases a)
    case Nil
    with "2.prems" show ?thesis by (auto simp: code_def)
  next
    case (Cons d a')
    with "2.prems" have "d = c" "code c \<noteq> 92" by (auto simp: plain_label_def)
    with "2.prems" Cons "2.IH" show ?thesis by (auto simp: plain_label_def)
  qed
qed

lemma prefix_dotted:
  assumes "list_all plain_label as" "list_all label_ok qs"
  shows "prefix (dotted as) (dotted qs) \<longleftrightarrow> prefix as qs"
  using assms
proof (induction as arbitrary: qs)
  case (Cons a as)
  show ?case
  proof (cases qs)
    case (Cons q qs')
    have "prefix (dotted (a # as)) (dotted (q # qs')) \<Longrightarrow> a = q"
      using Cons Cons.prems label_head_unique [of a q "dotted as" "dotted qs'"] by simp
    then show ?thesis
      using Cons Cons.prems Cons.IH [of qs'] by auto
  qed simp
qed simp

lemma dotted_inj: "list_all plain_label as \<Longrightarrow> list_all label_ok qs \<Longrightarrow> dotted as = dotted qs \<Longrightarrow> as = qs"
proof (induction as arbitrary: qs)
  case Nil
  then show ?case by (cases qs) auto
next
  case (Cons a as)
  then show ?case
  proof (cases qs)
    case (Cons q qs')
    with Cons.prems have "a = q"
      using label_head_unique [of a q "dotted as" "dotted qs'"] by simp
    with Cons Cons.prems Cons.IH [of qs'] show ?thesis by simp
  qed simp
qed

text \<open>The labels an accepted entry has: a wildcard or none, the labels of the domain, and an
  empty label where the domain had two trailing dots.\<close>

lemma entry_ok_labels:
  assumes "entry_ok (d @ ''.'')"
  obtains ls where "ls \<noteq> []" "list_all plain_label ls" "ls \<noteq> [[]]" "d @ ''.'' = fqdn ls"
proof -
  from assms have v: "ValidateDomain d = None" by (simp add: entry_ok_def)
  then obtain ms where ms: "ms \<noteq> []" "list_all ldh_label ms" "domain_body d = Join ms ''.''"
    by (rule ValidateDomain_body)
  have p: "list_all plain_label ms" using ms(2) by (auto simp: list_all_iff plain_label_ldh)
  have s: "plain_label ''*''" by (simp add: plain_label_def code_def)
  have b: "Join ms ''.'' @ ''.'' = dotted ms" using ms(1) fqdn_dotted by (simp add: fqdn_def)
  have ne: "ms \<noteq> [[]]" using ms(2) by (auto simp: ldh_label_def)
  show ?thesis
  proof (rule domain_body_cases [of d])
    assume "d = domain_body d"
    then show ?thesis using that [of ms] p ms ne b by (simp add: fqdn_def)
  next
    assume "d = domain_body d @ ''.''"
    then have "d @ ''.'' = dotted (ms @ [[]])" using ms(3) b by (simp add: dotted_def)
    then show ?thesis using that [of "ms @ [[]]"] p ms(1) by (simp add: fqdn_dotted plain_label_def)
  next
    assume "d = ''*.'' @ domain_body d"
    then have "d @ ''.'' = dotted (''*'' # ms)" using ms(3) b by simp
    then show ?thesis using that [of "''*'' # ms"] p s by (simp add: fqdn_dotted)
  next
    assume "d = ''*.'' @ domain_body d @ ''.''"
    then have "d @ ''.'' = dotted (''*'' # ms @ [[]])" using ms(3) b by (simp add: dotted_def)
    then show ?thesis using that [of "''*'' # ms @ [[]]"] p s by (simp add: fqdn_dotted plain_label_def)
  qed
qed

section \<open>The interfaces\<close>

text \<open>
  How \<open>dns.SplitDomainName\<close> splits a fully qualified name: at the dots that are not escaped;
  the root name has no label.
\<close>

locale dns_names =
  fixes E :: dom_ext
  assumes split_root: "SplitDomainName E ''.'' = []"
    and split_fqdn: "ls \<noteq> [] \<Longrightarrow> ls \<noteq> [[]] \<Longrightarrow> list_all label_ok ls \<Longrightarrow> SplitDomainName E (fqdn ls) = ls"
begin

lemma split_fqdn_any: "ls \<noteq> [[]] \<Longrightarrow> list_all label_ok ls \<Longrightarrow> SplitDomainName E (fqdn ls) = ls"
  by (cases "ls = []") (simp_all add: split_fqdn, simp add: fqdn_def split_root)

lemma ReverseDomain_fqdn:
  assumes "ls \<noteq> [[]]" "list_all label_ok ls"
  shows "ReverseDomain E (fqdn ls) = fqdn (rev ls)"
  using split_fqdn_any [OF assms]
  by (simp add: ReverseDomain_def Let_def swap_loop_rev [unfolded One_nat_def]) (simp add: fqdn_def
      swap_loop_rev [unfolded One_nat_def])

lemma key_prefix:
  assumes "a \<noteq> []" "a \<noteq> [[]]" "list_all plain_label a" "q \<noteq> [[]]" "list_all label_ok q"
  shows "prefix (ReverseDomain E (fqdn a)) (ReverseDomain E (fqdn q)) \<longleftrightarrow> suffix a q"
proof -
  have ok: "list_all label_ok a" using assms(3) by (auto simp: list_all_iff plain_label_ok)
  have "ReverseDomain E (fqdn a) = dotted (rev a)"
    using ReverseDomain_fqdn [OF assms(2) ok] assms(1) by (simp add: fqdn_dotted)
  moreover have "ReverseDomain E (fqdn q) = (if q = [] then ''.'' else dotted (rev q))"
    using ReverseDomain_fqdn [OF assms(4,5)] by (simp add: fqdn_dotted) (simp add: fqdn_def)
  moreover have "\<not> prefix (dotted (rev a)) ''.''"
  proof (cases "rev a")
    case (Cons l r)
    have "r \<noteq> [] \<Longrightarrow> length (dotted r) > 0" by (cases r) auto
    with Cons assms(1,2) show ?thesis by (auto simp: prefix_def Cons_eq_append_conv)
  qed (use assms(1) in simp)
  moreover have "suffix a [] \<longleftrightarrow> False" using assms(1) by simp
  ultimately show ?thesis
    using prefix_dotted [of "rev a" "rev q"] assms
    by (simp add: suffix_to_prefix list_all_rev)
qed

lemma key_inj:
  assumes "list_all plain_label a" "a \<noteq> []" "a \<noteq> [[]]" "list_all plain_label b" "b \<noteq> []" "b \<noteq> [[]]"
    and "ReverseDomain E (fqdn a) = ReverseDomain E (fqdn b)"
  shows "a = b"
proof -
  have "list_all label_ok a" "list_all label_ok b"
    using assms(1,4) by (auto simp: list_all_iff plain_label_ok)
  then have "dotted (rev a) = dotted (rev b)"
    using assms ReverseDomain_fqdn [of a] ReverseDomain_fqdn [of b] by (simp add: fqdn_dotted)
  then have "rev a = rev b"
    using assms by (intro dotted_inj) (auto simp: list_all_iff plain_label_ok)
  then show ?thesis by simp
qed

lemma entry_key_inj:
  assumes "entry_ok (a @ ''.'')" "entry_ok (b @ ''.'')"
    and "ReverseDomain E (a @ ''.'') = ReverseDomain E (b @ ''.'')"
  shows "a = b"
  using assms by (elim entry_ok_labels) (metis append_same_eq key_inj)

end

text \<open>
  What the filter needs of the radix tree: it is a finite map from keys to values, and
  \<open>LongestPrefix\<close> finds a key that is a prefix of its argument whenever there is one.
\<close>

locale radix_tree =
  fixes R :: "'t radix_ops" and \<alpha> :: "'t \<Rightarrow> string \<Rightarrow> string option"
  assumes new: "\<alpha> (radix_New R) k = None"
    and get: "radix_Get R t k = \<alpha> t k"
    and insert: "\<alpha> (radix_Insert R t k v) k' = (if k' = k then Some v else \<alpha> t k')"
    and delete: "\<alpha> (fst (radix_Delete R t k)) k' = (if k' = k then None else \<alpha> t k')"
    and delete_existed: "snd (radix_Delete R t k) \<longleftrightarrow> \<alpha> t k \<noteq> None"
    and longest_None: "radix_LongestPrefix R t k = None \<longleftrightarrow> (\<forall>k' v. \<alpha> t k' = Some v \<longrightarrow> \<not> prefix k' k)"
    and walk: "(k, v) \<in> set (radix_Walk R t) \<longleftrightarrow> \<alpha> t k = Some v"
    and walk_distinct: "distinct (map fst (radix_Walk R t))"
    and len: "radix_Len R t = length (radix_Walk R t)"

locale allowlist_filter = dns_names E + radix_tree R \<alpha>
  for E :: dom_ext and R :: "'t radix_ops" and \<alpha>
begin

text \<open>The invariant: every entry is a validated, normalized domain under its own key.\<close>

definition filter_inv :: "'t Filter \<Rightarrow> bool" where
  "filter_inv f \<longleftrightarrow>
     (\<forall>k v. \<alpha> (tree f) k = Some v \<longrightarrow> (\<exists>d. v = d @ ''.'') \<and> entry_ok v \<and> k = ReverseDomain E v)"

lemma filter_invD: "filter_inv f \<Longrightarrow> \<alpha> (tree f) k = Some v \<Longrightarrow> entry_ok v \<and> k = ReverseDomain E v"
  by (auto simp: filter_inv_def)

lemma filter_invD_dot: "filter_inv f \<Longrightarrow> \<alpha> (tree f) k = Some v \<Longrightarrow> \<exists>d. v = d @ ''.''"
  by (auto simp: filter_inv_def)

lemma set_List: "v \<in> set (Filter_List R f) \<longleftrightarrow> (\<exists>k. \<alpha> (tree f) k = Some v)"
  by (force simp: Filter_List_def walk [symmetric])

lemma inv_New: "filter_inv (NewFilter R)"
  by (simp add: filter_inv_def NewFilter_def new)

lemma inv_Clear: "filter_inv (Filter_Clear R f)"
  by (simp add: filter_inv_def Filter_Clear_def new)

lemma inv_insert:
  "filter_inv \<lparr>tree = t\<rparr> \<Longrightarrow> entry_ok (NormalizeDomain E d) \<Longrightarrow>
   filter_inv \<lparr>tree = radix_Insert R t (ReverseDomain E (NormalizeDomain E d)) (NormalizeDomain E d)\<rparr>"
  by (auto simp: filter_inv_def insert NormalizeDomain_def)

lemma inv_tree: "filter_inv f \<longleftrightarrow> filter_inv \<lparr>tree = tree f\<rparr>"
  by (simp add: filter_inv_def)

lemma inv_Add: "filter_inv f \<Longrightarrow> filter_inv (fst (Filter_Add E R f d))"
  using inv_insert [of "tree f" d] by (auto simp: Filter_Add_def Let_def inv_tree [of f] inv_tree [of "f\<lparr>tree := _\<rparr>"]
      split: option.splits)

lemma inv_Remove: "filter_inv f \<Longrightarrow> filter_inv (fst (Filter_Remove E R f d))"
  by (auto simp: filter_inv_def Filter_Remove_def Let_def delete prod.case_eq_if split: if_splits)

lemma inv_replace_loop: "filter_inv \<lparr>tree = t\<rparr> \<Longrightarrow> filter_inv \<lparr>tree = replace_loop E R t ds\<rparr>"
  by (induction ds arbitrary: t) (auto simp: Let_def inv_insert)

lemma inv_Replace: "filter_inv (Filter_Replace E R f ds)"
  using inv_replace_loop [of "radix_New R" ds] inv_New
  by (simp add: Filter_Replace_def NewFilter_def inv_tree [of "f\<lparr>tree := _\<rparr>"])

lemma IsAllowed_prefix:
  "Filter_IsAllowed E R f d \<longleftrightarrow>
     (\<exists>k v. \<alpha> (tree f) k = Some v \<and> prefix k (ReverseDomain E (NormalizeDomain E d)))"
  using longest_None [of "tree f" "ReverseDomain E (NormalizeDomain E d)"]
  by (auto simp: Filter_IsAllowed_def split: option.splits)

text \<open>The decision: a name is allowed iff the labels of an entry are a suffix of its labels.\<close>

lemma IsAllowed_iff:
  assumes inv: "filter_inv f" and n: "NormalizeDomain E d = fqdn q" "q \<noteq> [[]]" "list_all label_ok q"
  shows "Filter_IsAllowed E R f d \<longleftrightarrow> (\<exists>v\<in>set (Filter_List R f). suffix (SplitDomainName E v) q)"
proof -
  have step: "prefix k (ReverseDomain E (fqdn q)) \<longleftrightarrow> suffix (SplitDomainName E v) q"
    if kv: "\<alpha> (tree f) k = Some v" for k v
  proof -
    from filter_invD_dot [OF inv kv] obtain e where e: "v = e @ ''.''" by blast
    have "entry_ok (e @ ''.'')" using filter_invD [OF inv kv] e by simp
    then obtain ls where ls: "ls \<noteq> []" "list_all plain_label ls" "ls \<noteq> [[]]" "v = fqdn ls"
      unfolding e by (rule entry_ok_labels)
    have "list_all label_ok ls" using ls(2) by (auto simp: list_all_iff plain_label_ok)
    then have "SplitDomainName E v = ls" using ls by (simp add: split_fqdn)
    moreover have "k = ReverseDomain E (fqdn ls)" using filter_invD [OF inv kv] ls by simp
    ultimately show ?thesis using key_prefix [OF ls(1,3,2) n(2,3)] by simp
  qed
  then show ?thesis unfolding IsAllowed_prefix n(1) Bex_def set_List by blast
qed

text \<open>The contents as a set of domains.\<close>

lemma entry_at_key:
  assumes "filter_inv f" "entry_ok (NormalizeDomain E d)"
    and "\<alpha> (tree f) k = Some v"
  shows "k = ReverseDomain E (NormalizeDomain E d) \<longleftrightarrow> v = NormalizeDomain E d"
proof -
  obtain b where b: "NormalizeDomain E d = b @ ''.''" by (simp add: NormalizeDomain_def)
  from filter_invD_dot [OF assms(1,3)] obtain e where e: "v = e @ ''.''" by blast
  show ?thesis
    using entry_key_inj [of e b] filter_invD [OF assms(1,3)] assms(2) by (auto simp: b e)
qed

lemma List_insert:
  assumes "filter_inv f" "entry_ok (NormalizeDomain E d)"
  shows "set (Filter_List R (f\<lparr>tree := radix_Insert R (tree f) (ReverseDomain E (NormalizeDomain E d))
            (NormalizeDomain E d)\<rparr>)) = set (Filter_List R f) \<union> {NormalizeDomain E d}"
  (is "set (Filter_List R ?f) = _")
proof (intro set_eqI iffI)
  fix v assume "v \<in> set (Filter_List R ?f)"
  then show "v \<in> set (Filter_List R f) \<union> {NormalizeDomain E d}"
    by (auto simp: set_List insert split: if_splits)
next
  fix v assume "v \<in> set (Filter_List R f) \<union> {NormalizeDomain E d}"
  then show "v \<in> set (Filter_List R ?f)"
    using entry_at_key [OF assms] by (simp add: set_List insert) metis
qed

lemma List_Add:
  assumes "filter_inv f"
  shows "set (Filter_List R (fst (Filter_Add E R f d))) =
     set (Filter_List R f) \<union> (if entry_ok (NormalizeDomain E d) then {NormalizeDomain E d} else {})"
    and "snd (Filter_Add E R f d) \<longleftrightarrow>
     entry_ok (NormalizeDomain E d) \<and> NormalizeDomain E d \<notin> set (Filter_List R f)"
proof -
  let ?n = "NormalizeDomain E d" and ?k = "ReverseDomain E (NormalizeDomain E d)"
  have present: "?n \<in> set (Filter_List R f) \<longleftrightarrow> \<alpha> (tree f) ?k \<noteq> None" if "entry_ok ?n"
    using entry_at_key [OF assms that] by (simp add: set_List) metis
  show "set (Filter_List R (fst (Filter_Add E R f d))) =
     set (Filter_List R f) \<union> (if entry_ok ?n then {?n} else {})"
    using present List_insert [OF assms]
    by (auto simp: Filter_Add_def Let_def get split: option.splits)
  show "snd (Filter_Add E R f d) \<longleftrightarrow> entry_ok ?n \<and> ?n \<notin> set (Filter_List R f)"
    using present by (auto simp: Filter_Add_def Let_def get split: option.splits)
qed

lemma List_Remove:
  assumes "filter_inv f" "entry_ok (NormalizeDomain E d)"
  shows "set (Filter_List R (fst (Filter_Remove E R f d))) = set (Filter_List R f) - {NormalizeDomain E d}"
    and "snd (Filter_Remove E R f d) \<longleftrightarrow> NormalizeDomain E d \<in> set (Filter_List R f)"
proof -
  let ?n = "NormalizeDomain E d"
  show "set (Filter_List R (fst (Filter_Remove E R f d))) = set (Filter_List R f) - {?n}"
    using entry_at_key [OF assms]
    by (auto simp: Filter_Remove_def Let_def set_List delete prod.case_eq_if split: if_splits) blast+
  show "snd (Filter_Remove E R f d) \<longleftrightarrow> ?n \<in> set (Filter_List R f)"
    using entry_at_key [OF assms]
    by (auto simp: Filter_Remove_def Let_def set_List delete_existed prod.case_eq_if)
qed

lemma List_replace_loop:
  "filter_inv \<lparr>tree = t\<rparr> \<Longrightarrow> set (Filter_List R \<lparr>tree = replace_loop E R t ds\<rparr>) =
     set (Filter_List R \<lparr>tree = t\<rparr>) \<union> {n \<in> NormalizeDomain E ` set ds. entry_ok n}"
proof (induction ds arbitrary: t)
  case (Cons d ds)
  let ?n = "NormalizeDomain E d"
  let ?t = "radix_Insert R t (ReverseDomain E ?n) ?n"
  show ?case
  proof (cases "entry_ok ?n")
    case True
    have "set (Filter_List R \<lparr>tree = ?t\<rparr>) = set (Filter_List R \<lparr>tree = t\<rparr>) \<union> {?n}"
      using List_insert [OF Cons.prems True] by simp
    moreover have "filter_inv \<lparr>tree = ?t\<rparr>" using Cons.prems True by (rule inv_insert)
    ultimately show ?thesis using True Cons.IH [of ?t] by (auto simp: Let_def)
  qed (use Cons in \<open>auto simp: Let_def\<close>)
qed simp

lemma List_New: "set (Filter_List R (NewFilter R)) = {}"
proof -
  have "v \<notin> set (Filter_List R (NewFilter R))" for v
    by (simp add: set_List) (simp add: NewFilter_def new)
  then show ?thesis by (metis all_not_in_conv)
qed

lemma List_Replace:
  "set (Filter_List R (Filter_Replace E R f ds)) = {n \<in> NormalizeDomain E ` set ds. entry_ok n}"
  using List_replace_loop [of "radix_New R" ds] inv_New List_New
  by (simp add: Filter_Replace_def NewFilter_def Filter_List_def)

lemma Count_List: "Filter_Count R f = card (set (Filter_List R f))" if "filter_inv f"
proof -
  have "fst x = ReverseDomain E (snd x)" if "x \<in> set (radix_Walk R (tree f))" for x
    using filter_invD [OF \<open>filter_inv f\<close>, of "fst x" "snd x"] that by (simp add: walk [symmetric])
  then have "inj_on snd (set (radix_Walk R (tree f)))"
    by (metis inj_onI prod_eqI)
  moreover have "distinct (radix_Walk R (tree f))"
    using walk_distinct [of "tree f"] by (simp add: distinct_map)
  ultimately have "distinct (Filter_List R f)"
    by (simp add: Filter_List_def distinct_map)
  then have "card (set (Filter_List R f)) = length (Filter_List R f)" by (rule distinct_card)
  then show ?thesis by (simp add: Filter_Count_def Filter_List_def len)
qed

end

section \<open>Reference implementations of the parameters\<close>

text \<open>
  Concrete functions that satisfy the two contracts: a splitter at the dots that are not
  escaped, and association lists for the radix tree.
\<close>

fun split_go :: "string \<Rightarrow> string \<Rightarrow> string list" where
  "split_go acc [] = (if acc = [] then [] else [rev acc])"
| "split_go acc (c # s) =
     (if code c = 92 then (case s of [] \<Rightarrow> [rev (c # acc)] | d # s' \<Rightarrow> split_go (d # c # acc) s')
      else if c = CHR ''.'' then rev acc # split_go [] s
      else split_go (c # acc) s)"

definition ref_ext :: dom_ext where
  "ref_ext = \<lparr>unicode_ToLower = map lower_char,
     idna_ToASCII = (\<lambda>s. if list_all is_ascii s then Some (map lower_char s) else None),
     SplitDomainName = (\<lambda>s. if s = ''.'' then [] else split_go [] s)\<rparr>"

lemma split_go_label: "label_ok l \<Longrightarrow> split_go acc (l @ ''.'' @ s) = (rev acc @ l) # split_go [] s"
  by (induction l arbitrary: acc rule: label_ok.induct) (auto simp: code_def split: list.splits if_splits)

lemma split_go_dotted: "list_all label_ok ls \<Longrightarrow> split_go [] (dotted ls) = ls"
proof (induction ls)
  case (Cons l ls)
  then show ?case using split_go_label [of l "[]" "dotted ls"] by simp
qed simp

interpretation ref_names: dns_names ref_ext
proof
  fix ls assume ls: "ls \<noteq> []" "ls \<noteq> [[]]" "list_all label_ok ls"
  have "fqdn ls \<noteq> ''.''"
  proof
    assume "fqdn ls = ''.''"
    then have "dotted ls = dotted [[]]" using ls(1) by (simp add: fqdn_dotted)
    then have "[[]] = ls" using ls(3) by (intro dotted_inj) (simp_all add: plain_label_def)
    with ls(2) show False by simp
  qed
  then show "SplitDomainName ref_ext (fqdn ls) = ls"
    using ls split_go_dotted [of ls] by (simp add: ref_ext_def fqdn_dotted)
qed (simp add: ref_ext_def)

type_synonym alist = "(string \<times> string) list"

fun longer_key :: "string \<Rightarrow> alist \<Rightarrow> (string \<times> string) option" where
  "longer_key k [] = None"
| "longer_key k ((k', v) # t) =
     (case longer_key k t of
        None \<Rightarrow> if HasPrefix k k' then Some (k', v) else None
      | Some (b, w) \<Rightarrow> if HasPrefix k k' \<and> length b \<le> length k' then Some (k', v) else Some (b, w))"

definition ref_radix :: "alist radix_ops" where
  "ref_radix = \<lparr>radix_New = [], radix_Get = map_of, radix_Insert = (\<lambda>t k v. (k, v) # t),
     radix_Delete = (\<lambda>t k. (filter (\<lambda>(k', _). k' \<noteq> k) t, map_of t k \<noteq> None)),
     radix_LongestPrefix = (\<lambda>t k. longer_key k (AList.clearjunk t)),
     radix_Walk = AList.clearjunk, radix_Len = (\<lambda>t. length (AList.clearjunk t))\<rparr>"

lemma longer_key_None: "longer_key k t = None \<longleftrightarrow> (\<forall>(k', v)\<in>set t. \<not> prefix k' k)"
  by (induction k t rule: longer_key.induct) (auto simp: HasPrefix_iff split: option.splits)

lemma map_of_filter_neq: "map_of (filter (\<lambda>(k', _). k' \<noteq> k) t) x = (if x = k then None else map_of t x)"
  by (induction t) auto

lemma set_clearjunk: "(k, v) \<in> set (AList.clearjunk t) \<longleftrightarrow> map_of t k = Some v"
  by (metis distinct_clearjunk map_of_clearjunk map_of_eq_Some_iff)

interpretation ref_filter: allowlist_filter ref_ext ref_radix map_of
proof unfold_locales
  fix t k
  show "radix_LongestPrefix ref_radix t k = None \<longleftrightarrow> (\<forall>k' v. map_of t k' = Some v \<longrightarrow> \<not> prefix k' k)"
    by (auto simp: ref_radix_def longer_key_None set_clearjunk)
qed (auto simp: ref_radix_def map_of_filter_neq set_clearjunk distinct_clearjunk)

section \<open>Properties\<close>

text \<open>
  The filter states of the program: what the operations reach from \<open>NewFilter\<close>.
\<close>

inductive filter_reachable :: "dom_ext \<Rightarrow> 't radix_ops \<Rightarrow> 't Filter \<Rightarrow> bool" for E R where
  reach_New: "filter_reachable E R (NewFilter R)"
| reach_Add: "filter_reachable E R f \<Longrightarrow> filter_reachable E R (fst (Filter_Add E R f d))"
| reach_Remove: "filter_reachable E R f \<Longrightarrow> filter_reachable E R (fst (Filter_Remove E R f d))"
| reach_Replace: "filter_reachable E R f \<Longrightarrow> filter_reachable E R (Filter_Replace E R f ds)"
| reach_Clear: "filter_reachable E R f \<Longrightarrow> filter_reachable E R (Filter_Clear R f)"

context allowlist_filter
begin

lemma reachable_inv: "filter_reachable E R f \<Longrightarrow> filter_inv f"
  by (induction rule: filter_reachable.induct) (simp_all add: inv_New inv_Add inv_Remove inv_Replace inv_Clear)

end

text \<open>
  C14 (functional). The decision of the filter, in every state the program can reach: a name is
  allowed iff the labels of some entry of the allowlist are a suffix of the labels of the
  normalized name. So a parent entry allows its subdomains, no entry allows a name that only
  shares a part of a label with it, and an escaped dot in a label never makes a name a
  subdomain of an entry.
\<close>

theorem IsAllowed_label_suffix:
  assumes "allowlist_filter E R \<alpha>" and "filter_reachable E R f"
    and "NormalizeDomain E d = fqdn q" and "q \<noteq> [[]]" and "list_all label_ok q"
  shows "Filter_IsAllowed E R f d \<longleftrightarrow> (\<exists>v\<in>set (Filter_List R f). suffix (SplitDomainName E v) q)"
  using allowlist_filter.IsAllowed_iff [OF assms(1)] allowlist_filter.reachable_inv [OF assms(1,2)] assms(3-5)
  by blast

definition demo_filter :: "alist Filter" where
  "demo_filter = fst (Filter_Add ref_ext ref_radix (NewFilter ref_radix) ''GitHub.com'')"

lemmas filter_eval = domain_eval NormalizeDomain_def toASCIIDomain_def ReverseDomain_def swap_loop.simps
  ref_ext_def ref_radix_def entry_ok_def fqdn_def Filter_Add_def Filter_Remove_def Filter_IsAllowed_def
  Filter_List_def Filter_Replace_def NewFilter_def

lemma demo_tree: "tree demo_filter = [(''com.github.'', ''github.com.'')]"
  by (simp add: demo_filter_def filter_eval)

lemma demo_reachable: "filter_reachable ref_ext ref_radix demo_filter"
  unfolding demo_filter_def by (intro filter_reachable.intros)

lemma demo_names:
  "NormalizeDomain ref_ext ''api.github.com'' = fqdn [''api'', ''github'', ''com'']"
  "list_all label_ok [''api'', ''github'', ''com'']"
  by (simp_all add: filter_eval)

theorem IsAllowed_label_suffix_witness:
  "NormalizeDomain ref_ext ''api.github.com'' = fqdn [''api'', ''github'', ''com'']
   \<and> Filter_List ref_radix demo_filter = [''github.com.'']
   \<and> Filter_IsAllowed ref_ext ref_radix demo_filter ''api.github.com''
   \<and> (\<exists>v\<in>set (Filter_List ref_radix demo_filter).
        suffix (SplitDomainName ref_ext v) [''api'', ''github'', ''com''])"
proof -
  have l: "Filter_List ref_radix demo_filter = [''github.com.'']"
    by (simp add: demo_tree filter_eval)
  have a: "Filter_IsAllowed ref_ext ref_radix demo_filter ''api.github.com''"
    by (simp add: demo_tree filter_eval)
  show ?thesis
    using IsAllowed_label_suffix [OF ref_filter.allowlist_filter_axioms demo_reachable demo_names(1) _ demo_names(2)]
      l a demo_names(1) by simp
qed

definition filter_set :: "'t radix_ops \<Rightarrow> 't Filter \<Rightarrow> string set" where
  "filter_set R f = set (Filter_List R f)"

text \<open>
  C15 (refinement). The filter is a set of validated normalized domains. \<open>filter_set\<close> being the set
  of listed domains, \<open>Add\<close> inserts the normalized domain when it is valid and reports whether it
  is new, \<open>Remove\<close> deletes a valid one and reports whether it was there, \<open>Replace\<close> installs
  exactly the valid domains of its argument, \<open>Clear\<close> empties the set, and \<open>Count\<close> is its size.
\<close>

theorem filter_refines_set:
  assumes "allowlist_filter E R \<alpha>" and "filter_reachable E R f"
  shows "filter_set R (NewFilter R) = {}
    \<and> filter_set R (fst (Filter_Add E R f d)) =
        filter_set R f \<union> (if entry_ok (NormalizeDomain E d) then {NormalizeDomain E d} else {})
    \<and> snd (Filter_Add E R f d) =
        (entry_ok (NormalizeDomain E d) \<and> NormalizeDomain E d \<notin> filter_set R f)
    \<and> (entry_ok (NormalizeDomain E d) \<longrightarrow>
        filter_set R (fst (Filter_Remove E R f d)) = filter_set R f - {NormalizeDomain E d}
        \<and> snd (Filter_Remove E R f d) = (NormalizeDomain E d \<in> filter_set R f))
    \<and> filter_set R (Filter_Replace E R f ds) = {m \<in> NormalizeDomain E ` set ds. entry_ok m}
    \<and> filter_set R (Filter_Clear R f) = {}
    \<and> Filter_Count R f = card (filter_set R f)"
proof -
  note F = assms(1) and inv = allowlist_filter.reachable_inv [OF assms(1,2)]
  have "filter_set R (NewFilter R) = {}"
    unfolding filter_set_def by (rule allowlist_filter.List_New [OF F])
  moreover have "filter_set R (Filter_Clear R f) = filter_set R (NewFilter R)"
    by (simp add: filter_set_def Filter_Clear_def NewFilter_def Filter_List_def)
  ultimately show ?thesis
    using allowlist_filter.List_Add [OF F inv] allowlist_filter.List_Remove [OF F inv]
      allowlist_filter.List_Replace [OF F] allowlist_filter.Count_List [OF F inv]
    by (simp add: filter_set_def)
qed

theorem filter_refines_set_witness:
  "filter_set ref_radix (fst (Filter_Remove ref_ext ref_radix demo_filter ''github.com'')) = {}
   \<and> snd (Filter_Remove ref_ext ref_radix demo_filter ''github.com'')
   \<and> Filter_Count ref_radix demo_filter = 1"
proof -
  have "filter_set ref_radix demo_filter = {''github.com.''}"
    "NormalizeDomain ref_ext ''github.com'' = ''github.com.''" "entry_ok ''github.com.''"
    by (simp_all add: demo_tree filter_set_def filter_eval)
  then show ?thesis
    using filter_refines_set [OF ref_filter.allowlist_filter_axioms demo_reachable, of "''github.com''"]
    by simp
qed

end
