(* ===== verification/Allowlist_Loader.thy ===== *)
theory Allowlist_Loader
  imports Allowlist_Filter
begin

text \<open>
  \<^verbatim>\<open>internal/allowlist/loader.go\<close>, \<^verbatim>\<open>defaults.go\<close> and \<^verbatim>\<open>nofollow_unix.go\<close>: the allowlist file and
  its reloads.

  The file system is a directory with the allowlist and the temporary files of rewrites.
  The outcomes of the system calls that can fail are arguments: \<open>write_io\<close> for an append,
  \<open>rewrite_io\<close> for the calls of an atomic rewrite. \<open>bufio.Scanner\<close> is modelled
  with its limit: a line of 65536 bytes or more stops the scan with an error.
\<close>

section \<open>Files\<close>

datatype fnode = Missing | Symlink | Regular string

record adir =
  dest :: fnode
  tmps :: "string \<rightharpoonup> string"

datatype load_error =
    ErrNotExist | ErrSymlink | ErrTooLong
  | ErrNewline | ErrInvalid val_error | ErrWrite | ErrClose
  | ErrRewrite string | ErrWatcher

text \<open>\<open>OpenFileNoFollow\<close> without \<open>O_CREATE\<close>: the contents of a regular file.\<close>

fun OpenFileNoFollow :: "fnode \<Rightarrow> load_error + string" where
  "OpenFileNoFollow Missing = Inl ErrNotExist"
| "OpenFileNoFollow Symlink = Inl ErrSymlink"
| "OpenFileNoFollow (Regular c) = Inr c"

abbreviation LF :: char where "LF \<equiv> char_of (10::nat)"
abbreviation CR :: char where "CR \<equiv> char_of (13::nat)"

text \<open>\<open>bufio.ScanLines\<close>: the lines without their newline and without one carriage return.\<close>

definition drop_cr :: "string \<Rightarrow> string" where
  "drop_cr l = TrimSuffix l [CR]"

definition raw_lines :: "string \<Rightarrow> string list" where
  "raw_lines c = (let ws = Split c LF in if last ws = [] then butlast ws else ws)"

definition max_token :: nat where
  "max_token = 65536"

text \<open>The tokens of a scan and whether it ended with \<open>ErrTooLong\<close>.\<close>

definition scan_lines :: "string \<Rightarrow> string list \<times> bool" where
  "scan_lines c =
     (let ok = takeWhile (\<lambda>l. length l < max_token) (raw_lines c)
      in (map drop_cr ok, length ok < length (raw_lines c)))"

section \<open>Parsing\<close>

definition canonicalAllowlistEntry :: "dom_ext \<Rightarrow> string \<Rightarrow> string" where
  "canonicalAllowlistEntry E domain =
     toASCIIDomain E (TrimSuffix (TrimPrefix (TrimSpace domain) ''*.'') ''.'')"

definition is_skipped :: "string \<Rightarrow> bool" where
  "is_skipped line \<longleftrightarrow> line = [] \<or> HasPrefix line ''#''"

fun parse_lines :: "dom_ext \<Rightarrow> string list \<Rightarrow> string list" where
  "parse_lines E [] = []"
| "parse_lines E (raw # rest) =
     (let line = TrimSpace raw in
      if is_skipped line then parse_lines E rest
      else
        (let entry = canonicalAllowlistEntry E line in
         if ValidateDomain entry \<noteq> None then parse_lines E rest
         else entry # parse_lines E rest))"

definition parseAllowlistFile :: "dom_ext \<Rightarrow> fnode \<Rightarrow> load_error + string list" where
  "parseAllowlistFile E node =
     (case OpenFileNoFollow node of
        Inl e \<Rightarrow> Inl e
      | Inr c \<Rightarrow>
          (case scan_lines c of (lines, tooLong) \<Rightarrow>
             if tooLong then Inl ErrTooLong else Inr (parse_lines E lines)))"

section \<open>The loader\<close>

text \<open>\<open>on_reload\<close> says whether a callback is set; \<open>reload_log\<close> records its calls.\<close>

record 't Loader =
  l_dir :: adir
  l_filter :: "'t Filter"
  on_reload :: bool
  reload_log :: "(nat \<times> load_error option) list"

definition notify :: "'t Loader \<Rightarrow> nat \<Rightarrow> load_error option \<Rightarrow> 't Loader" where
  "notify l n e = (if on_reload l then l\<lparr>reload_log := reload_log l @ [(n, e)]\<rparr> else l)"

definition Loader_Load :: "dom_ext \<Rightarrow> 't radix_ops \<Rightarrow> 't Loader \<Rightarrow> 't Loader \<times> load_error option" where
  "Loader_Load E R l =
     (case parseAllowlistFile E (dest (l_dir l)) of
        Inl e \<Rightarrow> (l, Some e)
      | Inr domains \<Rightarrow>
          (notify (l\<lparr>l_filter := Filter_Replace E R (l_filter l) domains\<rparr>) (length domains) None, None))"

text \<open>A reload from the watcher or the signal reports its error to the callback.\<close>

definition reload :: "dom_ext \<Rightarrow> 't radix_ops \<Rightarrow> 't Loader \<Rightarrow> 't Loader" where
  "reload E R l =
     (case Loader_Load E R l of (l', None) \<Rightarrow> l' | (l', Some e) \<Rightarrow> notify l' 0 (Some e))"

datatype fs_op = OpCreate | OpWrite | OpRemove | OpRename | OpChmod

definition handleWatcherEvent ::
  "dom_ext \<Rightarrow> 't radix_ops \<Rightarrow> 't Loader \<Rightarrow> string \<times> fs_op list \<Rightarrow> string \<Rightarrow> 't Loader" where
  "handleWatcherEvent E R l event filename =
     (case event of (base, ops) \<Rightarrow>
        if base \<noteq> filename then l
        else if OpWrite \<in> set ops \<or> OpCreate \<in> set ops then reload E R l
        else l)"

datatype watch_input =
    WStop | WSighup | WEvent string "fs_op list" | WEventsClosed | WError | WErrorsClosed

text \<open>One turn of \<open>watchLoop\<close>; \<open>None\<close> is the return of the goroutine.\<close>

fun watch_step :: "dom_ext \<Rightarrow> 't radix_ops \<Rightarrow> string \<Rightarrow> 't Loader \<Rightarrow> watch_input \<Rightarrow> 't Loader option" where
  "watch_step E R filename l WStop = None"
| "watch_step E R filename l WSighup = Some (reload E R l)"
| "watch_step E R filename l (WEvent base ops) =
     Some (handleWatcherEvent E R l (base, ops) filename)"
| "watch_step E R filename l WEventsClosed = None"
| "watch_step E R filename l WError = Some (notify l 0 (Some ErrWatcher))"
| "watch_step E R filename l WErrorsClosed = None"

fun watchLoop :: "dom_ext \<Rightarrow> 't radix_ops \<Rightarrow> string \<Rightarrow> 't Loader \<Rightarrow> watch_input list \<Rightarrow> 't Loader" where
  "watchLoop E R filename l [] = l"
| "watchLoop E R filename l (i # is) =
     (case watch_step E R filename l i of None \<Rightarrow> l | Some l' \<Rightarrow> watchLoop E R filename l' is)"

section \<open>Writing\<close>

text \<open>How an append ends: completely, after some bytes with an error, or with an error of close.\<close>

datatype write_io = WriteOK | WriteFails nat | CloseFails

definition SaveDomain :: "write_io \<Rightarrow> adir \<Rightarrow> string \<Rightarrow> adir \<times> load_error option" where
  "SaveDomain io d dn =
     (let domain = TrimSpace dn in
      if ContainsAny domain [CR, LF] then (d, Some ErrNewline)
      else case ValidateDomain domain of
        Some e \<Rightarrow> (d, Some (ErrInvalid e))
      | None \<Rightarrow>
          (case OpenFileNoFollow (dest d) of
             Inl e \<Rightarrow> (d, Some e)
           | Inr c \<Rightarrow>
               (case io of
                  WriteFails n \<Rightarrow> (d\<lparr>dest := Regular (c @ take n (domain @ [LF]))\<rparr>, Some ErrWrite)
                | CloseFails \<Rightarrow> (d\<lparr>dest := Regular (c @ domain @ [LF])\<rparr>, Some ErrClose)
                | WriteOK \<Rightarrow> (d\<lparr>dest := Regular (c @ domain @ [LF])\<rparr>, None))))"

datatype rewrite_stage = CreateTemp | ChmodTemp | WriteTemp nat | FlushTemp | SyncTemp | CloseTemp | RenameTemp | RemoveTemp

definition lines_text :: "string list \<Rightarrow> string" where
  "lines_text ls = concat (map (\<lambda>l. l @ [LF]) ls)"

text \<open>
  The system calls of a rewrite: the name \<open>os.CreateTemp\<close> picks, which calls fail (\<open>WriteTemp i\<close> is the \<open>WriteString\<close>
  of line \<open>i\<close>), and how many bytes had left the buffer when a write or the flush failed.
\<close>

record rewrite_io =
  rw_name :: string
  rw_fails :: "rewrite_stage \<Rightarrow> bool"
  rw_flushed :: nat

text \<open>The temporary file from its creation to its closing: its contents and the first error.\<close>

definition fill_temp :: "rewrite_io \<Rightarrow> string list \<Rightarrow> string \<times> load_error option" where
  "fill_temp io ls =
     (if rw_fails io ChmodTemp then ([], Some (ErrRewrite ''chmod''))
      else case find (\<lambda>i. rw_fails io (WriteTemp i)) [0..<length ls] of
        Some i \<Rightarrow> (take (rw_flushed io) (lines_text (take (Suc i) ls)), Some (ErrRewrite ''write''))
      | None \<Rightarrow>
          if rw_fails io FlushTemp then (take (rw_flushed io) (lines_text ls), Some (ErrRewrite ''flush''))
          else if rw_fails io SyncTemp then (lines_text ls, Some (ErrRewrite ''sync''))
          else if rw_fails io CloseTemp then (lines_text ls, Some (ErrRewrite ''close''))
          else (lines_text ls, None))"

definition rename_temp :: "rewrite_io \<Rightarrow> adir \<Rightarrow> adir \<times> load_error option" where
  "rename_temp io d =
     (case tmps d (rw_name io) of
        None \<Rightarrow> (d, Some (ErrRewrite ''rename''))
      | Some c \<Rightarrow>
          if rw_fails io RenameTemp then (d, Some (ErrRewrite ''rename''))
          else (d\<lparr>dest := Regular c, tmps := (tmps d)(rw_name io := None)\<rparr>, None))"

text \<open>The deferred \<open>os.Remove\<close>, whose error is ignored.\<close>

definition remove_temp :: "rewrite_io \<Rightarrow> adir \<Rightarrow> adir" where
  "remove_temp io d = (if rw_fails io RemoveTemp then d else d\<lparr>tmps := (tmps d)(rw_name io := None)\<rparr>)"

text \<open>\<open>os.CreateTemp\<close> takes a name that is not in the directory, or fails; it returns before the \<open>defer\<close>.\<close>

definition atomicWriteLines :: "rewrite_io \<Rightarrow> adir \<Rightarrow> string list \<Rightarrow> adir \<times> load_error option" where
  "atomicWriteLines io d ls =
     (if rw_fails io CreateTemp \<or> tmps d (rw_name io) \<noteq> None then (d, Some (ErrRewrite ''create''))
      else
        (let (c, err) = fill_temp io ls;
             d1 = d\<lparr>tmps := (tmps d)(rw_name io \<mapsto> c)\<rparr>;
             (d2, err2) = (case err of Some e \<Rightarrow> (d1, Some e) | None \<Rightarrow> rename_temp io d1)
         in (remove_temp io d2, err2)))"

text \<open>The loop of \<open>RemoveDomain\<close>: the lines kept and whether one was dropped.\<close>

fun remove_loop :: "dom_ext \<Rightarrow> string \<Rightarrow> string list \<Rightarrow> string list \<times> bool" where
  "remove_loop E target [] = ([], False)"
| "remove_loop E target (raw # rest) =
     (case remove_loop E target rest of (kept, removed) \<Rightarrow>
        let trimmed = TrimSpace raw in
        if is_skipped trimmed then (raw # kept, removed)
        else if canonicalAllowlistEntry E trimmed = target then (kept, True)
        else (raw # kept, removed))"

definition RemoveDomain ::
  "dom_ext \<Rightarrow> rewrite_io \<Rightarrow> adir \<Rightarrow> string \<Rightarrow> adir \<times> (load_error + bool)" where
  "RemoveDomain E io d domain =
     (let target = canonicalAllowlistEntry E domain in
      case OpenFileNoFollow (dest d) of
        Inl e \<Rightarrow> (d, Inl e)
      | Inr c \<Rightarrow>
          (case scan_lines c of (lines, tooLong) \<Rightarrow>
             if tooLong then (d, Inl ErrTooLong)
             else
               (case remove_loop E target lines of (kept, removed) \<Rightarrow>
                  if \<not> removed then (d, Inr False)
                  else (case atomicWriteLines io d kept of
                          (d', Some e) \<Rightarrow> (d', Inl e)
                        | (d', None) \<Rightarrow> (d', Inr True)))))"

text \<open>\<open>CreateDefaultAllowlist\<close> with \<open>O_EXCL\<close>: an existing file (or symbolic link) is left alone.\<close>

definition DefaultDomains :: string where
  "DefaultDomains = lines_text
     [''# Domain Allowlist for abox instance'',
      ''# One domain per line. Subdomains are automatically allowed.'',
      ''# Lines starting with # are comments.'',
      ''#'',
      ''# No domains are allowed by default. Add domains as needed:'',
      ''#   abox allowlist add <instance> example.com'']"

fun CreateDefaultAllowlist :: "fnode \<Rightarrow> fnode" where
  "CreateDefaultAllowlist Missing = Regular DefaultDomains"
| "CreateDefaultAllowlist n = n"

section \<open>Lines\<close>

lemma Itoa_no_LF: "LF \<notin> set (Itoa n)"
  using Itoa_digits [of n] by (auto simp: list_all_iff is_digit_def)

lemma raw_lines_Cons: "LF \<notin> set l \<Longrightarrow> raw_lines (l @ LF # t) = l # raw_lines t"
  by (simp add: raw_lines_def Let_def Split_append)

lemma raw_lines_text: "\<forall>l\<in>set ls. LF \<notin> set l \<Longrightarrow> raw_lines (lines_text ls @ t) = ls @ raw_lines t"
  by (induction ls) (simp_all add: lines_text_def raw_lines_Cons)

lemma raw_lines_Nil [simp]: "raw_lines [] = []"
  by (simp add: raw_lines_def)

lemma raw_lines_no_LF: "l \<in> set (raw_lines c) \<Longrightarrow> LF \<notin> set l"
  by (auto simp: raw_lines_def Let_def dest: in_set_butlastD Split_no_sep split: if_splits)

lemma drop_cr_le: "length (drop_cr l) \<le> length l"
  by (simp add: drop_cr_def TrimSuffix_def)

lemma set_drop_cr: "set (drop_cr l) \<subseteq> set l"
  by (simp add: drop_cr_def set_TrimSuffix)

lemma scan_lines_ok:
  assumes "scan_lines c = (ls, False)"
  shows "ls = map drop_cr (raw_lines c)" and "\<forall>l\<in>set (raw_lines c). length l < max_token"
proof -
  let ?ok = "takeWhile (\<lambda>l. length l < max_token) (raw_lines c)"
  from assms have "length ?ok = length (raw_lines c)" and ls: "ls = map drop_cr ?ok"
    using length_takeWhile_le [of "\<lambda>l. length l < max_token" "raw_lines c"]
    by (auto simp: scan_lines_def Let_def)
  then have eq: "?ok = raw_lines c" by (metis takeWhile_eq_take take_all le_refl)
  then show "ls = map drop_cr (raw_lines c)" using ls by (simp only:)
  show "\<forall>l\<in>set (raw_lines c). length l < max_token"
    using eq by (metis set_takeWhileD)
qed

lemma scan_linesI:
  "\<forall>l\<in>set (raw_lines c). length l < max_token \<Longrightarrow> scan_lines c = (map drop_cr (raw_lines c), False)"
  by (simp add: scan_lines_def takeWhile_eq_all_conv [THEN iffD2])

text \<open>A carriage return at the end of a line does not change how it parses.\<close>

lemma trim_find_snoc:
  assumes "\<forall>w\<in>set ws. c \<in> set w \<longrightarrow> w = [c]" "s \<noteq> []"
  shows "find (\<lambda>w. w \<noteq> [] \<and> HasPrefix (s @ [c]) w) ws = find (\<lambda>w. w \<noteq> [] \<and> HasPrefix s w) ws"
proof (rule find_cong [OF refl])
  fix w assume w: "w \<in> set ws"
  have "w \<noteq> s @ [c]" using assms w by auto
  then show "(w \<noteq> [] \<and> HasPrefix (s @ [c]) w) = (w \<noteq> [] \<and> HasPrefix s w)"
    by (simp add: HasPrefix_iff)
qed

lemma trim_left_step: "[c] \<in> set ws \<Longrightarrow> \<forall>w\<in>set ws. c \<in> set w \<longrightarrow> w = [c] \<Longrightarrow>
  trim_left_by ws (c # s) = trim_left_by ws s"
proof -
  assume ws: "[c] \<in> set ws" "\<forall>w\<in>set ws. c \<in> set w \<longrightarrow> w = [c]"
  let ?P = "\<lambda>w. w \<noteq> [] \<and> HasPrefix (c # s) w"
  have only: "w = [c]" if "w \<in> set ws" "?P w" for w
  proof -
    from that(2) have "c \<in> set w" by (cases "(c # s, w)" rule: HasPrefix.cases) auto
    with that(1) ws(2) show ?thesis by blast
  qed
  have "find ?P ws \<noteq> None" using ws(1) by (auto simp: find_None_iff HasPrefix_iff)
  then obtain w where "find ?P ws = Some w" by blast
  moreover have "w = [c]" using calculation only by (auto simp: find_Some_iff)
  ultimately show ?thesis by (subst trim_left_by.simps) simp
qed

lemma trim_left_snoc:
  "[c] \<in> set ws \<Longrightarrow> \<forall>w\<in>set ws. c \<in> set w \<longrightarrow> w = [c] \<Longrightarrow>
   trim_left_by ws (s @ [c]) = (if trim_left_by ws s = [] then [] else trim_left_by ws s @ [c])"
proof (induction ws s rule: trim_left_by.induct)
  case (1 ws s)
  let ?f = "find (\<lambda>w. w \<noteq> [] \<and> HasPrefix s w) ws"
  have e: "trim_left_by ws [] = []"
    by (rule trim_left_by_id) (auto simp: HasPrefix_iff)
  show ?case
  proof (cases "s = []")
    case True
    then show ?thesis using trim_left_step [OF "1.prems", of "[]"] e by simp
  next
    case s: False
    show ?thesis
    proof (cases ?f)
      case None
      with s show ?thesis
        by (simp add: trim_left_by.simps [of ws s] trim_left_by.simps [of ws "s @ [c]"]
            trim_find_snoc [OF "1.prems"(2)])
    next
      case (Some w)
      then have "length w \<le> length s" by (auto simp: find_Some_iff HasPrefix_iff prefix_length_le)
      with Some s "1.IH" [OF Some "1.prems"] show ?thesis
        by (simp add: trim_left_by.simps [of ws s] trim_left_by.simps [of ws "s @ [c]"]
            trim_find_snoc [OF "1.prems"(2)])
    qed
  qed
qed

lemma CR_rune: "[CR] \<in> set space_runes" "\<forall>w\<in>set space_runes. CR \<in> set w \<longrightarrow> w = [CR]"
  by (simp_all add: space_runes_def ascii_spaces_def unicode_spaces_def bytes_def char_of_eq_iff)

lemma TrimSpace_CR: "TrimSpace (s @ [CR]) = TrimSpace s"
proof -
  have "rev [CR] \<in> rev ` set space_runes" using CR_rune(1) by (rule imageI)
  then have r1: "[CR] \<in> set (map rev space_runes)" by simp
  have r2: "\<forall>w\<in>set (map rev space_runes). CR \<in> set w \<longrightarrow> w = [CR]"
  proof (intro ballI impI)
    fix v assume "v \<in> set (map rev space_runes)" and v: "CR \<in> set v"
    then obtain w where w: "w \<in> set space_runes" "v = rev w" by auto
    with v CR_rune(2) have "w = [CR]" by simp
    with w show "v = [CR]" by simp
  qed
  show ?thesis
    using trim_left_snoc [OF CR_rune, of s] trim_left_step [OF r1 r2, of "rev (trim_left_by space_runes s)"]
      trim_left_by_id [of "map rev space_runes" "[]"]
    by (auto simp: TrimSpace_def HasPrefix_iff)
qed

lemma TrimSpace_drop_cr [simp]: "TrimSpace (drop_cr l) = TrimSpace l"
  unfolding drop_cr_def by (rule TrimSuffix_cases [of l "[CR]"]) (simp_all add: TrimSpace_CR)

lemma parse_lines_drop_cr [simp]: "parse_lines E (map drop_cr ls) = parse_lines E ls"
  by (induction ls) (simp_all add: Let_def)

lemma parse_lines_append: "parse_lines E (as @ bs) = parse_lines E as @ parse_lines E bs"
  by (induction as) (simp_all add: Let_def)

text \<open>The entries of a file, where it can be scanned.\<close>

lemma parse_Regular:
  "parseAllowlistFile E (Regular c) =
     (if \<forall>l\<in>set (raw_lines c). length l < max_token then Inr (parse_lines E (raw_lines c)) else Inl ErrTooLong)"
proof (cases "\<forall>l\<in>set (raw_lines c). length l < max_token")
  case True
  then show ?thesis by (simp add: parseAllowlistFile_def scan_linesI)
next
  case False
  then have "snd (scan_lines c)"
    using scan_lines_ok(2) [of c "fst (scan_lines c)"] by (cases "scan_lines c") auto
  with False show ?thesis by (auto simp: parseAllowlistFile_def split: prod.splits)
qed

lemma remove_loop_kept:
  "parse_lines E (fst (remove_loop E target ls)) = List.filter (\<lambda>e. e \<noteq> target) (parse_lines E ls)"
  "set (fst (remove_loop E target ls)) \<subseteq> set ls"
proof (induction ls)
  case (Cons raw ls)
  have "canonicalAllowlistEntry E (TrimSpace raw) = target \<Longrightarrow>
      parse_lines E (fst (remove_loop E target (raw # ls))) = List.filter (\<lambda>e. e \<noteq> target) (parse_lines E (raw # ls))"
    using Cons by (auto simp: Let_def split: prod.splits)
  then show "parse_lines E (fst (remove_loop E target (raw # ls))) = List.filter (\<lambda>e. e \<noteq> target) (parse_lines E (raw # ls))"
    using Cons by (auto simp: Let_def split: prod.splits)
  show "set (fst (remove_loop E target (raw # ls))) \<subseteq> set (raw # ls)"
    using Cons(2) by (auto simp: Let_def split: prod.splits)
qed simp_all

lemma remove_loop_unchanged:
  "\<not> snd (remove_loop E target ls) \<Longrightarrow> fst (remove_loop E target ls) = ls"
  by (induction ls) (auto simp: Let_def split: prod.splits if_splits)

lemma rewrite_lines:
  assumes "\<forall>l\<in>set ls. LF \<notin> set l \<and> length l < max_token"
  shows "parseAllowlistFile E (Regular (lines_text ls)) = Inr (parse_lines E ls)"
  using assms raw_lines_text [of ls "[]"] by (simp add: parse_Regular)

lemma scan_lines_text:
  assumes "\<forall>l\<in>set ls. LF \<notin> set l \<and> length l < max_token"
  shows "scan_lines (lines_text ls) = (map drop_cr ls, False)"
  using assms raw_lines_text [of ls "[]"] scan_linesI [of "lines_text ls"] by simp

text \<open>The outcome of a rewrite, on each way through it.\<close>

lemma lines_text_append: "lines_text (a @ b) = lines_text a @ lines_text b"
  by (simp add: lines_text_def)

lemma fill_temp_content:
  assumes "fill_temp io ls = (c, err)"
  shows "if err = None then c = lines_text ls else \<exists>n. c = take n (lines_text ls)"
proof -
  have "take n (lines_text (take k ls)) = take (min n (length (lines_text (take k ls)))) (lines_text ls)" for n k
    using lines_text_append [of "take k ls" "drop k ls"] by (simp add: min_def)
  moreover have "lines_text ls = take (length (lines_text ls)) (lines_text ls)" "[] = take 0 (lines_text ls)" by simp_all
  ultimately have "\<exists>n. take (rw_flushed io) (lines_text (take (Suc i) ls)) = take n (lines_text ls)"
    "\<exists>n. lines_text ls = take n (lines_text ls)" "\<exists>n. [] = take n (lines_text ls)" for i by blast+
  then show ?thesis using assms by (auto simp: fill_temp_def split: if_splits option.splits)
qed

lemma fill_temp_ok:
  "snd (fill_temp io ls) = None \<longleftrightarrow> \<not> rw_fails io ChmodTemp \<and> (\<forall>i<length ls. \<not> rw_fails io (WriteTemp i))
     \<and> \<not> rw_fails io FlushTemp \<and> \<not> rw_fails io SyncTemp \<and> \<not> rw_fails io CloseTemp"
  by (auto simp: fill_temp_def find_None_iff find_Some_iff split: option.splits)

lemma atomicWriteLines_cases:
  assumes "atomicWriteLines io d ls = (d', err)"
  obtains (same) "d' = d" "err \<noteq> None"
  | (left) n where "err \<noteq> None" "rw_fails io RemoveTemp" "tmps d (rw_name io) = None" "dest d' = dest d"
      "tmps d' = (tmps d)(rw_name io \<mapsto> take n (lines_text ls))"
  | (new) "err = None" "dest d' = Regular (lines_text ls)" "tmps d' = tmps d"
proof (cases "rw_fails io CreateTemp \<or> tmps d (rw_name io) \<noteq> None")
  case True
  then show ?thesis using assms same by (auto simp: atomicWriteLines_def)
next
  case False
  obtain c e where f: "fill_temp io ls = (c, e)" by fastforce
  let ?d = "d\<lparr>tmps := (tmps d)(rw_name io \<mapsto> c)\<rparr>"
  have undo: "(tmps d)(rw_name io := None) = tmps d" using False by auto
  show ?thesis
  proof (cases "e \<noteq> None \<or> rw_fails io RenameTemp")
    case True
    then have r: "d' = remove_temp io ?d" "err \<noteq> None"
      using assms False f by (auto simp: atomicWriteLines_def rename_temp_def Let_def split: option.splits)
    obtain n where c: "c = take n (lines_text ls)" using fill_temp_content [OF f] by (metis order_refl take_all)
    show ?thesis
    proof (cases "rw_fails io RemoveTemp")
      case True
      then show ?thesis using left [of n] r False c by (simp add: remove_temp_def)
    next
      case f: False
      then show ?thesis using same r undo by (simp add: remove_temp_def)
    qed
  next
    case ok: False
    then have "err = None" "d' = remove_temp io (?d\<lparr>dest := Regular c, tmps := (tmps d)(rw_name io := None)\<rparr>)"
      using assms False f by (simp_all add: atomicWriteLines_def rename_temp_def Let_def)
    moreover have "c = lines_text ls" using fill_temp_content [OF f] ok by simp
    ultimately show ?thesis using new undo by (simp add: remove_temp_def)
  qed
qed

lemma atomicWriteLines_dest:
  "atomicWriteLines io d ls = (d', err) \<Longrightarrow> dest d' = (if err = None then Regular (lines_text ls) else dest d)"
  by (erule atomicWriteLines_cases) auto

lemma atomicWriteLines_ok:
  "snd (atomicWriteLines io d ls) = None \<longleftrightarrow> tmps d (rw_name io) = None \<and> \<not> rw_fails io CreateTemp \<and> \<not> rw_fails io ChmodTemp
     \<and> (\<forall>i<length ls. \<not> rw_fails io (WriteTemp i)) \<and> \<not> rw_fails io FlushTemp \<and> \<not> rw_fails io SyncTemp
     \<and> \<not> rw_fails io CloseTemp \<and> \<not> rw_fails io RenameTemp"
  using fill_temp_ok [of io ls]
  by (cases "fill_temp io ls") (auto simp: atomicWriteLines_def rename_temp_def split: option.splits)

text \<open>What a removal leaves of a file that can be scanned.\<close>

lemma RemoveDomain_result:
  assumes "RemoveDomain E io d dn = (d', Inr b)" and "dest d = Regular c"
    and "parseAllowlistFile E (dest d) = Inr es"
  shows "parseAllowlistFile E (dest d') =
     Inr (List.filter (\<lambda>e. e \<noteq> canonicalAllowlistEntry E dn) es)"
proof -
  let ?t = "canonicalAllowlistEntry E dn" and ?ls = "map drop_cr (raw_lines c)"
  from assms(2,3) have short: "\<forall>l\<in>set (raw_lines c). length l < max_token"
    and es: "es = parse_lines E (raw_lines c)"
    by (auto simp: parse_Regular split: if_splits)
  obtain kept rem where rl: "remove_loop E ?t ?ls = (kept, rem)" by force
  have scan: "scan_lines c = (?ls, False)" using short by (rule scan_linesI)
  have k: "parse_lines E kept = List.filter (\<lambda>e. e \<noteq> ?t) es" "set kept \<subseteq> set ?ls"
    using remove_loop_kept [of E ?t ?ls] rl es by simp_all
  show ?thesis
  proof (cases rem)
    case False
    then have "d' = d" "kept = ?ls"
      using assms(1,2) rl scan remove_loop_unchanged [of E ?t ?ls] by (auto simp: RemoveDomain_def)
    then show ?thesis using assms(2,3) es k(1) by simp
  next
    case True
    then have "dest d' = Regular (lines_text kept)"
      using assms(1,2) rl scan by (auto simp: RemoveDomain_def split: prod.splits option.splits dest: atomicWriteLines_dest)
    moreover have "\<forall>l\<in>set kept. LF \<notin> set l \<and> length l < max_token"
    proof
      fix l assume "l \<in> set kept"
      then obtain r where r: "r \<in> set (raw_lines c)" "l = drop_cr r" using k(2) by auto
      show "LF \<notin> set l \<and> length l < max_token"
        using raw_lines_no_LF [OF r(1)] set_drop_cr [of r] drop_cr_le [of r] short r by fastforce
    qed
    ultimately show ?thesis using k(1) by (simp add: rewrite_lines)
  qed
qed

section \<open>Properties\<close>

lemma parse_lines_set:
  "set (parse_lines E ls) = {e. \<exists>raw\<in>set ls. TrimSpace raw \<noteq> [] \<and> hd (TrimSpace raw) \<noteq> CHR ''#''
     \<and> e = toASCIIDomain E (TrimSuffix (TrimPrefix (TrimSpace raw) ''*.'') ''.'') \<and> ValidateDomain e = None}"
proof (induction ls)
  case (Cons raw ls)
  have "is_skipped (TrimSpace raw) \<longleftrightarrow> TrimSpace raw = [] \<or> hd (TrimSpace raw) = CHR ''#''"
    by (cases "TrimSpace raw") (auto simp: is_skipped_def)
  then show ?case using Cons by (auto simp: Let_def canonicalAllowlistEntry_def)
qed simp

lemma raw_lines_Split: "insert [] (set (Split c LF)) = insert [] (set (raw_lines c))"
proof -
  have "set (Split c LF) = insert (last (Split c LF)) (set (butlast (Split c LF)))"
    by (metis Split_not_Nil append_butlast_last_id insert_is_Un list.simps(15) set_append sup_commute list.set(1))
  then show ?thesis by (auto simp: raw_lines_def Let_def)
qed

lemma raw_lines_ball: "P [] \<Longrightarrow> (\<forall>raw\<in>set (raw_lines c). P raw) \<longleftrightarrow> (\<forall>raw\<in>set (Split c LF). P raw)"
proof -
  assume "P []"
  have "(\<forall>raw\<in>insert [] (set (Split c LF)). P raw) \<longleftrightarrow> (\<forall>raw\<in>insert [] (set (raw_lines c)). P raw)"
    by (simp only: raw_lines_Split)
  with \<open>P []\<close> show ?thesis by simp
qed

text \<open>
  C27 (functional). What \<open>Load\<close> does, from the text of the file. A missing file, a symbolic link and a file with a line of
  65536 bytes or more are refused, and the filter stays as it was: a broken file never widens or empties the allowlist
  in force. Otherwise the filter's set is replaced by the names of the file: for each line that, without the white space around it, is
  neither empty nor a comment, the name without a leading wildcard and a final dot, in ASCII form,
  provided it is a valid domain (and its normal form too); other lines count for nothing.
\<close>

theorem Load_installs_file:
  assumes "allowlist_filter E R \<alpha>"
  shows "case dest (l_dir l) of
     Missing \<Rightarrow> Loader_Load E R l = (l, Some ErrNotExist)
   | Symlink \<Rightarrow> Loader_Load E R l = (l, Some ErrSymlink)
   | Regular c \<Rightarrow>
       if \<exists>raw\<in>set (Split c LF). 65536 \<le> length raw then Loader_Load E R l = (l, Some ErrTooLong)
       else snd (Loader_Load E R l) = None \<and> l_dir (fst (Loader_Load E R l)) = l_dir l
         \<and> filter_set R (l_filter (fst (Loader_Load E R l))) =
             {m. \<exists>raw\<in>set (Split c LF). \<exists>e. TrimSpace raw \<noteq> [] \<and> hd (TrimSpace raw) \<noteq> CHR ''#''
                \<and> e = toASCIIDomain E (TrimSuffix (TrimPrefix (TrimSpace raw) ''*.'') ''.'')
                \<and> ValidateDomain e = None \<and> m = NormalizeDomain E e \<and> ValidateDomain (TrimSuffix m ''.'') = None}"
proof (cases "dest (l_dir l)")
  case (Regular c)
  have long: "(\<exists>raw\<in>set (Split c LF). 65536 \<le> length raw) \<longleftrightarrow> \<not> (\<forall>l\<in>set (raw_lines c). length l < max_token)"
    using raw_lines_ball [of "\<lambda>l. length l < max_token" c] by (auto simp: max_token_def not_less)
  show ?thesis
  proof (cases "\<exists>raw\<in>set (Split c LF). 65536 \<le> length raw")
    case True
    then show ?thesis using Regular long by (simp add: Loader_Load_def parse_Regular)
  next
    case False
    have p: "parseAllowlistFile E (dest (l_dir l)) = Inr (parse_lines E (raw_lines c))"
      using Regular False long by (simp add: parse_Regular)
    have "(\<exists>raw\<in>set (raw_lines c). P raw) \<longleftrightarrow> (\<exists>raw\<in>set (Split c LF). P raw)" if "\<not> P []" for P
      using raw_lines_ball [of "\<lambda>l. \<not> P l" c] that by blast
    note ex = this [of "\<lambda>raw. TrimSpace raw \<noteq> [] \<and> Q raw" for Q]
    have "set (parse_lines E (raw_lines c)) = {e. \<exists>raw\<in>set (Split c LF). TrimSpace raw \<noteq> [] \<and> hd (TrimSpace raw) \<noteq> CHR ''#''
     \<and> e = toASCIIDomain E (TrimSuffix (TrimPrefix (TrimSpace raw) ''*.'') ''.'') \<and> ValidateDomain e = None}"
      unfolding parse_lines_set by (subst ex) (simp_all add: go_eval)
    then have "{m \<in> NormalizeDomain E ` set (parse_lines E (raw_lines c)). entry_ok m} =
        {m. \<exists>raw\<in>set (Split c LF). \<exists>e. TrimSpace raw \<noteq> [] \<and> hd (TrimSpace raw) \<noteq> CHR ''#''
                \<and> e = toASCIIDomain E (TrimSuffix (TrimPrefix (TrimSpace raw) ''*.'') ''.'')
                \<and> ValidateDomain e = None \<and> m = NormalizeDomain E e \<and> ValidateDomain (TrimSuffix m ''.'') = None}"
      by (auto simp: entry_ok_def)
    moreover have "snd (Loader_Load E R l) = None" "l_dir (fst (Loader_Load E R l)) = l_dir l"
        "filter_set R (l_filter (fst (Loader_Load E R l))) = {m \<in> NormalizeDomain E ` set (parse_lines E (raw_lines c)). entry_ok m}"
      using allowlist_filter.List_Replace [OF assms] p by (simp_all add: Loader_Load_def notify_def filter_set_def)
    ultimately show ?thesis using Regular False by simp
  qed
qed (simp_all add: Loader_Load_def parseAllowlistFile_def)

definition demo_loader :: "alist Loader" where
  "demo_loader = \<lparr>l_dir = \<lparr>dest = Regular (lines_text [''# dev'', ''*.GitHub.com'', ''bad_'']), tmps = Map.empty\<rparr>,
     l_filter = NewFilter ref_radix, on_reload = True, reload_log = []\<rparr>"

lemmas loader_eval = filter_eval canonicalAllowlistEntry_def is_skipped_def drop_cr_def max_token_def
  rewrite_lines scan_lines_text

lemma demo_file: "parseAllowlistFile ref_ext (dest (l_dir demo_loader)) = Inr [''github.com'']"
  by (simp add: demo_loader_def loader_eval)

definition calm_io :: rewrite_io where
  "calm_io = \<lparr>rw_name = ''.allowlist-1.tmp'', rw_fails = (\<lambda>_. False), rw_flushed = 0\<rparr>"

theorem Load_installs_file_witness:
  "filter_set ref_radix (l_filter (fst (Loader_Load ref_ext ref_radix demo_loader))) = {''github.com.''}"
proof -
  let ?c = "lines_text [''# dev'', ''*.GitHub.com'', ''bad_'']"
  have d: "dest (l_dir demo_loader) = Regular ?c" by (simp add: demo_loader_def)
  have s: "Split ?c LF = [''# dev'', ''*.GitHub.com'', ''bad_'', []]" by (simp add: lines_text_def go_eval)
  have e: "toASCIIDomain ref_ext (TrimSuffix (TrimPrefix ''*.GitHub.com'' ''*.'') ''.'') = ''github.com''"
    "toASCIIDomain ref_ext (TrimSuffix (TrimPrefix ''bad_'' ''*.'') ''.'') = ''bad_''" "TrimSpace ''bad_'' = ''bad_''"
    "NormalizeDomain ref_ext ''github.com'' = ''github.com.''" "ValidateDomain ''github.com'' = None" "ValidateDomain ''bad_'' \<noteq> None"
    "TrimSpace ''# dev'' = ''# dev''" "TrimSpace ''*.GitHub.com'' = ''*.GitHub.com''" "TrimSpace [] = []" "TrimSuffix ''github.com.'' ''.'' = ''github.com''"
    by (simp_all add: loader_eval)
  show ?thesis
    using Load_installs_file [OF ref_filter.allowlist_filter_axioms, of demo_loader] unfolding d fnode.case s
    by (simp add: e Collect_conv_if)
qed

text \<open>
  C28 (roundtrip). After a successful \<open>RemoveDomain\<close> a reload finds every entry of the file
  except the removed one, whatever comments, blank lines, wildcards and line endings the file
  has; the removal is not resurrected.
\<close>

theorem RemoveDomain_reload:
  assumes "RemoveDomain E io d dn = (d', Inr b)" and "parseAllowlistFile E (dest d) = Inr es"
  shows "parseAllowlistFile E (dest d') = Inr (List.filter (\<lambda>e. e \<noteq> canonicalAllowlistEntry E dn) es)"
proof (cases "dest d")
  case (Regular c)
  then show ?thesis using RemoveDomain_result [OF assms(1) _ assms(2)] by simp
qed (use assms(2) in \<open>simp_all add: parseAllowlistFile_def\<close>)

theorem RemoveDomain_reload_witness:
  "parseAllowlistFile ref_ext (dest (fst (RemoveDomain ref_ext calm_io (l_dir demo_loader) ''github.com''))) = Inr []"
proof -
  let ?d = "l_dir demo_loader"
  have r: "RemoveDomain ref_ext calm_io ?d ''github.com'' =
      (\<lparr>dest = Regular (lines_text [''# dev'', ''bad_'']), tmps = Map.empty\<rparr>, Inr True)"
    by (simp add: RemoveDomain_def demo_loader_def atomicWriteLines_def fill_temp_def rename_temp_def remove_temp_def calm_io_def loader_eval)
  have "canonicalAllowlistEntry ref_ext ''github.com'' = ''github.com''" by (simp add: loader_eval)
  then show ?thesis using RemoveDomain_reload [OF r demo_file] r by simp
qed

text \<open>
  C29 (safety). \<open>atomicWriteLines\<close> is atomic: whichever of its system calls fail, the allowlist is afterwards the complete new
  file when no error is returned, and the old one otherwise; no error is returned exactly when the
  creation, the writes, the flush, the sync, the close and the rename all succeed. The other files of
  the directory stay, and no temporary file is left, except after an error when the removal of the temporary file, whose error the code ignores,
  failed too: then it holds a prefix of the new text.
\<close>

theorem atomicWriteLines_atomic:
  assumes "atomicWriteLines io d ls = (d', err)"
  shows "dest d' = (if err = None then Regular (lines_text ls) else dest d)
    \<and> (err = None \<longleftrightarrow> tmps d (rw_name io) = None \<and> \<not> rw_fails io CreateTemp \<and> \<not> rw_fails io ChmodTemp
         \<and> (\<forall>i<length ls. \<not> rw_fails io (WriteTemp i)) \<and> \<not> rw_fails io FlushTemp \<and> \<not> rw_fails io SyncTemp
         \<and> \<not> rw_fails io CloseTemp \<and> \<not> rw_fails io RenameTemp)
    \<and> (tmps d' = tmps d \<or> err \<noteq> None \<and> rw_fails io RemoveTemp \<and> tmps d (rw_name io) = None
         \<and> (\<exists>n. tmps d' = (tmps d)(rw_name io \<mapsto> take n (lines_text ls))))"
proof -
  have "snd (atomicWriteLines io d ls) = err" using assms by simp
  note ok = atomicWriteLines_ok [of io d ls, unfolded this]
  from assms show ?thesis by (cases rule: atomicWriteLines_cases) (use ok in auto)
qed

text \<open>In the witness the sync fails, and then the removal too.\<close>

theorem atomicWriteLines_atomic_witness:
  "\<exists>d' e. atomicWriteLines (calm_io\<lparr>rw_fails := (\<lambda>s. s = SyncTemp \<or> s = RemoveTemp)\<rparr>) \<lparr>dest = Regular ''a'', tmps = Map.empty\<rparr> [''b''] = (d', Some e)
     \<and> dest d' = Regular ''a'' \<and> tmps d' ''.allowlist-1.tmp'' = Some (''b'' @ [LF])"
proof -
  let ?io = "calm_io\<lparr>rw_fails := (\<lambda>s. s = SyncTemp \<or> s = RemoveTemp)\<rparr>" and ?d = "\<lparr>dest = Regular ''a'', tmps = Map.empty\<rparr>"
  obtain d' err where a: "atomicWriteLines ?io ?d [''b''] = (d', err)" by fastforce
  note w = atomicWriteLines_atomic [OF a]
  have e: "err \<noteq> None" using w by (auto simp: calm_io_def)
  have "tmps d' ''.allowlist-1.tmp'' = Some (''b'' @ [LF])"
    using a by (auto simp: atomicWriteLines_def fill_temp_def remove_temp_def calm_io_def lines_text_def)
  with a e w show ?thesis by auto
qed

lemma SaveDomain_ok:
  assumes "SaveDomain io d dn = (d', None)"
  obtains c where "dest d = Regular c" "dest d' = Regular (c @ TrimSpace dn @ [LF])"
    "LF \<notin> set (TrimSpace dn)" "ValidateDomain (TrimSpace dn) = None"
proof (cases "dest d")
  case (Regular c)
  with assms that show ?thesis
    by (auto simp: SaveDomain_def Let_def ContainsAny_def list_ex_iff
        split: if_splits option.splits write_io.splits)
qed (use assms in \<open>auto simp: SaveDomain_def Let_def split: if_splits option.splits\<close>)

lemma ValidateDomain_length:
  assumes "ValidateDomain d = None"
  shows "length d \<le> 256"
proof (rule ValidateDomain_body [OF assms])
  fix ls assume "length (domain_body d) \<le> 253"
  moreover have "length d \<le> length (domain_body d) + 3"
    by (rule domain_body_cases [of d])
      (metis le_add1, (drule arg_cong [where f = length], simp)+)
  ultimately show ?thesis by simp
qed

text \<open>The last line of a text and what comes before it.\<close>

lemma raw_lines_snoc:
  assumes "\<forall>k\<in>set ls. LF \<notin> set k" "LF \<notin> set l" "l \<noteq> []"
  shows "raw_lines (lines_text ls @ l) = ls @ [l]"
  using raw_lines_text [OF assms(1), of l] assms by (simp add: raw_lines_def Split_atom)

lemma text_cases:
  obtains ls l where "c = lines_text ls @ l" "\<forall>k\<in>set ls. LF \<notin> set k" "LF \<notin> set l"
proof (induction c arbitrary: thesis rule: length_induct)
  case (1 c)
  show ?case
  proof (cases "LF \<in> set c")
    case False
    then show ?thesis using "1.prems" [of "[]" c] by (simp add: lines_text_def)
  next
    case True
    then obtain k r where kr: "c = k @ LF # r" "LF \<notin> set k" by (metis split_list_first)
    then have "length r < length c" by simp
    with "1.IH" obtain ls l where "r = lines_text ls @ l" "\<forall>k\<in>set ls. LF \<notin> set k" "LF \<notin> set l"
      by metis
    then show ?thesis using "1.prems" [of "k # ls" l] kr by (simp add: lines_text_def)
  qed
qed

lemma Save_text:
  assumes "SaveDomain io d dn = (d', None)" and "dest d = Regular (lines_text ls @ l)"
    and "\<forall>k\<in>set ls. LF \<notin> set k" "LF \<notin> set l"
  shows "\<exists>c'. dest d' = Regular c' \<and> raw_lines c' = ls @ [l @ TrimSpace dn]"
proof -
  from assms(1,2) have d': "dest d' = Regular ((lines_text ls @ l) @ TrimSpace dn @ [LF])"
    and n: "LF \<notin> set (TrimSpace dn)"
    by (auto elim: SaveDomain_ok)
  have "(lines_text ls @ l) @ TrimSpace dn @ [LF] = lines_text (ls @ [l @ TrimSpace dn])"
    by (simp add: lines_text_def)
  then show ?thesis
    using d' n assms(3,4) raw_lines_text [of "ls @ [l @ TrimSpace dn]" "[]"] by auto
qed

lemma ValidateDomain_hd:
  assumes "ValidateDomain d = None"
  shows "d \<noteq> [] \<and> (is_alnum (hd d) \<or> hd d = CHR ''*'')"
proof (rule ValidateDomain_body [OF assms])
  fix ls assume ls: "ls \<noteq> []" "list_all ldh_label ls" "domain_body d = Join ls ''.''"
  define b where "b = domain_body d"
  have "b \<noteq> []" "is_alnum (hd b)"
    using ls Join_not_Nil hd_Join_ldh by (simp_all add: b_def)
  moreover have "d = b \<or> d = b @ ''.'' \<or> d = ''*.'' @ b \<or> d = ''*.'' @ b @ ''.''"
    unfolding b_def using domain_body_cases [of d] by blast
  ultimately show ?thesis by auto
qed

lemma valid_not_skipped: "ValidateDomain d = None \<Longrightarrow> \<not> is_skipped d"
  using ValidateDomain_hd [of d] by (cases d) (auto simp: is_skipped_def is_alnum_def go_eval)

lemma SaveDomain_appends:
  assumes "SaveDomain io d dn = (d', None)" and "dest d = Regular (lines_text ls)"
    and "\<forall>k\<in>set ls. LF \<notin> set k" and "parseAllowlistFile E (dest d) = Inr es"
    and "ValidateDomain (canonicalAllowlistEntry E (TrimSpace dn)) = None"
  shows "parseAllowlistFile E (dest d') = Inr (es @ [canonicalAllowlistEntry E (TrimSpace dn)])"
proof -
  from assms(1) have v: "ValidateDomain (TrimSpace dn) = None" by (rule SaveDomain_ok)
  have old: "raw_lines (lines_text ls) = ls" using raw_lines_text [OF assms(3), of "[]"] by simp
  then have short: "\<forall>l\<in>set ls. length l < max_token" and es: "es = parse_lines E ls"
    using assms(2,4) by (auto simp: parse_Regular split: if_splits)
  obtain c' where c': "dest d' = Regular c'" "raw_lines c' = ls @ [TrimSpace dn]"
    using Save_text [OF assms(1) _ assms(3), of "[]"] assms(2) by auto
  have "length (TrimSpace dn) < max_token"
    using ValidateDomain_length [OF v] by (simp add: max_token_def)
  then show ?thesis
    using c' short es assms(5) valid_not_skipped [OF v] by (simp add: parse_Regular parse_lines_append)
qed

text \<open>
  When the allowlist file is empty or ends with a newline, a domain that
  \<open>SaveDomain\<close> appended is found by the next reload, after all the entries that were there.
\<close>

theorem SaveDomain_reload:
  assumes "SaveDomain io d dn = (d', None)" and "dest d = Regular (lines_text ls)"
    and "\<forall>k\<in>set ls. LF \<notin> set k" and "parseAllowlistFile E (dest d) = Inr es"
    and "ValidateDomain (canonicalAllowlistEntry E (TrimSpace dn)) = None"
  shows "parseAllowlistFile E (dest d') = Inr (es @ [canonicalAllowlistEntry E (TrimSpace dn)])"
  using assms by (rule SaveDomain_appends)

theorem SaveDomain_reload_witness:
  "parseAllowlistFile ref_ext (dest (fst (SaveDomain WriteOK (l_dir demo_loader) ''pypi.org'')))
     = Inr [''github.com'', ''pypi.org'']"
proof -
  let ?d = "l_dir demo_loader"
  have s: "SaveDomain WriteOK ?d ''pypi.org'' = (fst (SaveDomain WriteOK ?d ''pypi.org''), None)"
    by (simp add: SaveDomain_def demo_loader_def loader_eval)
  have d: "dest ?d = Regular (lines_text [''# dev'', ''*.GitHub.com'', ''bad_''])"
    by (simp add: demo_loader_def)
  have l: "\<forall>k\<in>set [''# dev'', ''*.GitHub.com'', ''bad_'']. LF \<notin> set k"
    by (simp add: go_eval)
  have c: "canonicalAllowlistEntry ref_ext (TrimSpace ''pypi.org'') = ''pypi.org''"
    by (simp add: loader_eval)
  have v: "ValidateDomain (canonicalAllowlistEntry ref_ext (TrimSpace ''pypi.org'')) = None"
    unfolding c by (simp add: loader_eval)
  from SaveDomain_reload [OF s d l demo_file v] show ?thesis unfolding c by simp
qed

text \<open>
  \<open>SaveDomain\<close> does not look at the end of the file: when the last line has no
  newline, the appended domain is glued to it. The next reload reads the concatenation of the
  two as one line, so the old last entry is gone and the new domain is not there either.
\<close>

theorem SaveDomain_glues_last_line:
  assumes "SaveDomain io d dn = (d', None)" and "dest d = Regular (lines_text ls @ l)"
    and "\<forall>k\<in>set ls. LF \<notin> set k" and "LF \<notin> set l" and "l \<noteq> []"
  shows "\<exists>c c'. dest d = Regular c \<and> raw_lines c = ls @ [l]
     \<and> dest d' = Regular c' \<and> raw_lines c' = ls @ [l @ TrimSpace dn]"
  using Save_text [OF assms(1-4)] raw_lines_snoc [OF assms(3-5)] assms(2) by auto

theorem SaveDomain_glues_last_line_witness:
  "\<exists>d'. SaveDomain WriteOK \<lparr>dest = Regular ''a.com'', tmps = Map.empty\<rparr> ''b.com'' = (d', None)
     \<and> parseAllowlistFile ref_ext (Regular ''a.com'') = Inr [''a.com'']
     \<and> parseAllowlistFile ref_ext (dest d') = Inr [''a.comb.com'']"
proof -
  let ?d = "\<lparr>dest = Regular ''a.com'', tmps = Map.empty\<rparr>"
  have d: "dest ?d = Regular (lines_text [] @ ''a.com'')" by (simp add: lines_text_def)
  have s: "SaveDomain WriteOK ?d ''b.com'' = (fst (SaveDomain WriteOK ?d ''b.com''), None)"
    by (simp add: SaveDomain_def loader_eval)
  have "\<exists>c c'. dest ?d = Regular c \<and> raw_lines c = [] @ [''a.com'']
     \<and> dest (fst (SaveDomain WriteOK ?d ''b.com'')) = Regular c' \<and> raw_lines c' = [] @ [''a.com'' @ TrimSpace ''b.com'']"
    by (rule SaveDomain_glues_last_line [OF s d]) (simp_all add: go_eval)
  moreover have "TrimSpace ''b.com'' = ''b.com''" by (simp add: go_eval)
  ultimately obtain c' where "raw_lines ''a.com'' = [''a.com'']"
      "dest (fst (SaveDomain WriteOK ?d ''b.com'')) = Regular c'" "raw_lines c' = [''a.comb.com'']"
    by auto
  then show ?thesis using s by (intro exI [of _ "fst (SaveDomain WriteOK ?d ''b.com'')"])
      (simp add: parse_Regular loader_eval)
qed

end
