(* ===== verification/Allowlist_Profile.thy ===== *)
theory Allowlist_Profile
  imports Allowlist_Loader "HOL-Library.Char_ord" "HOL-Library.List_Lexorder"
begin

text \<open>
  \<^verbatim>\<open>internal/allowlist/profile.go\<close> and \<^verbatim>\<open>mode.go\<close>: the log of the domains seen in passive mode,
  and the mode switch the two servers embed.

  The map from domains to the time they were first seen is an association list with distinct
  keys. The clock is an argument of the operations, and \<open>clock_fmt\<close> holds the conversions
  between a time and its RFC 3339 text. \<open>sort.Strings\<close> orders by bytes, which is the
  lexicographic order of \<open>HOL-Library.List_Lexorder\<close> over \<open>HOL-Library.Char_ord\<close>.
\<close>

section \<open>The profile logger\<close>

record 'time clock_fmt =
  fmt_RFC3339 :: "'time \<Rightarrow> string"
  parse_RFC3339 :: "string \<Rightarrow> 'time option"

record 'time ProfileLogger =
  p_domains :: "(string \<times> 'time) list"
  p_open :: bool
  p_node :: fnode

definition containsControlChars :: "string \<Rightarrow> bool" where
  "containsControlChars s = has_control s"

text \<open>One line of the log, in the format "timestamp source domain".\<close>

definition profile_entry :: "'time clock_fmt \<Rightarrow> string \<Rightarrow> (string \<times> 'time) option" where
  "profile_entry T raw =
     (let line = TrimSpace raw in
      if is_skipped line then None
      else case Fields line of
        [t, src, domain] \<Rightarrow>
          (case parse_RFC3339 T t of
             None \<Rightarrow> None
           | Some ts \<Rightarrow> if containsControlChars domain then None else Some (domain, ts))
      | _ \<Rightarrow> None)"

fun load_loop :: "'time clock_fmt \<Rightarrow> (string \<times> 'time) list \<Rightarrow> string list \<Rightarrow> (string \<times> 'time) list" where
  "load_loop T m [] = m"
| "load_loop T m (raw # rest) =
     (case profile_entry T raw of
        None \<Rightarrow> load_loop T m rest
      | Some (domain, ts) \<Rightarrow>
          load_loop T (case map_of m domain of None \<Rightarrow> m @ [(domain, ts)] | Some _ \<Rightarrow> m) rest)"

definition loadFromFile ::
  "'time clock_fmt \<Rightarrow> (string \<times> 'time) list \<Rightarrow> fnode \<Rightarrow> (string \<times> 'time) list \<times> load_error option" where
  "loadFromFile T m node =
     (case OpenFileNoFollow node of
        Inl e \<Rightarrow> (m, Some e)
      | Inr c \<Rightarrow> (case scan_lines c of (lines, tooLong) \<Rightarrow>
          (load_loop T m lines, if tooLong then Some ErrTooLong else None)))"

text \<open>With \<open>O_CREATE\<close> a missing file is created empty.\<close>

fun open_create :: "fnode \<Rightarrow> load_error + fnode" where
  "open_create Missing = Inr (Regular [])"
| "open_create Symlink = Inl ErrSymlink"
| "open_create (Regular c) = Inr (Regular c)"

definition NewProfileLogger :: "'time clock_fmt \<Rightarrow> fnode \<Rightarrow> load_error + 'time ProfileLogger" where
  "NewProfileLogger T node =
     (case loadFromFile T [] node of (m, err) \<Rightarrow>
        if err \<noteq> None \<and> err \<noteq> Some ErrNotExist then Inl (the err)
        else (case open_create node of
                Inl e \<Rightarrow> Inl e
              | Inr node' \<Rightarrow> Inr \<lparr>p_domains = m, p_open = True, p_node = node'\<rparr>))"

fun append_node :: "fnode \<Rightarrow> string \<Rightarrow> fnode" where
  "append_node (Regular c) s = Regular (c @ s)"
| "append_node n s = n"

text \<open>The checks \<open>LogDomain\<close> makes before it looks at the map.\<close>

definition loggable :: "string \<Rightarrow> bool" where
  "loggable domain \<longleftrightarrow> domain \<noteq> [] \<and> \<not> containsControlChars domain \<and> \<not> ContainsAny domain [CR, LF]"

definition safe_source :: "string \<Rightarrow> string" where
  "safe_source src =
     (if containsControlChars src \<or> ContainsAny src ('' '' @ [char_of (9::nat), CR, LF]) then ''UNKNOWN'' else src)"

text \<open>\<open>io\<close> gives the number of bytes written when the append fails.\<close>

definition Profile_LogDomain ::
  "dom_ext \<Rightarrow> 'time clock_fmt \<Rightarrow> 'time \<Rightarrow> nat option \<Rightarrow> 'time ProfileLogger \<Rightarrow> string \<Rightarrow> string \<Rightarrow> 'time ProfileLogger" where
  "Profile_LogDomain E T now io p src dn =
     (let domain = ToLower (unicode_ToLower E) (TrimSuffix dn ''.'') in
      if \<not> loggable domain then p
      else case map_of (p_domains p) domain of
        Some _ \<Rightarrow> p
      | None \<Rightarrow>
          (let p' = p\<lparr>p_domains := p_domains p @ [(domain, now)]\<rparr> in
           if p_open p then
             (let line = fmt_RFC3339 T now @ '' '' @ safe_source src @ '' '' @ domain @ [LF] in
              p'\<lparr>p_node := append_node (p_node p) (case io of None \<Rightarrow> line | Some n \<Rightarrow> take n line)\<rparr>)
           else p'))"

definition GetDomains :: "'time ProfileLogger \<Rightarrow> string list" where
  "GetDomains p = sort (map fst (p_domains p))"

definition Profile_Count :: "'time ProfileLogger \<Rightarrow> nat" where
  "Profile_Count p = length (p_domains p)"

text \<open>\<open>Clear\<close> reopens with \<open>O_TRUNC\<close>; when that fails the logger has no file any more.\<close>

definition Profile_Clear :: "'time ProfileLogger \<Rightarrow> 'time ProfileLogger \<times> load_error option" where
  "Profile_Clear p =
     (case open_create (p_node p) of
        Inl e \<Rightarrow> (p\<lparr>p_domains := [], p_open := False\<rparr>, Some e)
      | Inr _ \<Rightarrow> (p\<lparr>p_domains := [], p_open := True, p_node := Regular []\<rparr>, None))"

definition ExportAsAllowlist :: "'time clock_fmt \<Rightarrow> 'time \<Rightarrow> 'time ProfileLogger \<Rightarrow> string" where
  "ExportAsAllowlist T now p =
     (let domains = GetDomains p in
      if domains = [] then ''# No domains captured'' @ [LF]
      else ''# Captured domains from profile mode'' @ [LF]
        @ ''# Generated: '' @ fmt_RFC3339 T now @ [LF, LF]
        @ concat (map (\<lambda>d. d @ [LF]) domains))"

section \<open>The mode controller\<close>

record 'time ModeController =
  mc_active :: bool
  mc_profile :: "'time ProfileLogger option"
  mc_port :: int

definition ModeActive :: string where "ModeActive = ''active''"
definition ModePassive :: string where "ModePassive = ''passive''"

definition InitProfileLogger ::
  "'time clock_fmt \<Rightarrow> fnode \<Rightarrow> 'time ModeController \<Rightarrow> 'time ModeController \<times> load_error option" where
  "InitProfileLogger T node m =
     (case mc_profile m of
        Some _ \<Rightarrow> (m, None)
      | None \<Rightarrow> (case NewProfileLogger T node of
                   Inl e \<Rightarrow> (m, Some e)
                 | Inr p \<Rightarrow> (m\<lparr>mc_profile := Some p\<rparr>, None)))"

definition SetActive :: "bool \<Rightarrow> 'time ModeController \<Rightarrow> 'time ModeController" where
  "SetActive a m = m\<lparr>mc_active := a\<rparr>"

definition GetMode :: "'time ModeController \<Rightarrow> string" where
  "GetMode m = (if mc_active m then ModeActive else ModePassive)"

definition SetListenPort :: "int \<Rightarrow> 'time ModeController \<Rightarrow> 'time ModeController" where
  "SetListenPort port m = m\<lparr>mc_port := port\<rparr>"

definition Mode_LogDomain ::
  "dom_ext \<Rightarrow> 'time clock_fmt \<Rightarrow> 'time \<Rightarrow> nat option \<Rightarrow> 'time ModeController \<Rightarrow> string \<Rightarrow> string \<Rightarrow> 'time ModeController" where
  "Mode_LogDomain E T now io m src dn =
     (if mc_active m then m
      else case mc_profile m of
        None \<Rightarrow> m
      | Some p \<Rightarrow> m\<lparr>mc_profile := Some (Profile_LogDomain E T now io p src dn)\<rparr>)"

section \<open>Invariants\<close>

definition profile_inv :: "'time ProfileLogger \<Rightarrow> bool" where
  "profile_inv p \<longleftrightarrow> distinct (map fst (p_domains p))"

lemma load_loop_distinct: "distinct (map fst m) \<Longrightarrow> distinct (map fst (load_loop T m ls))"
  by (induction T m ls rule: load_loop.induct) (auto split: option.splits simp: map_of_eq_None_iff)

lemma inv_NewProfileLogger: "NewProfileLogger T n = Inr p \<Longrightarrow> profile_inv p"
  by (auto simp: NewProfileLogger_def loadFromFile_def profile_inv_def load_loop_distinct
      split: prod.splits sum.splits if_splits)

lemma inv_LogDomain: "profile_inv p \<Longrightarrow> profile_inv (Profile_LogDomain E T now io p src dn)"
  by (auto simp: profile_inv_def Profile_LogDomain_def Let_def map_of_eq_None_iff split: option.splits)

lemma inv_Clear_profile: "profile_inv (fst (Profile_Clear p))"
  by (auto simp: profile_inv_def Profile_Clear_def split: sum.splits)

lemma load_loop_append: "load_loop T m (as @ bs) = load_loop T (load_loop T m as) bs"
  by (induction T m as rule: load_loop.induct) (auto split: option.splits)

lemma load_loop_keys: "d \<in> fst ` set m \<Longrightarrow> d \<in> fst ` set (load_loop T m ls)"
  by (induction T m ls rule: load_loop.induct) (auto split: option.splits)

section \<open>Properties\<close>

lemma loggable_no_LF: "loggable d \<Longrightarrow> LF \<notin> set d \<and> CR \<notin> set d"
  by (auto simp: loggable_def ContainsAny_def list_ex_iff)

lemma safe_source_no_LF: "LF \<notin> set (safe_source s)"
proof -
  have "LF \<notin> set ''UNKNOWN''" by (simp add: char_of_eq_iff)
  moreover have "\<not> ContainsAny s ('' '' @ [char_of (9::nat), CR, LF]) \<Longrightarrow> LF \<notin> set s"
    by (auto simp: ContainsAny_def list_ex_iff)
  ultimately show ?thesis unfolding safe_source_def by presburger
qed

text \<open>
  A logged domain can not forge another record: whatever name arrives from the
  guest and whatever the source is called, a call appends at most one line to the profile
  file, with no newline but the one that ends it.
\<close>

theorem LogDomain_one_line:
  assumes "\<And>t. LF \<notin> set (fmt_RFC3339 T t)" and "p_node p = Regular c"
  shows "\<exists>line. LF \<notin> set line \<and> p_node (Profile_LogDomain E T now None p src dn) \<in> {Regular c, Regular (c @ line @ [LF])}"
proof -
  let ?d = "ToLower (unicode_ToLower E) (TrimSuffix dn ''.'')"
  let ?line = "fmt_RFC3339 T now @ '' '' @ safe_source src @ '' '' @ ?d"
  have "loggable ?d \<Longrightarrow> LF \<notin> set ?line"
    using assms(1) loggable_no_LF [of ?d] safe_source_no_LF [of src] by (simp add: go_eval)
  moreover have "p_node (Profile_LogDomain E T now None p src dn) = Regular c \<or>
      loggable ?d \<and> p_node (Profile_LogDomain E T now None p src dn) = Regular (c @ ?line @ [LF])"
    using assms(2) by (auto simp: Profile_LogDomain_def Let_def split: option.splits)
  ultimately show ?thesis by (metis insertCI list.set(1) empty_iff)
qed

definition ref_clock :: "nat clock_fmt" where
  "ref_clock = \<lparr>fmt_RFC3339 = Itoa, parse_RFC3339 = parse_digits\<rparr>"

definition demo_profile :: "nat ProfileLogger" where
  "demo_profile = \<lparr>p_domains = [], p_open = True, p_node = Regular []\<rparr>"

lemma Itoa_graphic: "list_all is_graphic (Itoa n)"
  using Itoa_digits [of n] by (auto simp: list_all_iff is_digit_def is_graphic_def)

theorem LogDomain_one_line_witness:
  "\<exists>line. LF \<notin> set line \<and> p_node (Profile_LogDomain ref_ext ref_clock 7 None demo_profile ''DNS'' (''a.com'' @ [LF] @ ''x''))
     \<in> {Regular [], Regular ([] @ line @ [LF])}"
  by (rule LogDomain_one_line) (simp_all add: ref_clock_def demo_profile_def Itoa_no_LF)

text \<open>
  A domain logged in passive mode survives a restart: a logger opened on the
  file that \<open>LogDomain\<close> wrote knows the domain, provided the name holds visible ASCII
  characters only (a name with an escaped blank makes a line of four fields, which the loader
  skips).
\<close>

lemma profile_entry_line:
  assumes t: "parse_RFC3339 T (fmt_RFC3339 T now) = Some ts" "list_all is_graphic (fmt_RFC3339 T now)"
      "fmt_RFC3339 T now \<noteq> []" "hd (fmt_RFC3339 T now) \<noteq> CHR ''#''"
    and s: "list_all is_graphic src" "src \<noteq> []"
    and d: "list_all is_graphic domain" "domain \<noteq> []"
  shows "profile_entry T (fmt_RFC3339 T now @ '' '' @ src @ '' '' @ domain) =
     (if containsControlChars domain then None else Some (domain, ts))"
proof -
  let ?t = "fmt_RFC3339 T now" and ?line = "fmt_RFC3339 T now @ '' '' @ src @ '' '' @ domain"
  have g: "is_graphic (hd ?t)" "is_graphic (last domain)"
    using t(2,3) d by (auto simp: list_all_iff)
  then have "TrimSpace ?line = ?line" using t(3) d(2) by (intro TrimSpace_graphic) simp
  moreover have "Fields ?line = [?t, src, domain]"
    using t s d by (simp add: Fields_Cons Fields_single)
  moreover have "\<not> is_skipped ?line"
    using t(3,4) by (cases ?t) (auto simp: is_skipped_def)
  ultimately show ?thesis using t(1) by (simp add: profile_entry_def Let_def)
qed

theorem LogDomain_survives_restart:
  assumes "p_node p = Regular (lines_text ls)" "\<forall>k\<in>set ls. LF \<notin> set k \<and> length k < max_token"
    and "p_open p" "map_of (p_domains p) domain = None"
    and "domain = ToLower (unicode_ToLower E) (TrimSuffix dn ''.'')" "loggable domain" "list_all is_graphic domain"
    and "src \<in> {''DNS'', ''HTTP''}"
    and "parse_RFC3339 T (fmt_RFC3339 T now) = Some ts" "list_all is_graphic (fmt_RFC3339 T now)"
      "fmt_RFC3339 T now \<noteq> []" "hd (fmt_RFC3339 T now) \<noteq> CHR ''#''"
    and "length (fmt_RFC3339 T now) + length domain < 65000"
  shows "\<exists>q. NewProfileLogger T (p_node (Profile_LogDomain E T now None p src dn)) = Inr q
     \<and> domain \<in> fst ` set (p_domains q)"
proof -
  let ?t = "fmt_RFC3339 T now" and ?line = "fmt_RFC3339 T now @ '' '' @ src @ '' '' @ domain"
  have src: "safe_source src = src" "list_all is_graphic src" "src \<noteq> []" "length src \<le> 4"
    using assms(8) by (auto simp: safe_source_def containsControlChars_def go_eval)
  have LFs: "LF \<notin> set ?t"
    using assms(10) by (auto simp: list_all_iff is_graphic_def)
  have node: "p_node (Profile_LogDomain E T now None p src dn) = Regular (lines_text (ls @ [?line]))"
    using assms(1,3,4,5,6) src(1) by (simp add: Profile_LogDomain_def Let_def lines_text_def)
  have short: "\<forall>k\<in>set (ls @ [?line]). LF \<notin> set k \<and> length k < max_token"
    using assms(2,13) src(4) LFs loggable_no_LF [OF assms(6)] safe_source_no_LF [of src] src(1)
    by (auto simp: max_token_def go_eval)
  have nc: "\<not> containsControlChars domain" using assms(6) by (simp add: loggable_def)
  have "domain \<noteq> []" using assms(6) by (simp add: loggable_def)
  then have "last ?line \<in> set domain" by simp
  then have "last ?line \<noteq> CR" using loggable_no_LF [OF assms(6)] by metis
  then have cr: "drop_cr ?line = ?line" by (simp add: drop_cr_def HasSuffix_single)
  have "domain \<in> fst ` set (load_loop T [] (map drop_cr (ls @ [?line])))"
    using profile_entry_line [OF assms(9-12) src(2,3) assms(7)] assms(6) nc cr
    by (auto simp: load_loop_append loggable_def split: option.splits) (metis fst_conv image_eqI map_of_SomeD)
  then show ?thesis
    using scan_lines_text [OF short]
    by (simp add: node NewProfileLogger_def loadFromFile_def)
qed

lemma Itoa_7: "Itoa 7 = ''7''" "parse_digits ''7'' = Some 7"
proof -
  show *: "Itoa 7 = ''7''" by (simp add: Itoa.simps char_of_eq_iff)
  show "parse_digits ''7'' = Some 7" using parse_digits_Itoa [of 7] by (simp only: *)
qed

theorem LogDomain_survives_restart_witness:
  "\<exists>q. NewProfileLogger ref_clock (p_node (Profile_LogDomain ref_ext ref_clock 7 None demo_profile ''DNS'' ''A.com.'')) = Inr q
     \<and> ''a.com'' \<in> fst ` set (p_domains q)"
  by (rule LogDomain_survives_restart [of _ "[]" _ _ _ _ _ _ 7])
    (simp_all add: ref_clock_def demo_profile_def ref_ext_def lines_text_def loggable_def containsControlChars_def
      ContainsAny_def go_eval is_graphic_def Itoa_7)

end
