(* ===== verification/Allowlist_API.thy ===== *)
theory Allowlist_API
  imports Allowlist_Profile "HOL-Library.Word"
begin

text \<open>
  \<^verbatim>\<open>internal/allowlist/api.go\<close> and \<^verbatim>\<open>diff.go\<close>: the RPC handler the DNS and the HTTP daemon
  embed, and the comparison of declared domain sets.

  The handler's filter is the filter its loader fills (the daemons pass the same pointer to
  both), so the state is the loader with a flag that says whether the handler has it; without
  a loader only the filter inside is used. The mutex \<open>writeMu\<close> serializes the calls that
  write, so each call is one step. A gRPC status is its code; the text of its message is not
  modelled.
\<close>

section \<open>The handler\<close>

datatype rpc_code = InvalidArgument | NotFound | Internal | FailedPrecondition

record ('t, 'time) AllowlistAPIHandler =
  h_store :: "'t Loader"
  h_has_loader :: bool
  h_server :: "'time ModeController"
  h_audit :: "(string \<times> string) list"

abbreviation h_filter :: "('t, 'time, 'z) AllowlistAPIHandler_scheme \<Rightarrow> 't Filter" where
  "h_filter h \<equiv> l_filter (h_store h)"

abbreviation h_dir :: "('t, 'time, 'z) AllowlistAPIHandler_scheme \<Rightarrow> adir" where
  "h_dir h \<equiv> l_dir (h_store h)"

definition audit :: "string \<Rightarrow> string \<Rightarrow> ('t, 'time) AllowlistAPIHandler \<Rightarrow> ('t, 'time) AllowlistAPIHandler" where
  "audit action detail h = h\<lparr>h_audit := h_audit h @ [(action, detail)]\<rparr>"

definition set_filter :: "'t Filter \<Rightarrow> ('t, 'time) AllowlistAPIHandler \<Rightarrow> ('t, 'time) AllowlistAPIHandler" where
  "set_filter f h = h\<lparr>h_store := (h_store h)\<lparr>l_filter := f\<rparr>\<rparr>"

definition set_dir :: "adir \<Rightarrow> ('t, 'time) AllowlistAPIHandler \<Rightarrow> ('t, 'time) AllowlistAPIHandler" where
  "set_dir d h = h\<lparr>h_store := (h_store h)\<lparr>l_dir := d\<rparr>\<rparr>"

lemma store_simps [simp]:
  "h_filter (set_filter f h) = f" "h_dir (set_filter f h) = h_dir h"
  "h_filter (set_dir d h) = h_filter h" "h_dir (set_dir d h) = d"
  "h_filter (audit a s h) = h_filter h" "h_dir (audit a s h) = h_dir h"
  "h_audit (set_filter f h) = h_audit h" "h_audit (set_dir d h) = h_audit h"
  "h_audit (audit a s h) = h_audit h @ [(a, s)]"
  "h_server (set_filter f h) = h_server h" "h_server (set_dir d h) = h_server h" "h_server (audit a s h) = h_server h"
  "h_has_loader (set_filter f h) = h_has_loader h" "h_has_loader (set_dir d h) = h_has_loader h"
  "h_has_loader (audit a s h) = h_has_loader h"
  by (simp_all add: set_filter_def set_dir_def audit_def)

definition API_Add ::
  "dom_ext \<Rightarrow> 't radix_ops \<Rightarrow> write_io \<Rightarrow> ('t, 'time) AllowlistAPIHandler \<Rightarrow> string \<Rightarrow>
   ('t, 'time) AllowlistAPIHandler \<times> (rpc_code + string)" where
  "API_Add E R io h dn =
     (let domain = NormalizeDomain E dn in
      if ValidateDomain (TrimSuffix domain ''.'') \<noteq> None then (h, Inl InvalidArgument)
      else case Filter_Add E R (h_filter h) domain of
        (f, False) \<Rightarrow> (set_filter f h, Inr (domain @ '' is already in the allowlist''))
      | (f, True) \<Rightarrow>
          (let h1 = set_filter f h;
               (d, err) = (if h_has_loader h then SaveDomain io (h_dir h) (TrimSuffix domain ''.'')
                           else (h_dir h, None));
               h2 = set_dir d h1
           in if err \<noteq> None then (h2, Inl Internal)
              else (audit ''allowlist.add'' domain h2, Inr (''added '' @ domain))))"

definition API_Remove ::
  "dom_ext \<Rightarrow> 't radix_ops \<Rightarrow> rewrite_io \<Rightarrow> ('t, 'time) AllowlistAPIHandler \<Rightarrow> string \<Rightarrow>
   ('t, 'time) AllowlistAPIHandler \<times> (rpc_code + string)" where
  "API_Remove E R rw h dn =
     (let domain = NormalizeDomain E dn in
      if ValidateDomain (TrimSuffix domain ''.'') \<noteq> None then (h, Inl InvalidArgument)
      else case Filter_Remove E R (h_filter h) domain of
        (f, False) \<Rightarrow> (set_filter f h, Inl NotFound)
      | (f, True) \<Rightarrow>
          (let h1 = set_filter f h;
               (d, res) = (if h_has_loader h then RemoveDomain E rw (h_dir h) (TrimSuffix domain ''.'')
                           else (h_dir h, Inr False));
               h2 = set_dir d h1
           in case res of
                Inl e \<Rightarrow> (h2, Inl Internal)
              | Inr _ \<Rightarrow> (audit ''allowlist.remove'' domain h2, Inr (''removed '' @ domain))))"

definition API_List :: "'t radix_ops \<Rightarrow> ('t, 'time) AllowlistAPIHandler \<Rightarrow> string list" where
  "API_List R h = Filter_List R (h_filter h)"

definition API_Reload ::
  "dom_ext \<Rightarrow> 't radix_ops \<Rightarrow> ('t, 'time) AllowlistAPIHandler \<Rightarrow>
   ('t, 'time) AllowlistAPIHandler \<times> (rpc_code + string)" where
  "API_Reload E R h =
     (if \<not> h_has_loader h then (h, Inl FailedPrecondition)
      else case Loader_Load E R (h_store h) of
        (l, Some e) \<Rightarrow> (h\<lparr>h_store := l\<rparr>, Inl Internal)
      | (l, None) \<Rightarrow>
          (let count = Itoa (Filter_Count R (l_filter l)) in
           (audit ''allowlist.reload'' count (h\<lparr>h_store := l\<rparr>), Inr (''reloaded '' @ count @ '' domains from file''))))"

definition API_SetMode ::
  "dom_ext \<Rightarrow> ('t, 'time) AllowlistAPIHandler \<Rightarrow> string \<Rightarrow> ('t, 'time) AllowlistAPIHandler \<times> (rpc_code + string)" where
  "API_SetMode E h m =
     (if m = [] then (h, Inr (''mode: '' @ GetMode (h_server h)))
      else
        (let mode = ToLower (unicode_ToLower E) m in
         if mode = ModeActive then
           (audit ''security.mode.active'' [] (h\<lparr>h_server := SetActive True (h_server h)\<rparr>), Inr (''mode: '' @ ModeActive))
         else if mode = ModePassive then
           (audit ''security.mode.passive'' [] (h\<lparr>h_server := SetActive False (h_server h)\<rparr>), Inr (''mode: '' @ ModePassive))
         else (h, Inl InvalidArgument)))"

record ProfileResp =
  pr_message :: string
  pr_domains :: "string list"
  pr_count :: "32 word"

definition API_Profile ::
  "dom_ext \<Rightarrow> 'time clock_fmt \<Rightarrow> 'time \<Rightarrow> ('t, 'time) AllowlistAPIHandler \<Rightarrow> string \<Rightarrow>
   ('t, 'time) AllowlistAPIHandler \<times> (rpc_code + ProfileResp)" where
  "API_Profile E T now h sub =
     (let subcmd = ToLower (unicode_ToLower E) sub;
          logger = mc_profile (h_server h);
          resp = \<lparr>pr_message = [], pr_domains = [], pr_count = 0\<rparr>
      in if subcmd = ''show'' \<or> subcmd = ''list'' then
           (h, Inr (case logger of
               None \<Rightarrow> resp\<lparr>pr_message := ''no domains captured (profile logger not initialized)''\<rparr>
             | Some p \<Rightarrow> resp\<lparr>pr_domains := GetDomains p\<rparr>))
         else if subcmd = ''export'' then
           (h, Inr (case logger of
               None \<Rightarrow> resp\<lparr>pr_message := ''# No domains captured'' @ [LF]\<rparr>
             | Some p \<Rightarrow> resp\<lparr>pr_message := ExportAsAllowlist T now p\<rparr>))
         else if subcmd = ''clear'' then
           (case logger of
               None \<Rightarrow> (h, Inr (resp\<lparr>pr_message := ''no domains to clear''\<rparr>))
             | Some p \<Rightarrow>
                 (case Profile_Clear p of (p', err) \<Rightarrow>
                    let h' = h\<lparr>h_server := (h_server h)\<lparr>mc_profile := Some p'\<rparr>\<rparr> in
                    if err \<noteq> None then (h', Inl Internal)
                    else (audit ''profile.clear'' [] h', Inr (resp\<lparr>pr_message := ''profile log cleared''\<rparr>))))
         else if subcmd = ''count'' then
           (h, Inr (case logger of None \<Rightarrow> resp | Some p \<Rightarrow> resp\<lparr>pr_count := word_of_nat (Profile_Count p)\<rparr>))
         else (h, Inl InvalidArgument))"

text \<open>One request to the service: the new state and the status code of an error.\<close>

datatype api_call =
    CallAdd write_io string | CallRemove rewrite_io string | CallReload
  | CallSetMode string | CallProfile string

abbreviation status_of :: "('h \<times> (rpc_code + 'r)) \<Rightarrow> 'h \<times> rpc_code option" where
  "status_of x \<equiv> (fst x, case snd x of Inl e \<Rightarrow> Some e | Inr _ \<Rightarrow> None)"

fun api_step ::
  "dom_ext \<Rightarrow> 't radix_ops \<Rightarrow> 'time clock_fmt \<Rightarrow> 'time \<Rightarrow> ('t, 'time) AllowlistAPIHandler \<Rightarrow> api_call \<Rightarrow>
   ('t, 'time) AllowlistAPIHandler \<times> rpc_code option" where
  "api_step E R T now h (CallAdd io dn) = status_of (API_Add E R io h dn)"
| "api_step E R T now h (CallRemove rw dn) = status_of (API_Remove E R rw h dn)"
| "api_step E R T now h CallReload = status_of (API_Reload E R h)"
| "api_step E R T now h (CallSetMode m) = status_of (API_SetMode E h m)"
| "api_step E R T now h (CallProfile s) = status_of (API_Profile E T now h s)"

section \<open>Domain sets\<close>

definition DomainSet :: "dom_ext \<Rightarrow> string list \<Rightarrow> string set" where
  "DomainSet E domains = set (map (canonicalAllowlistEntry E) (List.filter (\<lambda>d. TrimSpace d \<noteq> []) domains))"

definition LoadDomainSet :: "dom_ext \<Rightarrow> fnode \<Rightarrow> load_error + string set" where
  "LoadDomainSet E node =
     (case parseAllowlistFile E node of
        Inl e \<Rightarrow> if e = ErrNotExist then Inr {} else Inl e
      | Inr domains \<Rightarrow> Inr (DomainSet E domains))"

definition DomainSetsEqual :: "string set \<Rightarrow> string set \<Rightarrow> bool" where
  "DomainSetsEqual a b \<longleftrightarrow> card a = card b \<and> (\<forall>k\<in>a. k \<in> b)"

definition RenderDomainSet :: "string set \<Rightarrow> string" where
  "RenderDomainSet s = lines_text (sorted_list_of_set s)"

section \<open>Normal forms\<close>

text \<open>
  What the handler relies on of the Unicode and IDNA libraries: lower-casing and \<open>ToASCII\<close>
  leave no upper-case letter, and \<open>ToASCII\<close> either rejects a lower-case ASCII name or returns
  it unchanged.
\<close>

definition plain_char :: "char \<Rightarrow> bool" where
  "plain_char c \<longleftrightarrow> (label_char c \<or> c = CHR ''.'' \<or> c = CHR ''*'') \<and> \<not> is_upper c"

lemma plain_char_facts: "plain_char c \<Longrightarrow> is_ascii c \<and> is_graphic c \<and> \<not> is_upper c"
  by (auto simp: plain_char_def label_char_def is_alnum_def go_char code_def is_graphic_def)

text \<open>A valid domain without a wildcard and without a trailing dot.\<close>

definition bare :: "string \<Rightarrow> bool" where
  "bare d \<longleftrightarrow> ValidateDomain d = None \<and> domain_body d = d"

lemma bare_labels:
  assumes "bare d"
  obtains ls where "ls \<noteq> []" "list_all ldh_label ls" "d = Join ls ''.''"
  using assms ValidateDomain_body [of d] by (metis bare_def)

lemma bare_no_dot: "bare d \<Longrightarrow> \<not> HasSuffix d ''.''"
  by (metis bare_labels Join_ldh_no_dot_end)

lemma valid_plain:
  assumes "ValidateDomain d = None" "list_all (\<lambda>c. \<not> is_upper c) d"
  shows "list_all plain_char d"
proof (rule ValidateDomain_body [OF assms(1)])
  fix ls assume ls: "list_all ldh_label ls" "domain_body d = Join ls ''.''"
  define b where "b = domain_body d"
  have "\<forall>c\<in>set b. label_char c \<or> c = CHR ''.''" using ls Join_ldh_chars by (auto simp: b_def)
  moreover have "d = b \<or> d = b @ ''.'' \<or> d = ''*.'' @ b \<or> d = ''*.'' @ b @ ''.''"
    unfolding b_def using domain_body_cases [of d] by blast
  ultimately show ?thesis using assms(2) by (auto simp: list_all_iff plain_char_def)
qed

locale idna_names =
  fixes E :: dom_ext
  assumes lower_case: "list_all (\<lambda>c. \<not> is_upper c) (unicode_ToLower E s)"
    and ascii_lower: "idna_ToASCII E s = Some a \<Longrightarrow> list_all (\<lambda>c. \<not> is_upper c) a"
    and ascii_plain: "list_all plain_char s \<Longrightarrow> idna_ToASCII E s = None \<or> idna_ToASCII E s = Some s"
begin

lemma toASCII_no_upper: "list_all (\<lambda>c. \<not> is_upper c) (toASCIIDomain E s)"
proof -
  have "list_all (\<lambda>c. \<not> is_upper c) (ToLower (unicode_ToLower E) s)"
    using lower_case [of s] by (auto simp: ToLower_def list_all_iff)
  then show ?thesis
    using ascii_lower by (auto simp: toASCIIDomain_def Let_def split: option.splits)
qed

lemma toASCII_plain:
  assumes "list_all plain_char s"
  shows "toASCIIDomain E s = s"
proof -
  have "ToLower (unicode_ToLower E) s = s"
    using assms by (intro ToLower_id) (auto simp: list_all_iff dest: plain_char_facts)
  then show ?thesis using ascii_plain [OF assms] by (auto simp: toASCIIDomain_def Let_def)
qed

lemma toASCII_valid: "ValidateDomain (toASCIIDomain E s) = None \<Longrightarrow> list_all plain_char (toASCIIDomain E s)"
  by (simp add: valid_plain toASCII_no_upper)

lemma bare_normal:
  assumes "bare d" "list_all plain_char d"
  shows "NormalizeDomain E (d @ ''.'') = d @ ''.''" "canonicalAllowlistEntry E d = d" "TrimSpace d = d"
proof -
  obtain ls where ls: "ls \<noteq> []" "list_all ldh_label ls" "d = Join ls ''.''"
    using bare_labels [OF assms(1)] .
  have ne: "d \<noteq> []" using ls Join_not_Nil by simp
  have g: "is_graphic (hd d)" "is_graphic (last d)" "is_graphic CHR ''.''"
    using ne assms(2) by (auto simp: list_all_iff is_graphic_def code_def dest!: plain_char_facts)
  show t: "TrimSpace d = d" using g ne by (intro TrimSpace_graphic) simp
  have "TrimSpace (d @ ''.'') = d @ ''.''" using g ne by (intro TrimSpace_graphic) (simp add: hd_append)
  then show "NormalizeDomain E (d @ ''.'') = d @ ''.''"
    using assms(2) by (simp add: NormalizeDomain_def toASCII_plain)
  show "canonicalAllowlistEntry E d = d"
    using Join_ldh_no_star [OF ls(1,2), of "[]"] Join_ldh_no_dot_end [OF ls(1,2)] t assms(2)
    by (simp add: canonicalAllowlistEntry_def ls(3) [symmetric] toASCII_plain TrimPrefix_def)
qed

lemma bare_plain: "bare d \<Longrightarrow> list_all plain_char d \<Longrightarrow> NormalizeDomain E d = d @ ''.''"
  using bare_normal [of d] bare_no_dot [of d] by (simp add: NormalizeDomain_def toASCII_plain)

lemma parse_entries:
  "e \<in> set (parse_lines E ls) \<Longrightarrow> ValidateDomain e = None \<and> list_all plain_char e"
  by (induction ls) (auto simp: Let_def canonicalAllowlistEntry_def toASCII_valid split: if_splits)

lemma file_entries:
  assumes "parseAllowlistFile E n = Inr es" "e \<in> set es"
  shows "ValidateDomain e = None \<and> list_all plain_char e"
  using assms parse_entries by (cases n) (auto simp: parseAllowlistFile_def split: if_splits prod.splits)

end

interpretation ref_idna: idna_names ref_ext
proof
  fix s assume "list_all plain_char s"
  then have "map lower_char s = s"
    by (intro map_idI lower_char_id) (auto simp: list_all_iff dest: plain_char_facts)
  then show "idna_ToASCII ref_ext s = None \<or> idna_ToASCII ref_ext s = Some s" by (simp add: ref_ext_def)
qed (auto simp: ref_ext_def list_all_iff split: if_splits)

section \<open>The filter and the file\<close>

text \<open>
  The filter holds what the file declares: the file ends with a newline (or is empty), can be
  parsed, none of its entries ends with a dot, and the filter's domains are its entries in
  their fully qualified form.
\<close>

definition synced :: "dom_ext \<Rightarrow> 't radix_ops \<Rightarrow> ('t, 'time) AllowlistAPIHandler \<Rightarrow> bool" where
  "synced E R h \<longleftrightarrow>
     (\<exists>ls es. dest (h_dir h) = Regular (lines_text ls) \<and> (\<forall>l\<in>set ls. LF \<notin> set l)
        \<and> parseAllowlistFile E (dest (h_dir h)) = Inr es \<and> (\<forall>e\<in>set es. domain_body e = e)
        \<and> filter_set R (h_filter h) = (\<lambda>e. e @ ''.'') ` set es)"

context allowlist_filter
begin

lemma Remove_absent:
  assumes "Filter_Remove E R f d = (f', False)"
  shows "set (Filter_List R f') = set (Filter_List R f)"
proof -
  let ?k = "ReverseDomain E (NormalizeDomain E d)"
  from assms have "f' = f\<lparr>tree := fst (radix_Delete R (tree f) ?k)\<rparr>" "\<not> snd (radix_Delete R (tree f) ?k)"
    by (auto simp: Filter_Remove_def Let_def split: prod.splits)
  then have "\<alpha> (tree f') k = \<alpha> (tree f) k" for k by (simp add: delete delete_existed)
  then show ?thesis by (auto simp: set_List)
qed

end

lemma RemoveDomain_text:
  assumes "RemoveDomain E rw d dn = (d', Inr b)" and "dest d = Regular (lines_text ls)"
    and "\<forall>l\<in>set ls. LF \<notin> set l"
  shows "\<exists>ks. dest d' = Regular (lines_text ks) \<and> (\<forall>l\<in>set ks. LF \<notin> set l)"
proof -
  let ?t = "canonicalAllowlistEntry E dn"
  from assms(1,2) obtain rs where rs: "scan_lines (lines_text ls) = (rs, False)"
    by (auto simp: RemoveDomain_def split: prod.splits if_splits)
  have "raw_lines (lines_text ls) = ls" using raw_lines_text [OF assms(3), of "[]"] by simp
  then have "rs = map drop_cr ls" using scan_lines_ok(1) [OF rs] by simp
  then have noLF: "\<forall>l\<in>set rs. LF \<notin> set l" using assms(3) set_drop_cr by fastforce
  have kept: "set (fst (remove_loop E ?t rs)) \<subseteq> set rs" by (rule remove_loop_kept(2))
  have "d' = d \<or> dest d' = Regular (lines_text (fst (remove_loop E ?t rs)))"
    using assms(1,2) rs
    by (auto simp: RemoveDomain_def split: prod.splits option.splits if_splits dest: atomicWriteLines_dest)
  then show ?thesis using assms(2,3) noLF kept by auto
qed

lemma SaveDomain_text:
  assumes "SaveDomain io d dn = (d', None)" and "dest d = Regular (lines_text ls)"
    and "\<forall>l\<in>set ls. LF \<notin> set l"
  shows "dest d' = Regular (lines_text (ls @ [TrimSpace dn]))" "\<forall>l\<in>set (ls @ [TrimSpace dn]). LF \<notin> set l"
  using assms by (auto elim!: SaveDomain_ok simp: lines_text_def)

lemma synced_Add:
  assumes F: "allowlist_filter E R \<alpha>" and I: "idna_names E" and r: "filter_reachable E R (h_filter h)"
    and s: "synced E R h" and l: "h_has_loader h"
    and x: "NormalizeDomain E dn = x @ ''.''" "bare x" "list_all plain_char x"
    and ok: "API_Add E R io h dn = (h', Inr msg)"
  shows "synced E R h' \<and> filter_set R (h_filter h') = filter_set R (h_filter h) \<union> {x @ ''.''}"
proof -
  note n = idna_names.bare_normal [OF I x(2,3)]
  from s obtain ls es where st: "dest (h_dir h) = Regular (lines_text ls)" "\<forall>l\<in>set ls. LF \<notin> set l"
    "parseAllowlistFile E (dest (h_dir h)) = Inr es" "\<forall>e\<in>set es. domain_body e = e"
    "filter_set R (h_filter h) = (\<lambda>e. e @ ''.'') ` set es"
    unfolding synced_def by blast
  have e: "entry_ok (NormalizeDomain E (x @ ''.''))" using x(2) by (simp add: n(1) entry_ok_def bare_def)
  obtain f new where f: "Filter_Add E R (h_filter h) (x @ ''.'') = (f, new)" by force
  have fs: "filter_set R f = filter_set R (h_filter h) \<union> {x @ ''.''}"
    and new: "new \<longleftrightarrow> x @ ''.'' \<notin> filter_set R (h_filter h)"
    using allowlist_filter.List_Add [OF F allowlist_filter.reachable_inv [OF F r], of "x @ ''.''"] e f
    by (simp_all add: filter_set_def n(1))
  show ?thesis
  proof (cases new)
    case False
    with ok f x(1,2) have "h' = set_filter f h" by (auto simp: API_Add_def bare_def)
    moreover from False fs new have "filter_set R f = filter_set R (h_filter h)" by blast
    ultimately show ?thesis using s fs by (simp add: synced_def)
  next
    case True
    with ok f x(1,2) l obtain d where d: "SaveDomain io (h_dir h) x = (d, None)"
      and h': "h' = audit ''allowlist.add'' (x @ ''.'') (set_dir d (set_filter f h))"
      by (auto simp: API_Add_def bare_def Let_def split: prod.splits if_splits)
    have v: "ValidateDomain (canonicalAllowlistEntry E (TrimSpace x)) = None"
      using n x(2) by (simp add: bare_def)
    have "parseAllowlistFile E (dest d) = Inr (es @ [x])"
      using SaveDomain_appends [OF d st(1,2,3) v] n by simp
    moreover have "filter_set R f = (\<lambda>e. e @ ''.'') ` set (es @ [x])" using fs st(5) by simp
    moreover have "\<forall>e\<in>set (es @ [x]). domain_body e = e" using st(4) x(2) by (simp add: bare_def)
    moreover have "h_dir h' = d" "h_filter h' = f" using h' by simp_all
    ultimately have "synced E R h'" unfolding synced_def using SaveDomain_text [OF d st(1,2)] by metis
    then show ?thesis using fs h' by simp
  qed
qed

lemma synced_Remove:
  assumes F: "allowlist_filter E R \<alpha>" and I: "idna_names E" and r: "filter_reachable E R (h_filter h)"
    and s: "synced E R h" and l: "h_has_loader h"
    and x: "NormalizeDomain E dn = x @ ''.''" "bare x" "list_all plain_char x"
    and ok: "API_Remove E R rw h dn = (h', Inr msg)"
  shows "synced E R h' \<and> filter_set R (h_filter h') = filter_set R (h_filter h) - {x @ ''.''}"
proof -
  note n = idna_names.bare_normal [OF I x(2,3)]
  from s obtain ls es where st: "dest (h_dir h) = Regular (lines_text ls)" "\<forall>l\<in>set ls. LF \<notin> set l"
    "parseAllowlistFile E (dest (h_dir h)) = Inr es" "\<forall>e\<in>set es. domain_body e = e"
    "filter_set R (h_filter h) = (\<lambda>e. e @ ''.'') ` set es"
    unfolding synced_def by blast
  have e: "entry_ok (NormalizeDomain E (x @ ''.''))" using x(2) by (simp add: n(1) entry_ok_def bare_def)
  obtain f was where f: "Filter_Remove E R (h_filter h) (x @ ''.'') = (f, was)" by force
  have fs: "filter_set R f = filter_set R (h_filter h) - {x @ ''.''}"
    using allowlist_filter.List_Remove [OF F allowlist_filter.reachable_inv [OF F r] e] f
    by (simp add: filter_set_def n(1))
  from ok f x(1,2) l obtain d b where d: "RemoveDomain E rw (h_dir h) x = (d, Inr b)"
    and h': "h' = audit ''allowlist.remove'' (x @ ''.'') (set_dir d (set_filter f h))"
    by (auto simp: API_Remove_def bare_def Let_def split: prod.splits if_splits bool.splits sum.splits)
  have p: "parseAllowlistFile E (dest d) = Inr (List.filter (\<lambda>e. e \<noteq> x) es)"
    using RemoveDomain_result [OF d st(1,3)] n by simp
  obtain ks where "dest d = Regular (lines_text ks)" "\<forall>l\<in>set ks. LF \<notin> set l"
    using RemoveDomain_text [OF d st(1,2)] by blast
  moreover have "filter_set R f = (\<lambda>e. e @ ''.'') ` set (List.filter (\<lambda>e. e \<noteq> x) es)"
    using fs st(5) by auto
  ultimately show ?thesis using p st(4) fs h' by (auto simp: synced_def)
qed

lemma synced_Reload:
  assumes F: "allowlist_filter E R \<alpha>" and I: "idna_names E" and r: "filter_reachable E R (h_filter h)"
    and s: "synced E R h" and l: "h_has_loader h"
  shows "filter_set R (h_filter (fst (API_Reload E R h))) = filter_set R (h_filter h)"
proof -
  from s obtain es where st: "parseAllowlistFile E (dest (h_dir h)) = Inr es" "\<forall>e\<in>set es. domain_body e = e"
    "filter_set R (h_filter h) = (\<lambda>e. e @ ''.'') ` set es"
    unfolding synced_def by blast
  have "bare e \<and> list_all plain_char e" if "e \<in> set es" for e
    using idna_names.file_entries [OF I st(1) that] st(2) that by (simp add: bare_def)
  then have n: "NormalizeDomain E e = e @ ''.'' \<and> entry_ok (e @ ''.'')" if "e \<in> set es" for e
    using idna_names.bare_plain [OF I, of e] that by (simp add: entry_ok_def bare_def)
  have "{m \<in> NormalizeDomain E ` set es. entry_ok m} = (\<lambda>e. e @ ''.'') ` set es"
    using n by force
  then show ?thesis
    using allowlist_filter.List_Replace [OF F] st l
    by (simp add: API_Reload_def Loader_Load_def notify_def filter_set_def Let_def audit_def)
qed

section \<open>Properties\<close>

text \<open>
  C26 (invariant). The memory and the file stay in step: from a state in which the filter holds
  what a newline-terminated file declares, a successful \<open>Add\<close> or \<open>Remove\<close> of a domain without
  wildcard and without a second trailing dot updates both, the filter by exactly that domain,
  so a later reload changes nothing.
\<close>

theorem API_keeps_sync:
  assumes "allowlist_filter E R \<alpha>" and "idna_names E" and "filter_reachable E R (h_filter h)"
    and "synced E R h" and "h_has_loader h" and "bare (toASCIIDomain E (TrimSuffix (TrimSpace dn) ''.''))"
  shows "(\<forall>h' msg. API_Add E R io h dn = (h', Inr msg) \<longrightarrow> synced E R h'
       \<and> filter_set R (h_filter h') = filter_set R (h_filter h) \<union> {NormalizeDomain E dn})
    \<and> (\<forall>h' msg. API_Remove E R rw h dn = (h', Inr msg) \<longrightarrow> synced E R h'
       \<and> filter_set R (h_filter h') = filter_set R (h_filter h) - {NormalizeDomain E dn})
    \<and> filter_set R (h_filter (fst (API_Reload E R h))) = filter_set R (h_filter h)"
proof -
  let ?x = "toASCIIDomain E (TrimSuffix (TrimSpace dn) ''.'')"
  have x: "NormalizeDomain E dn = ?x @ ''.''" by (simp add: NormalizeDomain_def)
  have p: "list_all plain_char ?x"
    using assms(6) idna_names.toASCII_valid [OF assms(2)] by (simp add: bare_def)
  show ?thesis
    using synced_Add [OF assms(1-5) x assms(6) p] synced_Remove [OF assms(1-5) x assms(6) p]
      synced_Reload [OF assms(1-5)] by (simp add: x)
qed

definition demo_handler :: "(alist, nat) AllowlistAPIHandler" where
  "demo_handler = \<lparr>h_store = \<lparr>l_dir = \<lparr>dest = Regular (lines_text [''github.com'']), tmps = Map.empty\<rparr>,
       l_filter = demo_filter, on_reload = False, reload_log = []\<rparr>,
     h_has_loader = True, h_server = \<lparr>mc_active = True, mc_profile = Some demo_profile, mc_port = 53\<rparr>, h_audit = []\<rparr>"

lemma demo_synced: "synced ref_ext ref_radix demo_handler"
proof -
  have "parseAllowlistFile ref_ext (dest (h_dir demo_handler)) = Inr [''github.com'']"
    by (simp add: demo_handler_def loader_eval)
  moreover have "filter_set ref_radix (h_filter demo_handler) = {''github.com.''}"
    by (simp add: demo_handler_def filter_set_def demo_tree filter_eval)
  ultimately show ?thesis unfolding synced_def
    by (intro exI [of _ "[''github.com'']"]) (simp add: demo_handler_def domain_body_def CutPrefix_def go_eval)
qed

theorem API_keeps_sync_witness:
  "synced ref_ext ref_radix (fst (API_Add ref_ext ref_radix WriteOK demo_handler ''PyPI.org''))
   \<and> filter_set ref_radix (h_filter (fst (API_Remove ref_ext ref_radix calm_io demo_handler ''github.com''))) = {}"
proof -
  have r: "filter_reachable ref_ext ref_radix (h_filter demo_handler)" "h_has_loader demo_handler"
    using demo_reachable by (simp_all add: demo_handler_def)
  have b: "toASCIIDomain ref_ext (TrimSuffix (TrimSpace ''PyPI.org'') ''.'') = ''pypi.org''"
    "toASCIIDomain ref_ext (TrimSuffix (TrimSpace ''github.com'') ''.'') = ''github.com''"
    "bare ''pypi.org''" "bare ''github.com''"
    by (simp_all add: filter_eval bare_def domain_body_def CutPrefix_def)
  have a: "API_Add ref_ext ref_radix WriteOK demo_handler ''PyPI.org'' =
      (fst (API_Add ref_ext ref_radix WriteOK demo_handler ''PyPI.org''), Inr ''added pypi.org.'')"
    by (simp add: API_Add_def demo_handler_def demo_tree loader_eval SaveDomain_def Let_def)
  have d: "API_Remove ref_ext ref_radix calm_io demo_handler ''github.com'' =
      (fst (API_Remove ref_ext ref_radix calm_io demo_handler ''github.com''), Inr ''removed github.com.'')"
    by (simp add: API_Remove_def demo_handler_def demo_tree loader_eval RemoveDomain_def atomicWriteLines_def fill_temp_def rename_temp_def remove_temp_def calm_io_def Let_def)
  have n: "NormalizeDomain ref_ext ''github.com'' = ''github.com.''"
    "filter_set ref_radix (h_filter demo_handler) = {''github.com.''}"
    by (simp_all add: demo_handler_def filter_set_def demo_tree filter_eval)
  note K = API_keeps_sync [OF ref_filter.allowlist_filter_axioms ref_idna.idna_names_axioms r(1) demo_synced r(2)]
  have "synced ref_ext ref_radix (fst (API_Add ref_ext ref_radix WriteOK demo_handler ''PyPI.org''))"
    using K [of "''PyPI.org''" WriteOK calm_io] b a by metis
  moreover have "filter_set ref_radix (h_filter (fst (API_Remove ref_ext ref_radix calm_io demo_handler ''github.com''))) =
      {''github.com.''} - {''github.com.''}"
    using K [of "''github.com''" WriteOK calm_io] b d n by metis
  ultimately show ?thesis by simp
qed

definition policy ::
  "'t radix_ops \<Rightarrow> ('t, 'time) AllowlistAPIHandler \<Rightarrow> string set \<times> fnode \<times> bool" where
  "policy R h = (filter_set R (h_filter h), dest (h_dir h), mc_active (h_server h))"

lemma audit_Add:
  "API_Add E R io h dn = (h', r) \<Longrightarrow>
   (\<exists>a. h_audit h' = h_audit h @ [a] \<and> (\<exists>m. r = Inr m)) \<or> h_audit h' = h_audit h \<and> (r = Inl Internal \<or> policy R h' = policy R h)"
  by (auto simp: API_Add_def Filter_Add_def Let_def policy_def
      split: if_splits option.splits prod.splits)

lemma audit_Remove:
  assumes "allowlist_filter E R \<alpha>" "API_Remove E R rw h dn = (h', r)"
  shows "(\<exists>a. h_audit h' = h_audit h @ [a] \<and> (\<exists>m. r = Inr m)) \<or> h_audit h' = h_audit h \<and> (r = Inl Internal \<or> r \<noteq> Inr m \<and> policy R h' = policy R h)"
  using assms(2) allowlist_filter.Remove_absent [OF assms(1)]
  by (auto simp: API_Remove_def Let_def policy_def filter_set_def
      split: if_splits option.splits prod.splits bool.splits sum.splits)

lemma audit_Reload:
  "API_Reload E R h = (h', r) \<Longrightarrow>
   (\<exists>a. h_audit h' = h_audit h @ [a] \<and> (\<exists>m. r = Inr m)) \<or> h_audit h' = h_audit h \<and> policy R h' = policy R h"
  by (auto simp: API_Reload_def Loader_Load_def Let_def policy_def audit_def split: if_splits sum.splits)

lemma audit_SetMode:
  "API_SetMode E h m = (h', r) \<Longrightarrow>
   (\<exists>a. h_audit h' = h_audit h @ [a] \<and> (\<exists>m. r = Inr m)) \<or> h_audit h' = h_audit h \<and> policy R h' = policy R h"
  by (auto simp: API_SetMode_def Let_def policy_def audit_def split: if_splits)

lemma audit_Profile:
  "API_Profile E T now h s = (h', r) \<Longrightarrow>
   (\<exists>a. h_audit h' = h_audit h @ [a] \<and> (\<exists>m. r = Inr m)) \<or> h_audit h' = h_audit h \<and> policy R h' = policy R h"
  by (auto simp: API_Profile_def Let_def policy_def audit_def split: if_splits option.splits prod.splits)

text \<open>
  The audit trail: a request that returns an error writes no audit record, and
  one that returns an error other than \<open>Internal\<close> changes neither the filter, nor the file, nor
  the mode. A request that succeeds and changes one of the three appends exactly one record.
\<close>

theorem API_audited:
  assumes "allowlist_filter E R \<alpha>" and "api_step E R T now h call = (h', err)"
  shows "(err \<noteq> None \<longrightarrow> h_audit h' = h_audit h)
    \<and> (policy R h' \<noteq> policy R h \<longrightarrow> err = Some Internal \<or> err = None \<and> (\<exists>a. h_audit h' = h_audit h @ [a]))"
proof (cases call)
  case (CallAdd io dn)
  with assms(2) audit_Add [of E R io h dn] show ?thesis by (cases "API_Add E R io h dn") (fastforce split: sum.splits)
next
  case (CallRemove rw dn)
  with assms audit_Remove [OF assms(1), of rw h dn] show ?thesis
    by (cases "API_Remove E R rw h dn") (fastforce split: sum.splits)
next
  case CallReload
  with assms(2) audit_Reload [of E R h] show ?thesis by (cases "API_Reload E R h") (fastforce split: sum.splits)
next
  case (CallSetMode m)
  with assms(2) audit_SetMode [of E h m _ _ R] show ?thesis by (cases "API_SetMode E h m") (fastforce split: sum.splits)
next
  case (CallProfile s)
  with assms(2) audit_Profile [of E T now h s _ _ R] show ?thesis
    by (cases "API_Profile E T now h s") (fastforce split: sum.splits)
qed

theorem API_audited_witness:
  "\<exists>h'. api_step ref_ext ref_radix ref_clock 7 demo_handler (CallSetMode ''Passive'') = (h', None)
     \<and> policy ref_radix h' \<noteq> policy ref_radix demo_handler \<and> (\<exists>a. h_audit h' = h_audit demo_handler @ [a])"
proof -
  let ?s = "api_step ref_ext ref_radix ref_clock 7 demo_handler (CallSetMode ''Passive'')"
  have s: "?s = (fst ?s, None)" "policy ref_radix (fst ?s) \<noteq> policy ref_radix demo_handler"
    by (simp_all add: API_SetMode_def demo_handler_def ModeActive_def ModePassive_def SetActive_def policy_def audit_def Let_def go_eval)
  then show ?thesis
    using API_audited [OF ref_filter.allowlist_filter_axioms s(1)] by auto
qed

lemma wildcard_name:
  assumes I: "idna_names E" and ls: "ls \<noteq> []" "list_all ldh_label ls" "list_all plain_char (Join ls ''.'')"
  shows "NormalizeDomain E (''*.'' @ Join ls ''.'') = ''*.'' @ Join ls ''.'' @ ''.''"
    and "NormalizeDomain E (''*.'' @ Join ls ''.'' @ ''.'') = ''*.'' @ Join ls ''.'' @ ''.''"
    and "canonicalAllowlistEntry E (''*.'' @ Join ls ''.'') = Join ls ''.''"
    and "TrimSpace (''*.'' @ Join ls ''.'') = ''*.'' @ Join ls ''.''"
proof -
  let ?x = "''*.'' @ Join ls ''.''"
  have ne: "Join ls ''.'' \<noteq> []" and dot: "\<not> HasSuffix (Join ls ''.'') ''.''"
    using Join_not_Nil Join_ldh_no_dot_end ls(1,2) by blast+
  have p: "list_all plain_char ?x" using ls(3) by (simp add: plain_char_def go_char code_def)
  have "\<forall>c\<in>set ?x. is_graphic c" using p by (auto simp: list_all_iff dest!: plain_char_facts)
  moreover have "last ?x \<in> set ?x" using ne by (metis append_is_Nil_conv last_in_set)
  ultimately have g: "is_graphic CHR ''*''" "is_graphic CHR ''.''" "is_graphic (last ?x)" by auto
  show t: "TrimSpace ?x = ?x" using g by (intro TrimSpace_graphic) simp
  have t': "TrimSpace (?x @ ''.'') = ?x @ ''.''" using g by (intro TrimSpace_graphic) simp
  have d: "\<not> HasSuffix ?x ''.''" using dot ne by (simp add: HasSuffix_single)
  show "NormalizeDomain E ?x = ''*.'' @ Join ls ''.'' @ ''.''"
    using t TrimSuffix_no [OF d] idna_names.toASCII_plain [OF I p] by (simp only: NormalizeDomain_def append_assoc)
  show "NormalizeDomain E (''*.'' @ Join ls ''.'' @ ''.'') = ''*.'' @ Join ls ''.'' @ ''.''"
    using t' idna_names.toASCII_plain [OF I p] by (simp only: NormalizeDomain_def TrimSuffix_append flip: append_assoc)
  show "canonicalAllowlistEntry E ?x = Join ls ''.''"
    using t TrimSuffix_no [OF dot] idna_names.toASCII_plain [OF I ls(3)]
    by (simp only: canonicalAllowlistEntry_def TrimPrefix_append)
qed

lemma API_Add_new:
  assumes F: "allowlist_filter E R \<alpha>" and r: "filter_reachable E R (h_filter h)"
    and x: "NormalizeDomain E dn = x @ ''.''" "NormalizeDomain E (x @ ''.'') = x @ ''.''" "ValidateDomain x = None"
      "x @ ''.'' \<notin> filter_set R (h_filter h)" "TrimSpace x = x"
      "canonicalAllowlistEntry E x = c" "ValidateDomain c = None"
    and l: "h_has_loader h" "dest (h_dir h) = Regular (lines_text ks)" "\<forall>k\<in>set ks. LF \<notin> set k"
      "parseAllowlistFile E (dest (h_dir h)) = Inr es"
    and ok: "API_Add E R io h dn = (h', Inr msg)"
  shows "filter_set R (h_filter h') = filter_set R (h_filter h) \<union> {x @ ''.''}"
    and "filter_reachable E R (h_filter h')"
    and "h_has_loader h'" and "parseAllowlistFile E (dest (h_dir h')) = Inr (es @ [c])"
proof -
  have e: "entry_ok (x @ ''.'')" using x(3) by (simp add: entry_ok_def)
  define f where "f = fst (Filter_Add E R (h_filter h) (x @ ''.''))"
  have f: "Filter_Add E R (h_filter h) (x @ ''.'') = (f, True)"
    and fs: "filter_set R f = filter_set R (h_filter h) \<union> {x @ ''.''}"
    using allowlist_filter.List_Add [OF F allowlist_filter.reachable_inv [OF F r], of "x @ ''.''"] x(2,4) e
    by (simp_all add: filter_set_def f_def prod_eq_iff)
  from ok f x(1,3) l(1) obtain d where d: "SaveDomain io (h_dir h) x = (d, None)"
    and h': "h' = audit ''allowlist.add'' (x @ ''.'') (set_dir d (set_filter f h))"
    by (auto simp: API_Add_def Let_def split: prod.splits if_splits)
  show "filter_set R (h_filter h') = filter_set R (h_filter h) \<union> {x @ ''.''}" using fs h' by simp
  show "filter_reachable E R (h_filter h')" using reach_Add [OF r, of "x @ ''.''"] h' by (simp add: f_def)
  show "h_has_loader h'" using l(1) h' by simp
  show "parseAllowlistFile E (dest (h_dir h')) = Inr (es @ [c])"
    using SaveDomain_appends [OF d l(2-4)] x(5-7) h' by simp
qed

lemma API_Reload_entries:
  assumes "allowlist_filter E R \<alpha>" "h_has_loader h" "parseAllowlistFile E (dest (h_dir h)) = Inr es"
  shows "filter_set R (h_filter (fst (API_Reload E R h))) = {m \<in> NormalizeDomain E ` set es. entry_ok m}"
  using allowlist_filter.List_Replace [OF assms(1)] assms(2,3)
  by (simp add: API_Reload_def Loader_Load_def notify_def filter_set_def Let_def audit_def)

lemma reachable_Reload: "filter_reachable E R (h_filter h) \<Longrightarrow> filter_reachable E R (h_filter (fst (API_Reload E R h)))"
  by (auto simp: API_Reload_def Loader_Load_def notify_def Let_def audit_def reach_Replace split: sum.splits)

lemma split_ldh:
  assumes "allowlist_filter E R \<alpha>" "m \<noteq> []" "list_all plain_label m" "m \<noteq> [[]]"
  shows "SplitDomainName E (fqdn m) = m"
  using assms dns_names.split_fqdn [of E m] by (auto simp: allowlist_filter_def list_all_iff plain_label_ok)

lemma fqdn_star: "ls \<noteq> [] \<Longrightarrow> (''*.'' @ Join ls ''.'') @ ''.'' = fqdn (''*'' # ls)"
  by (cases ls) (simp_all add: fqdn_def)

lemma star_not_suffix: "list_all ldh_label q \<Longrightarrow> \<not> suffix (''*'' # ls) q"
  by (auto simp: suffix_def ldh_label_def)

text \<open>
  A wildcard added through the API is stored with its literal \<open>*\<close> label, so it
  allows no subdomain until the file is loaded again: whatever name without a \<open>*\<close> label the
  filter refused before the request it still refuses after it, although the same request makes
  a file whose reload allows the domain and all of its subdomains.
\<close>

theorem API_Add_wildcard:
  assumes F: "allowlist_filter E R \<alpha>" and I: "idna_names E" and r: "filter_reachable E R (h_filter h)"
    and ls: "ls \<noteq> []" "list_all ldh_label ls" "list_all plain_char (Join ls ''.'')" "length (Join ls ''.'') \<le> 253"
    and l: "h_has_loader h" "dest (h_dir h) = Regular (lines_text ks)" "\<forall>k\<in>set ks. LF \<notin> set k"
      "parseAllowlistFile E (dest (h_dir h)) = Inr es"
    and a: "(''*.'' @ Join ls ''.'') @ ''.'' \<notin> filter_set R (h_filter h)"
      "API_Add E R io h (''*.'' @ Join ls ''.'') = (h', Inr msg)"
    and q: "NormalizeDomain E d = fqdn q" "q \<noteq> []" "list_all ldh_label q" "suffix ls q"
      "\<not> Filter_IsAllowed E R (h_filter h) d"
  shows "\<not> Filter_IsAllowed E R (h_filter h') d \<and> Filter_IsAllowed E R (h_filter (fst (API_Reload E R h'))) d"
proof -
  note w = wildcard_name [OF I ls(1-3)]
  have pl: "list_all plain_label (''*'' # ls)" "list_all plain_label q" "list_all plain_label ls" "ls \<noteq> [[]]" "q \<noteq> [[]]"
    using ls(2) q(3) by (auto simp: list_all_iff plain_label_ldh ldh_label_def) (simp add: plain_label_def code_def)
  have ql: "list_all label_ok q" using pl(2) by (auto simp: list_all_iff plain_label_ok)
  have v: "ValidateDomain (''*.'' @ Join ls ''.'') = None" "ValidateDomain (Join ls ''.'') = None"
    using ValidateDomain_plain [OF ls(1,2,4), of _ "''*.''" "[]"] ValidateDomain_Join [OF ls(1,2)] ls(4) by simp_all
  note N = API_Add_new [OF F r w(1) [folded append_assoc] w(2) [folded append_assoc] v(1) a(1) w(4) w(3) v(2) l a(2)]
  note dec = allowlist_filter.IsAllowed_iff [OF F allowlist_filter.reachable_inv [OF F _] q(1) pl(5) ql, folded filter_set_def]
  have star: "\<not> suffix (SplitDomainName E ((''*.'' @ Join ls ''.'') @ ''.'')) q"
    unfolding fqdn_star [OF ls(1)] using split_ldh [OF F _ pl(1)] q(3) star_not_suffix [of q ls] by simp
  have old: "\<not> (\<exists>v\<in>filter_set R (h_filter h). suffix (SplitDomainName E v) q)" using dec [OF r] q(5) by blast
  have "\<not> Filter_IsAllowed E R (h_filter h') d"
    using old star by (auto simp: dec [OF N(2)] N(1))
  moreover have "bare (Join ls ''.'')"
    using v(2) Join_ldh_no_star [OF ls(1,2), of "[]"] Join_ldh_no_dot_end [OF ls(1,2)]
    by (simp add: bare_def domain_body_def CutPrefix_def)
  then have "NormalizeDomain E (Join ls ''.'') = fqdn ls" "entry_ok (fqdn ls)"
    using idna_names.bare_plain [OF I _ ls(3)] v(2) by (simp_all add: fqdn_def entry_ok_def)
  then have "fqdn ls \<in> filter_set R (h_filter (fst (API_Reload E R h')))"
    unfolding API_Reload_entries [OF F N(3,4)] by force
  then have "Filter_IsAllowed E R (h_filter (fst (API_Reload E R h'))) d"
    using split_ldh [OF F ls(1) pl(3,4)] q(4) by (force simp: dec [OF reachable_Reload [OF N(2)]])
  ultimately show ?thesis by blast
qed

theorem API_Add_wildcard_witness:
  "\<exists>h'. API_Add ref_ext ref_radix WriteOK demo_handler ''*.pypi.org'' = (h', Inr ''added *.pypi.org.'')
     \<and> \<not> Filter_IsAllowed ref_ext ref_radix (h_filter h') ''www.pypi.org''
     \<and> Filter_IsAllowed ref_ext ref_radix (h_filter (fst (API_Reload ref_ext ref_radix h'))) ''www.pypi.org''"
proof -
  let ?A = "API_Add ref_ext ref_radix WriteOK demo_handler ''*.pypi.org''"
  have j: "''*.'' @ Join [''pypi'', ''org''] ''.'' = ''*.pypi.org''" by simp
  have a: "?A = (fst ?A, Inr ''added *.pypi.org.'')"
    by (simp add: API_Add_def demo_handler_def demo_tree loader_eval SaveDomain_def Let_def)
  have "\<not> Filter_IsAllowed ref_ext ref_radix (h_filter (fst ?A)) ''www.pypi.org''
     \<and> Filter_IsAllowed ref_ext ref_radix (h_filter (fst (API_Reload ref_ext ref_radix (fst ?A)))) ''www.pypi.org''"
  proof (rule API_Add_wildcard [OF ref_filter.allowlist_filter_axioms ref_idna.idna_names_axioms,
        of demo_handler "[''pypi'', ''org'']" "[''github.com'']" "[''github.com'']" WriteOK _ "''added *.pypi.org.''" _
          "[''www'', ''pypi'', ''org'']"])
    show "filter_reachable ref_ext ref_radix (h_filter demo_handler)"
      using demo_reachable by (simp add: demo_handler_def)
    show "API_Add ref_ext ref_radix WriteOK demo_handler (''*.'' @ Join [''pypi'', ''org''] ''.'') = (fst ?A, Inr ''added *.pypi.org.'')"
      unfolding j by (rule a)
    show "(''*.'' @ Join [''pypi'', ''org''] ''.'') @ ''.'' \<notin> filter_set ref_radix (h_filter demo_handler)"
      by (simp add: demo_handler_def filter_set_def demo_tree filter_eval)
    show "parseAllowlistFile ref_ext (dest (h_dir demo_handler)) = Inr [''github.com'']"
      by (simp add: demo_handler_def loader_eval)
    show "NormalizeDomain ref_ext ''www.pypi.org'' = fqdn [''www'', ''pypi'', ''org'']"
      by (simp add: filter_eval)
    show "\<not> Filter_IsAllowed ref_ext ref_radix (h_filter demo_handler) ''www.pypi.org''"
      by (simp add: demo_handler_def demo_tree filter_eval)
  qed (simp_all add: demo_handler_def domain_eval plain_char_def label_char_def suffix_def)
  then show ?thesis using a by (intro exI [of _ "fst ?A"]) simp
qed

text \<open>
  \<open>DomainSetsEqual\<close> decides equality of finite sets, and rendering a set of bare
  lower-case domains and loading the text again gives the set: two declarations show the same
  text exactly when they declare the same domains.
\<close>

lemma DomainSetsEqual_iff: "finite a \<Longrightarrow> finite b \<Longrightarrow> DomainSetsEqual a b \<longleftrightarrow> a = b"
  using card_subset_eq [of b a] by (auto simp: DomainSetsEqual_def)

lemma parse_lines_bare:
  assumes "idna_names E" "\<forall>d\<in>set ds. bare d \<and> list_all plain_char d"
  shows "parse_lines E ds = ds"
  using assms(2) idna_names.bare_normal [OF assms(1)]
  by (induction ds) (simp_all add: Let_def bare_def valid_not_skipped)

lemma bare_line: "bare d \<Longrightarrow> list_all plain_char d \<Longrightarrow> LF \<notin> set d \<and> length d < max_token \<and> d \<noteq> []"
  using ValidateDomain_length [of d] ValidateDomain_hd [of d]
  by (auto simp: bare_def list_all_iff is_graphic_def max_token_def dest!: plain_char_facts)

theorem RenderDomainSet_roundtrip:
  assumes "idna_names E" and "finite S" and "\<forall>d\<in>S. bare d \<and> list_all plain_char d"
    and "finite S'" and "\<forall>d\<in>S'. bare d \<and> list_all plain_char d"
  shows "LoadDomainSet E (Regular (RenderDomainSet S)) = Inr S
    \<and> DomainSetsEqual S S' = (RenderDomainSet S = RenderDomainSet S')"
proof -
  have load: "LoadDomainSet E (Regular (RenderDomainSet A)) = Inr A"
    if A: "finite A" "\<forall>d\<in>A. bare d \<and> list_all plain_char d" for A
  proof -
    let ?ds = "sorted_list_of_set A"
    have ds: "\<forall>d\<in>set ?ds. bare d \<and> list_all plain_char d" using A by simp
    then have "parseAllowlistFile E (Regular (RenderDomainSet A)) = Inr ?ds"
      using bare_line by (simp add: RenderDomainSet_def rewrite_lines parse_lines_bare [OF assms(1) ds])
    moreover have "canonicalAllowlistEntry E d = d" "TrimSpace d \<noteq> []" if "d \<in> A" for d
      using idna_names.bare_normal [OF assms(1), of d] bare_line [of d] A that by simp_all
    ultimately show ?thesis using A(1) by (simp add: LoadDomainSet_def DomainSet_def)
  qed
  show ?thesis
    unfolding DomainSetsEqual_iff [OF assms(2,4)]
    using load [OF assms(2,3)] load [OF assms(4,5)] by (metis sum.inject(2))
qed

theorem RenderDomainSet_roundtrip_witness:
  "LoadDomainSet ref_ext (Regular (RenderDomainSet {''b.com'', ''a.org''})) = Inr {''b.com'', ''a.org''}"
  using RenderDomainSet_roundtrip [OF ref_idna.idna_names_axioms, of "{''b.com'', ''a.org''}" "{}"]
  by (simp add: bare_def domain_eval domain_body_def plain_char_def label_char_def)

end
