(* ===== verification/SSRF.thy ===== *)
theory SSRF
  imports Go_Net
begin

text \<open>
  \<^verbatim>\<open>internal/filterbase/ssrf.go\<close> and \<^verbatim>\<open>display.go\<close>: the address ranges the filters refuse to
  reach, the operator's exceptions, and the status display. A nil \<open>*TargetChecker\<close> is
  \<open>None\<close>.
\<close>

section \<open>Dangerous addresses\<close>

definition cgNAT :: IPNet where
  "cgNAT = the (ParseCIDR ''100.64.0.0/10'')"

definition nat64WKP :: IPNet where
  "nat64WKP = the (ParseCIDR ''64:ff9b::/96'')"

text \<open>The switch at the head of \<open>dangerousIP\<close>.\<close>

definition dangerous_class :: "IP \<Rightarrow> bool" where
  "dangerous_class ip \<longleftrightarrow>
     IsLoopback ip \<or> IsPrivate ip \<or> IsLinkLocalUnicast ip \<or> IsLinkLocalMulticast ip \<or> IsUnspecified ip
     \<or> IP_Equal ip IPv4bcast \<or> IsMulticast ip \<or> IPNet_Contains cgNAT ip"

lemma To4_IPv4 [simp]: "To4 (IPv4 a b c d) = Some [a, b, c, d]"
  by (simp add: To4_def IPv4_def v4InV6Prefix_def)

function dangerousIP :: "IP \<Rightarrow> bool" where
  "dangerousIP ip =
     (if dangerous_class ip then True
      else if To4 ip = None \<and> length ip = 16 \<and> ip ! 0 = 0xfe \<and> (ip ! 1) AND 0xc0 = 0xc0 then True
      else if To16 ip \<noteq> None \<and> To4 ip = None \<and> IPNet_Contains nat64WKP ip
        then (let v6 = the (To16 ip) in dangerousIP (IPv4 (v6 ! 12) (v6 ! 13) (v6 ! 14) (v6 ! 15)))
      else False)"
  by pat_completeness auto
termination
  by (relation "measure (\<lambda>ip. case To4 ip of None \<Rightarrow> 1 | Some _ \<Rightarrow> 0)") auto

declare dangerousIP.simps [simp del]

definition parseHostIP :: "string \<Rightarrow> IP option" where
  "parseHostIP host =
     ParseIP (case IndexByte host CHR ''%'' of Some idx \<Rightarrow> take idx host | None \<Rightarrow> host)"

definition IsBlockedIP :: "string \<Rightarrow> bool" where
  "IsBlockedIP host = (case parseHostIP host of None \<Rightarrow> False | Some ip \<Rightarrow> dangerousIP ip)"

record TargetChecker =
  tc_allowed :: "IPNet list"

datatype cidr_error = BadCIDR string | DefaultRoute string

fun target_loop :: "IPNet list \<Rightarrow> string list \<Rightarrow> cidr_error + IPNet list" where
  "target_loop acc [] = Inr acc"
| "target_loop acc (raw # rest) =
     (let c = TrimSpace raw in
      if c = [] then target_loop acc rest
      else case ParseCIDR c of
        None \<Rightarrow> Inl (BadCIDR c)
      | Some ipnet \<Rightarrow>
          if mask_ones (net_Mask ipnet) = 0 then Inl (DefaultRoute c)
          else target_loop (acc @ [ipnet]) rest)"

definition NewTargetChecker :: "string list \<Rightarrow> cidr_error + TargetChecker" where
  "NewTargetChecker cidrs =
     (case target_loop [] cidrs of Inl e \<Rightarrow> Inl e | Inr ns \<Rightarrow> Inr \<lparr>tc_allowed = ns\<rparr>)"

definition IsBlocked :: "TargetChecker option \<Rightarrow> string \<Rightarrow> bool" where
  "IsBlocked t host =
     (case parseHostIP host of
        None \<Rightarrow> False
      | Some ip \<Rightarrow>
          if \<not> dangerousIP ip then False
          else (case t of
                  None \<Rightarrow> True
                | Some tc \<Rightarrow> \<not> list_ex (\<lambda>n. IPNet_Contains n ip) (tc_allowed tc)))"

section \<open>Status display\<close>

definition FilterDNS :: string where "FilterDNS = ''DNS''"
definition FilterHTTP :: string where "FilterHTTP = ''HTTP''"

record StatusData =
  FilterName :: string
  sd_Mode :: string
  sd_Port :: "32 word"
  sd_Domains :: "32 word"
  sd_Total :: "64 word"
  sd_Allowed :: "64 word"
  sd_Blocked :: "64 word"
  sd_Uptime :: string
  sd_MITM :: bool

definition em_dash :: string where "em_dash = bytes [226, 128, 148]"

definition SecurityWarnings :: "StatusData \<Rightarrow> string list" where
  "SecurityWarnings d =
     (if sd_Mode d = ''passive''
      then [FilterName d @ '' filter is in PASSIVE mode '' @ em_dash @ '' all traffic is allowed (no filtering)'']
      else [])
     @ (if FilterName d = FilterHTTP \<and> \<not> sd_MITM d
        then [''TLS MITM is disabled '' @ em_dash @ '' HTTPS is not inspected (domain fronting and path-level exfiltration possible)'']
        else [])"

definition activityLabel :: "string \<Rightarrow> string" where
  "activityLabel filterName = (if filterName = FilterDNS then ''queries '' else ''requests'')"

text \<open>The lines \<open>DisplayStatus\<close> prints.\<close>

definition DisplayStatus :: "StatusData \<Rightarrow> string list" where
  "DisplayStatus d =
     [FilterName d @ '' Filter Status'', replicate 40 CHR ''='', ''Mode:            '' @ sd_Mode d]
     @ (if FilterName d = FilterHTTP
        then [if sd_MITM d then ''MITM:            enabled'' else ''MITM:            disabled''] else [])
     @ [''Port:            '' @ Itoa_int (sint (sd_Port d)),
        ''Domains:         '' @ Itoa_int (sint (sd_Domains d)),
        ''Total '' @ activityLabel (FilterName d) @ '':  '' @ Itoa (unat (sd_Total d)),
        ''Allowed:         '' @ Itoa (unat (sd_Allowed d)),
        ''Blocked:         '' @ Itoa (unat (sd_Blocked d)),
        ''Uptime:          '' @ sd_Uptime d]
     @ map (\<lambda>warn. ''WARNING:         '' @ warn) (SecurityWarnings d)"

record StatusJSON =
  js_Filter :: string
  js_Running :: bool
  js_Mode :: string
  js_Port :: "32 word"
  js_Domains :: "32 word"
  js_Total :: "64 word"
  js_Allowed :: "64 word"
  js_Blocked :: "64 word"
  js_Uptime :: string
  js_MITM :: "bool option"
  js_Warnings :: "string list"

definition ToJSON :: "StatusData \<Rightarrow> StatusJSON" where
  "ToJSON d = \<lparr>js_Filter = FilterName d, js_Running = True, js_Mode = sd_Mode d, js_Port = sd_Port d,
     js_Domains = sd_Domains d, js_Total = sd_Total d, js_Allowed = sd_Allowed d, js_Blocked = sd_Blocked d,
     js_Uptime = sd_Uptime d, js_MITM = (if FilterName d = FilterHTTP then Some (sd_MITM d) else None),
     js_Warnings = SecurityWarnings d\<rparr>"

section \<open>The networks\<close>

lemmas cidr_eval = ParseCIDR_def ParseAddr_def parse_v4_def parse_octet_def go_eval dec_val_def digit_val_def
  prefix_len_def parse_digits_def CIDRMask_def apply_mask_def Let_def upt_rec mask_numeral
  parse_v6_def parse_v6_loop.simps expand_v6_def u16_bytes_def hex_val_def

lemma cgNAT_value: "cgNAT = \<lparr>net_IP = [100, 64, 0, 0], net_Mask = [255, 192, 0, 0]\<rparr>"
  by (simp add: cgNAT_def cidr_eval)

lemma nat64WKP_value: "nat64WKP = \<lparr>net_IP = [0, 0x64, 0xff, 0x9b, 0, 0, 0, 0, 0, 0, 0, 0, 0, 0, 0, 0],
   net_Mask = [255, 255, 255, 255, 255, 255, 255, 255, 255, 255, 255, 255, 0, 0, 0, 0]\<rparr>"
proof -
  have r: "replicate 12 (0::u8) = [0, 0, 0, 0, 0, 0, 0, 0, 0, 0, 0, 0]" by (simp add: numeral_eq_Suc)
  show ?thesis by (simp add: nat64WKP_def r cidr_eval)
qed

lemma mapped_any: "ParseCIDR ''::ffff:0.0.0.0/96'' = Some \<lparr>net_IP = v4InV6Prefix @ [0, 0, 0, 0],
   net_Mask = [255, 255, 255, 255, 255, 255, 255, 255, 255, 255, 255, 255, 0, 0, 0, 0]\<rparr>"
proof -
  have r: "replicate 10 (0::u8) = [0, 0, 0, 0, 0, 0, 0, 0, 0, 0]" by (simp add: numeral_eq_Suc)
  show ?thesis by (simp add: r cidr_eval v4InV6Prefix_def)
qed

lemma and_high_bits:
  fixes b m :: u8
  assumes "m = NOT (mask k)"
  shows "unat (b AND m) = 2 ^ k * (unat b div 2 ^ k)"
proof -
  have b: "unat b < 256" using unsigned_less [of b, where ?'a = nat] by simp
  then have tb: "take_bit 8 (unat b) = unat b" by (simp add: take_bit_eq_mod)
  have "b AND m = push_bit k (drop_bit k b)"
    unfolding assms by (rule bit_word_eqI) (auto simp: bit_simps)
  then have "unat (b AND m) = take_bit 8 (push_bit k (unat b div 2 ^ k))"
    by (simp add: unsigned_push_bit_eq unsigned_drop_bit_eq tb flip: drop_bit_eq_div)
  also have "\<dots> = 2 ^ k * (unat b div 2 ^ k)"
  proof -
    have "2 ^ k * (unat b div 2 ^ k) \<le> unat b" by simp
    also note b
    finally show ?thesis by (simp add: push_bit_eq_mult take_bit_eq_mod mult.commute)
  qed
  finally show ?thesis .
qed

lemma high_masks: "(0xf0::u8) = NOT (mask 4)" "(0xc0::u8) = NOT (mask 6)" "(0xfe::u8) = NOT (mask 1)"
  by (simp_all add: mask_numeral)

lemma and_masks:
  "b AND 0xf0 = 16 \<longleftrightarrow> 16 \<le> b \<and> b \<le> 31" "b AND 0xf0 = 0xe0 \<longleftrightarrow> 224 \<le> b \<and> b \<le> 239"
  "64 = b AND 0xc0 \<longleftrightarrow> 64 \<le> b \<and> b \<le> 127" for b :: u8
  using and_high_bits [of _ 4 b] and_high_bits [of _ 6 b]
  by (auto simp: high_masks word_unat_eq_iff word_le_nat_alt)
lemma IPNet_Contains_v4:
  assumes "length nn = 4" "length m = 4"
  shows "IPNet_Contains \<lparr>net_IP = nn, net_Mask = m\<rparr> ip \<longleftrightarrow>
     (case To4 ip of Some p \<Rightarrow> apply_mask nn m = apply_mask p m | None \<Rightarrow> False)"
proof (cases "To4 ip")
  case None
  then have "length ip \<noteq> 4" by (auto simp: To4_def)
  with None show ?thesis using assms by (simp add: IPNet_Contains_def networkNumberAndMask_def To4_def)
next
  case (Some p)
  then have "length p = 4" by (auto simp: To4_def split: if_splits)
  then show ?thesis using assms Some by (simp add: IPNet_Contains_def networkNumberAndMask_def To4_def)
qed

lemma cgNAT_v4: "IPNet_Contains cgNAT (IPv4 a b c d) \<longleftrightarrow> a = 100 \<and> 64 \<le> b \<and> b \<le> 127"
proof -
  have "(255 :: u8) = - 1" by simp
  then have "a AND 255 = a" by (simp only: and.right_neutral)
  then show ?thesis
    using and_masks(3) [of b] by (auto simp: cgNAT_value IPNet_Contains_v4 apply_mask_def)
qed

section \<open>Properties\<close>

definition dangerous_v4 :: "u8 \<Rightarrow> u8 \<Rightarrow> u8 \<Rightarrow> u8 \<Rightarrow> bool" where
  "dangerous_v4 a b c d \<longleftrightarrow>
     a = 127 \<or> a = 10 \<or> (a = 172 \<and> 16 \<le> b \<and> b \<le> 31) \<or> (a = 192 \<and> b = 168)
     \<or> (a = 100 \<and> 64 \<le> b \<and> b \<le> 127) \<or> (a = 169 \<and> b = 254) \<or> (224 \<le> a \<and> a \<le> 239)
     \<or> (a = 0 \<and> b = 0 \<and> c = 0 \<and> d = 0) \<or> (a = 255 \<and> b = 255 \<and> c = 255 \<and> d = 255)"

lemma dangerous_class_v4: "dangerous_class (IPv4 a b c d) \<longleftrightarrow> dangerous_v4 a b c d"
proof -
  have r16: "IPv6unspecified = [0, 0, 0, 0, 0, 0, 0, 0, 0, 0, 0, 0, 0, 0, 0, 0]"
    by (simp add: IPv6unspecified_def numeral_eq_Suc)
  have z: "IP_Equal (IPv4 a b c d) IPv4zero \<longleftrightarrow> a = 0 \<and> b = 0 \<and> c = 0 \<and> d = 0"
    "IP_Equal (IPv4 a b c d) IPv4bcast \<longleftrightarrow> a = 255 \<and> b = 255 \<and> c = 255 \<and> d = 255"
    "\<not> IP_Equal (IPv4 a b c d) IPv6unspecified"
    by (simp_all add: IP_Equal_def IPv4zero_def IPv4bcast_def r16 IPv4_def v4InV6Prefix_def)
  show ?thesis
    unfolding dangerous_class_def dangerous_v4_def ip_class cgNAT_v4 z To4_IPv4 option.case nth_Cons_0
    using z(3) by (auto simp: and_masks)
qed

lemma dangerousIP_v4: "dangerousIP (IPv4 a b c d) \<longleftrightarrow> dangerous_v4 a b c d"
  by (subst dangerousIP.simps) (simp add: dangerous_class_v4)


lemma IPNet_Contains_v6:
  assumes "To4 ip = None" "length ip = 16" "To4 nn = None" "length nn = 16" "length m = 16"
  shows "IPNet_Contains \<lparr>net_IP = nn, net_Mask = m\<rparr> ip \<longleftrightarrow> apply_mask nn m = apply_mask ip m"
  using assms by (simp add: IPNet_Contains_def networkNumberAndMask_def)

definition nat64 :: "u8 \<Rightarrow> u8 \<Rightarrow> u8 \<Rightarrow> u8 \<Rightarrow> IP" where
  "nat64 a b c d = [0, 0x64, 0xff, 0x9b, 0, 0, 0, 0, 0, 0, 0, 0, a, b, c, d]"

lemma nat64_facts:
  "To4 (nat64 a b c d) = None" "length (nat64 a b c d) = 16" "IPNet_Contains nat64WKP (nat64 a b c d)"
  "\<not> dangerous_class (nat64 a b c d)"
proof -
  show n: "To4 (nat64 a b c d) = None" by (simp add: nat64_def To4_def v4InV6Prefix_def)
  show l: "length (nat64 a b c d) = 16" by (simp add: nat64_def)
  have "To4 (net_IP nat64WKP) = None" by (simp add: nat64WKP_value To4_def v4InV6Prefix_def)
  then show "IPNet_Contains nat64WKP (nat64 a b c d)"
    unfolding nat64WKP_value using n l by (subst IPNet_Contains_v6) (simp_all add: nat64_def apply_mask_def)
  have r16: "IPv6unspecified = [0, 0, 0, 0, 0, 0, 0, 0, 0, 0, 0, 0, 0, 0, 0, 0]"
    "IPv6loopback = [0, 0, 0, 0, 0, 0, 0, 0, 0, 0, 0, 0, 0, 0, 0, 1]"
    by (simp_all add: IPv6unspecified_def IPv6loopback_def numeral_eq_Suc)
  show "\<not> dangerous_class (nat64 a b c d)"
    unfolding dangerous_class_def ip_class cgNAT_value using n
    by (simp add: IPNet_Contains_v4 r16)
      (simp add: nat64_def IP_Equal_def IPv4zero_def IPv4bcast_def IPv4_def v4InV6Prefix_def)
qed

text \<open>
  The dangerous IPv4 addresses are exactly loopback, the three private ranges,
  carrier-grade NAT, link-local (with the metadata address), multicast, the unspecified and
  the broadcast address; and a NAT64 address is dangerous exactly when the IPv4 address it
  embeds is.
\<close>

theorem dangerousIP_ranges:
  "(dangerousIP (IPv4 a b c d) \<longleftrightarrow> dangerous_v4 a b c d) \<and> (dangerousIP (nat64 a b c d) \<longleftrightarrow> dangerous_v4 a b c d)"
proof -
  have "nat64 a b c d ! 0 \<noteq> 0xfe" "To16 (nat64 a b c d) = Some (nat64 a b c d)"
    by (simp_all add: nat64_def To16_def)
  then have "dangerousIP (nat64 a b c d) = dangerousIP (IPv4 a b c d)"
    using nat64_facts [of a b c d] by (subst dangerousIP.simps) (simp, simp add: nat64_def)
  then show ?thesis by (simp add: dangerousIP_v4)
qed

lemma IP_String_no_percent:
  assumes "length ip = 4 \<or> length ip = 16"
  shows "CHR ''%'' \<notin> set (IP_String ip)"
proof (cases "To4 ip")
  case None
  then show ?thesis using assms v6_string_chars(2) [of ip] by (auto simp: IP_String_def To4_def split: if_splits)
next
  case (Some p)
  have "CHR ''%'' \<notin> set (v4_string p)"
    using set_Join [of "map (\<lambda>b. Itoa (unat b)) p" "''.''"] Itoa_no_dot(3) by (auto simp: v4_string_def)
  then show ?thesis using assms Some by (auto simp: IP_String_def)
qed

lemma parseHostIP_String:
  "length ip = 4 \<or> length ip = 16 \<Longrightarrow> parseHostIP (IP_String ip) = To16 ip"
  using IP_String_no_percent [of ip] IndexByte_None [of "IP_String ip" "CHR ''%''"]
  by (simp add: parseHostIP_def ParseIP_String)

text \<open>
  What the checker decides on the text of an address, which is how the DNS server
  and the dialer call it: printing and parsing lose nothing, so the text of an address is
  blocked exactly when the address is dangerous and no network the operator listed contains
  it. The missing checker and the empty list block every dangerous address.
\<close>

theorem IsBlocked_printed:
  assumes "length ip = 4 \<or> length ip = 16"
  shows "IsBlocked t (IP_String ip) \<longleftrightarrow>
     dangerousIP (the (To16 ip))
     \<and> (\<forall>tc. t = Some tc \<longrightarrow> (\<forall>n\<in>set (tc_allowed tc). \<not> IPNet_Contains n (the (To16 ip))))"
proof -
  have "To16 ip \<noteq> None" using assms by (auto simp: To16_def)
  then show ?thesis
    using parseHostIP_String [OF assms] by (auto simp: IsBlocked_def list_ex_iff split: option.splits)
qed

theorem IsBlocked_printed_witness:
  "IsBlocked (Some \<lparr>tc_allowed = []\<rparr>) (IP_String [169, 254, 169, 254])"
proof -
  have "the (To16 [169, 254, 169, 254]) = IPv4 169 254 169 254" by (simp add: To16_def IPv4_def)
  then show ?thesis
    using IsBlocked_printed [of "[169, 254, 169, 254]" "Some \<lparr>tc_allowed = []\<rparr>"]
    by (simp add: dangerousIP_v4 dangerous_v4_def)
qed

text \<open>
  The guard against a default route has a gap: \<open>::ffff:0.0.0.0/96\<close> is the IPv4 default
  route in mapped notation. Its mask has 96 ones, so \<open>NewTargetChecker\<close> accepts it, and the
  checker then blocks no IPv4 address at all, neither loopback nor the metadata service.
\<close>

theorem mapped_default_route_accepted:
  "\<exists>tc. NewTargetChecker [''::ffff:0.0.0.0/96''] = Inr tc \<and> (\<forall>a b c d. \<not> IsBlocked (Some tc) (IP_String [a, b, c, d]))"
proof -
  let ?n = "\<lparr>net_IP = v4InV6Prefix @ [0, 0, 0, 0],
    net_Mask = [255, 255, 255, 255, 255, 255, 255, 255, 255, 255, 255, 255, 0, 0, 0, 0]\<rparr>"
  have "TrimSpace ''::ffff:0.0.0.0/96'' = ''::ffff:0.0.0.0/96''" by (simp add: go_eval)
  moreover have "mask_ones (net_Mask ?n) \<noteq> 0" by (simp add: mask_ones_def upt_rec)
  ultimately have "NewTargetChecker [''::ffff:0.0.0.0/96''] = Inr \<lparr>tc_allowed = [?n]\<rparr>"
    by (simp add: NewTargetChecker_def mapped_any)
  moreover have "\<not> IsBlocked (Some \<lparr>tc_allowed = [?n]\<rparr>) (IP_String [a, b, c, d])" for a b c d
  proof -
    have "IPNet_Contains ?n (IPv4 a b c d)"
      by (simp add: IPNet_Contains_def networkNumberAndMask_def To4_def v4InV6Prefix_def apply_mask_def IPv4_def Let_def)
    then show ?thesis
      using parseHostIP_String [of "[a, b, c, d]"] by (simp add: IsBlocked_def To16_def IPv4_def)
  qed
  ultimately show ?thesis by blast
qed

end
