(* ===== verification/DNS_Filter.thy ===== *)
theory DNS_Filter
  imports Allowlist_API SSRF
begin

text \<open>
  \<^verbatim>\<open>internal/dnsfilter/server.go\<close>, \<^verbatim>\<open>resolver.go\<close>, \<^verbatim>\<open>resolver_darwin.go\<close> and \<^verbatim>\<open>api.go\<close>: the DNS
  server the guest's resolver talks to.

  A DNS message is a record with the fields the server reads and writes. What
  \<^verbatim>\<open>github.com/miekg/dns\<close> does on messages is in \<open>dns_ops\<close>; the locale \<open>dns_lib\<close> states what
  the server relies on. A call of \<open>ServeDNS\<close> returns the new server, the one response it
  writes, and the queries it sent upstream. The exchanges with the upstream server over UDP
  and TCP are functions of the environment. The mode is read several times by the code; a
  call is one step here, so the mode does not change inside it.
\<close>

section \<open>Messages\<close>

type_synonym u16 = "16 word"
type_synonym u64 = "64 word"

datatype RR =
    RR_A string IP
  | RR_AAAA string IP
  | RR_OPT u16 bool
  | RR_other string u16

record Question =
  q_Name :: string
  q_Qtype :: u16

record Msg =
  m_Id :: u16
  m_Response :: bool
  m_Opcode :: nat
  m_Authoritative :: bool
  m_Truncated :: bool
  m_RecursionDesired :: bool
  m_RecursionAvailable :: bool
  m_Zero :: bool
  m_AuthenticatedData :: bool
  m_CheckingDisabled :: bool
  m_Rcode :: nat
  m_Compress :: bool
  m_Question :: "Question list"
  m_Answer :: "RR list"
  m_Ns :: "RR list"
  m_Extra :: "RR list"

definition new_Msg :: Msg where
  "new_Msg = \<lparr>m_Id = 0, m_Response = False, m_Opcode = 0, m_Authoritative = False, m_Truncated = False,
     m_RecursionDesired = False, m_RecursionAvailable = False, m_Zero = False, m_AuthenticatedData = False,
     m_CheckingDisabled = False, m_Rcode = 0, m_Compress = False, m_Question = [], m_Answer = [],
     m_Ns = [], m_Extra = []\<rparr>"

text \<open>The library: the OPT record of a message (buffer size and DO bit), appending one, the length on the wire,
  and the reply to a request.\<close>

record dns_ops =
  IsEdns0 :: "Msg \<Rightarrow> (u16 \<times> bool) option"
  SetEdns0 :: "Msg \<Rightarrow> u16 \<Rightarrow> bool \<Rightarrow> Msg"
  Msg_Len :: "Msg \<Rightarrow> nat"
  SetReply :: "Msg \<Rightarrow> Msg"

definition TypeA :: u16 where "TypeA = 1"
definition TypeAAAA :: u16 where "TypeAAAA = 28"
definition RcodeFormatError :: nat where "RcodeFormatError = 1"
definition RcodeServerFailure :: nat where "RcodeServerFailure = 2"
definition RcodeNameError :: nat where "RcodeNameError = 3"

definition ednsBufferSize :: u16 where "ednsBufferSize = 1232"

definition HealthcheckDomain :: string where "HealthcheckDomain = ''healthcheck.abox.local.''"

fun is_OPT :: "RR \<Rightarrow> bool" where
  "is_OPT (RR_OPT _ _) = True"
| "is_OPT _ = False"

definition dns_setEdns0 :: "dns_ops \<Rightarrow> Msg \<Rightarrow> Msg \<Rightarrow> Msg" where
  "dns_setEdns0 D resp req =
     (let resp' = resp\<lparr>m_Extra := List.filter (\<lambda>rr. \<not> is_OPT rr) (m_Extra resp)\<rparr> in
      case IsEdns0 D req of
        None \<Rightarrow> resp'
      | Some (_, do) \<Rightarrow> SetEdns0 D resp' ednsBufferSize do)"

definition buildCleanResponse :: "Msg \<Rightarrow> Msg \<Rightarrow> Msg" where
  "buildCleanResponse upstream req =
     new_Msg\<lparr>m_Id := m_Id req, m_Response := True, m_Opcode := m_Opcode req,
       m_Authoritative := m_Authoritative upstream, m_Truncated := m_Truncated upstream,
       m_RecursionDesired := m_RecursionDesired req, m_RecursionAvailable := True, m_Zero := False,
       m_AuthenticatedData := False, m_CheckingDisabled := m_CheckingDisabled req,
       m_Rcode := m_Rcode upstream, m_Question := m_Question req,
       m_Answer := m_Answer upstream, m_Ns := m_Ns upstream,
       m_Extra := List.filter (\<lambda>rr. \<not> is_OPT rr) (m_Extra upstream), m_Compress := True\<rparr>"

text \<open>The largest UDP response the client takes.\<close>

definition client_max :: "dns_ops \<Rightarrow> Msg \<Rightarrow> u16" where
  "client_max D req =
     (let n = (case IsEdns0 D req of Some (udpSize, _) \<Rightarrow> udpSize | None \<Rightarrow> 512)
      in if n > ednsBufferSize then ednsBufferSize else n)"

definition prepareResponse :: "dns_ops \<Rightarrow> Msg \<Rightarrow> Msg \<Rightarrow> bool \<Rightarrow> Msg" where
  "prepareResponse D resp req clientUsedTCP =
     (let cleanResp = dns_setEdns0 D (buildCleanResponse resp req) req in
      if \<not> clientUsedTCP \<and> Msg_Len D cleanResp > unat (client_max D req)
      then dns_setEdns0 D (cleanResp\<lparr>m_Truncated := True, m_Answer := [], m_Ns := [], m_Extra := []\<rparr>) req
      else cleanResp)"

definition buildErrorResponse :: "dns_ops \<Rightarrow> Msg \<Rightarrow> nat \<Rightarrow> Msg" where
  "buildErrorResponse D req rcode =
     dns_setEdns0 D
       (new_Msg\<lparr>m_Id := m_Id req, m_Response := True, m_Opcode := m_Opcode req,
          m_RecursionDesired := m_RecursionDesired req, m_RecursionAvailable := True,
          m_AuthenticatedData := False, m_CheckingDisabled := m_CheckingDisabled req,
          m_Rcode := rcode, m_Question := m_Question req\<rparr>) req"

section \<open>Upstream\<close>

text \<open>The result of an exchange: an error, or a message that may be nil.\<close>

type_synonym exchange = "Msg \<Rightarrow> string \<Rightarrow> string + Msg option"

definition DefaultResolver_Exchange :: "exchange \<Rightarrow> exchange \<Rightarrow> exchange" where
  "DefaultResolver_Exchange udp tcp m address =
     (case udp m address of
        Inr (Some resp) \<Rightarrow>
          if m_Truncated resp
          then (case tcp m address of Inr tcpResp \<Rightarrow> Inr tcpResp | Inl _ \<Rightarrow> Inr (Some resp))
          else Inr (Some resp)
      | r \<Rightarrow> r)"

definition fallbackUpstream :: string where "fallbackUpstream = ''8.8.8.8:53''"

definition is_v4_text :: "string \<Rightarrow> bool" where
  "is_v4_text s = (case ParseIP s of Some ip \<Rightarrow> To4 ip \<noteq> None | None \<Rightarrow> False)"

text \<open>\<open>servers\<close> is what \<open>dns.ClientConfigFromFile\<close> read, if it could.\<close>

definition resolvConfUpstream :: "string list option \<Rightarrow> string option" where
  "resolvConfUpstream servers =
     (case servers of
        None \<Rightarrow> None
      | Some ss \<Rightarrow> map_option (\<lambda>server. JoinHostPort server ''53'') (find is_v4_text ss))"

definition scutil_value :: "string \<Rightarrow> string option" where
  "scutil_value raw =
     (let line = TrimSpace raw in
      if \<not> HasPrefix line ''nameserver['' then None
      else case IndexByte line CHR '':'' of
        None \<Rightarrow> None
      | Some i \<Rightarrow> (let val = TrimSpace (drop (Suc i) line) in if is_v4_text val then Some val else None))"

definition scutilUpstream :: "string option \<Rightarrow> string option" where
  "scutilUpstream out =
     (case out of
        None \<Rightarrow> None
      | Some text \<Rightarrow>
          (case List.map_filter scutil_value (Split text LF) of
             [] \<Rightarrow> None
           | val # _ \<Rightarrow> Some (JoinHostPort val ''53'')))"

definition darwinSystemUpstream :: "string option \<Rightarrow> string list option \<Rightarrow> string option" where
  "darwinSystemUpstream out servers =
     (case scutilUpstream out of Some up \<Rightarrow> Some up | None \<Rightarrow> resolvConfUpstream servers)"

definition ResolveUpstream :: "string option \<Rightarrow> string \<Rightarrow> string \<Rightarrow> string" where
  "ResolveUpstream sys upstream fallback =
     (if upstream \<noteq> [] then upstream else case sys of Some s \<Rightarrow> s | None \<Rightarrow> fallback)"

section \<open>The server\<close>

record Stats =
  TotalQueries :: u64
  AllowedQueries :: u64
  BlockedQueries :: u64

datatype traffic =
    LogAllow string string u16
  | LogBlock string string string u16

record ('t, 'time) Server =
  srv_mode :: "'time ModeController"
  srv_filter :: "'t Filter"
  srv_upstream :: string
  srv_targetChecker :: "TargetChecker option"
  srv_stats :: Stats
  srv_traffic :: "traffic list option"

text \<open>The surroundings of a call: the libraries, the clock and the write to the profile log, the upstream.\<close>

record ('t, 'time) dns_env =
  env_E :: dom_ext
  env_R :: "'t radix_ops"
  env_D :: dns_ops
  env_clock :: "'time clock_fmt"
  env_now :: 'time
  env_io :: "nat option"
  env_udp :: exchange
  env_tcp :: exchange

definition NewServer ::
  "string option \<Rightarrow> 't Filter \<Rightarrow> string \<Rightarrow> bool \<Rightarrow> upstream_error + ('t, 'time) Server" where
  "NewServer sys f upstream passive =
     (let up = (if upstream = [] then ResolveUpstream sys [] fallbackUpstream else upstream) in
      case NormalizeUpstreamDNS up of
        Inl e \<Rightarrow> Inl e
      | Inr normalized \<Rightarrow>
          Inr \<lparr>srv_mode = SetActive (\<not> passive) \<lparr>mc_active = False, mc_profile = None, mc_port = 0\<rparr>,
               srv_filter = f, srv_upstream = normalized, srv_targetChecker = Some \<lparr>tc_allowed = []\<rparr>,
               srv_stats = \<lparr>TotalQueries = 0, AllowedQueries = 0, BlockedQueries = 0\<rparr>, srv_traffic = None\<rparr>)"

definition SetAllowPrivateTargets ::
  "string list \<Rightarrow> ('t, 'time) Server \<Rightarrow> ('t, 'time) Server \<times> cidr_error option" where
  "SetAllowPrivateTargets cidrs s =
     (case NewTargetChecker cidrs of
        Inl e \<Rightarrow> (s, Some e)
      | Inr tc \<Rightarrow> (s\<lparr>srv_targetChecker := Some tc\<rparr>, None))"

definition count_total :: "('t, 'time) Server \<Rightarrow> ('t, 'time) Server" where
  "count_total s = s\<lparr>srv_stats := (srv_stats s)\<lparr>TotalQueries := TotalQueries (srv_stats s) + 1\<rparr>\<rparr>"

definition count_allowed :: "('t, 'time) Server \<Rightarrow> ('t, 'time) Server" where
  "count_allowed s = s\<lparr>srv_stats := (srv_stats s)\<lparr>AllowedQueries := AllowedQueries (srv_stats s) + 1\<rparr>\<rparr>"

definition count_blocked :: "('t, 'time) Server \<Rightarrow> ('t, 'time) Server" where
  "count_blocked s = s\<lparr>srv_stats := (srv_stats s)\<lparr>BlockedQueries := BlockedQueries (srv_stats s) + 1\<rparr>\<rparr>"

definition log_traffic :: "traffic \<Rightarrow> ('t, 'time) Server \<Rightarrow> ('t, 'time) Server" where
  "log_traffic e s = s\<lparr>srv_traffic := map_option (\<lambda>l. l @ [e]) (srv_traffic s)\<rparr>"

definition handleHealthcheck ::
  "dns_ops \<Rightarrow> ('t, 'time) Server \<Rightarrow> Msg \<Rightarrow> Question \<Rightarrow> (('t, 'time) Server \<times> Msg) option" where
  "handleHealthcheck D s r q =
     (if \<not> EqualFold (q_Name q) HealthcheckDomain then None
      else
        (let resp = (SetReply D r)\<lparr>m_Authoritative := True\<rparr>;
             resp' = (if q_Qtype q = TypeA
                      then resp\<lparr>m_Answer := m_Answer resp @ [RR_A (q_Name q) (the (ParseIP ''127.0.0.1''))]\<rparr>
                      else resp)
         in Some (count_allowed s, resp')))"

text \<open>The address text of an answer record that carries one.\<close>

fun answer_ip :: "RR \<Rightarrow> string option" where
  "answer_ip (RR_A _ ip) = Some (IP_String ip)"
| "answer_ip (RR_AAAA _ ip) = Some (IP_String ip)"
| "answer_ip _ = None"

definition checkRebinding ::
  "dns_ops \<Rightarrow> ('t, 'time) Server \<Rightarrow> Msg \<Rightarrow> Msg \<Rightarrow> Question \<Rightarrow> string \<Rightarrow> (('t, 'time) Server \<times> Msg) option" where
  "checkRebinding D s r resp q source =
     (if list_ex (\<lambda>rr. case answer_ip rr of None \<Rightarrow> False | Some ip \<Rightarrow> IsBlocked (srv_targetChecker s) ip) (m_Answer resp)
      then Some (log_traffic (LogBlock (q_Name q) ''dns_rebinding'' source (q_Qtype q)) (count_blocked s),
                 buildErrorResponse D r RcodeServerFailure)
      else None)"

definition log_passive ::
  "('t, 'time) dns_env \<Rightarrow> ('t, 'time) Server \<Rightarrow> string \<Rightarrow> ('t, 'time) Server" where
  "log_passive V s name =
     (if mc_active (srv_mode s) then s
      else s\<lparr>srv_mode := Mode_LogDomain (env_E V) (env_clock V) (env_now V) (env_io V) (srv_mode s) ''DNS'' name\<rparr>)"

text \<open>The part of \<open>ServeDNS\<close> from the upstream exchange to the end.\<close>

definition forward_query ::
  "('t, 'time) dns_env \<Rightarrow> ('t, 'time) Server \<Rightarrow> Msg \<Rightarrow> Question \<Rightarrow> string \<Rightarrow> bool \<Rightarrow> ('t, 'time) Server \<times> Msg" where
  "forward_query V s r q source clientUsedTCP =
     (case DefaultResolver_Exchange (env_udp V) (env_tcp V) r (srv_upstream s) of
        Inl err \<Rightarrow> (s, buildErrorResponse (env_D V) r RcodeServerFailure)
      | Inr None \<Rightarrow> (s, buildErrorResponse (env_D V) r RcodeServerFailure)
      | Inr (Some resp) \<Rightarrow>
          if clientUsedTCP \<and> m_Truncated resp then (s, buildErrorResponse (env_D V) r RcodeServerFailure)
          else (case checkRebinding (env_D V) s r resp q source of
                  Some res \<Rightarrow> res
                | None \<Rightarrow>
                    (log_traffic (LogAllow (q_Name q) source (q_Qtype q)) (count_allowed s),
                     prepareResponse (env_D V) resp r clientUsedTCP)))"

definition ServeDNS ::
  "('t, 'time) dns_env \<Rightarrow> ('t, 'time) Server \<Rightarrow> Msg \<Rightarrow> string \<Rightarrow> bool \<Rightarrow>
   ('t, 'time) Server \<times> Msg \<times> (Msg \<times> string) list" where
  "ServeDNS V s r source clientUsedTCP =
     (case m_Question r of
        [] \<Rightarrow> (s, buildErrorResponse (env_D V) r RcodeFormatError, [])
      | q # _ \<Rightarrow>
          (let s1 = count_total s in
           case handleHealthcheck (env_D V) s1 r q of
             Some (s2, resp) \<Rightarrow> (s2, resp, [])
           | None \<Rightarrow>
               (let s2 = log_passive V s1 (q_Name q); active = mc_active (srv_mode s2) in
                if active \<and> q_Qtype q \<noteq> TypeA \<and> q_Qtype q \<noteq> TypeAAAA then
                  (log_traffic (LogBlock (q_Name q) ''qtype_not_allowed'' source (q_Qtype q)) (count_blocked s2),
                   (SetReply (env_D V) r)\<lparr>m_Authoritative := True\<rparr>, [])
                else
                  (let explicitlyAllowed = Filter_IsAllowed (env_E V) (env_R V) (srv_filter s2) (q_Name q);
                       allowed = explicitlyAllowed \<or> \<not> active
                   in if \<not> allowed then
                        (log_traffic (LogBlock (q_Name q) ''not_in_allowlist'' source (q_Qtype q)) (count_blocked s2),
                         buildErrorResponse (env_D V) r RcodeNameError, [])
                      else
                        (case forward_query V s2 r q source clientUsedTCP of
                           (s3, resp) \<Rightarrow> (s3, resp, [(r, srv_upstream s2)]))))))"

section \<open>Status\<close>

record DNSStatus =
  ds_Mode :: string
  ds_Domains :: "32 word"
  ds_Total :: u64
  ds_Allowed :: u64
  ds_Blocked :: u64
  ds_Port :: "32 word"

definition GetStats :: "('t, 'time) Server \<Rightarrow> Stats" where
  "GetStats s = srv_stats s"

definition DNS_Status :: "'t radix_ops \<Rightarrow> ('t, 'time) Server \<Rightarrow> DNSStatus" where
  "DNS_Status R s =
     \<lparr>ds_Mode = GetMode (srv_mode s), ds_Domains = word_of_nat (Filter_Count R (srv_filter s)),
      ds_Total = TotalQueries (GetStats s), ds_Allowed = AllowedQueries (GetStats s),
      ds_Blocked = BlockedQueries (GetStats s), ds_Port = word_of_int (mc_port (srv_mode s))\<rparr>"

section \<open>What the library promises\<close>

text \<open>
  \<open>SetEdns0\<close> appends an OPT record to the additional section and changes nothing else.
  \<open>SetReply\<close> makes a response to the request without answers and without the AD flag.
\<close>

locale dns_lib =
  fixes D :: dns_ops
  assumes set_edns: "SetEdns0 D m sz do = m\<lparr>m_Extra := m_Extra m @ [RR_OPT sz do]\<rparr>"
    and reply: "m_Id (SetReply D r) = m_Id r" "m_Response (SetReply D r)" "\<not> m_AuthenticatedData (SetReply D r)"
      "m_Answer (SetReply D r) = []"
begin

lemma setEdns0_fields:
  "m_Id (dns_setEdns0 D m req) = m_Id m" "m_Response (dns_setEdns0 D m req) = m_Response m"
  "m_AuthenticatedData (dns_setEdns0 D m req) = m_AuthenticatedData m"
  "m_Answer (dns_setEdns0 D m req) = m_Answer m" "m_Ns (dns_setEdns0 D m req) = m_Ns m"
  "m_Truncated (dns_setEdns0 D m req) = m_Truncated m" "m_Rcode (dns_setEdns0 D m req) = m_Rcode m"
  by (simp_all add: dns_setEdns0_def Let_def set_edns split: option.splits prod.splits)

lemma setEdns0_OPT:
  "List.filter is_OPT (m_Extra (dns_setEdns0 D m req)) =
     (case IsEdns0 D req of None \<Rightarrow> [] | Some (_, do) \<Rightarrow> [RR_OPT ednsBufferSize do])"
  by (auto simp: dns_setEdns0_def Let_def set_edns split: option.splits prod.splits)

lemma error_fields:
  "m_Id (buildErrorResponse D r rc) = m_Id r" "m_Response (buildErrorResponse D r rc)"
  "\<not> m_AuthenticatedData (buildErrorResponse D r rc)" "m_Answer (buildErrorResponse D r rc) = []"
  by (simp_all add: buildErrorResponse_def setEdns0_fields new_Msg_def)

lemma prepare_fields:
  "m_Id (prepareResponse D resp r tcp) = m_Id r" "m_Response (prepareResponse D resp r tcp)"
  "\<not> m_AuthenticatedData (prepareResponse D resp r tcp)"
  "m_Answer (prepareResponse D resp r tcp) = m_Answer resp \<or> m_Answer (prepareResponse D resp r tcp) = []"
  by (simp_all add: prepareResponse_def Let_def setEdns0_fields buildCleanResponse_def new_Msg_def)

lemma prepare_size:
  "tcp \<or> Msg_Len D (prepareResponse D resp r tcp) \<le> unat (client_max D r)
   \<or> m_Truncated (prepareResponse D resp r tcp) \<and> m_Answer (prepareResponse D resp r tcp) = []
     \<and> m_Ns (prepareResponse D resp r tcp) = [] \<and> length (m_Extra (prepareResponse D resp r tcp)) \<le> 1"
proof -
  let ?c = "dns_setEdns0 D (buildCleanResponse resp r) r"
  let ?t = "dns_setEdns0 D (?c\<lparr>m_Truncated := True, m_Answer := [], m_Ns := [], m_Extra := []\<rparr>) r"
  have "length (m_Extra ?t) \<le> 1"
    by (simp add: dns_setEdns0_def Let_def set_edns split: option.splits prod.splits)
  moreover have "m_Truncated ?t" "m_Answer ?t = []" "m_Ns ?t = []" by (simp_all add: setEdns0_fields)
  ultimately show ?thesis
    by (cases "\<not> tcp \<and> Msg_Len D ?c > unat (client_max D r)") (auto simp: prepareResponse_def Let_def)
qed

end

text \<open>The library's functions as the contract has them, for the witnesses.\<close>

definition ref_dns :: dns_ops where
  "ref_dns = \<lparr>IsEdns0 = (\<lambda>m. case List.filter is_OPT (m_Extra m) of RR_OPT sz do # _ \<Rightarrow> Some (sz, do) | _ \<Rightarrow> None),
     SetEdns0 = (\<lambda>m sz do. m\<lparr>m_Extra := m_Extra m @ [RR_OPT sz do]\<rparr>),
     Msg_Len = (\<lambda>m. 12 + 32 * (length (m_Question m) + length (m_Answer m) + length (m_Ns m) + length (m_Extra m))),
     SetReply = (\<lambda>r. new_Msg\<lparr>m_Id := m_Id r, m_Response := True, m_RecursionDesired := m_RecursionDesired r,
       m_Question := take 1 (m_Question r)\<rparr>)\<rparr>"

interpretation ref_lib: dns_lib ref_dns
  by unfold_locales (simp_all add: ref_dns_def new_Msg_def)

section \<open>Steps of the server\<close>

lemma server_simps [simp]:
  "srv_mode (count_total s) = srv_mode s" "srv_filter (count_total s) = srv_filter s"
  "srv_upstream (count_total s) = srv_upstream s" "srv_targetChecker (count_total s) = srv_targetChecker s"
  "srv_traffic (count_total s) = srv_traffic s"
  "srv_mode (count_allowed s) = srv_mode s" "srv_traffic (count_allowed s) = srv_traffic s"
  "srv_mode (count_blocked s) = srv_mode s" "srv_traffic (count_blocked s) = srv_traffic s"
  "srv_stats (log_traffic e s) = srv_stats s" "srv_mode (log_traffic e s) = srv_mode s"
  "srv_traffic (log_traffic e s) = map_option (\<lambda>l. l @ [e]) (srv_traffic s)"
  by (simp_all add: count_total_def count_allowed_def count_blocked_def log_traffic_def)

lemma stats_simps [simp]:
  "srv_stats (count_total s) = (srv_stats s)\<lparr>TotalQueries := TotalQueries (srv_stats s) + 1\<rparr>"
  "srv_stats (count_allowed s) = (srv_stats s)\<lparr>AllowedQueries := AllowedQueries (srv_stats s) + 1\<rparr>"
  "srv_stats (count_blocked s) = (srv_stats s)\<lparr>BlockedQueries := BlockedQueries (srv_stats s) + 1\<rparr>"
  by (simp_all add: count_total_def count_allowed_def count_blocked_def)

lemma Mode_LogDomain_active [simp]: "mc_active (Mode_LogDomain E T now io m src dn) = mc_active m"
  by (simp add: Mode_LogDomain_def split: option.splits)

lemma log_passive_simps [simp]:
  "mc_active (srv_mode (log_passive V s n)) = mc_active (srv_mode s)"
  "srv_filter (log_passive V s n) = srv_filter s" "srv_upstream (log_passive V s n) = srv_upstream s"
  "srv_targetChecker (log_passive V s n) = srv_targetChecker s" "srv_stats (log_passive V s n) = srv_stats s"
  "srv_traffic (log_passive V s n) = srv_traffic s"
  by (simp_all add: log_passive_def)

text \<open>The ways a call can go.\<close>

lemma ServeDNS_cases:
  assumes "ServeDNS V s r source tcp = (s', resp, fwd)"
  obtains (malformed) "m_Question r = []" "s' = s" "fwd = []" "resp = buildErrorResponse (env_D V) r RcodeFormatError"
  | (healthcheck) q rest where "m_Question r = q # rest" "EqualFold (q_Name q) HealthcheckDomain" "fwd = []"
      "handleHealthcheck (env_D V) (count_total s) r q = Some (s', resp)"
  | (refused) q rest reason where "m_Question r = q # rest" "mc_active (srv_mode s)" "fwd = []"
      "\<not> EqualFold (q_Name q) HealthcheckDomain"
      "s' = log_traffic (LogBlock (q_Name q) reason source (q_Qtype q)) (count_blocked (count_total s))"
      "resp = (SetReply (env_D V) r)\<lparr>m_Authoritative := True\<rparr> \<or> resp = buildErrorResponse (env_D V) r RcodeNameError"
  | (forwarded) q rest where "m_Question r = q # rest" "\<not> EqualFold (q_Name q) HealthcheckDomain"
      "fwd = [(r, srv_upstream s)]"
      "mc_active (srv_mode s) \<longrightarrow> q_Qtype q \<in> {TypeA, TypeAAAA} \<and> Filter_IsAllowed (env_E V) (env_R V) (srv_filter s) (q_Name q)"
      "forward_query V (log_passive V (count_total s) (q_Name q)) r q source tcp = (s', resp)"
proof (cases "m_Question r")
  case Nil
  with assms malformed show ?thesis by (simp add: ServeDNS_def)
next
  case (Cons q rest)
  show ?thesis
  proof (cases "EqualFold (q_Name q) HealthcheckDomain")
    case True
    with assms Cons show ?thesis
      by (intro healthcheck [OF Cons True]) (auto simp: ServeDNS_def handleHealthcheck_def Let_def)
  next
    case hc: False
    then have none: "handleHealthcheck (env_D V) (count_total s) r q = None" by (simp add: handleHealthcheck_def)
    have lp: "mc_active (srv_mode s) \<Longrightarrow> log_passive V (count_total s) (q_Name q) = count_total s"
      by (simp add: log_passive_def)
    show ?thesis
      using assms Cons hc none lp refused [OF Cons _ _ hc] forwarded [OF Cons hc]
      by (auto simp: ServeDNS_def Let_def split: if_splits prod.splits)
  qed
qed

lemma client_cap: "(if ednsBufferSize < n then ednsBufferSize else n) \<le> ednsBufferSize"
  by (cases "ednsBufferSize < n") simp_all

lemma checkRebinding_None:
  "checkRebinding D s r up q source = None \<longleftrightarrow>
     (\<forall>rr\<in>set (m_Answer up). \<forall>ip. answer_ip rr = Some ip \<longrightarrow> \<not> IsBlocked (srv_targetChecker s) ip)"
proof -
  have "(case answer_ip rr of None \<Rightarrow> False | Some ip \<Rightarrow> IsBlocked t ip) \<longleftrightarrow> (\<exists>ip. answer_ip rr = Some ip \<and> IsBlocked t ip)" for rr t
    by (cases "answer_ip rr") auto
  then show ?thesis by (auto simp: checkRebinding_def list_ex_iff)
qed

lemma checkRebinding_Some:
  "checkRebinding D s r up q source = Some x \<Longrightarrow>
   x = (log_traffic (LogBlock (q_Name q) ''dns_rebinding'' source (q_Qtype q)) (count_blocked s),
        buildErrorResponse D r RcodeServerFailure)"
  by (simp add: checkRebinding_def split: if_splits)

text \<open>The ways a forwarded query can end.\<close>

lemma forward_cases:
  assumes "forward_query V s r q source tcp = (s', resp)"
  obtains (failed) "s' = s" "resp = buildErrorResponse (env_D V) r RcodeServerFailure"
  | (rebinding) "s' = log_traffic (LogBlock (q_Name q) ''dns_rebinding'' source (q_Qtype q)) (count_blocked s)"
      "resp = buildErrorResponse (env_D V) r RcodeServerFailure"
  | (answered) up where "s' = log_traffic (LogAllow (q_Name q) source (q_Qtype q)) (count_allowed s)"
      "resp = prepareResponse (env_D V) up r tcp"
      "\<forall>rr\<in>set (m_Answer up). \<forall>ip. answer_ip rr = Some ip \<longrightarrow> \<not> IsBlocked (srv_targetChecker s) ip"
proof -
  have *: thesis if "s' = s \<and> resp = buildErrorResponse (env_D V) r RcodeServerFailure" using that failed by blast
  show thesis
  proof (cases "DefaultResolver_Exchange (env_udp V) (env_tcp V) r (srv_upstream s)")
    case (Inr o')
    show thesis
    proof (cases o')
      case (Some up)
      show thesis
      proof (cases "checkRebinding (env_D V) s r up q source")
        case None
        then show thesis
          using assms Inr Some * answered [of up] checkRebinding_None [of "env_D V" s r up q source]
          by (auto simp: forward_query_def split: if_splits)
      next
        case (Some x)
        then show thesis
          using assms Inr \<open>o' = Some up\<close> * rebinding checkRebinding_Some [OF Some]
          by (auto simp: forward_query_def split: if_splits)
      qed
    qed (use assms Inr * in \<open>simp add: forward_query_def\<close>)
  qed (use assms * in \<open>simp add: forward_query_def\<close>)
qed

section \<open>Properties\<close>

text \<open>
  C6 (safety). In active mode a query leaves the host only if it asks for an A or AAAA record of
  a name that the allowlist allows; it goes to the configured upstream and nowhere else.
\<close>

theorem ServeDNS_forwards_allowed_only:
  assumes "ServeDNS V s r source tcp = (s', resp, fwd)" and "mc_active (srv_mode s)" and "fwd \<noteq> []"
  shows "\<exists>q rest. m_Question r = q # rest \<and> q_Qtype q \<in> {TypeA, TypeAAAA}
     \<and> Filter_IsAllowed (env_E V) (env_R V) (srv_filter s) (q_Name q) \<and> fwd = [(r, srv_upstream s)]"
  using assms(1)
proof (cases rule: ServeDNS_cases)
  case (forwarded q rest)
  with assms(2) show ?thesis by blast
qed (use assms(3) in simp_all)

fun rr_addr :: "RR \<Rightarrow> IP option" where
  "rr_addr (RR_A _ ip) = Some ip"
| "rr_addr (RR_AAAA _ ip) = Some ip"
| "rr_addr _ = None"

lemma answer_ip_addr: "rr_addr rr = Some ip \<Longrightarrow> answer_ip rr = Some (IP_String ip)"
  by (cases rr) simp_all

text \<open>
  C7 (safety). Rebinding protection: in both modes, no answer that comes from the upstream gives
  the guest a dangerous address, unless the operator listed a network that contains it.
\<close>

theorem ServeDNS_no_rebinding:
  assumes "dns_lib (env_D V)" and "ServeDNS V s r source tcp = (s', resp, fwd)" and "fwd \<noteq> []"
    and "rr \<in> set (m_Answer resp)" and "rr_addr rr = Some ip" and "length ip = 4 \<or> length ip = 16"
    and "dangerousIP (the (To16 ip))"
  shows "\<exists>tc n. srv_targetChecker s = Some tc \<and> n \<in> set (tc_allowed tc) \<and> IPNet_Contains n (the (To16 ip))"
  using assms(2)
proof (cases rule: ServeDNS_cases)
  case (forwarded q rest)
  from forwarded(5) show ?thesis
  proof (cases rule: forward_cases)
    case (answered up)
    have "rr \<in> set (m_Answer up)"
      using assms(4) dns_lib.prepare_fields(4) [OF assms(1), of up r tcp] answered(2) by auto
    then have "\<not> IsBlocked (srv_targetChecker s) (IP_String ip)"
      using answered(3) answer_ip_addr [OF assms(5)] by simp
    moreover have "To16 ip \<noteq> None" using assms(6) by (auto simp: To16_def)
    ultimately show ?thesis
      using assms(7) parseHostIP_String [OF assms(6)]
      by (auto simp: IsBlocked_def list_ex_iff split: option.splits)
  qed (use assms(4) dns_lib.error_fields(4) [OF assms(1)] in simp_all)
qed (use assms(3) in simp_all)

text \<open>
  Accounting: a query with a question adds one to the total and at most one to
  the allowed and blocked counters together (modulo \<open>2 ^ 64\<close>); a blocked query is logged once as
  blocked, an allowed one once as allowed unless it is the health check, and a query that is
  neither is answered with a server failure and not logged.
\<close>

theorem ServeDNS_accounting:
  assumes "dns_lib (env_D V)" and "ServeDNS V s r source tcp = (s', resp, fwd)" and "m_Question r = q # rest"
  shows "TotalQueries (srv_stats s') = TotalQueries (srv_stats s) + 1
    \<and> (AllowedQueries (srv_stats s') = AllowedQueries (srv_stats s) + 1 \<and> BlockedQueries (srv_stats s') = BlockedQueries (srv_stats s)
         \<and> srv_traffic s' = (if EqualFold (q_Name q) HealthcheckDomain then srv_traffic s
             else map_option (\<lambda>l. l @ [LogAllow (q_Name q) source (q_Qtype q)]) (srv_traffic s))
       \<or> AllowedQueries (srv_stats s') = AllowedQueries (srv_stats s) \<and> BlockedQueries (srv_stats s') = BlockedQueries (srv_stats s) + 1
         \<and> (\<exists>reason. srv_traffic s' = map_option (\<lambda>l. l @ [LogBlock (q_Name q) reason source (q_Qtype q)]) (srv_traffic s))
       \<or> AllowedQueries (srv_stats s') = AllowedQueries (srv_stats s) \<and> BlockedQueries (srv_stats s') = BlockedQueries (srv_stats s)
         \<and> srv_traffic s' = srv_traffic s \<and> m_Rcode resp = RcodeServerFailure)"
  using assms(2)
proof (cases rule: ServeDNS_cases)
  case (healthcheck q' rest')
  then show ?thesis using assms(3) by (auto simp: handleHealthcheck_def Let_def)
next
  case (refused q' rest' reason)
  then show ?thesis using assms(3) by auto
next
  case (forwarded q' rest')
  have q: "q' = q" using forwarded(1) assms(3) by simp
  have rc: "m_Rcode (buildErrorResponse (env_D V) r RcodeServerFailure) = RcodeServerFailure"
    by (simp add: buildErrorResponse_def dns_lib.setEdns0_fields [OF assms(1)])
  from forwarded(5) show ?thesis
    by (cases rule: forward_cases) (use q rc forwarded(2) in auto)
qed (use assms(3) in simp)

text \<open>
  Every response carries the identifier of the request, is marked as a response
  and never has the AD flag, whatever the upstream claims; and a response to a UDP client that
  is forwarded from the upstream and has answers fits the client's buffer, which counts for at
  most 1232 bytes.
\<close>

theorem ServeDNS_response_form:
  assumes "dns_lib (env_D V)" and "ServeDNS V s r source tcp = (s', resp, fwd)"
  shows "m_Id resp = m_Id r \<and> m_Response resp \<and> \<not> m_AuthenticatedData resp
    \<and> (tcp \<or> m_Answer resp = [] \<or> fwd = []
        \<or> Msg_Len (env_D V) resp \<le> unat (client_max (env_D V) r) \<and> client_max (env_D V) r \<le> ednsBufferSize)"
  using assms(2)
proof (cases rule: ServeDNS_cases)
  case (healthcheck q rest)
  then show ?thesis
    using dns_lib.reply [OF assms(1)] by (auto simp: handleHealthcheck_def Let_def split: if_splits)
next
  case (refused q rest reason)
  then show ?thesis
    using dns_lib.reply [OF assms(1)] dns_lib.error_fields [OF assms(1)] by auto
next
  case (forwarded q rest)
  have "client_max (env_D V) r \<le> ednsBufferSize"
    unfolding client_max_def Let_def by (rule client_cap)
  note max = this
  from forwarded(5) show ?thesis
  proof (cases rule: forward_cases)
    case (answered up)
    then show ?thesis
      using max dns_lib.prepare_fields(1-3) [OF assms(1)] dns_lib.prepare_size [OF assms(1), of tcp up r] by auto
  qed (use dns_lib.error_fields [OF assms(1)] in simp_all)
next
  case malformed
  then show ?thesis using dns_lib.error_fields [OF assms(1)] by simp
qed

text \<open>A server with one allowed domain and an upstream that answers with a public address.\<close>

definition demo_query :: "string \<Rightarrow> Msg" where
  "demo_query name = new_Msg\<lparr>m_Id := 7, m_Question := [\<lparr>q_Name = name, q_Qtype = TypeA\<rparr>]\<rparr>"

definition demo_answer :: "IP \<Rightarrow> Msg" where
  "demo_answer ip = new_Msg\<lparr>m_Id := 7, m_Response := True, m_AuthenticatedData := True,
     m_Answer := [RR_A ''github.com.'' ip]\<rparr>"

definition demo_env :: "IP \<Rightarrow> (alist, nat) dns_env" where
  "demo_env ip = \<lparr>env_E = ref_ext, env_R = ref_radix, env_D = ref_dns, env_clock = ref_clock, env_now = 0, env_io = None,
     env_udp = (\<lambda>m a. Inr (Some (demo_answer ip))), env_tcp = (\<lambda>m a. Inl ''refused'')\<rparr>"

definition demo_server :: "IPNet list \<Rightarrow> (alist, nat) Server" where
  "demo_server ns = \<lparr>srv_mode = \<lparr>mc_active = True, mc_profile = None, mc_port = 53\<rparr>, srv_filter = demo_filter,
     srv_upstream = ''8.8.8.8:53'', srv_targetChecker = Some \<lparr>tc_allowed = ns\<rparr>,
     srv_stats = \<lparr>TotalQueries = 0, AllowedQueries = 0, BlockedQueries = 0\<rparr>, srv_traffic = Some []\<rparr>"

lemma demo_forwarded:
  "ServeDNS (demo_env ip) (demo_server ns) (demo_query ''github.com.'') ''guest'' False =
     (case forward_query (demo_env ip) (count_total (demo_server ns)) (demo_query ''github.com.'')
        \<lparr>q_Name = ''github.com.'', q_Qtype = TypeA\<rparr> ''guest'' False of (s, resp) \<Rightarrow> (s, resp, [(demo_query ''github.com.'', ''8.8.8.8:53'')]))"
proof -
  have "Filter_IsAllowed ref_ext ref_radix demo_filter ''github.com.''" by (simp add: demo_tree filter_eval)
  moreover have "\<not> EqualFold ''github.com.'' HealthcheckDomain" by (simp add: HealthcheckDomain_def go_eval)
  ultimately show ?thesis
    by (simp add: ServeDNS_def demo_query_def demo_server_def demo_env_def handleHealthcheck_def log_passive_def
        count_total_def Let_def split: prod.splits)
qed

theorem ServeDNS_forwards_allowed_only_witness:
  "Filter_IsAllowed ref_ext ref_radix demo_filter ''github.com.''"
proof -
  let ?r = "ServeDNS (demo_env [1, 1, 1, 1]) (demo_server []) (demo_query ''github.com.'') ''guest'' False"
  have "?r = (fst ?r, fst (snd ?r), [(demo_query ''github.com.'', ''8.8.8.8:53'')])"
    by (simp add: demo_forwarded split: prod.splits)
  from ServeDNS_forwards_allowed_only [OF this] show ?thesis
    by (simp add: demo_server_def demo_query_def demo_env_def)
qed

text \<open>The metadata address, permitted by the operator: the answer is delivered.\<close>

definition meta_ip :: IP where "meta_ip = [169, 254, 169, 254]"

definition meta_net :: IPNet where
  "meta_net = \<lparr>net_IP = [169, 254, 169, 254], net_Mask = [255, 255, 255, 255]\<rparr>"

lemma meta_facts:
  "To16 meta_ip = Some (IPv4 169 254 169 254)" "dangerousIP (IPv4 169 254 169 254)"
  "IPNet_Contains meta_net (IPv4 169 254 169 254)" "\<not> IsBlocked (Some \<lparr>tc_allowed = [meta_net]\<rparr>) (IP_String meta_ip)"
proof -
  show t: "To16 meta_ip = Some (IPv4 169 254 169 254)" by (simp add: meta_ip_def To16_def IPv4_def)
  show "dangerousIP (IPv4 169 254 169 254)" by (simp add: dangerousIP_v4 dangerous_v4_def)
  show c: "IPNet_Contains meta_net (IPv4 169 254 169 254)" by (simp add: meta_net_def IPNet_Contains_v4)
  show "\<not> IsBlocked (Some \<lparr>tc_allowed = [meta_net]\<rparr>) (IP_String meta_ip)"
    using t c parseHostIP_String [of meta_ip] by (simp add: IsBlocked_def) (simp add: meta_ip_def)
qed

lemma demo_meta:
  "ServeDNS (demo_env meta_ip) (demo_server [meta_net]) (demo_query ''github.com.'') ''guest'' False =
     (log_traffic (LogAllow ''github.com.'' ''guest'' TypeA) (count_allowed (count_total (demo_server [meta_net]))),
      buildCleanResponse (demo_answer meta_ip) (demo_query ''github.com.''), [(demo_query ''github.com.'', ''8.8.8.8:53'')])"
proof -
  let ?d = "demo_answer meta_ip" and ?q = "demo_query ''github.com.''"
  have "DefaultResolver_Exchange (env_udp (demo_env meta_ip)) (env_tcp (demo_env meta_ip)) ?q a = Inr (Some ?d)" for a
    by (simp add: DefaultResolver_Exchange_def demo_env_def demo_answer_def new_Msg_def)
  moreover have "checkRebinding ref_dns (count_total (demo_server [meta_net])) ?q ?d q src = None" for q src
    using meta_facts(4) by (simp add: checkRebinding_def demo_answer_def demo_server_def)
  moreover have "prepareResponse ref_dns ?d ?q False = buildCleanResponse ?d ?q"
    by (simp add: prepareResponse_def dns_setEdns0_def ref_dns_def demo_query_def demo_answer_def new_Msg_def
        buildCleanResponse_def client_max_def ednsBufferSize_def Let_def)
  ultimately show ?thesis
    by (simp add: demo_forwarded forward_query_def) (simp add: demo_env_def demo_answer_def)
qed

lemma demo_lib: "dns_lib (env_D (demo_env ip))"
  using ref_lib.dns_lib_axioms by (simp add: demo_env_def)

theorem ServeDNS_no_rebinding_witness:
  "\<exists>tc n. srv_targetChecker (demo_server [meta_net]) = Some tc \<and> n \<in> set (tc_allowed tc)
     \<and> IPNet_Contains n (the (To16 meta_ip))"
  by (rule ServeDNS_no_rebinding [OF demo_lib demo_meta, where rr = "RR_A ''github.com.'' meta_ip"])
    (simp_all add: buildCleanResponse_def demo_answer_def meta_facts(1,2), simp add: meta_ip_def)

theorem ServeDNS_accounting_witness:
  "TotalQueries (srv_stats (fst (ServeDNS (demo_env meta_ip) (demo_server [meta_net]) (demo_query ''github.com.'') ''guest'' False))) = 1"
proof -
  have q: "m_Question (demo_query ''github.com.'') = \<lparr>q_Name = ''github.com.'', q_Qtype = TypeA\<rparr> # []"
    by (simp add: demo_query_def)
  have "TotalQueries (srv_stats (demo_server [meta_net])) = 0" by (simp add: demo_server_def)
  then show ?thesis using ServeDNS_accounting [OF demo_lib demo_meta q] by (simp add: demo_meta)
qed

theorem ServeDNS_response_form_witness:
  "m_AuthenticatedData (demo_answer meta_ip)
   \<and> \<not> m_AuthenticatedData (fst (snd (ServeDNS (demo_env meta_ip) (demo_server [meta_net]) (demo_query ''github.com.'') ''guest'' False)))"
  using ServeDNS_response_form [OF demo_lib demo_meta] by (simp add: demo_meta) (simp add: demo_answer_def)

end
