(* ===== verification/Go_Path.thy ===== *)
theory Go_Path
  imports Go_Text
begin

text \<open>
  Slash-separated paths: \<open>path.Clean\<close>, which \<open>filepath.Clean\<close> is on Unix, \<open>filepath.Join\<close>,
  \<open>filepath.IsAbs\<close>, \<open>filepath.Rel\<close>, \<open>filepath.Base\<close> and \<open>filepath.Dir\<close>. A rooted path is determined by the list of its
  segments; the lemmas translate the operations on the text into operations on that list.
\<close>

section \<open>Operations\<close>

text \<open>\<open>path.Clean\<close>: the segments, with \<open>..\<close> taking the last one away.\<close>

definition clean_step :: "bool \<Rightarrow> string list \<Rightarrow> string \<Rightarrow> string list" where
  "clean_step rooted st seg =
     (if seg = [] \<or> seg = ''.'' then st
      else if seg = ''..'' then
        (case st of
           [] \<Rightarrow> if rooted then [] else [''..'']
         | seg' # rest \<Rightarrow> if seg' = ''..'' then ''..'' # st else rest)
      else seg # st)"

definition clean_segments :: "bool \<Rightarrow> string \<Rightarrow> string list" where
  "clean_segments rooted p = rev (foldl (clean_step rooted) [] (Split p CHR ''/''))"

definition path_Clean :: "string \<Rightarrow> string" where
  "path_Clean p =
     (if p = [] then ''.''
      else if hd p = CHR ''/'' then CHR ''/'' # Join (clean_segments True p) ''/''
      else (let out = Join (clean_segments False p) ''/'' in if out = [] then ''.'' else out))"

definition IsAbs :: "string \<Rightarrow> bool" where
  [go_eval]: "IsAbs p = HasPrefix p ''/''"

definition filepath_Join :: "string list \<Rightarrow> string" where
  "filepath_Join elems =
     (case dropWhile (\<lambda>e. e = []) elems of
        [] \<Rightarrow> []
      | es \<Rightarrow> path_Clean (Join es ''/''))"

text \<open>The words between the separators, as the two indices of \<open>filepath.Rel\<close> visit them.\<close>

definition rel_words :: "string \<Rightarrow> string list" where
  "rel_words p = (if p = [] then [] else if p = ''/'' then [[]] else Split p CHR ''/'')"

fun strip_common :: "string list \<Rightarrow> string list \<Rightarrow> string list \<times> string list" where
  "strip_common (b # bs) (t # ts) = (if b = t then strip_common bs ts else (b # bs, t # ts))"
| "strip_common bs ts = (bs, ts)"

definition filepath_Rel :: "string \<Rightarrow> string \<Rightarrow> string option" where
  "filepath_Rel basepath targpath =
     (let base = path_Clean basepath; targ = path_Clean targpath in
      if targ = base then Some ''.''
      else
        (let base = (if base = ''.'' then [] else base) in
         if IsAbs base \<noteq> IsAbs targ then None
         else
           (case strip_common (rel_words base) (rel_words targ) of (bs, ts) \<Rightarrow>
              if bs \<noteq> [] \<and> hd bs = ''..'' \<and> ts \<noteq> [] then None
              else Some (Join (map (\<lambda>_. ''..'') bs @ ts) ''/''))))"

text \<open>\<open>filepath.Base\<close> and \<open>filepath.Dir\<close>.\<close>

definition filepath_Base :: "string \<Rightarrow> string" where
  "filepath_Base p =
     (if p = [] then ''.''
      else (let q = rev (dropWhile (\<lambda>c. c = CHR ''/'') (rev p)) in
            if q = [] then ''/'' else rev (takeWhile (\<lambda>c. c \<noteq> CHR ''/'') (rev q))))"

definition filepath_Dir :: "string \<Rightarrow> string" where
  "filepath_Dir p = path_Clean (rev (dropWhile (\<lambda>c. c \<noteq> CHR ''/'') (rev p)))"

section \<open>Segments\<close>

definition seg_ok :: "string \<Rightarrow> bool" where
  "seg_ok s \<longleftrightarrow> s \<noteq> [] \<and> CHR ''/'' \<notin> set s"

lemma first_slash_eq:
  "CHR ''/'' \<notin> set a \<Longrightarrow> CHR ''/'' \<notin> set b \<Longrightarrow> a @ CHR ''/'' # x = b @ CHR ''/'' # y \<longleftrightarrow> a = b \<and> x = y"
proof (induction a arbitrary: b)
  case Nil
  then show ?case by (cases b) auto
next
  case (Cons c a)
  then show ?case by (cases b) auto
qed

lemma first_slash_prefix:
  "CHR ''/'' \<notin> set a \<Longrightarrow> CHR ''/'' \<notin> set b \<Longrightarrow>
   prefix (a @ CHR ''/'' # x) (b @ CHR ''/'' # y) \<longleftrightarrow> a = b \<and> prefix x y"
proof (induction a arbitrary: b)
  case Nil
  then show ?case by (cases b) auto
next
  case (Cons c a)
  then show ?case by (cases b) auto
qed

lemma prefix_no_slash: "CHR ''/'' \<notin> set b \<Longrightarrow> \<not> prefix (a @ CHR ''/'' # x) b"
  by (auto simp: prefix_def)

lemma Join_prefix_segments:
  "ps \<noteq> [] \<Longrightarrow> list_all seg_ok ps \<Longrightarrow> list_all seg_ok cs \<Longrightarrow>
   Join cs ''/'' = Join ps ''/'' \<or> prefix (Join ps ''/'' @ ''/'') (Join cs ''/'') \<longleftrightarrow> prefix ps cs"
proof (induction ps arbitrary: cs)
  case (Cons a ps)
  have a: "a \<noteq> []" "CHR ''/'' \<notin> set a" using Cons.prems by (simp_all add: seg_ok_def)
  consider "cs = []" | c where "cs = [c]" | c d e where "cs = c # d # e" by (metis neq_Nil_conv)
  then show ?case
  proof cases
    case 1
    then show ?thesis using a by (cases ps) auto
  next
    case (2 c)
    then have c: "CHR ''/'' \<notin> set c" using Cons.prems by (simp add: seg_ok_def)
    then have "c \<noteq> a @ CHR ''/'' # x" for x by auto
    then show ?thesis using a 2 c prefix_no_slash [OF c] by (cases ps) auto
  next
    case (3 c d e)
    then have c: "CHR ''/'' \<notin> set c" using Cons.prems by (simp add: seg_ok_def)
    then have n: "c @ CHR ''/'' # x \<noteq> a" for x using a by auto
    show ?thesis
      using 3 a c n Cons.prems Cons.IH [of "d # e"] first_slash_eq [OF c a(2)] first_slash_prefix [OF a(2) c]
      by (cases ps) auto
  qed
qed simp

lemma clean_step_ok:
  "list_all (\<lambda>s. seg_ok s \<and> s \<noteq> ''..'' \<and> s \<noteq> ''.'') st \<Longrightarrow> CHR ''/'' \<notin> set seg \<Longrightarrow>
   list_all (\<lambda>s. seg_ok s \<and> s \<noteq> ''..'' \<and> s \<noteq> ''.'') (clean_step True st seg)"
  by (auto simp: clean_step_def seg_ok_def split: list.splits)

lemma clean_segments_ok: "list_all (\<lambda>s. seg_ok s \<and> s \<noteq> ''..'' \<and> s \<noteq> ''.'') (clean_segments True p)"
proof -
  have "list_all (\<lambda>s. seg_ok s \<and> s \<noteq> ''..'' \<and> s \<noteq> ''.'') (foldl (clean_step True) st segs)"
    if "\<forall>s\<in>set segs. CHR ''/'' \<notin> set s" "list_all (\<lambda>s. seg_ok s \<and> s \<noteq> ''..'' \<and> s \<noteq> ''.'') st" for segs st
    using that by (induction segs arbitrary: st) (simp_all add: clean_step_ok)
  then show ?thesis using Split_no_sep by (simp add: clean_segments_def list_all_rev)
qed

lemma last_Join_seg: "ps \<noteq> [] \<Longrightarrow> list_all seg_ok ps \<Longrightarrow> Join ps ''/'' \<noteq> [] \<and> last (Join ps ''/'') \<noteq> CHR ''/''"
proof (induction ps "''/''" rule: Join.induct)
  case (2 w)
  then show ?case using last_in_set [of w] by (auto simp: seg_ok_def simp del: last_in_set)
qed auto


text \<open>A clean rooted path.\<close>

definition normal_seg :: "string \<Rightarrow> bool" where
  "normal_seg s \<longleftrightarrow> seg_ok s \<and> s \<noteq> ''..'' \<and> s \<noteq> ''.''"

definition rooted :: "string list \<Rightarrow> string" where
  "rooted ss = CHR ''/'' # Join ss ''/''"

lemma clean_segments_normal: "list_all normal_seg (clean_segments True p)"
  using clean_segments_ok [of p] by (simp add: list_all_iff normal_seg_def)

lemma path_Clean_rooted: "HasPrefix p ''/'' \<Longrightarrow> path_Clean p = rooted (clean_segments True p)"
  by (cases p) (auto simp: path_Clean_def rooted_def)

lemma Split_append_sep: "Split (a @ c # b) c = Split a c @ Split b c"
proof (induction a)
  case (Cons x a)
  then show ?case by (cases "Split a c") auto
qed simp

lemma Split_Join_concat: "ws \<noteq> [] \<Longrightarrow> Split (Join ws [c]) c = concat (map (\<lambda>w. Split w c) ws)"
proof (induction ws)
  case (Cons w ws)
  then show ?case by (cases ws) (auto simp: Split_append_sep)
qed simp

lemma clean_step_normal: "normal_seg s \<Longrightarrow> clean_step r st s = s # st"
  by (simp add: clean_step_def normal_seg_def seg_ok_def)

lemma foldl_clean_normal: "list_all normal_seg ss \<Longrightarrow> foldl (clean_step r) st ss = rev ss @ st"
  by (induction ss arbitrary: st) (simp_all add: clean_step_normal)

lemma clean_step_empty [simp]: "clean_step r st [] = st"
  by (simp add: clean_step_def)

lemma normal_no_slash: "list_all normal_seg ss \<Longrightarrow> \<forall>s\<in>set ss. CHR ''/'' \<notin> set s"
  by (auto simp: list_all_iff normal_seg_def seg_ok_def)

lemma Split_rooted: "list_all normal_seg ss \<Longrightarrow> ss \<noteq> [] \<Longrightarrow> Split (rooted ss) CHR ''/'' = [] # ss"
  using Split_Join [of ss "CHR ''/''"] by (auto simp: rooted_def dest: normal_no_slash)

lemma clean_segments_rooted [simp]: "list_all normal_seg ss \<Longrightarrow> clean_segments True (rooted ss) = ss"
  by (cases "ss = []") (simp_all add: clean_segments_def Split_rooted foldl_clean_normal, simp add: rooted_def)

lemma clean_segments_atom: "normal_seg w \<Longrightarrow> Split w CHR ''/'' = [w]"
  by (simp add: normal_seg_def seg_ok_def Split_atom)

text \<open>Joining to a rooted path continues the climb from its segments.\<close>

lemma filepath_Join_abs:
  assumes "HasPrefix p ''/''"
  shows "filepath_Join (p # es) = rooted (rev (foldl (clean_step True) (rev (clean_segments True p)) (concat (map (\<lambda>w. Split w CHR ''/'') es))))"
proof -
  have p: "p \<noteq> []" using assms by auto
  moreover have "HasPrefix (Join (p # es) ''/'') ''/''" using assms p by (cases es; cases p) auto
  ultimately show ?thesis
    using Split_Join_concat [of "p # es" "CHR ''/''"]
    by (simp add: filepath_Join_def path_Clean_rooted clean_segments_def)
qed

lemma filepath_Join_rooted:
  "list_all normal_seg ss \<Longrightarrow> filepath_Join (rooted ss # es) =
     rooted (rev (foldl (clean_step True) (rev ss) (concat (map (\<lambda>w. Split w CHR ''/'') es))))"
  using filepath_Join_abs [of "rooted ss" es] by (simp add: rooted_def [of ss, symmetric]) (simp add: rooted_def)

lemma concat_Split_normal: "list_all normal_seg ns \<Longrightarrow> concat (map (\<lambda>w. Split w CHR ''/'') ns) = ns"
  by (induction ns) (simp_all add: clean_segments_atom)

lemma filepath_Join_normal:
  "HasPrefix p ''/'' \<Longrightarrow> list_all normal_seg ns \<Longrightarrow> filepath_Join (p # ns) = rooted (clean_segments True p @ ns)"
  by (simp add: filepath_Join_abs concat_Split_normal foldl_clean_normal)

lemma HasPrefix_rooted [simp]: "HasPrefix (rooted ss) ''/''"
  by (simp add: rooted_def)

lemma path_Clean_idem_rooted [simp]: "list_all normal_seg ss \<Longrightarrow> path_Clean (rooted ss) = rooted ss"
  by (simp add: path_Clean_rooted)

lemma rooted_inj: "list_all normal_seg as \<Longrightarrow> list_all normal_seg bs \<Longrightarrow> rooted as = rooted bs \<longleftrightarrow> as = bs"
  by (metis clean_segments_rooted)

lemma Join_append: "as \<noteq> [] \<Longrightarrow> Join (as @ ts) [c] = Join as [c] @ concat (map (\<lambda>t. c # t) ts)"
proof (induction as "[c]" rule: Join.induct)
  case (2 w)
  show ?case
  proof (induction ts arbitrary: w)
    case (Cons t ts)
    then show ?case by simp
  qed simp
qed auto

lemma rooted_append: "ss \<noteq> [] \<Longrightarrow> rooted (ss @ ts) = rooted ss @ concat (map (\<lambda>t. CHR ''/'' # t) ts)"
  by (simp add: rooted_def Join_append)

lemma strip_common_append: "strip_common bs (bs @ ts) = ([], ts)"
  by (induction bs) (cases ts, auto)

lemma strip_common_prefix: "fst (strip_common bs ts) = [] \<longleftrightarrow> prefix bs ts"
  by (induction bs ts rule: strip_common.induct) auto

lemma strip_common_snd: "suffix (snd (strip_common bs ts)) ts"
proof (induction bs ts rule: strip_common.induct)
  case (1 b bs t ts)
  then show ?case by (auto intro: suffix_ConsI)
qed auto

lemma strip_common_fst: "suffix (fst (strip_common bs ts)) bs"
proof (induction bs ts rule: strip_common.induct)
  case (1 b bs t ts)
  then show ?case by (auto intro: suffix_ConsI)
qed auto

text \<open>The containment test of the code: \<open>rel\<close> fails, is \<open>..\<close> or starts with \<open>../\<close>.\<close>

definition rel_escapes :: "string option \<Rightarrow> bool" where
  "rel_escapes r = (case r of None \<Rightarrow> True | Some rel \<Rightarrow> rel = ''..'' \<or> HasPrefix rel ''../'')"

lemma rel_words_rooted: "list_all normal_seg ss \<Longrightarrow> rel_words (rooted ss) = [] # ss"
proof (cases "ss = []")
  case False
  assume n: "list_all normal_seg ss"
  then have "rooted ss \<noteq> ''/''" using rooted_inj [of ss "[]"] False by (auto simp: rooted_def)
  then show ?thesis using Split_rooted [OF n False] by (simp add: rel_words_def) (simp add: rooted_def)
qed (simp add: rel_words_def rooted_def)

lemma Join_dotdot_prefix: "HasPrefix (Join (''..'' # ws) ''/'') ''../'' \<or> Join (''..'' # ws) ''/'' = ''..''"
  by (cases ws) auto

lemma normal_not_dotdot:
  assumes "list_all normal_seg ss"
  shows "Join ss ''/'' \<noteq> ''..'' \<and> \<not> HasPrefix (Join ss ''/'') ''../''"
proof (cases ss)
  case (Cons a as)
  then have a: "CHR ''/'' \<notin> set a" "a \<noteq> ''..''" using assms by (auto simp: normal_seg_def seg_ok_def)
  have "Split (Join ss ''/'') CHR ''/'' = ss" using Split_Join [of ss "CHR ''/''"] Cons normal_no_slash [OF assms] by simp
  moreover have "hd (Split s CHR ''/'') = ''..''" if "s = ''..'' \<or> HasPrefix s ''../''" for s
    using that Split_append [of "CHR ''/''" "''..''"] by (auto simp: HasPrefix_iff prefix_def)
  ultimately show ?thesis using a Cons by fastforce
qed simp

lemma rel_escapes_iff:
  assumes "list_all normal_seg bs" and "list_all normal_seg ts"
  shows "rel_escapes (filepath_Rel (rooted bs) (rooted ts)) \<longleftrightarrow> \<not> prefix bs ts"
proof (cases "ts = bs")
  case False
  have ne: "rooted bs \<noteq> ''.''" "IsAbs (rooted ss)" for ss by (auto simp: rooted_def IsAbs_def)
  obtain b t where s: "strip_common bs ts = (b, t)" by fastforce
  have suf: "suffix b bs" "suffix t ts" using strip_common_fst [of bs ts] strip_common_snd [of bs ts] s by auto
  then have n: "list_all normal_seg b" "list_all normal_seg t" using assms set_mono_suffix by (fastforce simp: list_all_iff)+
  then have h: "\<not> (b \<noteq> [] \<and> hd b = ''..'' \<and> t \<noteq> [])" by (cases b) (auto simp: normal_seg_def)
  have "filepath_Rel (rooted bs) (rooted ts) = Some (Join (map (\<lambda>_. ''..'') b @ t) ''/'')"
    using False assms ne s h rooted_inj [OF assms]
    by (simp add: filepath_Rel_def rel_words_rooted Let_def)
  moreover have "b = [] \<longleftrightarrow> prefix bs ts" using strip_common_prefix [of bs ts] s by simp
  ultimately show ?thesis
    using normal_not_dotdot [OF n(2)] Join_dotdot_prefix by (cases b) (auto simp: rel_escapes_def)
qed (use assms in \<open>simp add: filepath_Rel_def rel_escapes_def\<close>)

text \<open>A path lies in a directory when it is the directory or continues it after a separator.\<close>

definition within :: "string \<Rightarrow> string \<Rightarrow> bool" where
  "within d p \<longleftrightarrow> p = d \<or> HasPrefix p (d @ ''/'')"

lemma within_rooted:
  assumes "list_all normal_seg ds" and "ds \<noteq> []" and "list_all normal_seg ps"
  shows "within (rooted ds) (rooted ps) \<longleftrightarrow> prefix ds ps"
proof -
  have "list_all seg_ok ds" "list_all seg_ok ps" using assms by (auto simp: list_all_iff normal_seg_def)
  then show ?thesis using Join_prefix_segments [OF assms(2), of ps] by (auto simp: within_def rooted_def HasPrefix_iff)
qed

end
