(* ===== verification/Config_Paths.thy ===== *)
theory Config_Paths
  imports Go_Path Go_Net Validation "HOL-Library.Word"
begin

unbundle bit_operations_syntax

text \<open>
  \<^verbatim>\<open>internal/config/filesystem.go\<close> and the path resolution of \<^verbatim>\<open>internal/config/config.go\<close>.

  The configuration code reaches the operating system only through the interface
  \<open>FileSystem\<close>, a record of operations over an abstract state; the locale \<open>file_store\<close> states what
  the code relies on (what was written is what is read), and \<open>MockFileSystem\<close>, the in-memory
  implementation of the repository, provides it. What the process sees besides the file
  system (its uid, the temporary directory, the platform it was built for) is \<open>proc_env\<close>.
\<close>

section \<open>File systems\<close>

datatype os_error = ErrNotExist | ErrOther string

text \<open>\<open>fi_owner\<close> is the result of \<open>sysutil.FileOwner\<close>, \<open>None\<close> where ownership is unknown.\<close>

record FileInfo =
  fi_IsDir :: bool
  fi_Perm :: "32 word"
  fi_owner :: "nat option"

record DirEntry =
  de_Name :: string
  de_IsDir :: bool

record 'fs FileSystem =
  ReadFile :: "'fs \<Rightarrow> string \<Rightarrow> os_error + string"
  WriteFile :: "'fs \<Rightarrow> string \<Rightarrow> string \<Rightarrow> 32 word \<Rightarrow> 'fs \<times> os_error option"
  MkdirAll :: "'fs \<Rightarrow> string \<Rightarrow> 32 word \<Rightarrow> 'fs \<times> os_error option"
  Stat :: "'fs \<Rightarrow> string \<Rightarrow> os_error + FileInfo"
  ReadDir :: "'fs \<Rightarrow> string \<Rightarrow> os_error + DirEntry list"
  RemoveAll :: "'fs \<Rightarrow> string \<Rightarrow> 'fs \<times> os_error option"
  OpenFile :: "'fs \<Rightarrow> string \<Rightarrow> 32 word \<Rightarrow> 'fs \<times> (os_error + nat)"
  UserHomeDir :: "'fs \<Rightarrow> os_error + string"
  Getenv :: "'fs \<Rightarrow> string \<Rightarrow> string"

record MockFileSystem =
  Files :: "string \<rightharpoonup> string"
  Dirs :: "string \<Rightarrow> bool"
  DirEntries :: "string \<rightharpoonup> DirEntry list"
  HomeDir :: string
  EnvVars :: "string \<rightharpoonup> string"
  ReadFileErr :: "os_error option"
  WriteFileErr :: "os_error option"
  MkdirAllErr :: "os_error option"
  StatErr :: "os_error option"
  ReadDirErr :: "os_error option"
  RemoveAllErr :: "os_error option"
  OpenFileErr :: "os_error option"
  HomeDirErr :: "os_error option"

definition NewMockFileSystem :: MockFileSystem where
  "NewMockFileSystem =
     \<lparr>Files = Map.empty, Dirs = (\<lambda>_. False), DirEntries = Map.empty, HomeDir = ''/home/testuser'', EnvVars = Map.empty,
      ReadFileErr = None, WriteFileErr = None, MkdirAllErr = None, StatErr = None, ReadDirErr = None,
      RemoveAllErr = None, OpenFileErr = None, HomeDirErr = None\<rparr>"

definition Mock_ReadFile :: "MockFileSystem \<Rightarrow> string \<Rightarrow> os_error + string" where
  "Mock_ReadFile m path =
     (case ReadFileErr m of
        Some e \<Rightarrow> Inl e
      | None \<Rightarrow> (case Files m path of None \<Rightarrow> Inl ErrNotExist | Some data \<Rightarrow> Inr data))"

definition Mock_WriteFile :: "MockFileSystem \<Rightarrow> string \<Rightarrow> string \<Rightarrow> 32 word \<Rightarrow> MockFileSystem \<times> os_error option" where
  "Mock_WriteFile m path data perm =
     (case WriteFileErr m of
        Some e \<Rightarrow> (m, Some e)
      | None \<Rightarrow> (m\<lparr>Files := (Files m)(path \<mapsto> data)\<rparr>, None))"

definition Mock_MkdirAll :: "MockFileSystem \<Rightarrow> string \<Rightarrow> 32 word \<Rightarrow> MockFileSystem \<times> os_error option" where
  "Mock_MkdirAll m path perm =
     (case MkdirAllErr m of
        Some e \<Rightarrow> (m, Some e)
      | None \<Rightarrow> (m\<lparr>Dirs := (Dirs m)(path := True)\<rparr>, None))"

text \<open>The file information of the mock has mode 0644 and no owner.\<close>

definition mockFileInfo :: "bool \<Rightarrow> FileInfo" where
  "mockFileInfo isDir = \<lparr>fi_IsDir = isDir, fi_Perm = 420, fi_owner = None\<rparr>"

definition Mock_Stat :: "MockFileSystem \<Rightarrow> string \<Rightarrow> os_error + FileInfo" where
  "Mock_Stat m path =
     (case StatErr m of
        Some e \<Rightarrow> Inl e
      | None \<Rightarrow>
          if Files m path \<noteq> None then Inr (mockFileInfo False)
          else if Dirs m path then Inr (mockFileInfo True)
          else Inl ErrNotExist)"

definition Mock_ReadDir :: "MockFileSystem \<Rightarrow> string \<Rightarrow> os_error + DirEntry list" where
  "Mock_ReadDir m path =
     (case ReadDirErr m of
        Some e \<Rightarrow> Inl e
      | None \<Rightarrow> (case DirEntries m path of None \<Rightarrow> Inl ErrNotExist | Some es \<Rightarrow> Inr es))"

definition Mock_RemoveAll :: "MockFileSystem \<Rightarrow> string \<Rightarrow> MockFileSystem \<times> os_error option" where
  "Mock_RemoveAll m path =
     (case RemoveAllErr m of
        Some e \<Rightarrow> (m, Some e)
      | None \<Rightarrow> (m\<lparr>Files := (Files m)(path := None), Dirs := (Dirs m)(path := False)\<rparr>, None))"

definition Mock_OpenFile :: "MockFileSystem \<Rightarrow> string \<Rightarrow> 32 word \<Rightarrow> MockFileSystem \<times> (os_error + nat)" where
  "Mock_OpenFile m name perm = (m, case OpenFileErr m of Some e \<Rightarrow> Inl e | None \<Rightarrow> Inr 0)"

definition Mock_UserHomeDir :: "MockFileSystem \<Rightarrow> os_error + string" where
  "Mock_UserHomeDir m = (case HomeDirErr m of Some e \<Rightarrow> Inl e | None \<Rightarrow> Inr (HomeDir m))"

definition Mock_Getenv :: "MockFileSystem \<Rightarrow> string \<Rightarrow> string" where
  "Mock_Getenv m key = (case EnvVars m key of None \<Rightarrow> [] | Some v \<Rightarrow> v)"

definition mock_fs :: "MockFileSystem FileSystem" where
  "mock_fs =
     \<lparr>ReadFile = Mock_ReadFile, WriteFile = Mock_WriteFile, MkdirAll = Mock_MkdirAll, Stat = Mock_Stat,
      ReadDir = Mock_ReadDir, RemoveAll = Mock_RemoveAll, OpenFile = Mock_OpenFile,
      UserHomeDir = Mock_UserHomeDir, Getenv = Mock_Getenv\<rparr>"

lemmas mock_defs = mock_fs_def Mock_ReadFile_def Mock_WriteFile_def Mock_MkdirAll_def Mock_Stat_def Mock_ReadDir_def
  Mock_RemoveAll_def Mock_OpenFile_def Mock_UserHomeDir_def Mock_Getenv_def mockFileInfo_def NewMockFileSystem_def

text \<open>
  What the configuration relies on: after a successful write, a read of the same path can only return the
  data, and a write changes neither another file nor the environment.
\<close>

locale file_store =
  fixes F :: "'fs FileSystem"
  assumes read_written: "WriteFile F s p d m = (s', None) \<Longrightarrow> ReadFile F s' p = Inr x \<Longrightarrow> x = d"
    and write_env: "WriteFile F s p d m = (s', r) \<Longrightarrow>
      Getenv F s' = Getenv F s \<and> UserHomeDir F s' = UserHomeDir F s"
    and write_other: "WriteFile F s p d m = (s', r) \<Longrightarrow> q \<noteq> p \<Longrightarrow>
      ReadFile F s' q = ReadFile F s q \<and> Stat F s' q = Stat F s q"

interpretation mock: file_store mock_fs
proof
  fix s p d m s' r q x
  show "WriteFile mock_fs s p d m = (s', None) \<Longrightarrow> ReadFile mock_fs s' p = Inr x \<Longrightarrow> x = d"
    by (auto simp: mock_defs split: option.splits)
  show "WriteFile mock_fs s p d m = (s', r) \<Longrightarrow>
      Getenv mock_fs s' = Getenv mock_fs s \<and> UserHomeDir mock_fs s' = UserHomeDir mock_fs s"
    by (auto simp: mock_defs split: option.splits)
  show "WriteFile mock_fs s p d m = (s', r) \<Longrightarrow> q \<noteq> p \<Longrightarrow>
      ReadFile mock_fs s' q = ReadFile mock_fs s q \<and> Stat mock_fs s' q = Stat mock_fs s q"
    by (auto simp: mock_defs split: option.splits)
qed

section \<open>Directories\<close>

datatype goos = Linux | Darwin | OtherOS

record proc_env =
  Getuid :: nat
  TempDir :: string
  GOOS :: goos

datatype path_error =
    NoHome os_error
  | StorageNotAbs string
  | StorageTraversal string
  | NameTraversal
  | RuntimeMissing string
  | SecureMissing string
  | SecureStat os_error
  | SecureNotDir string
  | SecureWritable string
  | SecureOwnerUnknown string
  | SecureNotOwner string
  | SocketTooLong string
  | MkdirFailed string os_error

definition LibvirtImagesDir :: string where "LibvirtImagesDir = ''/var/lib/libvirt/images/abox''"

definition LibvirtStorageDir :: "proc_env \<Rightarrow> string" where
  "LibvirtStorageDir P = filepath_Join [LibvirtImagesDir, Itoa (Getuid P)]"

definition getBaseDir :: "'fs FileSystem \<Rightarrow> 'fs \<Rightarrow> path_error + string" where
  "getBaseDir F fs =
     (let dataHome = Getenv F fs ''XDG_DATA_HOME'' in
      if dataHome = [] then
        (case UserHomeDir F fs of
           Inl e \<Rightarrow> Inl (NoHome e)
         | Inr home \<Rightarrow> Inr (filepath_Join [filepath_Join [home, ''.local'', ''share''], ''abox'']))
      else Inr (filepath_Join [dataHome, ''abox'']))"

definition UserStorageDir :: "'fs FileSystem \<Rightarrow> proc_env \<Rightarrow> 'fs \<Rightarrow> string" where
  "UserStorageDir F P fs =
     (case getBaseDir F fs of
        Inl _ \<Rightarrow> filepath_Join [TempDir P, ''abox'', ''disks'']
      | Inr base \<Rightarrow> filepath_Join [base, ''disks''])"

definition validateStorageDir :: "string \<Rightarrow> path_error option" where
  "validateStorageDir dir =
     (if dir = [] then None
      else if \<not> IsAbs dir then Some (StorageNotAbs dir)
      else if ''..'' \<in> set (Split dir CHR ''/'') then Some (StorageTraversal dir)
      else None)"

definition RuntimeDir :: "'fs FileSystem \<Rightarrow> proc_env \<Rightarrow> 'fs \<Rightarrow> path_error + string" where
  "RuntimeDir F P fs =
     (let dir = Getenv F fs ''XDG_RUNTIME_DIR'';
          dir = (if dir = [] then ''/run/user/'' @ Itoa (Getuid P) else dir);
          dir = path_Clean dir
      in if Stat F fs dir = Inl ErrNotExist then Inl (RuntimeMissing dir) else Inr dir)"

definition RuntimeDirOr :: "'fs FileSystem \<Rightarrow> proc_env \<Rightarrow> 'fs \<Rightarrow> string \<Rightarrow> string" where
  "RuntimeDirOr F P fs fallback = (case RuntimeDir F P fs of Inl _ \<Rightarrow> fallback | Inr dir \<Rightarrow> dir)"

definition runtimeDirFallback :: "proc_env \<Rightarrow> string" where
  "runtimeDirFallback P = (case GOOS P of Linux \<Rightarrow> ''/run/user/'' @ Itoa (Getuid P) | _ \<Rightarrow> TempDir P)"

definition assertSecureRuntimeDir :: "'fs FileSystem \<Rightarrow> proc_env \<Rightarrow> 'fs \<Rightarrow> string \<Rightarrow> path_error option" where
  "assertSecureRuntimeDir F P fs dir =
     (case Stat F fs dir of
        Inl e \<Rightarrow> Some (if e = ErrNotExist then SecureMissing dir else SecureStat e)
      | Inr info \<Rightarrow>
          if \<not> fi_IsDir info then Some (SecureNotDir dir)
          else if fi_Perm info AND 18 \<noteq> 0 then Some (SecureWritable dir)
          else (case fi_owner info of
                  None \<Rightarrow> Some (SecureOwnerUnknown dir)
                | Some uidOwner \<Rightarrow> if uidOwner \<noteq> Getuid P then Some (SecureNotOwner dir) else None))"

definition SecureRuntimeDir :: "'fs FileSystem \<Rightarrow> proc_env \<Rightarrow> 'fs \<Rightarrow> path_error + string" where
  "SecureRuntimeDir F P fs =
     (let dir = Getenv F fs ''XDG_RUNTIME_DIR'';
          dir = (if dir = [] then runtimeDirFallback P else dir);
          dir = path_Clean dir
      in case assertSecureRuntimeDir F P fs dir of Some e \<Rightarrow> Inl e | None \<Rightarrow> Inr dir)"

section \<open>The paths of an instance\<close>

record Paths =
  p_Base :: string
  p_Instances :: string
  p_UserBaseImages :: string
  p_BaseImages :: string
  p_TetragonCache :: string
  p_Instance :: string
  p_Config :: string
  p_Allowlist :: string
  p_Secrets :: string
  p_DiskDir :: string
  p_Disk :: string
  p_CloudInitISO :: string
  p_SSHKey :: string
  p_KnownHosts :: string
  p_CACert :: string
  p_CAKey :: string
  p_DNSSocket :: string
  p_DNSPIDFile :: string
  p_HTTPSocket :: string
  p_HTTPPIDFile :: string
  p_MonitorSocket :: string
  p_MonitorRPCSocket :: string
  p_MonitorPIDFile :: string
  p_VMNetSocket :: string
  p_LogsDir :: string
  p_DNSTrafficLog :: string
  p_HTTPTrafficLog :: string
  p_MonitorLog :: string
  p_DNSServiceLog :: string
  p_HTTPServiceLog :: string
  p_MonitorServiceLog :: string
  p_ProfileLog :: string
  p_PrivilegeHelperLog :: string
  p_KeyLog :: string

definition runtime_file :: "string \<Rightarrow> string \<Rightarrow> string \<Rightarrow> string" where
  "runtime_file runtimeDir name tail = filepath_Join [runtimeDir, ''abox-'' @ name @ tail]"

text \<open>The record the function returns once its checks have passed.\<close>

definition build_paths :: "string \<Rightarrow> string \<Rightarrow> string \<Rightarrow> string \<Rightarrow> string \<Rightarrow> string \<Rightarrow> Paths" where
  "build_paths base storageDir instancesDir cleanInstanceDir runtimeDir name =
     (let diskDir = filepath_Join [storageDir, ''instances'', name];
          logsDir = filepath_Join [cleanInstanceDir, ''logs'']
      in \<lparr>p_Base = base,
      p_Instances = instancesDir,
      p_UserBaseImages = filepath_Join [base, ''base''],
      p_BaseImages = filepath_Join [storageDir, ''base''],
      p_TetragonCache = filepath_Join [base, ''tetragon''],
      p_Instance = cleanInstanceDir,
      p_Config = filepath_Join [cleanInstanceDir, ''config.yaml''],
      p_Allowlist = filepath_Join [cleanInstanceDir, ''allowlist.conf''],
      p_Secrets = filepath_Join [cleanInstanceDir, ''secrets''],
      p_DiskDir = diskDir,
      p_Disk = filepath_Join [diskDir, ''disk.qcow2''],
      p_CloudInitISO = filepath_Join [diskDir, ''cidata.iso''],
      p_SSHKey = filepath_Join [cleanInstanceDir, ''id_ed25519''],
      p_KnownHosts = filepath_Join [cleanInstanceDir, ''known_hosts''],
      p_CACert = filepath_Join [cleanInstanceDir, ''ca-cert.pem''],
      p_CAKey = filepath_Join [cleanInstanceDir, ''ca-key.pem''],
      p_DNSSocket = runtime_file runtimeDir name ''-dns.sock'',
      p_DNSPIDFile = runtime_file runtimeDir name ''-dns.pid'',
      p_HTTPSocket = runtime_file runtimeDir name ''-http.sock'',
      p_HTTPPIDFile = runtime_file runtimeDir name ''-http.pid'',
      p_MonitorSocket = filepath_Join [cleanInstanceDir, ''monitor.sock''],
      p_MonitorRPCSocket = runtime_file runtimeDir name ''-monitor.sock'',
      p_MonitorPIDFile = runtime_file runtimeDir name ''-monitor.pid'',
      p_VMNetSocket = filepath_Join [cleanInstanceDir, ''run'', ''vmnet.sock''],
      p_LogsDir = logsDir,
      p_DNSTrafficLog = filepath_Join [logsDir, ''dns.log''],
      p_HTTPTrafficLog = filepath_Join [logsDir, ''http.log''],
      p_MonitorLog = filepath_Join [logsDir, ''monitor.log''],
      p_DNSServiceLog = filepath_Join [logsDir, ''dns-service.log''],
      p_HTTPServiceLog = filepath_Join [logsDir, ''http-service.log''],
      p_MonitorServiceLog = filepath_Join [logsDir, ''monitor-service.log''],
      p_ProfileLog = filepath_Join [logsDir, ''profile.log''],
      p_PrivilegeHelperLog = filepath_Join [logsDir, ''privilege-helper.log''],
      p_KeyLog = filepath_Join [logsDir, ''keys.log'']\<rparr>)"

definition GetPathsWithStorage ::
  "'fs FileSystem \<Rightarrow> proc_env \<Rightarrow> 'fs \<Rightarrow> string \<Rightarrow> string \<Rightarrow> path_error + Paths" where
  "GetPathsWithStorage F P fs name storageDir =
     (case getBaseDir F fs of
        Inl e \<Rightarrow> Inl e
      | Inr base \<Rightarrow>
          (case (if storageDir = [] then Inr (filepath_Join [base, ''disks''])
                 else case validateStorageDir storageDir of Some e \<Rightarrow> Inl e | None \<Rightarrow> Inr storageDir) of
             Inl e \<Rightarrow> Inl e
           | Inr storageDir \<Rightarrow>
               (let instancesDir = filepath_Join [base, ''instances''];
                    instanceDir = filepath_Join [instancesDir, name];
                    cleanInstanceDir = path_Clean instanceDir;
                    cleanInstancesDir = path_Clean instancesDir
                in
                if rel_escapes (filepath_Rel cleanInstancesDir cleanInstanceDir) then Inl NameTraversal
                else
                  Inr (build_paths base storageDir instancesDir cleanInstanceDir (RuntimeDirOr F P fs (TempDir P)) name))))"

definition GetPaths :: "'fs FileSystem \<Rightarrow> proc_env \<Rightarrow> 'fs \<Rightarrow> string \<Rightarrow> path_error + Paths" where
  "GetPaths F P fs name = GetPathsWithStorage F P fs name []"

definition maxUnixSocketPathLen :: "proc_env \<Rightarrow> nat" where
  "maxUnixSocketPathLen P = (case GOOS P of Darwin \<Rightarrow> 103 | _ \<Rightarrow> 0)"

definition socket_table :: "Paths \<Rightarrow> (string \<times> string) list" where
  "socket_table paths =
     [(''DNS filter'', p_DNSSocket paths), (''HTTP filter'', p_HTTPSocket paths),
      (''monitor RPC'', p_MonitorRPCSocket paths), (''monitor'', p_MonitorSocket paths), (''vmnet'', p_VMNetSocket paths)]"

text \<open>The sockets are kept in a Go map, whose iteration order is not fixed: \<open>order\<close> is the order
  of one execution, a permutation of the table.\<close>

definition ValidateSocketPaths ::
  "((string \<times> string) list \<Rightarrow> (string \<times> string) list) \<Rightarrow> proc_env \<Rightarrow> Paths option \<Rightarrow> path_error option" where
  "ValidateSocketPaths order P paths =
     (case paths of
        None \<Rightarrow> None
      | Some paths \<Rightarrow>
          if maxUnixSocketPathLen P = 0 then None
          else map_option (\<lambda>(label, p). SocketTooLong label)
                 (find (\<lambda>(label, p). maxUnixSocketPathLen P < length p) (order (socket_table paths))))"

fun mkdir_loop :: "'fs FileSystem \<Rightarrow> 'fs \<Rightarrow> string list \<Rightarrow> 'fs \<times> path_error option" where
  "mkdir_loop F fs [] = (fs, None)"
| "mkdir_loop F fs (dir # dirs) =
     (case MkdirAll F fs dir 448 of
        (fs', Some e) \<Rightarrow> (fs', Some (MkdirFailed dir e))
      | (fs', None) \<Rightarrow> mkdir_loop F fs' dirs)"

definition EnsureDirs ::
  "((string \<times> string) list \<Rightarrow> (string \<times> string) list) \<Rightarrow> 'fs FileSystem \<Rightarrow> proc_env \<Rightarrow> 'fs \<Rightarrow> Paths \<Rightarrow> 'fs \<times> path_error option" where
  "EnsureDirs order F P fs paths =
     (case ValidateSocketPaths order P (Some paths) of
        Some e \<Rightarrow> (fs, Some e)
      | None \<Rightarrow> mkdir_loop F fs [p_Instances paths, p_Instance paths, p_LogsDir paths])"

definition extQcow2 :: string where "extQcow2 = ''.qcow2''"
definition extRaw :: string where "extRaw = ''.raw''"

definition UserBaseImageExt :: "proc_env \<Rightarrow> string" where
  "UserBaseImageExt P = (if GOOS P = Darwin then extRaw else extQcow2)"

definition UserBaseImageName :: "proc_env \<Rightarrow> string \<Rightarrow> string" where
  "UserBaseImageName P base = base @ UserBaseImageExt P"

definition BaseImageExts :: "proc_env \<Rightarrow> string list" where
  "BaseImageExts P = (if UserBaseImageExt P = extRaw then [extRaw, extQcow2] else [extQcow2, extRaw])"

text \<open>\<open>IsLegacyStorage\<close> reads the storage directory of the instance and the disk path.\<close>

definition IsLegacyStorage :: "proc_env \<Rightarrow> string \<Rightarrow> Paths \<Rightarrow> bool" where
  "IsLegacyStorage P storageDir paths =
     (let perUser = LibvirtStorageDir P in
      if storageDir = perUser \<or> HasPrefix (p_Disk paths) (perUser @ ''/'') then False
      else storageDir = LibvirtImagesDir \<or> HasPrefix (p_Disk paths) (LibvirtImagesDir @ ''/''))"

section \<open>Lemmas\<close>

text \<open>The home of the data is an absolute path, as the XDG specification requires.\<close>

definition abs_home :: "'fs FileSystem \<Rightarrow> 'fs \<Rightarrow> bool" where
  "abs_home F fs =
     (if Getenv F fs ''XDG_DATA_HOME'' = []
      then (case UserHomeDir F fs of Inl _ \<Rightarrow> True | Inr home \<Rightarrow> IsAbs home)
      else IsAbs (Getenv F fs ''XDG_DATA_HOME''))"

lemma normal_literals [simp]:
  "normal_seg ''abox''" "normal_seg ''.local''" "normal_seg ''share''" "normal_seg ''instances''" "normal_seg ''disks''"
  "normal_seg ''logs''" "normal_seg ''run''"
  by (simp_all add: normal_seg_def seg_ok_def)

lemma getBaseDir_rooted:
  assumes "abs_home F fs" and "getBaseDir F fs = Inr base"
  obtains bs where "base = rooted (bs @ [''abox''])" and "list_all normal_seg bs"
proof (cases "Getenv F fs ''XDG_DATA_HOME'' = []")
  case True
  then obtain h where "UserHomeDir F fs = Inr h" "IsAbs h" "base = filepath_Join [filepath_Join [h, ''.local'', ''share''], ''abox'']"
    using assms by (auto simp: abs_home_def getBaseDir_def Let_def split: sum.splits)
  then show ?thesis
    using clean_segments_normal by (intro that [of "clean_segments True h @ [''.local'', ''share'']"])
      (simp_all add: filepath_Join_normal IsAbs_def)
next
  case False
  then have "IsAbs (Getenv F fs ''XDG_DATA_HOME'')" "base = filepath_Join [Getenv F fs ''XDG_DATA_HOME'', ''abox'']"
    using assms by (auto simp: abs_home_def getBaseDir_def Let_def)
  then show ?thesis
    using clean_segments_normal by (intro that [of "clean_segments True (Getenv F fs ''XDG_DATA_HOME'')"])
      (simp_all add: filepath_Join_normal IsAbs_def)
qed

text \<open>The directory a name resolves to, on segments.\<close>

definition resolve :: "string list \<Rightarrow> string \<Rightarrow> string list" where
  "resolve ss name = rev (foldl (clean_step True) (rev ss) (Split name CHR ''/''))"

lemma normal_resolve:
  assumes "list_all normal_seg ss"
  shows "list_all normal_seg (resolve ss name)"
proof -
  have "resolve ss name = clean_segments True (rooted ss @ ''/'' @ name)"
    using assms Split_append_sep [of "rooted ss" "CHR ''/''" name]
      clean_segments_rooted [OF assms] by (simp add: clean_segments_def resolve_def) (metis rev_rev_ident)
  then show ?thesis by (simp add: clean_segments_normal)
qed

lemma Join_resolve: "list_all normal_seg ss \<Longrightarrow> filepath_Join [rooted ss, name] = rooted (resolve ss name)"
  by (simp add: filepath_Join_rooted resolve_def)

lemma resolve_normal: "normal_seg name \<Longrightarrow> resolve ss name = ss @ [name]"
  by (simp add: resolve_def clean_segments_atom clean_step_normal)

lemma Join_storage:
  assumes "IsAbs st"
  shows "filepath_Join [st, ''instances'', name] = rooted (resolve (clean_segments True st @ [''instances'']) name)"
proof -
  have "Split ''instances'' CHR ''/'' = [''instances'']" by simp
  then show ?thesis using assms
    by (simp add: filepath_Join_abs IsAbs_def resolve_def clean_step_normal)
qed

lemma instance_name_seg: "ValidateInstanceName n = None \<Longrightarrow> normal_seg n \<and> CHR ''/'' \<notin> set n"
  by (cases n) (auto simp: ValidateInstanceName_iff normal_seg_def seg_ok_def list_all_iff go_char code_def)

definition storage_root :: "string \<Rightarrow> string \<Rightarrow> string" where
  "storage_root base st = (if st = [] then filepath_Join [base, ''disks''] else st)"

lemma build_paths_fields:
  "p_Instances (build_paths b sd ins i rd name) = ins" "p_Instance (build_paths b sd ins i rd name) = i"
  "p_DiskDir (build_paths b sd ins i rd name) = filepath_Join [sd, ''instances'', name]"
  by (simp_all add: build_paths_def Let_def)

lemma GetPaths_build:
  assumes "GetPathsWithStorage F P fs name st = Inr p"
  shows "\<exists>base. getBaseDir F fs = Inr base
    \<and> p = build_paths base (storage_root base st) (p_Instances p) (p_Instance p) (RuntimeDirOr F P fs (TempDir P)) name"
  using assms by (auto simp: GetPathsWithStorage_def Let_def storage_root_def build_paths_fields
      split: if_splits option.splits sum.splits)

lemma GetPaths_result:
  assumes "list_all normal_seg bs" and "getBaseDir F fs = Inr (rooted bs)"
    and "GetPathsWithStorage F P fs name st = Inr p"
  shows "prefix (bs @ [''instances'']) (resolve (bs @ [''instances'']) name)"
    and "p_Instances p = rooted (bs @ [''instances''])"
    and "p_Instance p = rooted (resolve (bs @ [''instances'']) name)"
    and "p_DiskDir p = rooted (resolve (clean_segments True (storage_root (rooted bs) st) @ [''instances'']) name)"
    and "IsAbs (storage_root (rooted bs) st)"
proof -
  let ?i = "bs @ [''instances'']"
  have n: "list_all normal_seg ?i" "list_all normal_seg (resolve ?i name)" using assms(1) by (simp_all add: normal_resolve)
  have i: "filepath_Join [rooted bs, ''instances''] = rooted ?i" using assms(1) by (simp add: filepath_Join_normal)
  have e: "\<not> rel_escapes (filepath_Rel (rooted ?i) (rooted (resolve ?i name)))"
    using assms i n by (auto simp: GetPathsWithStorage_def Let_def Join_resolve build_paths_fields split: if_splits option.splits)
  then show "prefix ?i (resolve ?i name)" using rel_escapes_iff [OF n] by blast
  show "p_Instances p = rooted ?i" "p_Instance p = rooted (resolve ?i name)"
    using assms i n by (auto simp: GetPathsWithStorage_def Let_def Join_resolve build_paths_fields split: if_splits option.splits)
  show abs: "IsAbs (storage_root (rooted bs) st)"
    using assms by (auto simp: GetPathsWithStorage_def Let_def storage_root_def validateStorageDir_def filepath_Join_normal
        IsAbs_def split: if_splits option.splits)
  have "p_DiskDir p = filepath_Join [storage_root (rooted bs) st, ''instances'', name]"
    using GetPaths_build [OF assms(3)] assms(2) by (metis Inr_inject build_paths_fields(3))
  then show "p_DiskDir p = rooted (resolve (clean_segments True (storage_root (rooted bs) st) @ [''instances'']) name)"
    using Join_storage [OF abs] by simp
qed

text \<open>The files an instance keeps below its own directory.\<close>

definition instance_files :: "Paths \<Rightarrow> string list" where
  "instance_files p =
     [p_Instance p, p_Config p, p_Allowlist p, p_Secrets p, p_SSHKey p, p_KnownHosts p, p_CACert p, p_CAKey p,
      p_MonitorSocket p, p_VMNetSocket p, p_LogsDir p, p_DNSTrafficLog p, p_HTTPTrafficLog p, p_MonitorLog p,
      p_DNSServiceLog p, p_HTTPServiceLog p, p_MonitorServiceLog p, p_ProfileLog p, p_PrivilegeHelperLog p, p_KeyLog p]"

definition instance_tails :: "string list list" where
  "instance_tails =
     [[], [''config.yaml''], [''allowlist.conf''], [''secrets''], [''id_ed25519''], [''known_hosts''], [''ca-cert.pem''], [''ca-key.pem''],
      [''monitor.sock''], [''run'', ''vmnet.sock''], [''logs''], [''logs'', ''dns.log''], [''logs'', ''http.log''], [''logs'', ''monitor.log''],
      [''logs'', ''dns-service.log''], [''logs'', ''http-service.log''], [''logs'', ''monitor-service.log''], [''logs'', ''profile.log''],
      [''logs'', ''privilege-helper.log''], [''logs'', ''keys.log'']]"

lemma normal_tails: "list_all (list_all normal_seg) instance_tails"
  by (simp add: instance_tails_def normal_seg_def seg_ok_def)

lemma instance_files_rooted:
  assumes "GetPathsWithStorage F P fs name st = Inr p" and "p_Instance p = rooted ss" and "list_all normal_seg ss"
  shows "instance_files p = map (\<lambda>tl. rooted (ss @ tl)) instance_tails"
proof -
  have "instance_files p = map (\<lambda>tl. filepath_Join (p_Instance p # tl)) (take 10 instance_tails)
      @ map (\<lambda>tl. case tl of [l] \<Rightarrow> filepath_Join [p_Instance p, l] | [l, f] \<Rightarrow> filepath_Join [filepath_Join [p_Instance p, l], f])
          (drop 10 instance_tails)"
    if "filepath_Join [p_Instance p] = p_Instance p"
  proof -
    obtain b where "p = build_paths b (storage_root b st) (p_Instances p) (p_Instance p) (RuntimeDirOr F P fs (TempDir P)) name"
      using GetPaths_build [OF assms(1)] by blast
    then obtain sd ins rd where p: "p = build_paths b sd ins (p_Instance p) rd name" by blast
    show ?thesis
      using that by (subst p) (simp add: instance_files_def instance_tails_def build_paths_def Let_def)
  qed
  moreover have "filepath_Join [p_Instance p] = p_Instance p"
    using assms(2,3) filepath_Join_normal [of "rooted ss" "[]"] by simp
  moreover have "filepath_Join (rooted ss # tl) = rooted (ss @ tl)" if "list_all normal_seg tl" for tl
    using assms(3) that by (simp add: filepath_Join_normal)
  moreover have "filepath_Join [rooted (ss @ [''logs'']), f] = rooted (ss @ [''logs'', f])" if "normal_seg f" for f
    using assms(3) that by (simp add: filepath_Join_normal)
  moreover have "list_all normal_seg [''logs'']" by simp
  ultimately show ?thesis
    using assms(2) by (simp add: instance_tails_def normal_seg_def seg_ok_def)
qed

definition runtime_tails :: "string list" where
  "runtime_tails = [''-dns.sock'', ''-dns.pid'', ''-http.sock'', ''-http.pid'', ''-monitor.sock'', ''-monitor.pid'']"

definition runtime_files :: "Paths \<Rightarrow> string list" where
  "runtime_files p = [p_DNSSocket p, p_DNSPIDFile p, p_HTTPSocket p, p_HTTPPIDFile p, p_MonitorRPCSocket p, p_MonitorPIDFile p]"

lemma runtime_files_eq:
  assumes "GetPathsWithStorage F P fs name st = Inr p"
  shows "runtime_files p = map (runtime_file (RuntimeDirOr F P fs (TempDir P)) name) runtime_tails"
proof -
  have "runtime_files (build_paths b sd ins i rd name) = map (runtime_file rd name) runtime_tails" for b sd ins i rd
    by (simp add: build_paths_def Let_def runtime_files_def runtime_tails_def)
  then show ?thesis using GetPaths_build [OF assms] by metis
qed

lemma runtime_tails_inj:
  assumes "s \<in> set runtime_tails" and "t \<in> set runtime_tails" and "a @ s = b @ t"
  shows "a = b"
proof -
  have "rev s @ rev a = rev t @ rev b" using assms(3) by (metis rev_append)
  then show ?thesis using assms(1,2) by (auto simp: runtime_tails_def)
qed

lemma runtime_file_inj:
  assumes "IsAbs rd" and "ValidateInstanceName a = None" and "ValidateInstanceName b = None"
    and "s \<in> set runtime_tails" and "t \<in> set runtime_tails" and "runtime_file rd a s = runtime_file rd b t"
  shows "a = b"
proof -
  have n: "normal_seg (''abox-'' @ n @ u)" if "ValidateInstanceName n = None" "u \<in> set runtime_tails" for n u
    using instance_name_seg [OF that(1)] that(2) by (auto simp: normal_seg_def seg_ok_def runtime_tails_def)
  have "clean_segments True rd @ [''abox-'' @ a @ s] = clean_segments True rd @ [''abox-'' @ b @ t]"
    using assms(1,6) n [OF assms(2,4)] n [OF assms(3,5)] clean_segments_normal [of rd]
    by (simp add: runtime_file_def filepath_Join_normal IsAbs_def rooted_inj)
  then show ?thesis using runtime_tails_inj [OF assms(4,5)] by simp
qed

section \<open>Properties\<close>

text \<open>The files of an instance below its disk directory. With \<open>instance_files\<close> and \<open>runtime_files\<close> these are all the
  fields of \<open>Paths\<close> that belong to one instance.\<close>

definition disk_files :: "Paths \<Rightarrow> string list" where
  "disk_files p = [p_DiskDir p, p_Disk p, p_CloudInitISO p]"

lemma GetPaths_base:
  assumes "abs_home F fs" and "GetPathsWithStorage F P fs name st = Inr p"
  obtains bs where "list_all normal_seg bs" and "bs \<noteq> []" and "getBaseDir F fs = Inr (rooted bs)" and "p_Base p = rooted bs"
proof -
  obtain base where b: "getBaseDir F fs = Inr base" using assms(2) by (auto simp: GetPathsWithStorage_def split: sum.splits)
  obtain bs where bs: "base = rooted (bs @ [''abox''])" "list_all normal_seg bs"
    using getBaseDir_rooted [OF assms(1) b] by blast
  have "p_Base p = base" using assms(2) b by (auto simp: GetPathsWithStorage_def Let_def build_paths_def split: if_splits option.splits)
  with b bs show ?thesis by (intro that [of "bs @ [''abox'']"]) simp_all
qed

lemma disk_files_rooted:
  assumes "GetPathsWithStorage F P fs name st = Inr p" and "p_DiskDir p = rooted ss" and "list_all normal_seg ss"
  shows "disk_files p = [rooted ss, rooted (ss @ [''disk.qcow2'']), rooted (ss @ [''cidata.iso''])]"
proof -
  obtain base where "p = build_paths base (storage_root base st) (p_Instances p) (p_Instance p) (RuntimeDirOr F P fs (TempDir P)) name"
    using GetPaths_build [OF assms(1)] by blast
  then obtain sd ins i rd where p: "p = build_paths base sd ins i rd name" by blast
  have "p_Disk p = filepath_Join [p_DiskDir p, ''disk.qcow2'']" "p_CloudInitISO p = filepath_Join [p_DiskDir p, ''cidata.iso'']"
    by (simp_all add: p build_paths_def Let_def)
  then show ?thesis using assms(2,3) by (simp add: disk_files_def filepath_Join_normal normal_seg_def seg_ok_def)
qed

lemma runtime_files_direct:
  assumes "GetPathsWithStorage F P fs name st = Inr p" and "ValidateInstanceName name = None"
    and "IsAbs (RuntimeDirOr F P fs (TempDir P))" and "f \<in> set (runtime_files p)"
  shows "\<exists>t. f = rooted (clean_segments True (RuntimeDirOr F P fs (TempDir P)) @ [''abox-'' @ name @ t])"
proof -
  obtain t where t: "t \<in> set runtime_tails" "f = runtime_file (RuntimeDirOr F P fs (TempDir P)) name t"
    using assms(4) runtime_files_eq [OF assms(1)] by auto
  have "normal_seg (''abox-'' @ name @ t)"
    using instance_name_seg [OF assms(2)] t(1) by (auto simp: normal_seg_def seg_ok_def runtime_tails_def)
  then have "f = rooted (clean_segments True (RuntimeDirOr F P fs (TempDir P)) @ [''abox-'' @ name @ t])"
    using assms(3) t(2) by (simp add: runtime_file_def filepath_Join_normal IsAbs_def)
  then show ?thesis ..
qed


definition demo_proc :: proc_env where
  "demo_proc = \<lparr>Getuid = 1000, TempDir = ''/tmp'', GOOS = Linux\<rparr>"

definition demo_fs :: MockFileSystem where
  "demo_fs = NewMockFileSystem\<lparr>EnvVars := [''XDG_DATA_HOME'' \<mapsto> ''/data'', ''XDG_RUNTIME_DIR'' \<mapsto> ''/run/u/''],
     Dirs := (\<lambda>d. d = ''/run/u'')\<rparr>"

lemma demo_home: "abs_home mock_fs demo_fs" "getBaseDir mock_fs demo_fs = Inr ''/data/abox''"
  by (simp_all add: abs_home_def getBaseDir_def demo_fs_def mock_defs IsAbs_def filepath_Join_def path_Clean_def
      clean_segments_def clean_step_def)

lemma demo_runtime: "RuntimeDirOr mock_fs demo_proc demo_fs d = ''/run/u''"
  by (simp add: RuntimeDirOr_def RuntimeDir_def demo_fs_def mock_defs path_Clean_def clean_segments_def clean_step_def)

lemmas path_eval = path_Clean_def clean_segments_def clean_step_def filepath_Join_def filepath_Rel_def rel_words_def
  rel_escapes_def IsAbs_def

lemma demo_accepted: "\<exists>p. GetPathsWithStorage mock_fs demo_proc demo_fs ''dev/../x'' [] = Inr p"
  by (simp add: GetPathsWithStorage_def demo_home path_eval Let_def)

lemma demo_names_valid: "ValidateInstanceName ''dev'' = None" "ValidateInstanceName ''dev-dns'' = None"
  by (simp_all add: ValidateInstanceName_iff go_eval)

lemma demo_accepted2:
  "\<exists>p. GetPathsWithStorage mock_fs demo_proc demo_fs ''dev'' [] = Inr p"
  "\<exists>p. GetPathsWithStorage mock_fs demo_proc demo_fs ''dev-dns'' [] = Inr p"
  by (simp_all add: GetPathsWithStorage_def demo_home path_eval Let_def)


text \<open>
  C21 (safety). Two valid instance names never share anything: neither instance directory lies inside the
  other, nor does a disk directory under the same storage root, and no socket or PID file of
  one is a socket or PID file of the other. Removing one instance therefore leaves the other
  alone.
\<close>

theorem Paths_disjoint:
  assumes "abs_home F fs" and "ValidateInstanceName a = None" and "ValidateInstanceName b = None" and "a \<noteq> b"
    and "IsAbs (RuntimeDirOr F P fs (TempDir P))"
    and "GetPathsWithStorage F P fs a st = Inr pa" and "GetPathsWithStorage F P fs b st = Inr pb"
  shows "\<not> within (p_Instance pa) (p_Instance pb) \<and> \<not> within (p_DiskDir pa) (p_DiskDir pb)
    \<and> set (runtime_files pa) \<inter> set (runtime_files pb) = {}"
proof -
  obtain base where b: "getBaseDir F fs = Inr base" using assms(6) by (auto simp: GetPathsWithStorage_def split: sum.splits)
  obtain bs where bs: "base = rooted (bs @ [''abox''])" "list_all normal_seg (bs @ [''abox''])"
    using getBaseDir_rooted [OF assms(1) b] by auto
  note nm = instance_name_seg [OF assms(2)] instance_name_seg [OF assms(3)]
  note r = GetPaths_result [OF bs(2) b [unfolded bs(1)] assms(6)] GetPaths_result [OF bs(2) b [unfolded bs(1)] assms(7)]
  have apart: "\<not> within (rooted (ss @ [a])) (rooted (ss @ [b]))" if "list_all normal_seg ss" for ss
    using within_rooted [of "ss @ [a]" "ss @ [b]"] that nm assms(4) by simp
  have "\<not> within (p_Instance pa) (p_Instance pb)"
    using r(3,8) nm bs(2) apart [of "(bs @ [''abox'']) @ [''instances'']"] by (simp add: resolve_normal)
  moreover have "\<not> within (p_DiskDir pa) (p_DiskDir pb)"
    using r(4,9) nm apart [of "clean_segments True s @ [''instances'']" for s] clean_segments_normal by (simp add: resolve_normal)
  moreover have "set (runtime_files pa) \<inter> set (runtime_files pb) = {}"
    using runtime_file_inj [OF assms(5,2,3)] assms(4) by (auto simp: runtime_files_eq [OF assms(6)] runtime_files_eq [OF assms(7)])
  ultimately show ?thesis by blast
qed

theorem Paths_disjoint_witness:
  "\<exists>pa pb. GetPathsWithStorage mock_fs demo_proc demo_fs ''dev'' [] = Inr pa
     \<and> GetPathsWithStorage mock_fs demo_proc demo_fs ''dev-dns'' [] = Inr pb
     \<and> \<not> within (p_Instance pa) (p_Instance pb) \<and> set (runtime_files pa) \<inter> set (runtime_files pb) = {}"
proof -
  obtain pa pb where p: "GetPathsWithStorage mock_fs demo_proc demo_fs ''dev'' [] = Inr pa"
    "GetPathsWithStorage mock_fs demo_proc demo_fs ''dev-dns'' [] = Inr pb" using demo_accepted2 by blast
  have "IsAbs (RuntimeDirOr mock_fs demo_proc demo_fs (TempDir demo_proc))" by (simp add: demo_runtime IsAbs_def)
  from Paths_disjoint [OF demo_home(1) demo_names_valid _ this p] p show ?thesis by auto
qed

text \<open>
  The traversal check covers the instance directory only. A name that climbs out of the
  instances directory and comes back to it, \<open>../../abox/instances/x\<close>, is accepted and resolves to the instance \<open>x\<close>,
  while its disk directory, which is resolved with the same name under the storage root,
  leaves that root for a sibling directory. The disk directory is what the backends remove.
\<close>

definition climbing_name :: "string \<Rightarrow> string" where
  "climbing_name x = ''../../abox/instances/'' @ x"

lemma resolve_climbing:
  assumes "normal_seg x" and "normal_seg s"
  shows "resolve (ss @ [s, ''instances'']) (climbing_name x) = ss @ [''abox'', ''instances'', x]"
proof -
  have "Split (climbing_name x) CHR ''/'' = [''..'', ''..'', ''abox'', ''instances''] @ Split x CHR ''/''"
    using Split_append_sep [of "''../../abox/instances''" "CHR ''/''" x] by (simp add: climbing_name_def)
  then show ?thesis using clean_segments_atom [OF assms(1)] clean_step_normal [OF assms(1)] assms(2)
    by (simp add: resolve_def clean_step_def normal_seg_def)
qed

theorem DiskDir_escapes:
  assumes "abs_home F fs" and "getBaseDir F fs = Inr base" and "ValidateInstanceName x = None"
    and "list_all normal_seg (ss @ [s])" and "s \<noteq> ''abox''"
  shows "\<exists>p. GetPathsWithStorage F P fs (climbing_name x) (rooted (ss @ [s])) = Inr p
    \<and> p_Instance p = base @ ''/instances/'' @ x
    \<and> p_DiskDir p = rooted (ss @ [''abox'', ''instances'', x])
    \<and> \<not> within (rooted (ss @ [s])) (p_DiskDir p)"
proof -
  have x: "normal_seg x" using instance_name_seg [OF assms(3)] by simp
  obtain bs where bs: "base = rooted (bs @ [''abox''])" "list_all normal_seg (bs @ [''abox''])"
    using getBaseDir_rooted [OF assms(1,2)] by auto
  let ?b = "bs @ [''abox'']" and ?n = "climbing_name x"
  have i: "filepath_Join [base, ''instances''] = rooted (?b @ [''instances''])"
    using bs filepath_Join_normal [of "rooted ?b" "[''instances'']"] by simp
  have n: "list_all normal_seg (?b @ [''instances''])" using bs by simp
  have r: "resolve (?b @ [''instances'']) ?n = ?b @ [''instances'', x]"
    using resolve_climbing [OF x, of "''abox''" bs] by simp
  have v: "validateStorageDir (rooted (ss @ [s])) = None"
    using Split_rooted [OF assms(4)] assms(4) by (auto simp: validateStorageDir_def IsAbs_def list_all_iff normal_seg_def)
  have ne: "\<not> rel_escapes (filepath_Rel (rooted (?b @ [''instances''])) (rooted (?b @ [''instances'', x])))"
    using rel_escapes_iff [of "?b @ [''instances'']" "?b @ [''instances'', x]"] bs(2) x by simp
  have nx: "list_all normal_seg (?b @ [''instances'', x])" using n x by simp
  have "\<exists>p. GetPathsWithStorage F P fs ?n (rooted (ss @ [s])) = Inr p"
    using assms(2) v i ne n nx r Join_resolve [OF n, of ?n] by (simp add: GetPathsWithStorage_def Let_def rooted_def [of "ss @ [s]"])
  then obtain p where p: "GetPathsWithStorage F P fs ?n (rooted (ss @ [s])) = Inr p" ..
  note g = GetPaths_result [OF bs(2) assms(2) [unfolded bs(1)] p]
  have inst: "p_Instance p = rooted (?b @ [''instances'', x])" using g(3) r by simp
  have "rooted (?b @ [''instances'', x]) = base @ ''/instances/'' @ x"
    using rooted_append [of ?b "[''instances'', x]"] bs(1) by simp
  moreover have d: "p_DiskDir p = rooted (ss @ [''abox'', ''instances'', x])"
    using g(4) resolve_climbing [OF x, of s ss] assms(4) by (simp add: storage_root_def) (simp add: rooted_def)
  moreover have "\<not> within (rooted (ss @ [s])) (p_DiskDir p)"
    using within_rooted [OF assms(4), of "ss @ [''abox'', ''instances'', x]"] assms(4,5) x d by simp
  ultimately show ?thesis using p inst by auto
qed

theorem DiskDir_escapes_witness:
  "\<exists>p. GetPathsWithStorage mock_fs demo_proc demo_fs ''../../abox/instances/dev'' ''/mnt/vms'' = Inr p
     \<and> p_Instance p = ''/data/abox/instances/dev'' \<and> p_DiskDir p = ''/mnt/abox/instances/dev''"
proof -
  have "list_all normal_seg ([''mnt''] @ [''vms''])" by (simp add: normal_seg_def seg_ok_def)
  from DiskDir_escapes [OF demo_home demo_names_valid(1) this, of demo_proc] show ?thesis
    by (fastforce simp: rooted_def climbing_name_def)
qed

end
