(* ===== verification/HTTP_Policy.thy ===== *)
theory HTTP_Policy
  imports Allowlist_API SSRF
begin

text \<open>
  The policy part of \<^verbatim>\<open>internal/httpfilter/server.go\<close>: what the proxy decides about a CONNECT
  request, about a parsed request, about a destination port and about an address that is
  being dialled. The counters are 64-bit words, the traffic log and the audit records are
  lists. Audit records keep their action and the host.
\<close>

section \<open>State\<close>

record http_url =
  u_Scheme :: string
  u_Host :: string
  u_Path :: string
  u_RawPath :: string

text \<open>A header is a list of canonical names with their values.\<close>

type_synonym header = "(string \<times> string list) list"

record http_request =
  r_Method :: string
  r_Host :: string
  r_URL :: http_url
  r_Header :: header

record HTTP_Stats =
  TotalRequests :: "64 word"
  AllowedRequests :: "64 word"
  BlockedRequests :: "64 word"

datatype http_traffic =
    HTTP_Allow string "string option"
  | HTTP_Block string string

record SecretRule =
  sr_Key :: string
  sr_Host :: string
  sr_Header :: string
  sr_Value :: string
  sr_PathPrefix :: string
  sr_Strip :: bool

record ('t, 'time) HTTP_Server =
  hs_mode :: "'time ModeController"
  hs_filter :: "'t Filter"
  hs_targetChecker :: "TargetChecker option"
  hs_mitmExceptions :: "'t Filter"
  hs_stats :: HTTP_Stats
  hs_traffic :: "http_traffic list option"
  hs_audit :: "(string \<times> string) list"
  hs_mitmReady :: bool
  hs_maxConns :: int
  hs_allowedPorts :: "int set option"
  hs_secretInjections :: "(string \<times> SecretRule list) list option"

record ('t, 'time) http_env =
  he_E :: dom_ext
  he_R :: "'t radix_ops"
  he_clock :: "'time clock_fmt"
  he_now :: 'time
  he_io :: "nat option"
  he_fold :: "string \<Rightarrow> string \<Rightarrow> bool"

text \<open>\<open>strings.EqualFold\<close> on two arbitrary strings: on ASCII strings the letters fold, beyond it the Unicode tables of the
  environment decide.\<close>

definition host_fold :: "('t, 'time) http_env \<Rightarrow> string \<Rightarrow> string \<Rightarrow> bool" where
  "host_fold V s t =
     (if list_all is_ascii s \<and> list_all is_ascii t then map lower_char s = map lower_char t else he_fold V s t)"

definition HTTP_HealthcheckDomain :: string where
  "HTTP_HealthcheckDomain = ''healthcheck.abox.local''"

definition HTTP_NewServer :: "'t radix_ops \<Rightarrow> 't Filter \<Rightarrow> bool \<Rightarrow> ('t, 'time) HTTP_Server" where
  "HTTP_NewServer R f passive =
     \<lparr>hs_mode = SetActive (\<not> passive) \<lparr>mc_active = False, mc_profile = None, mc_port = 0\<rparr>,
      hs_filter = f, hs_targetChecker = Some \<lparr>tc_allowed = []\<rparr>, hs_mitmExceptions = NewFilter R,
      hs_stats = \<lparr>TotalRequests = 0, AllowedRequests = 0, BlockedRequests = 0\<rparr>, hs_traffic = None, hs_audit = [],
      hs_mitmReady = False, hs_maxConns = 512, hs_allowedPorts = None, hs_secretInjections = None\<rparr>"

definition h_total :: "('t, 'time) HTTP_Server \<Rightarrow> ('t, 'time) HTTP_Server" where
  "h_total s = s\<lparr>hs_stats := (hs_stats s)\<lparr>TotalRequests := TotalRequests (hs_stats s) + 1\<rparr>\<rparr>"

definition h_allowed :: "('t, 'time) HTTP_Server \<Rightarrow> ('t, 'time) HTTP_Server" where
  "h_allowed s = s\<lparr>hs_stats := (hs_stats s)\<lparr>AllowedRequests := AllowedRequests (hs_stats s) + 1\<rparr>\<rparr>"

definition h_blocked :: "('t, 'time) HTTP_Server \<Rightarrow> ('t, 'time) HTTP_Server" where
  "h_blocked s = s\<lparr>hs_stats := (hs_stats s)\<lparr>BlockedRequests := BlockedRequests (hs_stats s) + 1\<rparr>\<rparr>"

definition h_log :: "http_traffic \<Rightarrow> ('t, 'time) HTTP_Server \<Rightarrow> ('t, 'time) HTTP_Server" where
  "h_log e s = s\<lparr>hs_traffic := map_option (\<lambda>l. l @ [e]) (hs_traffic s)\<rparr>"

definition h_audit_rec :: "string \<Rightarrow> string \<Rightarrow> ('t, 'time) HTTP_Server \<Rightarrow> ('t, 'time) HTTP_Server" where
  "h_audit_rec action host s = s\<lparr>hs_audit := hs_audit s @ [(action, host)]\<rparr>"

section \<open>Hosts and ports\<close>

definition extractHost :: "string \<Rightarrow> string" where
  "extractHost host =
     (case SplitHostPort host of
        Inr (h, _) \<Rightarrow> h
      | Inl _ \<Rightarrow>
          if 2 \<le> length host \<and> hd host = CHR ''['' \<and> last host = CHR '']''
          then butlast (tl host) else host)"

definition defaultConnectPorts :: "int set" where "defaultConnectPorts = {443}"
definition defaultForwardPorts :: "int set" where "defaultForwardPorts = {80, 443}"

definition SetAllowedPorts :: "int list \<Rightarrow> ('t, 'time) HTTP_Server \<Rightarrow> ('t, 'time) HTTP_Server" where
  "SetAllowedPorts ports s =
     (let valid = List.filter (\<lambda>p. 1 \<le> p \<and> p \<le> 65535) ports in
      s\<lparr>hs_allowedPorts := (if ports = [] then None else if valid = [] then None else Some (set valid))\<rparr>)"

definition SetMaxConns :: "int \<Rightarrow> ('t, 'time) HTTP_Server \<Rightarrow> ('t, 'time) HTTP_Server" where
  "SetMaxConns n s = s\<lparr>hs_maxConns := (if n < 0 then 0 else n)\<rparr>"

definition effective_ports :: "('t, 'time) HTTP_Server \<Rightarrow> bool \<Rightarrow> int set" where
  "effective_ports s isConnect =
     (case hs_allowedPorts s of
        Some ports \<Rightarrow> ports
      | None \<Rightarrow> if isConnect then defaultConnectPorts else defaultForwardPorts)"

definition portAllowed :: "('t, 'time) HTTP_Server \<Rightarrow> string \<Rightarrow> string \<Rightarrow> bool \<Rightarrow> bool" where
  "portAllowed s hostPort scheme isConnect =
     (case (case SplitHostPort hostPort of
              Inr (_, portStr) \<Rightarrow> Some portStr
            | Inl e \<Rightarrow>
                if \<not> Contains (addr_error_text hostPort e) ''missing port'' then None
                else Some (if scheme = ''http'' then ''80'' else ''443'')) of
        None \<Rightarrow> False
      | Some portStr \<Rightarrow>
          (case Atoi portStr of
             None \<Rightarrow> False
           | Some port \<Rightarrow> if port < 1 \<or> port > 65535 then False else port \<in> effective_ports s isConnect))"

definition HTTP_SetAllowPrivateTargets ::
  "string list \<Rightarrow> ('t, 'time) HTTP_Server \<Rightarrow> ('t, 'time) HTTP_Server \<times> cidr_error option" where
  "HTTP_SetAllowPrivateTargets cidrs s =
     (case NewTargetChecker cidrs of
        Inl e \<Rightarrow> (s, Some e)
      | Inr tc \<Rightarrow> (s\<lparr>hs_targetChecker := Some tc\<rparr>, None))"

definition SetMITMExceptions ::
  "dom_ext \<Rightarrow> 't radix_ops \<Rightarrow> string list \<Rightarrow> ('t, 'time) HTTP_Server \<Rightarrow> ('t, 'time) HTTP_Server" where
  "SetMITMExceptions E R domains s =
     s\<lparr>hs_mitmExceptions := Filter_Replace E R (hs_mitmExceptions s)
         (map (\<lambda>d. TrimPrefix (TrimSpace d) ''*.'') domains)\<rparr>"

section \<open>Decisions\<close>

text \<open>\<open>checkHost\<close>: the new server, whether the host is allowed, and whether the SSRF check refused it.\<close>

definition checkHost ::
  "('t, 'time) http_env \<Rightarrow> ('t, 'time) HTTP_Server \<Rightarrow> string \<Rightarrow> ('t, 'time) HTTP_Server \<times> bool \<times> bool" where
  "checkHost V s host =
     (let explicitlyAllowed = Filter_IsAllowed (he_E V) (he_R V) (hs_filter s) host in
      if IsBlocked (hs_targetChecker s) host then (s, False, True)
      else
        (let s' = (if mc_active (hs_mode s) then s
                   else s\<lparr>hs_mode := Mode_LogDomain (he_E V) (he_clock V) (he_now V) (he_io V) (hs_mode s) ''HTTP'' host\<rparr>)
         in (s', explicitlyAllowed \<or> \<not> mc_active (hs_mode s'), False)))"

definition auditPortBlocked :: "string \<Rightarrow> ('t, 'time) HTTP_Server \<Rightarrow> ('t, 'time) HTTP_Server" where
  "auditPortBlocked host s =
     h_log (HTTP_Block host ''port_not_allowed'')
       (h_audit_rec ''http.block.port'' host (h_blocked (h_total s)))"

datatype connectAction = actionReject | actionTunnel | actionIntercept

definition decideConnect ::
  "('t, 'time) http_env \<Rightarrow> ('t, 'time) HTTP_Server \<Rightarrow> string \<Rightarrow> ('t, 'time) HTTP_Server \<times> connectAction" where
  "decideConnect V s host =
     (case checkHost V s host of (s1, allowed, blockedBySSRF) \<Rightarrow>
        if blockedBySSRF then
          (h_log (HTTP_Block host ''ssrf_private_ip'')
             (h_audit_rec ''http.block.ssrf'' host (h_blocked (h_total s1))), actionReject)
        else if \<not> allowed then
          (h_log (HTTP_Block host ''not_in_allowlist'')
             (h_audit_rec ''http.block'' host (h_blocked (h_total s1))), actionReject)
        else if \<not> hs_mitmReady s1 then
          (h_log (HTTP_Allow host None) (h_allowed (h_total s1)), actionTunnel)
        else if Filter_IsAllowed (he_E V) (he_R V) (hs_mitmExceptions s1) host then
          (h_log (HTTP_Allow host (Some ''mitm_exception''))
             (h_audit_rec ''http.tunnel.mitm_exception'' host (h_allowed (h_total s1))), actionTunnel)
        else (s1, actionIntercept))"

record requestDecision =
  rd_forward :: bool
  rd_status :: nat
  rd_body :: string

definition is_healthcheck :: "('t, 'time) http_env \<Rightarrow> string \<Rightarrow> string \<Rightarrow> bool" where
  "is_healthcheck V host connectTarget \<longleftrightarrow>
     EqualFold host HTTP_HealthcheckDomain
     \<and> (connectTarget = [] \<or> host_fold V (extractHost connectTarget) host)"

definition fronted :: "('t, 'time) http_env \<Rightarrow> string \<Rightarrow> string \<Rightarrow> bool" where
  "fronted V host connectTarget \<longleftrightarrow> connectTarget \<noteq> [] \<and> \<not> host_fold V (extractHost connectTarget) host"

definition decideRequest ::
  "('t, 'time) http_env \<Rightarrow> ('t, 'time) HTTP_Server \<Rightarrow> http_request option \<Rightarrow> string \<Rightarrow>
   ('t, 'time) HTTP_Server \<times> requestDecision" where
  "decideRequest V s req connectTarget =
     (let denied = \<lparr>rd_forward = False, rd_status = 403, rd_body = ''Access denied'' @ [LF]\<rparr> in
      case req of
        None \<Rightarrow> (s, \<lparr>rd_forward = False, rd_status = 400, rd_body = ''bad request'' @ [LF]\<rparr>)
      | Some r \<Rightarrow>
          (let s1 = h_total s; host = extractHost (r_Host r) in
           if is_healthcheck V host connectTarget then
             (h_allowed s1, \<lparr>rd_forward = False, rd_status = 200, rd_body = ''abox healthcheck OK'' @ [LF]\<rparr>)
           else
             (case checkHost V s1 host of (s2, allowed, blockedBySSRF) \<Rightarrow>
                if blockedBySSRF then
                  (h_log (HTTP_Block host ''ssrf_private_ip'') (h_audit_rec ''http.block.ssrf'' host (h_blocked s2)), denied)
                else if \<not> allowed then
                  (if fronted V host connectTarget
                   then h_log (HTTP_Block host ''domain_fronting'') (h_audit_rec ''http.block.domain_fronting'' host (h_blocked s2))
                   else h_log (HTTP_Block host ''not_in_allowlist'') (h_audit_rec ''http.block'' host (h_blocked s2)), denied)
                else
                  ((if fronted V host connectTarget
                    then h_log (HTTP_Allow host (Some ''cross_origin_allowed''))
                           (h_audit_rec ''http.allow.cross_origin'' host (h_allowed s2))
                    else h_log (HTTP_Allow host None) (h_allowed s2)),
                   \<lparr>rd_forward = True, rd_status = 0, rd_body = []\<rparr>))))"

text \<open>The \<open>Control\<close> callback of every direct dial; \<open>False\<close> aborts the connection.\<close>

definition dialControl :: "('t, 'time) HTTP_Server \<Rightarrow> string \<Rightarrow> ('t, 'time) HTTP_Server \<times> bool" where
  "dialControl s address =
     (let host = (case SplitHostPort address of Inr (h, _) \<Rightarrow> h | Inl _ \<Rightarrow> address) in
      if IsBlocked (hs_targetChecker s) host
      then (h_audit_rec ''http.block.ssrf'' address
              (h_log (HTTP_Block host ''ssrf_private_ip'') (h_blocked s)), False)
      else (s, True))"

definition HTTP_GetStats :: "('t, 'time) HTTP_Server \<Rightarrow> HTTP_Stats" where
  "HTTP_GetStats s = hs_stats s"

section \<open>Lemmas\<close>

lemma http_simps [simp]:
  "hs_mode (h_total s) = hs_mode s" "hs_filter (h_total s) = hs_filter s" "hs_targetChecker (h_total s) = hs_targetChecker s"
  "hs_mitmReady (h_total s) = hs_mitmReady s" "hs_mitmExceptions (h_total s) = hs_mitmExceptions s"
  "hs_traffic (h_total s) = hs_traffic s" "hs_traffic (h_allowed s) = hs_traffic s" "hs_traffic (h_blocked s) = hs_traffic s"
  "hs_traffic (h_audit_rec a h s) = hs_traffic s" "hs_traffic (h_log e s) = map_option (\<lambda>l. l @ [e]) (hs_traffic s)"
  "hs_stats (h_log e s) = hs_stats s" "hs_stats (h_audit_rec a h s) = hs_stats s"
  "hs_stats (h_total s) = (hs_stats s)\<lparr>TotalRequests := TotalRequests (hs_stats s) + 1\<rparr>"
  "hs_stats (h_allowed s) = (hs_stats s)\<lparr>AllowedRequests := AllowedRequests (hs_stats s) + 1\<rparr>"
  "hs_stats (h_blocked s) = (hs_stats s)\<lparr>BlockedRequests := BlockedRequests (hs_stats s) + 1\<rparr>"
  by (simp_all add: h_total_def h_allowed_def h_blocked_def h_log_def h_audit_rec_def)

lemma Mode_LogDomain_keeps_mode [simp]: "mc_active (Mode_LogDomain E T now io m src dn) = mc_active m"
  by (simp add: Mode_LogDomain_def split: option.splits)

lemma checkHost_cases:
  assumes "checkHost V s host = (s', allowed, ssrf)"
  shows "hs_stats s' = hs_stats s \<and> hs_traffic s' = hs_traffic s \<and> hs_mitmReady s' = hs_mitmReady s
    \<and> hs_mitmExceptions s' = hs_mitmExceptions s
    \<and> (ssrf \<longleftrightarrow> IsBlocked (hs_targetChecker s) host)
    \<and> (allowed \<longleftrightarrow> \<not> ssrf \<and> (Filter_IsAllowed (he_E V) (he_R V) (hs_filter s) host \<or> \<not> mc_active (hs_mode s)))"
  using assms by (auto simp: checkHost_def Let_def split: if_splits)

text \<open>What a host passes before anything is sent to it.\<close>

definition host_permitted :: "('t, 'time) http_env \<Rightarrow> ('t, 'time) HTTP_Server \<Rightarrow> string \<Rightarrow> bool" where
  "host_permitted V s host \<longleftrightarrow>
     \<not> IsBlocked (hs_targetChecker s) host
     \<and> (mc_active (hs_mode s) \<longrightarrow> Filter_IsAllowed (he_E V) (he_R V) (hs_filter s) host)"

lemma checkHost_permitted:
  "checkHost V s host = (s', allowed, ssrf) \<Longrightarrow> allowed \<longleftrightarrow> host_permitted V s host"
  using checkHost_cases [of V s host s' allowed ssrf] by (auto simp: host_permitted_def)

lemma decideConnect_permits:
  assumes "decideConnect V s host = (s', a)"
  shows "a \<noteq> actionReject \<longleftrightarrow> host_permitted V s host"
    and "a = actionTunnel \<Longrightarrow> hs_mitmReady s \<Longrightarrow> Filter_IsAllowed (he_E V) (he_R V) (hs_mitmExceptions s) host"
    and "a = actionIntercept \<Longrightarrow> hs_mitmReady s"
proof -
  obtain s1 al ss where c: "checkHost V s host = (s1, al, ss)" by (metis prod_cases3)
  note cc = checkHost_cases [OF c] checkHost_permitted [OF c]
  show "a \<noteq> actionReject \<longleftrightarrow> host_permitted V s host"
    using assms c cc by (auto simp: decideConnect_def split: if_splits)
  show "a = actionTunnel \<Longrightarrow> hs_mitmReady s \<Longrightarrow> Filter_IsAllowed (he_E V) (he_R V) (hs_mitmExceptions s) host"
    "a = actionIntercept \<Longrightarrow> hs_mitmReady s"
    using assms c cc by (auto simp: decideConnect_def split: if_splits)
qed

lemma decideRequest_permits:
  assumes "decideRequest V s req ct = (s', d)"
  shows "rd_forward d \<longleftrightarrow>
    (\<exists>r. req = Some r \<and> \<not> is_healthcheck V (extractHost (r_Host r)) ct \<and> host_permitted V s (extractHost (r_Host r)))"
proof (cases req)
  case (Some r)
  let ?h = "extractHost (r_Host r)"
  obtain s1 al ss where c: "checkHost V (h_total s) ?h = (s1, al, ss)" by (metis prod_cases3)
  have "al \<longleftrightarrow> host_permitted V s ?h" "ss \<Longrightarrow> \<not> al"
    using checkHost_permitted [OF c] checkHost_cases [OF c] by (simp_all add: host_permitted_def)
  then show ?thesis using assms Some c by (auto simp: decideRequest_def Let_def split: if_splits)
qed (use assms in \<open>auto simp: decideRequest_def Let_def\<close>)

section \<open>Properties\<close>

text \<open>
  The port check cannot be influenced by the host part: for every host text
  without brackets and every port number, the joined address is accepted exactly when the
  number is a port of the effective set, which is the configured one or, without one, 443
  for CONNECT and 80 and 443 for a forwarded request.
\<close>

lemma Itoa_port_chars: "CHR '':'' \<notin> set (Itoa n)" "CHR ''['' \<notin> set (Itoa n)" "CHR '']'' \<notin> set (Itoa n)"
  using Itoa_digits [of n] by (auto simp: list_all_iff is_digit_def code_def)

theorem portAllowed_joined:
  assumes "CHR ''['' \<notin> set host" and "CHR '']'' \<notin> set host" and "n < 2 ^ 63"
  shows "portAllowed s (JoinHostPort host (Itoa n)) scheme isConnect \<longleftrightarrow>
     1 \<le> n \<and> n \<le> 65535 \<and> int n \<in> effective_ports s isConnect"
  using SplitHostPort_Join [OF assms(1,2) Itoa_port_chars, of n] Atoi_Itoa [OF assms(3)]
  by (auto simp: portAllowed_def)

theorem portAllowed_joined_witness:
  "\<not> portAllowed (HTTP_NewServer ref_radix demo_filter False :: (alist, nat) HTTP_Server) (JoinHostPort ''missing port'' (Itoa 22)) ''https'' True"
  using portAllowed_joined [of "''missing port''" 22 "HTTP_NewServer ref_radix demo_filter False :: (alist, nat) HTTP_Server" "''https''" True]
  by (simp add: effective_ports_def HTTP_NewServer_def defaultConnectPorts_def)

text \<open>
  The port check is not closed on every malformed address, as its comment says it is:
  where a bracketed host is followed by more text, \<open>net.SplitHostPort\<close> reports a missing port, and
  an address that contains the words "missing port" turns every other error into that one. Both
  are then accepted with the default port of the scheme, whatever port they name.
\<close>

theorem portAllowed_fails_open:
  fixes s :: "('t, 'time) HTTP_Server"
  assumes "443 \<in> effective_ports s isConnect"
  shows "portAllowed s ''[::1]x:22'' ''https'' isConnect \<and> portAllowed s ''missing port:22:22'' ''https'' isConnect
    \<and> SplitHostPort ''missing port:22:22'' = Inl TooManyColons"
proof -
  have a: "Atoi ''443'' = Some 443" by (simp add: Atoi_def parse_digits_def dec_val_def digit_val_def go_eval)
  have 1: "SplitHostPort ''[::1]x:22'' = Inl MissingPort" "SplitHostPort ''missing port:22:22'' = Inl TooManyColons"
    by (simp_all add: SplitHostPort_def LastIndexByte_def)
  moreover have "Contains (addr_error_text ''[::1]x:22'' MissingPort) ''missing port''"
    "Contains (addr_error_text ''missing port:22:22'' TooManyColons) ''missing port''"
    by (simp_all add: addr_error_text_def go_eval)
  ultimately show ?thesis using a assms by (simp add: portAllowed_def)
qed

theorem portAllowed_fails_open_witness:
  "portAllowed (HTTP_NewServer ref_radix demo_filter False :: (alist, nat) HTTP_Server) ''[::1]x:22'' ''https'' True"
  using portAllowed_fails_open [of "HTTP_NewServer ref_radix demo_filter False :: (alist, nat) HTTP_Server" True]
  by (simp add: effective_ports_def HTTP_NewServer_def defaultConnectPorts_def)

end
