(* ===== verification/HTTP_Proxy.thy ===== *)
theory HTTP_Proxy
  imports HTTP_Policy Go_Path "HOL-Library.Sublist"
begin

text \<open>
  \<^verbatim>\<open>internal/httpfilter/proxy.go\<close> and \<^verbatim>\<open>inject.go\<close>: how a request is dispatched, where it may be
  sent, and which headers the proxy adds to it. A handler returns the new server and what
  happens to the request: a response made here, a raw tunnel, an interception, or forwarding
  (with the mark that says whether the request came out of an intercepted connection). Moving the
  bytes of a tunnel and the TLS handshake are not modelled. A nil request or URL is \<open>None\<close>.
  The listener that bounds the number of connections is a small state machine.
\<close>

section \<open>Handlers\<close>

datatype outcome =
    Respond nat
  | Tunnel string
  | Intercept string
  | Forward http_request bool

definition handleConnect ::
  "('t, 'time) http_env \<Rightarrow> ('t, 'time) HTTP_Server \<Rightarrow> http_request \<Rightarrow> ('t, 'time) HTTP_Server \<times> outcome" where
  "handleConnect V s r =
     (if \<not> portAllowed s (r_Host r) ''https'' True
      then (auditPortBlocked (extractHost (r_Host r)) s, Respond 403)
      else
        (case decideConnect V s (extractHost (r_Host r)) of (s', action) \<Rightarrow>
           (s', case action of
                  actionReject \<Rightarrow> Respond 403
                | actionTunnel \<Rightarrow> Tunnel (r_Host r)
                | actionIntercept \<Rightarrow> Intercept (r_Host r))))"

text \<open>The scheme and host that \<open>requestHandler\<close> fills in.\<close>

definition complete_url :: "string \<Rightarrow> http_request \<Rightarrow> http_request" where
  "complete_url connectTarget r =
     (let u = r_URL r;
          u1 = (if u_Scheme u = [] then u\<lparr>u_Scheme := (if connectTarget \<noteq> [] then ''https'' else ''http'')\<rparr> else u);
          u2 = (if connectTarget \<noteq> [] then u1\<lparr>u_Host := connectTarget\<rparr>
                else if u_Host u1 = [] then u1\<lparr>u_Host := r_Host r\<rparr> else u1)
      in r\<lparr>r_URL := u2\<rparr>)"

definition requestHandler ::
  "('t, 'time) http_env \<Rightarrow> ('t, 'time) HTTP_Server \<Rightarrow> string \<Rightarrow> http_request option \<Rightarrow> ('t, 'time) HTTP_Server \<times> outcome" where
  "requestHandler V s connectTarget req =
     (case req of
        None \<Rightarrow> (s, Respond 400)
      | Some r0 \<Rightarrow>
          (let r = complete_url connectTarget r0; u = r_URL r in
           if connectTarget = [] \<and> \<not> portAllowed s (u_Host u) (u_Scheme u) False
           then (auditPortBlocked (extractHost (u_Host u)) s, Respond 403)
           else
             (case decideRequest V s (Some r) connectTarget of (s', d) \<Rightarrow>
                if \<not> rd_forward d then (s', Respond (rd_status d))
                else (s', Forward r (connectTarget \<noteq> [])))))"

definition handleForward ::
  "('t, 'time) http_env \<Rightarrow> ('t, 'time) HTTP_Server \<Rightarrow> http_request \<Rightarrow> ('t, 'time) HTTP_Server \<times> outcome" where
  "handleForward V s r = requestHandler V s [] (Some r)"

definition ServeHTTP ::
  "('t, 'time) http_env \<Rightarrow> ('t, 'time) HTTP_Server \<Rightarrow> http_request option \<Rightarrow> ('t, 'time) HTTP_Server \<times> outcome" where
  "ServeHTTP V s req =
     (case req of
        None \<Rightarrow> (s, Respond 400)
      | Some r \<Rightarrow>
          if r_Method r = ''CONNECT'' then handleConnect V s r
          else if u_Scheme (r_URL r) \<noteq> [] then handleForward V s r
          else (s, Respond 400))"

section \<open>Secret injection\<close>

definition canonicalHost :: "dom_ext \<Rightarrow> string \<Rightarrow> string" where
  "canonicalHost E host = TrimSuffix (NormalizeDomain E host) ''.''"

text \<open>\<open>textproto.CanonicalMIMEHeaderKey\<close>: a key of token characters gets its letters' case from the
  hyphens, every other key is left alone.\<close>

definition upper_char :: "char \<Rightarrow> char" where
  "upper_char c = (if 97 \<le> code c \<and> code c \<le> 122 then char_of (code c - 32) else c)"

fun canon_from :: "bool \<Rightarrow> string \<Rightarrow> string" where
  "canon_from upper [] = []"
| "canon_from upper (c # s) =
     (let c' = (if upper then upper_char c else lower_char c) in c' # canon_from (c' = CHR ''-'') s)"

definition CanonicalHeaderKey :: "string \<Rightarrow> string" where
  "CanonicalHeaderKey s = (if list_all tchar s then canon_from True s else s)"

definition Header_Del :: "string \<Rightarrow> header \<Rightarrow> header" where
  "Header_Del key h = List.filter (\<lambda>e. fst e \<noteq> CanonicalHeaderKey key) h"

definition Header_Set :: "string \<Rightarrow> string \<Rightarrow> header \<Rightarrow> header" where
  "Header_Set key val h = (CanonicalHeaderKey key, [val]) # Header_Del key h"

text \<open>The map of rules, by canonical host, in the order of the rules.\<close>

fun group_rules :: "dom_ext \<Rightarrow> (string \<times> SecretRule list) list \<Rightarrow> SecretRule list \<Rightarrow> (string \<times> SecretRule list) list" where
  "group_rules E m [] = m"
| "group_rules E m (r # rs) =
     (let key = canonicalHost E (sr_Host r);
          old = (case map_of m key of Some l \<Rightarrow> l | None \<Rightarrow> [])
      in group_rules E ((key, old @ [r]) # List.filter (\<lambda>e. fst e \<noteq> key) m) rs)"

definition SetSecretInjections ::
  "dom_ext \<Rightarrow> SecretRule list \<Rightarrow> ('t, 'time) HTTP_Server \<Rightarrow> ('t, 'time) HTTP_Server" where
  "SetSecretInjections E rules s =
     s\<lparr>hs_secretInjections := Some (group_rules E [] rules),
       hs_audit := hs_audit s @ map (\<lambda>r. (''secret.inject'', sr_Host r)) rules\<rparr>"

definition safeCleanPath :: "http_url \<Rightarrow> string option" where
  "safeCleanPath u =
     (if u_RawPath u \<noteq> [] then None
      else
        (let p = (if u_Path u = [] then ''/'' else u_Path u); clean = path_Clean p in
         if clean = ''..'' \<or> HasPrefix clean ''../'' then None else Some clean))"

definition matchPrefix :: "string \<Rightarrow> string \<Rightarrow> bool" where
  "matchPrefix clean pre =
     (let p = TrimSuffix pre ''/'' in
      if p = [] then True else clean = p \<or> HasPrefix clean (p @ ''/''))"

definition path_applies :: "string option \<Rightarrow> SecretRule \<Rightarrow> bool" where
  "path_applies clean r =
     (case clean of
        None \<Rightarrow> False
      | Some c \<Rightarrow> sr_PathPrefix r = [] \<or> matchPrefix c (sr_PathPrefix r))"

text \<open>The body of the loop of \<open>injectSecrets\<close>.\<close>

definition apply_rule :: "string option \<Rightarrow> bool \<Rightarrow> header \<Rightarrow> SecretRule \<Rightarrow> header" where
  "apply_rule clean echoMethod h r =
     (if sr_Strip r then (if path_applies clean r \<or> clean = None then Header_Del (sr_Header r) h else h)
      else if \<not> path_applies clean r then h
      else if echoMethod then Header_Del (sr_Header r) h
      else Header_Set (sr_Header r) (sr_Value r) h)"

definition bound_rules :: "dom_ext \<Rightarrow> ('t, 'time) HTTP_Server \<Rightarrow> http_request \<Rightarrow> SecretRule list" where
  "bound_rules E s out =
     (case hs_secretInjections s of
        None \<Rightarrow> []
      | Some m \<Rightarrow>
          if m = [] then []
          else (case map_of m (canonicalHost E (extractHost (u_Host (r_URL out)))) of Some l \<Rightarrow> l | None \<Rightarrow> []))"

definition injectSecrets ::
  "dom_ext \<Rightarrow> ('t, 'time) HTTP_Server \<Rightarrow> bool \<Rightarrow> http_request \<Rightarrow> http_request" where
  "injectSecrets E s isMITM out =
     (if \<not> isMITM then out
      else if \<not> mc_active (hs_mode s) then out
      else
        (let rules = bound_rules E s out in
         if rules = [] then out
         else out\<lparr>r_Header := foldl (apply_rule (safeCleanPath (r_URL out)) (r_Method out = ''TRACE''))
                    (r_Header out) rules\<rparr>))"

section \<open>The connection limit\<close>

text \<open>
  \<open>limitedListener\<close> with its semaphore and the \<open>limitedConn\<close>s it returned: for each connection
  whether its slot was released. \<open>Accept\<close> first takes a slot, or waits for one (\<open>None\<close>), and then
  waits for a connection; when that fails it gives the slot back. The first \<open>Close\<close> of a
  connection releases its slot.
\<close>

record limitedListener =
  ll_cap :: nat
  ll_sem :: nat
  ll_pending :: nat
  ll_released :: "bool list"

definition newLimitedListener :: "nat \<Rightarrow> limitedListener" where
  "newLimitedListener n = \<lparr>ll_cap = n, ll_sem = 0, ll_pending = 0, ll_released = []\<rparr>"

definition Accept_begin :: "limitedListener \<Rightarrow> limitedListener option" where
  "Accept_begin l =
     (if ll_cap l \<le> ll_sem l then None
      else Some (l\<lparr>ll_sem := ll_sem l + 1, ll_pending := ll_pending l + 1\<rparr>))"

definition Accept_end :: "bool \<Rightarrow> limitedListener \<Rightarrow> limitedListener option" where
  "Accept_end ok l =
     (if ll_pending l = 0 then None
      else if ok then Some (l\<lparr>ll_pending := ll_pending l - 1, ll_released := ll_released l @ [False]\<rparr>)
      else Some (l\<lparr>ll_sem := ll_sem l - 1, ll_pending := ll_pending l - 1\<rparr>))"

definition limitedConn_Close :: "nat \<Rightarrow> limitedListener \<Rightarrow> limitedListener" where
  "limitedConn_Close i l =
     (if i < length (ll_released l) \<and> \<not> ll_released l ! i
      then l\<lparr>ll_sem := ll_sem l - 1, ll_released := (ll_released l)[i := True]\<rparr>
      else l)"

inductive limited_reach :: "nat \<Rightarrow> limitedListener \<Rightarrow> bool" for n where
  ll_new: "limited_reach n (newLimitedListener n)"
| ll_begin: "limited_reach n l \<Longrightarrow> Accept_begin l = Some l' \<Longrightarrow> limited_reach n l'"
| ll_end: "limited_reach n l \<Longrightarrow> Accept_end ok l = Some l' \<Longrightarrow> limited_reach n l'"
| ll_close: "limited_reach n l \<Longrightarrow> limited_reach n (limitedConn_Close i l)"

section \<open>Properties\<close>

text \<open>
  A request as \<open>net/http\<close> hands it to a handler: when the request line names a host, the \<open>Host\<close> header line is ignored and
  \<open>Request.Host\<close> is that host; otherwise it is the header's.
\<close>

definition wire_host :: "http_request \<Rightarrow> bool" where
  "wire_host r \<longleftrightarrow> u_Host (r_URL r) = [] \<or> r_Host r = u_Host (r_URL r)"

lemma complete_url_wire: "wire_host r \<Longrightarrow> u_Host (r_URL (complete_url [] r)) = r_Host r"
  by (auto simp: wire_host_def complete_url_def Let_def)

text \<open>
  C5 (safety). Where a client of the proxy can get to, for requests as \<open>net/http\<close> delivers them (\<open>wire_host\<close>): a CONNECT is
  answered with a tunnel or an interception only for the target it names, on a permitted port, for a host that the allowlist
  and the SSRF check permit, and a tunnel past a ready interception only for a configured
  exception; a plain request is forwarded only to a host that the allowlist and the SSRF check
  permit (the host of the URL it is sent to, which is also the one it claims), on a permitted port, and
  never with the mark of an intercepted one.
\<close>

theorem ServeHTTP_reaches_permitted_only:
  assumes "ServeHTTP V s (Some r) = (s', out)" and "wire_host r"
  shows "(\<forall>t. out = Tunnel t \<or> out = Intercept t \<longrightarrow>
        t = r_Host r \<and> portAllowed s t ''https'' True \<and> host_permitted V s (extractHost t)
        \<and> (out = Tunnel t \<and> hs_mitmReady s \<longrightarrow> Filter_IsAllowed (he_E V) (he_R V) (hs_mitmExceptions s) (extractHost t)))
    \<and> (\<forall>r' m. out = Forward r' m \<longrightarrow>
        \<not> m \<and> host_permitted V s (extractHost (u_Host (r_URL r'))) \<and> r_Host r' = u_Host (r_URL r') \<and> r_Host r' = r_Host r
        \<and> portAllowed s (u_Host (r_URL r')) (u_Scheme (r_URL r')) False)"
proof (cases "r_Method r = ''CONNECT''")
  case True
  obtain s1 a where d: "decideConnect V s (extractHost (r_Host r)) = (s1, a)" by force
  show ?thesis
    using assms True d decideConnect_permits [OF d]
    by (cases a) (auto simp: ServeHTTP_def handleConnect_def split: if_splits)
next
  case False
  let ?r = "complete_url [] r"
  obtain s1 d where d: "decideRequest V s (Some ?r) [] = (s1, d)" by force
  have h: "r_Host ?r = r_Host r" by (simp add: complete_url_def Let_def)
  show ?thesis
    using assms(1) False d decideRequest_permits [OF d] h complete_url_wire [OF assms(2)]
    by (auto simp: ServeHTTP_def handleForward_def requestHandler_def Let_def split: if_splits)
qed

definition demo_http_env :: "(alist, nat) http_env" where
  "demo_http_env = \<lparr>he_E = ref_ext, he_R = ref_radix, he_clock = ref_clock, he_now = 0, he_io = None, he_fold = (=)\<rparr>"

definition demo_http :: "(alist, nat) HTTP_Server" where
  "demo_http = (HTTP_NewServer ref_radix demo_filter False)\<lparr>hs_mitmReady := True\<rparr>"

definition demo_connect :: http_request where
  "demo_connect = \<lparr>r_Method = ''CONNECT'', r_Host = ''github.com:443'',
     r_URL = \<lparr>u_Scheme = [], u_Host = ''github.com:443'', u_Path = [], u_RawPath = []\<rparr>, r_Header = []\<rparr>"

lemma demo_split: "SplitHostPort ''github.com:443'' = Inr (''github.com'', ''443'')"
  by (simp add: SplitHostPort_def LastIndexByte_def check_brackets_def)

lemma demo_443: "Atoi ''443'' = Some 443"
  by (simp add: Atoi_def parse_digits_def dec_val_def digit_val_def go_eval)

lemma demo_not_ip: "parseHostIP ''github.com'' = None"
  by (simp add: parseHostIP_def ParseIP_def cidr_eval)

lemma demo_connect_result:
  "ServeHTTP demo_http_env demo_http (Some demo_connect) = (demo_http, Intercept ''github.com:443'')"
proof -
  have "portAllowed demo_http ''github.com:443'' ''https'' True"
    by (simp add: portAllowed_def demo_split demo_443 effective_ports_def defaultConnectPorts_def demo_http_def HTTP_NewServer_def)
  moreover have "extractHost ''github.com:443'' = ''github.com''" by (simp add: extractHost_def demo_split)
  moreover have "Filter_IsAllowed ref_ext ref_radix demo_filter ''github.com''" by (simp add: demo_tree filter_eval)
  moreover have "\<not> IsBlocked t ''github.com''" for t by (simp add: IsBlocked_def demo_not_ip)
  moreover have "\<not> Filter_IsAllowed ref_ext ref_radix (NewFilter ref_radix) ''github.com''" by (simp add: filter_eval)
  ultimately show ?thesis
    by (simp add: ServeHTTP_def handleConnect_def demo_connect_def decideConnect_def checkHost_def demo_http_env_def)
      (simp add: demo_http_def HTTP_NewServer_def SetActive_def)
qed

definition demo_get :: http_request where
  "demo_get = \<lparr>r_Method = ''GET'', r_Host = ''github.com:443'',
     r_URL = \<lparr>u_Scheme = ''https'', u_Host = ''github.com:443'', u_Path = ''/'', u_RawPath = []\<rparr>, r_Header = []\<rparr>"

lemma demo_get_result: "\<exists>s'. ServeHTTP demo_http_env demo_http (Some demo_get) = (s', Forward demo_get False)"
proof -
  have c: "complete_url [] demo_get = demo_get" by (simp add: complete_url_def demo_get_def)
  have p: "portAllowed demo_http ''github.com:443'' ''https'' False"
    by (simp add: portAllowed_def demo_split demo_443 effective_ports_def defaultForwardPorts_def demo_http_def HTTP_NewServer_def)
  have "extractHost ''github.com:443'' = ''github.com''" by (simp add: extractHost_def demo_split)
  moreover have "Filter_IsAllowed ref_ext ref_radix demo_filter ''github.com''" by (simp add: demo_tree filter_eval)
  moreover have "\<not> IsBlocked t ''github.com''" for t by (simp add: IsBlocked_def demo_not_ip)
  moreover have "\<not> EqualFold ''github.com'' HTTP_HealthcheckDomain" by (simp add: HTTP_HealthcheckDomain_def go_eval)
  moreover have "r_Host demo_get = ''github.com:443''" "hs_filter demo_http = demo_filter"
    by (simp_all add: demo_get_def demo_http_def HTTP_NewServer_def)
  ultimately have "rd_forward (snd (decideRequest demo_http_env demo_http (Some demo_get) []))"
    by (auto simp: decideRequest_def is_healthcheck_def checkHost_def demo_http_env_def Let_def split: prod.splits if_splits)
  moreover have "r_Method demo_get \<noteq> ''CONNECT''" "u_Scheme (r_URL demo_get) = ''https''" "u_Host (r_URL demo_get) = ''github.com:443''"
    by (simp_all add: demo_get_def)
  ultimately show ?thesis using p c
    by (cases "decideRequest demo_http_env demo_http (Some demo_get) []")
      (simp add: ServeHTTP_def handleForward_def requestHandler_def Let_def)
qed

theorem ServeHTTP_reaches_permitted_only_witness:
  "ServeHTTP demo_http_env demo_http (Some demo_connect) = (demo_http, Intercept ''github.com:443'')
   \<and> snd (ServeHTTP demo_http_env demo_http (Some demo_get)) = Forward demo_get False
   \<and> portAllowed demo_http ''github.com:443'' ''https'' True
   \<and> host_permitted demo_http_env demo_http (extractHost (u_Host (r_URL demo_get)))"
proof -
  have w: "wire_host demo_connect" "wire_host demo_get" by (simp_all add: wire_host_def demo_connect_def demo_get_def)
  obtain s' where g: "ServeHTTP demo_http_env demo_http (Some demo_get) = (s', Forward demo_get False)" using demo_get_result by blast
  have "portAllowed demo_http ''github.com:443'' ''https'' True"
    using ServeHTTP_reaches_permitted_only [OF demo_connect_result w(1)] by metis
  moreover have "host_permitted demo_http_env demo_http (extractHost (u_Host (r_URL demo_get)))"
    using ServeHTTP_reaches_permitted_only [OF g w(2)] by blast
  ultimately show ?thesis using g demo_connect_result by simp
qed

text \<open>
  C8 (safety). Requests inside an intercepted connection: whatever \<open>Host\<close> header they carry, they
  are sent to the CONNECT target, which was vetted, and only if the host they claim is itself
  permitted; so domain fronting through an allowed front reaches nothing that is not allowed.
\<close>

theorem requestHandler_pins_target:
  assumes "requestHandler V s connectTarget (Some r) = (s', Forward r' m)" and "connectTarget \<noteq> []"
  shows "m \<and> u_Host (r_URL r') = connectTarget \<and> host_permitted V s (extractHost (r_Host r'))
    \<and> r_Host r' = r_Host r \<and> r_Header r' = r_Header r"
proof -
  let ?r = "complete_url connectTarget r"
  obtain s1 d where d: "decideRequest V s (Some ?r) connectTarget = (s1, d)" by force
  have "r_Host ?r = r_Host r" "r_Header ?r = r_Header r" "u_Host (r_URL ?r) = connectTarget"
    using assms(2) by (simp_all add: complete_url_def Let_def)
  moreover have "r' = ?r" "m" "rd_forward d" using assms d by (auto simp: requestHandler_def Let_def split: if_splits)
  ultimately show ?thesis using decideRequest_permits [OF d] by simp
qed

definition demo_inner :: http_request where
  "demo_inner = \<lparr>r_Method = ''GET'', r_Host = ''github.com'',
     r_URL = \<lparr>u_Scheme = [], u_Host = [], u_Path = ''/v1/x'', u_RawPath = []\<rparr>, r_Header = [(''Authorization'', [''guest''])]\<rparr>"

lemma demo_inner_result:
  "snd (requestHandler demo_http_env demo_http ''github.com:443'' (Some demo_inner)) =
     Forward (complete_url ''github.com:443'' demo_inner) True"
proof -
  have e: "extractHost ''github.com:443'' = ''github.com''" "extractHost ''github.com'' = ''github.com''"
    by (simp add: extractHost_def demo_split) (simp add: extractHost_def SplitHostPort_def LastIndexByte_def)
  moreover have "Filter_IsAllowed ref_ext ref_radix demo_filter ''github.com''" by (simp add: demo_tree filter_eval)
  moreover have "\<not> IsBlocked t ''github.com''" for t by (simp add: IsBlocked_def demo_not_ip)
  moreover have "\<not> EqualFold ''github.com'' HTTP_HealthcheckDomain" by (simp add: HTTP_HealthcheckDomain_def go_eval)
  moreover have "r_Host (complete_url ''github.com:443'' demo_inner) = ''github.com''"
    by (simp add: complete_url_def demo_inner_def)
  moreover have "hs_filter demo_http = demo_filter" by (simp add: demo_http_def HTTP_NewServer_def)
  ultimately show ?thesis
    by (auto simp: requestHandler_def decideRequest_def is_healthcheck_def checkHost_def demo_http_env_def Let_def
        split: prod.splits if_splits)
qed

theorem requestHandler_pins_target_witness:
  "host_permitted demo_http_env demo_http (extractHost (r_Host demo_inner))"
proof -
  have "requestHandler demo_http_env demo_http ''github.com:443'' (Some demo_inner) =
      (fst (requestHandler demo_http_env demo_http ''github.com:443'' (Some demo_inner)),
       Forward (complete_url ''github.com:443'' demo_inner) True)"
    using demo_inner_result by (metis prod.collapse)
  from requestHandler_pins_target [OF this] show ?thesis by (simp, metis)
qed

lemma map_of_Header_Del: "map_of (Header_Del k h) x = (if x = CanonicalHeaderKey k then None else map_of h x)"
  by (induction h) (auto simp: Header_Del_def)

lemma map_of_Header_Set: "map_of (Header_Set k v h) x = (if x = CanonicalHeaderKey k then Some [v] else map_of h x)"
  by (simp add: Header_Set_def map_of_Header_Del)

definition injects :: "string option \<Rightarrow> bool \<Rightarrow> SecretRule \<Rightarrow> bool" where
  "injects clean echoMethod r \<longleftrightarrow> \<not> sr_Strip r \<and> path_applies clean r \<and> \<not> echoMethod"

lemma apply_rule_header:
  "map_of (apply_rule clean echo h r) k = map_of h k
   \<or> k = CanonicalHeaderKey (sr_Header r)
     \<and> (map_of (apply_rule clean echo h r) k = None \<and> (sr_Strip r \<or> echo)
        \<or> map_of (apply_rule clean echo h r) k = Some [sr_Value r] \<and> injects clean echo r)"
  by (auto simp: apply_rule_def map_of_Header_Del map_of_Header_Set injects_def)

lemma apply_rules_header:
  "map_of (foldl (apply_rule clean echo) h rs) k = map_of h k
   \<or> (\<exists>r\<in>set rs. k = CanonicalHeaderKey (sr_Header r)
        \<and> (map_of (foldl (apply_rule clean echo) h rs) k = None \<and> (sr_Strip r \<or> echo)
           \<or> map_of (foldl (apply_rule clean echo) h rs) k = Some [sr_Value r] \<and> injects clean echo r))"
proof (induction rs rule: rev_induct)
  case (snoc r rs)
  show ?case
    using snoc apply_rule_header [of clean echo "foldl (apply_rule clean echo) h rs" r k] by auto
qed simp

lemma group_rules_bound:
  assumes "map_of (group_rules E m rs) key = Some l" and "r \<in> set l"
  shows "r \<in> set rs \<and> canonicalHost E (sr_Host r) = key \<or> (\<exists>l'. map_of m key = Some l' \<and> r \<in> set l')"
  using assms
proof (induction rs arbitrary: m)
  case (Cons x rs)
  let ?k = "canonicalHost E (sr_Host x)"
  let ?m = "(?k, (case map_of m ?k of Some l \<Rightarrow> l | None \<Rightarrow> []) @ [x]) # List.filter (\<lambda>e. fst e \<noteq> ?k) m"
  have f: "map_of (List.filter (\<lambda>e. fst e \<noteq> ?k) m) key = (if key = ?k then None else map_of m key)"
    by (induction m) auto
  show ?case using Cons.IH [of ?m] Cons.prems f by (auto simp: Let_def split: if_splits option.splits)
qed simp

lemma bound_rules_configured:
  assumes "r \<in> set (bound_rules E (SetSecretInjections E rules s0) out)"
  shows "r \<in> set rules \<and> canonicalHost E (sr_Host r) = canonicalHost E (extractHost (u_Host (r_URL out)))"
proof -
  obtain l where "map_of (group_rules E [] rules) (canonicalHost E (extractHost (u_Host (r_URL out)))) = Some l" "r \<in> set l"
    using assms by (cases "map_of (group_rules E [] rules) (canonicalHost E (extractHost (u_Host (r_URL out))))")
      (auto simp: bound_rules_def SetSecretInjections_def split: if_splits)
  from group_rules_bound [OF this] show ?thesis by simp
qed

text \<open>A path lies under a prefix when its segments, after removing dots and climbing the double dots, start with those of
  the prefix.\<close>

definition under_prefix :: "string \<Rightarrow> string \<Rightarrow> bool" where
  "under_prefix pre p \<longleftrightarrow> prefix (List.filter (\<lambda>w. w \<noteq> []) (Split pre CHR ''/'')) (clean_segments True p)"

lemma filter_prefix_mono: "prefix xs ys \<Longrightarrow> prefix (List.filter P xs) (List.filter P ys)"
  by (auto simp: prefix_def)

lemma Split_trim_slash:
  "List.filter (\<lambda>w. w \<noteq> []) (Split (TrimSuffix pre ''/'') CHR ''/'') = List.filter (\<lambda>w. w \<noteq> []) (Split pre CHR ''/'')"
proof (cases "HasSuffix pre ''/''")
  case True
  then obtain q where "pre = q @ ''/''" by (auto simp: HasSuffix_iff suffix_def)
  then show ?thesis using Split_append_sep [of q "CHR ''/''" "[]"] by (simp add: TrimSuffix_def)
qed (simp add: TrimSuffix_def)

lemma Split_rooted_filter: "list_all normal_seg ss \<Longrightarrow> List.filter (\<lambda>w. w \<noteq> []) (Split (rooted ss) CHR ''/'') = ss"
proof (cases "ss = []")
  case False
  assume n: "list_all normal_seg ss"
  then have "\<forall>w\<in>set ss. w \<noteq> []" by (auto simp: list_all_iff normal_seg_def seg_ok_def)
  then show ?thesis using Split_rooted [OF n False] by simp
qed (simp add: rooted_def)

lemma clean_unrooted_segments: "list_all (\<lambda>w. w \<noteq> [] \<and> CHR ''/'' \<notin> set w) (clean_segments False p)"
proof -
  have "list_all (\<lambda>w. w \<noteq> [] \<and> CHR ''/'' \<notin> set w) (foldl (clean_step False) st ws)"
    if "\<forall>w\<in>set ws. CHR ''/'' \<notin> set w" "list_all (\<lambda>w. w \<noteq> [] \<and> CHR ''/'' \<notin> set w) st" for ws st
    using that by (induction ws arbitrary: st) (auto simp: clean_step_def split: if_splits list.splits)
  then show ?thesis using Split_no_sep by (simp add: clean_segments_def list_all_rev)
qed

lemma rel_Clean_hd: "HasPrefix (path_Clean p) ''/'' \<Longrightarrow> HasPrefix p ''/''"
  using clean_unrooted_segments [of p]
  by (cases p; cases "clean_segments False p"; cases "tl (clean_segments False p)"; cases "hd (clean_segments False p)")
    (auto simp: path_Clean_def Let_def split: if_splits)

lemma matchPrefix_under:
  assumes "matchPrefix (path_Clean p) pre" and "p \<noteq> []" and "HasPrefix pre ''/''"
  shows "under_prefix pre p"
proof (cases "TrimSuffix pre ''/'' = []")
  case True
  then show ?thesis using Split_trim_slash [of pre] by (simp add: under_prefix_def)
next
  case False
  let ?q = "TrimSuffix pre ''/''"
  have m: "path_Clean p = ?q \<or> HasPrefix (path_Clean p) (?q @ ''/'')" using assms(1) False by (simp add: matchPrefix_def Let_def)
  have "HasPrefix ?q ''/''" using assms(3) False
    by (cases pre; cases "tl pre") (auto simp: TrimSuffix_def HasPrefix_iff split: if_splits)
  then have "HasPrefix (path_Clean p) ''/''" using m by (cases ?q; cases "path_Clean p") auto
  then have "HasPrefix p ''/''" by (rule rel_Clean_hd)
  then have c: "path_Clean p = rooted (clean_segments True p)" by (rule path_Clean_rooted)
  have "prefix (Split ?q CHR ''/'') (Split (path_Clean p) CHR ''/'')"
    using m Split_append_sep [of ?q "CHR ''/''"] by (auto simp: HasPrefix_iff prefix_def)
  from filter_prefix_mono [OF this, of "\<lambda>w. w \<noteq> []"] show ?thesis
    unfolding under_prefix_def c Split_rooted_filter [OF clean_segments_normal] Split_trim_slash .
qed

lemma path_applies_under:
  assumes "path_applies (safeCleanPath u) r" and "sr_PathPrefix r = [] \<or> HasPrefix (sr_PathPrefix r) ''/''"
  shows "u_RawPath u = [] \<and> under_prefix (sr_PathPrefix r) (u_Path u)"
proof (cases "sr_PathPrefix r = []")
  case True
  then show ?thesis using assms(1) by (auto simp: under_prefix_def path_applies_def safeCleanPath_def split: if_splits)
next
  case False
  let ?p = "if u_Path u = [] then ''/'' else u_Path u"
  have "u_RawPath u = []" "matchPrefix (path_Clean ?p) (sr_PathPrefix r)"
    using assms(1) False by (auto simp: path_applies_def safeCleanPath_def Let_def split: if_splits)
  moreover have "clean_segments True ?p = clean_segments True (u_Path u)" by (simp add: clean_segments_def clean_step_def)
  ultimately show ?thesis using matchPrefix_under [of ?p "sr_PathPrefix r"] assms(2) False by (simp add: under_prefix_def)
qed

text \<open>
  C9 (safety). The reach of a secret, for a server configured with a list of rules whose path prefixes are empty or start
  with a slash (as \<open>ValidateSecretInjections\<close> demands). The hook changes nothing but headers, and only on intercepted requests in active mode.
  A header it changes is the header of a configured rule whose host, in canonical form, is the host the request is sent to
  (the host of its URL, which \<open>requestHandler\<close> has set to the CONNECT target). It is either removed, by a value-less rule or
  on a TRACE, or set to the value of such a rule that has one, on a request that is not a TRACE and has no escaped path,
  whose path segments, after cleaning, start with the segments of the rule's prefix.
\<close>

theorem injectSecrets_scope:
  assumes "injectSecrets E (SetSecretInjections E rules s0) isMITM out = out'"
    and "\<forall>r\<in>set rules. sr_PathPrefix r = [] \<or> HasPrefix (sr_PathPrefix r) ''/''"
  shows "out' = out\<lparr>r_Header := r_Header out'\<rparr>
    \<and> (\<forall>k. map_of (r_Header out') k = map_of (r_Header out) k
        \<or> isMITM \<and> mc_active (hs_mode s0)
          \<and> (\<exists>r\<in>set rules. canonicalHost E (sr_Host r) = canonicalHost E (extractHost (u_Host (r_URL out)))
              \<and> k = CanonicalHeaderKey (sr_Header r)
              \<and> (map_of (r_Header out') k = None \<and> (sr_Strip r \<or> r_Method out = ''TRACE'')
                 \<or> map_of (r_Header out') k = Some [sr_Value r] \<and> \<not> sr_Strip r \<and> r_Method out \<noteq> ''TRACE''
                   \<and> u_RawPath (r_URL out) = [] \<and> under_prefix (sr_PathPrefix r) (u_Path (r_URL out)))))"
proof (cases "isMITM \<and> mc_active (hs_mode s0)")
  case True
  let ?s = "SetSecretInjections E rules s0"
  let ?c = "safeCleanPath (r_URL out)" and ?t = "r_Method out = ''TRACE''"
  let ?h = "foldl (apply_rule ?c ?t) (r_Header out) (bound_rules E ?s out)"
  have "hs_mode ?s = hs_mode s0" by (simp add: SetSecretInjections_def)
  then have o: "out' = out\<lparr>r_Header := ?h\<rparr>"
    using assms(1) True by (cases "bound_rules E ?s out") (auto simp: injectSecrets_def Let_def)
  have "map_of ?h k = map_of (r_Header out) k
      \<or> (\<exists>r\<in>set rules. canonicalHost E (sr_Host r) = canonicalHost E (extractHost (u_Host (r_URL out)))
          \<and> k = CanonicalHeaderKey (sr_Header r)
          \<and> (map_of ?h k = None \<and> (sr_Strip r \<or> ?t)
             \<or> map_of ?h k = Some [sr_Value r] \<and> \<not> sr_Strip r \<and> \<not> ?t
               \<and> u_RawPath (r_URL out) = [] \<and> under_prefix (sr_PathPrefix r) (u_Path (r_URL out))))" for k
    using apply_rules_header [of ?c ?t "r_Header out" "bound_rules E ?s out" k]
      bound_rules_configured [of _ E rules s0 out] path_applies_under [of "r_URL out"] assms(2)
    unfolding injects_def by blast
  then show ?thesis using True o by simp
next
  case False
  then have "out' = out" using assms(1) by (auto simp: injectSecrets_def SetSecretInjections_def)
  then show ?thesis by simp
qed

definition covers :: "string option \<Rightarrow> SecretRule \<Rightarrow> bool" where
  "covers clean r \<longleftrightarrow> path_applies clean r \<or> sr_Strip r \<and> clean = None"

definition overridden :: "SecretRule list \<Rightarrow> header \<Rightarrow> string \<Rightarrow> bool" where
  "overridden rs h k \<longleftrightarrow> map_of h k = None \<or> (\<exists>r\<in>set rs. \<not> sr_Strip r \<and> map_of h k = Some [sr_Value r])"

lemma apply_rule_covers:
  "covers clean r \<Longrightarrow> overridden [r] (apply_rule clean echo h r) (CanonicalHeaderKey (sr_Header r))"
  by (auto simp: covers_def overridden_def apply_rule_def map_of_Header_Del map_of_Header_Set)

lemma apply_rule_keeps: "overridden rs h k \<Longrightarrow> overridden (rs @ [r]) (apply_rule clean echo h r) k"
  by (auto simp: overridden_def apply_rule_def map_of_Header_Del map_of_Header_Set)

lemma apply_rules_override:
  "r \<in> set rs \<Longrightarrow> covers clean r \<Longrightarrow>
   overridden rs (foldl (apply_rule clean echo) h rs) (CanonicalHeaderKey (sr_Header r))"
proof (induction rs rule: rev_induct)
  case (snoc r' rs)
  let ?h = "foldl (apply_rule clean echo) h rs"
  show ?case
  proof (cases "r \<in> set rs")
    case True
    then show ?thesis using snoc apply_rule_keeps [of rs ?h] by simp
  next
    case False
    then have "r' = r" using snoc.prems by simp
    then show ?thesis using apply_rule_covers [OF snoc.prems(2), of echo ?h] by (auto simp: overridden_def)
  qed
qed simp

text \<open>
  C11 (safety). The guest cannot use its own credential on a bound host: where a rule applies to an
  intercepted request in active mode (and wherever the path cannot be normalized, if the rule is
  value-less), the rule's header leaves the proxy absent or with the value of a rule, never
  with what the guest sent.
\<close>

theorem injectSecrets_overrides_guest:
  assumes "injectSecrets E s True out = out'" and "mc_active (hs_mode s)" and "r \<in> set (bound_rules E s out)"
    and "covers (safeCleanPath (r_URL out)) r"
  shows "map_of (r_Header out') (CanonicalHeaderKey (sr_Header r)) = None
    \<or> (\<exists>r'\<in>set (bound_rules E s out). \<not> sr_Strip r' \<and>
         map_of (r_Header out') (CanonicalHeaderKey (sr_Header r)) = Some [sr_Value r'])"
proof -
  have "out' = out\<lparr>r_Header := foldl (apply_rule (safeCleanPath (r_URL out)) (r_Method out = ''TRACE'')) (r_Header out) (bound_rules E s out)\<rparr>"
    using assms(1-3) by (auto simp: injectSecrets_def Let_def)
  then show ?thesis using apply_rules_override [OF assms(3,4)] by (simp add: overridden_def)
qed

definition demo_rule :: SecretRule where
  "demo_rule = \<lparr>sr_Key = ''TOKEN'', sr_Host = ''github.com'', sr_Header = ''Authorization'', sr_Value = ''Bearer s'',
     sr_PathPrefix = ''/v1'', sr_Strip = False\<rparr>"

definition demo_secret :: "(alist, nat) HTTP_Server" where
  "demo_secret = SetSecretInjections ref_ext [demo_rule] demo_http"

definition demo_out :: http_request where
  "demo_out = complete_url ''github.com:443'' demo_inner"

lemma demo_bound: "bound_rules ref_ext demo_secret demo_out = [demo_rule]"
proof -
  have "canonicalHost ref_ext ''github.com'' = ''github.com''" by (simp add: canonicalHost_def filter_eval)
  moreover have "extractHost (u_Host (r_URL demo_out)) = ''github.com''"
    by (simp add: demo_out_def complete_url_def extractHost_def demo_split Let_def)
  ultimately show ?thesis
    by (simp add: bound_rules_def demo_secret_def SetSecretInjections_def) (simp add: demo_rule_def)
qed

lemma demo_path: "safeCleanPath (r_URL demo_out) = Some ''/v1/x''" "path_applies (Some ''/v1/x'') demo_rule"
  by (simp_all add: safeCleanPath_def demo_out_def complete_url_def demo_inner_def path_Clean_def clean_segments_def
      clean_step_def Let_def path_applies_def demo_rule_def matchPrefix_def go_eval)

lemma demo_key: "CanonicalHeaderKey ''Authorization'' = ''Authorization''"
  by (simp add: CanonicalHeaderKey_def upper_char_def tchar_def Let_def go_eval)

lemma demo_active: "mc_active (hs_mode demo_secret)"
  by (simp add: demo_secret_def SetSecretInjections_def demo_http_def HTTP_NewServer_def SetActive_def)

lemma demo_injected:
  "injectSecrets ref_ext demo_secret True demo_out = demo_out\<lparr>r_Header := [(''Authorization'', [''Bearer s''])]\<rparr>"
  using demo_path demo_active
  by (simp add: injectSecrets_def demo_bound apply_rule_def demo_rule_def Header_Set_def Header_Del_def demo_key)
    (simp add: demo_out_def complete_url_def demo_inner_def Let_def)

theorem injectSecrets_scope_witness:
  "map_of (r_Header demo_out) ''Authorization'' = Some [''guest'']
   \<and> map_of (r_Header (injectSecrets ref_ext demo_secret True demo_out)) ''Authorization'' = Some [''Bearer s'']
   \<and> canonicalHost ref_ext (sr_Host demo_rule) = canonicalHost ref_ext (extractHost (u_Host (r_URL demo_out)))
   \<and> under_prefix (sr_PathPrefix demo_rule) (u_Path (r_URL demo_out)) \<and> \<not> under_prefix (sr_PathPrefix demo_rule) ''/v10/x''"
proof -
  have g: "map_of (r_Header demo_out) ''Authorization'' = Some [''guest'']"
    by (simp add: demo_out_def complete_url_def demo_inner_def Let_def)
  have n: "\<not> under_prefix (sr_PathPrefix demo_rule) ''/v10/x''"
    by (simp add: under_prefix_def demo_rule_def clean_segments_def clean_step_def)
  have "\<forall>r\<in>set [demo_rule]. sr_PathPrefix r = [] \<or> HasPrefix (sr_PathPrefix r) ''/''" by (simp add: demo_rule_def)
  from injectSecrets_scope [OF demo_injected [unfolded demo_secret_def] this, THEN conjunct2, THEN spec, of "''Authorization''"] g n
  show ?thesis by (simp add: demo_injected)
qed

theorem injectSecrets_overrides_guest_witness:
  "map_of (r_Header demo_out) ''Authorization'' = Some [''guest'']
   \<and> map_of (r_Header (injectSecrets ref_ext demo_secret True demo_out)) ''Authorization'' \<noteq> Some [''guest'']"
proof -
  have c: "covers (safeCleanPath (r_URL demo_out)) demo_rule" using demo_path by (simp add: covers_def)
  have k: "sr_Header demo_rule = ''Authorization''" "sr_Value demo_rule \<noteq> ''guest''" by (simp_all add: demo_rule_def)
  have "map_of (r_Header (injectSecrets ref_ext demo_secret True demo_out)) ''Authorization'' \<noteq> Some [''guest'']"
    using injectSecrets_overrides_guest [OF refl demo_active _ c, of ref_ext] k by (auto simp: demo_bound demo_key)
  then show ?thesis by (simp add: demo_out_def complete_url_def demo_inner_def Let_def)
qed

text \<open>
  The prefix of a rule matches whole path segments: on a rooted path, the test on
  the cleaned text accepts exactly the paths whose segments, after removing dots and climbing the
  double dots, start with the segments of the prefix; \<open>/v1\<close> never matches \<open>/v10\<close>, and no \<open>..\<close>
  escapes from a prefix.
\<close>

theorem matchPrefix_segments:
  assumes "p \<noteq> []" and "hd p = CHR ''/''" and "ps \<noteq> []" and "list_all seg_ok ps"
  shows "matchPrefix (path_Clean p) (CHR ''/'' # Join ps ''/'') \<longleftrightarrow> prefix ps (clean_segments True p)"
proof -
  have "list_all seg_ok (clean_segments True p)"
    using clean_segments_ok [of p] by (simp add: list_all_iff)
  moreover have "TrimSuffix (CHR ''/'' # Join ps ''/'') ''/'' = CHR ''/'' # Join ps ''/''"
    using last_Join_seg [OF assms(3,4)] by (simp add: HasSuffix_single)
  ultimately show ?thesis
    using assms Join_prefix_segments [OF assms(3,4), of "clean_segments True p"]
    by (simp add: matchPrefix_def path_Clean_def HasPrefix_iff)
qed

theorem matchPrefix_segments_witness:
  "\<not> matchPrefix (path_Clean ''/v1/../v10/x'') (CHR ''/'' # Join [''v1''] ''/'')"
proof -
  have "clean_segments True ''/v1/../v10/x'' = [''v10'', ''x'']" by (simp add: clean_segments_def clean_step_def)
  then show ?thesis using matchPrefix_segments [of "''/v1/../v10/x''" "[''v1'']"] by (simp add: seg_ok_def)
qed

text \<open>
  C38 (invariant). The connection limit holds: in every state of the listener the connections that
  are not closed, together with the accepts that hold a slot, are as many as the slots taken, and
  at most as many as the limit, however often a connection is closed.
\<close>

theorem limitedListener_bounded:
  "limited_reach n l \<Longrightarrow>
     ll_cap l = n \<and> ll_sem l = ll_pending l + length (List.filter Not (ll_released l)) \<and> ll_sem l \<le> n"
proof (induction rule: limited_reach.induct)
  case (ll_close l i)
  show ?case
  proof (cases "i < length (ll_released l) \<and> \<not> ll_released l ! i")
    case True
    let ?rs = "ll_released l"
    have rs: "?rs = take i ?rs @ ?rs ! i # drop (Suc i) ?rs" using True id_take_nth_drop by blast
    have "?rs[i := True] = take i ?rs @ True # drop (Suc i) ?rs" using True by (simp add: upd_conv_take_nth_drop)
    moreover have "length (List.filter Not ?rs) = Suc (length (List.filter Not (take i ?rs @ drop (Suc i) ?rs)))"
      using True by (subst rs) simp
    ultimately show ?thesis using ll_close True by (simp add: limitedConn_Close_def)
  next
    case False
    then show ?thesis using ll_close unfolding limitedConn_Close_def by presburger
  qed
qed (auto simp: newLimitedListener_def Accept_begin_def Accept_end_def split: if_splits)

theorem limitedListener_bounded_witness:
  "ll_sem (the (Accept_end True (the (Accept_begin (newLimitedListener 2))))) = 1
   \<and> ll_sem (the (Accept_end True (the (Accept_begin (newLimitedListener 2))))) \<le> 2"
proof -
  let ?a = "the (Accept_begin (newLimitedListener 2))"
  let ?b = "the (Accept_end True ?a)"
  have "limited_reach 2 ?a"
    by (rule ll_begin [OF ll_new]) (simp add: Accept_begin_def newLimitedListener_def)
  then have "limited_reach 2 ?b"
    by (rule ll_end [of _ _ True]) (simp add: Accept_begin_def Accept_end_def newLimitedListener_def)
  from limitedListener_bounded [OF this] show ?thesis
    by (simp add: Accept_begin_def Accept_end_def newLimitedListener_def)
qed

end
