(* ===== verification/Config.thy ===== *)
theory Config
  imports Complex_Main Config_Paths HTTP_Proxy
begin

text \<open>
  \<^verbatim>\<open>internal/config/config.go\<close>, \<^verbatim>\<open>global.go\<close>, \<^verbatim>\<open>version.go\<close>, \<^verbatim>\<open>backendconfig.go\<close>: the configuration of an
  instance, its validation, how it is stored and loaded, how subnets are allocated, and the
  lock that serializes instance creation.

  The YAML library is a parameter (\<open>yaml_ops\<close>), as are SHA-256 and the host-route prober. Warnings and debug logs are left out.
\<close>

section \<open>Data\<close>

datatype any = AnyString string | AnyInt int | AnyInt64 int | AnyFloat64 rat | AnyFloat32 rat | AnyBool bool | AnyOther

record DNSConfig =
  dc_Port :: int
  dc_Upstream :: string
  dc_LogLevel :: string

record SecretInjection =
  si_Key :: string
  si_Host :: string
  si_Header :: string
  si_PathPrefix :: string
  si_ValuePrefix :: string

record HTTPConfig =
  hc_Port :: int
  hc_LogLevel :: string
  hc_MITM :: bool
  hc_MaxConnections :: int
  hc_AllowPrivateTargets :: "string list"
  hc_AllowedPorts :: "int list"
  hc_SecretInjections :: "SecretInjection list"
  hc_MITMExceptions :: "string list"

record MonitorConfig =
  mon_Enabled :: bool
  mon_Version :: string
  mon_KprobeMulti :: bool
  mon_Kprobes :: "string list option"
  mon_Policies :: "string list"

record Instance =
  i_Version :: int
  i_Name :: string
  i_Backend :: string
  i_BackendConfig :: "(string \<rightharpoonup> any) option"
  i_StorageDir :: string
  i_CPUs :: int
  i_Memory :: int
  i_Base :: string
  i_Subnet :: string
  i_Gateway :: string
  i_Bridge :: string
  i_DNS :: DNSConfig
  i_HTTP :: HTTPConfig
  i_Monitor :: MonitorConfig
  i_Provision :: "string list"
  i_SSHKey :: string
  i_User :: string
  i_Disk :: string
  i_MACAddress :: string
  i_IPAddress :: string

record GlobalConfig =
  gc_Version :: int
  gc_SubnetPool :: string

definition CurrentInstanceVersion :: int where "CurrentInstanceVersion = 1"
definition CurrentGlobalVersion :: int where "CurrentGlobalVersion = 1"
definition DefaultHTTPMaxConnections :: int where "DefaultHTTPMaxConnections = 512"

definition DefaultInstance :: "string \<Rightarrow> Instance" where
  "DefaultInstance name =
     \<lparr>i_Version = CurrentInstanceVersion, i_Name = name, i_Backend = [], i_BackendConfig = None, i_StorageDir = [],
      i_CPUs = 2, i_Memory = 4096, i_Base = ''ubuntu-24.04'', i_Subnet = [], i_Gateway = [], i_Bridge = [],
      i_DNS = \<lparr>dc_Port = 0, dc_Upstream = [], dc_LogLevel = []\<rparr>,
      i_HTTP = \<lparr>hc_Port = 0, hc_LogLevel = [], hc_MITM = True, hc_MaxConnections = DefaultHTTPMaxConnections,
        hc_AllowPrivateTargets = [], hc_AllowedPorts = [], hc_SecretInjections = [], hc_MITMExceptions = []\<rparr>,
      i_Monitor = \<lparr>mon_Enabled = False, mon_Version = [], mon_KprobeMulti = False, mon_Kprobes = None, mon_Policies = []\<rparr>,
      i_Provision = [], i_SSHKey = [], i_User = [], i_Disk = ''20G'', i_MACAddress = [], i_IPAddress = []\<rparr>"

definition DefaultUserForBase :: "string \<Rightarrow> string" where
  "DefaultUserForBase base =
     (if HasPrefix base ''almalinux-'' then ''almalinux''
      else if HasPrefix base ''rocky-'' then ''cloud-user''
      else if HasPrefix base ''centos-'' then ''centos''
      else if HasPrefix base ''debian-'' then ''debian''
      else ''ubuntu'')"

definition GetUser :: "Instance \<Rightarrow> string" where
  "GetUser i = (if i_User i \<noteq> [] then i_User i else DefaultUserForBase (i_Base i))"

definition GetBackend :: "Instance \<Rightarrow> string" where
  "GetBackend i = i_Backend i"

text \<open>\<open>GenerateBridgeName\<close>; \<open>sum256\<close> is SHA-256, printed as two hexadecimal digits per byte.\<close>

definition GenerateBridgeName :: "(string \<Rightarrow> u8 list) \<Rightarrow> string \<Rightarrow> string" where
  "GenerateBridgeName sum256 instanceName =
     (if length (''abox-'' @ instanceName) \<le> 15 then ''abox-'' @ instanceName
      else ''ab-'' @ hex_bytes (take 6 (sum256 instanceName)))"

text \<open>The typed accessors of \<open>BackendConfig\<close>. A nil map is \<open>None\<close>; a floating-point value is truncated
  toward zero (the conversion of a value outside the range of \<open>int\<close> is left to the platform by Go).\<close>

definition backend_value :: "Instance option \<Rightarrow> string \<Rightarrow> any option" where
  "backend_value i key =
     (case i of
        None \<Rightarrow> None
      | Some inst \<Rightarrow> (case i_BackendConfig inst of None \<Rightarrow> None | Some m \<Rightarrow> m key))"

definition BackendString :: "Instance option \<Rightarrow> string \<Rightarrow> string \<times> bool" where
  "BackendString i key = (case backend_value i key of Some (AnyString s) \<Rightarrow> (s, True) | _ \<Rightarrow> ([], False))"

definition trunc_rat :: "rat \<Rightarrow> int" where
  "trunc_rat q = (if q < 0 then ceiling q else floor q)"

definition BackendInt :: "Instance option \<Rightarrow> string \<Rightarrow> int \<times> bool" where
  "BackendInt i key =
     (case backend_value i key of
        Some (AnyInt n) \<Rightarrow> (n, True)
      | Some (AnyInt64 n) \<Rightarrow> (n, True)
      | Some (AnyFloat64 q) \<Rightarrow> (trunc_rat q, True)
      | Some (AnyFloat32 q) \<Rightarrow> (trunc_rat q, True)
      | _ \<Rightarrow> (0, False))"

definition BackendBool :: "Instance option \<Rightarrow> string \<Rightarrow> bool \<times> bool" where
  "BackendBool i key = (case backend_value i key of Some (AnyBool b) \<Rightarrow> (b, True) | _ \<Rightarrow> (False, False))"

section \<open>Validation\<close>

datatype inj_error =
    InjKey val_error | InjWildcard string | InjHost val_error | InjHeader val_error | InjValue val_error | InjPath
  | InjDuplicate string string

datatype mitm_error =
    MitmWildcard nat string | MitmHost nat val_error | MitmDuplicate nat string | MitmConflict nat string

datatype config_error =
    CfgPath path_error | CfgRead os_error | CfgWrite os_error | CfgParse | CfgMarshal
  | CfgVersionMissing string | CfgVersionNewer string int | CfgVersionType
  | CfgName val_error | CfgUser val_error | CfgMAC val_error | CfgDNSLog val_error | CfgHTTPLog val_error
  | CfgMaxConns int | CfgCIDR string | CfgPort int | CfgInjection "nat \<times> inj_error" | CfgMITM mitm_error
  | CfgResources val_error | CfgDisk val_error
  | CfgReadDir os_error | CfgRemove os_error
  | CfgPool string | CfgNoIPv6 | CfgNoSubnet string
  | CfgSubnetInvalid string | CfgNot24 nat | CfgNotNetwork u8 | CfgSubnetUsed string string
  | CfgLockHeld | CfgLockDir os_error | CfgLockOpen os_error | CfgLock os_error | CfgUnlock os_error | CfgClose os_error

text \<open>One entry of \<open>ValidateSecretInjections\<close>, and the loop with its set of seen keys.\<close>

definition dedupe_key :: "dom_ext \<Rightarrow> SecretInjection \<Rightarrow> string" where
  "dedupe_key E si = NormalizeDomain E (si_Host si) @ [char_of (0 :: nat)] @ ToLower (unicode_ToLower E) (si_Header si)"

definition check_injection :: "SecretInjection \<Rightarrow> inj_error option" where
  "check_injection si =
     (case ValidateSecretKey (si_Key si) of
        Some e \<Rightarrow> Some (InjKey e)
      | None \<Rightarrow>
          if HasPrefix (si_Host si) ''*.'' then Some (InjWildcard (si_Host si))
          else (case ValidateDomain (si_Host si) of
             Some e \<Rightarrow> Some (InjHost e)
           | None \<Rightarrow> (case ValidateHTTPHeaderName (si_Header si) of
                Some e \<Rightarrow> Some (InjHeader e)
              | None \<Rightarrow> (case ValidateHTTPHeaderValue (si_ValuePrefix si) of
                   Some e \<Rightarrow> Some (InjValue e)
                 | None \<Rightarrow>
                     if si_PathPrefix si \<noteq> [] \<and> \<not> HasPrefix (si_PathPrefix si) ''/'' then Some InjPath else None))))"

fun injections_from :: "dom_ext \<Rightarrow> nat \<Rightarrow> string set \<Rightarrow> SecretInjection list \<Rightarrow> (nat \<times> inj_error) option" where
  "injections_from E i seen [] = None"
| "injections_from E i seen (si # sis) =
     (case check_injection si of
        Some e \<Rightarrow> Some (i, e)
      | None \<Rightarrow>
          if dedupe_key E si \<in> seen then Some (i, InjDuplicate (si_Host si) (si_Header si))
          else injections_from E (Suc i) (insert (dedupe_key E si) seen) sis)"

definition ValidateSecretInjections :: "dom_ext \<Rightarrow> SecretInjection list \<Rightarrow> (nat \<times> inj_error) option" where
  "ValidateSecretInjections E injections = injections_from E 0 {} injections"

definition exception_host :: "string \<Rightarrow> string" where
  "exception_host host = TrimPrefix (TrimSpace host) ''*.''"

fun exceptions_from ::
  "dom_ext \<Rightarrow> 't radix_ops \<Rightarrow> nat \<Rightarrow> string set \<Rightarrow> 't Filter \<Rightarrow> string list \<Rightarrow> mitm_error + 't Filter" where
  "exceptions_from E R i seen matcher [] = Inr matcher"
| "exceptions_from E R i seen matcher (host # hosts) =
     (let b = exception_host host; norm = NormalizeDomain E b in
      if Contains b ''*'' then Inl (MitmWildcard i host)
      else (case ValidateDomain (TrimSuffix norm ''.'') of
              Some e \<Rightarrow> Inl (MitmHost i e)
            | None \<Rightarrow>
                if norm \<in> seen then Inl (MitmDuplicate i host)
                else exceptions_from E R (Suc i) (insert norm seen) (fst (Filter_Add E R matcher b)) hosts))"

fun conflicts_from :: "dom_ext \<Rightarrow> 't radix_ops \<Rightarrow> nat \<Rightarrow> 't Filter \<Rightarrow> SecretInjection list \<Rightarrow> mitm_error option" where
  "conflicts_from E R j matcher [] = None"
| "conflicts_from E R j matcher (si # sis) =
     (if Filter_IsAllowed E R matcher (si_Host si) then Some (MitmConflict j (si_Host si))
      else conflicts_from E R (Suc j) matcher sis)"

definition ValidateMITMExceptions ::
  "dom_ext \<Rightarrow> 't radix_ops \<Rightarrow> string list \<Rightarrow> SecretInjection list \<Rightarrow> mitm_error option" where
  "ValidateMITMExceptions E R exceptions injections =
     (if exceptions = [] then None
      else (case exceptions_from E R 0 {} (NewFilter R) exceptions of
              Inl e \<Rightarrow> Some e
            | Inr matcher \<Rightarrow> conflicts_from E R 0 matcher injections))"

definition validateHTTPConfig :: "dom_ext \<Rightarrow> 't radix_ops \<Rightarrow> HTTPConfig \<Rightarrow> config_error option" where
  "validateHTTPConfig E R h =
     (case ValidateLogLevel (unicode_ToLower E) (hc_LogLevel h) of
        Some e \<Rightarrow> Some (CfgHTTPLog e)
      | None \<Rightarrow>
          if hc_MaxConnections h < 0 then Some (CfgMaxConns (hc_MaxConnections h))
          else (case find (\<lambda>cidr. ParseCIDR cidr = None) (hc_AllowPrivateTargets h) of
             Some cidr \<Rightarrow> Some (CfgCIDR cidr)
           | None \<Rightarrow> (case find (\<lambda>p. p < 1 \<or> p > 65535) (hc_AllowedPorts h) of
                Some p \<Rightarrow> Some (CfgPort p)
              | None \<Rightarrow> (case ValidateSecretInjections E (hc_SecretInjections h) of
                   Some e \<Rightarrow> Some (CfgInjection e)
                 | None \<Rightarrow> map_option CfgMITM (ValidateMITMExceptions E R (hc_MITMExceptions h) (hc_SecretInjections h))))))"

definition Instance_Validate :: "dom_ext \<Rightarrow> 't radix_ops \<Rightarrow> Instance \<Rightarrow> config_error option" where
  "Instance_Validate E R i =
     (case ValidateInstanceName (i_Name i) of Some e \<Rightarrow> Some (CfgName e) | None \<Rightarrow>
      case (if i_User i \<noteq> [] then ValidateSSHUser (i_User i) else None) of Some e \<Rightarrow> Some (CfgUser e) | None \<Rightarrow>
      case (if i_MACAddress i \<noteq> [] then ValidateMACAddress (i_MACAddress i) else None) of Some e \<Rightarrow> Some (CfgMAC e) | None \<Rightarrow>
      case ValidateLogLevel (unicode_ToLower E) (dc_LogLevel (i_DNS i)) of Some e \<Rightarrow> Some (CfgDNSLog e) | None \<Rightarrow>
      case validateHTTPConfig E R (i_HTTP i) of Some e \<Rightarrow> Some e | None \<Rightarrow>
      case validateStorageDir (i_StorageDir i) of Some e \<Rightarrow> Some (CfgPath e) | None \<Rightarrow>
      case ValidateResourceLimits (i_CPUs i) (i_Memory i) of Some e \<Rightarrow> Some (CfgResources e) | None \<Rightarrow>
      map_option CfgDisk (ValidateDiskSize (i_Disk i)))"

definition CheckVersion :: "int \<Rightarrow> int \<Rightarrow> string \<Rightarrow> config_error option" where
  "CheckVersion version current configType =
     (if version = 0 then Some (CfgVersionMissing configType)
      else if current < version then Some (CfgVersionNewer configType version)
      else None)"

section \<open>Storing and loading\<close>

record yaml_ops =
  yaml_Unmarshal :: "string \<Rightarrow> Instance option"
  yaml_Marshal :: "Instance \<Rightarrow> string option"
  yaml_Raw :: "string \<Rightarrow> (string \<rightharpoonup> any) option"
  yaml_Global :: "string \<Rightarrow> GlobalConfig \<Rightarrow> GlobalConfig option"

text \<open>Everything the operations take from outside the package.\<close>

record ('fs, 't) config_env =
  ce_F :: "'fs FileSystem"
  ce_P :: proc_env
  ce_E :: dom_ext
  ce_R :: "'t radix_ops"
  ce_Y :: yaml_ops

abbreviation ce_paths :: "('fs, 't) config_env \<Rightarrow> 'fs \<Rightarrow> string \<Rightarrow> string \<Rightarrow> path_error + Paths" where
  "ce_paths C fs name st \<equiv> GetPathsWithStorage (ce_F C) (ce_P C) fs name st"

definition Config_Load :: "('fs, 't) config_env \<Rightarrow> 'fs \<Rightarrow> string \<Rightarrow> config_error + (Instance \<times> Paths)" where
  "Config_Load C fs name =
     (case GetPaths (ce_F C) (ce_P C) fs name of
        Inl e \<Rightarrow> Inl (CfgPath e)
      | Inr initialPaths \<Rightarrow>
     (case ReadFile (ce_F C) fs (p_Config initialPaths) of
        Inl e \<Rightarrow> Inl (CfgRead e)
      | Inr data \<Rightarrow>
     (case yaml_Unmarshal (ce_Y C) data of
        None \<Rightarrow> Inl CfgParse
      | Some inst \<Rightarrow>
     (case CheckVersion (i_Version inst) CurrentInstanceVersion ''instance config'' of
        Some e \<Rightarrow> Inl e
      | None \<Rightarrow>
     (case Instance_Validate (ce_E C) (ce_R C) inst of
        Some e \<Rightarrow> Inl e
      | None \<Rightarrow>
          if i_StorageDir inst \<noteq> [] then
            (let inst = inst\<lparr>i_StorageDir := path_Clean (i_StorageDir inst)\<rparr> in
             case ce_paths C fs name (i_StorageDir inst) of
               Inl e \<Rightarrow> Inl (CfgPath e)
             | Inr paths \<Rightarrow> Inr (inst, paths))
          else Inr (inst, initialPaths))))))"

definition Config_Save :: "('fs, 't) config_env \<Rightarrow> 'fs \<Rightarrow> Instance \<Rightarrow> Paths \<Rightarrow> 'fs \<times> config_error option" where
  "Config_Save C fs inst paths =
     (case yaml_Marshal (ce_Y C) inst of
        None \<Rightarrow> (fs, Some CfgMarshal)
      | Some data \<Rightarrow>
          (case WriteFile (ce_F C) fs (p_Config paths) data 384 of
             (fs', e) \<Rightarrow> (fs', map_option CfgWrite e)))"

definition Config_Exists :: "('fs, 't) config_env \<Rightarrow> 'fs \<Rightarrow> string \<Rightarrow> bool" where
  "Config_Exists C fs name =
     (case GetPaths (ce_F C) (ce_P C) fs name of
        Inl _ \<Rightarrow> False
      | Inr paths \<Rightarrow> (case Stat (ce_F C) fs (p_Config paths) of Inl _ \<Rightarrow> False | Inr _ \<Rightarrow> True))"

definition has_config :: "('fs, 't) config_env \<Rightarrow> 'fs \<Rightarrow> Paths \<Rightarrow> DirEntry \<Rightarrow> bool" where
  "has_config C fs paths entry =
     (de_IsDir entry
      \<and> (case Stat (ce_F C) fs (filepath_Join [p_Instances paths, de_Name entry, ''config.yaml'']) of Inl _ \<Rightarrow> False | Inr _ \<Rightarrow> True))"

definition Config_List :: "('fs, 't) config_env \<Rightarrow> 'fs \<Rightarrow> config_error + string list" where
  "Config_List C fs =
     (case GetPaths (ce_F C) (ce_P C) fs [] of
        Inl e \<Rightarrow> Inl (CfgPath e)
      | Inr paths \<Rightarrow>
          (case ReadDir (ce_F C) fs (p_Instances paths) of
             Inl e \<Rightarrow> if e = os_error.ErrNotExist then Inr [] else Inl (CfgReadDir e)
           | Inr entries \<Rightarrow> Inr (map de_Name (List.filter (has_config C fs paths) entries))))"

definition Config_Delete :: "('fs, 't) config_env \<Rightarrow> 'fs \<Rightarrow> string \<Rightarrow> 'fs \<times> config_error option" where
  "Config_Delete C fs name =
     (case GetPaths (ce_F C) (ce_P C) fs name of
        Inl e \<Rightarrow> (fs, Some (CfgPath e))
      | Inr paths \<Rightarrow>
          (case RemoveAll (ce_F C) fs (p_Instance paths) of (fs', e) \<Rightarrow> (fs', map_option CfgRemove e)))"

text \<open>The global configuration is read with the functions of the \<open>os\<close> package; a version that is not an
  integer is an error.\<close>

definition DefaultGlobalConfig :: GlobalConfig where
  "DefaultGlobalConfig = \<lparr>gc_Version = CurrentGlobalVersion, gc_SubnetPool = ''10.10.0.0/16''\<rparr>"

definition GetGlobalConfigPath :: "('fs, 't) config_env \<Rightarrow> 'fs \<Rightarrow> string" where
  "GetGlobalConfigPath C fs =
     (let configHome = Getenv (ce_F C) fs ''XDG_CONFIG_HOME'' in
      if configHome = [] then
        (case UserHomeDir (ce_F C) fs of
           Inl _ \<Rightarrow> []
         | Inr home \<Rightarrow> filepath_Join [filepath_Join [home, ''.config''], ''abox'', ''config.yaml''])
      else filepath_Join [configHome, ''abox'', ''config.yaml''])"

definition LoadGlobalConfig :: "('fs, 't) config_env \<Rightarrow> 'fs \<Rightarrow> config_error + GlobalConfig" where
  "LoadGlobalConfig C fs =
     (let path = GetGlobalConfigPath C fs in
      if path = [] then Inr DefaultGlobalConfig
      else
     (case ReadFile (ce_F C) fs path of
        Inl e \<Rightarrow> if e = os_error.ErrNotExist then Inr DefaultGlobalConfig else Inl (CfgRead e)
      | Inr data \<Rightarrow>
     (case yaml_Raw (ce_Y C) data of
        None \<Rightarrow> Inl CfgParse
      | Some raw \<Rightarrow>
     (case raw ''version'' of
        None \<Rightarrow> (case CheckVersion 0 CurrentGlobalVersion ''global config'' of Some e \<Rightarrow> Inl e | None \<Rightarrow> Inr DefaultGlobalConfig)
      | Some rawVersion \<Rightarrow>
     (case yaml_Global (ce_Y C) data DefaultGlobalConfig of
        None \<Rightarrow> Inl CfgParse
      | Some cfg \<Rightarrow>
     (case rawVersion of
        AnyInt version \<Rightarrow>
          (case CheckVersion version CurrentGlobalVersion ''global config'' of Some e \<Rightarrow> Inl e | None \<Rightarrow> Inr cfg)
      | _ \<Rightarrow> Inl CfgVersionType))))))"

section \<open>Subnets\<close>

definition octet :: "u8 \<Rightarrow> string" where "octet b = Itoa (unat b)"

definition DeriveHostIP :: "string \<Rightarrow> string" where
  "DeriveHostIP gateway =
     (case ParseIP gateway of
        None \<Rightarrow> []
      | Some ip \<Rightarrow>
          (case To4 ip of
             None \<Rightarrow> []
           | Some ip4 \<Rightarrow> octet (ip4 ! 0) @ ''.'' @ octet (ip4 ! 1) @ ''.'' @ octet (ip4 ! 2) @ ''.10''))"

fun used_from :: "('fs, 't) config_env \<Rightarrow> 'fs \<Rightarrow> string list \<Rightarrow> string list" where
  "used_from C fs [] = []"
| "used_from C fs (name # names) =
     (case Config_Load C fs name of
        Inl _ \<Rightarrow> used_from C fs names
      | Inr (inst, _) \<Rightarrow>
          if i_Subnet inst \<noteq> [] then i_Subnet inst # used_from C fs names else used_from C fs names)"

definition UsedInstanceSubnets :: "('fs, 't) config_env \<Rightarrow> 'fs \<Rightarrow> config_error + string set" where
  "UsedInstanceSubnets C fs =
     (case Config_List C fs of Inl e \<Rightarrow> Inl e | Inr names \<Rightarrow> Inr (set (used_from C fs names)))"

definition candidateSubnet :: "IP \<Rightarrow> nat \<Rightarrow> string" where
  "candidateSubnet poolIP i = octet (poolIP ! 0) @ ''.'' @ octet (poolIP ! 1) @ ''.'' @ Itoa i @ ''.0/24''"

definition candidateGateway :: "IP \<Rightarrow> nat \<Rightarrow> string" where
  "candidateGateway poolIP i = octet (poolIP ! 0) @ ''.'' @ octet (poolIP ! 1) @ ''.'' @ Itoa i @ ''.1''"

text \<open>The search over the third octets, from 10 up to 254.\<close>

function find_subnet :: "(nat \<Rightarrow> bool) \<Rightarrow> nat \<Rightarrow> nat option" where
  "find_subnet free i = (if 255 \<le> i then None else if free i then Some i else find_subnet free (i + 1))"
  by pat_completeness auto
termination
  by (relation "measure (\<lambda>(free, i). 255 - i)") auto

declare find_subnet.simps [simp del]

definition AllocateSubnet ::
  "('fs, 't) config_env \<Rightarrow> (string \<Rightarrow> bool) \<Rightarrow> 'fs \<Rightarrow> string \<Rightarrow> config_error + (string \<times> string \<times> nat)" where
  "AllocateSubnet C routeProbe fs pool =
     (let pool = (if pool = [] then
                    (case LoadGlobalConfig C fs of Inl _ \<Rightarrow> ''10.10.0.0/16'' | Inr globalCfg \<Rightarrow> gc_SubnetPool globalCfg)
                  else pool) in
      case ParseCIDR pool of
        None \<Rightarrow> Inl (CfgPool pool)
      | Some poolNet \<Rightarrow>
     (case To4 (net_IP poolNet) of
        None \<Rightarrow> Inl CfgNoIPv6
      | Some poolIP \<Rightarrow>
     (case UsedInstanceSubnets C fs of
        Inl e \<Rightarrow> Inl e
      | Inr usedSubnets \<Rightarrow>
     (case find_subnet (\<lambda>i. candidateSubnet poolIP i \<notin> usedSubnets \<and> \<not> routeProbe (candidateGateway poolIP i)) 10 of
        Some i \<Rightarrow> Inr (candidateSubnet poolIP i, candidateGateway poolIP i, i)
      | None \<Rightarrow> Inl (CfgNoSubnet pool)))))"

fun subnet_conflict :: "('fs, 't) config_env \<Rightarrow> 'fs \<Rightarrow> string \<Rightarrow> string list \<Rightarrow> config_error option" where
  "subnet_conflict C fs subnet [] = None"
| "subnet_conflict C fs subnet (name # names) =
     (case Config_Load C fs name of
        Inl _ \<Rightarrow> subnet_conflict C fs subnet names
      | Inr (inst, _) \<Rightarrow>
          if i_Subnet inst = subnet then Some (CfgSubnetUsed subnet name) else subnet_conflict C fs subnet names)"

definition ValidateSubnet :: "('fs, 't) config_env \<Rightarrow> 'fs \<Rightarrow> string \<Rightarrow> config_error + (string \<times> nat)" where
  "ValidateSubnet C fs subnet =
     (case (ParseCIDR_IP subnet, ParseCIDR subnet) of
        (Some ip, Some ipNet) \<Rightarrow>
          if mask_ones (net_Mask ipNet) \<noteq> 24 then Inl (CfgNot24 (mask_ones (net_Mask ipNet)))
          else (case To4 ip of
             None \<Rightarrow> Inl CfgNoIPv6
           | Some ipv4 \<Rightarrow>
               if ipv4 ! 3 \<noteq> 0 then Inl (CfgNotNetwork (ipv4 ! 3))
               else (case Config_List C fs of
                  Inl e \<Rightarrow> Inl e
                | Inr instances \<Rightarrow>
                    (case subnet_conflict C fs subnet instances of
                       Some e \<Rightarrow> Inl e
                     | None \<Rightarrow>
                         Inr (octet (ipv4 ! 0) @ ''.'' @ octet (ipv4 ! 1) @ ''.'' @ octet (ipv4 ! 2) @ ''.1'', unat (ipv4 ! 2)))))
      | _ \<Rightarrow> Inl (CfgSubnetInvalid subnet))"

section \<open>The lock\<close>

text \<open>
  Several abox processes, each with one thread, share the lock file. \<open>lw_file\<close> is the variable \<open>lockFile\<close> of each
  process, \<open>lw_open\<close> the lock-file descriptors each has open, and \<open>lw_owner\<close> the process and descriptor whose open
  file holds the exclusive \<open>flock\<close>. Closing a descriptor drops the lock it holds. \<open>lw_pc\<close> says where each process
  stands: its last call of the interface has returned, or it is inside one, between two system calls on the lock
  file. A step of a process runs up to and including its next system call on the lock file (\<open>getBaseDir\<close> and
  \<open>MkdirAll\<close>, which do not touch the lock, go with the opening); a call of \<open>flock\<close> that has to wait is the step
  \<open>None\<close>, and the process stays where it is, with the file open. \<open>lock_io\<close> gives the results of the system calls,
  and the new descriptor.
\<close>

datatype lock_pc = Returned "config_error option" | InFlock nat | FlockFailed nat os_error | FlockHeld nat
  | Unlocked nat | UnlockFailed nat os_error

record lock_world =
  lw_file :: "nat \<Rightarrow> nat option"
  lw_open :: "nat \<Rightarrow> nat set"
  lw_owner :: "(nat \<times> nat) option"
  lw_pc :: "nat \<Rightarrow> lock_pc"

record lock_io =
  io_base :: "path_error option"
  io_mkdir :: "os_error option"
  io_open :: "os_error + nat"
  io_flock :: "os_error option"
  io_unlock :: "os_error option"
  io_close :: "os_error option"

definition at_pc :: "nat \<Rightarrow> lock_pc \<Rightarrow> lock_world \<Rightarrow> lock_world" where
  "at_pc p c w = w\<lparr>lw_pc := (lw_pc w)(p := c)\<rparr>"

definition close_fd :: "nat \<Rightarrow> nat \<Rightarrow> lock_world \<Rightarrow> lock_world" where
  "close_fd p fd w =
     w\<lparr>lw_open := (lw_open w)(p := lw_open w p - {fd}),
       lw_owner := (if lw_owner w = Some (p, fd) then None else lw_owner w)\<rparr>"

text \<open>\<open>AcquireLock\<close>: up to the opening of the file; the \<open>flock\<close>; the assignment, or the closing after a failure.\<close>

definition acquire_open :: "nat \<Rightarrow> lock_io \<Rightarrow> lock_world \<Rightarrow> lock_world" where
  "acquire_open p io w =
     (if lw_file w p \<noteq> None then at_pc p (Returned (Some CfgLockHeld)) w
      else case io_base io of Some e \<Rightarrow> at_pc p (Returned (Some (CfgPath e))) w
      | None \<Rightarrow> (case io_mkdir io of Some e \<Rightarrow> at_pc p (Returned (Some (CfgLockDir e))) w
      | None \<Rightarrow> (case io_open io of Inl e \<Rightarrow> at_pc p (Returned (Some (CfgLockOpen e))) w
      | Inr fd \<Rightarrow> at_pc p (InFlock fd) (w\<lparr>lw_open := (lw_open w)(p := insert fd (lw_open w p))\<rparr>))))"

definition acquire_flock :: "nat \<Rightarrow> lock_io \<Rightarrow> lock_world \<Rightarrow> lock_world option" where
  "acquire_flock p io w =
     (case lw_pc w p of
        InFlock fd \<Rightarrow>
          (case io_flock io of
             Some e \<Rightarrow> Some (at_pc p (FlockFailed fd e) w)
           | None \<Rightarrow>
               if lw_owner w \<noteq> None then None
               else Some (at_pc p (FlockHeld fd) (w\<lparr>lw_owner := Some (p, fd)\<rparr>)))
      | _ \<Rightarrow> Some w)"

definition acquire_return :: "nat \<Rightarrow> lock_world \<Rightarrow> lock_world" where
  "acquire_return p w =
     (case lw_pc w p of
        FlockFailed fd e \<Rightarrow> at_pc p (Returned (Some (CfgLock e))) (close_fd p fd w)
      | FlockHeld fd \<Rightarrow> at_pc p (Returned None) (w\<lparr>lw_file := (lw_file w)(p := Some fd)\<rparr>)
      | _ \<Rightarrow> w)"

definition AcquireLock :: "nat \<Rightarrow> lock_io \<Rightarrow> lock_world \<Rightarrow> lock_world option" where
  "AcquireLock p io w = map_option (acquire_return p) (acquire_flock p io (acquire_open p io w))"

text \<open>\<open>ReleaseLock\<close>: the unlocking; the closing, which clears the variable either way.\<close>

definition release_unlock :: "nat \<Rightarrow> lock_io \<Rightarrow> lock_world \<Rightarrow> lock_world" where
  "release_unlock p io w =
     (case lw_file w p of
        None \<Rightarrow> at_pc p (Returned None) w
      | Some fd \<Rightarrow>
          (case io_unlock io of
             Some e \<Rightarrow> at_pc p (UnlockFailed fd e) w
           | None \<Rightarrow> at_pc p (Unlocked fd) (if lw_owner w = Some (p, fd) then w\<lparr>lw_owner := None\<rparr> else w)))"

definition release_close :: "nat \<Rightarrow> lock_io \<Rightarrow> lock_world \<Rightarrow> lock_world" where
  "release_close p io w =
     (case lw_pc w p of
        UnlockFailed fd e \<Rightarrow>
          at_pc p (Returned (Some (CfgUnlock e))) ((close_fd p fd w)\<lparr>lw_file := (lw_file w)(p := None)\<rparr>)
      | Unlocked fd \<Rightarrow>
          at_pc p (Returned (map_option CfgClose (io_close io))) ((close_fd p fd w)\<lparr>lw_file := (lw_file w)(p := None)\<rparr>)
      | _ \<Rightarrow> w)"

definition ReleaseLock :: "nat \<Rightarrow> lock_io \<Rightarrow> lock_world \<Rightarrow> lock_world" where
  "ReleaseLock p io w = release_close p io (release_unlock p io w)"

end
