(* ===== verification/Secret_Store.thy ===== *)
theory Secret_Store
  imports Allowlist_API
begin

text \<open>
  \<^verbatim>\<open>internal/secretstore/store.go\<close>: the file of secret values that the proxy injects. A line is a key, a space
  and the base64 text of the value. The file system is that of the allowlist loader: the store file
  and the temporary file of a rewrite. The standard base64 encoding is modelled on the lists of
  bytes; its decoder ignores carriage returns and newlines, requires padding, and does not
  check the unused bits of the last character.
\<close>

section \<open>Base64\<close>

definition b64_char :: "nat \<Rightarrow> char" where
  "b64_char n =
     char_of (if n < 26 then 65 + n else if n < 52 then 71 + n else if n < 62 then n - 4 else if n = 62 then 43 else 47)"

definition b64_val :: "char \<Rightarrow> nat option" where
  "b64_val c =
     (if is_upper c then Some (code c - 65)
      else if is_lower c then Some (code c - 71)
      else if is_digit c then Some (code c + 4)
      else if c = CHR ''+'' then Some 62
      else if c = CHR ''/'' then Some 63
      else None)"

fun b64_encode :: "string \<Rightarrow> string" where
  "b64_encode [] = []"
| "b64_encode [a] = (let n = 65536 * code a in [b64_char (n div 262144), b64_char (n div 4096 mod 64), CHR ''='', CHR ''=''])"
| "b64_encode [a, b] =
     (let n = 65536 * code a + 256 * code b
      in [b64_char (n div 262144), b64_char (n div 4096 mod 64), b64_char (n div 64 mod 64), CHR ''=''])"
| "b64_encode (a # b # c # s) =
     (let n = 65536 * code a + 256 * code b + code c
      in [b64_char (n div 262144), b64_char (n div 4096 mod 64), b64_char (n div 64 mod 64), b64_char (n mod 64)]
         @ b64_encode s)"

definition b64_quantum :: "char \<Rightarrow> char \<Rightarrow> char \<Rightarrow> char \<Rightarrow> string option" where
  "b64_quantum w x y z =
     (case (b64_val w, b64_val x, b64_val y, b64_val z) of
        (Some i, Some j, Some k, Some l) \<Rightarrow>
          (let n = 262144 * i + 4096 * j + 64 * k + l in Some [char_of (n div 65536), char_of (n div 256 mod 256), char_of (n mod 256)])
      | _ \<Rightarrow> None)"

fun b64_groups :: "string \<Rightarrow> string option" where
  "b64_groups [] = Some []"
| "b64_groups (w # x # y # z # s) =
     (if s = [] \<and> z = CHR ''='' then
        (if y = CHR ''='' then map_option (take 1) (b64_quantum w x CHR ''A'' CHR ''A'')
         else map_option (take 2) (b64_quantum w x y CHR ''A''))
      else (case (b64_quantum w x y z, b64_groups s) of
              (Some q, Some t) \<Rightarrow> Some (q @ t)
            | _ \<Rightarrow> None))"
| "b64_groups _ = None"

definition b64_decode :: "string \<Rightarrow> string option" where
  "b64_decode s = b64_groups (List.filter (\<lambda>c. c \<noteq> CR \<and> c \<noteq> LF) s)"

section \<open>The store\<close>

definition maxLineBytes :: nat where "maxLineBytes = 8388608"

definition TrimRight_CR :: "string \<Rightarrow> string" where
  "TrimRight_CR s = rev (dropWhile (\<lambda>c. c = CR) (rev s))"

text \<open>\<open>strings.Cut\<close> at the first blank.\<close>

definition Cut_blank :: "string \<Rightarrow> (string \<times> string) option" where
  "Cut_blank s = map_option (\<lambda>i. (take i s, drop (Suc i) s)) (IndexByte s CHR '' '')"

text \<open>One line of the file, \<open>None\<close> for a line that is skipped.\<close>

definition secret_line :: "string \<Rightarrow> (string \<times> string) option" where
  "secret_line text =
     (let line = TrimRight_CR text; t = TrimSpace line in
      if t = [] \<or> HasPrefix t ''#'' then None
      else (case Cut_blank line of
              None \<Rightarrow> None
            | Some (key, enc) \<Rightarrow>
                if ValidateSecretKey key \<noteq> None then None
                else map_option (Pair key) (b64_decode enc)))"

fun secrets_from :: "(string \<rightharpoonup> string) \<Rightarrow> string list \<Rightarrow> (string \<rightharpoonup> string)" where
  "secrets_from m [] = m"
| "secrets_from m (l # ls) =
     (case secret_line l of None \<Rightarrow> secrets_from m ls | Some (key, val) \<Rightarrow> secrets_from (m(key \<mapsto> val)) ls)"

definition scan_secrets :: "string \<Rightarrow> string list \<times> bool" where
  "scan_secrets c =
     (let ok = takeWhile (\<lambda>l. length l < maxLineBytes) (raw_lines c)
      in (map drop_cr ok, length ok < length (raw_lines c)))"

definition Secrets_Load :: "fnode \<Rightarrow> load_error + (string \<rightharpoonup> string)" where
  "Secrets_Load node =
     (case OpenFileNoFollow node of
        Inl e \<Rightarrow> if e = ErrNotExist then Inr Map.empty else Inl e
      | Inr c \<Rightarrow>
          (case scan_secrets c of (lines, tooLong) \<Rightarrow>
             if tooLong then Inl ErrTooLong else Inr (secrets_from Map.empty lines)))"

definition Secrets_List :: "fnode \<Rightarrow> load_error + string list" where
  "Secrets_List node = (case Secrets_Load node of Inl e \<Rightarrow> Inl e | Inr m \<Rightarrow> Inr (sorted_list_of_set (dom m)))"

text \<open>\<open>write\<close>: the directory is prepared, then the stages of a rewrite follow in the same order as in the
  allowlist's \<open>atomicWriteLines\<close>, over the lines of the sorted keys.\<close>

definition store_line :: "(string \<rightharpoonup> string) \<Rightarrow> string \<Rightarrow> string" where
  "store_line m k = k @ '' '' @ b64_encode (the (m k))"

definition Secrets_write ::
  "bool \<Rightarrow> rewrite_io \<Rightarrow> adir \<Rightarrow> (string \<rightharpoonup> string) \<Rightarrow> adir \<times> load_error option" where
  "Secrets_write dir_ok rw d m =
     (if \<not> dir_ok then (d, Some (ErrRewrite ''directory''))
      else atomicWriteLines rw d (map (store_line m) (sorted_list_of_set (dom m))))"

definition Secrets_Set ::
  "bool \<Rightarrow> rewrite_io \<Rightarrow> adir \<Rightarrow> string \<Rightarrow> string \<Rightarrow> adir \<times> load_error option" where
  "Secrets_Set dir_ok rw d key value =
     (case ValidateSecretKey key of
        Some e \<Rightarrow> (d, Some (ErrInvalid e))
      | None \<Rightarrow>
          (case Secrets_Load (dest d) of
             Inl e \<Rightarrow> (d, Some e)
           | Inr m \<Rightarrow> Secrets_write dir_ok rw d (m(key \<mapsto> value))))"

definition Secrets_Delete :: "bool \<Rightarrow> rewrite_io \<Rightarrow> adir \<Rightarrow> string \<Rightarrow> adir \<times> load_error option" where
  "Secrets_Delete dir_ok rw d key =
     (case ValidateSecretKey key of
        Some e \<Rightarrow> (d, Some (ErrInvalid e))
      | None \<Rightarrow>
          (case Secrets_Load (dest d) of
             Inl e \<Rightarrow> (d, Some e)
           | Inr m \<Rightarrow>
               if m key = None then (d, None) else Secrets_write dir_ok rw d (m(key := None))))"

section \<open>The encoding\<close>

lemma b64_val_char: "n < 64 \<Longrightarrow> b64_val (b64_char n) = Some n"
proof -
  assume n: "n < 64"
  let ?k = "if n < 26 then 65 + n else if n < 52 then 71 + n else if n < 62 then n - 4 else if n = 62 then 43 else 47 :: nat"
  have k: "code (b64_char n) = ?k" using n by (simp add: b64_char_def)
  have s: "code CHR ''+'' = 43" "code CHR ''/'' = 47" by (simp_all add: code_def)
  have "b64_char n = CHR ''+'' \<longleftrightarrow> ?k = 43" "b64_char n = CHR ''/'' \<longleftrightarrow> ?k = 47"
    using k s by (metis code_eq_iff)+
  then show ?thesis using n k by (auto simp: b64_val_def is_upper_def is_lower_def is_digit_def)
qed

lemma b64_char_plain: "n < 64 \<Longrightarrow> b64_char n \<noteq> CR \<and> b64_char n \<noteq> LF \<and> b64_char n \<noteq> CHR ''='' \<and> is_graphic (b64_char n)"
proof -
  assume n: "n < 64"
  let ?k = "if n < 26 then 65 + n else if n < 52 then 71 + n else if n < 62 then n - 4 else if n = 62 then 43 else 47 :: nat"
  have k: "code (b64_char n) = ?k" using n by (simp add: b64_char_def)
  have "code CR = 13" "code LF = 10" "code CHR ''='' = 61" by (simp_all add: code_def)
  then show ?thesis using n k by (auto simp: is_graphic_def split: if_splits)
qed

lemma sextets: "262144 * (n div 262144) + 4096 * (n div 4096 mod 64) + 64 * (n div 64 mod 64) + n mod 64 = (n :: nat)"
proof -
  have "n div 64 div 64 = n div 4096" "n div 4096 div 64 = n div 262144" by (simp_all add: div_mult2_eq [symmetric])
  then show ?thesis
    using div_mult_mod_eq [of n 64] div_mult_mod_eq [of "n div 64" 64] div_mult_mod_eq [of "n div 4096" 64] by linarith
qed

lemma octets:
  fixes a b c :: nat
  assumes "b < 256" and "c < 256"
  shows "(65536 * a + 256 * b + c) div 65536 = a" "(65536 * a + 256 * b + c) div 256 mod 256 = b"
    "(65536 * a + 256 * b + c) mod 256 = c"
proof -
  show "(65536 * a + 256 * b + c) div 65536 = a" using assms by (intro div_nat_eqI) simp_all
  have d: "(65536 * a + 256 * b + c) div 256 = 256 * a + b" using assms by (intro div_nat_eqI) simp_all
  then show "(65536 * a + 256 * b + c) div 256 mod 256 = b" using assms by simp
  show "(65536 * a + 256 * b + c) mod 256 = c" using d assms minus_div_mult_eq_mod [of "65536 * a + 256 * b + c" 256] by simp
qed

lemma b64_quantum_chars:
  assumes "n < 16777216"
  shows "b64_quantum (b64_char (n div 262144)) (b64_char (n div 4096 mod 64)) (b64_char (n div 64 mod 64)) (b64_char (n mod 64)) =
    Some [char_of (n div 65536), char_of (n div 256 mod 256), char_of (n mod 256)]"
proof -
  have "n div 262144 < 64" using assms by (simp add: less_mult_imp_div_less)
  then show ?thesis using sextets [of n] by (simp add: b64_quantum_def b64_val_char Let_def)
qed

lemma char_of_code [simp]: "char_of (code c) = c"
  by (simp add: code_def)

lemma pad_char: "CHR ''='' \<noteq> CR" "CHR ''='' \<noteq> LF" "is_graphic CHR ''=''"
  by (simp_all add: eq_char_of_iff is_graphic_def code_def)

lemma b64_encode_no_newline: "c \<in> set (b64_encode v) \<Longrightarrow> c \<noteq> CR \<and> c \<noteq> LF \<and> is_graphic c"
proof (induction v rule: b64_encode.induct)
  case (2 a)
  have "65536 * code a div 262144 < 64" by (simp add: less_mult_imp_div_less) 
  then show ?case using 2 b64_char_plain pad_char by (auto simp: Let_def)
next
  case (3 a b)
  have "(65536 * code a + 256 * code b) div 262144 < 64"
    using code_less_256 [of a] code_less_256 [of b] by (intro less_mult_imp_div_less) linarith
  then show ?case using 3 b64_char_plain pad_char by (auto simp: Let_def)
next
  case (4 a b c s)
  have "(65536 * code a + 256 * code b + code c) div 262144 < 64"
    using code_less_256 [of a] code_less_256 [of b] code_less_256 [of c] by (intro less_mult_imp_div_less) linarith
  then show ?case using 4 b64_char_plain by (auto simp: Let_def)
qed simp

lemma b64_A: "b64_char 0 = CHR ''A''"
  by (simp add: b64_char_def char_of_eq_iff)

lemma b64_groups_encode: "b64_groups (b64_encode v) = Some v"
proof (induction v rule: b64_encode.induct)
  case (2 a)
  let ?n = "65536 * code a"
  have "?n div 64 mod 64 = 0" "?n mod 64 = 0" "?n < 16777216" "?n div 65536 = code a"
    using code_less_256 [of a] by (simp_all add: mult.commute)
  then show ?case using b64_quantum_chars [of ?n] by (simp add: Let_def b64_A)
next
  case (3 a b)
  let ?n = "65536 * code a + 256 * code b"
  have "?n mod 64 = 0" "?n < 16777216"
    using code_less_256 [of a] code_less_256 [of b] by (simp_all add: mod_add_eq [symmetric], presburger)
  moreover have "b64_char (?n div 64 mod 64) \<noteq> CHR ''=''" using b64_char_plain [of "?n div 64 mod 64"] by simp
  ultimately show ?case
    using b64_quantum_chars [of ?n] octets [of "code b" 0 "code a"] by (simp add: Let_def b64_A)
next
  case (4 a b c s)
  let ?n = "65536 * code a + 256 * code b + code c"
  have "?n < 16777216" using code_less_256 [of a] code_less_256 [of b] code_less_256 [of c] by linarith
  moreover have "b64_char (?n mod 64) \<noteq> CHR ''=''" using b64_char_plain [of "?n mod 64"] by simp
  ultimately show ?case
    using 4 b64_quantum_chars [of ?n] octets [of "code b" "code c" "code a"] by (simp add: Let_def)
qed simp

lemma b64_decode_encode [simp]: "b64_decode (b64_encode v) = Some v"
proof -
  have "List.filter (\<lambda>c. c \<noteq> CR \<and> c \<noteq> LF) (b64_encode v) = b64_encode v"
    using b64_encode_no_newline by (auto simp: filter_id_conv)
  then show ?thesis by (simp only: b64_decode_def b64_groups_encode)
qed

lemma div3_step: "(5 + n) div 3 = Suc (Suc (Suc n) div 3)"
  by simp

lemma b64_encode_length: "length (b64_encode v) = 4 * ((length v + 2) div 3)"
proof (induction v rule: b64_encode.induct)
  case (4 a b c s)
  then show ?case by (simp add: Let_def div3_step)
qed (simp_all add: Let_def)

lemma b64_groups_length: "b64_groups s = Some v \<Longrightarrow> length (b64_encode v) = length s"
proof (induction s arbitrary: v rule: b64_groups.induct)
  case (2 w x y z s)
  show ?case
  proof (cases "s = [] \<and> z = CHR ''=''")
    case True
    then show ?thesis using 2(2) by (auto simp: b64_encode_length b64_quantum_def Let_def split: if_splits option.splits)
  next
    case False
    then obtain q t where q: "b64_quantum w x y z = Some q" "b64_groups s = Some t" "v = q @ t"
      using 2(2) by (auto split: option.splits)
    then have "length q = 3" by (auto simp: b64_quantum_def Let_def split: option.splits)
    then show ?thesis using 2(1) [OF False q(2)] q by (simp add: b64_encode_length div3_step)
  qed
qed auto

section \<open>Lines of the store\<close>

lemma trim_keeps_graphic:
  assumes "u \<noteq> []" and "is_graphic (last u)"
  shows "trim_left_by (map rev space_runes) u \<noteq> []"
  using assms
proof (induction "map rev space_runes" u rule: trim_left_by.induct)
  case (1 u)
  show ?case
  proof (cases "find (\<lambda>w. w \<noteq> [] \<and> HasPrefix u w) (map rev space_runes)")
    case None
    then show ?thesis using 1(2) by (subst trim_left_by.simps) simp
  next
    case (Some w)
    then have w: "w \<in> set (map rev space_runes)" "prefix w u"
      by (metis find_Some_iff nth_mem, auto simp: find_Some_iff HasPrefix_iff)
    then obtain r where "r \<in> set space_runes" "w = rev r" by auto
    then have "\<not> is_graphic (last w)" using space_rune_ends [of r] by (simp add: last_rev)
    then have "w \<noteq> u" using 1(3) by blast
    then obtain z where "u = w @ z" "z \<noteq> []" using w(2) by (auto simp: prefix_def)
    then have "drop (length w) u \<noteq> []" "last (drop (length w) u) = last u" by simp_all
    then show ?thesis using 1 Some by (subst trim_left_by.simps) simp
  qed
qed

lemma TrimSpace_hd:
  assumes "s \<noteq> []" and "is_graphic (hd s)"
  shows "\<exists>t. TrimSpace s = hd s # t"
proof -
  have l: "trim_left_by space_runes s = s"
    using assms by (intro trim_left_by_id) (auto simp: HasPrefix_iff prefix_def dest: space_rune_ends(2))
  let ?r = "trim_left_by (map rev space_runes) (rev s)"
  have "suffix ?r (rev s)" by (rule trim_left_by_suffix)
  then have "prefix (TrimSpace s) s" using l by (simp add: TrimSpace_def suffix_to_prefix)
  moreover have "TrimSpace s \<noteq> []" using trim_keeps_graphic [of "rev s"] assms l by (simp add: TrimSpace_def last_rev)
  ultimately show ?thesis by (auto simp: prefix_def neq_Nil_conv)
qed

lemma graphic_not_blank: "is_graphic c \<Longrightarrow> c \<noteq> LF \<and> c \<noteq> CR \<and> c \<noteq> CHR '' ''"
  by (auto simp: is_graphic_def code_def)

lemma secret_key_chars:
  assumes "ValidateSecretKey k = None"
  shows "k \<noteq> [] \<and> is_graphic (hd k) \<and> hd k \<noteq> CHR ''#'' \<and> CHR '' '' \<notin> set k \<and> LF \<notin> set k \<and> CR \<notin> set k"
proof -
  have "is_graphic c \<and> c \<noteq> CHR ''#''" if "c \<in> set k" for c
    using assms that by (auto simp: ValidateSecretKey_iff list_all_iff go_char code_def)
  moreover have "k \<noteq> []" using assms by (simp add: ValidateSecretKey_iff)
  ultimately show ?thesis using hd_in_set graphic_not_blank by metis
qed

lemma blank_not_newline: "CHR '' '' \<noteq> LF" "CHR '' '' \<noteq> CR"
  by (simp_all add: eq_char_of_iff)

lemma store_line_chars:
  assumes "ValidateSecretKey k = None"
  shows "LF \<notin> set (store_line m k)" and "CR \<notin> set (store_line m k)"
  using secret_key_chars [OF assms] b64_encode_no_newline [of _ "the (m k)"] blank_not_newline
  by (auto simp: store_line_def)

lemma no_CR_ids: "CR \<notin> set l \<Longrightarrow> drop_cr l = l \<and> TrimRight_CR l = l"
proof -
  assume l: "CR \<notin> set l"
  have "dropWhile (\<lambda>c. c = CR) (rev l) = rev l" using l by (cases "rev l") (auto simp: dropWhile_eq_self_iff)
  moreover have "\<not> HasSuffix l [CR]" using l by (auto simp: HasSuffix_iff suffix_def)
  ultimately show ?thesis by (simp add: drop_cr_def TrimRight_CR_def)
qed

lemma secret_line_store:
  assumes "ValidateSecretKey k = None" and "m k = Some v"
  shows "secret_line (drop_cr (store_line m k)) = Some (k, v)"
proof -
  note c = secret_key_chars [OF assms(1)]
  let ?l = "store_line m k"
  have l: "?l = k @ CHR '' '' # b64_encode v" using assms(2) by (simp add: store_line_def)
  then have "?l \<noteq> []" "hd ?l = hd k" using c by auto
  then obtain t where "TrimSpace ?l = hd k # t" using TrimSpace_hd [of ?l] c by auto
  moreover have "Cut_blank ?l = Some (k, b64_encode v)" using c l by (simp add: Cut_blank_def IndexByte_append)
  ultimately show ?thesis
    using c assms(1) no_CR_ids [OF store_line_chars(2) [OF assms(1), of m]] by (simp add: secret_line_def)
qed

lemma secrets_from_lines:
  "\<forall>k\<in>set ks. ValidateSecretKey k = None \<and> k \<in> dom m \<Longrightarrow>
   secrets_from a (map (drop_cr \<circ> store_line m) ks) = (\<lambda>k. if k \<in> set ks then m k else a k)"
proof (induction ks arbitrary: a)
  case (Cons k ks)
  then obtain v where "m k = Some v" by auto
  then show ?case using Cons secret_line_store [of k m v] by (auto simp: fun_eq_iff)
qed (simp add: fun_eq_iff)

text \<open>What a loaded store satisfies, and what reading a written store gives.\<close>

definition store_inv :: "(string \<rightharpoonup> string) \<Rightarrow> bool" where
  "store_inv m \<longleftrightarrow> finite (dom m) \<and> (\<forall>k\<in>dom m. ValidateSecretKey k = None)"

definition store_fits :: "(string \<rightharpoonup> string) \<Rightarrow> bool" where
  "store_fits m \<longleftrightarrow> (\<forall>k\<in>dom m. length (store_line m k) < maxLineBytes)"

lemma TrimRight_CR_le: "length (TrimRight_CR l) \<le> length l"
  using length_dropWhile_le [of "\<lambda>c. c = CR" "rev l"] by (simp add: TrimRight_CR_def)

lemma secret_line_Some:
  assumes "secret_line l = Some (k, v)"
  shows "ValidateSecretKey k = None \<and> length k + 1 + length (b64_encode v) \<le> length l"
proof -
  let ?t = "TrimRight_CR l"
  obtain enc where c: "Cut_blank ?t = Some (k, enc)" "ValidateSecretKey k = None" "b64_decode enc = Some v"
    using assms by (auto simp: secret_line_def Let_def split: if_splits option.splits)
  have "length (b64_encode v) \<le> length enc"
    using b64_groups_length [of _ v] c(3) length_filter_le [of "\<lambda>c. c \<noteq> CR \<and> c \<noteq> LF" enc] by (simp add: b64_decode_def)
  moreover have "length k + 1 + length enc = length ?t"
  proof -
    obtain i where i: "IndexByte ?t CHR '' '' = Some i" "k = take i ?t" "enc = drop (Suc i) ?t"
      using c(1) by (auto simp: Cut_blank_def)
    have "IndexByte s c = Some i \<Longrightarrow> i < length s" for s c i
      by (induction s c arbitrary: i rule: IndexByte.induct) (auto split: if_splits)
    then show ?thesis using i by fastforce
  qed
  ultimately show ?thesis using c(2) TrimRight_CR_le [of l] by simp
qed

lemma secrets_from_inv:
  assumes "\<forall>l\<in>set ls. length l < maxLineBytes" and "store_inv m" and "store_fits m"
  shows "store_inv (secrets_from m ls) \<and> store_fits (secrets_from m ls)"
  using assms
proof (induction ls arbitrary: m)
  case (Cons l ls)
  show ?case
  proof (cases "secret_line l")
    case (Some kv)
    obtain k v where kv: "kv = (k, v)" by fastforce
    have "ValidateSecretKey k = None" "length k + 1 + length (b64_encode v) < maxLineBytes"
      using secret_line_Some [of l k v] Some kv Cons.prems(1) by auto
    then have "store_inv (m(k \<mapsto> v))" "store_fits (m(k \<mapsto> v))"
      using Cons.prems(2,3) by (auto simp: store_inv_def store_fits_def store_line_def)
    then show ?thesis using Cons Some kv by simp
  qed (use Cons in simp)
qed simp

lemma Secrets_Load_inv:
  assumes "Secrets_Load n = Inr m"
  shows "store_inv m \<and> store_fits m"
proof -
  have e: "store_inv Map.empty" "store_fits Map.empty" by (simp_all add: store_inv_def store_fits_def)
  show ?thesis
  proof (cases n)
    case (Regular c)
    let ?ok = "takeWhile (\<lambda>l. length l < maxLineBytes) (raw_lines c)"
    have m: "m = secrets_from Map.empty (map drop_cr ?ok)"
      using assms Regular by (auto simp: Secrets_Load_def scan_secrets_def Let_def split: if_splits)
    have len: "\<forall>l\<in>set (map drop_cr ?ok). length l < maxLineBytes"
    proof
      fix l assume "l \<in> set (map drop_cr ?ok)"
      then obtain r where "l = drop_cr r" "r \<in> set ?ok" by auto
      moreover from this(2) have "length r < maxLineBytes" by (rule set_takeWhileD [THEN conjunct2])
      ultimately show "length l < maxLineBytes" using drop_cr_le [of r] by simp
    qed
    show ?thesis unfolding m by (rule secrets_from_inv [OF len e])
  qed (use assms e in \<open>auto simp: Secrets_Load_def\<close>)
qed

lemma Secrets_Load_written:
  assumes "store_inv m"
  shows "Secrets_Load (Regular (lines_text (map (store_line m) (sorted_list_of_set (dom m))))) =
    (if store_fits m then Inr m else Inl ErrTooLong)"
proof -
  let ?ks = "sorted_list_of_set (dom m)"
  let ?ls = "map (store_line m) ?ks"
  have ks: "set ?ks = dom m" using assms by (simp add: store_inv_def)
  have "\<forall>l\<in>set ?ls. LF \<notin> set l" using ks assms store_line_chars(1) by (auto simp: store_inv_def)
  then have r: "raw_lines (lines_text ?ls) = ?ls" using raw_lines_text [of ?ls "[]"] by simp
  show ?thesis
  proof (cases "store_fits m")
    case True
    then have tw: "takeWhile (\<lambda>l. length l < maxLineBytes) ?ls = ?ls" using ks by (auto simp: store_fits_def)
    have "scan_secrets (lines_text ?ls) = (map drop_cr ?ls, False)"
      unfolding scan_secrets_def r tw Let_def by simp
    moreover have "secrets_from Map.empty (map (drop_cr \<circ> store_line m) ?ks) = m"
    proof -
      have "secrets_from Map.empty (map (drop_cr \<circ> store_line m) ?ks) = (\<lambda>k. if k \<in> dom m then m k else None)"
        using secrets_from_lines [of ?ks m Map.empty] ks assms by (simp add: store_inv_def)
      also have "(\<lambda>k. if k \<in> dom m then m k else None) = m" by (auto simp: fun_eq_iff domIff)
      finally show ?thesis .
    qed
    ultimately show ?thesis using True by (simp add: Secrets_Load_def)
  next
    case False
    then obtain k where "k \<in> set ?ks" "\<not> length (store_line m k) < maxLineBytes" using ks by (auto simp: store_fits_def)
    then have "takeWhile (\<lambda>l. length l < maxLineBytes) ?ls \<noteq> ?ls" by (metis image_eqI list.set_map set_takeWhileD)
    then have "length (takeWhile (\<lambda>l. length l < maxLineBytes) ?ls) < length ?ls"
      by (metis length_takeWhile_le nat_less_le takeWhile_eq_take take_all)
    then show ?thesis using False r by (simp add: Secrets_Load_def scan_secrets_def)
  qed
qed

section \<open>Properties\<close>

text \<open>
  C30 (roundtrip). Storing a secret: when \<open>Set\<close> succeeds, the store reads back as it was with the new value
  under its key, byte for byte, provided the encoded line stays below the reader's limit; when
  \<open>Set\<close> fails at any stage, the file is untouched. Above the limit \<open>Set\<close> still succeeds, and the whole store becomes unreadable.
\<close>

theorem Secrets_Set_roundtrip:
  assumes "Secrets_Load (dest d) = Inr m" and "ValidateSecretKey key = None"
    and "Secrets_Set dir_ok rw d key value = (d', err)"
  shows "if err = None
    then Secrets_Load (dest d') =
      (if length key + 1 + 4 * ((length value + 2) div 3) < maxLineBytes then Inr (m(key \<mapsto> value)) else Inl ErrTooLong)
    else dest d' = dest d"
proof -
  let ?m = "m(key \<mapsto> value)"
  have w: "Secrets_write dir_ok rw d ?m = (d', err)" using assms by (simp add: Secrets_Set_def)
  have inv: "store_inv ?m" using Secrets_Load_inv [OF assms(1)] assms(2) by (auto simp: store_inv_def)
  have fits: "store_fits ?m \<longleftrightarrow> length key + 1 + 4 * ((length value + 2) div 3) < maxLineBytes"
    using Secrets_Load_inv [OF assms(1)] by (auto simp: store_fits_def store_line_def b64_encode_length)
  show ?thesis
    using w Secrets_Load_written [OF inv] fits
    by (auto simp: Secrets_write_def split: if_splits dest: atomicWriteLines_dest)
qed

lemma demo_store: "Secrets_Load Missing = Inr Map.empty" "ValidateSecretKey ''API_KEY'' = None"
  by (simp_all add: Secrets_Load_def ValidateSecretKey_iff go_eval)

theorem Secrets_Set_roundtrip_witness:
  "\<exists>d'. Secrets_Set True calm_io \<lparr>dest = Missing, tmps = Map.empty\<rparr> ''API_KEY'' ''a b'' = (d', None)
     \<and> Secrets_Load (dest d') = Inr [''API_KEY'' \<mapsto> ''a b'']"
proof -
  let ?d = "\<lparr>dest = Missing, tmps = Map.empty\<rparr>"
  obtain d' e where s: "Secrets_Set True calm_io ?d ''API_KEY'' ''a b'' = (d', e)" by fastforce
  then have "e = None"
    using demo_store atomicWriteLines_ok [of calm_io ?d "[store_line [''API_KEY'' \<mapsto> ''a b''] ''API_KEY'']"]
    by (simp add: Secrets_Set_def Secrets_write_def) (simp add: calm_io_def)
  then show ?thesis
    using Secrets_Set_roundtrip [OF _ demo_store(2) s, of Map.empty] demo_store(1) s
    by (simp add: maxLineBytes_def)
qed

end
