(* ===== verification/HTTP_Daemon.thy ===== *)
theory HTTP_Daemon
  imports Config Secret_Store "HOL-Library.Multiset"
begin

text \<open>
  \<^verbatim>\<open>pkg/cmd/http/serve/serve.go\<close>: how the configuration of an instance and the stored secrets become the
  policy of a running proxy. \<open>configure_http\<close> is the part of \<open>runServe\<close> before the server starts; whether the files of the
  CA load is an input, and what is printed and logged is left out. The properties compose the
  validation of the configuration with the decisions of the proxy.
\<close>

section \<open>Wiring\<close>

definition strip_rule :: "SecretInjection \<Rightarrow> SecretRule" where
  "strip_rule b =
     \<lparr>sr_Key = si_Key b, sr_Host = si_Host b, sr_Header = si_Header b, sr_Value = [], sr_PathPrefix = si_PathPrefix b, sr_Strip = True\<rparr>"

definition resolve_rule :: "(string \<rightharpoonup> string) \<Rightarrow> SecretInjection \<Rightarrow> SecretRule" where
  "resolve_rule values b =
     (case values (si_Key b) of
        None \<Rightarrow> strip_rule b
      | Some val \<Rightarrow>
          (let value = si_ValuePrefix b @ val in
           if ValidateHTTPHeaderValue value \<noteq> None then strip_rule b
           else \<lparr>sr_Key = si_Key b, sr_Host = si_Host b, sr_Header = si_Header b, sr_Value = value,
                 sr_PathPrefix = si_PathPrefix b, sr_Strip = False\<rparr>))"

definition resolveSecretRules :: "SecretInjection list \<Rightarrow> (string \<rightharpoonup> string) \<Rightarrow> SecretRule list" where
  "resolveSecretRules bindings values = map (resolve_rule values) bindings"

datatype serve_error =
    ServeTargets cidr_error | ServeCA | ServeNeedsMITM | ServePassive | ServeExceptions mitm_error | ServeSecrets load_error

definition applySecretInjections ::
  "dom_ext \<Rightarrow> 't radix_ops \<Rightarrow> HTTPConfig \<Rightarrow> fnode \<Rightarrow> bool \<Rightarrow> ('t, 'time) HTTP_Server \<Rightarrow> serve_error + ('t, 'time) HTTP_Server" where
  "applySecretInjections E R h secrets passive server =
     (let bindings = hc_SecretInjections h in
      if bindings = [] then Inr server
      else if \<not> hc_MITM h then Inl ServeNeedsMITM
      else if passive then Inl ServePassive
      else (case ValidateMITMExceptions E R (hc_MITMExceptions h) bindings of
              Some e \<Rightarrow> Inl (ServeExceptions e)
            | None \<Rightarrow>
                (case Secrets_Load secrets of
                   Inl e \<Rightarrow> Inl (ServeSecrets e)
                 | Inr values \<Rightarrow> Inr (SetSecretInjections E (resolveSecretRules bindings values) server))))"

definition HTTP_LoadCA :: "bool \<Rightarrow> ('t, 'time) HTTP_Server \<Rightarrow> serve_error + ('t, 'time) HTTP_Server" where
  "HTTP_LoadCA ca_ok s = (if \<not> ca_ok then Inl ServeCA else Inr (s\<lparr>hs_mitmReady := True\<rparr>))"

definition configure_http ::
  "dom_ext \<Rightarrow> 't radix_ops \<Rightarrow> HTTPConfig \<Rightarrow> 't Filter \<Rightarrow> fnode \<Rightarrow> bool \<Rightarrow> bool \<Rightarrow> serve_error + ('t, 'time) HTTP_Server" where
  "configure_http E R h f secrets ca_ok passive =
     (let server = HTTP_NewServer R f passive;
          server = (if 0 < hc_MaxConnections h then SetMaxConns (hc_MaxConnections h) server else server)
      in case HTTP_SetAllowPrivateTargets (hc_AllowPrivateTargets h) server of
           (_, Some e) \<Rightarrow> Inl (ServeTargets e)
         | (server, None) \<Rightarrow>
             (let server = SetAllowedPorts (hc_AllowedPorts h) (SetMITMExceptions E R (hc_MITMExceptions h) server) in
              case (if hc_MITM h then HTTP_LoadCA ca_ok server else Inr server) of
                Inl e \<Rightarrow> Inl e
              | Inr server \<Rightarrow> applySecretInjections E R h secrets passive server))"

section \<open>Exceptions and injections\<close>

context allowlist_filter
begin

lemma IsAllowed_List:
  assumes "filter_inv f"
  shows "Filter_IsAllowed E R f d \<longleftrightarrow>
    (\<exists>v\<in>set (Filter_List R f). prefix (ReverseDomain E v) (ReverseDomain E (NormalizeDomain E d)))"
  unfolding IsAllowed_prefix Bex_def set_List using filter_invD [OF assms] by metis

lemma exceptions_from_List:
  "exceptions_from E R i seen f hosts = Inr f' \<Longrightarrow> filter_inv f \<Longrightarrow>
   filter_inv f' \<and> set (Filter_List R f') = set (Filter_List R f) \<union> NormalizeDomain E ` exception_host ` set hosts
     \<and> (\<forall>h\<in>set hosts. entry_ok (NormalizeDomain E (exception_host h)))"
proof (induction hosts arbitrary: i seen f)
  case (Cons h hosts)
  let ?n = "NormalizeDomain E (exception_host h)" and ?f = "fst (Filter_Add E R f (exception_host h))"
  have ok: "entry_ok ?n" and rest: "\<exists>i s. exceptions_from E R i s ?f hosts = Inr f'"
    using Cons.prems(1) by (auto simp: Let_def entry_ok_def split: if_splits option.splits)
  then show ?case
    using Cons.IH inv_Add [OF Cons.prems(2)] List_Add(1) [OF Cons.prems(2), of "exception_host h"] by fastforce
qed auto

text \<open>The matcher of the validation and the filter of the proxy decide alike.\<close>

lemma validated_exceptions:
  assumes "ValidateMITMExceptions E R exs injs = None" and "si \<in> set injs"
  shows "\<not> Filter_IsAllowed E R (hs_mitmExceptions (SetMITMExceptions E R exs s)) (si_Host si)"
proof -
  let ?g = "hs_mitmExceptions (SetMITMExceptions E R exs s)"
  have g: "?g = Filter_Replace E R (hs_mitmExceptions s) (map exception_host exs)"
    by (simp add: SetMITMExceptions_def exception_host_def [abs_def])
  have ginv: "filter_inv ?g" using inv_Replace g by simp
  show ?thesis
  proof (cases "exs = []")
    case True
    then have "set (Filter_List R ?g) = {}" using List_Replace g by simp
    then show ?thesis using IsAllowed_List [OF ginv] by simp
  next
    case False
    then obtain m where m: "exceptions_from E R 0 {} (NewFilter R) exs = Inr m" "conflicts_from E R 0 m injs = None"
      using assms(1) by (auto simp: ValidateMITMExceptions_def split: sum.splits)
    have "conflicts_from E R j m injs = None \<Longrightarrow> \<forall>x\<in>set injs. \<not> Filter_IsAllowed E R m (si_Host x)" for j
      by (induction injs arbitrary: j) (auto split: if_splits)
    then have "\<not> Filter_IsAllowed E R m (si_Host si)" using m(2) assms(2) by blast
    moreover have "filter_inv m" "set (Filter_List R m) = set (Filter_List R ?g)"
      using exceptions_from_List [OF m(1) inv_New] List_New List_Replace g by auto
    ultimately show ?thesis using IsAllowed_List ginv by metis
  qed
qed

end

lemma canonicalHost_iff: "canonicalHost E a = canonicalHost E b \<longleftrightarrow> NormalizeDomain E a = NormalizeDomain E b"
  by (simp add: canonicalHost_def NormalizeDomain_def)

lemma IsAllowed_normalized: "NormalizeDomain E a = NormalizeDomain E b \<Longrightarrow> Filter_IsAllowed E R f a = Filter_IsAllowed E R f b"
  by (simp add: Filter_IsAllowed_def)

lemma configure_http_cases:
  fixes s :: "('t, 'time) HTTP_Server"
  assumes "configure_http E R h f secrets ca_ok passive = Inr s" and "hc_SecretInjections h \<noteq> []"
  shows "hs_mitmReady s"
    and "ValidateMITMExceptions E R (hc_MITMExceptions h) (hc_SecretInjections h) = None"
    and "hs_mitmExceptions s = hs_mitmExceptions (SetMITMExceptions E R (hc_MITMExceptions h) (HTTP_NewServer R f passive :: ('t, 'time) HTTP_Server))"
    and "mc_active (hs_mode s)"
    and "\<exists>values. Secrets_Load secrets = Inr values
      \<and> hs_secretInjections s = Some (group_rules E [] (resolveSecretRules (hc_SecretInjections h) values))"
  using assms
  by (auto simp: configure_http_def Let_def applySecretInjections_def HTTP_LoadCA_def HTTP_SetAllowPrivateTargets_def
      SetSecretInjections_def SetAllowedPorts_def SetMITMExceptions_def SetMaxConns_def HTTP_NewServer_def SetActive_def
      split: if_splits option.splits sum.splits prod.splits)

section \<open>Rules of a validated configuration\<close>

lemma group_rules_map:
  "(case map_of (group_rules E m rs) key of None \<Rightarrow> [] | Some l \<Rightarrow> l) =
   (case map_of m key of None \<Rightarrow> [] | Some l \<Rightarrow> l) @ List.filter (\<lambda>r. canonicalHost E (sr_Host r) = key) rs"
proof (induction rs arbitrary: m)
  case (Cons r rs)
  have "map_of (List.filter (\<lambda>e. fst e \<noteq> k) m) x = (if x = k then None else map_of m x)" for k x
    by (induction m) auto
  then show ?case using Cons by (auto simp: Let_def split: option.splits)
qed simp

lemma bound_rules_installed:
  "bound_rules E (SetSecretInjections E rules s) out =
     List.filter (\<lambda>r. canonicalHost E (sr_Host r) = canonicalHost E (extractHost (u_Host (r_URL out)))) rules"
proof -
  have "group_rules E m rs = [] \<Longrightarrow> m = [] \<and> rs = []" for m rs
    by (induction rs arbitrary: m) (auto simp: Let_def)
  then show ?thesis
    using group_rules_map [of E "[]" rules "canonicalHost E (extractHost (u_Host (r_URL out)))"]
    by (auto simp: bound_rules_def SetSecretInjections_def split: option.splits)
qed

lemma lower_upper_char: "lower_char (upper_char c) = lower_char c"
proof (cases "97 \<le> code c \<and> code c \<le> 122")
  case True
  then have "code (upper_char c) = code c - 32"
    using code_char_of [of "code c - 32"] code_less_256 [of c] less_imp_diff_less [of "code c" 256 32] by (simp add: upper_char_def)
  then have "code (lower_char (upper_char c)) = code (lower_char c)" using True by (auto simp: code_lower_char is_upper_def)
  then show ?thesis by (simp only: code_eq_iff)
next
  case False
  then have "upper_char c = c" by (simp only: upper_char_def if_False)
  then show ?thesis by simp
qed

lemma lower_canon: "map lower_char (canon_from u s) = map lower_char s"
  by (induction u s rule: canon_from.induct) (simp_all add: Let_def lower_upper_char)

lemma tchar_ascii: "tchar c \<Longrightarrow> is_ascii c"
  by (auto simp: go_char code_def)

lemma same_header_lower:
  assumes "ValidateHTTPHeaderName a = None" and "ValidateHTTPHeaderName b = None"
    and "CanonicalHeaderKey a = CanonicalHeaderKey b"
  shows "ToLower u a = ToLower u b"
proof -
  have t: "list_all tchar a" "list_all tchar b" using assms by (simp_all add: ValidateHTTPHeaderName_iff)
  then have "map lower_char a = map lower_char b"
    using assms(3) lower_canon [of True a] lower_canon [of True b] by (simp add: CanonicalHeaderKey_def)
  moreover have "list_all is_ascii a" "list_all is_ascii b" using t tchar_ascii by (auto simp: list_all_iff)
  ultimately show ?thesis by (simp add: ToLower_ascii)
qed

text \<open>A validated list has no two bindings for the same canonical host and header.\<close>

definition inj_key :: "dom_ext \<Rightarrow> SecretInjection \<Rightarrow> string \<times> string" where
  "inj_key E b = (canonicalHost E (si_Host b), CanonicalHeaderKey (si_Header b))"

lemma injections_from_distinct:
  "injections_from E i seen injs = None \<Longrightarrow>
   distinct (map (dedupe_key E) injs) \<and> dedupe_key E ` set injs \<inter> seen = {}
     \<and> (\<forall>b\<in>set injs. ValidateHTTPHeaderName (si_Header b) = None)"
proof (induction injs arbitrary: i seen)
  case (Cons b injs)
  then have "check_injection b = None" "dedupe_key E b \<notin> seen"
    "injections_from E (Suc i) (insert (dedupe_key E b) seen) injs = None"
    by (auto split: option.splits if_splits)
  moreover from this(1) have "ValidateHTTPHeaderName (si_Header b) = None"
    by (auto simp: check_injection_def split: option.splits if_splits)
  ultimately show ?case using Cons.IH [of "Suc i" "insert (dedupe_key E b) seen"] by auto
qed simp

lemma validated_injections_distinct:
  assumes "ValidateSecretInjections E injs = None"
  shows "distinct (map (inj_key E) injs)"
proof -
  have d: "distinct (map (dedupe_key E) injs)" and h: "\<forall>b\<in>set injs. ValidateHTTPHeaderName (si_Header b) = None"
    using injections_from_distinct assms by (auto simp: ValidateSecretInjections_def)
  have "dedupe_key E a = dedupe_key E b" if "a \<in> set injs" "b \<in> set injs" "inj_key E a = inj_key E b" for a b
  proof -
    have "NormalizeDomain E (si_Host a) = NormalizeDomain E (si_Host b)"
      "CanonicalHeaderKey (si_Header a) = CanonicalHeaderKey (si_Header b)"
      using that(3) by (simp_all add: inj_key_def canonicalHost_iff)
    then show ?thesis using same_header_lower h that(1,2) by (simp add: dedupe_key_def)
  qed
  then have "inj_on (inj_key E) (set injs)" using d unfolding distinct_map inj_on_def by blast
  then show ?thesis using d by (simp add: distinct_map)
qed

text \<open>What a rule does to its own header; with one rule per header the order is immaterial.\<close>

definition rule_effect :: "string option \<Rightarrow> bool \<Rightarrow> SecretRule \<Rightarrow> string list option \<Rightarrow> string list option" where
  "rule_effect clean echo r v =
     (if sr_Strip r then (if path_applies clean r \<or> clean = None then None else v)
      else if \<not> path_applies clean r then v
      else if echo then None else Some [sr_Value r])"

lemma map_of_apply_rule:
  "map_of (apply_rule clean echo h r) k =
     (if k = CanonicalHeaderKey (sr_Header r) then rule_effect clean echo r (map_of h k) else map_of h k)"
  by (auto simp: apply_rule_def rule_effect_def map_of_Header_Del map_of_Header_Set)

lemma map_of_apply_rules:
  assumes "distinct (map (\<lambda>r. CanonicalHeaderKey (sr_Header r)) rs)"
  shows "map_of (foldl (apply_rule clean echo) h rs) k = v \<longleftrightarrow>
    (if \<exists>r\<in>set rs. k = CanonicalHeaderKey (sr_Header r)
     then \<exists>r\<in>set rs. k = CanonicalHeaderKey (sr_Header r) \<and> v = rule_effect clean echo r (map_of h k)
     else v = map_of h k)"
  using assms
proof (induction rs arbitrary: v rule: rev_induct)
  case (snoc r rs)
  have IH: "map_of (foldl (apply_rule clean echo) h rs) k = v \<longleftrightarrow>
    (if \<exists>r\<in>set rs. k = CanonicalHeaderKey (sr_Header r)
     then \<exists>r\<in>set rs. k = CanonicalHeaderKey (sr_Header r) \<and> v = rule_effect clean echo r (map_of h k)
     else v = map_of h k)" for v using snoc by simp
  show ?case
  proof (cases "k = CanonicalHeaderKey (sr_Header r)")
    case True
    then have "\<not> (\<exists>r\<in>set rs. k = CanonicalHeaderKey (sr_Header r))" using snoc.prems by force
    then show ?thesis using True IH [of "map_of h k"] by (auto simp: map_of_apply_rule)
  next
    case False
    then show ?thesis using IH [of v] by (auto simp: map_of_apply_rule)
  qed
qed auto

lemma map_of_apply_rules_set:
  assumes "distinct (map (\<lambda>r. CanonicalHeaderKey (sr_Header r)) rs)" and "distinct (map (\<lambda>r. CanonicalHeaderKey (sr_Header r)) rs')"
    and "set rs' = set rs"
  shows "map_of (foldl (apply_rule clean echo) h rs') k = map_of (foldl (apply_rule clean echo) h rs) k"
  using map_of_apply_rules [OF assms(1), of clean echo h k "map_of (foldl (apply_rule clean echo) h rs) k"]
  by (simp only: map_of_apply_rules [OF assms(2)] assms(3)) simp

lemma bound_headers_distinct:
  assumes "distinct (map (inj_key E) injs)"
  shows "distinct (map (\<lambda>r. CanonicalHeaderKey (sr_Header r))
    (List.filter (\<lambda>r. canonicalHost E (sr_Host r) = key) (resolveSecretRules injs values)))"
proof -
  have r: "sr_Host (resolve_rule values b) = si_Host b" "sr_Header (resolve_rule values b) = si_Header b" for b
    by (simp_all add: resolve_rule_def strip_rule_def Let_def split: option.splits)
  let ?bs = "List.filter (\<lambda>b. canonicalHost E (si_Host b) = key) injs"
  have "map (\<lambda>r. CanonicalHeaderKey (sr_Header r)) (List.filter (\<lambda>r. canonicalHost E (sr_Host r) = key) (resolveSecretRules injs values))
      = map (\<lambda>b. CanonicalHeaderKey (si_Header b)) ?bs"
    by (simp add: resolveSecretRules_def filter_map comp_def r)
  moreover have "inj_on (\<lambda>b. CanonicalHeaderKey (si_Header b)) (set ?bs)"
    using assms by (auto simp: distinct_map inj_on_def inj_key_def)
  moreover have "distinct injs" using assms distinct_map by blast
  ultimately show ?thesis by (simp add: distinct_map)
qed

lemma injectSecrets_header:
  assumes "distinct (map (inj_key E) injs)" and "mset injs' = mset injs"
  shows "map_of (r_Header (injectSecrets E (SetSecretInjections E (resolveSecretRules injs' values) s) mitm out)) k =
    map_of (r_Header (injectSecrets E (SetSecretInjections E (resolveSecretRules injs values) s) mitm out)) k"
proof -
  let ?f = "\<lambda>i. List.filter (\<lambda>r. canonicalHost E (sr_Host r) = canonicalHost E (extractHost (u_Host (r_URL out)))) (resolveSecretRules i values)"
  have "distinct (map (inj_key E) injs')"
    using assms by (metis mset_eq_imp_distinct_iff mset_map)
  note d = bound_headers_distinct [OF this] bound_headers_distinct [OF assms(1)]
  have s: "set (?f injs') = set (?f injs)" using mset_eq_setD [OF assms(2)] by (simp add: resolveSecretRules_def)
  have "map_of (foldl (apply_rule c e) h (?f injs')) k = map_of (foldl (apply_rule c e) h (?f injs)) k" for c e h
    by (rule map_of_apply_rules_set [OF d(2) d(1) s])
  moreover have "?f injs' = [] \<longleftrightarrow> ?f injs = []" using s by (metis set_empty)
  moreover have "mc_active (hs_mode (SetSecretInjections E rs s)) = mc_active (hs_mode s)" for rs
    by (simp add: SetSecretInjections_def)
  ultimately show ?thesis by (simp add: injectSecrets_def bound_rules_installed Let_def)
qed

section \<open>Properties\<close>

text \<open>
  C10 (safety). A host that is to receive a credential is never tunnelled. Whenever the daemon comes up with secret
  bindings, a CONNECT to any spelling of a bound host (case, trailing dot, international form) is
  intercepted or rejected, whatever the list of interception exceptions is: the check made on the configuration and the
  filter the proxy consults decide alike. So the guest's own header cannot slip past the
  injection.
\<close>

theorem injected_host_never_tunnelled:
  fixes s :: "('t, 'time) HTTP_Server"
  assumes "allowlist_filter (he_E V) (he_R V) \<alpha>"
    and "configure_http (he_E V) (he_R V) h f secrets ca_ok passive = Inr s"
    and "b \<in> set (hc_SecretInjections h)"
    and "canonicalHost (he_E V) host = canonicalHost (he_E V) (si_Host b)"
    and "decideConnect V s host = (s', a)"
  shows "a \<noteq> actionTunnel"
proof -
  have ne: "hc_SecretInjections h \<noteq> []" using assms(3) by auto
  note c = configure_http_cases [OF assms(2) ne]
  have "\<not> Filter_IsAllowed (he_E V) (he_R V) (hs_mitmExceptions s) (si_Host b)"
    unfolding c(3) by (rule allowlist_filter.validated_exceptions [OF assms(1) c(2) assms(3)])
  then have "\<not> Filter_IsAllowed (he_E V) (he_R V) (hs_mitmExceptions s) host"
    using IsAllowed_normalized assms(4) by (metis canonicalHost_iff)
  then show ?thesis using decideConnect_permits(2) [OF assms(5)] c(1) by blast
qed

text \<open>
  The order of the secret bindings in a validated configuration is immaterial: any permutation of
  them makes the proxy send the same header values with every request. No two bindings
  that passed the validation can overwrite each other, because the validation compares hosts in the form the
  proxy matches them and header names without regard to case.
\<close>

theorem injection_order_immaterial:
  assumes "ValidateSecretInjections E injs = None" and "mset injs' = mset injs"
  shows "map_of (r_Header (injectSecrets E (SetSecretInjections E (resolveSecretRules injs' values) s) mitm out)) =
    map_of (r_Header (injectSecrets E (SetSecretInjections E (resolveSecretRules injs values) s) mitm out))"
  using injectSecrets_header [OF validated_injections_distinct [OF assms(1)] assms(2)] by (rule ext)

text \<open>The witnesses: one binding, an exception for another domain, and a guest that connects with capitals.\<close>

definition demo_binding :: SecretInjection where
  "demo_binding = \<lparr>si_Key = ''K'', si_Host = ''api.github.com'', si_Header = ''X-Key'', si_PathPrefix = [], si_ValuePrefix = []\<rparr>"

definition demo_http_config :: HTTPConfig where
  "demo_http_config = \<lparr>hc_Port = 0, hc_LogLevel = [], hc_MITM = True, hc_MaxConnections = 0, hc_AllowPrivateTargets = [],
     hc_AllowedPorts = [], hc_SecretInjections = [demo_binding], hc_MITMExceptions = [''*.pinned.com'']\<rparr>"

lemma demo_exceptions: "ValidateMITMExceptions ref_ext ref_radix [''*.pinned.com''] [demo_binding] = None"
proof -
  have e: "exception_host ''*.pinned.com'' = ''pinned.com''" by (simp add: exception_host_def go_eval)
  have n: "NormalizeDomain ref_ext ''pinned.com'' = ''pinned.com.''" by (simp add: filter_eval)
  have v: "ValidateDomain ''pinned.com'' = None" by (simp add: filter_eval)
  have f: "fst (Filter_Add ref_ext ref_radix (NewFilter ref_radix) ''pinned.com'') = \<lparr>tree = [(''com.pinned.'', ''pinned.com.'')]\<rparr>"
    by (simp add: filter_eval)
  have t: "TrimSuffix ''pinned.com.'' ''.'' = ''pinned.com''" "\<not> Contains ''pinned.com'' ''*''" by (simp_all add: go_eval)
  have "exceptions_from ref_ext ref_radix 0 {} (NewFilter ref_radix) [''*.pinned.com''] = Inr \<lparr>tree = [(''com.pinned.'', ''pinned.com.'')]\<rparr>"
    by (simp add: e n v f t Let_def)
  moreover have "\<not> Filter_IsAllowed ref_ext ref_radix \<lparr>tree = [(''com.pinned.'', ''pinned.com.'')]\<rparr> ''api.github.com''"
    by (simp add: filter_eval)
  ultimately show ?thesis by (simp add: ValidateMITMExceptions_def demo_binding_def)
qed

lemma demo_configured:
  "\<exists>s :: (alist, nat) HTTP_Server. configure_http ref_ext ref_radix demo_http_config demo_filter Missing True False = Inr s"
  using demo_exceptions demo_store(1)
  by (simp add: configure_http_def demo_http_config_def Let_def HTTP_SetAllowPrivateTargets_def NewTargetChecker_def
      HTTP_LoadCA_def applySecretInjections_def)

theorem injected_host_never_tunnelled_witness:
  "\<exists>(s :: (alist, nat) HTTP_Server) s' a.
     configure_http ref_ext ref_radix demo_http_config demo_filter Missing True False = Inr s
     \<and> decideConnect demo_http_env s ''API.GitHub.com'' = (s', a) \<and> a \<noteq> actionTunnel"
proof -
  obtain s :: "(alist, nat) HTTP_Server" where s: "configure_http ref_ext ref_radix demo_http_config demo_filter Missing True False = Inr s"
    using demo_configured by blast
  obtain s' a where d: "decideConnect demo_http_env s ''API.GitHub.com'' = (s', a)" by fastforce
  have V: "he_E demo_http_env = ref_ext" "he_R demo_http_env = ref_radix" by (simp_all add: demo_http_env_def)
  have b: "demo_binding \<in> set (hc_SecretInjections demo_http_config)" by (simp add: demo_http_config_def)
  have h: "canonicalHost ref_ext ''API.GitHub.com'' = canonicalHost ref_ext (si_Host demo_binding)"
    by (simp add: canonicalHost_def demo_binding_def filter_eval)
  show ?thesis
    using injected_host_never_tunnelled [of demo_http_env, unfolded V, OF ref_filter.allowlist_filter_axioms s b h d] s d by blast
qed

theorem injection_order_immaterial_witness:
  "map_of (r_Header (injectSecrets ref_ext (SetSecretInjections ref_ext
       (resolveSecretRules [demo_binding\<lparr>si_Header := ''A''\<rparr>, demo_binding] [''K'' \<mapsto> ''v'']) demo_secret) True demo_out)) =
   map_of (r_Header (injectSecrets ref_ext (SetSecretInjections ref_ext
       (resolveSecretRules [demo_binding, demo_binding\<lparr>si_Header := ''A''\<rparr>] [''K'' \<mapsto> ''v'']) demo_secret) True demo_out))"
proof (rule injection_order_immaterial)
  have "ValidateSecretKey ''K'' = None" "ValidateDomain ''api.github.com'' = None"
    "ValidateHTTPHeaderName ''X-Key'' = None" "ValidateHTTPHeaderName ''A'' = None" "ValidateHTTPHeaderValue [] = None"
    by (simp_all add: ValidateSecretKey_iff ValidateHTTPHeaderName_iff ValidateHTTPHeaderValue_iff filter_eval)
  then have "check_injection demo_binding = None" "check_injection (demo_binding\<lparr>si_Header := ''A''\<rparr>) = None"
    by (simp_all add: check_injection_def demo_binding_def)
  moreover have "dedupe_key ref_ext demo_binding \<noteq> dedupe_key ref_ext (demo_binding\<lparr>si_Header := ''A''\<rparr>)"
    by (simp add: dedupe_key_def demo_binding_def ToLower_def go_eval)
  ultimately show "ValidateSecretInjections ref_ext [demo_binding, demo_binding\<lparr>si_Header := ''A''\<rparr>] = None"
    by (simp add: ValidateSecretInjections_def)
qed simp

end
