(* ===== verification/PF_Validate.thy ===== *)
theory PF_Validate
  imports Go_Net Go_Regexp
begin

text \<open>
  \<^verbatim>\<open>internal/pfvalidate/pfvalidate.go\<close>: the checks that the client and the privileged helper of the macOS packet filter both make, each on
  its own input. The subnet of a request determines its canonical text and its gateway.
\<close>

datatype pf_error =
    PfNameEmpty | PfNameStart string | PfNameChar string char | PfNameLong string
  | PfSubnetInvalid string | PfSubnetNot4 string | PfSubnetNot24 string | PfSubnetHost string string
  | PfGateway string | PfGatewayNotFirst string string | PfBridge string | PfPort string int
  | PfRulesEmpty | PfRulesNUL | PfInlineComment nat string | PfRuleChar nat char string | PfRuleShape nat string
  | PfNoRules | PfNoTerminalDeny | PfNoInet6Deny | PfRun

definition BridgeNameRE :: rx where
  "BridgeNameRE = Seq (Alt (Lit ''bridge'') (Lit ''vmnet'')) (Plus (Cls is_digit))"

definition MatchBridgeName :: "string \<Rightarrow> bool" where
  "MatchBridgeName s = rx_match BridgeNameRE s"

definition pf_ValidatePort :: "int \<Rightarrow> bool" where
  "pf_ValidatePort port \<longleftrightarrow> 1024 \<le> port \<and> port \<le> 65535"

definition isNameChar :: "char \<Rightarrow> bool" where
  "isNameChar c \<longleftrightarrow> is_lower c \<or> is_upper c \<or> is_digit c"

definition pf_ValidateInstanceName :: "string \<Rightarrow> pf_error option" where
  "pf_ValidateInstanceName name =
     (if name = [] then Some PfNameEmpty
      else if \<not> isNameChar (hd name) then Some (PfNameStart name)
      else (case find (\<lambda>c. \<not> isNameChar c \<and> c \<noteq> CHR ''-'') name of
              Some c \<Rightarrow> Some (PfNameChar name c)
            | None \<Rightarrow> None))"

text \<open>\<open>IPMask.Size\<close> and \<open>IPNet.String\<close>. A mask that is not a run of ones is printed in hexadecimal.\<close>

definition simpleMaskLength :: "IP \<Rightarrow> nat option" where
  "simpleMaskLength m = (if m = CIDRMask (mask_ones m) (length m) then Some (mask_ones m) else None)"

definition IPNet_String :: "IPNet \<Rightarrow> string" where
  "IPNet_String n =
     (case networkNumberAndMask n of
        None \<Rightarrow> ''<nil>''
      | Some (nn, m) \<Rightarrow>
          IP_String nn @ ''/'' @ (case simpleMaskLength m of Some l \<Rightarrow> Itoa l | None \<Rightarrow> hex_bytes m))"

definition ParseSubnet24 :: "string \<Rightarrow> pf_error + (IPNet \<times> IP)" where
  "ParseSubnet24 subnet =
     (case (ParseCIDR_IP subnet, ParseCIDR subnet) of
        (Some ip, Some ipnet) \<Rightarrow>
          (case To4 ip of
             None \<Rightarrow> Inl (PfSubnetNot4 subnet)
           | Some ip4 \<Rightarrow>
               if simpleMaskLength (net_Mask ipnet) \<noteq> Some 24 \<or> 8 * length (net_Mask ipnet) \<noteq> 32 then Inl (PfSubnetNot24 subnet)
               else (let net4 = (case To4 (net_IP ipnet) of Some x \<Rightarrow> x | None \<Rightarrow> []) in
                     if \<not> IP_Equal net4 ip4 then Inl (PfSubnetHost subnet (IPNet_String ipnet))
                     else Inr (\<lparr>net_IP = net4, net_Mask = net_Mask ipnet\<rparr>, net4[3 := 1])))
      | _ \<Rightarrow> Inl (PfSubnetInvalid subnet))"

section \<open>Laws of the primitives\<close>

lemma MatchBridgeName_iff:
  "MatchBridgeName s \<longleftrightarrow> (\<exists>d. (s = ''bridge'' @ d \<or> s = ''vmnet'' @ d) \<and> d \<noteq> [] \<and> list_all is_digit d)"
proof -
  have sq: "s \<in> lang (Seq p q) \<longleftrightarrow> (\<exists>u v. s = u @ v \<and> u \<in> lang p \<and> v \<in> lang q)" for s p q
    by (auto simp: lang.simps)
  show ?thesis unfolding MatchBridgeName_def BridgeNameRE_def rx_match_lang sq lang_Alt lang_Lit lang_Plus_Cls by blast
qed

lemma mask24: "CIDRMask 24 (Suc (Suc (Suc (Suc 0)))) = [255, 255, 255, 0]" "mask_ones [255, 255, 255, 0] = 24" "simpleMaskLength [255, 255, 255, 0] = Some 24"
  by code_simp+

lemma apply_mask24: "apply_mask [a, b, c, d] [255, 255, 255, 0] = [a, b, c, 0]"
proof -
  have "x AND 255 = x" for x :: u8
  proof -
    have "(255 :: u8) = - 1" by simp
    then show ?thesis by (metis and.right_neutral)
  qed
  then show ?thesis by (simp add: apply_mask_def)
qed

lemma v4_string_no_slash: "CHR ''/'' \<notin> set (v4_string ip)"
proof -
  have "CHR ''/'' \<notin> set (Itoa n)" for n using Itoa_digits [of n] by (auto simp: list_all_iff is_digit_def code_def)
  then show ?thesis using set_Join [of "map (\<lambda>b. Itoa (unat b)) ip" "''.''"] by (auto simp: v4_string_def)
qed

lemma ParseIP_v4: "ParseIP (v4_string [a, b, c, d]) = Some (IPv4 a b c d)"
  by (simp add: ParseIP_def ParseAddr_v4_string To16_def IPv4_def)

lemma parse_net24:
  assumes "t = ''24'' \<or> t = ''024''"
  shows "ParseCIDR_IP (v4_string [a, b, c, d] @ ''/'' @ t) = Some (IPv4 a b c d)"
    and "ParseCIDR (v4_string [a, b, c, d] @ ''/'' @ t) = Some \<lparr>net_IP = [a, b, c, 0], net_Mask = [255, 255, 255, 0]\<rparr>"
proof -
  let ?s = "v4_string [a, b, c, d]"
  have i: "IndexByte (?s @ ''/'' @ t) CHR ''/'' = Some (length ?s)"
    using IndexByte_append [OF v4_string_no_slash] by simp
  have "prefix_len t = Some 24"
    using assms by (auto simp: prefix_len_def parse_digits_def dec_val_def digit_val_def go_eval)
  then show n: "ParseCIDR (?s @ ''/'' @ t) = Some \<lparr>net_IP = [a, b, c, 0], net_Mask = [255, 255, 255, 0]\<rparr>"
    using i by (simp add: ParseCIDR_def ParseAddr_v4_string Let_def mask24 apply_mask24)
  show "ParseCIDR_IP (?s @ ''/'' @ t) = Some (IPv4 a b c d)"
    using n i by (simp add: ParseCIDR_IP_def ParseIP_v4)
qed

lemma To4_v4: "To4 (IPv4 a b c d) = Some [a, b, c, d]" "To4 [a, b, c, d] = Some [a, b, c, d]"
  by (simp_all add: To4_def IPv4_def v4InV6Prefix_def)

lemma ParseSubnet24_text:
  assumes "t = ''24'' \<or> t = ''024''"
  shows "ParseSubnet24 (v4_string [a, b, c, 0] @ ''/'' @ t) = Inr (\<lparr>net_IP = [a, b, c, 0], net_Mask = [255, 255, 255, 0]\<rparr>, [a, b, c, 1])"
  by (simp add: ParseSubnet24_def parse_net24 [OF assms, unfolded append.simps] parse_net24 [OF assms] mask24 To4_v4 IP_Equal_def Let_def)

lemma net24_text:
  "IPNet_String \<lparr>net_IP = [a, b, c, 0], net_Mask = [255, 255, 255, 0]\<rparr> = v4_string [a, b, c, 0] @ ''/24''"
  "IP_String [a, b, c, d] = v4_string [a, b, c, d]"
  by (simp_all add: IPNet_String_def networkNumberAndMask_def To4_v4 Let_def mask24 IP_String_def Itoa.simps char_of_eq_iff)

text \<open>Every accepted subnet is a network of that form, whatever its spelling.\<close>

lemma ParseSubnet24_shape:
  assumes "ParseSubnet24 s = Inr (n, gw)"
  obtains a b c where "n = \<lparr>net_IP = [a, b, c, 0], net_Mask = [255, 255, 255, 0]\<rparr>" "gw = [a, b, c, 1]"
proof -
  obtain ip ipnet ip4 where 1: "ParseCIDR_IP s = Some ip" "ParseCIDR s = Some ipnet" "To4 ip = Some ip4"
      "simpleMaskLength (net_Mask ipnet) = Some 24" "length (net_Mask ipnet) = 4"
    and 2: "n = \<lparr>net_IP = (case To4 (net_IP ipnet) of Some x \<Rightarrow> x | None \<Rightarrow> []), net_Mask = net_Mask ipnet\<rparr>" "gw = (net_IP n)[3 := 1]"
    using assms by (auto simp: ParseSubnet24_def Let_def split: option.splits if_splits)
  have m: "net_Mask ipnet = [255, 255, 255, 0]"
    using 1(4,5) mask24(1) by (auto simp: simpleMaskLength_def numeral_eq_Suc split: if_splits)
  obtain q k where q: "net_IP ipnet = apply_mask q (net_Mask ipnet)" "net_Mask ipnet = CIDRMask k (length q)"
    using 1(2) by (auto simp: ParseCIDR_def Let_def split: option.splits prod.splits if_splits)
  then have "length q = 4" using 1(5) by (simp add: CIDRMask_def)
  then obtain a b c d where "q = [a, b, c, d]" by (auto simp: numeral_eq_Suc length_Suc_conv)
  then have "net_IP ipnet = [a, b, c, 0]" using q(1) m by (simp add: apply_mask24)
  then show ?thesis using that [of a b c] 2 m by (simp add: To4_v4)
qed

end
