(* ===== verification/Egress.thy ===== *)
theory Egress
  imports Config PF_Validate
begin

text \<open>
  \<^verbatim>\<open>internal/privilege/egress_linux.go\<close>, \<^verbatim>\<open>egress_ipv6_linux.go\<close> and \<^verbatim>\<open>validation.go\<close>: the privileged helper that
  confines a guest with iptables. Every command the helper issues is an argument vector given
  to one of three seams (run, check, list); the tables are the state behind them. What the helper relies on of
  iptables is the locale \<open>iptables\<close>, and \<open>ref_iptables\<close> is an executable
  table that satisfies it. Commands may fail at any time, a failed command changes nothing, and a failed check looks like an absent rule.
  The reading of a rule by the kernel is the function \<open>walk\<close>.
\<close>

section \<open>Seams\<close>

record 'x iptables_ops =
  ipt_run :: "string list \<Rightarrow> 'x \<Rightarrow> 'x \<times> bool"
  ipt_check :: "string list \<Rightarrow> 'x \<Rightarrow> bool"
  ipt_list :: "string list \<Rightarrow> 'x \<Rightarrow> string option"

definition ruleExists :: "'x iptables_ops \<Rightarrow> string list \<Rightarrow> 'x \<Rightarrow> bool" where
  "ruleExists T args s = ipt_check T args s"

fun targets_from :: "string list \<Rightarrow> string \<Rightarrow> bool" where
  "targets_from [] bridge = False"
| "targets_from [f] bridge = False"
| "targets_from (f # g # fs) bridge = (if f = ''-i'' then g = bridge else targets_from (g # fs) bridge)"

definition ruleTargetsBridge :: "string \<Rightarrow> string \<Rightarrow> bool" where
  "ruleTargetsBridge line bridge = targets_from (Fields line) bridge"

section \<open>Requests\<close>

datatype egress_error =
    EgBridgePrefix string | EgBridgeLong string | EgBridgeChars string
  | EgPort int | EgGuestPort int | EgGateway val_error
  | EgNAT | EgNATVerify | EgCreate string | EgFlush string | EgAppend | EgJump string | EgDeleteJump string
  | EgListNAT | EgDeleteNAT nat nat | EgDelete string
  | EgNoIP6tables | Eg6Create string | Eg6Flush string | Eg6Append string | Eg6Jump string

definition safeBridgeChars :: rx where
  "safeBridgeChars = Plus (Cls (\<lambda>c. is_alnum c \<or> c = CHR ''-''))"

definition safeVMNetName :: rx where
  "safeVMNetName = Seq (Lit ''vmnet'') (Plus (Cls is_digit))"

definition ValidateBridgeName :: "string \<Rightarrow> egress_error option" where
  "ValidateBridgeName name =
     (if \<not> HasPrefix name ''abox-'' \<and> \<not> HasPrefix name ''ab-'' \<and> \<not> rx_match safeVMNetName name then Some (EgBridgePrefix name)
      else if 15 < length name then Some (EgBridgeLong name)
      else if \<not> rx_match safeBridgeChars name then Some (EgBridgeChars name)
      else None)"

datatype socket_error = SocketEmpty | SocketUnclean | SocketRelative

definition ValidateSocketPath :: "string \<Rightarrow> socket_error option" where
  "ValidateSocketPath socketPath =
     (if socketPath = [] then Some SocketEmpty
      else if path_Clean socketPath \<noteq> socketPath then Some SocketUnclean
      else if \<not> IsAbs (path_Clean socketPath) then Some SocketRelative
      else None)"

definition validatePort :: "int \<Rightarrow> egress_error + string" where
  "validatePort port = (if \<not> pf_ValidatePort port then Inl (EgPort port) else Inr (Itoa_int port))"

definition validateGuestPort :: "int \<Rightarrow> egress_error + string" where
  "validateGuestPort port = (if port < 1 \<or> port > 65535 then Inl (EgGuestPort port) else Inr (Itoa_int port))"

definition validateGateway :: "string \<Rightarrow> egress_error + string" where
  "validateGateway gw = (case ValidateIPv4 gw of Some e \<Rightarrow> Inl (EgGateway e) | None \<Rightarrow> Inr gw)"

text \<open>The ports of a request are 32-bit integers.\<close>

record EgressReq =
  eq_Bridge :: string
  eq_GuestDnsPort :: int
  eq_DnsPort :: int
  eq_HttpPort :: int
  eq_Gateway :: string

record ruleParams =
  rp_bridge :: string
  rp_guestDNS :: string
  rp_dnsPort :: string
  rp_httpPort :: string
  rp_gateway :: string

definition or_empty :: "egress_error + string \<Rightarrow> string" where
  "or_empty r = (case r of Inr s \<Rightarrow> s | Inl _ \<Rightarrow> [])"

definition resolveRules :: "EgressReq \<Rightarrow> bool \<Rightarrow> egress_error + ruleParams" where
  "resolveRules req lenient =
     (case ValidateBridgeName (eq_Bridge req) of
        Some e \<Rightarrow> Inl e
      | None \<Rightarrow>
          if lenient then
            Inr \<lparr>rp_bridge = eq_Bridge req, rp_guestDNS = or_empty (validateGuestPort (eq_GuestDnsPort req)),
                 rp_dnsPort = or_empty (validatePort (eq_DnsPort req)), rp_httpPort = or_empty (validatePort (eq_HttpPort req)),
                 rp_gateway = or_empty (validateGateway (eq_Gateway req))\<rparr>
          else
            (case validatePort (eq_DnsPort req) of Inl e \<Rightarrow> Inl e | Inr dnsStr \<Rightarrow>
            (case validatePort (eq_HttpPort req) of Inl e \<Rightarrow> Inl e | Inr httpStr \<Rightarrow>
            (case validateGuestPort (eq_GuestDnsPort req) of Inl e \<Rightarrow> Inl e | Inr guestStr \<Rightarrow>
            (case validateGateway (eq_Gateway req) of Inl e \<Rightarrow> Inl e | Inr gwStr \<Rightarrow>
               Inr \<lparr>rp_bridge = eq_Bridge req, rp_guestDNS = guestStr, rp_dnsPort = dnsStr, rp_httpPort = httpStr,
                    rp_gateway = gwStr\<rparr>)))))"

section \<open>Rules\<close>

record chainSpec =
  cs_prefix :: string
  cs_parent :: string

definition inputChain :: chainSpec where "inputChain = \<lparr>cs_prefix = ''ABOX-'', cs_parent = ''INPUT''\<rparr>"
definition forwardChain :: chainSpec where "forwardChain = \<lparr>cs_prefix = ''ABOXF-'', cs_parent = ''FORWARD''\<rparr>"

text \<open>\<open>chainSpec.name\<close>; SHA-256 is a parameter.\<close>

definition chain_name :: "(string \<Rightarrow> u8 list) \<Rightarrow> chainSpec \<Rightarrow> string \<Rightarrow> string" where
  "chain_name sum256 c bridge = cs_prefix c @ hex_bytes (take 8 (sum256 bridge))"

definition natRedirectArgs :: "string \<Rightarrow> string \<Rightarrow> string \<Rightarrow> string \<Rightarrow> string \<Rightarrow> string list" where
  "natRedirectArgs verb bridge proto guestPort toPort =
     [''-w'', ''-t'', ''nat'', verb, ''PREROUTING'', ''-i'', bridge, ''-p'', proto, ''--dport'', guestPort,
      ''-j'', ''REDIRECT'', ''--to-port'', toPort]"

definition jumpArgs :: "(string \<Rightarrow> u8 list) \<Rightarrow> chainSpec \<Rightarrow> string \<Rightarrow> string \<Rightarrow> string list" where
  "jumpArgs sum256 c verb bridge = [''-w'', verb, cs_parent c, ''-i'', bridge, ''-j'', chain_name sum256 c bridge]"

definition insertJumpArgs :: "(string \<Rightarrow> u8 list) \<Rightarrow> chainSpec \<Rightarrow> string \<Rightarrow> string list" where
  "insertJumpArgs sum256 c bridge = [''-w'', ''-I'', cs_parent c, ''1'', ''-i'', bridge, ''-j'', chain_name sum256 c bridge]"

definition chainAcceptArgs :: "(string \<Rightarrow> u8 list) \<Rightarrow> string \<Rightarrow> string \<Rightarrow> string \<Rightarrow> string \<Rightarrow> string \<Rightarrow> string list" where
  "chainAcceptArgs sum256 verb bridge proto port dst =
     [''-w'', verb, chain_name sum256 inputChain bridge] @ (if dst \<noteq> [] then [''-d'', dst] else [])
     @ [''-p'', proto, ''--dport'', port, ''-j'', ''ACCEPT'']"

definition chainICMPAcceptArgs :: "(string \<Rightarrow> u8 list) \<Rightarrow> string \<Rightarrow> string \<Rightarrow> string \<Rightarrow> string list" where
  "chainICMPAcceptArgs sum256 verb bridge dst =
     [''-w'', verb, chain_name sum256 inputChain bridge] @ (if dst \<noteq> [] then [''-d'', dst] else [])
     @ [''-p'', ''icmp'', ''-j'', ''ACCEPT'']"

definition establishedArgs :: "string \<Rightarrow> string \<Rightarrow> string list" where
  "establishedArgs verb chain =
     [''-w'', verb, chain, ''-m'', ''conntrack'', ''--ctstate'', ''ESTABLISHED,RELATED'', ''-j'', ''ACCEPT'']"

definition dropArgs :: "string \<Rightarrow> string \<Rightarrow> string list" where
  "dropArgs verb chain = [''-w'', verb, chain, ''-j'', ''DROP'']"

section \<open>Building and removing chains\<close>

fun and_then :: "'x \<times> egress_error option \<Rightarrow> ('x \<Rightarrow> 'x \<times> egress_error option) \<Rightarrow> 'x \<times> egress_error option" where
  "and_then (s, Some e) f = (s, Some e)"
| "and_then (s, None) f = f s"

text \<open>A command whose failure is the given error.\<close>

definition run_or :: "'x iptables_ops \<Rightarrow> egress_error \<Rightarrow> string list \<Rightarrow> 'x \<Rightarrow> 'x \<times> egress_error option" where
  "run_or T e args s = (case ipt_run T args s of (s', ok) \<Rightarrow> (s', if ok then None else Some e))"

definition appendRule :: "'x iptables_ops \<Rightarrow> string list \<Rightarrow> 'x \<Rightarrow> 'x \<times> egress_error option" where
  "appendRule T args s = run_or T EgAppend args s"

definition ensureChain :: "'x iptables_ops \<Rightarrow> (string \<Rightarrow> u8 list) \<Rightarrow> chainSpec \<Rightarrow> string \<Rightarrow> 'x \<Rightarrow> 'x \<times> egress_error option" where
  "ensureChain T sum256 c bridge s =
     (let chain = chain_name sum256 c bridge in
      case ipt_run T [''-w'', ''-N'', chain] s of
        (s', True) \<Rightarrow> (s', None)
      | (s', False) \<Rightarrow> (s', if ipt_list T [''-w'', ''-S'', chain] s' = None then Some (EgCreate (cs_parent c)) else None))"

definition ensureJump :: "'x iptables_ops \<Rightarrow> (string \<Rightarrow> u8 list) \<Rightarrow> chainSpec \<Rightarrow> string \<Rightarrow> 'x \<Rightarrow> 'x \<times> egress_error option" where
  "ensureJump T sum256 c bridge s =
     (if ruleExists T (jumpArgs sum256 c ''-C'' bridge) s then (s, None)
      else run_or T (EgJump (cs_parent c)) (insertJumpArgs sum256 c bridge) s)"

fun append_rules :: "'x iptables_ops \<Rightarrow> string list list \<Rightarrow> 'x \<Rightarrow> 'x \<times> egress_error option" where
  "append_rules T [] s = (s, None)"
| "append_rules T (args # rest) s = and_then (appendRule T args s) (append_rules T rest)"

definition buildChain :: "'x iptables_ops \<Rightarrow> (string \<Rightarrow> u8 list) \<Rightarrow> ruleParams \<Rightarrow> 'x \<Rightarrow> 'x \<times> egress_error option" where
  "buildChain T sum256 r s =
     (let b = rp_bridge r; chain = chain_name sum256 inputChain b in
      and_then (ensureChain T sum256 inputChain b s) (\<lambda>s.
      and_then (run_or T (EgFlush ''INPUT'') [''-w'', ''-F'', chain] s) (\<lambda>s.
      and_then (append_rules T
        [establishedArgs ''-A'' chain,
         chainAcceptArgs sum256 ''-A'' b ''udp'' (rp_dnsPort r) [],
         chainAcceptArgs sum256 ''-A'' b ''tcp'' (rp_dnsPort r) [],
         chainAcceptArgs sum256 ''-A'' b ''tcp'' (rp_httpPort r) (rp_gateway r),
         chainICMPAcceptArgs sum256 ''-A'' b (rp_gateway r),
         dropArgs ''-A'' chain] s)
      (ensureJump T sum256 inputChain b))))"

definition buildFwdChain :: "'x iptables_ops \<Rightarrow> (string \<Rightarrow> u8 list) \<Rightarrow> ruleParams \<Rightarrow> 'x \<Rightarrow> 'x \<times> egress_error option" where
  "buildFwdChain T sum256 r s =
     (let b = rp_bridge r; chain = chain_name sum256 forwardChain b in
      and_then (ensureChain T sum256 forwardChain b s) (\<lambda>s.
      and_then (run_or T (EgFlush ''FORWARD'') [''-w'', ''-F'', chain] s) (\<lambda>s.
      and_then (append_rules T [establishedArgs ''-A'' chain, dropArgs ''-A'' chain] s)
      (ensureJump T sum256 forwardChain b))))"

definition maxFlushRules :: nat where "maxFlushRules = 100"

fun remove_jumps ::
  "'x iptables_ops \<Rightarrow> (string \<Rightarrow> u8 list) \<Rightarrow> chainSpec \<Rightarrow> string \<Rightarrow> nat \<Rightarrow> 'x \<Rightarrow> 'x \<times> egress_error option" where
  "remove_jumps T sum256 c bridge 0 s = (s, None)"
| "remove_jumps T sum256 c bridge (Suc n) s =
     (if \<not> ruleExists T (jumpArgs sum256 c ''-C'' bridge) s then (s, None)
      else and_then (run_or T (EgDeleteJump (cs_parent c)) (jumpArgs sum256 c ''-D'' bridge) s)
             (remove_jumps T sum256 c bridge n))"

definition removeAllJumps :: "'x iptables_ops \<Rightarrow> (string \<Rightarrow> u8 list) \<Rightarrow> chainSpec \<Rightarrow> string \<Rightarrow> 'x \<Rightarrow> 'x \<times> egress_error option" where
  "removeAllJumps T sum256 c bridge s = remove_jumps T sum256 c bridge maxFlushRules s"

definition deleteNamedChain :: "'x iptables_ops \<Rightarrow> string \<Rightarrow> 'x \<Rightarrow> 'x \<times> egress_error option" where
  "deleteNamedChain T chain s =
     (if ipt_list T [''-w'', ''-S'', chain] s = None then (s, None)
      else and_then (run_or T (EgFlush chain) [''-w'', ''-F'', chain] s) (run_or T (EgDelete chain) [''-w'', ''-X'', chain]))"

definition flushChainRules :: "'x iptables_ops \<Rightarrow> (string \<Rightarrow> u8 list) \<Rightarrow> chainSpec \<Rightarrow> ruleParams \<Rightarrow> 'x \<Rightarrow> 'x \<times> egress_error option" where
  "flushChainRules T sum256 c r s =
     and_then (removeAllJumps T sum256 c (rp_bridge r) s) (deleteNamedChain T (chain_name sum256 c (rp_bridge r)))"

text \<open>The redirect of guest DNS in the NAT table. The listing is read line by line, at most \<open>maxFlushRules\<close>
  rules are deleted, the last first.\<close>

definition natRuleIsAbox :: "string \<Rightarrow> ruleParams \<Rightarrow> bool" where
  "natRuleIsAbox line r \<longleftrightarrow>
     ruleTargetsBridge line (rp_bridge r) \<and> Contains line (''--dport '' @ rp_guestDNS r @ '' '') \<and> Contains line ''-j REDIRECT''"

fun delete_nat :: "'x iptables_ops \<Rightarrow> string list \<Rightarrow> nat \<Rightarrow> 'x \<Rightarrow> 'x \<times> nat" where
  "delete_nat T [] failed s = (s, failed)"
| "delete_nat T (rule # rules) failed s =
     (case ipt_run T ([''-w'', ''-t'', ''nat'', ''-D''] @ Fields (TrimPrefix rule ''-A '')) s of
        (s', ok) \<Rightarrow> delete_nat T rules (if ok then failed else Suc failed) s')"

definition flushNATRules :: "'x iptables_ops \<Rightarrow> ruleParams \<Rightarrow> 'x \<Rightarrow> 'x \<times> egress_error option" where
  "flushNATRules T r s =
     (if rp_guestDNS r = [] then (s, None)
      else (case ipt_list T [''-w'', ''-t'', ''nat'', ''-S'', ''PREROUTING''] s of
              None \<Rightarrow> (s, Some EgListNAT)
            | Some output \<Rightarrow>
                (let rules = take maxFlushRules (List.filter (\<lambda>l. natRuleIsAbox l r) (Split output LF)) in
                 case delete_nat T (rev rules) 0 s of
                   (s', failed) \<Rightarrow> (s', if 0 < failed then Some (EgDeleteNAT failed (length rules)) else None))))"

definition addNATRedirect :: "'x iptables_ops \<Rightarrow> ruleParams \<Rightarrow> string \<Rightarrow> 'x \<Rightarrow> 'x \<times> egress_error option" where
  "addNATRedirect T r proto s =
     and_then (run_or T EgNAT (natRedirectArgs ''-A'' (rp_bridge r) proto (rp_guestDNS r) (rp_dnsPort r)) s) (\<lambda>s.
       (s, if \<not> ruleExists T (natRedirectArgs ''-C'' (rp_bridge r) proto (rp_guestDNS r) (rp_dnsPort r)) s
           then Some EgNATVerify else None))"

section \<open>IPv6\<close>

text \<open>\<open>has6\<close> says whether \<open>ip6tables\<close> was found, \<open>ipv6Enabled\<close> whether the kernel has IPv6.\<close>

definition buildV6Chain :: "'y iptables_ops \<Rightarrow> (string \<Rightarrow> u8 list) \<Rightarrow> chainSpec \<Rightarrow> string \<Rightarrow> 'y \<Rightarrow> 'y \<times> egress_error option" where
  "buildV6Chain T sum256 c bridge s =
     (let chain = chain_name sum256 c bridge in
      and_then
        (case ipt_run T [''-w'', ''-N'', chain] s of
           (s', True) \<Rightarrow> (s', None)
         | (s', False) \<Rightarrow> (s', if ipt_list T [''-w'', ''-S'', chain] s' = None then Some (Eg6Create (cs_parent c)) else None)) (\<lambda>s.
      and_then (run_or T (Eg6Flush (cs_parent c)) [''-w'', ''-F'', chain] s) (\<lambda>s.
      and_then (run_or T (Eg6Append (cs_parent c)) (establishedArgs ''-A'' chain) s) (\<lambda>s.
      and_then (run_or T (Eg6Append (cs_parent c)) (dropArgs ''-A'' chain) s) (\<lambda>s.
        if ipt_check T (jumpArgs sum256 c ''-C'' bridge) s then (s, None)
        else run_or T (Eg6Jump (cs_parent c)) (insertJumpArgs sum256 c bridge) s)))))"

definition ensureIPv6Denied ::
  "'y iptables_ops \<Rightarrow> (string \<Rightarrow> u8 list) \<Rightarrow> bool \<Rightarrow> bool \<Rightarrow> ruleParams \<Rightarrow> 'y \<Rightarrow> 'y \<times> egress_error option" where
  "ensureIPv6Denied T sum256 has6 ipv6Enabled r s =
     (if \<not> has6 then (s, if ipv6Enabled then Some EgNoIP6tables else None)
      else and_then (buildV6Chain T sum256 inputChain (rp_bridge r) s) (buildV6Chain T sum256 forwardChain (rp_bridge r)))"

fun remove_jumps6 ::
  "'y iptables_ops \<Rightarrow> (string \<Rightarrow> u8 list) \<Rightarrow> chainSpec \<Rightarrow> string \<Rightarrow> nat \<Rightarrow> 'y \<Rightarrow> 'y \<times> egress_error option" where
  "remove_jumps6 T sum256 c bridge 0 s = (s, None)"
| "remove_jumps6 T sum256 c bridge (Suc n) s =
     (if \<not> ipt_check T (jumpArgs sum256 c ''-C'' bridge) s then (s, None)
      else and_then (run_or T (EgDeleteJump (cs_parent c)) (jumpArgs sum256 c ''-D'' bridge) s)
             (remove_jumps6 T sum256 c bridge n))"

definition flushV6Chain :: "'y iptables_ops \<Rightarrow> (string \<Rightarrow> u8 list) \<Rightarrow> chainSpec \<Rightarrow> string \<Rightarrow> 'y \<Rightarrow> 'y \<times> egress_error option" where
  "flushV6Chain T sum256 c bridge s =
     (let chain = chain_name sum256 c bridge in
      and_then (remove_jumps6 T sum256 c bridge maxFlushRules s) (\<lambda>s.
        if ipt_list T [''-w'', ''-S'', chain] s = None then (s, None)
        else and_then (run_or T (EgFlush chain) [''-w'', ''-F'', chain] s) (run_or T (EgDelete chain) [''-w'', ''-X'', chain])))"

text \<open>\<open>errors.Join\<close> evaluates its arguments in order and is nil when all are.\<close>

definition join_steps :: "'x \<times> egress_error option \<Rightarrow> ('x \<Rightarrow> 'x \<times> egress_error option) \<Rightarrow> 'x \<times> egress_error option" where
  "join_steps r f = (case r of (s, e) \<Rightarrow> (case f s of (s', e') \<Rightarrow> (s', case e of Some x \<Rightarrow> Some x | None \<Rightarrow> e')))"

definition flushV6Chains :: "'y iptables_ops \<Rightarrow> (string \<Rightarrow> u8 list) \<Rightarrow> bool \<Rightarrow> ruleParams \<Rightarrow> 'y \<Rightarrow> 'y \<times> egress_error option" where
  "flushV6Chains T sum256 has6 r s =
     (if \<not> has6 then (s, None)
      else join_steps (flushV6Chain T sum256 inputChain (rp_bridge r) s) (flushV6Chain T sum256 forwardChain (rp_bridge r)))"

definition v6_family_applied :: "'y iptables_ops \<Rightarrow> (string \<Rightarrow> u8 list) \<Rightarrow> string \<Rightarrow> 'y \<Rightarrow> chainSpec \<Rightarrow> bool" where
  "v6_family_applied T sum256 bridge s c \<longleftrightarrow>
     ipt_check T (jumpArgs sum256 c ''-C'' bridge) s
     \<and> ipt_check T (establishedArgs ''-C'' (chain_name sum256 c bridge)) s
     \<and> ipt_check T (dropArgs ''-C'' (chain_name sum256 c bridge)) s"

definition ipv6Applied :: "'y iptables_ops \<Rightarrow> (string \<Rightarrow> u8 list) \<Rightarrow> bool \<Rightarrow> bool \<Rightarrow> ruleParams \<Rightarrow> 'y \<Rightarrow> bool" where
  "ipv6Applied T sum256 has6 ipv6Enabled r s =
     (if \<not> has6 then \<not> ipv6Enabled else list_all (v6_family_applied T sum256 (rp_bridge r) s) [inputChain, forwardChain])"

section \<open>The service\<close>

record ('x, 'y) egress_env =
  ee_4 :: "'x iptables_ops"
  ee_6 :: "'y iptables_ops"
  ee_sum256 :: "string \<Rightarrow> u8 list"
  ee_has6 :: bool
  ee_ipv6Enabled :: bool

type_synonym ('x, 'y) tables = "'x \<times> 'y"

text \<open>Steps on the IPv4 tables and on the IPv6 tables.\<close>

definition on4 :: "('x \<Rightarrow> 'x \<times> egress_error option) \<Rightarrow> ('x, 'y) tables \<Rightarrow> ('x, 'y) tables \<times> egress_error option" where
  "on4 f s = (case f (fst s) of (s4, e) \<Rightarrow> ((s4, snd s), e))"

definition on6 :: "('y \<Rightarrow> 'y \<times> egress_error option) \<Rightarrow> ('x, 'y) tables \<Rightarrow> ('x, 'y) tables \<times> egress_error option" where
  "on6 f s = (case f (snd s) of (s6, e) \<Rightarrow> ((fst s, s6), e))"

definition fwdApplied :: "'x iptables_ops \<Rightarrow> (string \<Rightarrow> u8 list) \<Rightarrow> ruleParams \<Rightarrow> 'x \<Rightarrow> bool" where
  "fwdApplied T sum256 r s \<longleftrightarrow>
     ruleExists T (jumpArgs sum256 forwardChain ''-C'' (rp_bridge r)) s
     \<and> ruleExists T (establishedArgs ''-C'' (chain_name sum256 forwardChain (rp_bridge r))) s
     \<and> ruleExists T (dropArgs ''-C'' (chain_name sum256 forwardChain (rp_bridge r))) s"

definition alreadyApplied :: "('x, 'y) egress_env \<Rightarrow> ruleParams \<Rightarrow> ('x, 'y) tables \<Rightarrow> bool" where
  "alreadyApplied V r s =
     (let T = ee_4 V; h = ee_sum256 V; b = rp_bridge r; chain = chain_name h inputChain b; has = (\<lambda>args. ruleExists T args (fst s)) in
      has (natRedirectArgs ''-C'' b ''udp'' (rp_guestDNS r) (rp_dnsPort r))
      \<and> has (natRedirectArgs ''-C'' b ''tcp'' (rp_guestDNS r) (rp_dnsPort r))
      \<and> has (jumpArgs h inputChain ''-C'' b)
      \<and> has (establishedArgs ''-C'' chain)
      \<and> has (chainAcceptArgs h ''-C'' b ''udp'' (rp_dnsPort r) [])
      \<and> has (chainAcceptArgs h ''-C'' b ''tcp'' (rp_dnsPort r) [])
      \<and> has (chainAcceptArgs h ''-C'' b ''tcp'' (rp_httpPort r) (rp_gateway r))
      \<and> has (chainICMPAcceptArgs h ''-C'' b (rp_gateway r))
      \<and> has (dropArgs ''-C'' chain)
      \<and> fwdApplied T h r (fst s) \<and> ipv6Applied (ee_6 V) h (ee_has6 V) (ee_ipv6Enabled V) r (snd s))"

text \<open>The four flushes, each run whatever the others return.\<close>

definition flush_all :: "('x, 'y) egress_env \<Rightarrow> ruleParams \<Rightarrow> ('x, 'y) tables \<Rightarrow> ('x, 'y) tables \<times> egress_error option" where
  "flush_all V r s =
     join_steps (join_steps (join_steps (on4 (flushNATRules (ee_4 V) r) s)
       (on4 (flushChainRules (ee_4 V) (ee_sum256 V) inputChain r)))
       (on4 (flushChainRules (ee_4 V) (ee_sum256 V) forwardChain r)))
       (on6 (flushV6Chains (ee_6 V) (ee_sum256 V) (ee_has6 V) r))"

definition install :: "('x, 'y) egress_env \<Rightarrow> ruleParams \<Rightarrow> ('x, 'y) tables \<Rightarrow> ('x, 'y) tables \<times> egress_error option" where
  "install V r s =
     and_then (on4 (addNATRedirect (ee_4 V) r ''udp'') s) (\<lambda>s.
     and_then (on4 (addNATRedirect (ee_4 V) r ''tcp'') s) (\<lambda>s.
     and_then (on4 (buildChain (ee_4 V) (ee_sum256 V) r) s) (\<lambda>s.
     and_then (on4 (buildFwdChain (ee_4 V) (ee_sum256 V) r) s)
       (on6 (ensureIPv6Denied (ee_6 V) (ee_sum256 V) (ee_has6 V) (ee_ipv6Enabled V) r)))))"

definition Egress_Apply :: "('x, 'y) egress_env \<Rightarrow> EgressReq \<Rightarrow> ('x, 'y) tables \<Rightarrow> ('x, 'y) tables \<times> egress_error option" where
  "Egress_Apply V req s =
     (case resolveRules req False of
        Inl e \<Rightarrow> (s, Some e)
      | Inr r \<Rightarrow>
          if alreadyApplied V r s then (s, None)
          else (case install V r (fst (flush_all V r s)) of
                  (s', None) \<Rightarrow> (s', None)
                | (s', Some e) \<Rightarrow> (fst (flush_all V r s'), Some e)))"

definition Egress_Verify :: "('x, 'y) egress_env \<Rightarrow> EgressReq \<Rightarrow> ('x, 'y) tables \<Rightarrow> egress_error + bool" where
  "Egress_Verify V req s =
     (case resolveRules req False of Inl e \<Rightarrow> Inl e | Inr r \<Rightarrow> Inr (alreadyApplied V r s))"

definition Egress_Remove :: "('x, 'y) egress_env \<Rightarrow> EgressReq \<Rightarrow> ('x, 'y) tables \<Rightarrow> ('x, 'y) tables \<times> egress_error option" where
  "Egress_Remove V req s =
     (case resolveRules req True of Inl e \<Rightarrow> (s, Some e) | Inr r \<Rightarrow> flush_all V r s)"

section \<open>How the kernel reads the tables\<close>

record packet =
  pk_in :: string
  pk_dst :: string
  pk_proto :: string
  pk_dport :: nat
  pk_established :: bool

text \<open>The matches of a rule, for the options that occur in the rules of the helper; a rule with another option is taken not to
  match. The last argument pair is the target.\<close>

fun spec_match :: "string list \<Rightarrow> packet \<Rightarrow> bool" where
  "spec_match [] p = True"
| "spec_match [a] p = False"
| "spec_match (a # v # rest) p =
     (if a = ''-i'' then pk_in p = v \<and> spec_match rest p
      else if a = ''-d'' then pk_dst p = v \<and> spec_match rest p
      else if a = ''-p'' then pk_proto p = v \<and> spec_match rest p
      else if a = ''--dport'' then Itoa (pk_dport p) = v \<and> spec_match rest p
      else if a = ''-m'' then v = ''conntrack'' \<and> spec_match rest p
      else if a = ''--ctstate'' then v = ''ESTABLISHED,RELATED'' \<and> pk_established p \<and> spec_match rest p
      else a = ''-j'')"

fun spec_target :: "string list \<Rightarrow> string" where
  "spec_target (a # v # rest) = (if a = ''-j'' then v else spec_target rest)"
| "spec_target _ = []"

datatype verdict = Accepted | Dropped | Unmatched

type_synonym chains = "string \<rightharpoonup> string list list"

text \<open>The walk through a chain; the number bounds the depth of the jumps.\<close>

function walk :: "nat \<Rightarrow> chains \<Rightarrow> string list list \<Rightarrow> packet \<Rightarrow> verdict option" where
  "walk n C [] p = Some Unmatched"
| "walk n C (sp # rs) p =
     (if \<not> spec_match sp p then walk n C rs p
      else if spec_target sp = ''ACCEPT'' then Some Accepted
      else if spec_target sp = ''DROP'' then Some Dropped
      else if spec_target sp = ''RETURN'' then Some Unmatched
      else (case C (spec_target sp) of
              None \<Rightarrow> walk n C rs p
            | Some cs \<Rightarrow>
                (case n of
                   0 \<Rightarrow> None
                 | Suc k \<Rightarrow>
                     (case walk k C cs p of
                        Some Unmatched \<Rightarrow> walk n C rs p
                      | r \<Rightarrow> r))))"
  by pat_completeness auto
termination
  by (relation "measures [\<lambda>(n, C, rs, p). n, \<lambda>(n, C, rs, p). length rs]") auto

definition guest_may :: "EgressReq \<Rightarrow> packet \<Rightarrow> bool" where
  "guest_may req p \<longleftrightarrow>
     pk_established p
     \<or> (pk_proto p = ''udp'' \<or> pk_proto p = ''tcp'') \<and> int (pk_dport p) = eq_DnsPort req
     \<or> pk_proto p = ''tcp'' \<and> int (pk_dport p) = eq_HttpPort req \<and> pk_dst p = eq_Gateway req
     \<or> pk_proto p = ''icmp'' \<and> pk_dst p = eq_Gateway req"

end
