(* ===== verification/Egress_Enforced.thy ===== *)
theory Egress_Enforced
  imports Egress
begin

text \<open>
  What the egress helper achieves. The locale \<open>iptables\<close> states what it relies on of the command; the invariant says that the
  jumps to the chains of a bridge are at the top of their parent chains and that the chains
  hold a beginning of what the helper writes into them. All operations keep it, also when commands fail in the middle, and a successful \<open>Apply\<close>
  confines the guest.
\<close>

section \<open>The contract of iptables\<close>

locale iptables =
  fixes T :: "'x iptables_ops" and ft :: "'x \<Rightarrow> chains"
  assumes append: "ipt_run T (''-w'' # ''-A'' # c # sp) s = (s', True) \<Longrightarrow>
      \<exists>rs. ft s c = Some rs \<and> ft s' = (ft s)(c \<mapsto> rs @ [sp])"
    and insert_top: "ipt_run T (''-w'' # ''-I'' # c # ''1'' # sp) s = (s', True) \<Longrightarrow>
      \<exists>rs. ft s c = Some rs \<and> ft s' = (ft s)(c \<mapsto> sp # rs)"
    and delete: "ipt_run T (''-w'' # ''-D'' # c # sp) s = (s', True) \<Longrightarrow>
      \<exists>rs. ft s c = Some rs \<and> sp \<in> set rs \<and> ft s' = (ft s)(c \<mapsto> remove1 sp rs)"
    and new_chain: "ipt_run T [''-w'', ''-N'', c] s = (s', True) \<Longrightarrow> ft s c = None \<and> ft s' = (ft s)(c \<mapsto> [])"
    and flush: "ipt_run T [''-w'', ''-F'', c] s = (s', True) \<Longrightarrow> ft s c \<noteq> None \<and> ft s' = (ft s)(c \<mapsto> [])"
    and delete_chain: "ipt_run T [''-w'', ''-X'', c] s = (s', True) \<Longrightarrow> ft s' = (ft s)(c := None)"
    and nat_table: "ipt_run T (''-w'' # ''-t'' # ''nat'' # args) s = (s', ok) \<Longrightarrow> ft s' = ft s"
    and failed: "ipt_run T args s = (s', False) \<Longrightarrow> ft s' = ft s"
    and check: "ipt_check T (''-w'' # ''-C'' # c # sp) s \<Longrightarrow> \<exists>rs. ft s c = Some rs \<and> sp \<in> set rs"

section \<open>Jumps at the top\<close>

definition jump_spec :: "(string \<Rightarrow> u8 list) \<Rightarrow> chainSpec \<Rightarrow> string \<Rightarrow> string list" where
  "jump_spec h c b = [''-i'', b, ''-j'', chain_name h c b]"

text \<open>A rule that concerns another bridge, and a jump for the bridge \<open>b\<close> with nothing but such rules before its first and between its further occurrences.\<close>

definition other_bridge :: "string \<Rightarrow> string list \<Rightarrow> bool" where
  "other_bridge b sp \<longleftrightarrow> (\<exists>b' tl. sp = ''-i'' # b' # tl \<and> b' \<noteq> b)"

definition on_top :: "string \<Rightarrow> string list \<Rightarrow> string list list \<Rightarrow> bool" where
  "on_top b j rs \<longleftrightarrow> (\<exists>pre rest. rs = pre @ rest \<and> j \<notin> set rest \<and> (\<forall>sp \<in> set pre. sp = j \<or> other_bridge b sp))"

definition keeps_top :: "string \<Rightarrow> string list list \<Rightarrow> string list list \<Rightarrow> bool" where
  "keeps_top b rs rs' \<longleftrightarrow> (\<forall>b' j. b' \<noteq> b \<longrightarrow> on_top b' j rs \<longrightarrow> on_top b' j rs')"

lemma on_top_Cons: "on_top b j rs \<Longrightarrow> sp = j \<or> other_bridge b sp \<Longrightarrow> on_top b j (sp # rs)"
  unfolding on_top_def by (metis append_Cons set_ConsD)

lemma on_top_absent: "j \<notin> set rs \<Longrightarrow> on_top b j rs"
  unfolding on_top_def by (intro exI [of _ "[]"] exI [of _ rs]) simp

lemma on_top_first:
  assumes "on_top b j rs" and "j \<in> set rs"
  obtains pre rest where "rs = pre @ j # rest" "\<forall>sp \<in> set pre. other_bridge b sp"
proof -
  obtain pre0 rest0 where r: "rs = pre0 @ rest0" "j \<notin> set rest0" "\<forall>sp \<in> set pre0. sp = j \<or> other_bridge b sp"
    using assms(1) by (auto simp: on_top_def)
  then have "j \<in> set pre0" using assms(2) by auto
  then obtain pre rest where "pre0 = pre @ j # rest" "j \<notin> set pre" by (auto dest: split_list_first)
  moreover from this r(3) have "\<forall>sp \<in> set pre. other_bridge b sp" by auto
  ultimately show ?thesis using r that [of pre "rest @ rest0"] by simp
qed

lemma on_top_remove1: "on_top b j rs \<Longrightarrow> on_top b j (remove1 sp rs)"
proof -
  assume "on_top b j rs"
  then obtain pre rest where r: "rs = pre @ rest" "j \<notin> set rest" "\<forall>x \<in> set pre. x = j \<or> other_bridge b x"
    by (auto simp: on_top_def)
  show ?thesis
  proof (cases "sp \<in> set pre")
    case True
    then show ?thesis unfolding on_top_def using r
      by (intro exI [of _ "remove1 sp pre"] exI [of _ rest]) (auto simp: remove1_append dest: notin_set_remove1 [of _ _ sp, rotated])
  next
    case False
    then show ?thesis unfolding on_top_def using r
      by (intro exI [of _ pre] exI [of _ "remove1 sp rest"]) (auto simp: remove1_append dest: notin_set_remove1)
  qed
qed

lemma keeps_top_refl [simp]: "keeps_top b rs rs"
  by (simp add: keeps_top_def)

lemma keeps_top_trans: "keeps_top b rs rs' \<Longrightarrow> keeps_top b rs' rs'' \<Longrightarrow> keeps_top b rs rs''"
  by (simp add: keeps_top_def)

lemma keeps_top_remove1: "keeps_top b rs (remove1 sp rs)"
  by (simp add: keeps_top_def on_top_remove1)

lemma keeps_top_jump: "keeps_top b rs (jump_spec h c b # rs)"
  by (auto simp: keeps_top_def jump_spec_def other_bridge_def intro!: on_top_Cons)

lemmas args_specs = establishedArgs_def dropArgs_def chainAcceptArgs_def chainICMPAcceptArgs_def

abbreviation established_spec :: "string list" where
  "established_spec \<equiv> [''-m'', ''conntrack'', ''--ctstate'', ''ESTABLISHED,RELATED'', ''-j'', ''ACCEPT'']"

abbreviation accept_spec :: "string \<Rightarrow> string \<Rightarrow> string \<Rightarrow> string list" where
  "accept_spec proto port dst \<equiv> (if dst \<noteq> [] then [''-d'', dst] else []) @ [''-p'', proto, ''--dport'', port, ''-j'', ''ACCEPT'']"

abbreviation icmp_spec :: "string \<Rightarrow> string list" where
  "icmp_spec dst \<equiv> (if dst \<noteq> [] then [''-d'', dst] else []) @ [''-p'', ''icmp'', ''-j'', ''ACCEPT'']"

abbreviation drop_spec :: "string list" where
  "drop_spec \<equiv> [''-j'', ''DROP'']"

definition in_rules :: "ruleParams \<Rightarrow> string list list" where
  "in_rules r =
     [established_spec, accept_spec ''udp'' (rp_dnsPort r) [], accept_spec ''tcp'' (rp_dnsPort r) [],
      accept_spec ''tcp'' (rp_httpPort r) (rp_gateway r), icmp_spec (rp_gateway r), drop_spec]"

definition deny_rules :: "string list list" where
  "deny_rules = [established_spec, drop_spec]"

lemma chain_names:
  "chain_name h inputChain b \<noteq> ''INPUT''" "chain_name h inputChain b \<noteq> ''FORWARD''"
  "chain_name h forwardChain b \<noteq> ''INPUT''" "chain_name h forwardChain b \<noteq> ''FORWARD''"
  "chain_name h inputChain b \<noteq> chain_name h forwardChain b"
  "cs_parent inputChain = ''INPUT''" "cs_parent forwardChain = ''FORWARD''"
  by (simp_all add: chain_name_def inputChain_def forwardChain_def)

lemma families_apart:
  assumes "c \<in> {inputChain, forwardChain}" "c' \<in> {inputChain, forwardChain}" "c \<noteq> c'"
  shows "cs_parent c' \<noteq> cs_parent c" "cs_parent c' \<noteq> chain_name h c b"
    "chain_name h c' b' \<noteq> cs_parent c" "chain_name h c' b' \<noteq> chain_name h c b"
proof -
  have n: "chain_name h inputChain x \<noteq> chain_name h forwardChain y" for x y
    by (simp add: chain_name_def inputChain_def forwardChain_def)
  show "cs_parent c' \<noteq> cs_parent c" using assms by (auto simp: inputChain_def forwardChain_def)
  show "cs_parent c' \<noteq> chain_name h c b" using assms(1,2) by (auto simp: inputChain_def forwardChain_def chain_name_def)
  show "chain_name h c' b' \<noteq> cs_parent c" using assms(1,2) by (auto simp: inputChain_def forwardChain_def chain_name_def)
  show "chain_name h c' b' \<noteq> chain_name h c b" using assms n n [symmetric] by blast
qed

lemma parent_not_chain: "c = inputChain \<or> c = forwardChain \<Longrightarrow> cs_parent c \<noteq> chain_name h c b"
  using chain_names by metis

section \<open>One family of chains\<close>

text \<open>The state of the chains of a family for a bridge, and a change that touches nothing else.\<close>

definition family_ok :: "(string \<Rightarrow> u8 list) \<Rightarrow> chainSpec \<Rightarrow> string \<Rightarrow> string list list set \<Rightarrow> chains \<Rightarrow> bool" where
  "family_ok h c b A C \<longleftrightarrow>
     (\<exists>rs. C (cs_parent c) = Some rs \<and> on_top b (jump_spec h c b) rs) \<and> (\<forall>rs. C (chain_name h c b) = Some rs \<longrightarrow> rs \<in> A)"

definition only_family :: "(string \<Rightarrow> u8 list) \<Rightarrow> chainSpec \<Rightarrow> string \<Rightarrow> chains \<Rightarrow> chains \<Rightarrow> bool" where
  "only_family h c b C C' \<longleftrightarrow>
     (\<forall>x. x \<noteq> cs_parent c \<and> x \<noteq> chain_name h c b \<longrightarrow> C' x = C x)
     \<and> (\<forall>rs. C (cs_parent c) = Some rs \<longrightarrow> (\<exists>rs'. C' (cs_parent c) = Some rs' \<and> keeps_top b rs rs'))"

text \<open>A chain with its rules and its jump.\<close>

definition complete :: "(string \<Rightarrow> u8 list) \<Rightarrow> chainSpec \<Rightarrow> string \<Rightarrow> string list list \<Rightarrow> chains \<Rightarrow> bool" where
  "complete h c b sps C \<longleftrightarrow>
     C (chain_name h c b) = Some sps \<and> (\<exists>rs. C (cs_parent c) = Some rs \<and> jump_spec h c b \<in> set rs)"

lemma complete_frame:
  assumes "complete h c b sps C" "only_family h c' b' C C'" "c \<in> {inputChain, forwardChain}" "c' \<in> {inputChain, forwardChain}" "c \<noteq> c'"
  shows "complete h c b sps C'"
  using assms(1,2) families_apart [OF assms(4,3) assms(5) [symmetric]] by (auto simp: complete_def only_family_def)

lemma and_then_assoc: "and_then (and_then r f) g = and_then r (\<lambda>s. and_then (f s) g)"
  by (cases "(r, f)" rule: and_then.cases) auto

lemma and_then_None: "and_then r f = (s', None) \<longleftrightarrow> (\<exists>s1. r = (s1, None) \<and> f s1 = (s', None))"
  by (cases "(r, f)" rule: and_then.cases) auto

lemma and_then_cases:
  assumes "and_then r f = (s', e)"
  obtains (ok) s1 where "r = (s1, None)" "f s1 = (s', e)" | (err) x where "r = (s', Some x)" "e = Some x"
  using assms by (cases "(r, f)" rule: and_then.cases) auto

text \<open>The tables of a set of bridges. The chains of two bridges are told apart by a digest of the name.\<close>

definition table_ok :: "(string \<Rightarrow> u8 list) \<Rightarrow> string set \<Rightarrow> (chainSpec \<Rightarrow> string list list set) \<Rightarrow> chains \<Rightarrow> bool" where
  "table_ok h B A C \<longleftrightarrow> (\<forall>b \<in> B. \<forall>c \<in> {inputChain, forwardChain}. family_ok h c b (A c) C)"

lemma table_okD: "table_ok h B A C \<Longrightarrow> b \<in> B \<Longrightarrow> c \<in> {inputChain, forwardChain} \<Longrightarrow> family_ok h c b (A c) C"
  unfolding table_ok_def by blast

definition distinct_chains :: "(string \<Rightarrow> u8 list) \<Rightarrow> string set \<Rightarrow> bool" where
  "distinct_chains h B \<longleftrightarrow> inj_on (chain_name h inputChain) B"

lemma chain_name_inj:
  assumes "distinct_chains h B" "b \<in> B" "b' \<in> B" "b \<noteq> b'"
  shows "chain_name h c b \<noteq> chain_name h c b'"
  using assms by (auto simp: distinct_chains_def chain_name_def inj_on_def)

lemma family_frame:
  assumes "distinct_chains h B" "b \<in> B" "b' \<in> B" and "c \<in> {inputChain, forwardChain}" "c' \<in> {inputChain, forwardChain}"
    and "(c, b) \<noteq> (c', b')" and "only_family h c b C C'" and "family_ok h c' b' A C"
  shows "family_ok h c' b' A C'"
proof (cases "c = c'")
  case True
  then have "b \<noteq> b'" using assms(6) by simp
  then have "chain_name h c b' \<noteq> chain_name h c b" "chain_name h c b' \<noteq> cs_parent c"
    using chain_name_inj [OF assms(1-3)] parent_not_chain assms(4) by (metis, metis insert_iff singletonD)
  then have "C' (chain_name h c b') = C (chain_name h c b')" using assms(7) by (simp add: only_family_def)
  moreover have "\<exists>rs. C' (cs_parent c) = Some rs \<and> on_top b' (jump_spec h c b') rs"
    using assms(7,8) True \<open>b \<noteq> b'\<close> unfolding family_ok_def only_family_def keeps_top_def by metis
  ultimately show ?thesis using assms(8) True by (simp add: family_ok_def)
next
  case False
  then have "C' (chain_name h c' b') = C (chain_name h c' b')" "C' (cs_parent c') = C (cs_parent c')"
    using assms(7) families_apart [OF assms(4,5)] by (auto simp: only_family_def)
  then show ?thesis using assms(8) by (simp add: family_ok_def)
qed

lemma table_step:
  assumes "table_ok h B A C" "distinct_chains h B" "b \<in> B" "c \<in> {inputChain, forwardChain}"
    and "only_family h c b C C'" "family_ok h c b (A c) C'"
  shows "table_ok h B A C'"
  unfolding table_ok_def
proof (intro ballI)
  fix b' c' assume b: "b' \<in> B" and c: "c' \<in> {inputChain, forwardChain}"
  then have "family_ok h c' b' (A c') C" using table_okD [OF assms(1)] by blast
  then show "family_ok h c' b' (A c') C'"
    using family_frame [OF assms(2,3) b assms(4) c _ assms(5)] assms(6) by (cases "(c, b) = (c', b')") auto
qed

definition in_shapes :: "string list list set" where
  "in_shapes = {take k (in_rules r) | k r. rp_gateway r \<noteq> []}"

definition deny_shapes :: "string list list set" where
  "deny_shapes = {take k deny_rules | k. True}"

definition shapes4 :: "chainSpec \<Rightarrow> string list list set" where
  "shapes4 c = (if c = inputChain then in_shapes else deny_shapes)"

lemma shapes [simp]:
  "take k deny_rules \<in> deny_shapes" "rp_gateway r \<noteq> [] \<Longrightarrow> take k (in_rules r) \<in> in_shapes"
  "[] \<in> deny_shapes" "[] \<in> in_shapes"
proof -
  show "rp_gateway r \<noteq> [] \<Longrightarrow> take k (in_rules r) \<in> in_shapes" "take k deny_rules \<in> deny_shapes"
    by (auto simp: in_shapes_def deny_shapes_def)
  show "[] \<in> deny_shapes" by (auto simp: deny_shapes_def intro: exI [of _ 0])
  show "[] \<in> in_shapes" unfolding in_shapes_def
    by (rule CollectI, rule exI [of _ 0], rule exI [of _ "\<lparr>rp_bridge = [], rp_guestDNS = [], rp_dnsPort = [], rp_httpPort = [], rp_gateway = ''x''\<rparr>"]) simp
qed

lemma shapes4 [simp]: "shapes4 inputChain = in_shapes" "shapes4 forwardChain = deny_shapes" "[] \<in> shapes4 c"
  by (simp_all add: shapes4_def inputChain_def forwardChain_def)

lemma take_whole: "x \<in> set (take k (ys @ [x])) \<Longrightarrow> x \<notin> set ys \<Longrightarrow> take k (ys @ [x]) = ys @ [x]"
  by (cases "k \<le> length ys") (auto dest: in_set_takeD)

lemma deny_whole: "rs \<in> deny_shapes \<Longrightarrow> drop_spec \<in> set rs \<Longrightarrow> rs = deny_rules"
  using take_whole [of drop_spec _ "[established_spec]"] by (auto simp: deny_shapes_def deny_rules_def)

lemma in_whole:
  assumes "rs \<in> in_shapes" "drop_spec \<in> set rs" and "rp_gateway r \<noteq> []"
    and "accept_spec ''udp'' (rp_dnsPort r) [] \<in> set rs" "accept_spec ''tcp'' (rp_httpPort r) (rp_gateway r) \<in> set rs"
  shows "rs = in_rules r"
proof -
  obtain k r' where k: "rs = take k (in_rules r')" "rp_gateway r' \<noteq> []" using assms(1) by (auto simp: in_shapes_def)
  moreover have "in_rules r' = butlast (in_rules r') @ [drop_spec]" "drop_spec \<notin> set (butlast (in_rules r'))"
    by (simp_all add: in_rules_def)
  ultimately have "rs = in_rules r'" using assms(2) take_whole by metis
  then show ?thesis using k assms(3-5) by (auto simp: in_rules_def)
qed

text \<open>Steps that keep a predicate, whatever they return.\<close>

definition keeps :: "('s \<Rightarrow> bool) \<Rightarrow> ('s \<Rightarrow> 's \<times> egress_error option) \<Rightarrow> bool" where
  "keeps P f \<longleftrightarrow> (\<forall>s. P s \<longrightarrow> P (fst (f s)))"

lemma keeps_then: "keeps P f \<Longrightarrow> keeps P g \<Longrightarrow> keeps P (\<lambda>s. and_then (f s) g)"
  unfolding keeps_def by (metis and_then.elims fst_conv)

lemma keeps_join: "keeps P f \<Longrightarrow> keeps P g \<Longrightarrow> keeps P (\<lambda>s. join_steps (f s) g)"
  unfolding keeps_def join_steps_def by (simp add: case_prod_beta)

lemma keeps_idle: "keeps P (\<lambda>s. (s, e))"
  by (simp add: keeps_def)

lemma keeps_if: "keeps P f \<Longrightarrow> keeps P g \<Longrightarrow> keeps P (\<lambda>s. if c then f s else g s)"
  by (simp add: keeps_def)

context iptables
begin

text \<open>The three parts of building a chain, by their effect.\<close>

definition opens :: "string \<Rightarrow> ('x \<Rightarrow> 'x \<times> egress_error option) \<Rightarrow> bool" where
  "opens ch f \<longleftrightarrow> (\<forall>s s' e. f s = (s', e) \<longrightarrow> ft s' = ft s \<or> ft s ch = None \<and> ft s' = (ft s)(ch \<mapsto> []))"

definition appends :: "string \<Rightarrow> string list list \<Rightarrow> ('x \<Rightarrow> 'x \<times> egress_error option) \<Rightarrow> bool" where
  "appends ch sps f \<longleftrightarrow> (\<forall>s s' e rs. f s = (s', e) \<longrightarrow> ft s ch = Some rs \<longrightarrow>
     (\<exists>k. ft s' = (ft s)(ch \<mapsto> rs @ take k sps) \<and> (e = None \<longrightarrow> take k sps = sps)))"

definition jumps :: "string \<Rightarrow> string \<Rightarrow> string list \<Rightarrow> ('x \<Rightarrow> 'x \<times> egress_error option) \<Rightarrow> bool" where
  "jumps b pa j f \<longleftrightarrow> (\<forall>s s' e rs. f s = (s', e) \<longrightarrow> ft s pa = Some rs \<longrightarrow> on_top b j rs \<longrightarrow>
     (\<exists>rs'. ft s' = (ft s)(pa \<mapsto> rs') \<and> on_top b j rs' \<and> keeps_top b rs rs' \<and> (e = None \<longrightarrow> j \<in> set rs')))"

lemma run_or_cases:
  assumes "run_or T x args s = (s', e)"
  obtains (ok) "e = None" "ipt_run T args s = (s', True)" | (bad) "e = Some x" "ft s' = ft s"
  using assms failed [of args s s'] by (auto simp: run_or_def split: prod.splits if_splits)

lemma opens_new:
  "opens ch (\<lambda>s. case ipt_run T [''-w'', ''-N'', ch] s of
      (s', True) \<Rightarrow> (s', None) | (s', False) \<Rightarrow> (s', if ipt_list T [''-w'', ''-S'', ch] s' = None then Some x else None))"
proof -
  have "ft s' = ft s \<or> ft s ch = None \<and> ft s' = (ft s)(ch \<mapsto> [])"
    if "ipt_run T [''-w'', ''-N'', ch] s = (s', ok)" for s s' ok
    using that new_chain [of ch s s'] failed [of "[''-w'', ''-N'', ch]" s s'] by (cases ok) auto
  then show ?thesis by (fastforce simp: opens_def split: prod.splits bool.splits)
qed

lemma appends_one: "appends ch [sp] (run_or T x (''-w'' # ''-A'' # ch # sp))"
  unfolding appends_def
proof (intro allI impI)
  fix s s' e rs assume r: "run_or T x (''-w'' # ''-A'' # ch # sp) s = (s', e)" and c: "ft s ch = Some rs"
  from r show "\<exists>k. ft s' = (ft s)(ch \<mapsto> rs @ take k [sp]) \<and> (e = None \<longrightarrow> take k [sp] = [sp])"
  proof (cases rule: run_or_cases)
    case ok
    then have "ft s' = (ft s)(ch \<mapsto> rs @ take 1 [sp])" using append [of ch sp s s'] c by auto
    then show ?thesis by (intro exI [of _ 1]) simp
  next
    case bad
    then have "ft s' = (ft s)(ch \<mapsto> rs @ take 0 [sp])" using c by (simp add: fun_upd_idem)
    then show ?thesis using bad by (intro exI [of _ 0]) simp
  qed
qed

lemma appends_then:
  assumes "appends ch as f" and "appends ch bs g"
  shows "appends ch (as @ bs) (\<lambda>s. and_then (f s) g)"
  unfolding appends_def
proof (intro allI impI)
  fix s s' e rs assume r: "and_then (f s) g = (s', e)" and c: "ft s ch = Some rs"
  from r show "\<exists>k. ft s' = (ft s)(ch \<mapsto> rs @ take k (as @ bs)) \<and> (e = None \<longrightarrow> take k (as @ bs) = as @ bs)"
  proof (cases rule: and_then_cases)
    case (ok s1)
    then have 1: "ft s1 = (ft s)(ch \<mapsto> rs @ as)" using assms(1) c unfolding appends_def by metis
    then obtain k where "ft s' = (ft s1)(ch \<mapsto> (rs @ as) @ take k bs)" "e = None \<longrightarrow> take k bs = bs"
      using assms(2) ok(2) unfolding appends_def by (metis fun_upd_same)
    then show ?thesis using 1 by (intro exI [of _ "length as + k"]) simp
  next
    case (err x)
    then obtain k where k: "ft s' = (ft s)(ch \<mapsto> rs @ take k as)" using assms(1) c unfolding appends_def by metis
    then have "ft s' = (ft s)(ch \<mapsto> rs @ take (min k (length as)) (as @ bs))" by (simp add: min_def)
    then show ?thesis using err by blast
  qed
qed

lemma appends_rules: "appends ch sps (append_rules T (map (\<lambda>sp. ''-w'' # ''-A'' # ch # sp) sps))"
proof (induction sps)
  case Nil
  show ?case by (simp add: appends_def fun_upd_idem)
next
  case (Cons sp sps)
  have "append_rules T (map (\<lambda>sp. ''-w'' # ''-A'' # ch # sp) (sp # sps)) =
      (\<lambda>s. and_then (run_or T EgAppend (''-w'' # ''-A'' # ch # sp) s) (append_rules T (map (\<lambda>sp. ''-w'' # ''-A'' # ch # sp) sps)))"
    by (simp add: fun_eq_iff appendRule_def)
  then show ?case using appends_then [OF appends_one Cons.IH, of sp EgAppend] by simp
qed

lemma jumps_ensure:
  "jumps b (cs_parent c) (jump_spec h c b)
     (\<lambda>s. if ipt_check T (jumpArgs h c ''-C'' b) s then (s, None) else run_or T x (insertJumpArgs h c b) s)"
  unfolding jumps_def
proof (intro allI impI)
  let ?j = "jump_spec h c b"
  fix s s' e rs
  assume r: "(if ipt_check T (jumpArgs h c ''-C'' b) s then (s, None) else run_or T x (insertJumpArgs h c b) s) = (s', e)"
    and c: "ft s (cs_parent c) = Some rs" and t: "on_top b ?j rs"
  have args: "jumpArgs h c ''-C'' b = ''-w'' # ''-C'' # cs_parent c # ?j" "insertJumpArgs h c b = ''-w'' # ''-I'' # cs_parent c # ''1'' # ?j"
    by (simp_all add: jumpArgs_def insertJumpArgs_def jump_spec_def)
  show "\<exists>rs'. ft s' = (ft s)(cs_parent c \<mapsto> rs') \<and> on_top b ?j rs' \<and> keeps_top b rs rs' \<and> (e = None \<longrightarrow> ?j \<in> set rs')"
  proof (cases "ipt_check T (jumpArgs h c ''-C'' b) s")
    case True
    then have "?j \<in> set rs" using check [of "cs_parent c" ?j s] args c by auto
    then show ?thesis using True r c t by (intro exI [of _ rs]) (auto simp: fun_upd_idem)
  next
    case False
    then have "run_or T x (insertJumpArgs h c b) s = (s', e)" using r by simp
    then show ?thesis
    proof (cases rule: run_or_cases)
      case ok
      then have "ft s' = (ft s)(cs_parent c \<mapsto> ?j # rs)" using insert_top [of "cs_parent c" ?j s s'] args c by auto
      then show ?thesis using t keeps_top_jump by (intro exI [of _ "?j # rs"]) (simp add: on_top_Cons)
    next
      case bad
      then show ?thesis using c t by (intro exI [of _ rs]) (simp add: fun_upd_idem)
    qed
  qed
qed

text \<open>A build leaves the family in order wherever it stops, and complete when it succeeds.\<close>

lemma build_family:
  assumes f: "opens ch new" "appends ch sps app" "jumps b pa j jmp"
    and d: "ch = chain_name h c b" "pa = cs_parent c" "j = jump_spec h c b" "pa \<noteq> ch"
    and A: "\<forall>k. take k sps \<in> A" and inv: "family_ok h c b A (ft s)"
    and r: "and_then (new s) (\<lambda>s. and_then (run_or T x [''-w'', ''-F'', ch] s) (\<lambda>s. and_then (app s) jmp)) = (s', e)"
  shows "family_ok h c b A (ft s') \<and> only_family h c b (ft s) (ft s')
    \<and> (e = None \<longrightarrow> ft s' ch = Some sps \<and> (\<exists>rs. ft s' pa = Some rs \<and> j \<in> set rs))"
proof -
  have [simp]: "[] \<in> A" using A by (metis take0)
  obtain rs where rs: "ft s pa = Some rs" "on_top b j rs" using inv d by (auto simp: family_ok_def)
  have keep: "family_ok h c b A C \<and> only_family h c b (ft s) C"
    if "C = ft s \<or> C = (ft s)(ch \<mapsto> l) \<and> l \<in> A" for C l
    using that inv rs d by (auto simp: family_ok_def only_family_def)
  from r show ?thesis
  proof (cases rule: and_then_cases)
    case (err y)
    have "ft s' = ft s \<or> ft s' = (ft s)(ch \<mapsto> [])" using f(1) err(1) unfolding opens_def by blast
    then show ?thesis using keep [of "ft s'" "[]"] err(2) by simp
  next
    case (ok s1)
    have 1: "ft s1 = ft s \<or> ft s1 = (ft s)(ch \<mapsto> [])" using f(1) ok(1) unfolding opens_def by blast
    from ok(2) show ?thesis
    proof (cases rule: and_then_cases)
      case (err y)
      then have "ft s' = ft s1" by (auto elim: run_or_cases)
      then show ?thesis using 1 err(2) keep [of "ft s'" "[]"] by simp
    next
      case (ok s2)
      then have "ipt_run T [''-w'', ''-F'', ch] s1 = (s2, True)" by (auto elim: run_or_cases)
      then have "ft s2 = (ft s1)(ch \<mapsto> [])" by (rule flush [THEN conjunct2])
      then have 2: "ft s2 = (ft s)(ch \<mapsto> [])" using 1 by auto
      from ok(2) show ?thesis
      proof (cases rule: and_then_cases)
        case (err y)
        have "ft s2 ch = Some []" using 2 by simp
        then obtain k where "ft s' = (ft s2)(ch \<mapsto> [] @ take k sps)" using f(2) err(1) unfolding appends_def by blast
        then have "ft s' = (ft s)(ch \<mapsto> take k sps)" using 2 by simp
        then show ?thesis using keep [of "ft s'" "take k sps"] A err(2) by simp
      next
        case (ok s3)
        have "ft s2 ch = Some []" using 2 by simp
        then have "ft s3 = (ft s2)(ch \<mapsto> [] @ sps)" using f(2) ok(1) unfolding appends_def by metis
        then have 3: "ft s3 = (ft s)(ch \<mapsto> sps)" using 2 by simp
        then have "ft s3 pa = Some rs" using d(4) rs(1) by simp
        then obtain rs' where 4: "ft s' = (ft s3)(pa \<mapsto> rs')" "on_top b j rs'" "keeps_top b rs rs'" "e = None \<longrightarrow> j \<in> set rs'"
          using f(3) ok(2) rs(2) unfolding jumps_def by metis
        moreover have "sps \<in> A" using A by (metis le_refl take_all)
        ultimately show ?thesis
          using 3 d rs by (auto simp: family_ok_def only_family_def)
      qed
    qed
  qed
qed

lemma remove_jumps_top:
  "remove_jumps T h c b n s = (s', e) \<Longrightarrow> ft s (cs_parent c) = Some rs \<Longrightarrow> on_top b (jump_spec h c b) rs \<Longrightarrow>
   \<exists>rs'. ft s' = (ft s)(cs_parent c \<mapsto> rs') \<and> on_top b (jump_spec h c b) rs' \<and> keeps_top b rs rs'"
proof (induction n arbitrary: s rs)
  case 0
  then show ?case by (intro exI [of _ rs]) (simp add: fun_upd_idem)
next
  case (Suc n)
  let ?j = "jump_spec h c b"
  have args: "jumpArgs h c ''-D'' b = ''-w'' # ''-D'' # cs_parent c # ?j" by (simp add: jumpArgs_def jump_spec_def)
  show ?case
  proof (cases "ruleExists T (jumpArgs h c ''-C'' b) s")
    case False
    then show ?thesis using Suc.prems by (intro exI [of _ rs]) (simp add: fun_upd_idem)
  next
    case True
    then have "and_then (run_or T (EgDeleteJump (cs_parent c)) (jumpArgs h c ''-D'' b) s) (remove_jumps T h c b n) = (s', e)"
      using Suc.prems(1) by simp
    then show ?thesis
    proof (cases rule: and_then_cases)
      case (ok s1)
      then have "ipt_run T (''-w'' # ''-D'' # cs_parent c # ?j) s = (s1, True)" using args by (auto elim: run_or_cases)
      then have "ft s1 = (ft s)(cs_parent c \<mapsto> remove1 ?j rs)" using delete Suc.prems(2) by fastforce
      then obtain rs' where "ft s' = (ft s1)(cs_parent c \<mapsto> rs')" "on_top b ?j rs'" "keeps_top b (remove1 ?j rs) rs'"
        using Suc.IH [OF ok(2) _ on_top_remove1 [OF Suc.prems(3)]] by (metis fun_upd_same)
      then show ?thesis using \<open>ft s1 = _\<close> keeps_top_trans [OF keeps_top_remove1] by (intro exI [of _ rs']) auto
    next
      case (err y)
      then have "ft s' = ft s" by (auto elim: run_or_cases)
      then show ?thesis using Suc.prems by (intro exI [of _ rs]) (simp add: fun_upd_idem)
    qed
  qed
qed

lemma flush_family:
  assumes "and_then (removeAllJumps T h c b s) (deleteNamedChain T (chain_name h c b)) = (s', e)"
    and "family_ok h c b A (ft s)" and "[] \<in> A" and "cs_parent c \<noteq> chain_name h c b"
  shows "family_ok h c b A (ft s') \<and> only_family h c b (ft s) (ft s')"
proof -
  let ?ch = "chain_name h c b"
  obtain s1 e1 where r1: "removeAllJumps T h c b s = (s1, e1)" by fastforce
  obtain rs where rs: "ft s (cs_parent c) = Some rs" "on_top b (jump_spec h c b) rs" using assms(2) by (auto simp: family_ok_def)
  then obtain rs' where 1: "ft s1 = (ft s)(cs_parent c \<mapsto> rs')" "on_top b (jump_spec h c b) rs'" "keeps_top b rs rs'"
    using remove_jumps_top [of h c b maxFlushRules s s1 e1] r1 unfolding removeAllJumps_def by blast
  have "ft s' = ft s1 \<or> (\<exists>l. ft s' = (ft s1)(?ch := l) \<and> (\<forall>m. l = Some m \<longrightarrow> m = []))"
  proof (cases e1)
    case None
    have d: "deleteNamedChain T ?ch s1 = (s', e)" using assms(1) r1 None by simp
    show ?thesis
    proof (cases "ipt_list T [''-w'', ''-S'', ?ch] s1 = None")
      case False
      have "and_then (run_or T (EgFlush ?ch) [''-w'', ''-F'', ?ch] s1) (run_or T (EgDelete ?ch) [''-w'', ''-X'', ?ch]) = (s', e)"
        using d unfolding deleteNamedChain_def if_not_P [OF False] .
      then show ?thesis
      proof (cases rule: and_then_cases)
        case (ok s2)
        then have "ft s2 = (ft s1)(?ch \<mapsto> [])" using flush [of ?ch s1 s2] by (auto elim!: run_or_cases)
        moreover have "ft s' = ft s2 \<or> ft s' = (ft s2)(?ch := None)"
          using ok(2) delete_chain [of ?ch s2 s'] by (auto elim!: run_or_cases)
        ultimately show ?thesis by auto
      qed (auto elim: run_or_cases)
    qed (use d in \<open>simp add: deleteNamedChain_def\<close>)
  qed (use assms(1) r1 in simp)
  then show ?thesis using 1 rs assms(2-4) by (auto simp: family_ok_def only_family_def)
qed

text \<open>The builds and flushes of the helper in that form.\<close>

lemma appends_args:
  "establishedArgs ''-A'' ch = ''-w'' # ''-A'' # ch # established_spec" "dropArgs ''-A'' ch = ''-w'' # ''-A'' # ch # drop_spec"
  "chainAcceptArgs h ''-A'' b proto port dst = ''-w'' # ''-A'' # chain_name h inputChain b # accept_spec proto port dst"
  "chainICMPAcceptArgs h ''-A'' b dst = ''-w'' # ''-A'' # chain_name h inputChain b # icmp_spec dst"
  by (simp_all add: args_specs)

lemma ensureChain_opens: "opens (chain_name h c b) (ensureChain T h c b)"
  using opens_new [of "chain_name h c b" "EgCreate (cs_parent c)"] by (simp add: ensureChain_def [abs_def] Let_def)

lemma ensureJump_jumps: "jumps b (cs_parent c) (jump_spec h c b) (ensureJump T h c b)"
  using jumps_ensure [of b c h "EgJump (cs_parent c)"] by (simp add: ensureJump_def [abs_def] ruleExists_def)

lemma appends_deny2:
  "appends ch deny_rules (\<lambda>s. and_then (run_or T x (establishedArgs ''-A'' ch) s) (run_or T y (dropArgs ''-A'' ch)))"
  using appends_then [OF appends_one [where x = x and sp = established_spec] appends_one [where x = y and sp = drop_spec]]
  by (simp add: appends_args deny_rules_def)

lemma appends_deny: "appends ch deny_rules (append_rules T [establishedArgs ''-A'' ch, dropArgs ''-A'' ch])"
  using appends_rules [of ch deny_rules] by (simp add: appends_args deny_rules_def)

lemma appends_in:
  "appends (chain_name h inputChain b) (in_rules r) (append_rules T
     [establishedArgs ''-A'' (chain_name h inputChain b), chainAcceptArgs h ''-A'' b ''udp'' (rp_dnsPort r) [],
      chainAcceptArgs h ''-A'' b ''tcp'' (rp_dnsPort r) [], chainAcceptArgs h ''-A'' b ''tcp'' (rp_httpPort r) (rp_gateway r),
      chainICMPAcceptArgs h ''-A'' b (rp_gateway r), dropArgs ''-A'' (chain_name h inputChain b)])"
  using appends_rules [of "chain_name h inputChain b" "in_rules r"] by (simp only: appends_args in_rules_def list.map)

definition built :: "(string \<Rightarrow> u8 list) \<Rightarrow> chainSpec \<Rightarrow> string \<Rightarrow> string list list \<Rightarrow> ('x \<Rightarrow> 'x \<times> egress_error option) \<Rightarrow> bool" where
  "built h c b sps f \<longleftrightarrow> (\<forall>A s s' e. f s = (s', e) \<longrightarrow> (\<forall>k. take k sps \<in> A) \<longrightarrow> family_ok h c b A (ft s) \<longrightarrow>
     family_ok h c b A (ft s') \<and> only_family h c b (ft s) (ft s') \<and> (e = None \<longrightarrow> complete h c b sps (ft s')))"

definition flushed :: "(string \<Rightarrow> u8 list) \<Rightarrow> chainSpec \<Rightarrow> string \<Rightarrow> ('x \<Rightarrow> 'x \<times> egress_error option) \<Rightarrow> bool" where
  "flushed h c b f \<longleftrightarrow> (\<forall>A s s' e. f s = (s', e) \<longrightarrow> [] \<in> A \<longrightarrow> family_ok h c b A (ft s) \<longrightarrow>
     family_ok h c b A (ft s') \<and> only_family h c b (ft s) (ft s'))"

lemma built_intro:
  assumes "opens (chain_name h c b) new" "appends (chain_name h c b) sps app" "jumps b (cs_parent c) (jump_spec h c b) jmp"
    and "c = inputChain \<or> c = forwardChain"
    and "\<And>s. f s = and_then (new s) (\<lambda>s. and_then (run_or T x [''-w'', ''-F'', chain_name h c b] s) (\<lambda>s. and_then (app s) jmp))"
  shows "built h c b sps f"
  unfolding built_def complete_def assms(5)
  using build_family [OF assms(1-3) refl refl refl parent_not_chain [OF assms(4)]] by blast

lemma buildChain_built: "built h inputChain (rp_bridge r) (in_rules r) (buildChain T h r)"
  by (rule built_intro [OF ensureChain_opens appends_in ensureJump_jumps])
    (simp_all add: buildChain_def Let_def)

lemma buildFwdChain_built: "built h forwardChain (rp_bridge r) deny_rules (buildFwdChain T h r)"
  by (rule built_intro [OF ensureChain_opens appends_deny ensureJump_jumps])
    (simp_all add: buildFwdChain_def Let_def)

lemma buildV6Chain_built:
  assumes "c = inputChain \<or> c = forwardChain"
  shows "built h c b deny_rules (buildV6Chain T h c b)"
  by (rule built_intro [OF opens_new [where x = "Eg6Create (cs_parent c)"]
        appends_deny2 [where x = "Eg6Append (cs_parent c)" and y = "Eg6Append (cs_parent c)"]
        jumps_ensure [where x = "Eg6Jump (cs_parent c)"] assms, where x = "Eg6Flush (cs_parent c)"])
    (simp only: buildV6Chain_def Let_def and_then_assoc)

lemma flushed_intro:
  assumes "c = inputChain \<or> c = forwardChain"
    and "\<And>s. f s = and_then (removeAllJumps T h c b s) (deleteNamedChain T (chain_name h c b))"
  shows "flushed h c b f"
  unfolding flushed_def assms(2) using flush_family parent_not_chain [OF assms(1)] by blast

lemma flushChainRules_flushed:
  assumes "c = inputChain \<or> c = forwardChain"
  shows "flushed h c (rp_bridge r) (flushChainRules T h c r)"
  by (rule flushed_intro [OF assms]) (simp add: flushChainRules_def)

lemma remove_jumps6_eq: "remove_jumps6 T h c b n s = remove_jumps T h c b n s"
proof (induction n arbitrary: s)
  case (Suc n)
  then have "remove_jumps6 T h c b n = remove_jumps T h c b n" by (simp add: fun_eq_iff)
  then show ?case by (simp add: ruleExists_def)
qed simp

lemma flushV6Chain_flushed:
  assumes "c = inputChain \<or> c = forwardChain"
  shows "flushed h c b (flushV6Chain T h c b)"
  by (rule flushed_intro [OF assms])
    (simp only: flushV6Chain_def Let_def remove_jumps6_eq removeAllJumps_def deleteNamedChain_def [abs_def])

text \<open>The NAT table is a table of its own.\<close>

lemma addNATRedirect_filter: "addNATRedirect T r proto s = (s', e) \<Longrightarrow> ft s' = ft s"
  unfolding addNATRedirect_def natRedirectArgs_def run_or_def
  by (auto split: prod.splits if_splits dest!: nat_table)

lemma delete_nat_filter: "delete_nat T rules n s = (s', k) \<Longrightarrow> ft s' = ft s"
proof (induction rules arbitrary: n s)
  case (Cons rule rules)
  obtain s1 ok where r: "ipt_run T (''-w'' # ''-t'' # ''nat'' # ''-D'' # Fields (TrimPrefix rule ''-A '')) s = (s1, ok)"
    by fastforce
  then have "ft s' = ft s1" using Cons.prems Cons.IH [of _ s1] by simp
  then show ?case using nat_table [OF r] by simp
qed simp

lemma flushNATRules_filter: "flushNATRules T r s = (s', e) \<Longrightarrow> ft s' = ft s"
  unfolding flushNATRules_def Let_def
  by (auto split: if_splits option.splits prod.splits dest!: delete_nat_filter)

text \<open>What a step does to the tables of all bridges.\<close>

lemma built_keeps:
  assumes "built h c b sps f" "\<forall>k. take k sps \<in> A c" "distinct_chains h B" "b \<in> B" "c \<in> {inputChain, forwardChain}"
  shows "keeps (\<lambda>s. table_ok h B A (ft s)) f"
  unfolding keeps_def
proof (intro allI impI)
  fix s assume t: "table_ok h B A (ft s)"
  obtain s' e where f: "f s = (s', e)" by fastforce
  have "family_ok h c b (A c) (ft s)" by (rule table_okD [OF t assms(4,5)])
  then have "family_ok h c b (A c) (ft s') \<and> only_family h c b (ft s) (ft s')"
    using assms(1,2) f unfolding built_def by blast
  then show "table_ok h B A (ft (fst (f s)))" using table_step [OF t assms(3-5)] f by simp
qed

lemma flushed_keeps:
  assumes "flushed h c b f" "[] \<in> A c" "distinct_chains h B" "b \<in> B" "c \<in> {inputChain, forwardChain}"
  shows "keeps (\<lambda>s. table_ok h B A (ft s)) f"
  unfolding keeps_def
proof (intro allI impI)
  fix s assume t: "table_ok h B A (ft s)"
  obtain s' e where f: "f s = (s', e)" by fastforce
  have "family_ok h c b (A c) (ft s)" by (rule table_okD [OF t assms(4,5)])
  then have "family_ok h c b (A c) (ft s') \<and> only_family h c b (ft s) (ft s')"
    using assms(1,2) f unfolding flushed_def by blast
  then show "table_ok h B A (ft (fst (f s)))" using table_step [OF t assms(3-5)] f by simp
qed

lemma nat_keeps:
  "keeps (\<lambda>s. table_ok h B A (ft s)) (addNATRedirect T r proto)" "keeps (\<lambda>s. table_ok h B A (ft s)) (flushNATRules T r)"
  unfolding keeps_def using addNATRedirect_filter flushNATRules_filter by (metis prod.collapse)+

lemma built_complete:
  assumes "built h c b sps f" "f s = (s', None)" "\<forall>k. take k sps \<in> A c" "table_ok h B A (ft s)"
    and "b \<in> B" "c \<in> {inputChain, forwardChain}"
  shows "complete h c b sps (ft s')" "only_family h c b (ft s) (ft s')"
proof -
  have "family_ok h c b (A c) (ft s)" by (rule table_okD [OF assms(4-6)])
  then show "complete h c b sps (ft s')" "only_family h c b (ft s) (ft s')" using assms(1-3) unfolding built_def by blast+
qed

lemma checked_chain:
  assumes "ipt_check T (jumpArgs h c ''-C'' b) s" and "ipt_check T (dropArgs ''-C'' (chain_name h c b)) s" and "family_ok h c b A (ft s)"
  obtains rs where "ft s (chain_name h c b) = Some rs" "rs \<in> A" "drop_spec \<in> set rs" "complete h c b rs (ft s)"
proof -
  have "\<exists>rs. ft s (cs_parent c) = Some rs \<and> jump_spec h c b \<in> set rs"
    using check [of "cs_parent c" "jump_spec h c b" s] assms(1) by (simp add: jumpArgs_def jump_spec_def)
  moreover obtain rs where "ft s (chain_name h c b) = Some rs" "drop_spec \<in> set rs"
    using check [of "chain_name h c b" drop_spec s] assms(2) by (auto simp: dropArgs_def)
  ultimately show ?thesis using that [of rs] assms(3) by (auto simp: family_ok_def complete_def)
qed

lemma checked_deny:
  assumes "ipt_check T (jumpArgs h c ''-C'' b) s" "ipt_check T (dropArgs ''-C'' (chain_name h c b)) s" "family_ok h c b deny_shapes (ft s)"
  shows "complete h c b deny_rules (ft s)"
  using checked_chain [OF assms] deny_whole by metis

lemma checked_in:
  assumes "ipt_check T (jumpArgs h inputChain ''-C'' (rp_bridge r)) s" "ipt_check T (dropArgs ''-C'' (chain_name h inputChain (rp_bridge r))) s"
    and "ipt_check T (chainAcceptArgs h ''-C'' (rp_bridge r) ''udp'' (rp_dnsPort r) []) s"
    and "ipt_check T (chainAcceptArgs h ''-C'' (rp_bridge r) ''tcp'' (rp_httpPort r) (rp_gateway r)) s"
    and "family_ok h inputChain (rp_bridge r) in_shapes (ft s)" and "rp_gateway r \<noteq> []"
  shows "complete h inputChain (rp_bridge r) (in_rules r) (ft s)"
proof -
  let ?ch = "chain_name h inputChain (rp_bridge r)"
  obtain rs where rs: "ft s ?ch = Some rs" "rs \<in> in_shapes" "drop_spec \<in> set rs" "complete h inputChain (rp_bridge r) rs (ft s)"
    using checked_chain [OF assms(1,2,5)] .
  have "accept_spec proto port dst \<in> set rs" if "ipt_check T (chainAcceptArgs h ''-C'' (rp_bridge r) proto port dst) s" for proto port dst
    using check [of ?ch "accept_spec proto port dst" s] that rs(1) by (simp add: chainAcceptArgs_def)
  then have "rs = in_rules r" using in_whole [OF rs(2,3) assms(6)] assms(3,4) by blast
  then show ?thesis using rs(4) by simp
qed

lemma both_built:
  assumes f: "built h inputChain b sps f" and g: "built h forwardChain b sps' g" and "f s = (s1, None)" "g s1 = (s', None)"
    and "table_ok h B A (ft s)" "distinct_chains h B" "b \<in> B"
    and A: "\<forall>k. take k sps \<in> A inputChain" "\<forall>k. take k sps' \<in> A forwardChain"
  shows "complete h inputChain b sps (ft s')" "complete h forwardChain b sps' (ft s')"
proof -
  have 1: "complete h inputChain b sps (ft s1)" using built_complete(1) [where A = A, OF f assms(3) A(1) assms(5,7)] by simp
  have "keeps (\<lambda>s. table_ok h B A (ft s)) f" by (rule built_keeps [where A = A, OF f A(1) assms(6,7)]) simp
  then have 2: "table_ok h B A (ft s1)" using assms(3,5) by (metis fst_conv keeps_def)
  show "complete h forwardChain b sps' (ft s')" using built_complete(1) [where A = A, OF g assms(4) A(2) 2 assms(7)] by simp
  have "only_family h forwardChain b (ft s1) (ft s')" using built_complete(2) [where A = A, OF g assms(4) A(2) 2 assms(7)] by simp
  then show "complete h inputChain b sps (ft s')" by (rule complete_frame [OF 1]) (simp_all add: inputChain_def forwardChain_def)
qed

end

section \<open>The service\<close>

lemma resolve_bridge: "resolveRules req l = Inr r \<Longrightarrow> rp_bridge r = eq_Bridge req"
  by (auto simp: resolveRules_def split: option.splits if_splits sum.splits)

lemma ParseIP_Nil: "ParseIP [] = None"
  by (simp add: ParseIP_def ParseAddr_def)

lemma resolve_strict:
  assumes "resolveRules req False = Inr r"
  shows "rp_gateway r = eq_Gateway req" "rp_gateway r \<noteq> []"
    "rp_dnsPort r = Itoa (nat (eq_DnsPort req))" "0 \<le> eq_DnsPort req"
    "rp_httpPort r = Itoa (nat (eq_HttpPort req))" "0 \<le> eq_HttpPort req"
  using assms ParseIP_Nil by (auto simp: resolveRules_def validatePort_def pf_ValidatePort_def validateGateway_def ValidateIPv4_def Itoa_int_def
      split: option.splits if_splits sum.splits)

text \<open>All rules of a request in place.\<close>

definition enforced ::
  "('x, 'y) egress_env \<Rightarrow> ('x \<Rightarrow> chains) \<Rightarrow> ('y \<Rightarrow> chains) \<Rightarrow> ruleParams \<Rightarrow> ('x, 'y) tables \<Rightarrow> bool" where
  "enforced V ft4 ft6 r s \<longleftrightarrow>
     complete (ee_sum256 V) inputChain (rp_bridge r) (in_rules r) (ft4 (fst s))
     \<and> complete (ee_sum256 V) forwardChain (rp_bridge r) deny_rules (ft4 (fst s))
     \<and> (if ee_has6 V then complete (ee_sum256 V) inputChain (rp_bridge r) deny_rules (ft6 (snd s))
           \<and> complete (ee_sum256 V) forwardChain (rp_bridge r) deny_rules (ft6 (snd s))
        else \<not> ee_ipv6Enabled V)"

locale egress_tables = four: iptables "ee_4 V" ft4 + six: iptables "ee_6 V" ft6
  for V :: "('x, 'y) egress_env" and ft4 :: "'x \<Rightarrow> chains" and ft6 :: "'y \<Rightarrow> chains"
begin

definition tables_ok :: "string set \<Rightarrow> 'x \<times> 'y \<Rightarrow> bool" where
  "tables_ok B s \<longleftrightarrow> table_ok (ee_sum256 V) B shapes4 (ft4 (fst s)) \<and> table_ok (ee_sum256 V) B (\<lambda>_. deny_shapes) (ft6 (snd s))"

lemma keeps_on4: "keeps (\<lambda>s. table_ok (ee_sum256 V) B shapes4 (ft4 s)) f \<Longrightarrow> keeps (tables_ok B) (on4 f)"
  by (simp add: keeps_def tables_ok_def on4_def case_prod_beta)

lemma keeps_on6: "keeps (\<lambda>s. table_ok (ee_sum256 V) B (\<lambda>_. deny_shapes) (ft6 s)) f \<Longrightarrow> keeps (tables_ok B) (on6 f)"
  by (simp add: keeps_def tables_ok_def on6_def case_prod_beta)

lemma flush_all_keeps:
  assumes "distinct_chains (ee_sum256 V) B" "rp_bridge r \<in> B"
  shows "keeps (tables_ok B) (flush_all V r)"
  unfolding flush_all_def [abs_def] flushV6Chains_def [abs_def]
  by (intro keeps_join keeps_if keeps_idle keeps_on4 keeps_on6 four.nat_keeps
      four.flushed_keeps [OF four.flushChainRules_flushed] six.flushed_keeps [OF six.flushV6Chain_flushed] assms; simp)

lemma install_keeps:
  assumes "distinct_chains (ee_sum256 V) B" "rp_bridge r \<in> B" "rp_gateway r \<noteq> []"
  shows "keeps (tables_ok B) (install V r)"
  unfolding install_def [abs_def] ensureIPv6Denied_def [abs_def]
  by (intro keeps_then keeps_if keeps_idle keeps_on4 keeps_on6 four.nat_keeps four.built_keeps [OF four.buildChain_built]
      four.built_keeps [OF four.buildFwdChain_built] six.built_keeps [OF six.buildV6Chain_built] assms; simp add: assms)

lemma install_enforced:
  assumes "install V r s = (s', None)" "tables_ok B s" "distinct_chains (ee_sum256 V) B" "rp_bridge r \<in> B" "rp_gateway r \<noteq> []"
  shows "enforced V ft4 ft6 r s'"
proof -
  obtain s0 s1 t2 t3 where 0: "on4 (addNATRedirect (ee_4 V) r ''udp'') s = (s0, None)" "on4 (addNATRedirect (ee_4 V) r ''tcp'') s0 = (s1, None)"
    and 2: "on4 (buildChain (ee_4 V) (ee_sum256 V) r) s1 = (t2, None)" "on4 (buildFwdChain (ee_4 V) (ee_sum256 V) r) t2 = (t3, None)"
      "on6 (ensureIPv6Denied (ee_6 V) (ee_sum256 V) (ee_has6 V) (ee_ipv6Enabled V) r) t3 = (s', None)"
    using assms(1) unfolding install_def and_then_None by blast
  have "keeps (tables_ok B) (on4 (addNATRedirect (ee_4 V) r proto))" for proto by (rule keeps_on4 [OF four.nat_keeps(1)])
  then have ok: "tables_ok B s1" using assms(2) 0 by (metis fst_conv keeps_def)
  obtain s2 s3 where b: "buildChain (ee_4 V) (ee_sum256 V) r (fst s1) = (s2, None)" "buildFwdChain (ee_4 V) (ee_sum256 V) r s2 = (s3, None)"
    and 6: "on6 (ensureIPv6Denied (ee_6 V) (ee_sum256 V) (ee_has6 V) (ee_ipv6Enabled V) r) (s3, snd s1) = (s', None)"
    using 2 by (auto simp: on4_def split: prod.splits)
  have "table_ok (ee_sum256 V) B shapes4 (ft4 (fst s1))" "table_ok (ee_sum256 V) B (\<lambda>_. deny_shapes) (ft6 (snd s1))"
    using ok by (simp_all add: tables_ok_def)
  note ok4 = this(1) and ok6 = this(2)
  have "complete (ee_sum256 V) inputChain (rp_bridge r) (in_rules r) (ft4 (fst s'))"
    "complete (ee_sum256 V) forwardChain (rp_bridge r) deny_rules (ft4 (fst s'))"
    using four.both_built [OF four.buildChain_built four.buildFwdChain_built b ok4 assms(3,4)] 6 assms(5)
    by (auto simp: on6_def split: prod.splits)
  moreover have "if ee_has6 V then complete (ee_sum256 V) inputChain (rp_bridge r) deny_rules (ft6 (snd s'))
      \<and> complete (ee_sum256 V) forwardChain (rp_bridge r) deny_rules (ft6 (snd s')) else \<not> ee_ipv6Enabled V"
    using six.both_built [OF six.buildV6Chain_built six.buildV6Chain_built _ _ ok6 assms(3,4)] 6
    by (auto simp: on6_def ensureIPv6Denied_def and_then_None split: prod.splits if_splits)
  ultimately show ?thesis unfolding enforced_def by blast
qed

lemma applied_enforced:
  assumes "alreadyApplied V r s" "tables_ok B s" "rp_bridge r \<in> B" "rp_gateway r \<noteq> []"
  shows "enforced V ft4 ft6 r s"
proof -
  have ok: "family_ok (ee_sum256 V) inputChain (rp_bridge r) in_shapes (ft4 (fst s))"
    "family_ok (ee_sum256 V) forwardChain (rp_bridge r) deny_shapes (ft4 (fst s))"
    "family_ok (ee_sum256 V) inputChain (rp_bridge r) deny_shapes (ft6 (snd s))"
    "family_ok (ee_sum256 V) forwardChain (rp_bridge r) deny_shapes (ft6 (snd s))"
    using assms(2,3) by (simp_all add: tables_ok_def table_ok_def)
  have a: "ipt_check (ee_4 V) (jumpArgs (ee_sum256 V) inputChain ''-C'' (rp_bridge r)) (fst s)"
    "ipt_check (ee_4 V) (dropArgs ''-C'' (chain_name (ee_sum256 V) inputChain (rp_bridge r))) (fst s)"
    "ipt_check (ee_4 V) (chainAcceptArgs (ee_sum256 V) ''-C'' (rp_bridge r) ''udp'' (rp_dnsPort r) []) (fst s)"
    "ipt_check (ee_4 V) (chainAcceptArgs (ee_sum256 V) ''-C'' (rp_bridge r) ''tcp'' (rp_httpPort r) (rp_gateway r)) (fst s)"
    "fwdApplied (ee_4 V) (ee_sum256 V) r (fst s)" "ipv6Applied (ee_6 V) (ee_sum256 V) (ee_has6 V) (ee_ipv6Enabled V) r (snd s)"
    using assms(1) by (simp_all add: alreadyApplied_def ruleExists_def Let_def)
  have "complete (ee_sum256 V) inputChain (rp_bridge r) (in_rules r) (ft4 (fst s))"
    by (rule four.checked_in [OF a(1-4) ok(1) assms(4)])
  moreover have "complete (ee_sum256 V) forwardChain (rp_bridge r) deny_rules (ft4 (fst s))"
    using a(5) by (intro four.checked_deny ok(2)) (simp_all add: fwdApplied_def ruleExists_def)
  moreover have "if ee_has6 V then complete (ee_sum256 V) inputChain (rp_bridge r) deny_rules (ft6 (snd s))
      \<and> complete (ee_sum256 V) forwardChain (rp_bridge r) deny_rules (ft6 (snd s)) else \<not> ee_ipv6Enabled V"
    using a(6) six.checked_deny [OF _ _ ok(3)] six.checked_deny [OF _ _ ok(4)]
    by (simp add: ipv6Applied_def v6_family_applied_def split: if_splits)
  ultimately show ?thesis unfolding enforced_def by blast
qed

lemma Apply_keeps:
  assumes "distinct_chains (ee_sum256 V) B" "eq_Bridge req \<in> B"
  shows "keeps (tables_ok B) (Egress_Apply V req)"
proof (cases "resolveRules req False")
  case (Inr r)
  then have r: "rp_bridge r \<in> B" "rp_gateway r \<noteq> []" using resolve_bridge [OF Inr] resolve_strict(2) [OF Inr] assms(2) by simp_all
  note k = flush_all_keeps [OF assms(1) r(1)] install_keeps [OF assms(1) r]
  show ?thesis unfolding keeps_def
  proof (intro allI impI)
    fix s assume s: "tables_ok B s"
    then have 1: "tables_ok B (fst (install V r (fst (flush_all V r s))))" using k unfolding keeps_def by blast
    then have "tables_ok B (fst (flush_all V r (fst (install V r (fst (flush_all V r s))))))" using k(1) unfolding keeps_def by blast
    with 1 s show "tables_ok B (fst (Egress_Apply V req s))"
      by (cases "install V r (fst (flush_all V r s))") (simp add: Egress_Apply_def Inr split: option.splits)
  qed
qed (simp add: keeps_def Egress_Apply_def)

lemma Remove_keeps:
  assumes "distinct_chains (ee_sum256 V) B" "eq_Bridge req \<in> B"
  shows "keeps (tables_ok B) (Egress_Remove V req)"
proof (cases "resolveRules req True")
  case (Inr r)
  then show ?thesis using flush_all_keeps [OF assms(1)] resolve_bridge [OF Inr] assms(2) by (simp add: keeps_def Egress_Remove_def)
qed (simp add: keeps_def Egress_Remove_def)

lemma Apply_enforced:
  assumes "Egress_Apply V req s = (s', None)" "tables_ok B s" "distinct_chains (ee_sum256 V) B" "eq_Bridge req \<in> B"
  obtains r where "resolveRules req False = Inr r" "enforced V ft4 ft6 r s'" "tables_ok B s'"
proof (cases "resolveRules req False")
  case (Inr r)
  have r: "rp_bridge r \<in> B" "rp_gateway r \<noteq> []" using resolve_bridge [OF Inr] resolve_strict(2) [OF Inr] assms(4) by simp_all
  have k: "tables_ok B s'" using Apply_keeps [OF assms(3,4)] assms(1,2) by (metis fst_conv keeps_def)
  have "enforced V ft4 ft6 r s'"
  proof (cases "alreadyApplied V r s")
    case True
    then show ?thesis using applied_enforced [OF True assms(2) r] assms(1) Inr by (simp add: Egress_Apply_def)
  next
    case False
    then have i: "install V r (fst (flush_all V r s)) = (s', None)"
      using assms(1) Inr by (auto simp: Egress_Apply_def split: prod.splits option.splits)
    have "tables_ok B (fst (flush_all V r s))" using flush_all_keeps [OF assms(3) r(1)] assms(2) unfolding keeps_def by blast
    then show ?thesis using install_enforced [OF i _ assms(3) r] by simp
  qed
  then show ?thesis using that Inr k by blast
qed (use assms(1) in \<open>simp add: Egress_Apply_def\<close>)

end

section \<open>Histories\<close>

text \<open>The tables before the first rule of the helper, and every state that requests for bridges in \<open>B\<close> lead to, failed ones included.\<close>

definition fresh_table :: "(string \<Rightarrow> u8 list) \<Rightarrow> string set \<Rightarrow> chains \<Rightarrow> bool" where
  "fresh_table h B C \<longleftrightarrow>
     (\<forall>b \<in> B. \<forall>c \<in> {inputChain, forwardChain}.
        C (chain_name h c b) = None \<and> (\<exists>rs. C (cs_parent c) = Some rs \<and> jump_spec h c b \<notin> set rs))"

inductive egress_reach ::
  "('x, 'y) egress_env \<Rightarrow> ('x \<Rightarrow> chains) \<Rightarrow> ('y \<Rightarrow> chains) \<Rightarrow> string set \<Rightarrow> ('x, 'y) tables \<Rightarrow> bool"
  for V ft4 ft6 B where
  start: "fresh_table (ee_sum256 V) B (ft4 (fst s)) \<Longrightarrow> fresh_table (ee_sum256 V) B (ft6 (snd s)) \<Longrightarrow> egress_reach V ft4 ft6 B s"
| apply_step: "egress_reach V ft4 ft6 B s \<Longrightarrow> eq_Bridge req \<in> B \<Longrightarrow> egress_reach V ft4 ft6 B (fst (Egress_Apply V req s))"
| remove_step: "egress_reach V ft4 ft6 B s \<Longrightarrow> eq_Bridge req \<in> B \<Longrightarrow> egress_reach V ft4 ft6 B (fst (Egress_Remove V req s))"

lemma fresh_table_ok: "fresh_table h B C \<Longrightarrow> table_ok h B A C"
  unfolding fresh_table_def table_ok_def family_ok_def using on_top_absent by fastforce

context egress_tables
begin

lemma reach_ok:
  assumes "egress_reach V ft4 ft6 B s" "distinct_chains (ee_sum256 V) B"
  shows "tables_ok B s"
  using assms(1)
proof (induction rule: egress_reach.induct)
  case (start s)
  then show ?case by (simp add: tables_ok_def fresh_table_ok)
next
  case (apply_step s req)
  then show ?case using Apply_keeps [OF assms(2)] unfolding keeps_def by blast
next
  case (remove_step s req)
  then show ?case using Remove_keeps [OF assms(2)] unfolding keeps_def by blast
qed

end

section \<open>The verdict for a packet\<close>

definition verdict_of :: "bool \<Rightarrow> verdict" where
  "verdict_of ok = (if ok then Accepted else Dropped)"

lemma walk_skip:
  assumes "\<forall>sp \<in> set pre. other_bridge (pk_in p) sp"
  shows "walk n C (pre @ rs) p = walk n C rs p"
  using assms by (induction pre) (auto simp: other_bridge_def)

lemma chain_name_target: "chain_name h c b \<notin> {''ACCEPT'', ''DROP'', ''RETURN''}" if "c \<in> {inputChain, forwardChain}"
  using that by (auto simp: chain_name_def inputChain_def forwardChain_def)

lemma walk_complete:
  assumes "complete h c b sps C" "family_ok h c b A C" "c \<in> {inputChain, forwardChain}" "pk_in p = b"
    and "walk n C sps p = Some (verdict_of ok)"
  shows "walk (Suc n) C (the (C (cs_parent c))) p = Some (verdict_of ok)"
proof -
  obtain rs where rs: "C (cs_parent c) = Some rs" "jump_spec h c b \<in> set rs" "on_top b (jump_spec h c b) rs"
    and ch: "C (chain_name h c b) = Some sps"
    using assms(1,2) by (auto simp: complete_def family_ok_def)
  then obtain pre rest where p: "rs = pre @ jump_spec h c b # rest" "\<forall>sp \<in> set pre. other_bridge (pk_in p) sp"
    using on_top_first assms(4) by metis
  have "walk (Suc n) C (jump_spec h c b # rest) p = Some (verdict_of ok)"
    using assms(4,5) ch chain_name_target [OF assms(3), of h b] by (simp add: jump_spec_def verdict_of_def)
  then show ?thesis using rs(1) p walk_skip [OF p(2)] by simp
qed

lemma walk_deny: "walk n C deny_rules p = Some (verdict_of (pk_established p))"
  by (simp add: deny_rules_def verdict_of_def)

lemma walk_in:
  assumes "resolveRules req False = Inr r"
  shows "walk n C (in_rules r) p = Some (verdict_of (guest_may req p))"
proof -
  note s = resolve_strict [OF assms]
  have "Itoa (pk_dport p) = rp_dnsPort r \<longleftrightarrow> int (pk_dport p) = eq_DnsPort req"
    "Itoa (pk_dport p) = rp_httpPort r \<longleftrightarrow> int (pk_dport p) = eq_HttpPort req"
    using s by (auto simp: Itoa_inj)
  then show ?thesis using s(1,2) by (auto simp: in_rules_def verdict_of_def guest_may_def)
qed

section \<open>An executable table\<close>

text \<open>A table with the filter chains and the rules of \<open>PREROUTING\<close> of the NAT table.\<close>

record ref_table =
  rt_filter :: chains
  rt_nat :: "string list list"

definition ref_filter :: "string \<Rightarrow> string \<Rightarrow> string list \<Rightarrow> chains \<Rightarrow> chains option" where
  "ref_filter verb c sp C =
     (case C c of
        None \<Rightarrow> if verb = ''-N'' \<and> sp = [] then Some (C(c \<mapsto> [])) else None
      | Some rs \<Rightarrow>
          if verb = ''-A'' then Some (C(c \<mapsto> rs @ [sp]))
          else if verb = ''-I'' then (case sp of [] \<Rightarrow> None | i # sp' \<Rightarrow> if i = ''1'' then Some (C(c \<mapsto> sp' # rs)) else None)
          else if verb = ''-D'' then (if sp \<in> set rs then Some (C(c \<mapsto> remove1 sp rs)) else None)
          else if verb = ''-F'' then (if sp = [] then Some (C(c \<mapsto> [])) else None)
          else if verb = ''-X'' then (if sp = [] \<and> rs = [] \<and> c \<notin> {''INPUT'', ''FORWARD'', ''OUTPUT''} then Some (C(c := None)) else None)
          else None)"

definition ref_nat :: "string list \<Rightarrow> string list list \<Rightarrow> string list list option" where
  "ref_nat args rs =
     (case args of
        verb # c # sp \<Rightarrow>
          if c \<noteq> ''PREROUTING'' then None
          else if verb = ''-A'' then Some (rs @ [sp])
          else if verb = ''-D'' \<and> sp \<in> set rs then Some (remove1 sp rs)
          else None
      | _ \<Rightarrow> None)"

fun ref_run :: "string list \<Rightarrow> ref_table \<Rightarrow> ref_table \<times> bool" where
  "ref_run (w # verb # c # sp) s =
     (if verb = ''-t''
      then (if c \<noteq> ''nat'' then (s, False) else case ref_nat sp (rt_nat s) of None \<Rightarrow> (s, False) | Some rs \<Rightarrow> (s\<lparr>rt_nat := rs\<rparr>, True))
      else (case ref_filter verb c sp (rt_filter s) of None \<Rightarrow> (s, False) | Some C \<Rightarrow> (s\<lparr>rt_filter := C\<rparr>, True)))"
| "ref_run _ s = (s, False)"

fun ref_check :: "string list \<Rightarrow> ref_table \<Rightarrow> bool" where
  "ref_check (w # verb # c # sp) s =
     (if verb = ''-t'' then sp \<noteq> [] \<and> (case tl sp of c' # sp' \<Rightarrow> hd sp = ''-C'' \<and> c' = ''PREROUTING'' \<and> sp' \<in> set (rt_nat s) | [] \<Rightarrow> False)
      else verb = ''-C'' \<and> (case rt_filter s c of None \<Rightarrow> False | Some rs \<Rightarrow> sp \<in> set rs))"
| "ref_check _ s = False"

definition listing :: "string \<Rightarrow> string list list \<Rightarrow> string" where
  "listing c rs = concat (map (\<lambda>sp. ''-A '' @ c @ concat (map (\<lambda>x. CHR '' '' # x) sp) @ [LF]) rs)"

fun ref_list :: "string list \<Rightarrow> ref_table \<Rightarrow> string option" where
  "ref_list [w, verb, c] s = (if verb = ''-S'' then map_option (listing c) (rt_filter s c) else None)"
| "ref_list [w, verb, c, v, c'] s = (if verb = ''-t'' \<and> v = ''-S'' \<and> c' = ''PREROUTING'' then Some (listing c' (rt_nat s)) else None)"
| "ref_list _ s = None"

definition ref_iptables :: "ref_table iptables_ops" where
  "ref_iptables = \<lparr>ipt_run = ref_run, ipt_check = ref_check, ipt_list = ref_list\<rparr>"

interpretation ref: iptables ref_iptables rt_filter
proof unfold_locales
  fix c :: string and sp args :: "string list" and s s' :: ref_table and ok :: bool
  show "ipt_run ref_iptables (''-w'' # ''-A'' # c # sp) s = (s', True) \<Longrightarrow>
      \<exists>rs. rt_filter s c = Some rs \<and> rt_filter s' = (rt_filter s)(c \<mapsto> rs @ [sp])"
    by (auto simp: ref_iptables_def ref_filter_def split: option.splits if_splits)
  show "ipt_run ref_iptables (''-w'' # ''-I'' # c # ''1'' # sp) s = (s', True) \<Longrightarrow>
      \<exists>rs. rt_filter s c = Some rs \<and> rt_filter s' = (rt_filter s)(c \<mapsto> sp # rs)"
    by (auto simp: ref_iptables_def ref_filter_def split: option.splits if_splits)
  show "ipt_run ref_iptables (''-w'' # ''-D'' # c # sp) s = (s', True) \<Longrightarrow>
      \<exists>rs. rt_filter s c = Some rs \<and> sp \<in> set rs \<and> rt_filter s' = (rt_filter s)(c \<mapsto> remove1 sp rs)"
    by (auto simp: ref_iptables_def ref_filter_def split: option.splits if_splits)
  show "ipt_run ref_iptables [''-w'', ''-N'', c] s = (s', True) \<Longrightarrow> rt_filter s c = None \<and> rt_filter s' = (rt_filter s)(c \<mapsto> [])"
    by (auto simp: ref_iptables_def ref_filter_def split: option.splits if_splits)
  show "ipt_run ref_iptables [''-w'', ''-F'', c] s = (s', True) \<Longrightarrow> rt_filter s c \<noteq> None \<and> rt_filter s' = (rt_filter s)(c \<mapsto> [])"
    by (auto simp: ref_iptables_def ref_filter_def split: option.splits if_splits)
  show "ipt_run ref_iptables [''-w'', ''-X'', c] s = (s', True) \<Longrightarrow> rt_filter s' = (rt_filter s)(c := None)"
    by (auto simp: ref_iptables_def ref_filter_def split: option.splits if_splits)
  show "ipt_run ref_iptables (''-w'' # ''-t'' # ''nat'' # args) s = (s', ok) \<Longrightarrow> rt_filter s' = rt_filter s"
    by (auto simp: ref_iptables_def split: option.splits)
  show "ipt_run ref_iptables args s = (s', False) \<Longrightarrow> rt_filter s' = rt_filter s"
    by (cases "(args, s)" rule: ref_run.cases) (auto simp: ref_iptables_def split: option.splits if_splits)
  show "ipt_check ref_iptables (''-w'' # ''-C'' # c # sp) s \<Longrightarrow> \<exists>rs. rt_filter s c = Some rs \<and> sp \<in> set rs"
    by (auto simp: ref_iptables_def split: option.splits)
qed

definition ref_env :: "(ref_table, ref_table) egress_env" where
  "ref_env = \<lparr>ee_4 = ref_iptables, ee_6 = ref_iptables, ee_sum256 = (\<lambda>b. []), ee_has6 = True, ee_ipv6Enabled = True\<rparr>"

interpretation ref_env: egress_tables ref_env rt_filter rt_filter
  using ref.iptables_axioms by (simp add: egress_tables_def ref_env_def)

section \<open>Confinement\<close>

lemma Apply_walks:
  assumes "iptables (ee_4 V) ft4" "iptables (ee_6 V) ft6" and "distinct_chains (ee_sum256 V) B"
    and "egress_reach V ft4 ft6 B s" and "eq_Bridge req \<in> B" and "Egress_Apply V req s = (s', None)"
    and "pk_in p = eq_Bridge req"
  shows "walk (Suc n) (ft4 (fst s')) (the (ft4 (fst s') ''INPUT'')) p = Some (verdict_of (guest_may req p))
    \<and> walk (Suc n) (ft4 (fst s')) (the (ft4 (fst s') ''FORWARD'')) p = Some (verdict_of (pk_established p))
    \<and> (if ee_has6 V
        then walk (Suc n) (ft6 (snd s')) (the (ft6 (snd s') ''INPUT'')) p = Some (verdict_of (pk_established p))
          \<and> walk (Suc n) (ft6 (snd s')) (the (ft6 (snd s') ''FORWARD'')) p = Some (verdict_of (pk_established p))
        else \<not> ee_ipv6Enabled V)"
proof -
  have E: "egress_tables V ft4 ft6" using assms(1,2) by (simp add: egress_tables_def)
  have ok: "egress_tables.tables_ok V ft4 ft6 B s" by (rule egress_tables.reach_ok [OF E assms(4,3)])
  obtain r where r: "resolveRules req False = Inr r" "enforced V ft4 ft6 r s'" "egress_tables.tables_ok V ft4 ft6 B s'"
    by (rule egress_tables.Apply_enforced [OF E assms(6) ok assms(3,5)])
  have b: "rp_bridge r = eq_Bridge req" by (rule resolve_bridge [OF r(1)])
  let ?h = "ee_sum256 V" and ?b = "eq_Bridge req"
  have f: "family_ok ?h c ?b (shapes4 c) (ft4 (fst s'))" "family_ok ?h c ?b deny_shapes (ft6 (snd s'))"
    if "c \<in> {inputChain, forwardChain}" for c
    using r(3) that assms(5) unfolding egress_tables.tables_ok_def [OF E] table_ok_def by blast+
  note c = r(2) [unfolded enforced_def b]
  have w: "walk (Suc n) C (the (C (cs_parent ch))) p = Some (verdict_of (pk_established p))"
    if "complete ?h ch ?b deny_rules C" "family_ok ?h ch ?b A C" "ch \<in> {inputChain, forwardChain}" for C ch A
    by (rule walk_complete [OF that assms(7) walk_deny])
  have "walk (Suc n) (ft4 (fst s')) (the (ft4 (fst s') (cs_parent inputChain))) p = Some (verdict_of (guest_may req p))"
    by (rule walk_complete [OF _ f(1) _ assms(7) walk_in [OF r(1)]]) (use c in simp_all)
  moreover have "walk (Suc n) (ft4 (fst s')) (the (ft4 (fst s') (cs_parent forwardChain))) p = Some (verdict_of (pk_established p))"
    by (rule w [OF _ f(1)]) (use c in simp_all)
  moreover have 6: "ee_has6 V \<Longrightarrow> ch \<in> {inputChain, forwardChain} \<Longrightarrow>
      walk (Suc n) (ft6 (snd s')) (the (ft6 (snd s') (cs_parent ch))) p = Some (verdict_of (pk_established p))" for ch
    using w [OF _ f(2)] c by auto
  ultimately show ?thesis using c 6 [of inputChain] 6 [of forwardChain] by (auto simp: chain_names split: if_splits)
qed

text \<open>C3 (safety). A successful \<open>Apply\<close> confines the guest, whatever requests for this and other bridges came before and
  wherever earlier ones failed: a packet that arrives on the bridge is accepted by the host exactly if it belongs to an established connection,
  goes to the DNS port, to the HTTP port on the gateway or is ICMP to the gateway, and is dropped otherwise;
  forwarding is dropped unless established; IPv6 is dropped in the same way, or the kernel has none.\<close>

theorem Apply_enforces:
  assumes "iptables (ee_4 V) ft4" "iptables (ee_6 V) ft6" and "distinct_chains (ee_sum256 V) B"
    and "egress_reach V ft4 ft6 B s" and "eq_Bridge req \<in> B" and "Egress_Apply V req s = (s', None)"
    and "pk_in p = eq_Bridge req"
  shows "walk (Suc n) (ft4 (fst s')) (the (ft4 (fst s') ''INPUT'')) p = Some (verdict_of (guest_may req p))
    \<and> walk (Suc n) (ft4 (fst s')) (the (ft4 (fst s') ''FORWARD'')) p = Some (verdict_of (pk_established p))
    \<and> (if ee_has6 V
        then walk (Suc n) (ft6 (snd s')) (the (ft6 (snd s') ''INPUT'')) p = Some (verdict_of (pk_established p))
          \<and> walk (Suc n) (ft6 (snd s')) (the (ft6 (snd s') ''FORWARD'')) p = Some (verdict_of (pk_established p))
        else \<not> ee_ipv6Enabled V)"
  by (rule Apply_walks [OF assms])

definition req_a :: EgressReq where
  "req_a = \<lparr>eq_Bridge = ''abox-a'', eq_GuestDnsPort = 53, eq_DnsPort = 5353, eq_HttpPort = 8080, eq_Gateway = ''10.10.1.1''\<rparr>"

definition clean_table :: ref_table where
  "clean_table = \<lparr>rt_filter = [''INPUT'' \<mapsto> [], ''FORWARD'' \<mapsto> []], rt_nat = []\<rparr>"

lemma gateway_a: "ValidateIPv4 ''10.10.1.1'' = None"
  by (simp add: ValidateIPv4_def ParseIP_def ParseAddr_def parse_v4_def parse_octet_def go_eval dec_val_def digit_val_def To16_def To4_def v4InV6Prefix_def)

lemma bridge_a: "ValidateBridgeName ''abox-a'' = None"
  by (simp add: ValidateBridgeName_def safeBridgeChars_def rx_match_lang rx_lang go_eval)

definition params_a :: ruleParams where
  "params_a = \<lparr>rp_bridge = ''abox-a'', rp_guestDNS = ''53'', rp_dnsPort = ''5353'', rp_httpPort = ''8080'', rp_gateway = ''10.10.1.1''\<rparr>"

lemma resolve_a: "resolveRules req_a False = Inr params_a"
  by (simp add: resolveRules_def req_a_def params_a_def gateway_a bridge_a validateGateway_def validatePort_def validateGuestPort_def
      pf_ValidatePort_def Itoa_int_def Itoa.simps go_eval)

lemmas ref_eval = ref_iptables_def ref_filter_def ref_nat_def ref_env_def clean_table_def params_a_def ruleExists_def
  jumpArgs_def insertJumpArgs_def natRedirectArgs_def args_specs run_or_def appendRule_def
  chain_name_def inputChain_def forwardChain_def hex_bytes_def Let_def

abbreviation redirected :: ref_table where
  "redirected \<equiv> clean_table\<lparr>rt_nat := [drop 5 (natRedirectArgs ''-A'' ''abox-a'' ''udp'' ''53'' ''5353''), drop 5 (natRedirectArgs ''-A'' ''abox-a'' ''tcp'' ''53'' ''5353'')]\<rparr>"

lemma not_yet: "\<not> alreadyApplied ref_env params_a (clean_table, t)"
  by (simp add: alreadyApplied_def ref_eval)

lemma remove_jumps_none:
  "\<not> ruleExists T (jumpArgs h c ''-C'' b) s \<Longrightarrow> remove_jumps T h c b n s = (s, None)"
  "\<not> ipt_check T (jumpArgs h c ''-C'' b) s \<Longrightarrow> remove_jumps6 T h c b n s = (s, None)"
  by (cases n; simp)+

lemma flush_clean: "flush_all ref_env params_a (clean_table, clean_table) = ((clean_table, clean_table), None)"
proof -
  have c: "\<not> ipt_check ref_iptables (jumpArgs h c ''-C'' b) clean_table" "\<not> ruleExists ref_iptables (jumpArgs h c ''-C'' b) clean_table" for h c b
    by (simp_all add: ref_eval)
  have l: "ipt_list ref_iptables [''-w'', ''-S'', chain_name h c b] clean_table = None" if "c \<in> {inputChain, forwardChain}" for h c b
    using that by (auto simp: ref_iptables_def clean_table_def chain_name_def inputChain_def forwardChain_def)
  have "flushNATRules ref_iptables params_a clean_table = (clean_table, None)"
    by (simp add: flushNATRules_def listing_def natRuleIsAbox_def ruleTargetsBridge_def ref_eval Fields_def)
  moreover have "flushChainRules ref_iptables h c params_a clean_table = (clean_table, None)" if "c \<in> {inputChain, forwardChain}" for h c
    by (simp add: flushChainRules_def removeAllJumps_def remove_jumps_none(1) [OF c(2)] deleteNamedChain_def l [OF that])
  moreover have "flushV6Chain ref_iptables h c b clean_table = (clean_table, None)" if "c \<in> {inputChain, forwardChain}" for h c b
    by (simp add: flushV6Chain_def remove_jumps_none(2) [OF c(1)] l [OF that] Let_def)
  ultimately show ?thesis by (simp add: flush_all_def join_steps_def on4_def on6_def flushV6Chains_def ref_env_def)
qed

lemma nat_a: "and_then (addNATRedirect ref_iptables params_a ''udp'' clean_table) (addNATRedirect ref_iptables params_a ''tcp'') = (redirected, None)"
  by (simp add: addNATRedirect_def ref_eval)

lemma chain_a: "snd (and_then (buildChain ref_iptables h params_a redirected) (buildFwdChain ref_iptables h params_a)) = None"
  by (simp add: buildChain_def buildFwdChain_def ensureChain_def ensureJump_def ref_eval)

lemma v6_a: "snd (ensureIPv6Denied ref_iptables h True True params_a clean_table) = None"
  by (simp add: ensureIPv6Denied_def buildV6Chain_def ref_eval)

lemma install_split:
  assumes "and_then (addNATRedirect (ee_4 V) r ''udp'' s) (addNATRedirect (ee_4 V) r ''tcp'') = (s1, None)"
    and "and_then (buildChain (ee_4 V) (ee_sum256 V) r s1) (buildFwdChain (ee_4 V) (ee_sum256 V) r) = (s2, None)"
    and "ensureIPv6Denied (ee_6 V) (ee_sum256 V) (ee_has6 V) (ee_ipv6Enabled V) r t = (t', None)"
  shows "install V r (s, t) = ((s2, t'), None)"
  using assms by (auto simp: install_def on4_def on6_def and_then_None)

lemma applied_a: "snd (Egress_Apply ref_env req_a (clean_table, clean_table)) = None"
proof -
  let ?h = "ee_sum256 ref_env"
  have e: "ee_4 ref_env = ref_iptables" "ee_6 ref_env = ref_iptables" "ee_has6 ref_env" "ee_ipv6Enabled ref_env" by (simp_all add: ref_env_def)
  obtain s2 where "and_then (buildChain ref_iptables ?h params_a redirected) (buildFwdChain ref_iptables ?h params_a) = (s2, None)"
    using chain_a by (metis prod.collapse)
  moreover obtain t' where "ensureIPv6Denied ref_iptables ?h True True params_a clean_table = (t', None)"
    using v6_a by (metis prod.collapse)
  ultimately have "install ref_env params_a (clean_table, clean_table) = ((s2, t'), None)"
    using install_split [where V = ref_env] nat_a e by simp
  then show ?thesis by (simp add: Egress_Apply_def resolve_a not_yet flush_clean)
qed

text \<open>A guest that tries the SSH port of its host.\<close>

theorem Apply_enforces_witness:
  "walk 1 (rt_filter (fst (fst (Egress_Apply ref_env req_a (clean_table, clean_table)))))
     (the (rt_filter (fst (fst (Egress_Apply ref_env req_a (clean_table, clean_table)))) ''INPUT''))
     \<lparr>pk_in = ''abox-a'', pk_dst = ''10.10.1.1'', pk_proto = ''tcp'', pk_dport = 22, pk_established = False\<rparr> = Some Dropped"
proof -
  let ?s = "fst (Egress_Apply ref_env req_a (clean_table, clean_table))"
  let ?p = "\<lparr>pk_in = ''abox-a'', pk_dst = ''10.10.1.1'', pk_proto = ''tcp'', pk_dport = 22, pk_established = False\<rparr>"
  have "iptables (ee_4 ref_env) rt_filter" "iptables (ee_6 ref_env) rt_filter"
    using ref.iptables_axioms by (simp_all add: ref_env_def)
  moreover have "distinct_chains (ee_sum256 ref_env) {''abox-a''}" by (simp add: distinct_chains_def)
  moreover have "egress_reach ref_env rt_filter rt_filter {''abox-a''} (clean_table, clean_table)"
    by (rule egress_reach.start)
      (simp_all add: fresh_table_def clean_table_def ref_env_def chain_name_def hex_bytes_def inputChain_def forwardChain_def)
  moreover have "eq_Bridge req_a \<in> {''abox-a''}" "pk_in ?p = eq_Bridge req_a" by (simp_all add: req_a_def)
  moreover have "Egress_Apply ref_env req_a (clean_table, clean_table) = (?s, None)" using applied_a by (metis prod.collapse)
  ultimately have "walk (Suc 0) (rt_filter (fst ?s)) (the (rt_filter (fst ?s) ''INPUT'')) ?p = Some (verdict_of (guest_may req_a ?p))"
    using Apply_enforces [of ref_env rt_filter rt_filter "{''abox-a''}" "(clean_table, clean_table)" req_a ?s ?p 0] by blast
  then show ?thesis by (simp add: verdict_of_def guest_may_def req_a_def)
qed

section \<open>Bridge names\<close>

text \<open>An instance name may contain an underscore and a short one becomes part of the bridge name, which the helper then refuses.\<close>

lemma underscore_bridge_refused:
  "ValidateInstanceName ''my_vm'' = None \<and> ValidateBridgeName (GenerateBridgeName h ''my_vm'') = Some (EgBridgeChars ''abox-my_vm'')"
  by (simp add: ValidateInstanceName_iff ValidateBridgeName_def GenerateBridgeName_def safeBridgeChars_def rx_match_lang rx_lang go_eval)

end
