(* ===== verification/PF_Rules.thy ===== *)
theory PF_Rules
  imports Config PF_Validate
begin

text \<open>
  The rules of the macOS packet filter: \<^verbatim>\<open>internal/firewall/pfctl.go\<close> generates them for an instance,
  \<^verbatim>\<open>internal/privilege/pfrules_darwin.go\<close> accepts or refuses them in the privileged helper, and
  \<^verbatim>\<open>internal/privilege/helper_darwin.go\<close> loads what was accepted. The two sides share only
  \<open>PF_Validate\<close>.
\<close>

section \<open>The generator\<close>

definition BuildInstanceRules :: "string \<Rightarrow> string \<Rightarrow> string \<Rightarrow> int \<Rightarrow> int \<Rightarrow> string" where
  "BuildInstanceRules subnet gateway bridge dnsPort httpPort = lines_text
     [''# abox instance traffic rules for '' @ subnet,
      ''# DNS redirect (VM queries to any :53 -> local dnsfilter)'',
      ''rdr pass proto udp from '' @ subnet @ '' to any port 53 -> 127.0.0.1 port '' @ Itoa_int dnsPort,
      ''rdr pass proto tcp from '' @ subnet @ '' to any port 53 -> 127.0.0.1 port '' @ Itoa_int dnsPort,
      ''# Block all IPv6 on this VM'' @ [char_of (39::nat)] @ ''s bridge (vmnet has no flag to disable NAT66)'',
      ''block drop quick on '' @ bridge @ '' inet6 all'',
      ''# Allowlisted outbound'',
      ''pass quick proto tcp from '' @ subnet @ '' to '' @ gateway @ '' port '' @ Itoa_int httpPort,
      ''pass quick proto icmp from '' @ subnet @ '' to '' @ gateway,
      ''# Allow host->guest SSH; the reply (subnet->gateway) is admitted by pf state'',
      ''pass quick proto tcp from '' @ gateway @ '' to '' @ subnet @ '' port 22'',
      ''# Deny inbound to the HTTP proxy from anything outside the instance subnet'',
      ''block drop quick proto tcp from ! '' @ subnet @ '' to any port '' @ Itoa_int httpPort,
      ''# Default deny: everything else from the VM is dropped'',
      ''block drop quick from '' @ subnet @ '' to any'']"

definition BuildPreBootDenyRules :: "string \<Rightarrow> int \<Rightarrow> string" where
  "BuildPreBootDenyRules subnet httpPort = lines_text
     [''# abox pre-boot rules for '' @ subnet @ '' (IPv4-only; full rules incl. IPv6 kill load post-boot)'',
      ''# Deny inbound to the HTTP proxy from anything outside the instance subnet'',
      ''block drop quick proto tcp from ! '' @ subnet @ '' to any port '' @ Itoa_int httpPort,
      ''# Default deny: everything else from the VM is dropped'',
      ''block drop quick from '' @ subnet @ '' to any'']"

definition validatePfPort :: "string \<Rightarrow> int \<Rightarrow> pf_error option" where
  "validatePfPort label port = (if \<not> pf_ValidatePort port then Some (PfPort label port) else None)"

definition validatePfSubnetGateway :: "string \<Rightarrow> string \<Rightarrow> pf_error option" where
  "validatePfSubnetGateway subnet gateway =
     (case ParseSubnet24 subnet of
        Inl e \<Rightarrow> Some e
      | Inr (_, wantGw) \<Rightarrow>
          (case Option.bind (ParseIP gateway) To4 of
             None \<Rightarrow> Some (PfGateway gateway)
           | Some gw4 \<Rightarrow> if \<not> IP_Equal gw4 wantGw then Some (PfGatewayNotFirst gateway subnet) else None))"

definition validatePfArgs :: "string \<Rightarrow> string \<Rightarrow> string \<Rightarrow> string \<Rightarrow> int \<Rightarrow> int \<Rightarrow> pf_error option" where
  "validatePfArgs inst subnet gateway bridge dnsPort httpPort =
     (case pf_ValidateInstanceName inst of
        Some e \<Rightarrow> Some e
      | None \<Rightarrow>
          (case validatePfSubnetGateway subnet gateway of
             Some e \<Rightarrow> Some e
           | None \<Rightarrow>
               if \<not> MatchBridgeName bridge then Some (PfBridge bridge)
               else (case validatePfPort ''DNS'' dnsPort of Some e \<Rightarrow> Some e | None \<Rightarrow> validatePfPort ''HTTP'' httpPort)))"

definition InstanceRules :: "string \<Rightarrow> string \<Rightarrow> string \<Rightarrow> string \<Rightarrow> int \<Rightarrow> int \<Rightarrow> pf_error + string" where
  "InstanceRules inst subnet gateway bridge dnsPort httpPort =
     (case validatePfArgs inst subnet gateway bridge dnsPort httpPort of
        Some e \<Rightarrow> Inl e
      | None \<Rightarrow> Inr (BuildInstanceRules subnet gateway bridge dnsPort httpPort))"

definition PreBootDenyRules :: "string \<Rightarrow> string \<Rightarrow> int \<Rightarrow> pf_error + string" where
  "PreBootDenyRules inst subnet httpPort =
     (case pf_ValidateInstanceName inst of
        Some e \<Rightarrow> Inl e
      | None \<Rightarrow>
          (case ParseSubnet24 subnet of
             Inl e \<Rightarrow> Inl e
           | Inr _ \<Rightarrow>
               (case validatePfPort ''HTTP'' httpPort of
                  Some e \<Rightarrow> Inl e
                | None \<Rightarrow> Inr (BuildPreBootDenyRules subnet httpPort))))"

section \<open>The validator\<close>

definition tokCIDR :: string where "tokCIDR = ''<cidr>''"
definition tokGw :: string where "tokGw = ''<gw>''"
definition tokBridge :: string where "tokBridge = ''<bridge>''"
definition tokPort :: string where "tokPort = ''<port>''"

definition terminalDenyTemplate :: "string list" where
  "terminalDenyTemplate = Fields ''block drop quick from <cidr> to any''"

definition inet6DenyTemplate :: "string list" where
  "inet6DenyTemplate = Fields ''block drop quick on <bridge> inet6 all''"

definition pfRuleTemplates :: "string list list" where
  "pfRuleTemplates =
     [Fields ''rdr pass proto udp from <cidr> to any port 53 -> 127.0.0.1 port <port>'',
      Fields ''rdr pass proto tcp from <cidr> to any port 53 -> 127.0.0.1 port <port>'',
      inet6DenyTemplate,
      Fields ''pass quick proto tcp from <cidr> to <gw> port <port>'',
      Fields ''pass quick proto icmp from <cidr> to <gw>'',
      Fields ''pass quick proto tcp from <gw> to <cidr> port 22'',
      Fields ''block drop quick proto tcp from ! <cidr> to any port <port>'',
      terminalDenyTemplate]"

definition validatePFToken :: "string \<Rightarrow> string \<Rightarrow> string \<Rightarrow> string \<Rightarrow> bool" where
  "validatePFToken kind v cidr gw =
     (if kind = tokCIDR then v = cidr
      else if kind = tokGw then v = gw
      else if kind = tokBridge then MatchBridgeName v
      else if kind = tokPort then
        (case Atoi v of
           None \<Rightarrow> False
         | Some n \<Rightarrow> if Itoa_int n \<noteq> v then False else pf_ValidatePort n)
      else False)"

definition is_placeholder :: "string \<Rightarrow> bool" where
  "is_placeholder t \<longleftrightarrow> t = tokCIDR \<or> t = tokGw \<or> t = tokBridge \<or> t = tokPort"

definition matchPFTemplate :: "string list \<Rightarrow> string list \<Rightarrow> string \<Rightarrow> string \<Rightarrow> bool" where
  "matchPFTemplate tokens tmpl cidr gw \<longleftrightarrow>
     length tokens = length tmpl
     \<and> list_all2 (\<lambda>v t. if is_placeholder t then validatePFToken t v cidr gw else v = t) tokens tmpl"

text \<open>The characters of a rule. A rune beyond ASCII consists of bytes beyond ASCII, so the bytes can be looked at.\<close>

definition pf_char :: "char \<Rightarrow> bool" where
  "pf_char c \<longleftrightarrow> is_lower c \<or> is_upper c \<or> is_digit c \<or> c \<in> {CHR '' '', CHR ''.'', CHR ''-'', CHR ''>'', CHR ''/'', CHR ''!''}"

definition validatePFRuleLine :: "nat \<Rightarrow> string \<Rightarrow> string \<Rightarrow> string \<Rightarrow> pf_error option" where
  "validatePFRuleLine i line cidr gw =
     (case find (\<lambda>c. \<not> pf_char c) line of
        Some c \<Rightarrow> Some (PfRuleChar i c line)
      | None \<Rightarrow>
          if list_ex (\<lambda>tmpl. matchPFTemplate (Fields line) tmpl cidr gw) pfRuleTemplates then None
          else Some (PfRuleShape i line))"

record pfRuleScan =
  sc_matched :: bool
  sc_terminalDeny :: bool
  sc_inet6Deny :: bool
  sc_allow :: bool

definition scan_line :: "nat \<Rightarrow> string \<Rightarrow> string \<Rightarrow> string \<Rightarrow> pfRuleScan \<Rightarrow> pf_error + pfRuleScan" where
  "scan_line i rawLine cidr gw scan =
     (let line = TrimSpace rawLine in
      if line = [] then Inr scan
      else if HasPrefix line ''#'' then Inr scan
      else if CHR ''#'' \<in> set line then Inl (PfInlineComment i line)
      else (case validatePFRuleLine i line cidr gw of
              Some e \<Rightarrow> Inl e
            | None \<Rightarrow>
                Inr (scan\<lparr>sc_terminalDeny := sc_terminalDeny scan \<or> matchPFTemplate (Fields line) terminalDenyTemplate cidr gw,
                          sc_inet6Deny := sc_inet6Deny scan \<or> matchPFTemplate (Fields line) inet6DenyTemplate cidr gw,
                          sc_allow := sc_allow scan \<or> HasPrefix line ''rdr '' \<or> HasPrefix line ''pass '',
                          sc_matched := True\<rparr>)))"

fun scan_from :: "nat \<Rightarrow> string list \<Rightarrow> string \<Rightarrow> string \<Rightarrow> pfRuleScan \<Rightarrow> pf_error + pfRuleScan" where
  "scan_from i [] cidr gw scan = Inr scan"
| "scan_from i (l # ls) cidr gw scan =
     (case scan_line i l cidr gw scan of Inl e \<Rightarrow> Inl e | Inr scan' \<Rightarrow> scan_from (Suc i) ls cidr gw scan')"

definition scanPFRuleLines :: "string \<Rightarrow> string \<Rightarrow> string \<Rightarrow> pf_error + pfRuleScan" where
  "scanPFRuleLines content cidr gw =
     scan_from 1 (Split content LF) cidr gw \<lparr>sc_matched = False, sc_terminalDeny = False, sc_inet6Deny = False, sc_allow = False\<rparr>"

definition subnetTokens :: "string \<Rightarrow> pf_error + (string \<times> string)" where
  "subnetTokens subnet =
     (case ParseSubnet24 subnet of
        Inl e \<Rightarrow> Inl e
      | Inr (network, gateway) \<Rightarrow> Inr (IPNet_String network, IP_String gateway))"

definition validatePFRules :: "string \<Rightarrow> string \<Rightarrow> pf_error option" where
  "validatePFRules content subnet =
     (if TrimSpace content = [] then Some PfRulesEmpty
      else if char_of (0::nat) \<in> set content then Some PfRulesNUL
      else (case subnetTokens subnet of
              Inl e \<Rightarrow> Some e
            | Inr (cidr, gw) \<Rightarrow>
                (case scanPFRuleLines content cidr gw of
                   Inl e \<Rightarrow> Some e
                 | Inr scan \<Rightarrow>
                     if \<not> sc_matched scan then Some PfNoRules
                     else if \<not> sc_terminalDeny scan then Some PfNoTerminalDeny
                     else if sc_allow scan \<and> \<not> sc_inet6Deny scan then Some PfNoInet6Deny
                     else None)))"

definition validateInstanceName :: "string \<Rightarrow> pf_error option" where
  "validateInstanceName name = (if 63 < length name then Some (PfNameLong name) else pf_ValidateInstanceName name)"

section \<open>The helper\<close>

text \<open>\<open>pfctl\<close> is the command run by the helper: its arguments, its standard input and its state. The result says whether it succeeded.\<close>

type_synonym 'p pfctl = "string list \<Rightarrow> string \<Rightarrow> 'p \<Rightarrow> 'p \<times> bool"

definition LoadAnchor :: "'p pfctl \<Rightarrow> string \<Rightarrow> string \<Rightarrow> string \<Rightarrow> 'p \<Rightarrow> 'p \<times> pf_error option" where
  "LoadAnchor run inst subnet rules s =
     (case validateInstanceName inst of
        Some e \<Rightarrow> (s, Some e)
      | None \<Rightarrow>
          (case validatePFRules rules subnet of
             Some e \<Rightarrow> (s, Some e)
           | None \<Rightarrow> (case run [''-a'', ''abox/'' @ inst, ''-f'', ''-''] rules s of (s', ok) \<Rightarrow> (s', if ok then None else Some PfRun))))"

definition FlushAnchor :: "'p pfctl \<Rightarrow> string \<Rightarrow> 'p \<Rightarrow> 'p \<times> pf_error option" where
  "FlushAnchor run inst s =
     (case validateInstanceName inst of
        Some e \<Rightarrow> (s, Some e)
      | None \<Rightarrow> (case run [''-a'', ''abox/'' @ inst, ''-F'', ''all''] [] s of (s', ok) \<Rightarrow> (s', if ok then None else Some PfRun)))"

end
