(* ===== verification/Config_Resources.thy ===== *)
theory Config_Resources
  imports Config PF_Validate
begin

text \<open>
  Properties of the resources \<^verbatim>\<open>internal/config/config.go\<close> hands out: subnets, which must be free, and the lock that serializes the
  search for them between processes.
\<close>

section \<open>Subnets\<close>

lemma find_subnet_Some:
  "find_subnet free i = Some j \<Longrightarrow> i \<le> j \<and> j < 255 \<and> free j \<and> (\<forall>k. i \<le> k \<and> k < j \<longrightarrow> \<not> free k)"
proof (induction free i rule: find_subnet.induct)
  case (1 free i)
  show ?case
  proof (cases "255 \<le> i \<or> free i")
    case True
    then show ?thesis using 1(2) by (subst (asm) find_subnet.simps) (auto split: if_splits)
  next
    case False
    then have "find_subnet free (i + 1) = Some j" using 1(2) by (subst (asm) find_subnet.simps) simp
    moreover have "k = i \<or> i + 1 \<le> k" if "i \<le> k" for k using that by auto
    ultimately show ?thesis using 1(1) False by (metis add_leD1 not_le)
  qed
qed

lemma find_subnet_None: "find_subnet free i = None \<Longrightarrow> \<forall>k. i \<le> k \<and> k < 255 \<longrightarrow> \<not> free k"
proof (induction free i rule: find_subnet.induct)
  case (1 free i)
  show ?case
  proof (cases "255 \<le> i")
    case False
    then have "\<not> free i" "find_subnet free (i + 1) = None"
      using 1(2) by (subst (asm) find_subnet.simps, simp split: if_splits)+
    then show ?thesis using 1(1) False by (metis Suc_eq_plus1 le_neq_implies_less not_less Suc_leI)
  qed auto
qed

lemma candidateSubnet_inj: "candidateSubnet ip i = candidateSubnet ip j \<longleftrightarrow> i = j"
  by (auto simp: candidateSubnet_def Itoa_inj)

lemma used_subnets:
  "s \<in> set (used_from C fs names) \<longleftrightarrow> s \<noteq> [] \<and> (\<exists>n\<in>set names. \<exists>i p. Config_Load C fs n = Inr (i, p) \<and> i_Subnet i = s)"
  by (induction names) (auto split: sum.splits)

lemma subnet_conflict_None:
  "subnet_conflict C fs s names = None \<longleftrightarrow> (\<forall>n\<in>set names. \<forall>i p. Config_Load C fs n = Inr (i, p) \<longrightarrow> i_Subnet i \<noteq> s)"
  by (induction names) (auto split: sum.splits)

lemma Itoa_bits: "Itoa 0 = ''0''" "Itoa (Suc 0) = ''1''"
  by (simp_all add: Itoa.simps char_of_eq_iff)

lemma candidate_texts:
  assumes "length ip = 4" and "i < 256"
  shows "candidateSubnet ip i = v4_string [ip ! 0, ip ! 1, of_nat i, 0] @ ''/24''"
    and "candidateGateway ip i = v4_string [ip ! 0, ip ! 1, of_nat i, 1]"
proof -
  have "unat (of_nat i :: u8) = i" using assms(2) by (simp add: unsigned_of_nat take_bit_eq_mod)
  then show "candidateSubnet ip i = v4_string [ip ! 0, ip ! 1, of_nat i, 0] @ ''/24''"
    "candidateGateway ip i = v4_string [ip ! 0, ip ! 1, of_nat i, 1]"
    by (simp_all add: candidateSubnet_def candidateGateway_def octet_def v4_string_def Itoa_bits)
qed

text \<open>The gateway the code derives from a /24.\<close>

definition gateway_of :: "u8 \<Rightarrow> u8 \<Rightarrow> u8 \<Rightarrow> string" where
  "gateway_of a b c = octet a @ ''.'' @ octet b @ ''.'' @ octet c @ ''.1''"

lemma ValidateSubnet_net24:
  assumes "t = ''24'' \<or> t = ''024''" and "Config_List C fs = Inr names"
  shows "ValidateSubnet C fs (v4_string [a, b, c, 0] @ ''/'' @ t) =
    (case subnet_conflict C fs (v4_string [a, b, c, 0] @ ''/'' @ t) names of
       Some e \<Rightarrow> Inl e | None \<Rightarrow> Inr (gateway_of a b c, unat c))"
  using parse_net24 [OF assms(1), of a b c] assms(2) by (auto simp: ValidateSubnet_def gateway_of_def numeral_eq_Suc mask24 split: option.splits)

lemma gateway_text: "v4_string [a, b, c, 1] = gateway_of a b c"
  by (simp add: v4_string_def gateway_of_def octet_def Itoa_bits)

lemma DeriveHostIP_gateway: "DeriveHostIP (gateway_of a b c) = octet a @ ''.'' @ octet b @ ''.'' @ octet c @ ''.10''"
  by (simp add: DeriveHostIP_def ParseIP_v4 flip: gateway_text)

section \<open>Properties\<close>


text \<open>
  The conflict check of a user-given subnet compares texts. With an instance that records a /24, the same subnet is
  refused as already in use, while its spelling with a prefix length of \<open>024\<close>, which \<open>net.ParseCIDR\<close> reads as 24, is
  accepted with the gateway of the instance that has it.
\<close>

theorem ValidateSubnet_alias:
  assumes "Config_List C fs = Inr names" and "name \<in> set names" and "Config_Load C fs name = Inr (inst, p)"
    and "i_Subnet inst = v4_string [a, b, c, 0] @ ''/24''"
    and "\<forall>m\<in>set names. \<forall>i q. Config_Load C fs m = Inr (i, q) \<longrightarrow> i_Subnet i \<noteq> v4_string [a, b, c, 0] @ ''/024''"
  shows "isl (ValidateSubnet C fs (v4_string [a, b, c, 0] @ ''/24''))
    \<and> ValidateSubnet C fs (v4_string [a, b, c, 0] @ ''/024'') = Inr (gateway_of a b c, unat c)"
proof -
  have "subnet_conflict C fs (v4_string [a, b, c, 0] @ ''/024'') names = None"
    using assms(5) by (simp add: subnet_conflict_None)
  then have "ValidateSubnet C fs (v4_string [a, b, c, 0] @ ''/024'') = Inr (gateway_of a b c, unat c)"
    using ValidateSubnet_net24 [of "''024''" C fs names a b c] assms(1) by simp
  moreover have "subnet_conflict C fs (v4_string [a, b, c, 0] @ ''/24'') names \<noteq> None"
    using assms(2,3,4) by (auto simp: subnet_conflict_None)
  then have "isl (ValidateSubnet C fs (v4_string [a, b, c, 0] @ ''/24''))"
    using ValidateSubnet_net24 [of "''24''" C fs names a b c] assms(1) by auto
  ultimately show ?thesis by simp
qed

text \<open>The witnesses run on the in-memory file system, with one instance on disk.\<close>

definition demo_instance :: Instance where
  "demo_instance = (DefaultInstance ''dev'')\<lparr>i_Subnet := v4_string [10, 10, 10, 0] @ ''/24''\<rparr>"

definition demo_yaml :: yaml_ops where
  "demo_yaml = \<lparr>yaml_Unmarshal = (\<lambda>_. Some demo_instance), yaml_Marshal = (\<lambda>_. Some ''i''),
     yaml_Raw = (\<lambda>_. None), yaml_Global = (\<lambda>_ _. None)\<rparr>"

definition demo_env :: "(MockFileSystem, alist) config_env" where
  "demo_env = \<lparr>ce_F = mock_fs, ce_P = demo_proc, ce_E = ref_ext, ce_R = ref_radix, ce_Y = demo_yaml\<rparr>"

definition demo_disk :: MockFileSystem where
  "demo_disk = demo_fs\<lparr>Files := [''/data/abox/instances/dev/config.yaml'' \<mapsto> ''i''],
     DirEntries := [''/data/abox/instances'' \<mapsto> [\<lparr>de_Name = ''dev'', de_IsDir = True\<rparr>]]\<rparr>"

lemma demo_disk_paths:
  "\<exists>p. GetPaths mock_fs demo_proc demo_disk ''dev'' = Inr p \<and> p_Config p = ''/data/abox/instances/dev/config.yaml''"
  "\<exists>p. GetPaths mock_fs demo_proc demo_disk [] = Inr p \<and> p_Instances p = ''/data/abox/instances''"
proof -
  have b: "getBaseDir mock_fs demo_disk = Inr ''/data/abox''"
    by (simp add: getBaseDir_def demo_disk_def demo_fs_def mock_defs path_eval)
  show "\<exists>p. GetPaths mock_fs demo_proc demo_disk ''dev'' = Inr p \<and> p_Config p = ''/data/abox/instances/dev/config.yaml''"
    "\<exists>p. GetPaths mock_fs demo_proc demo_disk [] = Inr p \<and> p_Instances p = ''/data/abox/instances''"
    by (simp_all add: GetPaths_def GetPathsWithStorage_def b path_eval Let_def build_paths_def)
qed

lemma demo_instance_valid: "Instance_Validate ref_ext ref_radix demo_instance = None"
proof -
  have "ValidateInstanceName ''dev'' = None" "ValidateResourceLimits 2 4096 = None" "ValidateDiskSize ''20G'' = None"
    by (simp_all add: demo_names_valid ValidateResourceLimits_def MinCPUs_def MaxCPUs_def MinMemory_def MaxMemory_def
        ValidateDiskSize_def Atoi_def parse_digits_def dec_val_def digit_val_def go_eval)
  then show ?thesis
    by (simp add: Instance_Validate_def demo_instance_def DefaultInstance_def validateHTTPConfig_def ValidateLogLevel_def
        ValidateSecretInjections_def ValidateMITMExceptions_def validateStorageDir_def DefaultHTTPMaxConnections_def)
qed

lemma demo_loaded: "\<exists>p. Config_Load demo_env demo_disk ''dev'' = Inr (demo_instance, p)"
proof -
  obtain p where p: "GetPaths mock_fs demo_proc demo_disk ''dev'' = Inr p" "p_Config p = ''/data/abox/instances/dev/config.yaml''"
    using demo_disk_paths(1) by blast
  have "ReadFile mock_fs demo_disk ''/data/abox/instances/dev/config.yaml'' = Inr ''i''"
    by (simp add: demo_disk_def demo_fs_def mock_defs)
  then show ?thesis
    using p demo_instance_valid
    by (simp add: Config_Load_def demo_env_def demo_yaml_def CheckVersion_def CurrentInstanceVersion_def)
      (simp add: demo_instance_def DefaultInstance_def CurrentInstanceVersion_def)
qed

lemma demo_listed: "Config_List demo_env demo_disk = Inr [''dev'']"
proof -
  obtain p where p: "GetPaths mock_fs demo_proc demo_disk [] = Inr p" "p_Instances p = ''/data/abox/instances''"
    using demo_disk_paths(2) by blast
  have "filepath_Join [''/data/abox/instances'', ''dev'', ''config.yaml''] = ''/data/abox/instances/dev/config.yaml''"
    by (simp add: path_eval)
  moreover have "ReadDir mock_fs demo_disk ''/data/abox/instances'' = Inr [\<lparr>de_Name = ''dev'', de_IsDir = True\<rparr>]"
    "Stat mock_fs demo_disk ''/data/abox/instances/dev/config.yaml'' = Inr (mockFileInfo False)"
    by (simp_all add: demo_disk_def demo_fs_def mock_defs)
  ultimately show ?thesis
    using p by (simp add: Config_List_def demo_env_def has_config_def)
qed


theorem ValidateSubnet_alias_witness:
  "i_Subnet demo_instance = v4_string [10, 10, 10, 0] @ ''/24''
   \<and> ValidateSubnet demo_env demo_disk (v4_string [10, 10, 10, 0] @ ''/024'') = Inr (gateway_of 10 10 10, 10)"
proof -
  obtain p where p: "Config_Load demo_env demo_disk ''dev'' = Inr (demo_instance, p)" using demo_loaded by blast
  have i: "i_Subnet demo_instance = v4_string [10, 10, 10, 0] @ ''/24''" by (simp add: demo_instance_def)
  show ?thesis
    using ValidateSubnet_alias [OF demo_listed _ p i] p i by auto
qed

section \<open>The lock between processes\<close>

text \<open>The runs of any number of processes: each step lets one process make its next system call on the lock file,
  with any result, or call \<open>AcquireLock\<close> or \<open>ReleaseLock\<close> again, or end (when the kernel closes its files).\<close>

definition exit_process :: "nat \<Rightarrow> lock_world \<Rightarrow> lock_world" where
  "exit_process p w =
     w\<lparr>lw_file := (lw_file w)(p := None), lw_open := (lw_open w)(p := {}), lw_pc := (lw_pc w)(p := Returned None),
       lw_owner := (case lw_owner w of Some (q, fd) \<Rightarrow> if q = p then None else lw_owner w | None \<Rightarrow> None)\<rparr>"

definition no_lock :: lock_world where
  "no_lock = \<lparr>lw_file = (\<lambda>_. None), lw_open = (\<lambda>_. {}), lw_owner = None, lw_pc = (\<lambda>_. Returned None)\<rparr>"

inductive lock_step :: "lock_world \<Rightarrow> lock_world \<Rightarrow> bool" where
  step_open: "lw_pc w p = Returned r \<Longrightarrow> lock_step w (acquire_open p io w)"
| step_flock: "acquire_flock p io w = Some w' \<Longrightarrow> lock_step w w'"
| step_return: "lock_step w (acquire_return p w)"
| step_unlock: "lw_pc w p = Returned r \<Longrightarrow> lock_step w (release_unlock p io w)"
| step_close: "lock_step w (release_close p io w)"
| step_exit: "lock_step w (exit_process p w)"

inductive_cases lock_stepE [elim!]: "lock_step w w'"

inductive lock_reach :: "lock_world \<Rightarrow> bool" where
  lock_init: "lock_reach no_lock"
| lock_more: "lock_reach w \<Longrightarrow> lock_step w w' \<Longrightarrow> lock_reach w'"

text \<open>What the world holds of one process: its variable, its open descriptors, and the descriptor through which it
  holds the \<open>flock\<close>, according to where it stands.\<close>

definition owned :: "lock_world \<Rightarrow> nat \<Rightarrow> nat option" where
  "owned w p = (case lw_owner w of Some (q, fd) \<Rightarrow> if q = p then Some fd else None | None \<Rightarrow> None)"

primrec proc_ok :: "lock_pc \<Rightarrow> nat option \<Rightarrow> nat set \<Rightarrow> nat option \<Rightarrow> bool" where
  "proc_ok (Returned r) f ds ow \<longleftrightarrow> ds = set_option f \<and> ow = f"
| "proc_ok (InFlock fd) f ds ow \<longleftrightarrow> f = None \<and> ds = {fd} \<and> ow = None"
| "proc_ok (FlockFailed fd e) f ds ow \<longleftrightarrow> f = None \<and> ds = {fd} \<and> ow = None"
| "proc_ok (FlockHeld fd) f ds ow \<longleftrightarrow> f = None \<and> ds = {fd} \<and> ow = Some fd"
| "proc_ok (Unlocked fd) f ds ow \<longleftrightarrow> f = Some fd \<and> ds = {fd} \<and> ow = None"
| "proc_ok (UnlockFailed fd e) f ds ow \<longleftrightarrow> f = Some fd \<and> ds = {fd} \<and> ow = Some fd"

definition lock_inv :: "lock_world \<Rightarrow> bool" where
  "lock_inv w \<longleftrightarrow> (\<forall>p. proc_ok (lw_pc w p) (lw_file w p) (lw_open w p) (owned w p))"

lemma lock_inv_proc: "lock_inv w \<Longrightarrow> proc_ok (lw_pc w p) (lw_file w p) (lw_open w p) (owned w p)"
  by (simp add: lock_inv_def)

lemma lock_inv_local:
  assumes "lock_inv w"
    and "proc_ok (lw_pc w p) (lw_file w p) (lw_open w p) (owned w p) \<Longrightarrow> proc_ok (lw_pc w' p) (lw_file w' p) (lw_open w' p) (owned w' p)"
    and "\<And>q. q \<noteq> p \<Longrightarrow> lw_pc w' q = lw_pc w q \<and> lw_file w' q = lw_file w q \<and> lw_open w' q = lw_open w q \<and> owned w' q = owned w q"
  shows "lock_inv w'"
  unfolding lock_inv_def using assms by (metis lock_inv_def)

lemma owned_iff: "owned w p = Some fd \<longleftrightarrow> lw_owner w = Some (p, fd)"
  by (auto simp: owned_def split: option.splits if_splits)

lemmas lock_defs = at_pc_def close_fd_def owned_def

lemma inv_open: "lock_inv w \<Longrightarrow> lw_pc w p = Returned r \<Longrightarrow> lock_inv (acquire_open p io w)"
  by (erule lock_inv_local [where p = p])
     (auto simp: acquire_open_def lock_defs split: option.splits sum.splits if_splits)

lemma inv_flock:
  assumes "lock_inv w" and "acquire_flock p io w = Some w'"
  shows "lock_inv w'"
proof (cases "lw_pc w p")
  case (InFlock fd)
  then show ?thesis
    using assms by (intro lock_inv_local [OF assms(1), where p = p])
      (auto simp: acquire_flock_def lock_defs split: option.splits if_splits)
qed (use assms in \<open>simp_all add: acquire_flock_def\<close>)

lemma inv_return: "lock_inv w \<Longrightarrow> lock_inv (acquire_return p w)"
  by (erule lock_inv_local [where p = p])
     (auto simp: acquire_return_def lock_defs split: option.splits if_splits lock_pc.splits)

lemma inv_unlock: "lock_inv w \<Longrightarrow> lw_pc w p = Returned r \<Longrightarrow> lock_inv (release_unlock p io w)"
  by (erule lock_inv_local [where p = p])
     (auto simp: release_unlock_def lock_defs split: option.splits if_splits)

lemma inv_close: "lock_inv w \<Longrightarrow> lock_inv (release_close p io w)"
  by (erule lock_inv_local [where p = p])
     (auto simp: release_close_def lock_defs split: option.splits if_splits lock_pc.splits)

lemma inv_exit: "lock_inv w \<Longrightarrow> lock_inv (exit_process p w)"
  by (erule lock_inv_local [where p = p])
     (auto simp: exit_process_def owned_def split: option.splits if_splits)

lemma lock_reach_inv: "lock_reach w \<Longrightarrow> lock_inv w"
proof (induction rule: lock_reach.induct)
  case lock_init
  then show ?case by (simp add: lock_inv_def no_lock_def owned_def)
next
  case (lock_more w w')
  then show ?case by (auto intro: inv_open inv_flock inv_return inv_unlock inv_close inv_exit)
qed

text \<open>A process is in the section the lock protects when \<open>AcquireLock\<close> has succeeded and \<open>ReleaseLock\<close> has not
  been called since.\<close>

definition in_section :: "lock_world \<Rightarrow> nat \<Rightarrow> bool" where
  "in_section w p \<longleftrightarrow> lw_file w p \<noteq> None \<and> (\<exists>r. lw_pc w p = Returned r)"

lemma section_owner:
  assumes "lock_inv w" and "in_section w p"
  obtains fd where "lw_file w p = Some fd" "lw_owner w = Some (p, fd)" "lw_open w p = {fd}"
  using lock_inv_proc [OF assms(1), of p] assms(2) by (auto simp: in_section_def owned_iff)

lemma ReleaseLock_world:
  assumes "lock_inv w" and "in_section w p"
  shows "lw_file (ReleaseLock p io w) = (lw_file w)(p := None) \<and> lw_open (ReleaseLock p io w) = (lw_open w)(p := {})
    \<and> lw_owner (ReleaseLock p io w) = None \<and> (\<exists>r. lw_pc (ReleaseLock p io w) = (lw_pc w)(p := Returned r))"
proof -
  obtain fd where "lw_file w p = Some fd" "lw_owner w = Some (p, fd)" "lw_open w p = {fd}"
    using section_owner [OF assms] .
  then show ?thesis
    by (auto simp: ReleaseLock_def release_unlock_def release_close_def at_pc_def close_fd_def split: option.splits)
qed

lemma flock_granted:
  assumes "lw_pc w q = InFlock fd" and "lw_owner w = None" and "io_flock io = None"
  shows "\<exists>w'. acquire_flock q io w = Some w' \<and> in_section (acquire_return q w') q"
  using assms by (simp add: acquire_flock_def acquire_return_def at_pc_def in_section_def)

lemma AcquireLock_granted:
  assumes "lw_file w q = None" and "lw_owner w = None"
    and "io_base io = None" and "io_mkdir io = None" and "io_open io = Inr fd" and "io_flock io = None"
  shows "\<exists>w'. AcquireLock q io w = Some w' \<and> in_section w' q"
  using assms by (simp add: AcquireLock_def acquire_open_def acquire_flock_def acquire_return_def at_pc_def in_section_def)

text \<open>
  C23 (invariant). The creation lock excludes. However the system calls of the processes interleave and whatever they
  return: at most one process is in the section between \<open>AcquireLock\<close> and \<open>ReleaseLock\<close>; while one is, a process that
  has opened the lock file and waits in \<open>flock\<close> stays there, unless the call fails; a process between two
  calls of the interface has a descriptor of the lock file open only when it is in the section, so failed calls leak
  none; and the holder's \<open>ReleaseLock\<close>, even when unlocking or closing fails, leaves the lock free and its file
  closed: a waiting process whose \<open>flock\<close> does not fail enters the section, and so does one that calls \<open>AcquireLock\<close> with
  system calls that succeed.
\<close>

theorem lock_excludes:
  assumes "lock_reach w"
  shows "(\<forall>p q. in_section w p \<and> in_section w q \<longrightarrow> p = q)
    \<and> (\<forall>p q fd io. in_section w p \<and> lw_pc w q = InFlock fd \<and> io_flock io = None \<longrightarrow> acquire_flock q io w = None)
    \<and> (\<forall>p r. lw_pc w p = Returned r \<and> \<not> in_section w p \<longrightarrow> lw_open w p = {})
    \<and> (\<forall>p io. in_section w p \<longrightarrow>
        lw_open (ReleaseLock p io w) p = {} \<and> \<not> in_section (ReleaseLock p io w) p
        \<and> (\<forall>q fd io'. lw_pc w q = InFlock fd \<and> io_flock io' = None \<longrightarrow>
             (\<exists>w'. acquire_flock q io' (ReleaseLock p io w) = Some w' \<and> in_section (acquire_return q w') q))
        \<and> (\<forall>q r fd io'. lw_pc w q = Returned r \<and> io_base io' = None \<and> io_mkdir io' = None \<and> io_open io' = Inr fd \<and> io_flock io' = None \<longrightarrow>
             (\<exists>w'. AcquireLock q io' (ReleaseLock p io w) = Some w' \<and> in_section w' q)))"
proof -
  have i: "lock_inv w" using assms by (rule lock_reach_inv)
  have u: "p = q" if "in_section w p" "in_section w q" for p q
    using section_owner [OF i that(1)] section_owner [OF i that(2)] by (metis option.inject prod.inject)
  have blocked: "acquire_flock q io w = None" if "in_section w p" "lw_pc w q = InFlock fd" "io_flock io = None" for p q fd io
    by (rule section_owner [OF i that(1)]) (simp add: acquire_flock_def that(2,3))
  have idle: "lw_open w p = {}" if "lw_pc w p = Returned r" "\<not> in_section w p" for p r
    using lock_inv_proc [OF i, of p] that by (auto simp: in_section_def)
  have rel: "lw_open (ReleaseLock p io w) p = {}" "\<not> in_section (ReleaseLock p io w) p"
    if "in_section w p" for p io
    using ReleaseLock_world [OF i that, of io] by (auto simp: in_section_def)
  have waiting: "\<exists>w'. acquire_flock q io' (ReleaseLock p io w) = Some w' \<and> in_section (acquire_return q w') q"
    if "in_section w p" "lw_pc w q = InFlock fd" "io_flock io' = None" for p q io io' fd
  proof (rule flock_granted [OF _ _ that(3)])
    have "q \<noteq> p" using that by (auto simp: in_section_def)
    then show "lw_pc (ReleaseLock p io w) q = InFlock fd" using ReleaseLock_world [OF i that(1), of io] that(2) by auto
    show "lw_owner (ReleaseLock p io w) = None" using ReleaseLock_world [OF i that(1), of io] by blast
  qed
  have fresh: "\<exists>w'. AcquireLock q io' (ReleaseLock p io w) = Some w' \<and> in_section w' q"
    if "in_section w p" "lw_pc w q = Returned r" "io_base io' = None" "io_mkdir io' = None" "io_open io' = Inr fd" "io_flock io' = None"
    for p q r io io' fd
  proof (rule AcquireLock_granted [OF _ _ that(3-6)])
    have "lw_file w q = None" if "q \<noteq> p"
      using u [OF \<open>in_section w p\<close>, of q] that \<open>lw_pc w q = Returned r\<close> by (cases "lw_file w q") (auto simp: in_section_def)
    then show "lw_file (ReleaseLock p io w) q = None" using ReleaseLock_world [OF i that(1), of io] by auto
    show "lw_owner (ReleaseLock p io w) = None" using ReleaseLock_world [OF i that(1), of io] by blast
  qed
  show ?thesis by (intro conjI allI impI; (elim conjE)?) (fact u blocked idle rel waiting fresh)+
qed

text \<open>In the witness process 1 holds the lock and process 2 waits with the file open; unlocking fails, and 2 enters.\<close>

definition demo_io :: lock_io where
  "demo_io = \<lparr>io_base = None, io_mkdir = None, io_open = Inr 3, io_flock = None, io_unlock = Some (ErrOther ''EIO''), io_close = None\<rparr>"

definition demo_locked :: lock_world where
  "demo_locked = acquire_open 2 demo_io (acquire_return 1 (the (acquire_flock 1 demo_io (acquire_open 1 demo_io no_lock))))"

lemmas demo_lock_eval = demo_locked_def demo_io_def no_lock_def acquire_open_def acquire_flock_def acquire_return_def at_pc_def

theorem lock_excludes_witness:
  "lock_reach demo_locked \<and> in_section demo_locked 1 \<and> lw_pc demo_locked 2 = InFlock 3 \<and> acquire_flock 2 demo_io demo_locked = None
   \<and> (\<exists>w'. acquire_flock 2 demo_io (ReleaseLock 1 demo_io demo_locked) = Some w' \<and> in_section (acquire_return 2 w') 2)"
proof -
  have "acquire_flock 1 demo_io (acquire_open 1 demo_io no_lock) = Some (the (acquire_flock 1 demo_io (acquire_open 1 demo_io no_lock)))"
    by (simp add: demo_lock_eval)
  note s2 = step_flock [OF this]
  have s1: "lock_step no_lock (acquire_open 1 demo_io no_lock)" by (rule step_open [of _ _ None]) (simp add: no_lock_def)
  have s4: "lock_step (acquire_return 1 (the (acquire_flock 1 demo_io (acquire_open 1 demo_io no_lock)))) demo_locked"
    unfolding demo_locked_def by (rule step_open [of _ _ None]) (simp add: demo_lock_eval)
  have r: "lock_reach demo_locked"
    by (rule lock_more [OF lock_more [OF lock_more [OF lock_more [OF lock_init s1] s2] step_return] s4])
  have s: "in_section demo_locked 1" "lw_pc demo_locked 2 = InFlock 3" "io_flock demo_io = None"
    by (simp_all add: in_section_def demo_lock_eval)
  show ?thesis using r s lock_excludes [OF r] by blast
qed

end
