(* ===== verification/PF_Confined.thy ===== *)
theory PF_Confined
  imports PF_Rules Config_Resources
begin

text \<open>
  What the packet filter does with rules the helper accepted. How \<open>pfctl\<close> splits a text into
  statements is the locale \<open>pf_reader\<close>, with the law for plain texts that the validator relies on; the meaning of a statement is \<open>pf_cond\<close> and
  \<open>pf_verdict\<close>. Whatever text a client sends, an accepted one confines the guest to the shapes of the
  templates, and the text the client generates is accepted.
\<close>

section \<open>The packet filter\<close>

record pf_packet =
  pp_if :: string
  pp_v6 :: bool
  pp_proto :: string
  pp_src :: IP
  pp_dst :: IP
  pp_dport :: nat

definition pf_addr :: "string \<Rightarrow> IP \<Rightarrow> bool" where
  "pf_addr t ip =
     (if t = ''any'' then True
      else (case ParseCIDR t of
              Some n \<Rightarrow> IPNet_Contains n ip
            | None \<Rightarrow> (case ParseIP t of Some a \<Rightarrow> IP_Equal a ip | None \<Rightarrow> False)))"

text \<open>The conditions of a statement, for the keywords of the templates. A statement with an address matches only
  packets of the family of the address; all addresses of the templates are IPv4.\<close>

fun pf_cond :: "string list \<Rightarrow> pf_packet \<Rightarrow> bool" where
  "pf_cond [] p = True"
| "pf_cond (k # r) p =
     (if k = ''inet6'' then pp_v6 p \<and> pf_cond r p
      else if k = ''all'' then pf_cond r p
      else if k = ''->'' then True
      else (case r of
              [] \<Rightarrow> False
            | v # r' \<Rightarrow>
                if k = ''on'' then pp_if p = v \<and> pf_cond r' p
                else if k = ''proto'' then pp_proto p = v \<and> pf_cond r' p
                else if k = ''port'' then Itoa (pp_dport p) = v \<and> pf_cond r' p
                else if k = ''to'' then pf_addr v (pp_dst p) \<and> pf_cond r' p
                else if k = ''from'' then
                  \<not> pp_v6 p \<and>
                  (if v = ''!'' then (case r' of [] \<Rightarrow> False | w # r'' \<Rightarrow> \<not> pf_addr w (pp_src p) \<and> pf_cond r'' p)
                   else pf_addr v (pp_src p) \<and> pf_cond r' p)
                else False))"

datatype pf_verdict = PfRedirect string | PfPass | PfBlock | PfNone

fun pf_filter :: "string list list \<Rightarrow> pf_packet \<Rightarrow> pf_verdict" where
  "pf_filter [] p = PfNone"
| "pf_filter (st # ss) p =
     (if take 3 st = [''block'', ''drop'', ''quick''] \<and> pf_cond (drop 3 st) p then PfBlock
      else if take 2 st = [''pass'', ''quick''] \<and> pf_cond (drop 2 st) p then PfPass
      else pf_filter ss p)"

definition pf_eval :: "string list list \<Rightarrow> pf_packet \<Rightarrow> pf_verdict" where
  "pf_eval ss p =
     (case find (\<lambda>st. take 2 st = [''rdr'', ''pass''] \<and> pf_cond (drop 2 st) p) ss of
        Some st \<Rightarrow> PfRedirect (last st)
      | None \<Rightarrow> pf_filter ss p)"

definition is_statement :: "string \<Rightarrow> bool" where
  "is_statement l \<longleftrightarrow> TrimSpace l \<noteq> [] \<and> \<not> HasPrefix (TrimSpace l) ''#''"

definition plain_statements :: "string \<Rightarrow> string list list" where
  "plain_statements content = map (\<lambda>l. Fields (TrimSpace l)) (List.filter is_statement (Split content LF))"

definition pf_plain :: "string \<Rightarrow> bool" where
  "pf_plain content \<longleftrightarrow> list_all (\<lambda>c. c = LF \<or> c = CHR '' '' \<or> is_graphic c) content \<and> CHR 0x5C \<notin> set content"

locale pf_reader =
  fixes read :: "string \<Rightarrow> string list list"
  assumes plain: "pf_plain content \<Longrightarrow> read content = plain_statements content"

section \<open>The templates\<close>

lemma Fields_Join:
  assumes "list_all (\<lambda>w. w \<noteq> [] \<and> list_all is_graphic w) ws"
  shows "Fields (Join ws '' '') = ws"
  using assms
proof (induction ws "'' ''" rule: Join.induct)
  case 1
  show ?case by (simp add: Fields_def fields_acc_Nil)
next
  case (3 w v ws)
  then show ?case using Fields_Cons [of w "Join (v # ws) '' ''"] by simp
qed (simp add: Fields_single)

lemma template_tokens:
  "terminalDenyTemplate = [''block'', ''drop'', ''quick'', ''from'', ''<cidr>'', ''to'', ''any'']"
  "inet6DenyTemplate = [''block'', ''drop'', ''quick'', ''on'', ''<bridge>'', ''inet6'', ''all'']"
  using Fields_Join [of "[''block'', ''drop'', ''quick'', ''from'', ''<cidr>'', ''to'', ''any'']"]
    Fields_Join [of "[''block'', ''drop'', ''quick'', ''on'', ''<bridge>'', ''inet6'', ''all'']"]
  by (simp_all add: terminalDenyTemplate_def inet6DenyTemplate_def go_eval)


lemma rule_template_tokens:
  "pfRuleTemplates =
     [[''rdr'', ''pass'', ''proto'', ''udp'', ''from'', ''<cidr>'', ''to'', ''any'', ''port'', ''53'', ''->'', ''127.0.0.1'', ''port'', ''<port>''],
      [''rdr'', ''pass'', ''proto'', ''tcp'', ''from'', ''<cidr>'', ''to'', ''any'', ''port'', ''53'', ''->'', ''127.0.0.1'', ''port'', ''<port>''],
      [''block'', ''drop'', ''quick'', ''on'', ''<bridge>'', ''inet6'', ''all''],
      [''pass'', ''quick'', ''proto'', ''tcp'', ''from'', ''<cidr>'', ''to'', ''<gw>'', ''port'', ''<port>''],
      [''pass'', ''quick'', ''proto'', ''icmp'', ''from'', ''<cidr>'', ''to'', ''<gw>''],
      [''pass'', ''quick'', ''proto'', ''tcp'', ''from'', ''<gw>'', ''to'', ''<cidr>'', ''port'', ''22''],
      [''block'', ''drop'', ''quick'', ''proto'', ''tcp'', ''from'', ''!'', ''<cidr>'', ''to'', ''any'', ''port'', ''<port>''],
      [''block'', ''drop'', ''quick'', ''from'', ''<cidr>'', ''to'', ''any'']]"
  using Fields_Join [of "[''rdr'', ''pass'', ''proto'', ''udp'', ''from'', ''<cidr>'', ''to'', ''any'', ''port'', ''53'', ''->'', ''127.0.0.1'', ''port'', ''<port>'']"]
    Fields_Join [of "[''rdr'', ''pass'', ''proto'', ''tcp'', ''from'', ''<cidr>'', ''to'', ''any'', ''port'', ''53'', ''->'', ''127.0.0.1'', ''port'', ''<port>'']"]
    Fields_Join [of "[''pass'', ''quick'', ''proto'', ''tcp'', ''from'', ''<cidr>'', ''to'', ''<gw>'', ''port'', ''<port>'']"]
    Fields_Join [of "[''pass'', ''quick'', ''proto'', ''icmp'', ''from'', ''<cidr>'', ''to'', ''<gw>'']"]
    Fields_Join [of "[''pass'', ''quick'', ''proto'', ''tcp'', ''from'', ''<gw>'', ''to'', ''<cidr>'', ''port'', ''22'']"]
    Fields_Join [of "[''block'', ''drop'', ''quick'', ''proto'', ''tcp'', ''from'', ''!'', ''<cidr>'', ''to'', ''any'', ''port'', ''<port>'']"]
  by (simp add: pfRuleTemplates_def template_tokens go_eval)

definition port_token :: "string \<Rightarrow> bool" where
  "port_token x \<longleftrightarrow> (\<exists>n. x = Itoa n \<and> 1024 \<le> n \<and> n \<le> 65535)"

lemma validatePFToken_port: "validatePFToken ''<port>'' x cidr gw \<longleftrightarrow> port_token x"
proof
  assume "validatePFToken ''<port>'' x cidr gw"
  then obtain n where "Itoa_int n = x" "1024 \<le> n" "n \<le> 65535"
    by (auto simp: validatePFToken_def tokCIDR_def tokGw_def tokBridge_def tokPort_def pf_ValidatePort_def split: option.splits if_splits)
  then show "port_token x" unfolding port_token_def Itoa_int_def by (intro exI [of _ "nat n"]) auto
next
  assume "port_token x"
  then obtain n where "x = Itoa n" "1024 \<le> n" "n \<le> 65535" by (auto simp: port_token_def)
  then show "validatePFToken ''<port>'' x cidr gw"
    by (simp add: validatePFToken_def tokCIDR_def tokGw_def tokBridge_def tokPort_def pf_ValidatePort_def Atoi_Itoa Itoa_int_def)
qed

lemma validatePFToken_other:
  "validatePFToken ''<cidr>'' x cidr gw \<longleftrightarrow> x = cidr" "validatePFToken ''<gw>'' x cidr gw \<longleftrightarrow> x = gw"
  "validatePFToken ''<bridge>'' x cidr gw \<longleftrightarrow> MatchBridgeName x"
  by (simp_all add: validatePFToken_def tokCIDR_def tokGw_def tokBridge_def tokPort_def)

lemmas token_eval = validatePFToken_port validatePFToken_other is_placeholder_def tokCIDR_def tokGw_def tokBridge_def tokPort_def

text \<open>The statements the validator accepts.\<close>

inductive accepted :: "string \<Rightarrow> string \<Rightarrow> string list \<Rightarrow> bool" for cidr gw where
  redirect: "q = ''udp'' \<or> q = ''tcp'' \<Longrightarrow> port_token x \<Longrightarrow>
    accepted cidr gw [''rdr'', ''pass'', ''proto'', q, ''from'', cidr, ''to'', ''any'', ''port'', ''53'', ''->'', ''127.0.0.1'', ''port'', x]"
| inet6: "MatchBridgeName b \<Longrightarrow> accepted cidr gw [''block'', ''drop'', ''quick'', ''on'', b, ''inet6'', ''all'']"
| proxy: "port_token x \<Longrightarrow> accepted cidr gw [''pass'', ''quick'', ''proto'', ''tcp'', ''from'', cidr, ''to'', gw, ''port'', x]"
| icmp: "accepted cidr gw [''pass'', ''quick'', ''proto'', ''icmp'', ''from'', cidr, ''to'', gw]"
| ssh: "accepted cidr gw [''pass'', ''quick'', ''proto'', ''tcp'', ''from'', gw, ''to'', cidr, ''port'', ''22'']"
| proxy_deny: "port_token x \<Longrightarrow>
    accepted cidr gw [''block'', ''drop'', ''quick'', ''proto'', ''tcp'', ''from'', ''!'', cidr, ''to'', ''any'', ''port'', x]"
| deny: "accepted cidr gw [''block'', ''drop'', ''quick'', ''from'', cidr, ''to'', ''any'']"

lemma match_Cons:
  "matchPFTemplate st (t # ts) cidr gw \<longleftrightarrow>
     (\<exists>v vs. st = v # vs \<and> (if is_placeholder t then validatePFToken t v cidr gw else v = t) \<and> matchPFTemplate vs ts cidr gw)"
  "matchPFTemplate st [] cidr gw \<longleftrightarrow> st = []"
  by (auto simp: matchPFTemplate_def list_all2_Cons2 list_all2_lengthD)

lemma accepted_iff: "list_ex (\<lambda>t. matchPFTemplate st t cidr gw) pfRuleTemplates \<longleftrightarrow> accepted cidr gw st"
proof
  assume "list_ex (\<lambda>t. matchPFTemplate st t cidr gw) pfRuleTemplates"
  then show "accepted cidr gw st" unfolding rule_template_tokens
    by (auto simp: match_Cons token_eval intro: accepted.intros)
next
  assume "accepted cidr gw st"
  then show "list_ex (\<lambda>t. matchPFTemplate st t cidr gw) pfRuleTemplates" unfolding rule_template_tokens
    by cases (auto simp: match_Cons token_eval)
qed

section \<open>The scan\<close>

definition good_line :: "string \<Rightarrow> string \<Rightarrow> string \<Rightarrow> bool" where
  "good_line cidr gw l \<longleftrightarrow>
     (is_statement l \<longrightarrow> list_all pf_char (TrimSpace l) \<and> accepted cidr gw (Fields (TrimSpace l)))"

abbreviation deny_tokens :: "string \<Rightarrow> string list" where
  "deny_tokens cidr \<equiv> [''block'', ''drop'', ''quick'', ''from'', cidr, ''to'', ''any'']"

definition inet6_tokens :: "string list \<Rightarrow> bool" where
  "inet6_tokens st \<longleftrightarrow> (\<exists>b. MatchBridgeName b \<and> st = [''block'', ''drop'', ''quick'', ''on'', b, ''inet6'', ''all''])"

definition allow_line :: "string \<Rightarrow> bool" where
  "allow_line l \<longleftrightarrow> HasPrefix (TrimSpace l) ''rdr '' \<or> HasPrefix (TrimSpace l) ''pass ''"

definition scanned :: "string \<Rightarrow> string list \<Rightarrow> pfRuleScan \<Rightarrow> pfRuleScan" where
  "scanned cidr ls sc =
     (let ss = List.filter is_statement ls in
      \<lparr>sc_matched = (sc_matched sc \<or> ss \<noteq> []),
       sc_terminalDeny = (sc_terminalDeny sc \<or> list_ex (\<lambda>l. Fields (TrimSpace l) = deny_tokens cidr) ss),
       sc_inet6Deny = (sc_inet6Deny sc \<or> list_ex (\<lambda>l. inet6_tokens (Fields (TrimSpace l))) ss),
       sc_allow = (sc_allow sc \<or> list_ex allow_line ss)\<rparr>)"

lemma match_deny: "matchPFTemplate st terminalDenyTemplate cidr gw \<longleftrightarrow> st = deny_tokens cidr"
  unfolding template_tokens by (auto simp: match_Cons token_eval)

lemma match_inet6: "matchPFTemplate st inet6DenyTemplate cidr gw \<longleftrightarrow> inet6_tokens st"
  unfolding template_tokens inet6_tokens_def by (auto simp: match_Cons token_eval)

lemma scan_line_iff:
  "scan_line i l cidr gw sc = Inr sc' \<longleftrightarrow> good_line cidr gw l \<and> sc' = scanned cidr [l] sc"
proof (cases "is_statement l")
  case False
  then show ?thesis by (auto simp: scan_line_def Let_def is_statement_def good_line_def scanned_def)
next
  case True
  then have s: "TrimSpace l \<noteq> []" "\<not> HasPrefix (TrimSpace l) ''#''" by (auto simp: is_statement_def)
  have h: "\<not> pf_char CHR ''#''" by (simp add: pf_char_def go_eval)
  have "find (\<lambda>c. \<not> pf_char c) (TrimSpace l) = None \<longleftrightarrow> list_all pf_char (TrimSpace l)"
    by (auto simp: find_None_iff list_all_iff)
  then have v: "validatePFRuleLine i (TrimSpace l) cidr gw = None \<longleftrightarrow> list_all pf_char (TrimSpace l) \<and> accepted cidr gw (Fields (TrimSpace l))"
    by (cases "find (\<lambda>c. \<not> pf_char c) (TrimSpace l)") (auto simp: validatePFRuleLine_def accepted_iff)
  show ?thesis
  proof (cases "CHR ''#'' \<in> set (TrimSpace l)")
    case True
    then have "\<not> list_all pf_char (TrimSpace l)" using h by (auto simp: list_all_iff)
    then show ?thesis using True s \<open>is_statement l\<close> by (auto simp: scan_line_def Let_def good_line_def)
  next
    case False
    then show ?thesis
      using s v \<open>is_statement l\<close>
      by (cases "validatePFRuleLine i (TrimSpace l) cidr gw")
        (auto simp: scan_line_def Let_def good_line_def scanned_def match_deny match_inet6 allow_line_def)
  qed
qed

lemma scan_from_iff:
  "scan_from i ls cidr gw sc = Inr sc' \<longleftrightarrow> (\<forall>l \<in> set ls. good_line cidr gw l) \<and> sc' = scanned cidr ls sc"
proof (induction ls arbitrary: i sc)
  case Nil
  show ?case by (auto simp: scanned_def)
next
  case (Cons l ls)
  have "scanned cidr ls (scanned cidr [l] sc) = scanned cidr (l # ls) sc" by (auto simp: scanned_def Let_def)
  note m = this
  show ?case
  proof (cases "scan_line i l cidr gw sc")
    case (Inl e)
    then have "\<not> good_line cidr gw l" using scan_line_iff [of i l cidr gw sc "scanned cidr [l] sc"] by simp
    then show ?thesis using Inl by simp
  next
    case (Inr b)
    then have "good_line cidr gw l" "b = scanned cidr [l] sc" using scan_line_iff by blast+
    then show ?thesis using Inr Cons.IH m by simp
  qed
qed

lemma validatePFRules_iff:
  "validatePFRules content subnet = None \<longleftrightarrow>
     TrimSpace content \<noteq> [] \<and> char_of (0::nat) \<notin> set content
     \<and> (\<exists>n g. ParseSubnet24 subnet = Inr (n, g)
         \<and> (let cidr = IPNet_String n; gw = IP_String g; ls = Split content LF; ss = List.filter is_statement ls in
            (\<forall>l \<in> set ls. good_line cidr gw l)
            \<and> list_ex (\<lambda>l. Fields (TrimSpace l) = deny_tokens cidr) ss
            \<and> (list_ex allow_line ss \<longrightarrow> list_ex (\<lambda>l. inet6_tokens (Fields (TrimSpace l))) ss)))"
proof (cases "ParseSubnet24 subnet")
  case (Inl e)
  then show ?thesis by (simp add: validatePFRules_def subnetTokens_def)
next
  case (Inr r)
  obtain n g where r: "r = (n, g)" by fastforce
  let ?c = "IPNet_String n" and ?ls = "Split content LF"
  show ?thesis
  proof (cases "scanPFRuleLines content ?c (IP_String g)")
    case (Inl e)
    then have "\<not> (\<forall>l \<in> set ?ls. good_line ?c (IP_String g) l)"
      unfolding scanPFRuleLines_def using scan_from_iff [of 1 ?ls ?c "IP_String g"] by (metis Inr_Inl_False)
    then show ?thesis using Inl Inr r by (auto simp: validatePFRules_def subnetTokens_def Let_def)
  next
    case (Inr sc)
    note S = this
    have g: "\<forall>l \<in> set ?ls. good_line ?c (IP_String g) l"
      "sc = scanned ?c ?ls \<lparr>sc_matched = False, sc_terminalDeny = False, sc_inet6Deny = False, sc_allow = False\<rparr>"
      using S unfolding scanPFRuleLines_def scan_from_iff by auto
    then show ?thesis using S \<open>ParseSubnet24 subnet = Inr r\<close> r
      by (auto simp: validatePFRules_def subnetTokens_def Let_def scanned_def list_ex_iff filter_empty_conv)
  qed
qed

section \<open>The verdict of accepted statements\<close>

lemma IP_Equal_mapped: "IP_Equal (IPv4 a b c d) x = IP_Equal [a, b, c, d] x"
  by (auto simp: IP_Equal_def IPv4_def v4InV6Prefix_def) (metis append_take_drop_id append_Cons append_Nil)

lemma v4_string_word: "v4_string [a, b, c, d] @ t \<noteq> ''any''" "v4_string [a, b, c, d] @ t \<noteq> ''!''"
proof -
  obtain x u where x: "Itoa (unat a) = x # u" by (cases "Itoa (unat a)") auto
  then have "is_digit x" using Itoa_hd_digit [of "unat a"] by simp
  then have "x \<noteq> CHR ''a''" "x \<noteq> CHR ''!''" by (auto simp: go_eval)
  then show "v4_string [a, b, c, d] @ t \<noteq> ''any''" "v4_string [a, b, c, d] @ t \<noteq> ''!''" by (auto simp: v4_string_def x)
qed

lemma pf_addr_subnet:
  assumes "ParseSubnet24 s = Inr (n, g)"
  shows "pf_addr (IPNet_String n) ip = IPNet_Contains n ip" "pf_addr (IP_String g) ip = IP_Equal g ip"
    "IPNet_String n \<noteq> ''!''" "IP_String g \<noteq> ''!''"
proof -
  obtain a b c where r: "n = \<lparr>net_IP = [a, b, c, 0], net_Mask = [255, 255, 255, 0]\<rparr>" "g = [a, b, c, 1]"
    by (rule ParseSubnet24_shape [OF assms])
  have i: "IndexByte (v4_string [a, b, c, 1]) CHR ''/'' = None" using v4_string_no_slash by (simp add: IndexByte_None)
  show "pf_addr (IPNet_String n) ip = IPNet_Contains n ip" "IPNet_String n \<noteq> ''!''"
    using parse_net24(2) [of "''24''" a b c 0] v4_string_word by (simp_all add: r net24_text pf_addr_def)
  show "pf_addr (IP_String g) ip = IP_Equal g ip" "IP_String g \<noteq> ''!''"
    using i v4_string_word [of a b c 1 "[]"] by (simp_all add: r net24_text pf_addr_def ParseCIDR_def ParseIP_v4 IP_Equal_mapped)
qed

definition may_pass :: "IPNet \<Rightarrow> IP \<Rightarrow> pf_packet \<Rightarrow> bool" where
  "may_pass n g p \<longleftrightarrow>
     IPNet_Contains n (pp_src p) \<and> IP_Equal g (pp_dst p)
       \<and> (pp_proto p = ''tcp'' \<and> 1024 \<le> pp_dport p \<and> pp_dport p \<le> 65535 \<or> pp_proto p = ''icmp'')
     \<or> IP_Equal g (pp_src p) \<and> IPNet_Contains n (pp_dst p) \<and> pp_proto p = ''tcp'' \<and> pp_dport p = 22"

definition may_redirect :: "IPNet \<Rightarrow> string \<Rightarrow> pf_packet \<Rightarrow> bool" where
  "may_redirect n x p \<longleftrightarrow>
     IPNet_Contains n (pp_src p) \<and> (pp_proto p = ''udp'' \<or> pp_proto p = ''tcp'') \<and> pp_dport p = 53 \<and> port_token x"

definition may_block :: "IPNet \<Rightarrow> pf_packet \<Rightarrow> bool" where
  "may_block n p \<longleftrightarrow> IPNet_Contains n (pp_src p) \<or> pp_proto p = ''tcp'' \<and> 1024 \<le> pp_dport p \<and> pp_dport p \<le> 65535"

lemma port_token_of: "port_token (Itoa k) \<longleftrightarrow> 1024 \<le> k \<and> k \<le> 65535"
  by (auto simp: port_token_def Itoa_inj)

lemma Itoa_ports: "Itoa k = ''53'' \<longleftrightarrow> k = 53" "Itoa k = ''22'' \<longleftrightarrow> k = 22"
proof -
  have "''53'' = Itoa 53" "''22'' = Itoa 22" by (simp_all add: Itoa.simps char_of_eq_iff eq_char_of_iff)
  then show "Itoa k = ''53'' \<longleftrightarrow> k = 53" "Itoa k = ''22'' \<longleftrightarrow> k = 22" by (simp_all add: Itoa_inj)
qed

lemma stmt_pass:
  assumes "ParseSubnet24 s = Inr (n, g)" "accepted (IPNet_String n) (IP_String g) st"
    and "take 2 st = [''pass'', ''quick'']" "pf_cond (drop 2 st) p"
  shows "may_pass n g p"
  using assms(2,3,4)
  by (cases rule: accepted.cases) (auto simp: pf_addr_subnet [OF assms(1)] may_pass_def port_token_of Itoa_ports split: if_splits)

lemma stmt_block:
  assumes "ParseSubnet24 s = Inr (n, g)" "accepted (IPNet_String n) (IP_String g) st" "\<not> pp_v6 p"
    and "take 3 st = [''block'', ''drop'', ''quick'']" "pf_cond (drop 3 st) p"
  shows "may_block n p"
  using assms(2-5)
  by (cases rule: accepted.cases) (auto simp: pf_addr_subnet [OF assms(1)] may_block_def port_token_of pf_addr_def [of "''any''"] split: if_splits)

lemma stmt_redirect:
  assumes "ParseSubnet24 s = Inr (n, g)" "accepted (IPNet_String n) (IP_String g) st"
    and "take 2 st = [''rdr'', ''pass'']" "pf_cond (drop 2 st) p"
  shows "may_redirect n (last st) p"
  using assms(2-4)
  by (cases rule: accepted.cases) (auto simp: pf_addr_subnet [OF assms(1)] may_redirect_def Itoa_ports split: if_splits)

lemma filter_accepted:
  assumes "ParseSubnet24 s = Inr (n, g)" "\<forall>st \<in> set ss. accepted (IPNet_String n) (IP_String g) st" "\<not> pp_v6 p"
  shows "pf_filter ss p = PfPass \<Longrightarrow> may_pass n g p" "pf_filter ss p = PfBlock \<Longrightarrow> may_block n p" "pf_filter ss p \<noteq> PfRedirect x"
  using assms(2)
  by (induction ss) (auto split: if_splits intro: stmt_pass [OF assms(1)] stmt_block [OF assms(1) _ assms(3)])

lemma filter_denies:
  assumes "ParseSubnet24 s = Inr (n, g)" "deny_tokens (IPNet_String n) \<in> set ss" "\<not> pp_v6 p" "IPNet_Contains n (pp_src p)"
  shows "pf_filter ss p \<noteq> PfNone"
  using assms(2) by (induction ss) (auto simp: pf_addr_subnet [OF assms(1)] assms(3,4) pf_addr_def [of "''any''"])

lemma eval_confined:
  assumes "ParseSubnet24 s = Inr (n, g)" "\<forall>st \<in> set ss. accepted (IPNet_String n) (IP_String g) st"
    and "deny_tokens (IPNet_String n) \<in> set ss" "\<not> pp_v6 p"
  shows "case pf_eval ss p of
      PfRedirect x \<Rightarrow> may_redirect n x p
    | PfPass \<Rightarrow> may_pass n g p
    | PfBlock \<Rightarrow> may_block n p
    | PfNone \<Rightarrow> \<not> IPNet_Contains n (pp_src p)"
proof (cases "find (\<lambda>st. take 2 st = [''rdr'', ''pass''] \<and> pf_cond (drop 2 st) p) ss")
  case None
  then show ?thesis
    using filter_accepted [OF assms(1,2,4)] filter_denies [OF assms(1,3,4)] by (auto simp: pf_eval_def split: pf_verdict.splits)
next
  case (Some st)
  then have "st \<in> set ss" "take 2 st = [''rdr'', ''pass'']" "pf_cond (drop 2 st) p"
    by (auto simp: find_Some_iff)
  then show ?thesis using Some stmt_redirect [OF assms(1)] assms(2) by (simp add: pf_eval_def)
qed

section \<open>Accepted rules confine\<close>

lemma LoadAnchor_validated: "LoadAnchor run inst subnet rules q = (q', None) \<Longrightarrow> validatePFRules rules subnet = None"
  by (auto simp: LoadAnchor_def split: option.splits)

lemma validated_rules_confine:
  assumes "pf_reader read" and "pf_plain rules" and "validatePFRules rules subnet = None"
    and "ParseSubnet24 subnet = Inr (n, g)" and "\<not> pp_v6 p"
  shows "case pf_eval (read rules) p of
      PfRedirect x \<Rightarrow> may_redirect n x p
    | PfPass \<Rightarrow> may_pass n g p
    | PfBlock \<Rightarrow> may_block n p
    | PfNone \<Rightarrow> \<not> IPNet_Contains n (pp_src p)"
proof -
  let ?ss = "List.filter is_statement (Split rules LF)"
  have v: "\<forall>l \<in> set (Split rules LF). good_line (IPNet_String n) (IP_String g) l"
    "list_ex (\<lambda>l. Fields (TrimSpace l) = deny_tokens (IPNet_String n)) ?ss"
    using assms(3,4) by (auto simp: validatePFRules_iff Let_def)
  have r: "read rules = plain_statements rules" by (rule pf_reader.plain [OF assms(1,2)])
  show ?thesis unfolding r
  proof (rule eval_confined [OF assms(4) _ _ assms(5)])
    show "\<forall>st \<in> set (plain_statements rules). accepted (IPNet_String n) (IP_String g) st"
      using v(1) by (auto simp: plain_statements_def good_line_def)
    show "deny_tokens (IPNet_String n) \<in> set (plain_statements rules)"
      using v(2) by (auto simp: plain_statements_def list_ex_iff image_iff) 
  qed
qed

text \<open>C4 (safety). For any rules that consist of printable characters, spaces and newlines without a backslash
  (\<open>pf_plain\<close>), whoever wrote them: once the helper has loaded them for a subnet, an IPv4 packet from the subnet is
  blocked, unless it is redirected to an unprivileged local port as a DNS query or passes to the gateway as ICMP or to an unprivileged port, or is
  the host's own SSH. An IPv4 packet from elsewhere is never passed or redirected, but may be blocked on its way to an unprivileged port.
  The restriction is needed: a comment that ends in a backslash hides the next line from \<open>pf\<close> and not from the
  validator (\<open>hidden_deny\<close>). Nothing is said of IPv6 packets, for which the validator asks no rule.\<close>

theorem loaded_rules_confine:
  assumes "pf_reader read" and "pf_plain rules" and "LoadAnchor run inst subnet rules q = (q', None)"
    and "ParseSubnet24 subnet = Inr (n, g)" and "\<not> pp_v6 p"
  shows "case pf_eval (read rules) p of
      PfRedirect x \<Rightarrow> may_redirect n x p
    | PfPass \<Rightarrow> may_pass n g p
    | PfBlock \<Rightarrow> may_block n p
    | PfNone \<Rightarrow> \<not> IPNet_Contains n (pp_src p)"
  by (rule validated_rules_confine [OF assms(1,2) LoadAnchor_validated [OF assms(3)] assms(4,5)])

section \<open>The generated rules\<close>

definition pf_word :: "string \<Rightarrow> bool" where
  "pf_word w \<longleftrightarrow> w \<noteq> [] \<and> list_all (\<lambda>c. pf_char c \<and> c \<noteq> CHR '' '') w"

lemma pf_char_graphic: "pf_char c \<Longrightarrow> c \<noteq> CHR '' '' \<Longrightarrow> is_graphic c \<and> c \<noteq> CHR ''#'' \<and> c \<noteq> LF \<and> c \<noteq> CHR 0x5C \<and> c \<noteq> char_of (0::nat)"
  by (auto simp: pf_char_def is_lower_def is_upper_def is_digit_def is_graphic_def code_def eq_char_of_iff char_of_eq_iff)

lemma pf_char_plain: "pf_char c \<Longrightarrow> (c = CHR '' '' \<or> is_graphic c) \<and> c \<noteq> LF \<and> c \<noteq> CHR 0x5C \<and> c \<noteq> char_of (0::nat)"
  using pf_char_graphic [of c] by (cases "c = CHR '' ''") (auto simp: eq_char_of_iff)

lemma pf_word_graphic: "pf_word w \<Longrightarrow> w \<noteq> [] \<and> list_all is_graphic w \<and> hd w \<noteq> CHR ''#'' \<and> is_graphic (hd w) \<and> is_graphic (last w)"
  using pf_char_graphic by (auto simp: pf_word_def list_all_iff)

text \<open>A line of words.\<close>

lemma words_line:
  assumes "list_all pf_word ws" "ws \<noteq> []"
  shows "TrimSpace (Join ws '' '') = Join ws '' ''" "Fields (Join ws '' '') = ws" "list_all pf_char (Join ws '' '')" "is_statement (Join ws '' '')"
proof -
  have w: "list_all (\<lambda>w. w \<noteq> [] \<and> list_all is_graphic w) ws" using assms(1) pf_word_graphic by (auto simp: list_all_iff)
  then show "Fields (Join ws '' '') = ws" by (rule Fields_Join)
  have e: "Join ws '' '' \<noteq> [] \<and> hd (Join ws '' '') = hd (hd ws) \<and> last (Join ws '' '') = last (last ws)"
    using assms by (induction ws "'' ''" rule: Join.induct) (auto simp: pf_word_def)
  have h: "pf_word (hd ws)" "pf_word (last ws)" using assms by (auto simp: list_all_iff)
  show t: "TrimSpace (Join ws '' '') = Join ws '' ''"
    by (rule TrimSpace_graphic) (use e pf_word_graphic [OF h(1)] pf_word_graphic [OF h(2)] in simp)
  show "is_statement (Join ws '' '')"
    unfolding is_statement_def t using e pf_word_graphic [OF h(1)] by (cases "Join ws '' ''") auto
  have "set (Join ws '' '') \<subseteq> (\<Union>w \<in> set ws. set w) \<union> {CHR '' ''}" using set_Join [of ws "'' ''"] by simp
  moreover have "pf_char CHR '' ''" by (simp add: pf_char_def)
  ultimately show "list_all pf_char (Join ws '' '')" using assms(1) by (auto simp: list_all_iff pf_word_def)
qed

lemma comment_line: "is_graphic (last l) \<Longrightarrow> \<not> is_statement (CHR ''#'' # l)" if "l \<noteq> []"
proof -
  assume "is_graphic (last l)"
  then have "TrimSpace (CHR ''#'' # l) = CHR ''#'' # l" using that by (intro TrimSpace_graphic) (auto simp: go_eval)
  then show ?thesis by (simp add: is_statement_def)
qed

lemma Split_lines_text: "\<forall>l \<in> set ls. LF \<notin> set l \<Longrightarrow> Split (lines_text ls) LF = ls @ [[]]"
  by (induction ls) (auto simp: lines_text_def Split_append)

lemma not_statement_Nil: "\<not> is_statement []"
  by (simp add: is_statement_def TrimSpace_graphic)

definition instance_statements :: "string \<Rightarrow> string \<Rightarrow> string \<Rightarrow> string \<Rightarrow> string \<Rightarrow> string list list" where
  "instance_statements cidr gw bridge dns http =
     [[''rdr'', ''pass'', ''proto'', ''udp'', ''from'', cidr, ''to'', ''any'', ''port'', ''53'', ''->'', ''127.0.0.1'', ''port'', dns],
      [''rdr'', ''pass'', ''proto'', ''tcp'', ''from'', cidr, ''to'', ''any'', ''port'', ''53'', ''->'', ''127.0.0.1'', ''port'', dns],
      [''block'', ''drop'', ''quick'', ''on'', bridge, ''inet6'', ''all''],
      [''pass'', ''quick'', ''proto'', ''tcp'', ''from'', cidr, ''to'', gw, ''port'', http],
      [''pass'', ''quick'', ''proto'', ''icmp'', ''from'', cidr, ''to'', gw],
      [''pass'', ''quick'', ''proto'', ''tcp'', ''from'', gw, ''to'', cidr, ''port'', ''22''],
      [''block'', ''drop'', ''quick'', ''proto'', ''tcp'', ''from'', ''!'', cidr, ''to'', ''any'', ''port'', http],
      deny_tokens cidr]"

text \<open>The text as comments and lines of words.\<close>

definition doc_lines :: "(string + string list) list \<Rightarrow> string list" where
  "doc_lines ds = map (\<lambda>d. case d of Inl c \<Rightarrow> CHR ''#'' # c | Inr ws \<Rightarrow> Join ws '' '') ds"

definition doc_ok :: "(string + string list) list \<Rightarrow> bool" where
  "doc_ok ds \<longleftrightarrow> (\<forall>d \<in> set ds. case d of
     Inl c \<Rightarrow> c \<noteq> [] \<and> is_graphic (last c) \<and> list_all (\<lambda>x. x = CHR '' '' \<or> is_graphic x \<and> x \<noteq> CHR 0x5C) c
   | Inr ws \<Rightarrow> ws \<noteq> [] \<and> list_all pf_word ws)"

definition doc_statements :: "(string + string list) list \<Rightarrow> string list list" where
  "doc_statements ds = concat (map (\<lambda>d. case d of Inl _ \<Rightarrow> [] | Inr ws \<Rightarrow> [ws]) ds)"

lemma doc_line:
  assumes "doc_ok ds" "l \<in> set (doc_lines ds)"
  shows "list_all (\<lambda>x. (x = CHR '' '' \<or> is_graphic x) \<and> x \<noteq> CHR 0x5C) l"
proof -
  obtain d where d: "d \<in> set ds" "l = (case d of Inl c \<Rightarrow> CHR ''#'' # c | Inr ws \<Rightarrow> Join ws '' '')"
    using assms(2) by (auto simp: doc_lines_def)
  show ?thesis
  proof (cases d)
    case (Inl c)
    then show ?thesis using assms(1) d by (fastforce simp: doc_ok_def list_all_iff go_eval)
  next
    case (Inr ws)
    then have "list_all pf_char l" using assms(1) d words_line(3) by (fastforce simp: doc_ok_def)
    then show ?thesis using pf_char_plain by (auto simp: list_all_iff)
  qed
qed

lemma doc_text:
  assumes "doc_ok ds"
  shows "Split (lines_text (doc_lines ds)) LF = doc_lines ds @ [[]]" "pf_plain (lines_text (doc_lines ds))"
    "plain_statements (lines_text (doc_lines ds)) = doc_statements ds" "char_of (0::nat) \<notin> set (lines_text (doc_lines ds))"
    "\<forall>l \<in> set (doc_lines ds @ [[]]). is_statement l \<longrightarrow> list_all pf_char (TrimSpace l) \<and> Fields (TrimSpace l) \<in> set (doc_statements ds)"
proof -
  note p = doc_line [OF assms, unfolded list_all_iff]
  have "LF \<noteq> CHR '' ''" "\<not> is_graphic LF" "\<not> is_graphic (char_of (0::nat))" "char_of (0::nat) \<noteq> CHR '' ''" "char_of (0::nat) \<noteq> LF"
    by (simp_all add: go_eval)
  note z = this
  show s: "Split (lines_text (doc_lines ds)) LF = doc_lines ds @ [[]]"
    by (rule Split_lines_text) (use p z in metis)
  show "pf_plain (lines_text (doc_lines ds))" "char_of (0::nat) \<notin> set (lines_text (doc_lines ds))"
    using p z by (auto simp: pf_plain_def lines_text_def list_all_iff eq_char_of_iff) 
  have "map (\<lambda>l. Fields (TrimSpace l)) (List.filter is_statement (doc_lines ds)) = doc_statements ds"
    using assms
  proof (induction ds)
    case (Cons d ds)
    then have "map (\<lambda>l. Fields (TrimSpace l)) (List.filter is_statement (doc_lines ds)) = doc_statements ds"
      by (simp add: doc_ok_def)
    then show ?case using Cons.prems comment_line words_line
      by (cases d) (auto simp: doc_ok_def doc_lines_def doc_statements_def)
  qed (simp add: doc_lines_def doc_statements_def)
  then show q: "plain_statements (lines_text (doc_lines ds)) = doc_statements ds"
    by (simp add: plain_statements_def s not_statement_Nil)
  have "list_all pf_char (TrimSpace l)" if "l \<in> set (doc_lines ds)" "is_statement l" for l
    using that assms words_line(1,3) comment_line by (fastforce simp: doc_lines_def doc_ok_def split: sum.splits)
  moreover have "Fields (TrimSpace l) \<in> set (doc_statements ds)" if "l \<in> set (doc_lines ds)" "is_statement l" for l
    using that by (auto simp: q [symmetric] plain_statements_def s)
  ultimately show "\<forall>l \<in> set (doc_lines ds @ [[]]). is_statement l \<longrightarrow> list_all pf_char (TrimSpace l) \<and> Fields (TrimSpace l) \<in> set (doc_statements ds)"
    using not_statement_Nil by auto
qed

definition instance_doc :: "string \<Rightarrow> string \<Rightarrow> string \<Rightarrow> string \<Rightarrow> string \<Rightarrow> (string + string list) list" where
  "instance_doc cidr gw bridge dns http =
     [Inl ('' abox instance traffic rules for '' @ cidr), Inl '' DNS redirect (VM queries to any :53 -> local dnsfilter)'',
      Inr [''rdr'', ''pass'', ''proto'', ''udp'', ''from'', cidr, ''to'', ''any'', ''port'', ''53'', ''->'', ''127.0.0.1'', ''port'', dns],
      Inr [''rdr'', ''pass'', ''proto'', ''tcp'', ''from'', cidr, ''to'', ''any'', ''port'', ''53'', ''->'', ''127.0.0.1'', ''port'', dns],
      Inl ('' Block all IPv6 on this VM'' @ [char_of (39::nat)] @ ''s bridge (vmnet has no flag to disable NAT66)''),
      Inr [''block'', ''drop'', ''quick'', ''on'', bridge, ''inet6'', ''all''],
      Inl '' Allowlisted outbound'',
      Inr [''pass'', ''quick'', ''proto'', ''tcp'', ''from'', cidr, ''to'', gw, ''port'', http],
      Inr [''pass'', ''quick'', ''proto'', ''icmp'', ''from'', cidr, ''to'', gw],
      Inl '' Allow host->guest SSH; the reply (subnet->gateway) is admitted by pf state'',
      Inr [''pass'', ''quick'', ''proto'', ''tcp'', ''from'', gw, ''to'', cidr, ''port'', ''22''],
      Inl '' Deny inbound to the HTTP proxy from anything outside the instance subnet'',
      Inr [''block'', ''drop'', ''quick'', ''proto'', ''tcp'', ''from'', ''!'', cidr, ''to'', ''any'', ''port'', http],
      Inl '' Default deny: everything else from the VM is dropped'',
      Inr (deny_tokens cidr)]"

lemma instance_doc_text:
  "BuildInstanceRules subnet gw bridge dns http = lines_text (doc_lines (instance_doc subnet gw bridge (Itoa_int dns) (Itoa_int http)))"
  "doc_statements (instance_doc subnet gw bridge x y) = instance_statements subnet gw bridge x y"
  by (simp_all add: BuildInstanceRules_def doc_lines_def instance_doc_def doc_statements_def instance_statements_def)

lemma instance_doc_ok:
  assumes "pf_word cidr" "pf_word gw" "pf_word bridge" "pf_word dns" "pf_word http" "CHR 0x5C \<notin> set cidr"
  shows "doc_ok (instance_doc cidr gw bridge dns http)"
proof -
  have w: "pf_word ''rdr'' \<and> pf_word ''pass'' \<and> pf_word ''proto'' \<and> pf_word ''udp'' \<and> pf_word ''tcp'' \<and> pf_word ''icmp'' \<and> pf_word ''from''
      \<and> pf_word ''to'' \<and> pf_word ''any'' \<and> pf_word ''port'' \<and> pf_word ''53'' \<and> pf_word ''->'' \<and> pf_word ''127.0.0.1'' \<and> pf_word ''block''
      \<and> pf_word ''drop'' \<and> pf_word ''quick'' \<and> pf_word ''on'' \<and> pf_word ''inet6'' \<and> pf_word ''all'' \<and> pf_word ''22'' \<and> pf_word ''!''"
    by (simp add: pf_word_def pf_char_def go_eval)
  have c: "cidr \<noteq> []" "is_graphic (last cidr)" "\<forall>x \<in> set cidr. (x = CHR '' '' \<or> is_graphic x \<and> x \<noteq> CHR 0x5C)"
    using pf_word_graphic [OF assms(1)] assms(6) by (auto simp: list_all_iff)
  show ?thesis using w c assms(1-5)
    by (simp add: doc_ok_def instance_doc_def list_all_iff) (auto simp: go_eval)
qed

text \<open>A text with a character that no space rune contains is not blank.\<close>

lemma trim_left_by_keeps: "c \<in> set s \<Longrightarrow> \<forall>w \<in> set ws. c \<notin> set w \<Longrightarrow> c \<in> set (trim_left_by ws s)"
proof (induction ws s rule: trim_left_by.induct)
  case (1 ws s)
  show ?case
  proof (cases "find (\<lambda>w. w \<noteq> [] \<and> HasPrefix s w) ws")
    case None
    then show ?thesis using 1(2) by (subst trim_left_by.simps) simp
  next
    case (Some w)
    then have w: "w \<in> set ws" "HasPrefix s w" by (auto simp: find_Some_iff)
    then have "c \<in> set (drop (length w) s)" using 1(2,3) by (auto simp: HasPrefix_iff prefix_def)
    then show ?thesis using 1(1) [OF Some] 1(3) Some by (subst trim_left_by.simps) simp
  qed
qed

lemma TrimSpace_hash: "CHR ''#'' \<in> set s \<Longrightarrow> TrimSpace s \<noteq> []"
proof -
  assume s: "CHR ''#'' \<in> set s"
  have "\<forall>w \<in> set space_runes. CHR ''#'' \<notin> set w"
    by (auto simp: space_runes_def ascii_spaces_def unicode_spaces_def bytes_def eq_char_of_iff)
  then have "CHR ''#'' \<in> set (TrimSpace s)" using s unfolding TrimSpace_def by (simp add: trim_left_by_keeps)
  then show ?thesis by auto
qed

lemma digits_pf_word: "list_all is_digit d \<Longrightarrow> list_all (\<lambda>c. pf_char c \<and> c \<noteq> CHR '' '') d"
  by (auto simp: list_all_iff pf_char_def go_eval)

lemma v4_string_pf_word: "pf_word (v4_string [a, b, c, d])" "pf_word (v4_string [a, b, c, d] @ ''/24'')" "pf_word (Itoa k)"
proof -
  note i = digits_pf_word [OF Itoa_digits]
  then show "pf_word (v4_string [a, b, c, d])" "pf_word (v4_string [a, b, c, d] @ ''/24'')" "pf_word (Itoa k)"
    by (simp_all add: pf_word_def v4_string_def) (simp_all add: pf_char_def go_eval)
qed

lemma bridge_pf_word: assumes "MatchBridgeName b" shows "pf_word b"
proof -
  have "list_all (\<lambda>c. pf_char c \<and> c \<noteq> CHR '' '') ''bridge''" "list_all (\<lambda>c. pf_char c \<and> c \<noteq> CHR '' '') ''vmnet''"
    by (simp_all add: pf_char_def go_eval)
  note w = this
  obtain d where d: "b = ''bridge'' @ d \<or> b = ''vmnet'' @ d" "list_all is_digit d" using assms unfolding MatchBridgeName_iff by blast
  have "pf_word (p @ d)" if "p \<noteq> []" "list_all (\<lambda>c. pf_char c \<and> c \<noteq> CHR '' '') p" for p
    using that digits_pf_word [OF d(2)] by (simp add: pf_word_def)
  from this [OF _ w(1)] this [OF _ w(2)] d(1) show ?thesis by blast
qed

text \<open>The helper accepts what the client generates for a canonical subnet.\<close>

lemma generated_accepted:
  assumes "MatchBridgeName bridge" "port_token dns" "port_token http"
  shows "\<forall>st \<in> set (instance_statements cidr gw bridge dns http). accepted cidr gw st"
  using assms by (auto simp: instance_statements_def intro: accepted.intros)

lemma generated_valid:
  assumes sub: "ParseSubnet24 subnet = Inr (n, g)" and "subnet = IPNet_String n" "gateway = IP_String g"
    and br: "MatchBridgeName bridge" and ports: "pf_ValidatePort dnsPort" "pf_ValidatePort httpPort"
  shows "validatePFRules (BuildInstanceRules subnet gateway bridge dnsPort httpPort) subnet = None"
    "pf_plain (BuildInstanceRules subnet gateway bridge dnsPort httpPort)"
    "plain_statements (BuildInstanceRules subnet gateway bridge dnsPort httpPort)
      = instance_statements subnet gateway bridge (Itoa_int dnsPort) (Itoa_int httpPort)"
proof -
  let ?t = "BuildInstanceRules subnet gateway bridge dnsPort httpPort"
  let ?ss = "instance_statements subnet gateway bridge (Itoa_int dnsPort) (Itoa_int httpPort)"
  obtain a b c where r: "n = \<lparr>net_IP = [a, b, c, 0], net_Mask = [255, 255, 255, 0]\<rparr>" "g = [a, b, c, 1]"
    by (rule ParseSubnet24_shape [OF sub])
  obtain k m where k: "Itoa_int dnsPort = Itoa k" "Itoa_int httpPort = Itoa m" and pt: "port_token (Itoa k)" "port_token (Itoa m)"
  proof (rule that [of "nat dnsPort" "nat httpPort"])
    show "Itoa_int dnsPort = Itoa (nat dnsPort)" "Itoa_int httpPort = Itoa (nat httpPort)" "port_token (Itoa (nat dnsPort))" "port_token (Itoa (nat httpPort))"
      using ports by (auto simp: pf_ValidatePort_def Itoa_int_def port_token_of)
  qed
  have w: "pf_word subnet" "pf_word gateway" using v4_string_pf_word by (simp_all add: assms(2,3) r net24_text)
  then have "CHR 0x5C \<notin> set subnet" using pf_char_plain by (auto simp: pf_word_def list_all_iff)
  then have "doc_ok (instance_doc subnet gateway bridge (Itoa k) (Itoa m))"
    by (intro instance_doc_ok w bridge_pf_word [OF br] v4_string_pf_word(3))
  note d = doc_text [OF this, folded instance_doc_text(1) [of subnet gateway bridge dnsPort httpPort, unfolded k], unfolded instance_doc_text(2)]
  have acc: "\<forall>st \<in> set ?ss. accepted subnet gateway st" using generated_accepted [OF br pt] k by simp
  show p: "plain_statements ?t = ?ss" "pf_plain ?t" using d(2,3) k by simp_all
  have "CHR ''#'' \<in> set ?t" by (simp add: BuildInstanceRules_def lines_text_def)
  then have "TrimSpace ?t \<noteq> []" by (rule TrimSpace_hash)
  moreover have "char_of (0::nat) \<notin> set ?t" using d(4) .
  moreover have "\<forall>l \<in> set (Split ?t LF). good_line subnet gateway l"
    using d(1,5) acc k by (auto simp: good_line_def)
  moreover have "list_ex (\<lambda>l. Fields (TrimSpace l) = deny_tokens subnet) (List.filter is_statement (Split ?t LF))"
    "list_ex (\<lambda>l. inet6_tokens (Fields (TrimSpace l))) (List.filter is_statement (Split ?t LF))"
  proof -
    have "deny_tokens subnet \<in> set (plain_statements ?t)" "\<exists>st \<in> set (plain_statements ?t). inet6_tokens st"
      using br unfolding p(1) by (auto simp: instance_statements_def inet6_tokens_def)
    then show "list_ex (\<lambda>l. Fields (TrimSpace l) = deny_tokens subnet) (List.filter is_statement (Split ?t LF))"
      "list_ex (\<lambda>l. inet6_tokens (Fields (TrimSpace l))) (List.filter is_statement (Split ?t LF))"
      by (force simp: plain_statements_def list_ex_iff)+
  qed
  ultimately show "validatePFRules ?t subnet = None"
    unfolding validatePFRules_iff using sub assms(2,3) by (auto simp: Let_def)
qed

text \<open>The policy that the generated rules express.\<close>

definition instance_policy :: "IPNet \<Rightarrow> IP \<Rightarrow> string \<Rightarrow> int \<Rightarrow> int \<Rightarrow> pf_packet \<Rightarrow> pf_verdict" where
  "instance_policy n g bridge dnsPort httpPort p =
     (let src = IPNet_Contains n (pp_src p); port = int (pp_dport p) in
      if pp_v6 p then (if pp_if p = bridge then PfBlock else PfNone)
      else if src \<and> (pp_proto p = ''udp'' \<or> pp_proto p = ''tcp'') \<and> port = 53 then PfRedirect (Itoa_int dnsPort)
      else if src \<and> IP_Equal g (pp_dst p) \<and> (pp_proto p = ''tcp'' \<and> port = httpPort \<or> pp_proto p = ''icmp'') then PfPass
      else if IP_Equal g (pp_src p) \<and> IPNet_Contains n (pp_dst p) \<and> pp_proto p = ''tcp'' \<and> port = 22 then PfPass
      else if src \<or> pp_proto p = ''tcp'' \<and> port = httpPort then PfBlock
      else PfNone)"

lemma instance_statements_eval:
  assumes sub: "ParseSubnet24 subnet = Inr (n, g)" and ports: "pf_ValidatePort dnsPort" "pf_ValidatePort httpPort"
  shows "pf_eval (instance_statements (IPNet_String n) (IP_String g) bridge (Itoa_int dnsPort) (Itoa_int httpPort)) p
    = instance_policy n g bridge dnsPort httpPort p"
proof -
  have i: "Itoa (pp_dport p) = Itoa_int httpPort \<longleftrightarrow> int (pp_dport p) = httpPort"
    using ports(2) by (auto simp: Itoa_int_def Itoa_inj pf_ValidatePort_def)
  show ?thesis
    by (auto simp: pf_eval_def instance_statements_def instance_policy_def Let_def pf_addr_subnet [OF sub] Itoa_ports i pf_addr_def [of "''any''"]
        numeral_2_eq_2 numeral_3_eq_3)
qed

text \<open>C25 (functional). For every subnet that the allocation hands out, with its gateway, the client generates rules, the helper accepts them, and \<open>pf\<close> then
  carries out exactly the policy of the instance: DNS goes to the local filter, HTTP and ICMP reach the gateway, the host reaches SSH, the proxy port
  is closed to others, and everything else from the subnet and all IPv6 on the bridge is dropped.\<close>

theorem generated_rules_policy:
  assumes "pf_reader read" and "length ip = 4" and "i < 256" and "pf_ValidateInstanceName inst = None" "length inst \<le> 63"
    and "MatchBridgeName bridge" and "pf_ValidatePort dnsPort" "pf_ValidatePort httpPort"
  shows "\<exists>rules n g. InstanceRules inst (candidateSubnet ip i) (candidateGateway ip i) bridge dnsPort httpPort = Inr rules
    \<and> ParseSubnet24 (candidateSubnet ip i) = Inr (n, g) \<and> n = \<lparr>net_IP = [ip ! 0, ip ! 1, of_nat i, 0], net_Mask = [255, 255, 255, 0]\<rparr> \<and> g = [ip ! 0, ip ! 1, of_nat i, 1]
    \<and> LoadAnchor run inst (candidateSubnet ip i) rules q = (case run [''-a'', ''abox/'' @ inst, ''-f'', ''-''] rules q of (q', ok) \<Rightarrow> (q', if ok then None else Some PfRun))
    \<and> (\<forall>p. pf_eval (read rules) p = instance_policy n g bridge dnsPort httpPort p)"
proof -
  let ?s = "candidateSubnet ip i" and ?g = "candidateGateway ip i"
  let ?n = "\<lparr>net_IP = [ip ! 0, ip ! 1, of_nat i, 0], net_Mask = [255, 255, 255, 0]\<rparr>" and ?a = "[ip ! 0, ip ! 1, of_nat i, 1]"
  note t = candidate_texts [OF assms(2,3)]
  have sub: "ParseSubnet24 ?s = Inr (?n, ?a)" using ParseSubnet24_text [of "''24''"] by (simp add: t)
  have tx: "?s = IPNet_String ?n" "?g = IP_String ?a" by (simp_all add: t net24_text)
  note v = generated_valid [OF sub tx assms(6-8)]
  have "validatePfArgs inst ?s ?g bridge dnsPort httpPort = None"
    using assms(4,6-8) by (simp add: validatePfArgs_def validatePfSubnetGateway_def sub t(2) ParseIP_v4 To4_v4 validatePfPort_def IP_Equal_def)
  then have "InstanceRules inst ?s ?g bridge dnsPort httpPort = Inr (BuildInstanceRules ?s ?g bridge dnsPort httpPort)" by (simp add: InstanceRules_def)
  moreover have "LoadAnchor run inst ?s (BuildInstanceRules ?s ?g bridge dnsPort httpPort) q
      = (case run [''-a'', ''abox/'' @ inst, ''-f'', ''-''] (BuildInstanceRules ?s ?g bridge dnsPort httpPort) q of (q', ok) \<Rightarrow> (q', if ok then None else Some PfRun))"
    using v(1) assms(4,5) by (simp add: LoadAnchor_def validateInstanceName_def)
  moreover have "pf_eval (read (BuildInstanceRules ?s ?g bridge dnsPort httpPort)) p = instance_policy ?n ?a bridge dnsPort httpPort p" for p
    unfolding pf_reader.plain [OF assms(1) v(2)] v(3) by (rule instance_statements_eval [OF sub assms(7,8), folded tx])
  ultimately show ?thesis using sub by blast
qed

section \<open>Reading a text\<close>

text \<open>\<open>pf.conf\<close> extends a line over a backslash at its end, in a comment as well.\<close>

fun unfold_lines :: "string \<Rightarrow> string" where
  "unfold_lines [] = []"
| "unfold_lines [c] = [c]"
| "unfold_lines (c # d # s) = (if c = CHR 0x5C \<and> d = LF then unfold_lines s else c # unfold_lines (d # s))"

definition ref_read :: "string \<Rightarrow> string list list" where
  "ref_read content = plain_statements (unfold_lines content)"

lemma unfold_lines_id: "CHR 0x5C \<notin> set s \<Longrightarrow> unfold_lines s = s"
  by (induction s rule: unfold_lines.induct) auto

interpretation ref_reader: pf_reader ref_read
  by unfold_locales (simp add: ref_read_def pf_plain_def unfold_lines_id)

text \<open>So a comment can hide the terminal deny from \<open>pf\<close> while the validator counts it.\<close>

lemma hidden_deny:
  assumes "subnet = v4_string [a, b, c, 0] @ ''/24''"
  shows "\<exists>rules. validatePFRules rules subnet = None \<and> ref_read rules = []"
proof -
  let ?n = "\<lparr>net_IP = [a, b, c, 0], net_Mask = [255, 255, 255, 0]\<rparr>"
  define L where "L = Join (deny_tokens subnet) '' ''"
  define K where "K = [CHR ''#'', CHR '' '', CHR 0x5C]"
  have sub: "ParseSubnet24 subnet = Inr (?n, [a, b, c, 1])" using ParseSubnet24_text [of "''24''"] by (simp add: assms)
  have cidr: "IPNet_String ?n = subnet" by (simp add: assms net24_text)
  have "pf_word subnet" unfolding assms by (rule v4_string_pf_word(2))
  then have w: "list_all pf_word (deny_tokens subnet)" by simp (simp add: pf_word_def pf_char_def go_eval)
  have l: "TrimSpace L = L" "Fields L = deny_tokens subnet" "list_all pf_char L" "is_statement L" "L \<noteq> []" "is_graphic (last L)"
    unfolding L_def using words_line [OF w] by (simp_all add: go_eval)
  have lf: "LF \<notin> set L" "CHR 0x5C \<notin> set L" "char_of (0::nat) \<notin> set L" using l(3) pf_char_plain unfolding list_all_iff by blast+
  have k: "LF \<notin> set K" "char_of (0::nat) \<notin> set K" "\<not> is_statement K"
    using comment_line [of "[CHR '' '', CHR 0x5C]"] by (simp_all add: K_def go_eval)
  have s: "Split (lines_text [K, L]) LF = [K, L, []]" using Split_lines_text [of "[K, L]"] lf(1) k(1) by simp
  have "TrimSpace (lines_text [K, L]) \<noteq> []" by (rule TrimSpace_hash) (simp add: lines_text_def K_def)
  moreover have "char_of (0::nat) \<notin> set (lines_text [K, L])" using lf(3) k(2) by (simp add: lines_text_def char_of_eq_iff)
  moreover have "\<not> allow_line L" unfolding allow_line_def l(1) by (simp add: L_def)
  ultimately have v: "validatePFRules (lines_text [K, L]) subnet = None"
    unfolding validatePFRules_iff s sub using l(1-4) k(3) not_statement_Nil
    by (simp add: Let_def cidr good_line_def accepted.deny)
  have u: "unfold_lines (lines_text [K, L]) = lines_text [CHR ''#'' # CHR '' '' # L]"
    using lf(2) unfold_lines_id [of "L @ [LF]"] by (simp add: lines_text_def K_def char_of_eq_iff eq_char_of_iff)
  have "\<not> is_statement (CHR ''#'' # CHR '' '' # L)" using comment_line [of "CHR '' '' # L"] l(5,6) by simp
  moreover have "Split (lines_text [CHR ''#'' # CHR '' '' # L]) LF = [CHR ''#'' # CHR '' '' # L, []]"
    using Split_lines_text [of "[CHR ''#'' # CHR '' '' # L]"] lf(1) by (simp add: char_of_eq_iff)
  ultimately have "ref_read (lines_text [K, L]) = []" using not_statement_Nil by (simp add: ref_read_def u plain_statements_def)
  with v show ?thesis by blast
qed

section \<open>Witnesses\<close>

definition demo_name :: string where "demo_name = ''dev''"

lemma demo_name_ok: "pf_ValidateInstanceName demo_name = None" "length demo_name \<le> 63" "MatchBridgeName ''bridge100''"
  by (simp_all add: demo_name_def pf_ValidateInstanceName_def isNameChar_def MatchBridgeName_def BridgeNameRE_def Plus_def go_eval)

theorem generated_rules_policy_witness:
  "\<exists>rules. InstanceRules demo_name (candidateSubnet [10, 10, 0, 0] 10) (candidateGateway [10, 10, 0, 0] 10) ''bridge100'' 5353 8080 = Inr rules
     \<and> pf_eval (ref_read rules) \<lparr>pp_if = ''bridge100'', pp_v6 = True, pp_proto = ''tcp'', pp_src = [], pp_dst = [], pp_dport = 443\<rparr> = PfBlock"
proof -
  have "pf_ValidatePort 5353" "pf_ValidatePort 8080" "length [10, 10, 0, 0 :: u8] = 4" "(10 :: nat) < 256" by (simp_all add: pf_ValidatePort_def)
  note w = generated_rules_policy [OF ref_reader.pf_reader_axioms this(3,4) demo_name_ok this(1,2), of "\<lambda>_ _ q. (q, True)" "()"]
  then obtain rules n g where "InstanceRules demo_name (candidateSubnet [10, 10, 0, 0] 10) (candidateGateway [10, 10, 0, 0] 10) ''bridge100'' 5353 8080 = Inr rules"
    "\<forall>p. pf_eval (ref_read rules) p = instance_policy n g ''bridge100'' 5353 8080 p" by blast
  then show ?thesis by (intro exI [of _ rules]) (simp add: instance_policy_def)
qed

definition demo_rules :: string where
  "demo_rules = BuildInstanceRules (candidateSubnet [10, 10, 0, 0] 10) (candidateGateway [10, 10, 0, 0] 10) ''bridge100'' 5353 8080"

theorem loaded_rules_confine_witness:
  "pf_eval (ref_read demo_rules) \<lparr>pp_if = ''bridge100'', pp_v6 = False, pp_proto = ''tcp'', pp_src = [10, 10, 10, 5], pp_dst = [8, 8, 8, 8], pp_dport = 443\<rparr> = PfBlock"
proof -
  let ?p = "\<lparr>pp_if = ''bridge100'', pp_v6 = False, pp_proto = ''tcp'', pp_src = [10, 10, 10, 5], pp_dst = [8, 8, 8, 8], pp_dport = 443\<rparr>"
  let ?n = "\<lparr>net_IP = [10, 10, 10, 0 :: u8], net_Mask = [255, 255, 255, 0]\<rparr>" and ?g = "[10, 10, 10, 1 :: u8]"
  let ?s = "candidateSubnet [10, 10, 0, 0] 10"
  note t = candidate_texts [of "[10, 10, 0, 0]" 10, simplified]
  have sub: "ParseSubnet24 ?s = Inr (?n, ?g)" using ParseSubnet24_text [of "''24''" 10 10 10] by (simp add: t)
  have p: "pf_ValidatePort 5353" "pf_ValidatePort 8080" by (simp_all add: pf_ValidatePort_def)
  have tx: "?s = IPNet_String ?n" "candidateGateway [10, 10, 0, 0] 10 = IP_String ?g" by (simp_all add: t net24_text)
  note v = generated_valid [OF sub tx demo_name_ok(3) p, folded demo_rules_def]
  have "LoadAnchor (\<lambda>_ _ q. (q, True)) demo_name ?s demo_rules () = ((), None)"
    using v(1) demo_name_ok by (simp add: LoadAnchor_def validateInstanceName_def)
  note c = loaded_rules_confine [OF ref_reader.pf_reader_axioms v(2) this sub, of ?p]
  have "IPNet_Contains ?n (pp_src ?p)" by (simp add: IPNet_Contains_def networkNumberAndMask_def To4_v4 apply_mask24 Let_def)
  then show ?thesis using c by (simp add: may_redirect_def may_pass_def IP_Equal_def split: pf_verdict.splits)
qed

end
