(* ===== verification/PF_Conf.thy ===== *)
theory PF_Conf
  imports PF_Confined
begin

text \<open>
  \<^verbatim>\<open>internal/privilege/pfconf_darwin.go\<close> and the \<open>Enable\<close> and \<open>TeardownConfig\<close> of
  \<^verbatim>\<open>internal/privilege/helper_darwin.go\<close>: the references to the anchors of abox in the main
  rule file of macOS. Every edit is a text function followed by an atomic rewrite that may fail at any stage; the dry run of \<open>pfctl\<close>, its
  reload and its enabling are parameters.
\<close>

section \<open>Edits of the text\<close>

definition pfconfRdrAnchorMarker :: string where
  "pfconfRdrAnchorMarker = ''rdr-anchor '' @ [char_of (34::nat)] @ ''com.apple/*'' @ [char_of (34::nat)]"

definition pfconfFilterAnchorMarker :: string where
  "pfconfFilterAnchorMarker = ''anchor '' @ [char_of (34::nat)] @ ''com.apple/*'' @ [char_of (34::nat)]"

definition pfconfRdrAnchorLine :: string where
  "pfconfRdrAnchorLine = ''rdr-anchor '' @ [char_of (34::nat)] @ ''abox/*'' @ [char_of (34::nat)]"

definition pfconfFilterAnchorLine :: string where
  "pfconfFilterAnchorLine = ''anchor '' @ [char_of (34::nat)] @ ''abox/*'' @ [char_of (34::nat)]"

text \<open>A line that counts as the target: equal when trimmed and not a comment.\<close>

definition line_is :: "string \<Rightarrow> string \<Rightarrow> bool" where
  "line_is target line \<longleftrightarrow> \<not> HasPrefix (TrimSpace line) ''#'' \<and> TrimSpace line = TrimSpace target"

definition containsLine :: "string \<Rightarrow> string \<Rightarrow> bool" where
  "containsLine content target = list_ex (line_is target) (Split content LF)"

definition leadingWhitespace :: "string \<Rightarrow> string" where
  "leadingWhitespace s = takeWhile (\<lambda>c. c = CHR '' '' \<or> c = char_of (9::nat)) s"

function insertAfterLine :: "string \<Rightarrow> string \<Rightarrow> string \<Rightarrow> string" where
  "insertAfterLine content marker newLine =
     (case IndexByte content LF of
        None \<Rightarrow>
          if line_is marker content then content @ LF # leadingWhitespace content @ newLine
          else content
      | Some n \<Rightarrow>
          (let lineText = take n content; rest = drop (Suc n) content in
           if line_is marker lineText then lineText @ LF # leadingWhitespace lineText @ newLine @ LF # rest
           else lineText @ LF # insertAfterLine rest marker newLine))"
  by pat_completeness auto
termination
proof (relation "measure (\<lambda>(content, _). length content)")
  fix content marker newLine :: string and n x y
  assume "IndexByte content LF = Some n" "y = drop (Suc n) content"
  then show "((y, marker, newLine), (content, marker, newLine)) \<in> measure (\<lambda>(content, _). length content)"
    by (cases content) auto
qed simp

declare insertAfterLine.simps [simp del]

text \<open>\<open>strings.SplitAfter\<close> at newlines: every chunk but the last ends with one.\<close>

definition SplitAfter_LF :: "string \<Rightarrow> string list" where
  "SplitAfter_LF s = map (\<lambda>w. w @ [LF]) (butlast (Split s LF)) @ [last (Split s LF)]"

definition TrimRight_LF :: "string \<Rightarrow> string" where
  "TrimRight_LF s = rev (dropWhile (\<lambda>c. c = LF) (rev s))"

definition wanted :: "string list \<Rightarrow> string \<Rightarrow> bool" where
  "wanted targets chunk \<longleftrightarrow>
     (let trimmed = TrimSpace (TrimRight_LF chunk) in trimmed \<in> TrimSpace ` set targets \<and> \<not> HasPrefix trimmed ''#'')"

definition removeLines :: "string \<Rightarrow> string list \<Rightarrow> string \<times> bool" where
  "removeLines content targets =
     (let chunks = SplitAfter_LF content in
      (concat (List.filter (\<lambda>c. \<not> wanted targets c) chunks), list_ex (wanted targets) chunks))"

definition ensureTrailingNewline :: "string \<Rightarrow> string" where
  "ensureTrailingNewline content = (if content = [] \<or> HasSuffix content [LF] then content else content @ [LF])"

definition HasAnchorReferences :: "string \<Rightarrow> bool" where
  "HasAnchorReferences content \<longleftrightarrow> containsLine content pfconfRdrAnchorLine \<and> containsLine content pfconfFilterAnchorLine"

definition CanAutoWireAnchors :: "string \<Rightarrow> bool" where
  "CanAutoWireAnchors content \<longleftrightarrow> containsLine content pfconfRdrAnchorMarker \<and> containsLine content pfconfFilterAnchorMarker"

section \<open>The file\<close>

text \<open>The main rule file with its mode and the temporary file beside it; and of the packet filter itself the text its main rule set was last
  loaded from, and whether it is on.\<close>

record pf_disk =
  pd_conf :: "(string \<times> nat) option"
  pd_temp :: "string option"
  pd_main :: string
  pd_on :: bool

datatype pf_stage = PfStat | PfRead | PfCreate | PfWrite nat | PfSync | PfClose | PfChmod | PfRename

datatype pfconf_error = PcRead pf_stage | PcNoMarkers | PcIO pf_stage | PcInvalid | PcBaseline

definition readPfconf :: "pf_stage option \<Rightarrow> pf_disk \<Rightarrow> pfconf_error + (string \<times> nat)" where
  "readPfconf fault d =
     (case pd_conf d of
        None \<Rightarrow> Inl (PcRead PfStat)
      | Some (content, mode) \<Rightarrow>
          if fault = Some PfStat \<or> fault = Some PfRead then Inl (PcRead (the fault)) else Inr (content, mode))"

text \<open>The stages of \<open>atomicWrite\<close> before the deferred removal of the temporary file; \<open>check\<close> is the dry run on
  its content.\<close>

definition pf_write_stages ::
  "pf_stage option \<Rightarrow> (string \<Rightarrow> bool) option \<Rightarrow> pf_disk \<Rightarrow> string \<Rightarrow> nat \<Rightarrow> pf_disk \<times> pfconf_error option" where
  "pf_write_stages fault check d data mode =
     (let t = d\<lparr>pd_temp := Some data\<rparr> in
      case fault of
        Some PfCreate \<Rightarrow> (d, Some (PcIO PfCreate))
      | Some (PfWrite n) \<Rightarrow> (d\<lparr>pd_temp := Some (take n data)\<rparr>, Some (PcIO (PfWrite n)))
      | Some PfSync \<Rightarrow> (t, Some (PcIO PfSync))
      | Some PfClose \<Rightarrow> (t, Some (PcIO PfClose))
      | Some PfChmod \<Rightarrow> (t, Some (PcIO PfChmod))
      | _ \<Rightarrow>
          if (case check of Some f \<Rightarrow> \<not> f data | None \<Rightarrow> False) then (t, Some PcInvalid)
          else if fault = Some PfRename then (t, Some (PcIO PfRename))
          else (t\<lparr>pd_conf := Some (data, mode), pd_temp := None\<rparr>, None))"

definition atomicWrite ::
  "pf_stage option \<Rightarrow> (string \<Rightarrow> bool) option \<Rightarrow> pf_disk \<Rightarrow> string \<Rightarrow> nat \<Rightarrow> pf_disk \<times> pfconf_error option" where
  "atomicWrite fault check d data mode = (case pf_write_stages fault check d data mode of (d', e) \<Rightarrow> (d'\<lparr>pd_temp := None\<rparr>, e))"

definition attributePfconfFailure :: "(string \<Rightarrow> bool) \<Rightarrow> pf_disk \<Rightarrow> pfconf_error \<Rightarrow> pfconf_error" where
  "attributePfconfFailure dryRun d e =
     (if e \<noteq> PcInvalid then e
      else if (case pd_conf d of Some (content, _) \<Rightarrow> dryRun content | None \<Rightarrow> False) then e
      else PcBaseline)"

definition wire :: "string \<Rightarrow> string" where
  "wire original =
     (let a = (if \<not> containsLine original pfconfRdrAnchorLine then insertAfterLine original pfconfRdrAnchorMarker pfconfRdrAnchorLine else original);
          b = (if \<not> containsLine original pfconfFilterAnchorLine then insertAfterLine a pfconfFilterAnchorMarker pfconfFilterAnchorLine else a)
      in ensureTrailingNewline b)"

definition ensureAnchorReferences :: "pf_stage option \<Rightarrow> (string \<Rightarrow> bool) \<Rightarrow> pf_disk \<Rightarrow> pf_disk \<times> (pfconf_error + bool)" where
  "ensureAnchorReferences fault dryRun d =
     (case readPfconf fault d of
        Inl e \<Rightarrow> (d, Inl e)
      | Inr (original, mode) \<Rightarrow>
          if HasAnchorReferences original then (d, Inr False)
          else if \<not> CanAutoWireAnchors original then (d, Inl PcNoMarkers)
          else (case atomicWrite fault (Some dryRun) d (wire original) mode of
                  (d', Some e) \<Rightarrow> (d', Inl (attributePfconfFailure dryRun d' e))
                | (d', None) \<Rightarrow> (d', Inr True)))"

definition removeAnchorReferences :: "pf_stage option \<Rightarrow> pf_disk \<Rightarrow> pf_disk \<times> (pfconf_error + bool)" where
  "removeAnchorReferences fault d =
     (case readPfconf fault d of
        Inl e \<Rightarrow> (d, Inl e)
      | Inr (original, mode) \<Rightarrow>
          (case removeLines original [pfconfRdrAnchorLine, pfconfFilterAnchorLine] of (updated, removed) \<Rightarrow>
             if \<not> removed then (d, Inr False)
             else (case atomicWrite fault None d (ensureTrailingNewline updated) mode of
                     (d', Some e) \<Rightarrow> (d', Inl e)
                   | (d', None) \<Rightarrow> (d', Inr True))))"

section \<open>The service\<close>

datatype pf_enable = EnabledNow | AlreadyEnabled | EnableFailed

record pf_host =
  ph_dryRun :: "string \<Rightarrow> bool"
  ph_reload :: "string \<Rightarrow> bool"
  ph_enable :: pf_enable
  ph_fault :: "pf_stage option"
  ph_rollback_fault :: "pf_stage option"

datatype pf_service_error = SvWire pfconf_error | SvReload | SvReloadNoRollback pfconf_error | SvEnable | SvRemove pfconf_error | SvTeardownReload

text \<open>A reload that fails leaves the rule set that was loaded before; enabling a filter that is on already fails with a message that says so.\<close>

definition reloadPfConf :: "pf_host \<Rightarrow> pf_disk \<Rightarrow> pf_disk \<times> bool" where
  "reloadPfConf H d =
     (case pd_conf d of
        Some (content, _) \<Rightarrow> if ph_reload H content then (d\<lparr>pd_main := content\<rparr>, True) else (d, False)
      | None \<Rightarrow> (d, False))"

definition pf_switch_on :: "pf_host \<Rightarrow> pf_disk \<Rightarrow> pf_disk \<times> pf_service_error option" where
  "pf_switch_on H d =
     (case ph_enable H of
        EnabledNow \<Rightarrow> (d\<lparr>pd_on := True\<rparr>, None)
      | AlreadyEnabled \<Rightarrow> (d\<lparr>pd_on := True\<rparr>, None)
      | EnableFailed \<Rightarrow> (d, Some SvEnable))"

definition Pf_Enable :: "pf_host \<Rightarrow> pf_disk \<Rightarrow> pf_disk \<times> pf_service_error option" where
  "Pf_Enable H d =
     (case ensureAnchorReferences (ph_fault H) (ph_dryRun H) d of
        (d1, Inl e) \<Rightarrow> (d1, Some (SvWire e))
      | (d1, Inr changed) \<Rightarrow>
          if changed then
            (case reloadPfConf H d1 of
               (d2, True) \<Rightarrow> pf_switch_on H d2
             | (d2, False) \<Rightarrow>
                 (case removeAnchorReferences (ph_rollback_fault H) d2 of
                    (d3, Inl e) \<Rightarrow> (d3, Some (SvReloadNoRollback e))
                  | (d3, Inr _) \<Rightarrow> (d3, Some SvReload)))
          else pf_switch_on H d1)"

definition Pf_TeardownConfig :: "pf_host \<Rightarrow> pf_disk \<Rightarrow> pf_disk \<times> pf_service_error option" where
  "Pf_TeardownConfig H d =
     (case removeAnchorReferences (ph_fault H) d of
        (d1, Inl e) \<Rightarrow> (d1, Some (SvRemove e))
      | (d1, Inr changed) \<Rightarrow>
          if changed then (case reloadPfConf H d1 of (d2, ok) \<Rightarrow> (d2, if ok then None else Some SvTeardownReload))
          else (d1, None))"

section \<open>Texts as lines\<close>

lemma lines_induct [case_names rest line]:
  assumes "\<And>t. LF \<notin> set t \<Longrightarrow> P t" and "\<And>l r. LF \<notin> set l \<Longrightarrow> P r \<Longrightarrow> P (l @ LF # r)"
  shows "P t"
proof (induction "length t" arbitrary: t rule: less_induct)
  case less
  show ?case
  proof (cases "LF \<in> set t")
    case True
    then obtain l r where t: "t = l @ LF # r" "LF \<notin> set l" by (auto dest: split_list_first)
    then show ?thesis using less [of r] assms(2) by simp
  qed (simp add: assms(1))
qed

lemma raw_lines_rest: "LF \<notin> set t \<Longrightarrow> raw_lines t = (if t = [] then [] else [t])"
  by (simp add: raw_lines_def Split_atom)

lemma ensureTrailingNewline_lines: "ensureTrailingNewline t = lines_text (raw_lines t)"
proof (induction t rule: lines_induct)
  case (rest t)
  then show ?case by (cases t rule: rev_cases) (auto simp: raw_lines_rest lines_text_def ensureTrailingNewline_def HasSuffix_single)
next
  case (line l r)
  then show ?case
    by (cases "r = []") (auto simp: raw_lines_Cons lines_text_def ensureTrailingNewline_def HasSuffix_single split: if_splits)
qed

lemma raw_lines_of_text: "\<forall>l \<in> set ls. LF \<notin> set l \<Longrightarrow> raw_lines (lines_text ls) = ls"
  using raw_lines_text [of ls "[]"] by simp

lemma containsLine_lines: "\<not> line_is x [] \<Longrightarrow> containsLine t x = list_ex (line_is x) (raw_lines t)"
proof (induction t rule: lines_induct)
  case (rest t)
  then show ?case by (simp add: containsLine_def Split_atom raw_lines_rest)
next
  case (line l r)
  then show ?case by (simp add: containsLine_def Split_append raw_lines_Cons)
qed

fun insert_line :: "string \<Rightarrow> string \<Rightarrow> string list \<Rightarrow> string list" where
  "insert_line m w [] = []"
| "insert_line m w (l # ls) = (if line_is m l then l # (leadingWhitespace l @ w) # ls else l # insert_line m w ls)"

lemma set_leadingWhitespace: "set (leadingWhitespace l) \<subseteq> set l"
  by (auto simp: leadingWhitespace_def dest: set_takeWhileD)

lemma insertAfterLine_lines:
  assumes "\<not> line_is m []" "LF \<notin> set w" "w \<noteq> []"
  shows "raw_lines (insertAfterLine t m w) = insert_line m w (raw_lines t)"
proof (induction t rule: lines_induct)
  case (rest t)
  then have "IndexByte t LF = None" by (simp add: IndexByte_None)
  then have e: "insertAfterLine t m w = (if line_is m t then t @ LF # leadingWhitespace t @ w else t)"
    by (subst insertAfterLine.simps) simp
  have "LF \<notin> set (leadingWhitespace t @ w)" using rest set_leadingWhitespace [of t] assms(2) by auto
  then show ?case using rest assms(1,3) by (auto simp: e raw_lines_Cons raw_lines_rest)
next
  case (line l r)
  have i: "IndexByte (l @ LF # r) LF = Some (length l)" by (rule IndexByte_append [OF line(1)])
  have e: "insertAfterLine (l @ LF # r) m w =
      (if line_is m l then l @ LF # leadingWhitespace l @ w @ LF # r else l @ LF # insertAfterLine r m w)"
    by (subst insertAfterLine.simps) (simp add: i)
  have "LF \<notin> set (leadingWhitespace l @ w)" using line(1) set_leadingWhitespace [of l] assms(2) by auto
  then have "raw_lines ((leadingWhitespace l @ w) @ LF # r) = (leadingWhitespace l @ w) # raw_lines r" by (rule raw_lines_Cons)
  then show ?case using line by (simp add: e raw_lines_Cons)
qed

lemma TrimRight_LF: "LF \<notin> set l \<Longrightarrow> TrimRight_LF l = l" "LF \<notin> set l \<Longrightarrow> TrimRight_LF (l @ [LF]) = l"
proof -
  assume "LF \<notin> set l"
  then have "dropWhile (\<lambda>c. c = LF) (rev l) = rev l" by (cases l rule: rev_cases) auto
  then show "TrimRight_LF l = l" "TrimRight_LF (l @ [LF]) = l" by (simp_all add: TrimRight_LF_def)
qed

definition line_in :: "string list \<Rightarrow> string \<Rightarrow> bool" where
  "line_in targets l \<longleftrightarrow> (\<exists>x \<in> set targets. line_is x l)"

lemma wanted_line: "LF \<notin> set l \<Longrightarrow> wanted ts l = line_in ts l" "LF \<notin> set l \<Longrightarrow> wanted ts (l @ [LF]) = line_in ts l"
  by (auto simp: wanted_def Let_def TrimRight_LF line_in_def line_is_def)

lemma SplitAfter_LF_simps:
  "LF \<notin> set t \<Longrightarrow> SplitAfter_LF t = [t]" "LF \<notin> set l \<Longrightarrow> SplitAfter_LF (l @ LF # r) = (l @ [LF]) # SplitAfter_LF r"
  by (simp_all add: SplitAfter_LF_def Split_atom Split_append)

lemma removeLines_lines:
  assumes "\<not> line_in ts []"
  shows "raw_lines (fst (removeLines t ts)) = List.filter (\<lambda>l. \<not> line_in ts l) (raw_lines t)"
    "snd (removeLines t ts) = list_ex (line_in ts) (raw_lines t)"
proof -
  show "raw_lines (fst (removeLines t ts)) = List.filter (\<lambda>l. \<not> line_in ts l) (raw_lines t)"
  proof (induction t rule: lines_induct)
    case (rest t)
    then show ?case using assms by (simp add: removeLines_def Let_def SplitAfter_LF_simps wanted_line raw_lines_rest)
  next
    case (line l r)
    then show ?case by (simp add: removeLines_def Let_def SplitAfter_LF_simps wanted_line raw_lines_Cons)
  qed
  show "snd (removeLines t ts) = list_ex (line_in ts) (raw_lines t)"
  proof (induction t rule: lines_induct)
    case (rest t)
    then show ?case using assms by (simp add: removeLines_def Let_def SplitAfter_LF_simps wanted_line raw_lines_rest)
  next
    case (line l r)
    then show ?case by (simp add: removeLines_def Let_def SplitAfter_LF_simps wanted_line raw_lines_Cons)
  qed
qed

lemma trim_blank: "c = CHR '' '' \<or> c = char_of (9::nat) \<Longrightarrow> trim_left_by space_runes (c # s) = trim_left_by space_runes s"
proof -
  assume c: "c = CHR '' '' \<or> c = char_of (9::nat)"
  have "find (\<lambda>w. w \<noteq> [] \<and> HasPrefix (c # s) w) space_runes = Some [c]"
    using c by (auto simp: space_runes_def ascii_spaces_def eq_char_of_iff char_of_eq_iff)
  then show ?thesis by (subst trim_left_by.simps) simp
qed

lemma TrimSpace_indent:
  assumes "w \<noteq> []" "is_graphic (hd w)" "is_graphic (last w)"
  shows "TrimSpace (leadingWhitespace l @ w) = w"
proof -
  have "trim_left_by space_runes (u @ w) = trim_left_by space_runes w" if "\<forall>c \<in> set u. c = CHR '' '' \<or> c = char_of (9::nat)" for u
    using that by (induction u) (auto simp: trim_blank)
  moreover have "\<forall>c \<in> set (leadingWhitespace l). c = CHR '' '' \<or> c = char_of (9::nat)"
    unfolding leadingWhitespace_def by (blast dest: set_takeWhileD)
  ultimately have "TrimSpace (leadingWhitespace l @ w) = TrimSpace w" by (simp only: TrimSpace_def)
  then show ?thesis using TrimSpace_graphic assms by simp
qed

section \<open>Wiring\<close>

text \<open>The lines of abox in the file.\<close>

abbreviation abox_lines :: "string list" where
  "abox_lines \<equiv> [pfconfRdrAnchorLine, pfconfFilterAnchorLine]"

lemmas anchor_defs = pfconfRdrAnchorMarker_def pfconfFilterAnchorMarker_def pfconfRdrAnchorLine_def pfconfFilterAnchorLine_def

lemma anchor_trimmed:
  "TrimSpace pfconfRdrAnchorMarker = pfconfRdrAnchorMarker" "TrimSpace pfconfFilterAnchorMarker = pfconfFilterAnchorMarker"
  "TrimSpace pfconfRdrAnchorLine = pfconfRdrAnchorLine" "TrimSpace pfconfFilterAnchorLine = pfconfFilterAnchorLine"
  "TrimSpace (leadingWhitespace l @ pfconfRdrAnchorLine) = pfconfRdrAnchorLine"
  "TrimSpace (leadingWhitespace l @ pfconfFilterAnchorLine) = pfconfFilterAnchorLine"
proof -
  have g: "w \<noteq> [] \<and> is_graphic (hd w) \<and> is_graphic (last w)"
    if "w \<in> {pfconfRdrAnchorMarker, pfconfFilterAnchorMarker, pfconfRdrAnchorLine, pfconfFilterAnchorLine}" for w
    using that by (auto simp: anchor_defs go_eval)
  show "TrimSpace pfconfRdrAnchorMarker = pfconfRdrAnchorMarker" "TrimSpace pfconfFilterAnchorMarker = pfconfFilterAnchorMarker"
    "TrimSpace pfconfRdrAnchorLine = pfconfRdrAnchorLine" "TrimSpace pfconfFilterAnchorLine = pfconfFilterAnchorLine"
    by (rule TrimSpace_graphic, use g in blast)+
  show "TrimSpace (leadingWhitespace l @ pfconfRdrAnchorLine) = pfconfRdrAnchorLine"
    "TrimSpace (leadingWhitespace l @ pfconfFilterAnchorLine) = pfconfFilterAnchorLine"
    using g by (simp_all add: TrimSpace_indent)
qed

lemma anchor_lines:
  "\<not> line_is pfconfRdrAnchorMarker []" "\<not> line_is pfconfFilterAnchorMarker []" "\<not> line_is pfconfRdrAnchorLine []" "\<not> line_is pfconfFilterAnchorLine []"
  "LF \<notin> set pfconfRdrAnchorLine" "LF \<notin> set pfconfFilterAnchorLine" "pfconfRdrAnchorLine \<noteq> []" "pfconfFilterAnchorLine \<noteq> []"
  by (simp_all add: line_is_def anchor_trimmed TrimSpace_graphic) (simp_all add: anchor_defs go_eval)

lemma inserted_line:
  "line_is pfconfRdrAnchorLine (leadingWhitespace l @ pfconfRdrAnchorLine)" "line_is pfconfFilterAnchorLine (leadingWhitespace l @ pfconfFilterAnchorLine)"
  "\<not> line_is pfconfFilterAnchorMarker (leadingWhitespace l @ pfconfRdrAnchorLine)"
  "\<not> line_is pfconfFilterAnchorLine (leadingWhitespace l @ pfconfRdrAnchorLine)"
  "\<not> line_is pfconfRdrAnchorLine (leadingWhitespace l @ pfconfFilterAnchorLine)"
  by (simp_all add: line_is_def anchor_trimmed) (simp_all add: anchor_defs)

lemma insert_line_filter:
  assumes "\<And>l. \<not> P (leadingWhitespace l @ w)"
  shows "List.filter P (insert_line m w ls) = List.filter P ls"
  using assms by (induction ls) auto

lemma insert_line_ex:
  assumes "list_ex (line_is m) ls"
  shows "\<exists>l. leadingWhitespace l @ w \<in> set (insert_line m w ls)" and "set ls \<subseteq> set (insert_line m w ls)"
  using assms by (induction ls) auto

lemma wire_lines:
  assumes "CanAutoWireAnchors t"
  shows "wire t = lines_text (raw_lines (wire t))" "HasAnchorReferences (wire t)"
    "List.filter (\<lambda>l. \<not> line_in abox_lines l) (raw_lines (wire t)) = List.filter (\<lambda>l. \<not> line_in abox_lines l) (raw_lines t)"
proof -
  let ?r = pfconfRdrAnchorLine and ?f = pfconfFilterAnchorLine
  define a where "a = (if \<not> containsLine t ?r then insertAfterLine t pfconfRdrAnchorMarker ?r else t)"
  define b where "b = (if \<not> containsLine t ?f then insertAfterLine a pfconfFilterAnchorMarker ?f else a)"
  have w: "wire t = lines_text (raw_lines b)" by (simp add: wire_def a_def b_def ensureTrailingNewline_lines Let_def)
  have nolf: "\<forall>l \<in> set (raw_lines b). LF \<notin> set l" using raw_lines_no_LF by blast
  then have rw: "raw_lines (wire t) = raw_lines b" using w raw_lines_of_text by simp
  then show "wire t = lines_text (raw_lines (wire t))" using w by simp
  have ra: "raw_lines a = (if \<not> containsLine t ?r then insert_line pfconfRdrAnchorMarker ?r (raw_lines t) else raw_lines t)"
    by (simp add: a_def insertAfterLine_lines anchor_lines)
  have rb: "raw_lines b = (if \<not> containsLine t ?f then insert_line pfconfFilterAnchorMarker ?f (raw_lines a) else raw_lines a)"
    by (simp add: b_def insertAfterLine_lines anchor_lines)
  have "\<not> \<not> line_in abox_lines (leadingWhitespace l @ ?r)" "\<not> \<not> line_in abox_lines (leadingWhitespace l @ ?f)" for l
    by (simp_all add: line_in_def inserted_line)
  note fl = insert_line_filter [of "\<lambda>l. \<not> line_in abox_lines l", OF this(1)] insert_line_filter [of "\<lambda>l. \<not> line_in abox_lines l", OF this(2)]
  show "List.filter (\<lambda>l. \<not> line_in abox_lines l) (raw_lines (wire t)) = List.filter (\<lambda>l. \<not> line_in abox_lines l) (raw_lines t)"
    using fl by (simp add: rw rb ra)
  have m: "list_ex (line_is pfconfRdrAnchorMarker) (raw_lines t)" "list_ex (line_is pfconfFilterAnchorMarker) (raw_lines t)"
    using assms by (simp_all add: CanAutoWireAnchors_def containsLine_lines anchor_lines)
  have sa: "set (raw_lines t) \<subseteq> set (raw_lines a)" using insert_line_ex(2) [OF m(1)] by (simp add: ra)
  then have m2: "list_ex (line_is pfconfFilterAnchorMarker) (raw_lines a)" using m(2) by (auto simp: list_ex_iff)
  have sb: "set (raw_lines a) \<subseteq> set (raw_lines b)" using insert_line_ex(2) [OF m2] by (simp add: rb)
  have "list_ex (line_is ?r) (raw_lines a)"
  proof (cases "containsLine t ?r")
    case True
    then show ?thesis using sa by (auto simp: containsLine_lines anchor_lines list_ex_iff)
  next
    case False
    then show ?thesis using insert_line_ex(1) [OF m(1), of ?r] inserted_line(1) by (auto simp: ra list_ex_iff)
  qed
  then have 1: "list_ex (line_is ?r) (raw_lines b)" using sb by (auto simp: list_ex_iff)
  have 2: "list_ex (line_is ?f) (raw_lines b)"
  proof (cases "containsLine t ?f")
    case True
    then show ?thesis using sa sb by (auto simp: containsLine_lines anchor_lines list_ex_iff)
  next
    case False
    then show ?thesis using insert_line_ex(1) [OF m2, of ?f] inserted_line(2) by (auto simp: rb list_ex_iff)
  qed
  show "HasAnchorReferences (wire t)" using 1 2 by (simp add: HasAnchorReferences_def containsLine_lines anchor_lines rw)
qed

text \<open>What a rewrite does to the file.\<close>

lemma atomicWrite_cases:
  assumes "atomicWrite fault check d data mode = (d', e)"
  shows "e = None \<Longrightarrow> pd_conf d' = Some (data, mode) \<and> (\<forall>f. check = Some f \<longrightarrow> f data)" "e \<noteq> None \<Longrightarrow> pd_conf d' = pd_conf d" "pd_temp d' = None"
    "pd_main d' = pd_main d" "pd_on d' = pd_on d"
  using assms by (auto simp: atomicWrite_def pf_write_stages_def Let_def split: option.splits pf_stage.splits if_splits)

definition unwired :: "string \<Rightarrow> string" where
  "unwired t = lines_text (List.filter (\<lambda>l. \<not> line_in abox_lines l) (raw_lines t))"

lemma removeLines_unwired: "ensureTrailingNewline (fst (removeLines t abox_lines)) = unwired t"
proof -
  have "\<not> line_in abox_lines []" using anchor_lines(3,4) by (simp add: line_in_def)
  then show ?thesis by (simp add: ensureTrailingNewline_lines unwired_def removeLines_lines)
qed

lemma wired_removable: "HasAnchorReferences t \<Longrightarrow> snd (removeLines t abox_lines)"
proof -
  assume "HasAnchorReferences t"
  then have "list_ex (line_in abox_lines) (raw_lines t)"
    by (auto simp: HasAnchorReferences_def containsLine_lines anchor_lines list_ex_iff line_in_def)
  moreover have "\<not> line_in abox_lines []" using anchor_lines(3,4) by (simp add: line_in_def)
  ultimately show ?thesis by (simp add: removeLines_lines)
qed

lemma unwired_wire: "CanAutoWireAnchors t \<Longrightarrow> unwired (wire t) = unwired t"
  using wire_lines(3) by (simp add: unwired_def)

lemma ensure_cases:
  assumes "ensureAnchorReferences fault dryRun d = (d', r)" "pd_conf d = Some (t, m)"
  obtains (failed) e where "r = Inl e" "pd_conf d' = pd_conf d"
  | (present) "r = Inr False" "d' = d" "HasAnchorReferences t"
  | (wired) "r = Inr True" "pd_conf d' = Some (wire t, m)" "CanAutoWireAnchors t" "\<not> HasAnchorReferences t" "dryRun (wire t)"
proof (cases "readPfconf fault d")
  case (Inl e)
  then show ?thesis using assms failed by (auto simp: ensureAnchorReferences_def)
next
  case (Inr x)
  then have x: "x = (t, m)" using assms(2) by (auto simp: readPfconf_def split: if_splits)
  obtain d1 e1 where w: "atomicWrite fault (Some dryRun) d (wire t) m = (d1, e1)" by fastforce
  note wc = atomicWrite_cases [OF w]
  consider "HasAnchorReferences t" | "\<not> HasAnchorReferences t" "\<not> CanAutoWireAnchors t" | "\<not> HasAnchorReferences t" "CanAutoWireAnchors t" by blast
  then show ?thesis
  proof cases
    case 3
    show ?thesis
    proof (cases e1)
      case None
      then show ?thesis using 3 Inr x w wc wired assms(1) by (simp add: ensureAnchorReferences_def)
    next
      case (Some e)
      then show ?thesis using 3 Inr x w wc(2) failed assms(1) by (auto simp: ensureAnchorReferences_def)
    qed
  qed (use Inr x assms present failed in \<open>auto simp: ensureAnchorReferences_def\<close>)
qed

lemma remove_cases:
  assumes "removeAnchorReferences fault d = (d', r)" "pd_conf d = Some (t, m)"
  obtains (failed) e where "r = Inl e" "pd_conf d' = pd_conf d"
  | (absent) "r = Inr False" "d' = d" "\<not> snd (removeLines t abox_lines)"
  | (removed) "r = Inr True" "pd_conf d' = Some (unwired t, m)"
proof (cases "readPfconf fault d")
  case (Inl e)
  then show ?thesis using assms failed by (auto simp: removeAnchorReferences_def)
next
  case (Inr x)
  then have x: "x = (t, m)" using assms(2) by (auto simp: readPfconf_def split: if_splits)
  obtain u ch where rm: "removeLines t abox_lines = (u, ch)" by fastforce
  then have u: "ensureTrailingNewline u = unwired t" using removeLines_unwired [of t] by simp
  obtain d1 e1 where w: "atomicWrite fault None d (unwired t) m = (d1, e1)" by fastforce
  note wc = atomicWrite_cases [OF w]
  show ?thesis
  proof (cases ch)
    case False
    then show ?thesis using Inr x rm absent assms(1) by (simp add: removeAnchorReferences_def)
  next
    case True
    show ?thesis
    proof (cases e1)
      case None
      then show ?thesis using True Inr x rm u w wc(1) removed assms(1) by (simp add: removeAnchorReferences_def)
    next
      case (Some e)
      then show ?thesis using True Inr x rm u w wc(2) failed assms(1) by (auto simp: removeAnchorReferences_def)
    qed
  qed
qed

lemma remove_wired:
  assumes "pd_conf x = Some (u, m)" "HasAnchorReferences u"
  shows "\<exists>y. removeAnchorReferences None x = (y, Inr True) \<and> pd_conf y = Some (unwired u, m)"
proof -
  obtain y q where y: "removeAnchorReferences None x = (y, q)" by fastforce
  have "\<exists>z. q = Inr z"
    using y assms(1) by (auto simp: removeAnchorReferences_def readPfconf_def atomicWrite_def pf_write_stages_def Let_def split: prod.splits if_splits)
  then show ?thesis using remove_cases [OF y assms(1)] y wired_removable [OF assms(2)] by blast
qed

text \<open>Wiring the anchors into the main rule file and taking them out again. A wiring that succeeds leaves both references in the file, text that
  the dry run accepted, and a second one changes nothing; the removal then leaves the lines of the original file without those of abox,
  in their order. A wiring that fails leaves the file as it was.\<close>

theorem wire_teardown_roundtrip:
  assumes "ensureAnchorReferences fault dryRun d = (d', r)" and "pd_conf d = Some (t, m)"
  shows "case r of
      Inl e \<Rightarrow> pd_conf d' = Some (t, m)
    | Inr changed \<Rightarrow>
        \<exists>t' d''. pd_conf d' = Some (t', m) \<and> HasAnchorReferences t' \<and> (changed \<longrightarrow> dryRun t')
          \<and> ensureAnchorReferences None dryRun d' = (d', Inr False)
          \<and> removeAnchorReferences None d' = (d'', Inr True)
          \<and> pd_conf d'' = Some (lines_text (List.filter (\<lambda>l. \<not> line_in abox_lines l) (raw_lines t)), m)"
proof -
  have again: "ensureAnchorReferences None dryRun x = (x, Inr False)" if "pd_conf x = Some (u, m)" "HasAnchorReferences u" for x u
    using that by (simp add: ensureAnchorReferences_def readPfconf_def)
  from assms show ?thesis
  proof (cases rule: ensure_cases)
    case (failed e)
    then show ?thesis using assms(2) by simp
  next
    case present
    then show ?thesis using again [OF assms(2)] remove_wired [OF assms(2)] assms(2) by (auto simp: unwired_def)
  next
    case wired
    then show ?thesis using again [OF wired(2)] remove_wired [OF wired(2)] wire_lines(2) [OF wired(3)] unwired_wire [OF wired(3)]
      by (auto simp: unwired_def)
  qed
qed

text \<open>The edits of the file leave the packet filter alone.\<close>

lemma edits_keep_filter:
  "ensureAnchorReferences fault dryRun d = (d', r) \<Longrightarrow> pd_main d' = pd_main d \<and> pd_on d' = pd_on d"
  "removeAnchorReferences fault d = (d', r') \<Longrightarrow> pd_main d' = pd_main d \<and> pd_on d' = pd_on d"
  using atomicWrite_cases(4,5) [of _ _ d]
  by (fastforce simp: ensureAnchorReferences_def removeAnchorReferences_def split: sum.splits if_splits prod.splits option.splits)+

text \<open>Every outcome of \<open>Enable\<close>: on success the filter is on and the file references the anchors, and either it did before or the new text passed the dry
  run and is now loaded; when wiring fails the file is as before; when the reload fails the loaded rule set is the old one, and the file holds no line of
  abox, or the new text if the rollback failed too.\<close>

theorem Pf_Enable_outcome:
  assumes "Pf_Enable H d = (d', r)" and "pd_conf d = Some (t, m)"
  shows "case r of
      None \<Rightarrow> ph_enable H \<noteq> EnableFailed \<and> pd_on d' \<and> (\<exists>t'. pd_conf d' = Some (t', m) \<and> HasAnchorReferences t'
        \<and> (t' = t \<and> pd_main d' = pd_main d \<or> ph_dryRun H t' \<and> ph_reload H t' \<and> pd_main d' = t'))
    | Some (SvWire e) \<Rightarrow> pd_conf d' = Some (t, m) \<and> pd_main d' = pd_main d
    | Some SvEnable \<Rightarrow> \<exists>t'. pd_conf d' = Some (t', m) \<and> HasAnchorReferences t'
    | Some SvReload \<Rightarrow> \<not> HasAnchorReferences t \<and> \<not> ph_reload H (wire t) \<and> pd_main d' = pd_main d
        \<and> pd_conf d' = Some (lines_text (List.filter (\<lambda>l. \<not> line_in abox_lines l) (raw_lines t)), m)
    | Some (SvReloadNoRollback e) \<Rightarrow> pd_conf d' = Some (wire t, m) \<and> pd_main d' = pd_main d
    | Some _ \<Rightarrow> False"
proof -
  obtain d1 r1 where e: "ensureAnchorReferences (ph_fault H) (ph_dryRun H) d = (d1, r1)" by fastforce
  note k = edits_keep_filter(1) [OF e]
  from e assms(2) show ?thesis
  proof (cases rule: ensure_cases)
    case (failed x)
    then show ?thesis using assms e k by (auto simp: Pf_Enable_def)
  next
    case present
    then show ?thesis using assms e by (auto simp: Pf_Enable_def pf_switch_on_def split: pf_enable.splits)
  next
    case wired
    have h: "HasAnchorReferences (wire t)" by (rule wire_lines(2) [OF wired(3)])
    show ?thesis
    proof (cases "ph_reload H (wire t)")
      case True
      then show ?thesis using assms e wired h by (auto simp: Pf_Enable_def reloadPfConf_def pf_switch_on_def split: pf_enable.splits)
    next
      case False
      obtain d2 r2 where q: "removeAnchorReferences (ph_rollback_fault H) d1 = (d2, r2)" by fastforce
      note k2 = edits_keep_filter(2) [OF q]
      have "(d', r) = (d2, Some (case r2 of Inl x \<Rightarrow> SvReloadNoRollback x | Inr _ \<Rightarrow> SvReload))"
        using assms(1) e wired False q by (auto simp: Pf_Enable_def reloadPfConf_def split: sum.splits)
      with q wired(2) show ?thesis
        by (cases rule: remove_cases) (use wired h False k k2 wired_removable [OF h] unwired_wire [OF wired(3)] in \<open>auto simp: unwired_def\<close>)
    qed
  qed
qed

text \<open>The packet filter descends into the anchors of abox when it is on and its loaded rules reference them. \<open>Enable\<close> sees only the file: it brings this
  about when references in the file are loaded ones, which it also keeps.\<close>

definition evaluated :: "pf_disk \<Rightarrow> bool" where
  "evaluated d \<longleftrightarrow> pd_on d \<and> HasAnchorReferences (pd_main d)"

definition wired_loaded :: "pf_disk \<Rightarrow> bool" where
  "wired_loaded d \<longleftrightarrow> (\<forall>t m. pd_conf d = Some (t, m) \<longrightarrow> HasAnchorReferences t \<longrightarrow> HasAnchorReferences (pd_main d))"

lemma Pf_Enable_evaluates:
  assumes "Pf_Enable H d = (d', None)" "wired_loaded d"
  shows "evaluated d'" "wired_loaded d'"
proof -
  obtain t m where c: "pd_conf d = Some (t, m)"
    using assms(1) by (cases "pd_conf d") (auto simp: Pf_Enable_def ensureAnchorReferences_def readPfconf_def)
  from Pf_Enable_outcome [OF assms(1) c] assms(2) c show "evaluated d'" "wired_loaded d'"
    by (auto simp: evaluated_def wired_loaded_def)
qed

text \<open>References that are in the file without being loaded are never loaded by \<open>Enable\<close>: it reports success, and the anchors stay out of the rules.
  A failed reload whose rollback fails as well leaves such a file.\<close>

lemma unloaded_references_stay:
  assumes "pd_conf d = Some (t, m)" "HasAnchorReferences t" and "ph_fault H = None" "ph_enable H \<noteq> EnableFailed"
  shows "Pf_Enable H d = (d\<lparr>pd_on := True\<rparr>, None)"
  using assms by (cases "ph_enable H") (simp_all add: Pf_Enable_def ensureAnchorReferences_def readPfconf_def pf_switch_on_def)

lemma failed_rollback_unloaded:
  assumes "Pf_Enable H d = (d', Some (SvReloadNoRollback e))" "pd_conf d = Some (t, m)" "\<not> HasAnchorReferences (pd_main d)" "CanAutoWireAnchors t"
  shows "\<not> wired_loaded d'"
  using Pf_Enable_outcome [OF assms(1,2)] assms(3) wire_lines(2) [OF assms(4)] by (auto simp: wired_loaded_def)

section \<open>Witnesses\<close>

definition demo_lines :: "string list" where
  "demo_lines = [pfconfRdrAnchorMarker, pfconfFilterAnchorMarker]"

definition demo_conf :: pf_disk where
  "demo_conf = \<lparr>pd_conf = Some (lines_text demo_lines, 420), pd_temp = None, pd_main = lines_text demo_lines, pd_on = False\<rparr>"

lemma demo_lines_facts:
  "raw_lines (lines_text demo_lines) = demo_lines" "\<not> HasAnchorReferences (lines_text demo_lines)" "CanAutoWireAnchors (lines_text demo_lines)"
  "List.filter (\<lambda>l. \<not> line_in abox_lines l) demo_lines = demo_lines"
proof -
  have "\<forall>l \<in> set demo_lines. LF \<notin> set l" by (simp add: demo_lines_def anchor_defs go_eval)
  then show r: "raw_lines (lines_text demo_lines) = demo_lines" by (rule raw_lines_of_text)
  have n: "\<not> line_is x y" if "x \<in> set abox_lines" "y \<in> set demo_lines" for x y
    using that by (auto simp: demo_lines_def line_is_def anchor_trimmed) (simp_all add: anchor_defs)
  then show "\<not> HasAnchorReferences (lines_text demo_lines)" "List.filter (\<lambda>l. \<not> line_in abox_lines l) demo_lines = demo_lines"
    by (auto simp: HasAnchorReferences_def containsLine_lines anchor_lines r list_ex_iff line_in_def filter_id_conv)
  have "line_is pfconfRdrAnchorMarker pfconfRdrAnchorMarker" "line_is pfconfFilterAnchorMarker pfconfFilterAnchorMarker"
    by (simp_all add: line_is_def anchor_trimmed) (simp_all add: anchor_defs)
  then show "CanAutoWireAnchors (lines_text demo_lines)"
    by (simp add: CanAutoWireAnchors_def containsLine_lines anchor_lines r) (simp add: demo_lines_def)
qed

lemma demo_wired: "ensureAnchorReferences None (\<lambda>_. True) demo_conf = (demo_conf\<lparr>pd_conf := Some (wire (lines_text demo_lines), 420)\<rparr>, Inr True)"
  using demo_lines_facts(2,3)
  by (simp add: ensureAnchorReferences_def readPfconf_def demo_conf_def atomicWrite_def pf_write_stages_def Let_def)

theorem wire_teardown_roundtrip_witness:
  "\<exists>d''. removeAnchorReferences None (fst (ensureAnchorReferences None (\<lambda>_. True) demo_conf)) = (d'', Inr True) \<and> pd_conf d'' = pd_conf demo_conf"
  using wire_teardown_roundtrip [OF demo_wired, of "lines_text demo_lines" 420] demo_lines_facts(1,4) demo_wired by (auto simp: demo_conf_def)

definition demo_host :: pf_host where
  "demo_host = \<lparr>ph_dryRun = (\<lambda>_. True), ph_reload = (\<lambda>_. False), ph_enable = EnabledNow, ph_fault = None, ph_rollback_fault = None\<rparr>"

theorem Pf_Enable_outcome_witness:
  "snd (Pf_Enable demo_host demo_conf) = Some SvReload \<and> pd_conf (fst (Pf_Enable demo_host demo_conf)) = pd_conf demo_conf"
proof -
  obtain d' r where e: "Pf_Enable demo_host demo_conf = (d', r)" by fastforce
  have c: "pd_conf demo_conf = Some (lines_text demo_lines, 420)" by (simp add: demo_conf_def)
  have "\<exists>d''. removeAnchorReferences None (demo_conf\<lparr>pd_conf := Some (wire (lines_text demo_lines), 420)\<rparr>) = (d'', Inr True)"
    using remove_wired [of "demo_conf\<lparr>pd_conf := Some (wire (lines_text demo_lines), 420)\<rparr>" "wire (lines_text demo_lines)" 420]
      wire_lines(2) [OF demo_lines_facts(3)] by auto
  then have "r = Some SvReload" using e demo_wired by (auto simp: Pf_Enable_def demo_host_def reloadPfConf_def)
  then show ?thesis using Pf_Enable_outcome [OF e c] e c demo_lines_facts(1,4) by simp
qed

end
