(* ===== verification/Virsh.thy ===== *)
theory Virsh
  imports Config
begin

text \<open>
  \<^verbatim>\<open>internal/virsh/virsh.go\<close> and the managers of \<^verbatim>\<open>internal/backend/libvirt\<close> that call it (\<^verbatim>\<open>vm.go\<close>, \<^verbatim>\<open>network.go\<close>, \<^verbatim>\<open>snapshot.go\<close>).
  The command itself is an argument: it gets its arguments and its standard input, changes a state and
  either prints a text or fails. A query is a command of which only the output is looked at. Executing a template and decoding XML are arguments
  as well. The lemmas show that no value of an instance can leave the attribute it is put into, and how the printed listings are read.
\<close>

type_synonym 's commander = "string list \<Rightarrow> string \<Rightarrow> 's \<Rightarrow> 's \<times> string option"

section \<open>Escaping\<close>

definition escape_char :: "char \<Rightarrow> string" where
  "escape_char c =
     (if c = CHR ''&'' then ''&amp;'' else if c = CHR 0x27 then ''&#39;'' else if c = CHR ''<'' then ''&lt;''
      else if c = CHR ''>'' then ''&gt;'' else if c = CHR 0x22 then ''&#34;'' else [c])"

definition escapeXML :: "string \<Rightarrow> string" where
  "escapeXML s = concat (map escape_char s)"

definition netQueues :: "int \<Rightarrow> int" where
  "netQueues cpus = (let q = min cpus 4 in if q < 1 then 1 else q)"

section \<open>Documents\<close>

datatype virsh_error =
    VrName val_error | VrMAC val_error | VrGateway string | VrDNSPort int | VrHTTPPort int | VrGuestPort int
  | VrTemplate | VrCommand | VrSnapshot val_error

record network_data =
  nd_Bridge :: string
  nd_Gateway :: string

record domainTemplateData =
  td_Name :: string
  td_UUID :: string
  td_Memory :: int
  td_CPUs :: int
  td_NetQueues :: int
  td_DiskPath :: string
  td_CloudInitISO :: string
  td_MACAddress :: string
  td_Bridge :: string
  td_MonitorSocket :: string
  td_MonitorSocketUID :: int
  td_MonitorSocketGID :: int

record nwfilter_data =
  fd_Name :: string
  fd_UUID :: string
  fd_Gateway :: string
  fd_DNSPort :: int
  fd_HTTPPort :: int
  fd_GuestDNSPort :: int

text \<open>The templates that are compiled into the program, and what parsing and executing a template gives. The last two fields are the user and group of the process.\<close>

record virsh_env =
  ve_domainXMLTemplate :: string
  ve_exec_domain :: "string \<Rightarrow> domainTemplateData \<Rightarrow> string option"
  ve_exec_network :: "network_data \<Rightarrow> string option"
  ve_exec_nwfilter :: "nwfilter_data \<Rightarrow> string option"
  ve_uuid_of :: "string \<Rightarrow> string option"
  ve_uid :: int
  ve_gid :: int

definition executed :: "string option \<Rightarrow> virsh_error + string" where
  "executed r = (case r of None \<Rightarrow> Inl VrTemplate | Some x \<Rightarrow> Inr x)"

definition NetworkXML :: "virsh_env \<Rightarrow> Instance \<Rightarrow> virsh_error + string" where
  "NetworkXML E inst =
     (case ValidateInstanceName (i_Name inst) of Some e \<Rightarrow> Inl (VrName e) | None \<Rightarrow>
      if (case ParseIP (i_Gateway inst) of None \<Rightarrow> True | Some ip \<Rightarrow> To4 ip = None) then Inl (VrGateway (i_Gateway inst))
      else executed (ve_exec_network E \<lparr>nd_Bridge = escapeXML (i_Bridge inst), nd_Gateway = escapeXML (i_Gateway inst)\<rparr>))"

definition zero_domain_data :: domainTemplateData where
  "zero_domain_data = \<lparr>td_Name = [], td_UUID = [], td_Memory = 0, td_CPUs = 0, td_NetQueues = 0, td_DiskPath = [], td_CloudInitISO = [],
     td_MACAddress = [], td_Bridge = [], td_MonitorSocket = [], td_MonitorSocketUID = 0, td_MonitorSocketGID = 0\<rparr>"

definition ValidateTemplate :: "virsh_env \<Rightarrow> string \<Rightarrow> virsh_error option" where
  "ValidateTemplate E content = (case ve_exec_domain E content zero_domain_data of None \<Rightarrow> Some VrTemplate | Some _ \<Rightarrow> None)"

record DomainXMLOptions =
  dx_AssumeCloudInitExists :: bool
  dx_MonitorEnabled :: bool
  dx_UUID :: string
  dx_CustomTemplate :: string

text \<open>\<open>exists\<close> tells whether a file exists.\<close>

definition domain_data :: "virsh_env \<Rightarrow> (string \<Rightarrow> bool) \<Rightarrow> Instance \<Rightarrow> Paths \<Rightarrow> DomainXMLOptions \<Rightarrow> domainTemplateData" where
  "domain_data E exists inst paths opts =
     (let monitor = dx_MonitorEnabled opts \<and> p_MonitorSocket paths \<noteq> [] in
      \<lparr>td_Name = escapeXML (i_Name inst), td_UUID = dx_UUID opts, td_Memory = i_Memory inst, td_CPUs = i_CPUs inst,
       td_NetQueues = netQueues (i_CPUs inst), td_DiskPath = escapeXML (p_Disk paths),
       td_CloudInitISO = (if p_CloudInitISO paths \<noteq> [] \<and> (dx_AssumeCloudInitExists opts \<or> exists (p_CloudInitISO paths))
                          then escapeXML (p_CloudInitISO paths) else []),
       td_MACAddress = escapeXML (i_MACAddress inst), td_Bridge = escapeXML (i_Bridge inst),
       td_MonitorSocket = (if monitor then escapeXML (p_MonitorSocket paths) else []),
       td_MonitorSocketUID = (if monitor then ve_uid E else 0), td_MonitorSocketGID = (if monitor then ve_gid E else 0)\<rparr>)"

definition DomainXMLWithOptions ::
  "virsh_env \<Rightarrow> (string \<Rightarrow> bool) \<Rightarrow> Instance \<Rightarrow> Paths \<Rightarrow> DomainXMLOptions \<Rightarrow> virsh_error + string" where
  "DomainXMLWithOptions E exists inst paths opts =
     (case ValidateInstanceName (i_Name inst) of Some e \<Rightarrow> Inl (VrName e) | None \<Rightarrow>
      case ValidateMACAddress (i_MACAddress inst) of Some e \<Rightarrow> Inl (VrMAC e) | None \<Rightarrow>
      executed (ve_exec_domain E (if dx_CustomTemplate opts \<noteq> [] then dx_CustomTemplate opts else ve_domainXMLTemplate E)
                  (domain_data E exists inst paths opts)))"

definition NWFilterXML :: "virsh_env \<Rightarrow> Instance \<Rightarrow> string \<Rightarrow> int \<Rightarrow> virsh_error + string" where
  "NWFilterXML E inst uuid guestDNSPort =
     (case ValidateInstanceName (i_Name inst) of Some e \<Rightarrow> Inl (VrName e) | None \<Rightarrow>
      let dns = dc_Port (i_DNS inst); http = hc_Port (i_HTTP inst) in
      if dns < 1 \<or> dns > 65535 then Inl (VrDNSPort dns)
      else if http < 1 \<or> http > 65535 then Inl (VrHTTPPort http)
      else if guestDNSPort < 1 \<or> guestDNSPort > 65535 then Inl (VrGuestPort guestDNSPort)
      else executed (ve_exec_nwfilter E
             \<lparr>fd_Name = escapeXML (i_Name inst), fd_UUID = uuid, fd_Gateway = escapeXML (i_Gateway inst),
              fd_DNSPort = dns, fd_HTTPPort = http, fd_GuestDNSPort = guestDNSPort\<rparr>))"

section \<open>Commands\<close>

definition virsh_call :: "'s commander \<Rightarrow> string list \<Rightarrow> 's \<Rightarrow> 's \<times> string option" where
  "virsh_call cmd args s = cmd ([''-c'', ''qemu:///system''] @ args) [] s"

definition virsh_stdin :: "'s commander \<Rightarrow> string \<Rightarrow> string list \<Rightarrow> 's \<Rightarrow> 's \<times> virsh_error option" where
  "virsh_stdin cmd xml args s =
     (case cmd ([''-c'', ''qemu:///system''] @ args) xml s of (s', r) \<Rightarrow> (s', if r = None then Some VrCommand else None))"

definition virsh_do :: "'s commander \<Rightarrow> string list \<Rightarrow> 's \<Rightarrow> 's \<times> virsh_error option" where
  "virsh_do cmd args s = (case virsh_call cmd args s of (s', r) \<Rightarrow> (s', if r = None then Some VrCommand else None))"

definition virsh_ask :: "'s commander \<Rightarrow> string list \<Rightarrow> 's \<Rightarrow> string option" where
  "virsh_ask cmd args s = snd (virsh_call cmd args s)"

definition virshOutputContainsLine :: "'s commander \<Rightarrow> string \<Rightarrow> string list \<Rightarrow> 's \<Rightarrow> bool" where
  "virshOutputContainsLine cmd name args s =
     (case virsh_ask cmd args s of
        None \<Rightarrow> False
      | Some output \<Rightarrow> list_ex (\<lambda>line. TrimSpace line = name) (Split output LF))"

definition DefineNetwork :: "'s commander \<Rightarrow> string \<Rightarrow> 's \<Rightarrow> 's \<times> virsh_error option" where
  "DefineNetwork cmd xml s = virsh_stdin cmd xml [''net-define'', ''/dev/stdin''] s"

definition StartNetwork :: "'s commander \<Rightarrow> string \<Rightarrow> 's \<Rightarrow> 's \<times> virsh_error option" where
  "StartNetwork cmd name s = virsh_do cmd [''net-start'', name] s"

definition StopNetwork :: "'s commander \<Rightarrow> string \<Rightarrow> 's \<Rightarrow> 's \<times> virsh_error option" where
  "StopNetwork cmd name s = virsh_do cmd [''net-destroy'', name] s"

definition DeleteNetwork :: "'s commander \<Rightarrow> string \<Rightarrow> 's \<Rightarrow> 's \<times> virsh_error option" where
  "DeleteNetwork cmd name s = virsh_do cmd [''net-undefine'', name] (fst (virsh_call cmd [''net-destroy'', name] s))"

definition NetworkExists :: "'s commander \<Rightarrow> string \<Rightarrow> 's \<Rightarrow> bool" where
  "NetworkExists cmd name s = virshOutputContainsLine cmd name [''net-list'', ''--all'', ''--name''] s"

definition NetworkIsActive :: "'s commander \<Rightarrow> string \<Rightarrow> 's \<Rightarrow> bool" where
  "NetworkIsActive cmd name s = virshOutputContainsLine cmd name [''net-list'', ''--name''] s"

definition DefineDomain :: "'s commander \<Rightarrow> string \<Rightarrow> 's \<Rightarrow> 's \<times> virsh_error option" where
  "DefineDomain cmd xml s = virsh_stdin cmd xml [''define'', ''/dev/stdin''] s"

definition StartDomain :: "'s commander \<Rightarrow> string \<Rightarrow> 's \<Rightarrow> 's \<times> virsh_error option" where
  "StartDomain cmd name s = virsh_do cmd [''start'', name] s"

definition StopDomain :: "'s commander \<Rightarrow> string \<Rightarrow> 's \<Rightarrow> 's \<times> virsh_error option" where
  "StopDomain cmd name s = virsh_do cmd [''shutdown'', name] s"

definition ForceStopDomain :: "'s commander \<Rightarrow> string \<Rightarrow> 's \<Rightarrow> 's \<times> virsh_error option" where
  "ForceStopDomain cmd name s = virsh_do cmd [''destroy'', name] s"

definition DeleteDomain :: "'s commander \<Rightarrow> string \<Rightarrow> 's \<Rightarrow> 's \<times> virsh_error option" where
  "DeleteDomain cmd name s = virsh_do cmd [''undefine'', name, ''--remove-all-storage''] (fst (virsh_call cmd [''destroy'', name] s))"

definition DomainExists :: "'s commander \<Rightarrow> string \<Rightarrow> 's \<Rightarrow> bool" where
  "DomainExists cmd name s = virshOutputContainsLine cmd name [''list'', ''--all'', ''--name''] s"

definition DomainIsRunning :: "'s commander \<Rightarrow> string \<Rightarrow> 's \<Rightarrow> bool" where
  "DomainIsRunning cmd name s =
     (case virsh_ask cmd [''domstate'', name] s of None \<Rightarrow> False | Some output \<Rightarrow> TrimSpace output = ''running'')"

definition DomainState :: "'s commander \<Rightarrow> string \<Rightarrow> 's \<Rightarrow> string" where
  "DomainState cmd name s = (case virsh_ask cmd [''domstate'', name] s of None \<Rightarrow> ''unknown'' | Some output \<Rightarrow> TrimSpace output)"

definition GetDomainUUID :: "virsh_env \<Rightarrow> 's commander \<Rightarrow> string \<Rightarrow> 's \<Rightarrow> string" where
  "GetDomainUUID E cmd name s =
     (case virsh_ask cmd [''dumpxml'', name] s of None \<Rightarrow> []
      | Some output \<Rightarrow> (case ve_uuid_of E output of None \<Rightarrow> [] | Some uuid \<Rightarrow> TrimSpace uuid))"

definition GetNWFilterUUID :: "virsh_env \<Rightarrow> 's commander \<Rightarrow> string \<Rightarrow> 's \<Rightarrow> string" where
  "GetNWFilterUUID E cmd name s =
     (case virsh_ask cmd [''nwfilter-dumpxml'', name] s of None \<Rightarrow> []
      | Some output \<Rightarrow> (case ve_uuid_of E output of None \<Rightarrow> [] | Some uuid \<Rightarrow> uuid))"

definition DefineNWFilter :: "'s commander \<Rightarrow> string \<Rightarrow> 's \<Rightarrow> 's \<times> virsh_error option" where
  "DefineNWFilter cmd xml s = virsh_stdin cmd xml [''nwfilter-define'', ''/dev/stdin''] s"

definition DeleteNWFilter :: "'s commander \<Rightarrow> string \<Rightarrow> 's \<Rightarrow> 's \<times> virsh_error option" where
  "DeleteNWFilter cmd name s = virsh_do cmd [''nwfilter-undefine'', name] s"

definition NWFilterExists :: "'s commander \<Rightarrow> string \<Rightarrow> 's \<Rightarrow> bool" where
  "NWFilterExists cmd name s =
     (case virsh_ask cmd [''nwfilter-list''] s of
        None \<Rightarrow> False
      | Some output \<Rightarrow> list_ex (\<lambda>line. let fs = Fields line in 2 \<le> length fs \<and> fs ! 1 = name) (Split output LF))"

definition attr :: "string \<Rightarrow> string" where
  "attr v = CHR 0x27 # v @ [CHR 0x27]"

definition interface_xml :: "string \<Rightarrow> string \<Rightarrow> int \<Rightarrow> string list \<Rightarrow> string" where
  "interface_xml macAddress networkName cpus tail_lines =
     Join ([''<interface type='' @ attr ''network'' @ ''>'',
            ''  <mac address='' @ attr (escapeXML macAddress) @ ''/>'',
            ''  <source network='' @ attr (escapeXML networkName) @ ''/>'',
            ''  <model type='' @ attr ''virtio-non-transitional'' @ ''/>'',
            ''  <driver name='' @ attr ''vhost'' @ '' queues='' @ attr (Itoa_int (netQueues cpus)) @ ''/>'']
           @ tail_lines @ [''</interface>'']) [LF]"

definition ApplyNWFilter ::
  "'s commander \<Rightarrow> string \<Rightarrow> string \<Rightarrow> string \<Rightarrow> string \<Rightarrow> int \<Rightarrow> 's \<Rightarrow> 's \<times> virsh_error option" where
  "ApplyNWFilter cmd dom_name networkName filterName macAddress cpus s =
     (case ValidateMACAddress macAddress of Some e \<Rightarrow> (s, Some (VrMAC e)) | None \<Rightarrow>
      virsh_stdin cmd (interface_xml macAddress networkName cpus [''  <filterref filter='' @ attr (escapeXML filterName) @ ''/>''])
        [''update-device'', dom_name, ''/dev/stdin'', ''--live''] s)"

definition RemoveNWFilter :: "'s commander \<Rightarrow> string \<Rightarrow> string \<Rightarrow> string \<Rightarrow> int \<Rightarrow> 's \<Rightarrow> 's \<times> virsh_error option" where
  "RemoveNWFilter cmd dom_name networkName macAddress cpus s =
     (case ValidateMACAddress macAddress of Some e \<Rightarrow> (s, Some (VrMAC e)) | None \<Rightarrow>
      virsh_stdin cmd (interface_xml macAddress networkName cpus []) [''update-device'', dom_name, ''/dev/stdin'', ''--live''] s)"

section \<open>Snapshots\<close>

record SnapshotInfo =
  sn_Name :: string
  sn_CreationTime :: string
  sn_State :: string
  sn_Parent :: string
  sn_Current :: bool

definition snapshot_do :: "'s commander \<Rightarrow> string \<Rightarrow> string list \<Rightarrow> 's \<Rightarrow> 's \<times> virsh_error option" where
  "snapshot_do cmd snapshotName args s =
     (case ValidateSnapshotName snapshotName of Some e \<Rightarrow> (s, Some (VrSnapshot e)) | None \<Rightarrow> virsh_do cmd args s)"

definition CreateSnapshot :: "'s commander \<Rightarrow> string \<Rightarrow> string \<Rightarrow> string \<Rightarrow> 's \<Rightarrow> 's \<times> virsh_error option" where
  "CreateSnapshot cmd dom_name snapshotName description s =
     snapshot_do cmd snapshotName
       ([''snapshot-create-as'', dom_name, snapshotName] @ (if description \<noteq> [] then [''--description'', description] else [])) s"

definition DeleteSnapshot :: "'s commander \<Rightarrow> string \<Rightarrow> string \<Rightarrow> 's \<Rightarrow> 's \<times> virsh_error option" where
  "DeleteSnapshot cmd dom_name snapshotName s = snapshot_do cmd snapshotName [''snapshot-delete'', dom_name, snapshotName] s"

definition RevertSnapshot :: "'s commander \<Rightarrow> string \<Rightarrow> string \<Rightarrow> 's \<Rightarrow> 's \<times> virsh_error option" where
  "RevertSnapshot cmd dom_name snapshotName s = snapshot_do cmd snapshotName [''snapshot-revert'', dom_name, snapshotName] s"

definition SnapshotExists :: "'s commander \<Rightarrow> string \<Rightarrow> string \<Rightarrow> 's \<Rightarrow> bool" where
  "SnapshotExists cmd dom_name snapshotName s =
     (ValidateSnapshotName snapshotName = None \<and> virshOutputContainsLine cmd snapshotName [''snapshot-list'', dom_name, ''--name''] s)"

text \<open>One line of the output of \<open>snapshot-info\<close>, split at its first colon.\<close>

definition info_line :: "string \<Rightarrow> SnapshotInfo \<Rightarrow> SnapshotInfo" where
  "info_line line info =
     (case IndexByte line (CHR '':'') of
        None \<Rightarrow> info
      | Some i \<Rightarrow>
          (let key = TrimSpace (take i line); v = TrimSpace (drop (Suc i) line) in
           if key = ''Name'' then info\<lparr>sn_Name := v\<rparr>
           else if key = ''Creation Time'' then info\<lparr>sn_CreationTime := v\<rparr>
           else if key = ''State'' then info\<lparr>sn_State := v\<rparr>
           else if key = ''Parent'' then info\<lparr>sn_Parent := v\<rparr>
           else if key = ''Current'' then info\<lparr>sn_Current := (v = ''yes'')\<rparr>
           else info))"

definition GetSnapshotInfo :: "'s commander \<Rightarrow> string \<Rightarrow> string \<Rightarrow> 's \<Rightarrow> virsh_error + SnapshotInfo" where
  "GetSnapshotInfo cmd dom_name snapshotName s =
     (case ValidateSnapshotName snapshotName of Some e \<Rightarrow> Inl (VrSnapshot e) | None \<Rightarrow>
      case virsh_ask cmd [''snapshot-info'', dom_name, snapshotName] s of
        None \<Rightarrow> Inl VrCommand
      | Some output \<Rightarrow>
          Inr (fold info_line (Split output LF)
                 \<lparr>sn_Name = snapshotName, sn_CreationTime = [], sn_State = [], sn_Parent = [], sn_Current = False\<rparr>))"

definition ListSnapshots :: "'s commander \<Rightarrow> string \<Rightarrow> 's \<Rightarrow> virsh_error + SnapshotInfo list" where
  "ListSnapshots cmd dom_name s =
     (case virsh_ask cmd [''snapshot-list'', dom_name, ''--name''] s of
        None \<Rightarrow> Inl VrCommand
      | Some output \<Rightarrow>
          Inr (List.map_filter
                 (\<lambda>line. let name = TrimSpace line in
                    if name = [] then None else (case GetSnapshotInfo cmd dom_name name s of Inl _ \<Rightarrow> None | Inr info \<Rightarrow> Some info))
                 (Split (TrimSpace output) LF)))"

section \<open>The managers of libvirt\<close>

definition domainName :: "string \<Rightarrow> string" where
  "domainName instanceName = ''abox-'' @ instanceName"

record VMCreateOptions =
  vo_AssumeCloudInitExists :: bool
  vo_MonitorEnabled :: bool
  vo_UUID :: string
  vo_CustomTemplate :: string

definition libvirt_vm_Create ::
  "virsh_env \<Rightarrow> (string \<Rightarrow> bool) \<Rightarrow> 's commander \<Rightarrow> Instance \<Rightarrow> Paths \<Rightarrow> VMCreateOptions \<Rightarrow> 's \<Rightarrow> 's \<times> virsh_error option" where
  "libvirt_vm_Create E exists cmd inst paths opts s =
     (case DomainXMLWithOptions E exists inst paths
             \<lparr>dx_AssumeCloudInitExists = vo_AssumeCloudInitExists opts, dx_MonitorEnabled = vo_MonitorEnabled opts,
              dx_UUID = vo_UUID opts, dx_CustomTemplate = vo_CustomTemplate opts\<rparr> of
        Inl e \<Rightarrow> (s, Some e)
      | Inr xml \<Rightarrow> DefineDomain cmd xml s)"

definition libvirt_vm_Redefine ::
  "virsh_env \<Rightarrow> (string \<Rightarrow> bool) \<Rightarrow> 's commander \<Rightarrow> Instance \<Rightarrow> Paths \<Rightarrow> VMCreateOptions \<Rightarrow> 's \<Rightarrow> 's \<times> virsh_error option" where
  "libvirt_vm_Redefine E exists cmd inst paths opts s =
     libvirt_vm_Create E exists cmd inst paths
       (if vo_UUID opts = [] then opts\<lparr>vo_UUID := GetDomainUUID E cmd (domainName (i_Name inst)) s\<rparr> else opts) s"

datatype VMState = VMStateRunning | VMStateStopped | VMStatePaused | VMStateUnknown | VMStateCrashed | VMStateShutdown

definition libvirt_vm_State :: "'s commander \<Rightarrow> string \<Rightarrow> 's \<Rightarrow> VMState" where
  "libvirt_vm_State cmd name s =
     (let state = DomainState cmd (domainName name) s in
      if state = ''running'' then VMStateRunning else if state = ''shut off'' then VMStateStopped
      else if state = ''paused'' then VMStatePaused else if state = ''crashed'' then VMStateCrashed
      else if state = ''shutdown'' then VMStateShutdown else VMStateUnknown)"

definition libvirt_net_Create :: "virsh_env \<Rightarrow> 's commander \<Rightarrow> Instance \<Rightarrow> 's \<Rightarrow> 's \<times> virsh_error option" where
  "libvirt_net_Create E cmd inst s = (case NetworkXML E inst of Inl e \<Rightarrow> (s, Some e) | Inr xml \<Rightarrow> DefineNetwork cmd xml s)"

section \<open>No value leaves its attribute\<close>

definition markup :: "char \<Rightarrow> bool" where
  "markup c \<longleftrightarrow> c = CHR ''<'' \<or> c = CHR ''>'' \<or> c = CHR 0x27 \<or> c = CHR 0x22"

lemma escape_char_plain [simp]: "List.filter markup (escape_char c) = []"
  by (auto simp: escape_char_def markup_def)

lemma escapeXML_plain [simp]: "List.filter markup (escapeXML s) = []"
  by (induction s) (auto simp: escapeXML_def)

text \<open>Reading back what \<open>escapeXML\<close> wrote.\<close>

definition entities :: "(string \<times> char) list" where
  "entities = [(''amp;'', CHR ''&''), (''#39;'', CHR 0x27), (''lt;'', CHR ''<''), (''gt;'', CHR ''>''), (''#34;'', CHR 0x22)]"

fun unescape :: "nat \<Rightarrow> string \<Rightarrow> string" where
  "unescape 0 s = s"
| "unescape (Suc n) [] = []"
| "unescape (Suc n) (c # s) =
     (if c = CHR ''&'' then
        (case find (\<lambda>e. HasPrefix s (fst e)) entities of
           Some (e, d) \<Rightarrow> d # unescape n (drop (length e) s)
         | None \<Rightarrow> c # unescape n s)
      else c # unescape n s)"

lemma unescape_char: "unescape (Suc n) (escape_char c @ s) = c # unescape n s"
  by (auto simp: escape_char_def entities_def)

lemma unescape_escapeXML: "unescape (length s) (escapeXML s) = s"
  by (induction s) (auto simp: escapeXML_def unescape_char simp del: unescape.simps(3))

lemma netQueues_bounds: "1 \<le> netQueues n" "netQueues n \<le> 4"
  by (auto simp: netQueues_def Let_def min_def)

lemma filter_Join: "List.filter P (Join xs sep) = Join (map (List.filter P) xs) (List.filter P sep)"
  by (induction xs sep rule: Join.induct) auto

lemma Itoa_plain [simp]: "List.filter markup (Itoa n) = []"
proof -
  have "list_all is_digit (Itoa n)" by (rule Itoa_digits)
  then show ?thesis by (auto simp: list_all_iff filter_empty_conv markup_def is_digit_def code_def)
qed

lemma Itoa_int_plain [simp]: "List.filter markup (Itoa_int n) = []"
  by (auto simp: Itoa_int_def markup_def)

text \<open>The markup of the document that binds the filter is that of its skeleton, whatever the address, the network, the filter and the number of processors are.\<close>

lemma interface_markup:
  "List.filter markup (interface_xml mac net cpus (map (\<lambda>f. ''  <filterref filter='' @ attr (escapeXML f) @ ''/>'') fs))
     = List.filter markup (interface_xml [] [] 0 (map (\<lambda>f. ''  <filterref filter='' @ attr [] @ ''/>'') fs))"
proof -
  have a: "List.filter markup (attr v) = [CHR 0x27] @ List.filter markup v @ [CHR 0x27]" for v by (simp add: attr_def markup_def)
  note plain = filter_append a escapeXML_plain Itoa_int_plain filter.simps(1)
  have e: "map (List.filter markup) (map (\<lambda>f. ''  <filterref filter='' @ attr (escapeXML f) @ ''/>'') fs)
      = map (List.filter markup) (map (\<lambda>f. ''  <filterref filter='' @ attr [] @ ''/>'') fs)"
    by (simp only: map_map o_def plain)
  show ?thesis unfolding interface_xml_def filter_Join map_append e by (simp only: list.map plain)
qed

end
