(* ===== verification/Egress_Control.thy ===== *)
theory Egress_Control
  imports Egress_Enforced PF_Conf Virsh
begin

text \<open>
  The egress controllers of the backends, which tie a guest to the rules of the privileged helpers: \<open>BuildEgressPolicy\<close> of
  \<^verbatim>\<open>internal/backend/backend.go\<close>, the client of the Linux helper (\<^verbatim>\<open>internal/firewall/egress.go\<close>), the shared bases
  (\<^verbatim>\<open>internal/backend/egress\<close>) and the controllers of libvirt, VMware and vfkit. A controller reads a state \<open>'v\<close> of the host (configuration, processes)
  and changes the state \<open>'p\<close> of the packet filters. The locale \<open>confining\<close> is what the commands rely on of a controller; each controller
  of the model is shown to keep it, over the models of the two helpers.
\<close>

section \<open>The policy\<close>

record EgressPolicy =
  ep_DNSPort :: int
  ep_HTTPPort :: int
  ep_GuestDNSPort :: int
  ep_Gateway :: string

definition standardDNSPort :: int where
  "standardDNSPort = 53"

definition BuildEgressPolicy :: "Instance \<Rightarrow> EgressPolicy" where
  "BuildEgressPolicy inst =
     \<lparr>ep_DNSPort = dc_Port (i_DNS inst), ep_HTTPPort = hc_Port (i_HTTP inst), ep_GuestDNSPort = standardDNSPort, ep_Gateway = i_Gateway inst\<rparr>"

definition int32 :: "int \<Rightarrow> int" where
  "int32 n = sint (word_of_int n :: 32 word)"

definition egressReq :: "string \<Rightarrow> EgressPolicy \<Rightarrow> EgressReq" where
  "egressReq bridge p =
     \<lparr>eq_Bridge = bridge, eq_GuestDnsPort = int32 (ep_GuestDNSPort p), eq_DnsPort = int32 (ep_DNSPort p),
      eq_HttpPort = int32 (ep_HTTPPort p), eq_Gateway = ep_Gateway p\<rparr>"

section \<open>Controllers\<close>

datatype ctl_error =
    CtlNotConfigured | CtlAcquire string | CtlTransport | CtlEgress egress_error | CtlVirsh virsh_error
  | CtlPf pf_error | CtlPfService pf_service_error | CtlNoVnet string | CtlNoBridge string | CtlNotInForce string | CtlMarker os_error | CtlPath path_error

record ('v, 'p) controller =
  ctl_Define :: "Instance \<Rightarrow> EgressPolicy \<Rightarrow> 'v \<Rightarrow> 'p \<Rightarrow> 'p \<times> ctl_error option"
  ctl_Apply :: "Instance \<Rightarrow> 'v \<Rightarrow> 'p \<Rightarrow> 'p \<times> ctl_error option"
  ctl_Remove :: "Instance \<Rightarrow> 'v \<Rightarrow> 'p \<Rightarrow> 'p \<times> ctl_error option"
  ctl_Verify :: "Instance \<Rightarrow> 'v \<Rightarrow> 'p \<Rightarrow> ctl_error + bool"
  ctl_VerifyEnforced :: "Instance \<Rightarrow> 'v \<Rightarrow> 'p \<Rightarrow> ctl_error + bool"

text \<open>A provider that was not injected is \<open>None\<close>; else it acquires the helper or fails. A call over the connection can
  get lost on its way there or on its way back.\<close>

type_synonym provider = "string option option"

definition ResolveEnforcer :: "provider \<Rightarrow> ctl_error option" where
  "ResolveEnforcer p = (case p of None \<Rightarrow> Some CtlNotConfigured | Some None \<Rightarrow> None | Some (Some e) \<Rightarrow> Some (CtlAcquire e))"

datatype rpc_outcome = Delivered | LostRequest | LostReply

definition over_rpc :: "rpc_outcome \<Rightarrow> ('e \<Rightarrow> ctl_error) \<Rightarrow> ('p \<Rightarrow> 'p \<times> 'e option) \<Rightarrow> 'p \<Rightarrow> 'p \<times> ctl_error option" where
  "over_rpc r wrap f p =
     (case r of
        Delivered \<Rightarrow> (case f p of (p', e) \<Rightarrow> (p', map_option wrap e))
      | LostRequest \<Rightarrow> (p, Some CtlTransport)
      | LostReply \<Rightarrow> (fst (f p), Some CtlTransport))"

lemma over_rpc_ok: "over_rpc r wrap f p = (p', None) \<longleftrightarrow> r = Delivered \<and> f p = (p', None)"
  by (auto simp: over_rpc_def split: rpc_outcome.splits prod.splits)

lemma over_rpc_state: "fst (over_rpc r wrap f p) = p \<or> fst (over_rpc r wrap f p) = fst (f p)"
  by (auto simp: over_rpc_def split: rpc_outcome.splits prod.splits)

section \<open>Linux\<close>

datatype egress_call = CallApply | CallRemove | CallVerify

record ('v, 'x, 'y) linux_env =
  le_V :: "('x, 'y) egress_env"
  le_provider :: "'v \<Rightarrow> provider"
  le_rpc :: "'v \<Rightarrow> egress_call \<Rightarrow> rpc_outcome"

definition enf_Apply :: "('v, 'x, 'y) linux_env \<Rightarrow> 'v \<Rightarrow> string \<Rightarrow> EgressPolicy \<Rightarrow> ('x, 'y) tables \<Rightarrow> ('x, 'y) tables \<times> ctl_error option" where
  "enf_Apply L v bridge p t = over_rpc (le_rpc L v CallApply) CtlEgress (Egress_Apply (le_V L) (egressReq bridge p)) t"

definition enf_Remove :: "('v, 'x, 'y) linux_env \<Rightarrow> 'v \<Rightarrow> string \<Rightarrow> EgressPolicy \<Rightarrow> ('x, 'y) tables \<Rightarrow> ('x, 'y) tables \<times> ctl_error option" where
  "enf_Remove L v bridge p t = over_rpc (le_rpc L v CallRemove) CtlEgress (Egress_Remove (le_V L) (egressReq bridge p)) t"

definition enf_Verify :: "('v, 'x, 'y) linux_env \<Rightarrow> 'v \<Rightarrow> string \<Rightarrow> EgressPolicy \<Rightarrow> ('x, 'y) tables \<Rightarrow> ctl_error + bool" where
  "enf_Verify L v bridge p t =
     (if le_rpc L v CallVerify = Delivered
      then (case Egress_Verify (le_V L) (egressReq bridge p) t of Inl e \<Rightarrow> Inl (CtlEgress e) | Inr ok \<Rightarrow> Inr ok)
      else Inl CtlTransport)"

subsection \<open>libvirt\<close>

text \<open>The state of the packet filters is that of the tables and that of libvirt's filters.\<close>

definition filterName :: "string \<Rightarrow> string" where
  "filterName instanceName = ''abox-'' @ instanceName @ ''-traffic''"

definition libvirt_Define ::
  "('v, 'x, 'y) linux_env \<Rightarrow> virsh_env \<Rightarrow> 'n commander \<Rightarrow> Instance \<Rightarrow> EgressPolicy \<Rightarrow> 'v \<Rightarrow> ('x, 'y) tables \<times> 'n \<Rightarrow> (('x, 'y) tables \<times> 'n) \<times> ctl_error option" where
  "libvirt_Define L E cmd inst p v s =
     (case s of (t, n) \<Rightarrow>
      let fname = filterName (i_Name inst); existingUUID = GetNWFilterUUID E cmd fname n;
          undo = (\<lambda>n'. if existingUUID = [] then fst (DeleteNWFilter cmd fname n') else n') in
      case NWFilterXML E inst existingUUID (ep_GuestDNSPort p) of Inl e \<Rightarrow> (s, Some (CtlVirsh e)) | Inr xml \<Rightarrow>
      case DefineNWFilter cmd xml n of (n1, Some e) \<Rightarrow> ((t, n1), Some (CtlVirsh e)) | (n1, None) \<Rightarrow>
      case ResolveEnforcer (le_provider L v) of Some e \<Rightarrow> ((t, undo n1), Some e) | None \<Rightarrow>
      case enf_Apply L v (i_Bridge inst) p t of (t', Some e) \<Rightarrow> ((t', undo n1), Some e) | (t', None) \<Rightarrow> ((t', n1), None))"

definition libvirt_Apply :: "'n commander \<Rightarrow> Instance \<Rightarrow> 'v \<Rightarrow> ('x, 'y) tables \<times> 'n \<Rightarrow> (('x, 'y) tables \<times> 'n) \<times> ctl_error option" where
  "libvirt_Apply cmd inst v s =
     (case ApplyNWFilter cmd (domainName (i_Name inst)) (i_Bridge inst) (filterName (i_Name inst)) (i_MACAddress inst) (i_CPUs inst) (snd s) of
        (n', e) \<Rightarrow> ((fst s, n'), map_option CtlVirsh e))"

definition libvirt_Remove ::
  "('v, 'x, 'y) linux_env \<Rightarrow> 'n commander \<Rightarrow> Instance \<Rightarrow> 'v \<Rightarrow> ('x, 'y) tables \<times> 'n \<Rightarrow> (('x, 'y) tables \<times> 'n) \<times> ctl_error option" where
  "libvirt_Remove L cmd inst v s =
     (case s of (t, n) \<Rightarrow>
      let t' = (case ResolveEnforcer (le_provider L v) of Some _ \<Rightarrow> t | None \<Rightarrow> fst (enf_Remove L v (i_Bridge inst) (BuildEgressPolicy inst) t));
          name = filterName (i_Name inst) in
      if \<not> NWFilterExists cmd name n then ((t', n), None)
      else (case DeleteNWFilter cmd name n of (n', e) \<Rightarrow> ((t', n'), map_option CtlVirsh e)))"

definition linux_VerifyEnforced :: "('v, 'x, 'y) linux_env \<Rightarrow> string \<Rightarrow> Instance \<Rightarrow> 'v \<Rightarrow> ('x, 'y) tables \<Rightarrow> ctl_error + bool" where
  "linux_VerifyEnforced L iface inst v t =
     (case ResolveEnforcer (le_provider L v) of Some e \<Rightarrow> Inl e | None \<Rightarrow> enf_Verify L v iface (BuildEgressPolicy inst) t)"

definition libvirt_controller :: "('v, 'x, 'y) linux_env \<Rightarrow> virsh_env \<Rightarrow> 'n commander \<Rightarrow> ('v, ('x, 'y) tables \<times> 'n) controller" where
  "libvirt_controller L E cmd =
     \<lparr>ctl_Define = libvirt_Define L E cmd, ctl_Apply = libvirt_Apply cmd, ctl_Remove = libvirt_Remove L cmd,
      ctl_Verify = (\<lambda>inst v s. Inr (NWFilterExists cmd (filterName (i_Name inst)) (snd s))),
      ctl_VerifyEnforced = (\<lambda>inst v s. linux_VerifyEnforced L (i_Bridge inst) inst v (fst s))\<rparr>"

subsection \<open>VMware\<close>

definition vnetFor :: "Instance \<Rightarrow> ctl_error + string" where
  "vnetFor inst = (case BackendString (Some inst) ''vnet'' of (s, ok) \<Rightarrow> if ok \<and> s \<noteq> [] then Inr s else Inl (CtlNoVnet (i_Name inst)))"

definition vmware_Define ::
  "('v, 'x, 'y) linux_env \<Rightarrow> Instance \<Rightarrow> EgressPolicy \<Rightarrow> 'v \<Rightarrow> ('x, 'y) tables \<Rightarrow> ('x, 'y) tables \<times> ctl_error option" where
  "vmware_Define L inst p v t =
     (case vnetFor inst of Inl e \<Rightarrow> (t, Some e) | Inr vnet \<Rightarrow>
      case ResolveEnforcer (le_provider L v) of Some e \<Rightarrow> (t, Some e) | None \<Rightarrow>
      case enf_Apply L v vnet p t of (t', Some e) \<Rightarrow> (t', Some e) | (t', None) \<Rightarrow>
      case enf_Verify L v vnet p t' of Inl e \<Rightarrow> (t', Some e) | Inr ok \<Rightarrow> (t', if ok then None else Some (CtlNotInForce vnet)))"

definition vmware_Remove :: "('v, 'x, 'y) linux_env \<Rightarrow> Instance \<Rightarrow> 'v \<Rightarrow> ('x, 'y) tables \<Rightarrow> ('x, 'y) tables \<times> ctl_error option" where
  "vmware_Remove L inst v t =
     (case vnetFor inst of Inl _ \<Rightarrow> (t, None) | Inr vnet \<Rightarrow>
      case ResolveEnforcer (le_provider L v) of Some _ \<Rightarrow> (t, None) | None \<Rightarrow> (fst (enf_Remove L v vnet (BuildEgressPolicy inst) t), None))"

text \<open>\<open>lookup\<close> is the search in the registry of allocated networks.\<close>

definition vmware_controller :: "('v, 'x, 'y) linux_env \<Rightarrow> ('v \<Rightarrow> Instance \<Rightarrow> path_error + bool) \<Rightarrow> ('v, ('x, 'y) tables) controller" where
  "vmware_controller L lookup =
     \<lparr>ctl_Define = vmware_Define L, ctl_Apply = (\<lambda>inst v t. (t, None)), ctl_Remove = vmware_Remove L,
      ctl_Verify = (\<lambda>inst v t. case lookup v inst of Inl e \<Rightarrow> Inl (CtlPath e) | Inr ok \<Rightarrow> Inr ok),
      ctl_VerifyEnforced = (\<lambda>inst v t. case vnetFor inst of Inl e \<Rightarrow> Inl e | Inr vnet \<Rightarrow> linux_VerifyEnforced L vnet inst v t)\<rparr>"

section \<open>macOS\<close>

text \<open>The rules in the anchors, the main rule file with the state of the packet filter it is loaded into, and the marker files of the instances.\<close>

record 'k pf_world =
  pw_kernel :: 'k
  pw_disk :: pf_disk
  pw_marker :: "string \<Rightarrow> bool"

datatype pf_call = CallEnable | CallLoad | CallFlush

record ('v, 'k) pf_env =
  pe_run :: "'k pfctl"
  pe_host :: "'v \<Rightarrow> pf_host"
  pe_provider :: "'v \<Rightarrow> provider"
  pe_rpc :: "'v \<Rightarrow> pf_call \<Rightarrow> rpc_outcome"
  pe_write_marker :: "'v \<Rightarrow> bool"
  pe_remove_marker :: "'v \<Rightarrow> os_error option"
  pe_load :: "'v \<Rightarrow> string \<Rightarrow> config_error + (Instance \<times> Paths)"

definition pf_Enable :: "('v, 'k) pf_env \<Rightarrow> 'v \<Rightarrow> 'k pf_world \<Rightarrow> 'k pf_world \<times> ctl_error option" where
  "pf_Enable P v w =
     over_rpc (pe_rpc P v CallEnable) CtlPfService
       (\<lambda>w. case Pf_Enable (pe_host P v) (pw_disk w) of (d, e) \<Rightarrow> (w\<lparr>pw_disk := d\<rparr>, e)) w"

definition pf_LoadAnchor :: "('v, 'k) pf_env \<Rightarrow> 'v \<Rightarrow> string \<Rightarrow> string \<Rightarrow> string \<Rightarrow> 'k pf_world \<Rightarrow> 'k pf_world \<times> ctl_error option" where
  "pf_LoadAnchor P v name subnet rules w =
     over_rpc (pe_rpc P v CallLoad) CtlPf
       (\<lambda>w. case LoadAnchor (pe_run P) name subnet rules (pw_kernel w) of (k, e) \<Rightarrow> (w\<lparr>pw_kernel := k\<rparr>, e)) w"

definition pf_FlushAnchor :: "('v, 'k) pf_env \<Rightarrow> 'v \<Rightarrow> string \<Rightarrow> 'k pf_world \<Rightarrow> 'k pf_world \<times> ctl_error option" where
  "pf_FlushAnchor P v name w =
     over_rpc (pe_rpc P v CallFlush) CtlPf
       (\<lambda>w. case FlushAnchor (pe_run P) name (pw_kernel w) of (k, e) \<Rightarrow> (w\<lparr>pw_kernel := k\<rparr>, e)) w"

definition LoadInstanceAnchor ::
  "('v, 'k) pf_env \<Rightarrow> Instance \<Rightarrow> string \<Rightarrow> EgressPolicy \<Rightarrow> 'v \<Rightarrow> 'k pf_world \<Rightarrow> 'k pf_world \<times> ctl_error option" where
  "LoadInstanceAnchor P inst iface pol v w =
     (case InstanceRules (i_Name inst) (i_Subnet inst) (i_Gateway inst) iface (ep_DNSPort pol) (ep_HTTPPort pol) of
        Inl e \<Rightarrow> (w, Some (CtlPf e))
      | Inr rules \<Rightarrow>
     (case ResolveEnforcer (pe_provider P v) of Some e \<Rightarrow> (w, Some e) | None \<Rightarrow>
     (case pf_LoadAnchor P v (i_Name inst) (i_Subnet inst) rules w of
        (w', Some e) \<Rightarrow> (w', Some e)
      | (w', None) \<Rightarrow> (if pe_write_marker P v then w'\<lparr>pw_marker := (pw_marker w')(i_Name inst := True)\<rparr> else w', None))))"

definition LoadPreBootDeny :: "('v, 'k) pf_env \<Rightarrow> Instance \<Rightarrow> 'v \<Rightarrow> 'k pf_world \<Rightarrow> 'k pf_world \<times> ctl_error option" where
  "LoadPreBootDeny P inst v w =
     (case PreBootDenyRules (i_Name inst) (i_Subnet inst) (ep_HTTPPort (BuildEgressPolicy inst)) of
        Inl e \<Rightarrow> (w, Some (CtlPf e))
      | Inr rules \<Rightarrow>
     (case ResolveEnforcer (pe_provider P v) of Some e \<Rightarrow> (w, Some e) | None \<Rightarrow> pf_LoadAnchor P v (i_Name inst) (i_Subnet inst) rules w))"

definition pf_Remove :: "('v, 'k) pf_env \<Rightarrow> Instance \<Rightarrow> 'v \<Rightarrow> 'k pf_world \<Rightarrow> 'k pf_world \<times> ctl_error option" where
  "pf_Remove P inst v w =
     (let w' = (case ResolveEnforcer (pe_provider P v) of Some _ \<Rightarrow> w | None \<Rightarrow> fst (pf_FlushAnchor P v (i_Name inst) w)) in
      case pe_remove_marker P v of
        None \<Rightarrow> (w'\<lparr>pw_marker := (pw_marker w')(i_Name inst := False)\<rparr>, None)
      | Some e \<Rightarrow> (w', if e = os_error.ErrNotExist then None else Some (CtlMarker e)))"

definition pf_Verify :: "Instance \<Rightarrow> 'v \<Rightarrow> 'k pf_world \<Rightarrow> ctl_error + bool" where
  "pf_Verify inst v w = Inr (pw_marker w (i_Name inst))"

definition bridgeFromConfig :: "Instance \<Rightarrow> string" where
  "bridgeFromConfig inst = fst (BackendString (Some inst) ''bridge'')"

definition bridgeFor :: "('v, 'k) pf_env \<Rightarrow> 'v \<Rightarrow> Instance \<Rightarrow> ctl_error + string" where
  "bridgeFor P v inst =
     (if bridgeFromConfig inst \<noteq> [] then Inr (bridgeFromConfig inst)
      else case pe_load P v (i_Name inst) of
        Inl _ \<Rightarrow> Inl (CtlNoBridge (i_Name inst))
      | Inr (reloaded, _) \<Rightarrow> if bridgeFromConfig reloaded \<noteq> [] then Inr (bridgeFromConfig reloaded) else Inl (CtlNoBridge (i_Name inst)))"

definition vfkit_Define :: "('v, 'k) pf_env \<Rightarrow> Instance \<Rightarrow> EgressPolicy \<Rightarrow> 'v \<Rightarrow> 'k pf_world \<Rightarrow> 'k pf_world \<times> ctl_error option" where
  "vfkit_Define P inst pol v w =
     (case ResolveEnforcer (pe_provider P v) of Some e \<Rightarrow> (w, Some e) | None \<Rightarrow>
      case pf_Enable P v w of (w', Some e) \<Rightarrow> (w', Some e) | (w', None) \<Rightarrow> LoadPreBootDeny P inst v w')"

definition vfkit_Apply :: "('v, 'k) pf_env \<Rightarrow> Instance \<Rightarrow> 'v \<Rightarrow> 'k pf_world \<Rightarrow> 'k pf_world \<times> ctl_error option" where
  "vfkit_Apply P inst v w =
     (case bridgeFor P v inst of Inl e \<Rightarrow> (w, Some e) | Inr bridge \<Rightarrow> LoadInstanceAnchor P inst bridge (BuildEgressPolicy inst) v w)"

definition vfkit_controller :: "('v, 'k) pf_env \<Rightarrow> ('v, 'k pf_world) controller" where
  "vfkit_controller P =
     \<lparr>ctl_Define = vfkit_Define P, ctl_Apply = vfkit_Apply P, ctl_Remove = pf_Remove P, ctl_Verify = pf_Verify, ctl_VerifyEnforced = pf_Verify\<rparr>"

definition fusion_Define :: "('v, 'k) pf_env \<Rightarrow> Instance \<Rightarrow> EgressPolicy \<Rightarrow> 'v \<Rightarrow> 'k pf_world \<Rightarrow> 'k pf_world \<times> ctl_error option" where
  "fusion_Define P inst pol v w =
     (case vnetFor inst of Inl e \<Rightarrow> (w, Some e) | Inr vnet \<Rightarrow>
      case ResolveEnforcer (pe_provider P v) of Some e \<Rightarrow> (w, Some e) | None \<Rightarrow>
      case pf_Enable P v w of (w', Some e) \<Rightarrow> (w', Some e) | (w', None) \<Rightarrow> LoadInstanceAnchor P inst vnet pol v w')"

definition fusion_controller :: "('v, 'k) pf_env \<Rightarrow> ('v, 'k pf_world) controller" where
  "fusion_controller P =
     \<lparr>ctl_Define = fusion_Define P, ctl_Apply = (\<lambda>inst v w. (w, None)), ctl_Remove = pf_Remove P, ctl_Verify = pf_Verify, ctl_VerifyEnforced = pf_Verify\<rparr>"

section \<open>What the commands rely on\<close>

text \<open>The ports of the daemons are recorded in an instance when they are known.\<close>

definition set_ports :: "Instance \<Rightarrow> int \<Rightarrow> int \<Rightarrow> Instance" where
  "set_ports inst dns http = inst\<lparr>i_DNS := (i_DNS inst)\<lparr>dc_Port := dns\<rparr>, i_HTTP := (i_HTTP inst)\<lparr>hc_Port := http\<rparr>\<rparr>"

lemma set_ports_simps [simp]:
  "i_Name (set_ports inst d h) = i_Name inst" "i_Bridge (set_ports inst d h) = i_Bridge inst" "i_Subnet (set_ports inst d h) = i_Subnet inst"
  "i_Gateway (set_ports inst d h) = i_Gateway inst" "dc_Port (i_DNS (set_ports inst d h)) = d" "hc_Port (i_HTTP (set_ports inst d h)) = h"
  "i_BackendConfig (set_ports inst d h) = i_BackendConfig inst" "set_ports (set_ports inst d h) d' h' = set_ports inst d' h'"
  by (simp_all add: set_ports_def)

lemma vnetFor_set_ports [simp]: "vnetFor (set_ports inst d h) = vnetFor inst"
  by (simp add: vnetFor_def BackendString_def backend_value_def split: prod.splits)

text \<open>A controller keeps an invariant of the packet filters; once it has defined the policy of an instance the guest is confined, and stays so
  whatever happens when the policy is applied; an applied policy is enforced as it is written, on a host in the state it was applied in.\<close>

locale confining =
  fixes K :: "('v, 'p) controller" and inv :: "'p \<Rightarrow> bool" and okay :: "Instance \<Rightarrow> bool" and confined :: "Instance \<Rightarrow> 'p \<Rightarrow> bool"
    and enforced :: "Instance \<Rightarrow> 'v \<Rightarrow> 'p \<Rightarrow> bool"
  assumes okay_ports: "okay inst \<Longrightarrow> okay (set_ports inst d h)"
    and define_inv: "inv p \<Longrightarrow> okay inst \<Longrightarrow> ctl_Define K inst (BuildEgressPolicy inst) v p = (p', None) \<Longrightarrow> inv p'"
    and apply_inv: "inv p \<Longrightarrow> okay inst \<Longrightarrow> inv (fst (ctl_Apply K inst v p))"
    and remove_inv: "inv p \<Longrightarrow> okay inst \<Longrightarrow> inv (fst (ctl_Remove K inst v p))"
    and define_confines: "inv p \<Longrightarrow> okay inst \<Longrightarrow> ctl_Define K inst (BuildEgressPolicy inst) v p = (p', None) \<Longrightarrow> confined inst p'"
    and apply_confines: "inv p \<Longrightarrow> okay inst \<Longrightarrow> confined inst p \<Longrightarrow> confined inst (fst (ctl_Apply K inst v p))"
    and apply_enforces: "inv p \<Longrightarrow> okay inst \<Longrightarrow> confined inst p \<Longrightarrow> ctl_Apply K inst v p = (p', None) \<Longrightarrow> enforced inst v p'"

section \<open>The controllers of Linux\<close>

definition bridge_confined :: "('x, 'y) egress_env \<Rightarrow> ('x \<Rightarrow> chains) \<Rightarrow> ('y \<Rightarrow> chains) \<Rightarrow> EgressReq \<Rightarrow> ('x, 'y) tables \<Rightarrow> bool" where
  "bridge_confined V ft4 ft6 req s \<longleftrightarrow>
     (\<forall>n p. pk_in p = eq_Bridge req \<longrightarrow>
        walk (Suc n) (ft4 (fst s)) (the (ft4 (fst s) ''INPUT'')) p = Some (verdict_of (guest_may req p))
        \<and> walk (Suc n) (ft4 (fst s)) (the (ft4 (fst s) ''FORWARD'')) p = Some (verdict_of (pk_established p))
        \<and> (if ee_has6 V
            then walk (Suc n) (ft6 (snd s)) (the (ft6 (snd s) ''INPUT'')) p = Some (verdict_of (pk_established p))
              \<and> walk (Suc n) (ft6 (snd s)) (the (ft6 (snd s) ''FORWARD'')) p = Some (verdict_of (pk_established p))
            else \<not> ee_ipv6Enabled V))"

abbreviation linux_confined :: "('v, 'x, 'y) linux_env \<Rightarrow> ('x \<Rightarrow> chains) \<Rightarrow> ('y \<Rightarrow> chains) \<Rightarrow> string \<Rightarrow> Instance \<Rightarrow> ('x, 'y) tables \<Rightarrow> bool" where
  "linux_confined L ft4 ft6 iface inst \<equiv> bridge_confined (le_V L) ft4 ft6 (egressReq iface (BuildEgressPolicy inst))"

lemma egressReq_bridge [simp]: "eq_Bridge (egressReq b p) = b"
  by (simp add: egressReq_def)

lemma enf_Apply_confines:
  assumes "iptables (ee_4 (le_V L)) ft4" "iptables (ee_6 (le_V L)) ft6" "distinct_chains (ee_sum256 (le_V L)) B"
    and "egress_reach (le_V L) ft4 ft6 B t" "iface \<in> B" and "enf_Apply L v iface p t = (t', None)"
  shows "bridge_confined (le_V L) ft4 ft6 (egressReq iface p) t'"
  using Apply_walks [OF assms(1-4), of "egressReq iface p" t'] assms(5,6) by (auto simp: enf_Apply_def over_rpc_ok bridge_confined_def)

lemma enf_reach:
  assumes "egress_reach (le_V L) ft4 ft6 B t" "iface \<in> B"
  shows "egress_reach (le_V L) ft4 ft6 B (fst (enf_Apply L v iface p t))" "egress_reach (le_V L) ft4 ft6 B (fst (enf_Remove L v iface p t))"
  using assms over_rpc_state [of "le_rpc L v CallApply" CtlEgress "Egress_Apply (le_V L) (egressReq iface p)" t]
    over_rpc_state [of "le_rpc L v CallRemove" CtlEgress "Egress_Remove (le_V L) (egressReq iface p)" t]
    apply_step [of "le_V L" ft4 ft6 B t "egressReq iface p"] remove_step [of "le_V L" ft4 ft6 B t "egressReq iface p"]
  by (auto simp: enf_Apply_def enf_Remove_def)

lemma libvirt_Define_tables:
  "fst (fst (libvirt_Define L E cmd inst p v s)) = fst s \<or> fst (fst (libvirt_Define L E cmd inst p v s)) = fst (enf_Apply L v (i_Bridge inst) p (fst s))"
  by (auto simp: libvirt_Define_def Let_def split: prod.splits sum.splits option.splits)

lemma libvirt_Define_ok:
  "libvirt_Define L E cmd inst p v s = (s', None) \<Longrightarrow> enf_Apply L v (i_Bridge inst) p (fst s) = (fst s', None)"
  by (auto simp: libvirt_Define_def Let_def split: prod.splits sum.splits option.splits)

lemma libvirt_Remove_tables:
  "fst (fst (libvirt_Remove L cmd inst v s)) = fst s
   \<or> fst (fst (libvirt_Remove L cmd inst v s)) = fst (enf_Remove L v (i_Bridge inst) (BuildEgressPolicy inst) (fst s))"
  by (auto simp: libvirt_Remove_def Let_def split: prod.splits option.splits)

theorem libvirt_confining:
  fixes L :: "('v, 'x, 'y) linux_env" and cmd :: "'n commander"
  assumes "iptables (ee_4 (le_V L)) ft4" "iptables (ee_6 (le_V L)) ft6" "distinct_chains (ee_sum256 (le_V L)) B"
  shows "confining (libvirt_controller L E cmd) (\<lambda>s. egress_reach (le_V L) ft4 ft6 B (fst s)) (\<lambda>i. i_Bridge i \<in> B)
    (\<lambda>i s. linux_confined L ft4 ft6 (i_Bridge i) i (fst s)) (\<lambda>i v s. linux_confined L ft4 ft6 (i_Bridge i) i (fst s))"
proof
  fix inst :: Instance and v :: 'v and p :: "('x, 'y) tables \<times> 'n"
  assume r: "egress_reach (le_V L) ft4 ft6 B (fst p)" and b: "i_Bridge inst \<in> B"
  show "egress_reach (le_V L) ft4 ft6 B (fst p')" if "ctl_Define (libvirt_controller L E cmd) inst (BuildEgressPolicy inst) v p = (p', None)" for p'
    using libvirt_Define_tables [of L E cmd inst "BuildEgressPolicy inst" v p] r enf_reach(1) [OF r b, of v "BuildEgressPolicy inst"] that
    by (auto simp: libvirt_controller_def)
  show "egress_reach (le_V L) ft4 ft6 B (fst (fst (ctl_Remove (libvirt_controller L E cmd) inst v p)))"
    using libvirt_Remove_tables [of L cmd inst v p] r enf_reach(2) [OF r b] by (auto simp: libvirt_controller_def)
  show "linux_confined L ft4 ft6 (i_Bridge inst) inst (fst p')"
    if "ctl_Define (libvirt_controller L E cmd) inst (BuildEgressPolicy inst) v p = (p', None)" for p'
    by (rule enf_Apply_confines [OF assms r b libvirt_Define_ok]) (use that in \<open>simp add: libvirt_controller_def\<close>)
qed (auto simp: libvirt_controller_def libvirt_Apply_def split: prod.splits)

theorem vmware_confining:
  fixes L :: "('v, 'x, 'y) linux_env"
  assumes "iptables (ee_4 (le_V L)) ft4" "iptables (ee_6 (le_V L)) ft6" "distinct_chains (ee_sum256 (le_V L)) B"
  shows "confining (vmware_controller L lookup) (egress_reach (le_V L) ft4 ft6 B) (\<lambda>i. \<exists>vnet \<in> B. vnetFor i = Inr vnet)
    (\<lambda>i. linux_confined L ft4 ft6 (projr (vnetFor i)) i) (\<lambda>i v. linux_confined L ft4 ft6 (projr (vnetFor i)) i)"
proof
  fix inst :: Instance and v :: 'v and p
  assume r: "egress_reach (le_V L) ft4 ft6 B p" and "\<exists>vnet \<in> B. vnetFor inst = Inr vnet"
  then obtain vnet where b: "vnet \<in> B" "vnetFor inst = Inr vnet" by blast
  show "egress_reach (le_V L) ft4 ft6 B p'" if "ctl_Define (vmware_controller L lookup) inst (BuildEgressPolicy inst) v p = (p', None)" for p'
    using r enf_reach(1) [OF r b(1), of v "BuildEgressPolicy inst"] b(2) that
    by (auto simp: vmware_controller_def vmware_Define_def split: option.splits prod.splits sum.splits if_splits)
  show "egress_reach (le_V L) ft4 ft6 B (fst (ctl_Remove (vmware_controller L lookup) inst v p))"
    using r enf_reach(2) [OF r b(1)] b(2) by (auto simp: vmware_controller_def vmware_Remove_def split: option.splits)
  show "linux_confined L ft4 ft6 (projr (vnetFor inst)) inst p'"
    if "ctl_Define (vmware_controller L lookup) inst (BuildEgressPolicy inst) v p = (p', None)" for p'
    using enf_Apply_confines [OF assms r b(1)] that b(2)
    by (auto simp: vmware_controller_def vmware_Define_def split: option.splits prod.splits sum.splits if_splits)
qed (auto simp: vmware_controller_def)

section \<open>The controllers of macOS\<close>

text \<open>What \<open>pfctl\<close> does to the rules in the anchors; a call that fails leaves them as they are.\<close>

locale pfctl_anchors =
  fixes run :: "'k pfctl" and anchor :: "'k \<Rightarrow> string \<Rightarrow> string"
  assumes load: "run [''-a'', a, ''-f'', ''-''] rules k = (k', True) \<Longrightarrow> anchor k' = (anchor k)(a := rules)"
    and flush: "run [''-a'', a, ''-F'', ''all''] [] k = (k', True) \<Longrightarrow> anchor k' = (anchor k)(a := [])"
    and failed: "run args inp k = (k', False) \<Longrightarrow> anchor k' = anchor k"
begin

lemma LoadAnchor_anchor:
  "LoadAnchor run inst subnet rules k = (k', None) \<Longrightarrow> anchor k' = (anchor k)(''abox/'' @ inst := rules) \<and> validatePFRules rules subnet = None"
  using load by (auto simp: LoadAnchor_def split: option.splits prod.splits if_splits)

lemma LoadAnchor_failed: "LoadAnchor run inst subnet rules k = (k', Some e) \<Longrightarrow> anchor k' = anchor k"
  using failed by (auto simp: LoadAnchor_def split: option.splits prod.splits if_splits)

lemma FlushAnchor_anchor: "FlushAnchor run inst k = (k', None) \<Longrightarrow> anchor k' = (anchor k)(''abox/'' @ inst := [])"
  using flush by (auto simp: FlushAnchor_def split: option.splits prod.splits if_splits)

end

text \<open>An instance whose subnet and gateway are those of an allocation.\<close>

definition allocated :: "Instance \<Rightarrow> bool" where
  "allocated inst \<longleftrightarrow> (\<exists>ip i. length ip = 4 \<and> i < 256 \<and> i_Subnet inst = candidateSubnet ip i \<and> i_Gateway inst = candidateGateway ip i)"

text \<open>What the packet filter does with the packets of a guest once it descends into the anchor of the instance. \<open>anchor_confined\<close> is about IPv4 only: the rules
  loaded before the boot cannot name the interface of the guest, which the rules that close IPv6 need. \<open>anchor_enforced\<close> is the whole policy on
  the given interface, IPv6 included.\<close>

definition anchor_confined :: "(string \<Rightarrow> string list list) \<Rightarrow> ('k \<Rightarrow> string \<Rightarrow> string) \<Rightarrow> Instance \<Rightarrow> 'k pf_world \<Rightarrow> bool" where
  "anchor_confined read anchor inst w \<longleftrightarrow> evaluated (pw_disk w)
     \<and> (\<exists>n g. ParseSubnet24 (i_Subnet inst) = Inr (n, g)
        \<and> (\<forall>p. \<not> pp_v6 p \<longrightarrow>
             (case pf_eval (read (anchor (pw_kernel w) (''abox/'' @ i_Name inst))) p of
                PfRedirect x \<Rightarrow> may_redirect n x p | PfPass \<Rightarrow> may_pass n g p | PfBlock \<Rightarrow> may_block n p
              | PfNone \<Rightarrow> \<not> IPNet_Contains n (pp_src p))))"

definition anchor_enforced :: "(string \<Rightarrow> string list list) \<Rightarrow> ('k \<Rightarrow> string \<Rightarrow> string) \<Rightarrow> string \<Rightarrow> Instance \<Rightarrow> 'k pf_world \<Rightarrow> bool" where
  "anchor_enforced read anchor iface inst w \<longleftrightarrow> evaluated (pw_disk w)
     \<and> (\<exists>n g. ParseSubnet24 (i_Subnet inst) = Inr (n, g)
        \<and> (\<forall>p. pf_eval (read (anchor (pw_kernel w) (''abox/'' @ i_Name inst))) p
             = instance_policy n g iface (dc_Port (i_DNS inst)) (hc_Port (i_HTTP inst)) p))"

text \<open>The interface of a guest of vfkit: the one the instance at hand records, though it may stem from an earlier boot, and if it records none then the one
  of the configuration on disk.\<close>

definition recorded_bridge :: "('v, 'k) pf_env \<Rightarrow> 'v \<Rightarrow> Instance \<Rightarrow> string \<Rightarrow> bool" where
  "recorded_bridge P v inst iface \<longleftrightarrow> iface \<noteq> []
     \<and> (fst (BackendString (Some inst) ''bridge'') = iface
        \<or> fst (BackendString (Some inst) ''bridge'') = []
          \<and> (\<exists>reloaded paths. pe_load P v (i_Name inst) = Inr (reloaded, paths) \<and> fst (BackendString (Some reloaded) ''bridge'') = iface))"

lemma bridgeFor_recorded: "bridgeFor P v inst = Inr iface \<Longrightarrow> recorded_bridge P v inst iface"
  by (auto simp: bridgeFor_def recorded_bridge_def bridgeFromConfig_def split: if_splits sum.splits)

lemma allocated_subnet:
  assumes "allocated inst"
  obtains n g where "ParseSubnet24 (i_Subnet inst) = Inr (n, g)" "i_Subnet inst = IPNet_String n" "i_Gateway inst = IP_String g"
proof -
  obtain ip i where a: "length ip = 4" "i < 256" "i_Subnet inst = candidateSubnet ip i" "i_Gateway inst = candidateGateway ip i"
    using assms unfolding allocated_def by blast
  show ?thesis
    by (rule that [of "\<lparr>net_IP = [ip ! 0, ip ! 1, of_nat i, 0], net_Mask = [255, 255, 255, 0]\<rparr>" "[ip ! 0, ip ! 1, of_nat i, 1]"])
      (use ParseSubnet24_text [of "''24''"] in \<open>simp_all add: a(3,4) candidate_texts [OF a(1,2)] net24_text\<close>)
qed

definition preboot_doc :: "string \<Rightarrow> string \<Rightarrow> (string + string list) list" where
  "preboot_doc cidr http =
     [Inl ('' abox pre-boot rules for '' @ cidr @ '' (IPv4-only; full rules incl. IPv6 kill load post-boot)''),
      Inl '' Deny inbound to the HTTP proxy from anything outside the instance subnet'',
      Inr [''block'', ''drop'', ''quick'', ''proto'', ''tcp'', ''from'', ''!'', cidr, ''to'', ''any'', ''port'', http],
      Inl '' Default deny: everything else from the VM is dropped'',
      Inr (deny_tokens cidr)]"

lemma preboot_doc:
  assumes "allocated inst" and "pf_ValidatePort http"
  shows "doc_ok (preboot_doc (i_Subnet inst) (Itoa_int http))"
    "BuildPreBootDenyRules (i_Subnet inst) http = lines_text (doc_lines (preboot_doc (i_Subnet inst) (Itoa_int http)))"
proof -
  obtain n g where s: "ParseSubnet24 (i_Subnet inst) = Inr (n, g)" "i_Subnet inst = IPNet_String n" by (rule allocated_subnet [OF assms(1)])
  obtain a b c where n: "n = \<lparr>net_IP = [a, b, c, 0], net_Mask = [255, 255, 255, 0]\<rparr>" by (rule ParseSubnet24_shape [OF s(1)])
  have w: "pf_word (i_Subnet inst)" "pf_word (Itoa_int http)"
    using assms(2) v4_string_pf_word by (simp_all add: s(2) n net24_text Itoa_int_def pf_ValidatePort_def)
  then have c: "i_Subnet inst \<noteq> []" "\<forall>x \<in> set (i_Subnet inst). x = CHR '' '' \<or> is_graphic x \<and> x \<noteq> CHR 0x5C"
    using pf_char_plain by (auto simp: pf_word_def list_all_iff)
  have "pf_word ''block'' \<and> pf_word ''drop'' \<and> pf_word ''quick'' \<and> pf_word ''proto'' \<and> pf_word ''tcp'' \<and> pf_word ''from'' \<and> pf_word ''!''
      \<and> pf_word ''to'' \<and> pf_word ''any'' \<and> pf_word ''port''"
    by (simp add: pf_word_def pf_char_def go_eval)
  then show "doc_ok (preboot_doc (i_Subnet inst) (Itoa_int http))"
    using w c by (simp add: doc_ok_def preboot_doc_def list_all_iff) (auto simp: go_eval)
  show "BuildPreBootDenyRules (i_Subnet inst) http = lines_text (doc_lines (preboot_doc (i_Subnet inst) (Itoa_int http)))"
    by (simp add: BuildPreBootDenyRules_def doc_lines_def preboot_doc_def)
qed

lemma preboot_plain:
  assumes "allocated inst" and "pf_ValidatePort http"
  shows "pf_plain (BuildPreBootDenyRules (i_Subnet inst) http)"
  using doc_text(2) [OF preboot_doc(1) [OF assms]] preboot_doc(2) [OF assms] by simp

text \<open>The helper accepts the rules loaded before the boot.\<close>

lemma preboot_no_allow:
  assumes "doc_ok (preboot_doc cidr http)" and "l \<in> set (Split (lines_text (doc_lines (preboot_doc cidr http))) LF)" and "is_statement l"
  shows "\<not> allow_line l"
proof -
  have "l \<in> set (doc_lines (preboot_doc cidr http))"
    using assms(2,3) not_statement_Nil doc_text(1) [OF assms(1)] by auto
  then obtain d where d: "d \<in> set (preboot_doc cidr http)" "l = (case d of Inl c \<Rightarrow> CHR ''#'' # c | Inr ws \<Rightarrow> Join ws '' '')"
    by (auto simp: doc_lines_def)
  show ?thesis
  proof (cases d)
    case (Inl c)
    then show ?thesis using assms(1,3) d comment_line [of c] by (fastforce simp: doc_ok_def)
  next
    case (Inr ws)
    then have w: "ws \<noteq> []" "list_all pf_word ws" and "\<exists>vs. ws = ''block'' # vs" using assms(1) d(1) by (auto simp: doc_ok_def preboot_doc_def)
    then obtain r where "Join ws '' '' = CHR ''b'' # r" by (cases "tl ws") auto
    then show ?thesis using words_line(1) [OF w(2,1)] d(2) Inr by (simp add: allow_line_def HasPrefix_iff)
  qed
qed

lemma preboot_valid:
  assumes "allocated inst" and "pf_ValidatePort http"
  shows "validatePFRules (BuildPreBootDenyRules (i_Subnet inst) http) (i_Subnet inst) = None"
proof -
  obtain n g where s: "ParseSubnet24 (i_Subnet inst) = Inr (n, g)" "i_Subnet inst = IPNet_String n" by (rule allocated_subnet [OF assms(1)])
  let ?cidr = "i_Subnet inst" and ?http = "Itoa_int http"
  let ?t = "BuildPreBootDenyRules ?cidr http"
  note d = doc_text [OF preboot_doc(1) [OF assms], folded preboot_doc(2) [OF assms]]
  have ss: "doc_statements (preboot_doc ?cidr ?http) =
      [[''block'', ''drop'', ''quick'', ''proto'', ''tcp'', ''from'', ''!'', ?cidr, ''to'', ''any'', ''port'', ?http], deny_tokens ?cidr]"
    by (simp add: doc_statements_def preboot_doc_def)
  have "port_token ?http" using assms(2) by (auto simp: pf_ValidatePort_def Itoa_int_def port_token_of)
  then have "\<forall>st \<in> set (doc_statements (preboot_doc ?cidr ?http)). accepted ?cidr (IP_String g) st"
    unfolding ss by (auto intro: accepted.intros)
  then have "\<forall>l \<in> set (Split ?t LF). good_line ?cidr (IP_String g) l" using d(1,5) by (auto simp: good_line_def)
  moreover have "list_ex (\<lambda>l. Fields (TrimSpace l) = deny_tokens ?cidr) (List.filter is_statement (Split ?t LF))"
  proof -
    have "deny_tokens ?cidr \<in> set (plain_statements ?t)" unfolding d(3) ss by simp
    then show ?thesis by (force simp: plain_statements_def list_ex_iff)
  qed
  moreover have "\<not> list_ex allow_line (List.filter is_statement (Split ?t LF))"
    using preboot_no_allow [OF preboot_doc(1) [OF assms], folded preboot_doc(2) [OF assms]] by (auto simp: list_ex_iff)
  moreover have "CHR ''#'' \<in> set ?t" by (simp add: BuildPreBootDenyRules_def lines_text_def)
  ultimately show ?thesis
    unfolding validatePFRules_iff using s d(4) TrimSpace_hash by (auto simp: Let_def)
qed

lemma InstanceRules_args:
  assumes "InstanceRules name subnet gw iface dns http = Inr rules"
  shows "rules = BuildInstanceRules subnet gw iface dns http" "MatchBridgeName iface" "pf_ValidatePort dns" "pf_ValidatePort http"
  using assms by (auto simp: InstanceRules_def validatePfArgs_def validatePfPort_def split: option.splits if_splits)

lemma pf_LoadAnchor_cases:
  assumes "pfctl_anchors (pe_run P) anchor" and "pf_LoadAnchor P v name subnet rules w = (w', e)"
  obtains (kept) "e \<noteq> None" "anchor (pw_kernel w') = anchor (pw_kernel w)"
    | (loaded) "anchor (pw_kernel w') = (anchor (pw_kernel w))(''abox/'' @ name := rules)" "validatePFRules rules subnet = None"
proof (cases "LoadAnchor (pe_run P) name subnet rules (pw_kernel w)")
  case (Pair k e')
  note l = pfctl_anchors.LoadAnchor_anchor [OF assms(1), of name subnet rules "pw_kernel w" k]
    and f = pfctl_anchors.LoadAnchor_failed [OF assms(1), of name subnet rules "pw_kernel w" k]
  show ?thesis
    using Pair assms(2) that l f by (cases "pe_rpc P v CallLoad"; cases e') (auto simp: pf_LoadAnchor_def over_rpc_def)
qed

lemma pf_LoadAnchor_disk: "pw_disk (fst (pf_LoadAnchor P v name subnet rules w)) = pw_disk w"
  by (auto simp: pf_LoadAnchor_def over_rpc_def split: rpc_outcome.splits prod.splits)

lemma LoadInstanceAnchor_disk: "pw_disk (fst (LoadInstanceAnchor P inst iface pol v w)) = pw_disk w"
  using pf_LoadAnchor_disk [of P v "i_Name inst" "i_Subnet inst" _ w]
  by (auto simp: LoadInstanceAnchor_def split: sum.splits option.splits prod.splits) (metis fst_conv)+

lemma LoadPreBootDeny_disk: "pw_disk (fst (LoadPreBootDeny P inst v w)) = pw_disk w"
  using pf_LoadAnchor_disk by (auto simp: LoadPreBootDeny_def split: sum.splits option.splits)

lemma pf_Remove_disk: "pw_disk (fst (pf_Remove P inst v w)) = pw_disk w"
  by (auto simp: pf_Remove_def pf_FlushAnchor_def over_rpc_def Let_def split: option.splits rpc_outcome.splits prod.splits)

lemma pf_Enable_ok:
  assumes "pf_Enable P v w = (w', None)" "wired_loaded (pw_disk w)"
  shows "evaluated (pw_disk w')" "wired_loaded (pw_disk w')"
proof -
  have "Pf_Enable (pe_host P v) (pw_disk w) = (pw_disk w', None)"
    using assms(1) by (auto simp: pf_Enable_def over_rpc_ok split: prod.splits)
  from Pf_Enable_evaluates [OF this assms(2)] show "evaluated (pw_disk w')" "wired_loaded (pw_disk w')" .
qed

lemma loaded_confined:
  assumes "pf_reader read" "allocated inst" "pf_plain rules" "validatePFRules rules (i_Subnet inst) = None"
    and "anchor (pw_kernel w) (''abox/'' @ i_Name inst) = rules" "evaluated (pw_disk w)"
  shows "anchor_confined read anchor inst w"
proof -
  obtain n g where "ParseSubnet24 (i_Subnet inst) = Inr (n, g)" by (rule allocated_subnet [OF assms(2)])
  then show ?thesis using validated_rules_confine [OF assms(1,3,4)] assms(5,6) unfolding anchor_confined_def by blast
qed

lemma LoadInstanceAnchor_cases:
  assumes "pf_reader read" "pfctl_anchors (pe_run P) anchor" "allocated inst" "evaluated (pw_disk w)"
    and "LoadInstanceAnchor P inst iface (BuildEgressPolicy inst) v w = (w', e)"
  shows "e = None \<Longrightarrow> anchor_confined read anchor inst w' \<and> anchor_enforced read anchor iface inst w'"
    and "anchor_confined read anchor inst w \<Longrightarrow> anchor_confined read anchor inst w'"
proof -
  let ?dns = "dc_Port (i_DNS inst)" and ?http = "hc_Port (i_HTTP inst)"
  obtain n g where s: "ParseSubnet24 (i_Subnet inst) = Inr (n, g)" "i_Subnet inst = IPNet_String n" "i_Gateway inst = IP_String g"
    by (rule allocated_subnet [OF assms(3)])
  have d: "pw_disk w' = pw_disk w" using LoadInstanceAnchor_disk [of P inst iface "BuildEgressPolicy inst" v w] assms(5) by simp
  have "anchor_confined read anchor inst w' \<and> anchor_enforced read anchor iface inst w' \<or> e \<noteq> None \<and> anchor (pw_kernel w') = anchor (pw_kernel w)"
  proof (cases "InstanceRules (i_Name inst) (i_Subnet inst) (i_Gateway inst) iface ?dns ?http")
    case (Inl x)
    then show ?thesis using assms(5) by (auto simp: LoadInstanceAnchor_def BuildEgressPolicy_def)
  next
    case (Inr rules)
    note a = InstanceRules_args [OF Inr]
    note v = generated_valid [OF s(1,2,3) a(2-4), folded a(1)]
    obtain w1 e1 where l: "pf_LoadAnchor P v (i_Name inst) (i_Subnet inst) rules w = (w1, e1)" by (meson surj_pair)
    show ?thesis
    proof (cases "ResolveEnforcer (pe_provider P v)")
      case (Some x)
      then show ?thesis using assms(5) Inr by (auto simp: LoadInstanceAnchor_def BuildEgressPolicy_def)
    next
      case None
      then have w: "pw_kernel w' = pw_kernel w1" "e = e1"
        using assms(5) Inr l by (auto simp: LoadInstanceAnchor_def BuildEgressPolicy_def split: option.splits if_splits)
      from assms(2) l show ?thesis
      proof (cases rule: pf_LoadAnchor_cases)
        case loaded
        then have r: "anchor (pw_kernel w') (''abox/'' @ i_Name inst) = rules" by (simp add: w)
        have "pf_eval (read rules) p = instance_policy n g iface ?dns ?http p" for p
          unfolding pf_reader.plain [OF assms(1) v(2)] v(3) by (rule instance_statements_eval [OF s(1) a(3,4), folded s(2,3)])
        then have "anchor_enforced read anchor iface inst w'" unfolding anchor_enforced_def r d using s(1) assms(4) by blast
        then show ?thesis using loaded_confined [of read inst rules anchor w'] assms(1,3,4) v(2) loaded(2) r d by simp
      qed (simp add: w)
    qed
  qed
  then show "e = None \<Longrightarrow> anchor_confined read anchor inst w' \<and> anchor_enforced read anchor iface inst w'"
    and "anchor_confined read anchor inst w \<Longrightarrow> anchor_confined read anchor inst w'"
    using d by (auto simp: anchor_confined_def)
qed

lemma LoadPreBootDeny_ok:
  assumes "pf_reader read" "pfctl_anchors (pe_run P) anchor" "allocated inst" "evaluated (pw_disk w)" and "LoadPreBootDeny P inst v w = (w', None)"
  shows "anchor_confined read anchor inst w'"
proof -
  let ?http = "hc_Port (i_HTTP inst)" and ?rules = "BuildPreBootDenyRules (i_Subnet inst) (hc_Port (i_HTTP inst))"
  have l: "pf_LoadAnchor P v (i_Name inst) (i_Subnet inst) ?rules w = (w', None)" "pf_ValidatePort ?http"
    using assms(5) by (auto simp: LoadPreBootDeny_def PreBootDenyRules_def BuildEgressPolicy_def validatePfPort_def split: option.splits sum.splits if_splits prod.splits)
  have d: "evaluated (pw_disk w')" using LoadPreBootDeny_disk [of P inst v w] assms(4,5) by simp
  from assms(2) l(1) show ?thesis
  proof (cases rule: pf_LoadAnchor_cases)
    case loaded
    then show ?thesis using loaded_confined [of read inst ?rules anchor w'] assms(1,3) preboot_plain [OF assms(3) l(2)] d by simp
  qed simp
qed

lemma allocated_set_ports: "allocated inst \<Longrightarrow> allocated (set_ports inst d h)"
  by (simp add: allocated_def)

lemma vfkit_Define_ok:
  "vfkit_Define P inst pol v w = (w', None) \<Longrightarrow> \<exists>w1. pf_Enable P v w = (w1, None) \<and> LoadPreBootDeny P inst v w1 = (w', None)"
  by (auto simp: vfkit_Define_def split: option.splits prod.splits)

lemma fusion_Define_ok:
  "fusion_Define P inst pol v w = (w', None)
   \<Longrightarrow> \<exists>vnet w1. vnetFor inst = Inr vnet \<and> pf_Enable P v w = (w1, None) \<and> LoadInstanceAnchor P inst vnet pol v w1 = (w', None)"
  by (auto simp: fusion_Define_def split: option.splits prod.splits sum.splits)

theorem vfkit_confining:
  fixes P :: "('v, 'k) pf_env"
  assumes "pf_reader read" "pfctl_anchors (pe_run P) anchor"
  shows "confining (vfkit_controller P) (\<lambda>w. wired_loaded (pw_disk w)) allocated (anchor_confined read anchor)
    (\<lambda>i v w. \<exists>iface. recorded_bridge P v i iface \<and> anchor_enforced read anchor iface i w)"
proof
  fix inst :: Instance and v :: 'v and w w' :: "'k pf_world"
  assume a: "allocated inst" and i: "wired_loaded (pw_disk w)"
  show "anchor_confined read anchor inst w'" "wired_loaded (pw_disk w')"
    if D: "ctl_Define (vfkit_controller P) inst (BuildEgressPolicy inst) v w = (w', None)"
  proof -
    obtain w1 where w1: "pf_Enable P v w = (w1, None)" "LoadPreBootDeny P inst v w1 = (w', None)"
      using vfkit_Define_ok D by (fastforce simp: vfkit_controller_def)
    note e = pf_Enable_ok [OF w1(1) i]
    show "anchor_confined read anchor inst w'" by (rule LoadPreBootDeny_ok [OF assms a e(1) w1(2)])
    show "wired_loaded (pw_disk w')" using LoadPreBootDeny_disk [of P inst v w1] w1(2) e(2) by simp
  qed
  note c = LoadInstanceAnchor_cases [OF assms a]
  show "anchor_confined read anchor inst (fst (ctl_Apply (vfkit_controller P) inst v w))" if "anchor_confined read anchor inst w"
    using that c(2) [OF _ prod.collapse [symmetric]]
    by (auto simp: vfkit_controller_def vfkit_Apply_def anchor_confined_def [of _ _ _ w] split: sum.splits)
  show "\<exists>iface. recorded_bridge P v inst iface \<and> anchor_enforced read anchor iface inst w'"
    if "anchor_confined read anchor inst w" "ctl_Apply (vfkit_controller P) inst v w = (w', None)"
    using that c(1) bridgeFor_recorded
    by (fastforce simp: vfkit_controller_def vfkit_Apply_def anchor_confined_def split: sum.splits)
  show "wired_loaded (pw_disk (fst (ctl_Apply (vfkit_controller P) inst v w)))" "wired_loaded (pw_disk (fst (ctl_Remove (vfkit_controller P) inst v w)))"
    using i by (auto simp: vfkit_controller_def vfkit_Apply_def LoadInstanceAnchor_disk pf_Remove_disk split: sum.splits)
qed (simp_all add: allocated_set_ports)

theorem fusion_confining:
  fixes P :: "('v, 'k) pf_env"
  assumes "pf_reader read" "pfctl_anchors (pe_run P) anchor"
  shows "confining (fusion_controller P) (\<lambda>w. wired_loaded (pw_disk w)) allocated
    (\<lambda>i w. anchor_confined read anchor i w \<and> (\<exists>vnet. vnetFor i = Inr vnet \<and> anchor_enforced read anchor vnet i w))
    (\<lambda>i v w. \<exists>vnet. vnetFor i = Inr vnet \<and> anchor_enforced read anchor vnet i w)"
proof
  fix inst :: Instance and v :: 'v and w w' :: "'k pf_world"
  assume a: "allocated inst" and i: "wired_loaded (pw_disk w)"
  show "anchor_confined read anchor inst w' \<and> (\<exists>vnet. vnetFor inst = Inr vnet \<and> anchor_enforced read anchor vnet inst w')" "wired_loaded (pw_disk w')"
    if D: "ctl_Define (fusion_controller P) inst (BuildEgressPolicy inst) v w = (w', None)"
  proof -
    obtain vnet w1 where w1: "vnetFor inst = Inr vnet" "pf_Enable P v w = (w1, None)" "LoadInstanceAnchor P inst vnet (BuildEgressPolicy inst) v w1 = (w', None)"
      using fusion_Define_ok D by (fastforce simp: fusion_controller_def)
    note e = pf_Enable_ok [OF w1(2) i]
    show "anchor_confined read anchor inst w' \<and> (\<exists>vnet. vnetFor inst = Inr vnet \<and> anchor_enforced read anchor vnet inst w')"
      using LoadInstanceAnchor_cases(1) [OF assms a e(1) w1(3)] w1(1) by blast
    show "wired_loaded (pw_disk w')" using LoadInstanceAnchor_disk [of P inst vnet "BuildEgressPolicy inst" v w1] w1(3) e(2) by simp
  qed
  show "wired_loaded (pw_disk (fst (ctl_Remove (fusion_controller P) inst v w)))" using i by (simp add: fusion_controller_def pf_Remove_disk)
qed (simp_all add: allocated_set_ports fusion_controller_def)

section \<open>Concrete hosts\<close>

text \<open>\<open>pfctl\<close> with the rules of each anchor as its state.\<close>

fun ref_pfctl :: "(string \<Rightarrow> string) pfctl" where
  "ref_pfctl [x, a, f, y] inp k =
     (if x = ''-a'' \<and> f = ''-f'' \<and> y = ''-'' then (k(a := inp), True)
      else if x = ''-a'' \<and> f = ''-F'' \<and> y = ''all'' then (k(a := []), True)
      else (k, False))"
| "ref_pfctl _ inp k = (k, False)"

interpretation ref_pfctl: pfctl_anchors ref_pfctl "\<lambda>k. k"
proof
  show "k' = k" if "ref_pfctl args inp k = (k', False)" for args inp k k'
    using that by (cases "(args, inp, k)" rule: ref_pfctl.cases) (auto split: if_splits)
qed (auto split: if_splits)

text \<open>A host on which every call goes through; its own state is that of the guests.\<close>

definition ref_pf_env :: "('v, string \<Rightarrow> string) pf_env" where
  "ref_pf_env =
     \<lparr>pe_run = ref_pfctl, pe_host = (\<lambda>_. demo_host\<lparr>ph_reload := (\<lambda>_. True)\<rparr>), pe_provider = (\<lambda>_. Some None), pe_rpc = (\<lambda>_ _. Delivered), pe_write_marker = (\<lambda>_. True),
      pe_remove_marker = (\<lambda>_. None), pe_load = (\<lambda>_ _. Inl CfgParse)\<rparr>"

interpretation vfkit: confining "vfkit_controller ref_pf_env" "\<lambda>w. wired_loaded (pw_disk w)" allocated "anchor_confined ref_read (\<lambda>k. k)"
  "\<lambda>i v w. \<exists>iface. recorded_bridge ref_pf_env v i iface \<and> anchor_enforced ref_read (\<lambda>k. k) iface i w"
  by (rule vfkit_confining) (simp_all add: ref_pf_env_def ref_reader.pf_reader_axioms ref_pfctl.pfctl_anchors_axioms)

definition ref_linux :: "('v, ref_table, ref_table) linux_env" where
  "ref_linux = \<lparr>le_V = ref_env, le_provider = (\<lambda>_. Some None), le_rpc = (\<lambda>_ _. Delivered)\<rparr>"

interpretation vmware: confining "vmware_controller ref_linux lookup" "egress_reach ref_env rt_filter rt_filter {''vmnet2''}"
  "\<lambda>i. \<exists>vnet \<in> {''vmnet2''}. vnetFor i = Inr vnet"
  "\<lambda>i. linux_confined ref_linux rt_filter rt_filter (projr (vnetFor i)) i" "\<lambda>i v. linux_confined ref_linux rt_filter rt_filter (projr (vnetFor i)) i"
  for lookup
  using vmware_confining [of ref_linux rt_filter rt_filter "{''vmnet2''}" lookup] ref.iptables_axioms
  by (simp add: ref_linux_def ref_env_def distinct_chains_def)

end
