(* ===== verification/Boxfile_Strict.thy ===== *)
theory Boxfile_Strict
  imports Go_Text
begin

text \<open>
  How decoding errors of \<open>abox.yaml\<close> are reported, \<open>boxfile/strict.go\<close>: the entries of the decoder are taken apart, Go type names
  become key paths, and a misspelt key gets the nearest known key as a suggestion. The two-row computation of the edit distance is shown to give
  the least number of single-byte insertions, deletions and replacements.
\<close>

section \<open>Edit distance\<close>

text \<open>The inner loop writes the entries \<open>j\<close>, \<open>j + 1\<close>, ... of the current row; the outer one exchanges the two rows after each byte.\<close>

function edit_row :: "char \<Rightarrow> string \<Rightarrow> nat list \<Rightarrow> nat \<Rightarrow> nat list \<Rightarrow> nat list" where
  "edit_row x b prev j cur =
     (if length b < j then cur
      else let cost = (if x = b ! (j - 1) then 0 else 1) in
           edit_row x b prev (j + 1) (cur[j := min (min (cur ! (j - 1) + 1) (prev ! j + 1)) (prev ! (j - 1) + cost)]))"
  by pat_completeness auto
termination
  by (relation "measure (\<lambda>(x, b, prev, j, cur). length b + 1 - j)") auto

function edit_rows :: "string \<Rightarrow> string \<Rightarrow> nat \<Rightarrow> nat list \<Rightarrow> nat list \<Rightarrow> nat list" where
  "edit_rows a b i prev cur =
     (if length a < i then prev
      else edit_rows a b (i + 1) (edit_row (a ! (i - 1)) b prev 1 (cur[0 := i])) prev)"
  by pat_completeness auto
termination
  by (relation "measure (\<lambda>(a, b, i, prev, cur). length a + 1 - i)") auto

declare edit_row.simps [simp del] edit_rows.simps [simp del]

definition editDistance :: "string \<Rightarrow> string \<Rightarrow> nat" where
  "editDistance a b = edit_rows a b 1 [0..<length b + 1] (replicate (length b + 1) 0) ! length b"

fun closest_from :: "(string \<Rightarrow> string) \<Rightarrow> string \<Rightarrow> string \<times> nat \<Rightarrow> string list \<Rightarrow> string \<times> nat" where
  "closest_from ul name best [] = best"
| "closest_from ul name best (c # cs) =
     closest_from ul name (if editDistance name (ToLower ul c) < snd best then (c, editDistance name (ToLower ul c)) else best) cs"

definition closest :: "(string \<Rightarrow> string) \<Rightarrow> string \<Rightarrow> string list \<Rightarrow> string" where
  "closest ul name candidates =
     (let n = ToLower ul name; limit = max 2 (length n div 3) in
      case closest_from ul n ([], limit + 1) candidates of (best, d) \<Rightarrow> if limit < d then [] else best)"

section \<open>Entries of the decoder\<close>

text \<open>The two regular expressions: \<open>^line (\d+): (.*)$\<close> and \<open>^field (.+) not found in type (\S+)$\<close>. A dot matches no newline, and the type
  of the second is the longest end of the text without white space, so each has at most one match.\<close>

definition no_space :: "char \<Rightarrow> bool" where
  [go_char, go_eval]: "no_space c \<longleftrightarrow> code c \<notin> {9, 10, 12, 13, 32}"

definition linePrefixRe :: "string \<Rightarrow> (string \<times> string) option" where
  "linePrefixRe s =
     (case CutPrefix s ''line '' of
        None \<Rightarrow> None
      | Some r \<Rightarrow>
          (let ds = takeWhile is_digit r in
           case CutPrefix (dropWhile is_digit r) '': '' of
             None \<Rightarrow> None
           | Some d \<Rightarrow> if ds \<noteq> [] \<and> char_of (10 :: nat) \<notin> set d then Some (ds, d) else None))"

definition unknownFieldRe :: "string \<Rightarrow> (string \<times> string) option" where
  "unknownFieldRe s =
     (let ty = rev (takeWhile no_space (rev s)); pre = take (length s - length ty) s in
      if ty = [] \<or> \<not> HasSuffix pre '' not found in type '' then None
      else (case CutPrefix (TrimSuffix pre '' not found in type '') ''field '' of
              None \<Rightarrow> None
            | Some f \<Rightarrow> if f \<noteq> [] \<and> char_of (10 :: nat) \<notin> set f then Some (f, ty) else None))"

text \<open>A field of a Go struct: its name, whether it is exported, and its yaml tag up to the comma.\<close>

record go_field =
  gf_Name :: string
  gf_exported :: bool
  gf_tag :: string

definition yamlFieldNames :: "(string \<Rightarrow> string) \<Rightarrow> go_field list \<Rightarrow> string list" where
  "yamlFieldNames ul fs =
     concat (map (\<lambda>f. if \<not> gf_exported f \<or> gf_tag f = ''-'' then []
                      else if gf_tag f = [] then [ToLower ul (gf_Name f)] else [gf_tag f]) fs)"

definition tagged :: "(string \<times> string) list \<Rightarrow> go_field list" where
  "tagged = map (\<lambda>(n, t). \<lparr>gf_Name = n, gf_exported = True, gf_tag = t\<rparr>)"

definition boxfileTypes :: "(string \<times> (string \<times> go_field list)) list" where
  "boxfileTypes =
    [(''boxfile.Boxfile'', '''',
       tagged [(''Version'', ''version''), (''Name'', ''name''), (''Backend'', ''backend''), (''CPUs'', ''cpus''), (''Memory'', ''memory''),
         (''Disk'', ''disk''), (''Base'', ''base''), (''User'', ''user''), (''Subnet'', ''subnet''), (''Provision'', ''provision''),
         (''Overlay'', ''overlay''), (''Allowlist'', ''allowlist''), (''DNS'', ''dns''), (''HTTP'', ''http''), (''Monitor'', ''monitor''),
         (''Overrides'', ''overrides'')] @ [\<lparr>gf_Name = ''srcName'', gf_exported = False, gf_tag = []\<rparr>]),
     (''boxfile.BoxfileDNS'', ''dns'', tagged [(''Upstream'', ''upstream'')]),
     (''boxfile.BoxfileHTTP'', ''http'',
       tagged [(''MITM'', ''mitm''), (''MaxConnections'', ''max_connections''), (''AllowPrivateTargets'', ''allow_private_targets''),
         (''AllowedPorts'', ''allowed_ports''), (''SecretInjections'', ''secret_injections''), (''MITMExceptions'', ''mitm_exceptions'')]),
     (''boxfile.BoxfileMonitor'', ''monitor'',
       tagged [(''Enabled'', ''enabled''), (''Version'', ''version''), (''KprobeMulti'', ''kprobe_multi''), (''Kprobes'', ''kprobes''),
         (''Policies'', ''policies'')]),
     (''config.SecretInjection'', ''http.secret_injections'',
       tagged [(''Key'', ''key''), (''Host'', ''host''), (''Header'', ''header''), (''PathPrefix'', ''path_prefix''), (''ValuePrefix'', ''value_prefix'')])]"

text \<open>A problem names the file, the line when the entry has one, and either an unknown key or the text of the decoder.\<close>

datatype problem = Unknown_Key "string option" string | Verbatim "string option" string

definition qualify :: "string \<Rightarrow> string \<Rightarrow> string" where
  "qualify p key = (if p \<noteq> [] then p @ ''.'' @ key else key)"

definition describeEntry :: "(string \<Rightarrow> string) \<Rightarrow> string \<Rightarrow> problem \<times> string option" where
  "describeEntry ul entry =
     (let (line, detail) = (case linePrefixRe entry of Some (n, d) \<Rightarrow> (Some n, d) | None \<Rightarrow> (None, entry)) in
      case unknownFieldRe detail of
        None \<Rightarrow> (Verbatim line detail, None)
      | Some (field, goType) \<Rightarrow>
          (case map_of boxfileTypes goType of
             None \<Rightarrow> (Unknown_Key line field, None)
           | Some (p, fs) \<Rightarrow>
               (let match = closest ul field (yamlFieldNames ul fs) in
                (Unknown_Key line (qualify p field), if match = [] then None else Some (qualify p match)))))"

text \<open>The message is the only problem or their number; the hint lists several problems, then the suggestions.\<close>

datatype decode_report = Parse_Failed | One_Problem problem "string list" | Many_Problems "problem list" "string list"

definition decodeError :: "(string \<Rightarrow> string) \<Rightarrow> string list option \<Rightarrow> decode_report" where
  "decodeError ul typeErr =
     (case typeErr of
        None \<Rightarrow> Parse_Failed
      | Some entries \<Rightarrow>
          (let rs = map (describeEntry ul) entries; problems = map fst rs; suggestions = concat (map (\<lambda>r. case snd r of None \<Rightarrow> [] | Some s \<Rightarrow> [s]) rs) in
           case problems of
             [] \<Rightarrow> Parse_Failed
           | [p] \<Rightarrow> One_Problem p suggestions
           | _ \<Rightarrow> Many_Problems problems suggestions))"

section \<open>The least number of edits\<close>

inductive edit :: "'a list \<Rightarrow> 'a list \<Rightarrow> bool" where
  insert_byte: "edit v (c # v)"
| delete_byte: "edit (c # v) v"
| replace_byte: "edit (c # v) (d # v)"
| further: "edit u v \<Longrightarrow> edit (c # u) (c # v)"

fun levenshtein :: "'a list \<Rightarrow> 'a list \<Rightarrow> nat" where
  "levenshtein [] b = length b"
| "levenshtein a [] = length a"
| "levenshtein (x # a) (y # b) =
     min (min (levenshtein a (y # b) + 1) (levenshtein (x # a) b + 1)) (levenshtein a b + (if x = y then 0 else 1))"

lemma levenshtein_Nil [simp]: "levenshtein a [] = length a"
  by (cases a) auto

lemma levenshtein_insert: "levenshtein (x # a) c \<le> levenshtein a c + 1" "levenshtein a (y # c) \<le> levenshtein a c + 1"
  by (cases c; simp) (cases a; simp)

lemma levenshtein_delete: "levenshtein a c \<le> levenshtein (x # a) c + 1"
proof (induction c)
  case (Cons y c)
  then show ?case using levenshtein_insert(2) [of a y c] by auto
qed simp

lemma edit_levenshtein: "edit u v \<Longrightarrow> levenshtein u c \<le> levenshtein v c + 1"
proof (induction arbitrary: c rule: edit.induct)
  case (replace_byte x v y)
  show ?case by (induction c) auto
next
  case (further u v x)
  show ?case
  proof (induction c)
    case (Cons y c)
    then show ?case using further.IH [of "y # c"] further.IH [of c] by auto
  qed (use further.IH [of "[]"] in simp)
qed (use levenshtein_delete levenshtein_insert(1) in simp_all)

lemma edits_bound: "(edit ^^ n) u v \<Longrightarrow> levenshtein u v \<le> n"
proof (induction n arbitrary: u)
  case 0
  have "levenshtein v v = 0" by (induction v) auto
  then show ?case using 0 by simp
next
  case (Suc n)
  then obtain w where "edit u w" "(edit ^^ n) w v" by (metis relpowp_Suc_D2)
  then show ?case using Suc.IH edit_levenshtein [of u w v] by fastforce
qed

lemma edits_further: "(edit ^^ n) u v \<Longrightarrow> (edit ^^ n) (c # u) (c # v)"
  by (induction n arbitrary: v) (auto intro: edit.further)

lemma edits_exist: "(edit ^^ levenshtein u v) u v"
proof (induction u v rule: levenshtein.induct)
  case (1 b)
  show ?case by (induction b) (auto intro: edit.insert_byte)
next
  case (2 x a)
  have "(edit ^^ length w) w []" for w :: "'a list"
  proof (induction w)
    case (Cons c w)
    then show ?case using relpowp_Suc_I2 [of edit "c # w" w, OF edit.delete_byte Cons] by simp
  qed simp
  then show ?case by (metis levenshtein_Nil)
next
  case (3 x a y b)
  have d: "(edit ^^ (levenshtein a (y # b) + 1)) (x # a) (y # b)"
    using relpowp_Suc_I2 [OF edit.delete_byte 3(1)] by simp
  have i: "(edit ^^ (levenshtein (x # a) b + 1)) (x # a) (y # b)"
    using relpowp_Suc_I [OF 3(2) edit.insert_byte] by simp
  have r: "(edit ^^ (levenshtein a b + (if x = y then 0 else 1))) (x # a) (y # b)"
    using edits_further [OF 3(3), of x] relpowp_Suc_I [OF edits_further [OF 3(3), of x] edit.replace_byte] by auto
  show ?case using d i r by (simp add: min_def)
qed

lemma levenshtein_least: "levenshtein u v = (LEAST n. (edit ^^ n) u v)"
  by (metis (mono_tags, lifting) LeastI Least_le edits_bound edits_exist le_antisym)

lemma edit_append: "edit u v \<Longrightarrow> edit (u @ w) (v @ w)"
  by (induction rule: edit.induct) (auto intro: edit.intros)

lemma edit_end: "edit w (w @ [c])" "edit (w @ [c]) w" "edit (w @ [c]) (w @ [d])"
  by (induction w) (auto intro: edit.intros)

lemma edit_rev: "edit u v \<Longrightarrow> edit (rev u) (rev v)"
  by (induction rule: edit.induct) (auto intro: edit_end edit_append)

lemma edits_rev: "(edit ^^ n) (rev u) (rev v) \<longleftrightarrow> (edit ^^ n) u v"
proof -
  have "(edit ^^ n) u v \<Longrightarrow> (edit ^^ n) (rev u) (rev v)" for u v :: "'a list"
    by (induction n arbitrary: v) (auto intro: edit_rev)
  from this [of u v] this [of "rev u" "rev v"] show ?thesis by auto
qed

section \<open>Rows\<close>

text \<open>The row of the table for the first \<open>i\<close> bytes of \<open>a\<close>.\<close>

abbreviation entry :: "string \<Rightarrow> string \<Rightarrow> nat \<Rightarrow> nat \<Rightarrow> nat" where
  "entry a b i j \<equiv> levenshtein (rev (take i a)) (rev (take j b))"

lemma entry_step:
  assumes "i < length a" "j < length b"
  shows "entry a b (Suc i) (Suc j) =
    min (min (entry a b (Suc i) j + 1) (entry a b i (Suc j) + 1)) (entry a b i j + (if a ! i = b ! j then 0 else 1))"
  using assms by (simp add: take_Suc_conv_app_nth min.commute)

lemma edit_row_entries:
  assumes "i < length a" "length prev = length b + 1" "length cur = length b + 1" "\<forall>k \<le> length b. prev ! k = entry a b i k"
    and "\<forall>k < j. cur ! k = entry a b (Suc i) k" "1 \<le> j" "j \<le> length b + 1"
  shows "length (edit_row (a ! i) b prev j cur) = length b + 1
    \<and> (\<forall>k \<le> length b. edit_row (a ! i) b prev j cur ! k = entry a b (Suc i) k)"
  using assms(3,5-7)
proof (induction "length b + 1 - j" arbitrary: j cur)
  case 0
  then show ?case by (subst (1 2) edit_row.simps) simp
next
  case (Suc n)
  then obtain j' where j: "j = Suc j'" "j' < length b" by (cases j) auto
  let ?c = "cur[j := min (min (cur ! (j - 1) + 1) (prev ! j + 1)) (prev ! (j - 1) + (if a ! i = b ! (j - 1) then 0 else 1))]"
  have "\<forall>k < j + 1. ?c ! k = entry a b (Suc i) k"
  proof (intro allI impI)
    fix k assume "k < j + 1"
    then consider "k < j" | "k = j" by linarith
    then show "?c ! k = entry a b (Suc i) k"
    proof cases
      case 2
      have "cur ! j' = entry a b (Suc i) j'" "prev ! j = entry a b i j" "prev ! j' = entry a b i j'"
        using Suc.prems(2) assms(4) j by auto
      then show ?thesis using 2 j Suc.prems(1) entry_step [OF assms(1) j(2)] by (simp only: nth_list_update_eq) simp
    qed (use Suc.prems(2) in simp)
  qed
  then have "length (edit_row (a ! i) b prev (j + 1) ?c) = length b + 1
      \<and> (\<forall>k \<le> length b. edit_row (a ! i) b prev (j + 1) ?c ! k = entry a b (Suc i) k)"
    using Suc j by (intro Suc.hyps) auto
  then show ?case using j by (subst (1 2) edit_row.simps) (simp add: Let_def)
qed

lemma edit_rows_entries:
  assumes "length prev = length b + 1" "length cur = length b + 1" "\<forall>k \<le> length b. prev ! k = entry a b i k" "i \<le> length a"
  shows "edit_rows a b (Suc i) prev cur ! length b = entry a b (length a) (length b)"
  using assms
proof (induction "length a - i" arbitrary: i prev cur)
  case 0
  then show ?case by (subst edit_rows.simps) simp
next
  case (Suc n)
  then have i: "i < length a" by simp
  have "\<forall>k < 1. cur[0 := Suc i] ! k = entry a b (Suc i) k" using Suc.prems(2) i by (simp add: min_def)
  then have "length (edit_row (a ! i) b prev 1 (cur[0 := Suc i])) = length b + 1
      \<and> (\<forall>k \<le> length b. edit_row (a ! i) b prev 1 (cur[0 := Suc i]) ! k = entry a b (Suc i) k)"
    using Suc.prems i by (intro edit_row_entries) auto
  then show ?case using Suc i by (subst edit_rows.simps) auto
qed

text \<open>The distance computed with two rows is the least number of insertions, deletions and replacements of single bytes that turn
  one text into the other.\<close>

theorem editDistance_least: "editDistance a b = (LEAST n. (edit ^^ n) a b)"
proof -
  have "editDistance a b = entry a b (length a) (length b)"
    unfolding editDistance_def
    using edit_rows_entries [of "[0..<length b + 1]" b "replicate (length b + 1) 0" 0 a] by (simp add: min_def del: upt_Suc)
  then show ?thesis by (simp add: levenshtein_least edits_rev)
qed

text \<open>The suggestion is the first of the nearest candidates, and there is none when all are farther than the limit.\<close>

lemma closest_from_nearest:
  "closest_from ul n best cs = (m, d) \<Longrightarrow>
   (m, d) = best \<and> (\<forall>c\<in>set cs. snd best \<le> editDistance n (ToLower ul c))
   \<or> m \<in> set cs \<and> d = editDistance n (ToLower ul m) \<and> d < snd best \<and> (\<forall>c\<in>set cs. d \<le> editDistance n (ToLower ul c))"
  by (induction cs arbitrary: best) (fastforce split: if_splits)+

lemma closest_nearest:
  assumes "closest ul name cs = m"
  shows "m \<noteq> [] \<Longrightarrow> m \<in> set cs \<and> editDistance (ToLower ul name) (ToLower ul m) \<le> max 2 (length (ToLower ul name) div 3)
      \<and> (\<forall>c\<in>set cs. editDistance (ToLower ul name) (ToLower ul m) \<le> editDistance (ToLower ul name) (ToLower ul c))"
    and "m = [] \<Longrightarrow> [] \<notin> set cs \<Longrightarrow> \<forall>c\<in>set cs. max 2 (length (ToLower ul name) div 3) < editDistance (ToLower ul name) (ToLower ul c)"
  using closest_from_nearest [of ul "ToLower ul name" "([], max 2 (length (ToLower ul name) div 3) + 1)" cs] assms
  by (auto simp: closest_def Let_def split: prod.splits if_splits)

end
