(* ===== verification/Boxfile.thy ===== *)
theory Boxfile
  imports Config Boxfile_Strict
begin

text \<open>
  The declaration file \<open>abox.yaml\<close>, \<open>boxfile/boxfile.go\<close>: its data, how it is loaded, how it is validated, and how the paths in it are
  resolved. The YAML decoder is a parameter; a relative path that is accepted lies inside the directory of the file.
\<close>

section \<open>Data\<close>

text \<open>Pointers and slices whose nil value differs from the empty one are options. The two maps of \<open>Overrides\<close> are association lists in the order in
  which the runtime happens to iterate over them.\<close>

record BoxfileDNS =
  bd_Upstream :: string

record BoxfileMonitor =
  bm_Enabled :: bool
  bm_Version :: string
  bm_KprobeMulti :: "bool option"
  bm_Kprobes :: "string list option"
  bm_Policies :: "string list"

record BoxfileHTTP =
  bh_MITM :: "bool option"
  bh_MaxConnections :: "int option"
  bh_AllowPrivateTargets :: "string list"
  bh_AllowedPorts :: "int list"
  bh_SecretInjections :: "SecretInjection list"
  bh_MITMExceptions :: "string list"

record Boxfile =
  b_Version :: int
  b_Name :: string
  b_Backend :: string
  b_CPUs :: int
  b_Memory :: int
  b_Disk :: string
  b_Base :: string
  b_User :: string
  b_Subnet :: string
  b_Provision :: "string list"
  b_Overlay :: string
  b_Allowlist :: "string list option"
  b_DNS :: BoxfileDNS
  b_HTTP :: BoxfileHTTP
  b_Monitor :: BoxfileMonitor
  b_Overrides :: "(string \<times> (string \<times> string) list) list"
  b_srcName :: string

datatype box_error =
    BoxGetwd os_error | BoxNotFound string | BoxRead os_error | BoxParse | BoxVersion config_error | BoxVersionType
  | BoxDecode decode_report | BoxNextParse | BoxDocuments
  | BoxNameMissing | BoxName val_error | BoxUser val_error | BoxResources val_error | BoxDisk val_error
  | BoxEscapes string | BoxMissing string | BoxStat string os_error | BoxNotDir string | BoxKprobesAndPolicies | BoxKprobe string
  | BoxMaxConns int | BoxTargets cidr_error | BoxInjections "nat \<times> inj_error" | BoxMITM mitm_error | BoxUpstream upstream_error
  | BoxOverrideRead string os_error

definition CurrentBoxfileVersion :: int where "CurrentBoxfileVersion = 1"
definition overrideKeyTemplate :: string where "overrideKeyTemplate = ''template''"
definition DefaultDisk :: string where "DefaultDisk = ''20G''"
definition DefaultBase :: string where "DefaultBase = ''ubuntu-24.04''"
definition DefaultUpstream :: string where "DefaultUpstream = []"

definition fileName :: "Boxfile \<Rightarrow> string" where
  "fileName b = (if b_srcName b = [] then ''abox.yaml'' else b_srcName b)"

definition DefaultBoxfile :: Boxfile where
  "DefaultBoxfile =
    \<lparr>b_Version = CurrentBoxfileVersion, b_Name = [], b_Backend = [], b_CPUs = 2, b_Memory = 4096, b_Disk = DefaultDisk, b_Base = DefaultBase,
     b_User = ''ubuntu'', b_Subnet = [], b_Provision = [], b_Overlay = [], b_Allowlist = None,
     b_DNS = \<lparr>bd_Upstream = DefaultUpstream\<rparr>,
     b_HTTP = \<lparr>bh_MITM = Some True, bh_MaxConnections = None, bh_AllowPrivateTargets = [], bh_AllowedPorts = [], bh_SecretInjections = [], bh_MITMExceptions = []\<rparr>,
     b_Monitor = \<lparr>bm_Enabled = False, bm_Version = [], bm_KprobeMulti = None, bm_Kprobes = None, bm_Policies = []\<rparr>,
     b_Overrides = [], b_srcName = []\<rparr>"

definition GetKprobeMulti :: "Boxfile \<Rightarrow> bool" where
  "GetKprobeMulti b = (case bm_KprobeMulti (b_Monitor b) of Some v \<Rightarrow> v | None \<Rightarrow> False)"

definition GetMITM :: "Boxfile \<Rightarrow> bool" where
  "GetMITM b = (case bh_MITM (b_HTTP b) of None \<Rightarrow> True | Some v \<Rightarrow> v)"

definition GetMaxConnections :: "Boxfile \<Rightarrow> int" where
  "GetMaxConnections b = (case bh_MaxConnections (b_HTTP b) of None \<Rightarrow> DefaultHTTPMaxConnections | Some n \<Rightarrow> n)"

section \<open>Loading\<close>

text \<open>What the YAML library does with the bytes of the file: the permissive first pass, the decoding of the first document over a given value with
  or without unknown keys, and the next document. A type error lists its entries and leaves the fields that could be decoded.\<close>

datatype yaml_node = YNode (yn_Kind: nat) (yn_Tag: string) (yn_Content: "yaml_node list")

datatype decode_result = Decode_OK | Decode_EOF | Decode_TypeError "string list" | Decode_Bad

datatype next_result = Next_EOF | Next_Bad | Next_Node yaml_node

record box_yaml =
  by_Raw :: "string \<Rightarrow> (string \<rightharpoonup> any) option"
  by_Decode :: "bool \<Rightarrow> string \<Rightarrow> Boxfile \<Rightarrow> Boxfile \<times> decode_result"
  by_Next :: "bool \<Rightarrow> string \<Rightarrow> next_result"

definition DocumentNode :: nat where "DocumentNode = 1"

definition isEmptyNode :: "yaml_node \<Rightarrow> bool" where
  "isEmptyNode n =
     (if yn_Kind n = DocumentNode then
        (case yn_Content n of [] \<Rightarrow> True | m # _ \<Rightarrow> yn_Kind m = 0 \<or> yn_Tag m = ''!!null'')
      else yn_Kind n = 0 \<or> yn_Tag n = ''!!null'')"

definition checkSingleDocument :: "next_result \<Rightarrow> box_error option" where
  "checkSingleDocument r =
     (case r of
        Next_EOF \<Rightarrow> None
      | Next_Bad \<Rightarrow> Some BoxNextParse
      | Next_Node n \<Rightarrow> if isEmptyNode n then None else Some BoxDocuments)"

definition checkBoxfileVersion :: "string \<Rightarrow> (string \<rightharpoonup> any) \<Rightarrow> box_error option" where
  "checkBoxfileVersion name raw =
     (case raw ''version'' of
        None \<Rightarrow> map_option BoxVersion (CheckVersion 0 CurrentBoxfileVersion name)
      | Some (AnyInt v) \<Rightarrow> map_option BoxVersion (CheckVersion v CurrentBoxfileVersion name)
      | Some _ \<Rightarrow> Some BoxVersionType)"

text \<open>\<open>filepath.Abs\<close> with the working directory as a parameter.\<close>

definition filepath_Abs :: "(os_error + string) \<Rightarrow> string \<Rightarrow> os_error + string" where
  "filepath_Abs wd p =
     (if IsAbs p then Inr (path_Clean p) else (case wd of Inl e \<Rightarrow> Inl e | Inr w \<Rightarrow> Inr (filepath_Join [w, p])))"

definition loadFile ::
  "'fs FileSystem \<Rightarrow> box_yaml \<Rightarrow> (string \<Rightarrow> string) \<Rightarrow> (os_error + string) \<Rightarrow> 'fs \<Rightarrow> string \<Rightarrow> bool \<Rightarrow> box_error + (Boxfile \<times> string \<times> string)" where
  "loadFile F Y ul wd fs path strict =
     (case filepath_Abs wd path of Inl e \<Rightarrow> Inl (BoxGetwd e) | Inr absPath \<Rightarrow>
      let absDir = filepath_Dir absPath; name = filepath_Base absPath in
      case ReadFile F fs absPath of
        Inl e \<Rightarrow> Inl (if e = os_error.ErrNotExist then BoxNotFound absPath else BoxRead e)
      | Inr data \<Rightarrow>
     (case by_Raw Y data of None \<Rightarrow> Inl BoxParse | Some raw \<Rightarrow>
      case (if strict then checkBoxfileVersion name raw else None) of Some e \<Rightarrow> Inl e | None \<Rightarrow>
      case by_Decode Y strict data DefaultBoxfile of (box, r) \<Rightarrow>
        let failed = (case r of Decode_OK \<Rightarrow> None | Decode_EOF \<Rightarrow> None
                      | Decode_TypeError es \<Rightarrow> if strict then Some (BoxDecode (decodeError ul (Some es))) else None
                      | Decode_Bad \<Rightarrow> Some (BoxDecode (decodeError ul None))) in
        case failed of Some e \<Rightarrow> Inl e | None \<Rightarrow>
        case (if strict then checkSingleDocument (by_Next Y strict data) else None) of Some e \<Rightarrow> Inl e | None \<Rightarrow>
        Inr (box\<lparr>b_srcName := name\<rparr>, absDir, data)))"

definition LoadRaw ::
  "'fs FileSystem \<Rightarrow> box_yaml \<Rightarrow> (string \<Rightarrow> string) \<Rightarrow> (os_error + string) \<Rightarrow> 'fs \<Rightarrow> string \<Rightarrow> box_error + (Boxfile \<times> string \<times> string)" where
  "LoadRaw F Y ul wd fs dir =
     (case (if dir = [] then wd else Inr dir) of Inl e \<Rightarrow> Inl (BoxGetwd e) | Inr d \<Rightarrow>
      case filepath_Abs wd d of Inl e \<Rightarrow> Inl (BoxGetwd e) | Inr absDir \<Rightarrow> loadFile F Y ul wd fs (filepath_Join [absDir, ''abox.yaml'']) True)"

definition LoadLenient ::
  "'fs FileSystem \<Rightarrow> box_yaml \<Rightarrow> (string \<Rightarrow> string) \<Rightarrow> (os_error + string) \<Rightarrow> 'fs \<Rightarrow> string \<Rightarrow> box_error + (Boxfile \<times> string)" where
  "LoadLenient F Y ul wd fs dir =
     (case (if dir = [] then wd else Inr dir) of Inl e \<Rightarrow> Inl (BoxGetwd e) | Inr d \<Rightarrow>
      case filepath_Abs wd d of Inl e \<Rightarrow> Inl (BoxGetwd e) | Inr absDir \<Rightarrow>
      case loadFile F Y ul wd fs (filepath_Join [absDir, ''abox.yaml'']) False of Inl e \<Rightarrow> Inl e | Inr (box, d', _) \<Rightarrow> Inr (box, d'))"

section \<open>Paths\<close>

definition resolvePath :: "string \<Rightarrow> string \<Rightarrow> box_error + string" where
  "resolvePath baseDir path =
     (if IsAbs path then Inr path
      else let resolved = path_Clean (filepath_Join [baseDir, path]); cleanBase = path_Clean baseDir in
           if resolved \<noteq> cleanBase \<and> \<not> HasPrefix resolved (cleanBase @ ''/'') then Inl (BoxEscapes path)
           else Inr resolved)"

fun resolve_all :: "string \<Rightarrow> string list \<Rightarrow> box_error + string list" where
  "resolve_all baseDir [] = Inr []"
| "resolve_all baseDir (p # ps) =
     (case resolvePath baseDir p of
        Inl e \<Rightarrow> Inl e
      | Inr r \<Rightarrow> (case resolve_all baseDir ps of Inl e \<Rightarrow> Inl e | Inr rs \<Rightarrow> Inr (r # rs)))"

definition ResolveProvisionPaths :: "Boxfile \<Rightarrow> string \<Rightarrow> box_error + string list" where
  "ResolveProvisionPaths b baseDir = resolve_all baseDir (b_Provision b)"

definition ResolvePolicyPaths :: "Boxfile \<Rightarrow> string \<Rightarrow> box_error + string list" where
  "ResolvePolicyPaths b baseDir = resolve_all baseDir (bm_Policies (b_Monitor b))"

text \<open>The lookup \<open>b.Overrides[backend][key]\<close> yields the empty string when either key is absent.\<close>

definition override_value :: "Boxfile \<Rightarrow> string \<Rightarrow> string \<Rightarrow> string" where
  "override_value b backend key =
     (case map_of (b_Overrides b) backend of None \<Rightarrow> [] | Some m \<Rightarrow> (case map_of m key of None \<Rightarrow> [] | Some v \<Rightarrow> v))"

definition ResolveOverridePath :: "Boxfile \<Rightarrow> string \<Rightarrow> string \<Rightarrow> string \<Rightarrow> box_error + string" where
  "ResolveOverridePath b backend key baseDir =
     (let path = override_value b backend key in if path = [] then Inr [] else resolvePath baseDir path)"

definition LoadOverrideContent :: "'fs FileSystem \<Rightarrow> 'fs \<Rightarrow> Boxfile \<Rightarrow> string \<Rightarrow> string \<Rightarrow> string \<Rightarrow> box_error + string" where
  "LoadOverrideContent F fs b backend key baseDir =
     (if override_value b backend key = [] then Inr []
      else (case ResolveOverridePath b backend key baseDir of
              Inl e \<Rightarrow> Inl e
            | Inr resolved \<Rightarrow>
                (case ReadFile F fs resolved of Inl e \<Rightarrow> Inl (BoxOverrideRead (backend @ ''.'' @ key) e) | Inr content \<Rightarrow> Inr content)))"

definition ResolveOverlayPath :: "Boxfile \<Rightarrow> string \<Rightarrow> box_error + string" where
  "ResolveOverlayPath b baseDir = (if b_Overlay b = [] then Inr [] else resolvePath baseDir (b_Overlay b))"

section \<open>Validation\<close>

definition ApplySuffix :: "string \<Rightarrow> Boxfile \<Rightarrow> Boxfile" where
  "ApplySuffix sfx b = (if sfx \<noteq> [] then b\<lparr>b_Name := b_Name b @ ''-'' @ sfx\<rparr> else b)"

text \<open>The first error of a loop that returns at the first error.\<close>

fun first_error :: "('a \<Rightarrow> 'e option) \<Rightarrow> 'a list \<Rightarrow> 'e option" where
  "first_error f [] = None"
| "first_error f (x # xs) = (case f x of Some e \<Rightarrow> Some e | None \<Rightarrow> first_error f xs)"

lemma first_error_None [simp]: "first_error f xs = None \<longleftrightarrow> (\<forall>x\<in>set xs. f x = None)"
  by (induction xs) (auto split: option.splits)

text \<open>Resolve a path and look whether it exists.\<close>

definition check_file :: "'fs FileSystem \<Rightarrow> 'fs \<Rightarrow> string \<Rightarrow> string \<Rightarrow> box_error option" where
  "check_file F fs baseDir p =
     (case resolvePath baseDir p of
        Inl e \<Rightarrow> Some e
      | Inr resolved \<Rightarrow>
          (case Stat F fs resolved of
             Inl e \<Rightarrow> Some (if e = os_error.ErrNotExist then BoxMissing resolved else BoxStat p e)
           | Inr _ \<Rightarrow> None))"

definition validateNameAndUser :: "Boxfile \<Rightarrow> box_error option" where
  "validateNameAndUser b =
     (if b_Name b = [] then Some BoxNameMissing
      else (case ValidateInstanceName (b_Name b) of
              Some e \<Rightarrow> Some (BoxName e)
            | None \<Rightarrow> if b_User b \<noteq> [] then map_option BoxUser (ValidateSSHUser (b_User b)) else None))"

definition validateResources :: "Boxfile \<Rightarrow> box_error option" where
  "validateResources b =
     (case ValidateResourceLimits (b_CPUs b) (b_Memory b) of
        Some e \<Rightarrow> Some (BoxResources e)
      | None \<Rightarrow> if b_Disk b \<noteq> [] then map_option BoxDisk (ValidateDiskSize (b_Disk b)) else None)"

definition validateProvisionScripts :: "'fs FileSystem \<Rightarrow> 'fs \<Rightarrow> string \<Rightarrow> Boxfile \<Rightarrow> box_error option" where
  "validateProvisionScripts F fs baseDir b = first_error (check_file F fs baseDir) (b_Provision b)"

definition validateOverlay :: "'fs FileSystem \<Rightarrow> 'fs \<Rightarrow> string \<Rightarrow> Boxfile \<Rightarrow> box_error option" where
  "validateOverlay F fs baseDir b =
     (if b_Overlay b = [] then None
      else (case resolvePath baseDir (b_Overlay b) of
              Inl e \<Rightarrow> Some e
            | Inr overlayPath \<Rightarrow>
                (case Stat F fs overlayPath of
                   Inl e \<Rightarrow> Some (if e = os_error.ErrNotExist then BoxMissing overlayPath else BoxStat (b_Overlay b) e)
                 | Inr info \<Rightarrow> if \<not> fi_IsDir info then Some (BoxNotDir overlayPath) else None)))"

text \<open>The keys of the kprobe registry of the monitor.\<close>

definition kprobe_names :: "string list" where
  "kprobe_names =
    [''security_file_open'', ''vfs_unlink'', ''vfs_rename'', ''security_socket_connect'', ''inet_csk_listen_start'', ''security_bprm_check'',
     ''commit_creds'', ''do_init_module'', ''sys_setuid'', ''sys_ptrace'', ''path_mount'', ''tcp_close'']"

definition ValidKprobe :: "string \<Rightarrow> bool" where
  "ValidKprobe name \<longleftrightarrow> name \<in> set kprobe_names"

abbreviation slice :: "'a list option \<Rightarrow> 'a list" where
  "slice s \<equiv> (case s of None \<Rightarrow> [] | Some xs \<Rightarrow> xs)"

definition validateMonitor :: "'fs FileSystem \<Rightarrow> 'fs \<Rightarrow> string \<Rightarrow> Boxfile \<Rightarrow> box_error option" where
  "validateMonitor F fs baseDir b =
     (if slice (bm_Kprobes (b_Monitor b)) \<noteq> [] \<and> bm_Policies (b_Monitor b) \<noteq> [] then Some BoxKprobesAndPolicies
      else (case first_error (\<lambda>name. if \<not> ValidKprobe name then Some (BoxKprobe name) else None) (slice (bm_Kprobes (b_Monitor b))) of
              Some e \<Rightarrow> Some e
            | None \<Rightarrow> first_error (check_file F fs baseDir) (bm_Policies (b_Monitor b))))"

definition validateOverrides :: "'fs FileSystem \<Rightarrow> 'fs \<Rightarrow> string \<Rightarrow> Boxfile \<Rightarrow> box_error option" where
  "validateOverrides F fs baseDir b =
     first_error (\<lambda>(backend, overrides).
       first_error (\<lambda>(key, path). if path = [] then None else check_file F fs baseDir path) overrides) (b_Overrides b)"

definition validateDNS :: "Boxfile \<Rightarrow> box_error + Boxfile" where
  "validateDNS b =
     (if bd_Upstream (b_DNS b) \<noteq> [] then
        (case NormalizeUpstreamDNS (bd_Upstream (b_DNS b)) of
           Inl e \<Rightarrow> Inl (BoxUpstream e)
         | Inr normalized \<Rightarrow> Inr (b\<lparr>b_DNS := (b_DNS b)\<lparr>bd_Upstream := normalized\<rparr>\<rparr>))
      else Inr b)"

definition validate_http :: "dom_ext \<Rightarrow> 't radix_ops \<Rightarrow> Boxfile \<Rightarrow> box_error + Boxfile" where
  "validate_http E R b =
     (case NewTargetChecker (bh_AllowPrivateTargets (b_HTTP b)) of Inl e \<Rightarrow> Inl (BoxTargets e) | Inr _ \<Rightarrow>
      case ValidateSecretInjections E (bh_SecretInjections (b_HTTP b)) of Some e \<Rightarrow> Inl (BoxInjections e) | None \<Rightarrow>
      case ValidateMITMExceptions E R (bh_MITMExceptions (b_HTTP b)) (bh_SecretInjections (b_HTTP b)) of Some e \<Rightarrow> Inl (BoxMITM e) | None \<Rightarrow>
      validateDNS b)"

definition Boxfile_Validate :: "'fs FileSystem \<Rightarrow> dom_ext \<Rightarrow> 't radix_ops \<Rightarrow> 'fs \<Rightarrow> string \<Rightarrow> Boxfile \<Rightarrow> box_error + Boxfile" where
  "Boxfile_Validate F E R fs baseDir b =
     (case validateNameAndUser b of Some e \<Rightarrow> Inl e | None \<Rightarrow>
      case validateResources b of Some e \<Rightarrow> Inl e | None \<Rightarrow>
      case validateProvisionScripts F fs baseDir b of Some e \<Rightarrow> Inl e | None \<Rightarrow>
      case validateOverlay F fs baseDir b of Some e \<Rightarrow> Inl e | None \<Rightarrow>
      case validateMonitor F fs baseDir b of Some e \<Rightarrow> Inl e | None \<Rightarrow>
      case validateOverrides F fs baseDir b of Some e \<Rightarrow> Inl e | None \<Rightarrow>
      case (case bh_MaxConnections (b_HTTP b) of Some n \<Rightarrow> if n < 1 then Some (BoxMaxConns n) else None | None \<Rightarrow> None) of Some e \<Rightarrow> Inl e | None \<Rightarrow>
      validate_http E R b)"

section \<open>Resolved paths\<close>

text \<open>A relative path is resolved segment by segment from the directory of the file, and is accepted exactly when it does not leave it. For the root
  directory the text test accepts only the directory itself.\<close>

abbreviation dir_segs :: "string \<Rightarrow> string list" where
  "dir_segs d \<equiv> clean_segments True d"

lemma resolvePath_relative:
  assumes "IsAbs d" "\<not> IsAbs p"
  shows "resolvePath d p =
    (if resolve (dir_segs d) p = dir_segs d \<or> dir_segs d \<noteq> [] \<and> prefix (dir_segs d) (resolve (dir_segs d) p)
     then Inr (rooted (resolve (dir_segs d) p)) else Inl (BoxEscapes p))"
proof -
  let ?s = "dir_segs d" and ?r = "resolve (dir_segs d) p"
  have n: "list_all normal_seg ?s" "list_all normal_seg ?r" by (simp_all add: clean_segments_normal normal_resolve)
  have d: "path_Clean d = rooted ?s" using assms(1) by (simp add: path_Clean_rooted IsAbs_def)
  have j: "filepath_Join [d, p] = rooted ?r" using assms(1) by (simp add: filepath_Join_abs IsAbs_def resolve_def)
  have w: "rooted ?r = rooted ?s \<or> HasPrefix (rooted ?r) (rooted ?s @ ''/'') \<longleftrightarrow> prefix ?s ?r" if "?s \<noteq> []"
    using within_rooted [OF n(1) that n(2)] by (simp add: within_def)
  have e: "\<not> HasPrefix (rooted ?r) ''//''"
  proof (cases ?r)
    case (Cons a x)
    then have "a \<noteq> []" "CHR ''/'' \<notin> set a" using n(2) by (auto simp: normal_seg_def seg_ok_def)
    then show ?thesis using Cons by (cases a; cases x) (auto simp: rooted_def)
  qed (simp add: rooted_def)
  have nil: "rooted [] = ''/''" by (simp add: rooted_def)
  show ?thesis
    using assms(2) n w e nil rooted_inj [OF n(2), of "[]"] by (cases "?s = []") (auto simp: resolvePath_def d j Let_def rooted_inj)
qed

lemma resolvePath_inside:
  assumes "IsAbs d" "\<not> IsAbs p" "resolvePath d p = Inr r"
  shows "\<exists>ss. r = rooted (dir_segs d @ ss) \<and> list_all normal_seg ss"
proof -
  obtain ss where "resolve (dir_segs d) p = dir_segs d @ ss" "r = rooted (resolve (dir_segs d) p)"
    using assms by (auto simp: resolvePath_relative prefix_def split: if_splits)
  then show ?thesis using normal_resolve [OF clean_segments_normal, of d p] by auto
qed

lemma resolvePath_absolute: "IsAbs p \<Longrightarrow> resolvePath d p = Inr p"
  by (simp add: resolvePath_def)

section \<open>Validated files\<close>

lemma Validate_iff:
  "Boxfile_Validate F E R fs d b = Inr b' \<longleftrightarrow>
     validateNameAndUser b = None \<and> validateResources b = None \<and> validateProvisionScripts F fs d b = None \<and> validateOverlay F fs d b = None
     \<and> validateMonitor F fs d b = None \<and> validateOverrides F fs d b = None \<and> (\<forall>n. bh_MaxConnections (b_HTTP b) = Some n \<longrightarrow> 1 \<le> n)
     \<and> (\<exists>c. NewTargetChecker (bh_AllowPrivateTargets (b_HTTP b)) = Inr c) \<and> ValidateSecretInjections E (bh_SecretInjections (b_HTTP b)) = None
     \<and> ValidateMITMExceptions E R (bh_MITMExceptions (b_HTTP b)) (bh_SecretInjections (b_HTTP b)) = None \<and> validateDNS b = Inr b'"
  by (auto simp: Boxfile_Validate_def validate_http_def split: option.splits sum.splits if_splits)

lemma Validate_parts:
  assumes "Boxfile_Validate F E R fs d b = Inr b'"
  shows "validateNameAndUser b = None" "validateResources b = None" "validateProvisionScripts F fs d b = None" "validateOverlay F fs d b = None"
    "validateMonitor F fs d b = None" "validateOverrides F fs d b = None" "\<And>n. bh_MaxConnections (b_HTTP b) = Some n \<Longrightarrow> 1 \<le> n"
    "\<exists>c. NewTargetChecker (bh_AllowPrivateTargets (b_HTTP b)) = Inr c" "ValidateSecretInjections E (bh_SecretInjections (b_HTTP b)) = None"
    "ValidateMITMExceptions E R (bh_MITMExceptions (b_HTTP b)) (bh_SecretInjections (b_HTTP b)) = None" "validateDNS b = Inr b'"
  using assms by (simp_all add: Validate_iff)

lemma validateDNS_fields: "validateDNS b = Inr b' \<Longrightarrow> b' = b\<lparr>b_DNS := b_DNS b'\<rparr>"
  by (auto simp: validateDNS_def split: if_splits sum.splits)

lemma NormalizeUpstreamDNS_idem:
  assumes "NormalizeUpstreamDNS u = Inr n"
  shows "NormalizeUpstreamDNS n = Inr n" "n \<noteq> []"
proof -
  obtain h p where u: "n = JoinHostPort h p" and h: "h \<noteq> []" and p: "\<exists>k. Atoi p = Some k \<and> 1 \<le> k \<and> k \<le> 65535"
    and k: "looksLikeIP h \<and> Option.bind (ParseIP h) To4 \<noteq> None \<or> \<not> looksLikeIP h \<and> length h \<le> 253 \<and> rx_match validHostnameRegex h"
    using assms by (auto simp: NormalizeUpstreamDNS_def Let_def split: if_splits option.splits sum.splits prod.splits)
  have c: "list_all host_char h"
    using k by (auto simp: looksLikeIP_def list_all_iff host_char_def is_alnum_def validHostnameRegex_def rx_match_lang rx_lang)
  then have "CHR ''['' \<notin> set h" "CHR '']'' \<notin> set h" "CHR '':'' \<notin> set h" by (auto simp: list_all_iff go_char code_def)
  moreover have "CHR ''['' \<notin> set p" "CHR '']'' \<notin> set p" "CHR '':'' \<notin> set p"
    using p by (auto simp: Atoi_def parse_digits_def list_all_iff go_char code_def split: list.splits if_splits option.splits)
  ultimately have "SplitHostPort n = Inr (h, p)" "n \<noteq> []" using u by (auto simp: SplitHostPort_Join) (simp add: JoinHostPort_def)
  then show "NormalizeUpstreamDNS n = Inr n" "n \<noteq> []" using h p k u by (auto simp: NormalizeUpstreamDNS_def)
qed

lemma Validate_idem:
  assumes "Boxfile_Validate F E R fs d b = Inr b'"
  shows "Boxfile_Validate F E R fs d b' = Inr b'"
proof -
  note v = Validate_parts [OF assms]
  obtain u where f: "b' = b\<lparr>b_DNS := u\<rparr>" using validateDNS_fields [OF v(11)] by blast
  have x: "b_Name b' = b_Name b" "b_User b' = b_User b" "b_CPUs b' = b_CPUs b" "b_Memory b' = b_Memory b" "b_Disk b' = b_Disk b"
    "b_Provision b' = b_Provision b" "b_Overlay b' = b_Overlay b" "b_Monitor b' = b_Monitor b" "b_Overrides b' = b_Overrides b" "b_HTTP b' = b_HTTP b"
    by (simp_all add: f)
  have "validateDNS b' = Inr b'"
    using v(11) NormalizeUpstreamDNS_idem by (fastforce simp: validateDNS_def split: if_splits sum.splits)
  moreover have "validateNameAndUser b' = validateNameAndUser b" "validateResources b' = validateResources b"
    "validateProvisionScripts F fs d b' = validateProvisionScripts F fs d b" "validateOverlay F fs d b' = validateOverlay F fs d b"
    "validateMonitor F fs d b' = validateMonitor F fs d b" "validateOverrides F fs d b' = validateOverrides F fs d b"
    by (simp_all only: validateNameAndUser_def validateResources_def validateProvisionScripts_def validateOverlay_def validateMonitor_def validateOverrides_def x)
  ultimately show ?thesis using v unfolding Validate_iff by (simp add: x)
qed

text \<open>Every path a validated file names resolves.\<close>

lemma check_file_resolves: "check_file F fs d p = None \<Longrightarrow> \<exists>r. resolvePath d p = Inr r"
  by (auto simp: check_file_def split: sum.splits)

lemma resolve_all_Inr:
  "resolve_all d ps = Inr rs \<longleftrightarrow> list_all2 (\<lambda>p r. resolvePath d p = Inr r) ps rs"
  by (induction ps arbitrary: rs) (auto simp: list_all2_Cons1 split: sum.splits, metis sum.inject(2))

lemma resolve_all_total:
  "\<forall>p\<in>set ps. \<exists>r. resolvePath d p = Inr r \<Longrightarrow> \<exists>rs. resolve_all d ps = Inr rs"
  by (induction ps) auto

lemma Validate_resolves:
  assumes "Boxfile_Validate F E R fs d b = Inr b'"
  shows "\<exists>rs. ResolveProvisionPaths b' d = Inr rs" "\<exists>rs. ResolvePolicyPaths b' d = Inr rs" "\<exists>r. ResolveOverlayPath b' d = Inr r"
    "(backend, os) \<in> set (b_Overrides b') \<Longrightarrow> (key, p) \<in> set os \<Longrightarrow> p \<noteq> [] \<Longrightarrow> \<exists>r. resolvePath d p = Inr r"
proof -
  note v = Validate_parts [OF Validate_idem [OF assms]]
  show "\<exists>rs. ResolveProvisionPaths b' d = Inr rs"
    using v(3) by (auto simp: validateProvisionScripts_def ResolveProvisionPaths_def intro!: resolve_all_total dest: check_file_resolves)
  show "\<exists>rs. ResolvePolicyPaths b' d = Inr rs"
    using v(5) by (auto simp: validateMonitor_def ResolvePolicyPaths_def intro!: resolve_all_total dest: check_file_resolves split: if_splits option.splits)
  show "\<exists>r. ResolveOverlayPath b' d = Inr r"
    using v(4) by (auto simp: validateOverlay_def ResolveOverlayPath_def split: if_splits sum.splits)
  assume "(backend, os) \<in> set (b_Overrides b')" "(key, p) \<in> set os" "p \<noteq> []"
  then have "check_file F fs d p = None" using v(6) by (fastforce simp: validateOverrides_def)
  then show "\<exists>r. resolvePath d p = Inr r" by (rule check_file_resolves)
qed

end
