(* ===== verification/Boxfile_Trust.thy ===== *)
theory Boxfile_Trust
  imports Boxfile "HOL-Library.AList"
begin

text \<open>
  The trust gate for \<open>abox.yaml\<close>, \<open>boxfile/trust.go\<close> and \<open>TrustBoxfile\<close> of \<open>cmdutil/boxfile.go\<close>: which settings of a file are
  security-relevant, the fingerprint over the file and the files it refers to, and the cache of approved fingerprints. A file with no
  security-relevant setting stays inside its directory, and an approval holds only for the approved contents.
\<close>

section \<open>Security-relevant settings\<close>

datatype security_note =
    CustomTemplate string string | OverrideAbsolute string string string | ProvisionAbsolute string | OverlayAbsolute string | PolicyAbsolute string
  | PrivateTargets "string list" | MITMDisabled | MITMExceptionList "string list" | WidenedPorts "int list" | SecretBinding string string string
  | CustomUpstream string

definition sortedKeys :: "(string \<times> 'a) list \<Rightarrow> string list" where
  "sortedKeys m = sort (map fst m)"

abbreviation backend_overrides :: "Boxfile \<Rightarrow> string \<Rightarrow> (string \<times> string) list" where
  "backend_overrides b backend \<equiv> slice (map_of (b_Overrides b) backend)"

definition override_note :: "Boxfile \<Rightarrow> string \<Rightarrow> string \<Rightarrow> security_note list" where
  "override_note b backend key =
     (let v = override_value b backend key in
      if key = overrideKeyTemplate \<and> v \<noteq> [] then [CustomTemplate backend v]
      else if IsAbs v then [OverrideAbsolute backend key v]
      else [])"

definition summarizeOverrides :: "Boxfile \<Rightarrow> security_note list" where
  "summarizeOverrides b =
     concat (map (\<lambda>backend. concat (map (override_note b backend) (sortedKeys (backend_overrides b backend)))) (sortedKeys (b_Overrides b)))"

definition summarizeAbsolutePaths :: "Boxfile \<Rightarrow> security_note list" where
  "summarizeAbsolutePaths b =
     map ProvisionAbsolute (List.filter IsAbs (b_Provision b))
     @ (if IsAbs (b_Overlay b) then [OverlayAbsolute (b_Overlay b)] else [])
     @ map PolicyAbsolute (List.filter IsAbs (bm_Policies (b_Monitor b)))"

definition SecuritySummary :: "Boxfile \<Rightarrow> security_note list" where
  "SecuritySummary b =
     summarizeOverrides b @ summarizeAbsolutePaths b
     @ (if bh_AllowPrivateTargets (b_HTTP b) \<noteq> [] then [PrivateTargets (bh_AllowPrivateTargets (b_HTTP b))] else [])
     @ (if bh_MITM (b_HTTP b) = Some False then [MITMDisabled] else [])
     @ (if bh_MITMExceptions (b_HTTP b) \<noteq> [] then [MITMExceptionList (bh_MITMExceptions (b_HTTP b))] else [])
     @ (if bh_AllowedPorts (b_HTTP b) \<noteq> [] then [WidenedPorts (bh_AllowedPorts (b_HTTP b))] else [])
     @ map (\<lambda>si. SecretBinding (si_Key si) (si_Header si) (si_Host si)) (bh_SecretInjections (b_HTTP b))
     @ (if bd_Upstream (b_DNS b) \<noteq> [] then [CustomUpstream (bd_Upstream (b_DNS b))] else [])"

section \<open>Fingerprint\<close>

text \<open>The environment of the gate: the file system, the process, the JSON library for the cache, SHA-256 and the texts of errors.\<close>

record json_ops =
  js_Marshal :: "(string \<times> string) list \<Rightarrow> string option"
  js_Unmarshal :: "string \<Rightarrow> (string \<times> string) list option"

record 'fs trust_env =
  tr_F :: "'fs FileSystem"
  tr_P :: proc_env
  tr_J :: json_ops
  tr_sum256 :: "string \<Rightarrow> u8 list"
  tr_errText :: "box_error \<Rightarrow> string"

definition NUL :: char where "NUL = char_of (0 :: nat)"

definition policyIndex :: "string \<Rightarrow> nat" where
  "policyIndex ref = (case Atoi (TrimPrefix ref ''policy:'') of Some i \<Rightarrow> nat i | None \<Rightarrow> 0)"

definition trust_refs :: "Boxfile \<Rightarrow> string list" where
  "trust_refs b =
     sort (map (\<lambda>backend. ''template:'' @ backend) (List.filter (\<lambda>backend. override_value b backend overrideKeyTemplate \<noteq> []) (sortedKeys (b_Overrides b)))
           @ map (\<lambda>i. ''policy:'' @ Itoa i) [0..<length (bm_Policies (b_Monitor b))])"

text \<open>What is hashed for a reference: the content of the file, or the text of the error.\<close>

definition ref_content :: "'fs trust_env \<Rightarrow> 'fs \<Rightarrow> Boxfile \<Rightarrow> string \<Rightarrow> string \<Rightarrow> box_error + string" where
  "ref_content T fs b baseDir ref =
     (if HasPrefix ref ''template:'' then LoadOverrideContent (tr_F T) fs b (TrimPrefix ref ''template:'') overrideKeyTemplate baseDir
      else if HasPrefix ref ''policy:'' then
        (case ResolvePolicyPaths b baseDir of
           Inl e \<Rightarrow> Inl e
         | Inr paths \<Rightarrow> (case ReadFile (tr_F T) fs (paths ! policyIndex ref) of Inl e \<Rightarrow> Inl (BoxRead e) | Inr c \<Rightarrow> Inr c))
      else Inr [])"

definition ref_bytes :: "'fs trust_env \<Rightarrow> 'fs \<Rightarrow> Boxfile \<Rightarrow> string \<Rightarrow> string \<Rightarrow> string" where
  "ref_bytes T fs b baseDir ref =
     (case ref_content T fs b baseDir ref of Inl e \<Rightarrow> ''ERR:'' @ tr_errText T e | Inr content \<Rightarrow> content)"

definition hashed :: "'fs trust_env \<Rightarrow> 'fs \<Rightarrow> Boxfile \<Rightarrow> string \<Rightarrow> string \<Rightarrow> string" where
  "hashed T fs b rawYAML baseDir =
     rawYAML @ concat (map (\<lambda>ref. [NUL] @ ref @ [NUL] @ ref_bytes T fs b baseDir ref) (trust_refs b))"

definition TrustFingerprint :: "'fs trust_env \<Rightarrow> 'fs \<Rightarrow> Boxfile \<Rightarrow> string \<Rightarrow> string \<Rightarrow> string" where
  "TrustFingerprint T fs b rawYAML baseDir = hex_bytes (tr_sum256 T (hashed T fs b rawYAML baseDir))"

section \<open>Cache\<close>

datatype trust_error =
    TrustPath path_error | TrustRead os_error | TrustMarshal | TrustMkdir os_error | TrustWrite os_error | TrustDeclined | TrustUntrusted string

definition trustCachePath :: "'fs trust_env \<Rightarrow> 'fs \<Rightarrow> trust_error + string" where
  "trustCachePath T fs =
     (case GetPaths (tr_F T) (tr_P T) fs [] of
        Inl e \<Rightarrow> Inl (TrustPath e)
      | Inr paths \<Rightarrow> Inr (filepath_Join [p_Base paths, ''trusted-boxfiles.json'']))"

definition loadTrustCache :: "'fs trust_env \<Rightarrow> 'fs \<Rightarrow> trust_error + (string \<times> string) list" where
  "loadTrustCache T fs =
     (case trustCachePath T fs of
        Inl e \<Rightarrow> Inl e
      | Inr path \<Rightarrow>
          (case ReadFile (tr_F T) fs path of
             Inl e \<Rightarrow> if e = os_error.ErrNotExist then Inr [] else Inl (TrustRead e)
           | Inr data \<Rightarrow> (case js_Unmarshal (tr_J T) data of None \<Rightarrow> Inr [] | Some tc \<Rightarrow> Inr tc)))"

definition IsTrusted :: "'fs trust_env \<Rightarrow> 'fs \<Rightarrow> string \<Rightarrow> string \<Rightarrow> trust_error + bool" where
  "IsTrusted T fs boxDir fingerprint =
     (case loadTrustCache T fs of
        Inl e \<Rightarrow> Inl e
      | Inr tc \<Rightarrow> Inr ((case map_of tc boxDir of None \<Rightarrow> [] | Some f \<Rightarrow> f) = fingerprint))"

definition MarkTrusted :: "'fs trust_env \<Rightarrow> 'fs \<Rightarrow> string \<Rightarrow> string \<Rightarrow> 'fs \<times> trust_error option" where
  "MarkTrusted T fs boxDir fingerprint =
     (case trustCachePath T fs of
        Inl e \<Rightarrow> (fs, Some e)
      | Inr path \<Rightarrow>
          (case loadTrustCache T fs of
             Inl e \<Rightarrow> (fs, Some e)
           | Inr tc \<Rightarrow>
               (case js_Marshal (tr_J T) (AList.update boxDir fingerprint tc) of
                  None \<Rightarrow> (fs, Some TrustMarshal)
                | Some data \<Rightarrow>
                    (case MkdirAll (tr_F T) fs (filepath_Dir path) 448 of
                       (fs', Some e) \<Rightarrow> (fs', Some (TrustMkdir e))
                     | (fs', None) \<Rightarrow> (case WriteFile (tr_F T) fs' path data 384 of (fs'', r) \<Rightarrow> (fs'', map_option TrustWrite r))))))"

section \<open>Gate\<close>

text \<open>The terminal, and the answer the prompter gives when there is one.\<close>

record trust_io =
  ti_terminal :: bool
  ti_prompter :: "bool option"

definition TrustBoxfile :: "'fs trust_env \<Rightarrow> 'fs \<Rightarrow> trust_io \<Rightarrow> Boxfile \<Rightarrow> string \<Rightarrow> string \<Rightarrow> string \<Rightarrow> 'fs \<times> trust_error option" where
  "TrustBoxfile T fs io b rawYAML boxDir trustToken =
     (if SecuritySummary b = [] then (fs, None)
      else let fingerprint = TrustFingerprint T fs b rawYAML boxDir in
        case IsTrusted T fs boxDir fingerprint of
          Inl e \<Rightarrow> (fs, Some e)
        | Inr trusted \<Rightarrow>
            if trusted then (fs, None)
            else if trustToken \<noteq> [] \<and> trustToken = fingerprint then MarkTrusted T fs boxDir fingerprint
            else if ti_terminal io \<and> ti_prompter io \<noteq> None then
              (if ti_prompter io = Some True then MarkTrusted T fs boxDir fingerprint else (fs, Some TrustDeclined))
            else (fs, Some (TrustUntrusted fingerprint)))"

section \<open>Files that pass without a question\<close>

text \<open>The association lists stand for maps when no key occurs twice.\<close>

definition go_maps :: "Boxfile \<Rightarrow> bool" where
  "go_maps b \<longleftrightarrow> distinct (map fst (b_Overrides b)) \<and> (\<forall>m \<in> set (map snd (b_Overrides b)). distinct (map fst m))"

lemma override_of_entry:
  assumes "go_maps b" "(backend, os) \<in> set (b_Overrides b)" "(key, p) \<in> set os"
  shows "override_value b backend key = p" "backend_overrides b backend = os"
proof -
  have "map_of (b_Overrides b) backend = Some os" using assms(1,2) by (simp add: go_maps_def)
  moreover have "distinct (map fst os)" using assms(1,2) by (force simp: go_maps_def)
  ultimately show "override_value b backend key = p" "backend_overrides b backend = os"
    using assms(3) by (simp_all add: override_value_def)
qed

lemma quiet_override:
  assumes "summarizeOverrides b = []" "go_maps b" "(backend, os) \<in> set (b_Overrides b)" "(key, p) \<in> set os"
  shows "\<not> IsAbs p" "key = overrideKeyTemplate \<Longrightarrow> p = []"
proof -
  note o = override_of_entry [OF assms(2-4)]
  have "backend \<in> set (sortedKeys (b_Overrides b))" "key \<in> set (sortedKeys (backend_overrides b backend))"
    using assms(3,4) unfolding o(2) by (force simp: sortedKeys_def)+
  then have "override_note b backend key = []" using assms(1) by (auto simp: summarizeOverrides_def)
  then show "\<not> IsAbs p" "key = overrideKeyTemplate \<Longrightarrow> p = []"
    using o(1) by (auto simp: override_note_def Let_def IsAbs_def split: if_splits)
qed

lemma optional_note: "(if P then [x] else []) = [] \<longleftrightarrow> \<not> P"
  by simp

text \<open>Where a path of the file may lead.\<close>

definition inside :: "string \<Rightarrow> string \<Rightarrow> bool" where
  "inside d p \<longleftrightarrow> (\<exists>ss. resolvePath d p = Inr (rooted (dir_segs d @ ss)) \<and> list_all normal_seg ss)"

lemma relative_inside: "IsAbs d \<Longrightarrow> \<not> IsAbs p \<Longrightarrow> resolvePath d p = Inr r \<Longrightarrow> inside d p"
  using resolvePath_inside [of d p r] by (auto simp: inside_def)

lemma silent_facts:
  assumes "Boxfile_Validate F E R fs d b0 = Inr b" and "SecuritySummary b = []" and "IsAbs d" and "go_maps b"
  shows "\<forall>p \<in> set (b_Provision b) \<union> set (bm_Policies (b_Monitor b)). inside d p"
    and "b_Overlay b \<noteq> [] \<longrightarrow> inside d (b_Overlay b)"
    and "\<forall>(backend, os) \<in> set (b_Overrides b). \<forall>(key, p) \<in> set os. p \<noteq> [] \<longrightarrow> key \<noteq> overrideKeyTemplate \<and> inside d p"
    and "GetMITM b" "bh_AllowPrivateTargets (b_HTTP b) = []" "bh_AllowedPorts (b_HTTP b) = []" "bh_SecretInjections (b_HTTP b) = []"
      "bh_MITMExceptions (b_HTTP b) = []" "bd_Upstream (b_DNS b) = []"
proof -
  note v = Validate_resolves [OF assms(1)]
  have q: "summarizeOverrides b = []" "summarizeAbsolutePaths b = []" using assms(2) unfolding SecuritySummary_def by blast+
  then have abs: "\<forall>p \<in> set (b_Provision b) \<union> set (bm_Policies (b_Monitor b)). \<not> IsAbs p" "\<not> IsAbs (b_Overlay b)"
    by (auto simp: summarizeAbsolutePaths_def filter_empty_conv split: if_splits)
  have r: "\<exists>r. resolvePath d p = Inr r" if "p \<in> set ps" "resolve_all d ps = Inr rs" for p ps rs
    using that by (auto simp: resolve_all_Inr list_all2_conv_all_nth in_set_conv_nth)
  have "\<exists>r. resolvePath d p = Inr r" if "p \<in> set (b_Provision b) \<union> set (bm_Policies (b_Monitor b))" for p
    using that v(1,2) r by (auto simp: ResolveProvisionPaths_def ResolvePolicyPaths_def)
  then show "\<forall>p \<in> set (b_Provision b) \<union> set (bm_Policies (b_Monitor b)). inside d p"
    using abs(1) relative_inside [OF assms(3)] by blast
  show "b_Overlay b \<noteq> [] \<longrightarrow> inside d (b_Overlay b)"
    using v(3) abs(2) relative_inside [OF assms(3)] by (auto simp: ResolveOverlayPath_def)
  show "\<forall>(backend, os) \<in> set (b_Overrides b). \<forall>(key, p) \<in> set os. p \<noteq> [] \<longrightarrow> key \<noteq> overrideKeyTemplate \<and> inside d p"
  proof (clarify)
    fix backend os key p assume e: "(backend, os) \<in> set (b_Overrides b)" "(key, p) \<in> set os" "p \<noteq> []"
    note o = quiet_override [OF q(1) assms(4) e(1,2)]
    obtain r where "resolvePath d p = Inr r" using v(4) [OF e] by blast
    then show "key \<noteq> overrideKeyTemplate \<and> inside d p" using o e(3) relative_inside [OF assms(3)] by blast
  qed
  show "GetMITM b" "bh_AllowPrivateTargets (b_HTTP b) = []" "bh_AllowedPorts (b_HTTP b) = []" "bh_SecretInjections (b_HTTP b) = []"
      "bh_MITMExceptions (b_HTTP b) = []" "bd_Upstream (b_DNS b) = []"
    using assms(2) by (cases "bh_MITM (b_HTTP b)"; simp add: SecuritySummary_def optional_note GetMITM_def)+
qed

text \<open>C16 (safety). A validated file that the trust gate lets pass without a question has every path it names inside its own directory, names no
  custom template, keeps interception on with no exception, opens no private target and no further port, binds no secret and
  sets no DNS server.\<close>

theorem silent_boxfile_confined:
  assumes "Boxfile_Validate F E R fs d b0 = Inr b" and "SecuritySummary b = []" and "IsAbs d" and "go_maps b"
  shows "(\<forall>p \<in> set (b_Provision b) \<union> set (bm_Policies (b_Monitor b)). inside d p)
    \<and> (b_Overlay b \<noteq> [] \<longrightarrow> inside d (b_Overlay b))
    \<and> (\<forall>(backend, os) \<in> set (b_Overrides b). \<forall>(key, p) \<in> set os. p \<noteq> [] \<longrightarrow> key \<noteq> overrideKeyTemplate \<and> inside d p)
    \<and> GetMITM b \<and> bh_AllowPrivateTargets (b_HTTP b) = [] \<and> bh_AllowedPorts (b_HTTP b) = [] \<and> bh_SecretInjections (b_HTTP b) = []
    \<and> bh_MITMExceptions (b_HTTP b) = [] \<and> bd_Upstream (b_DNS b) = []"
  by (intro conjI silent_facts [OF assms])

section \<open>What an approval covers\<close>

lemma hex_digit_inj: "a < 16 \<Longrightarrow> b < 16 \<Longrightarrow> hex_digit a = hex_digit b \<Longrightarrow> a = b"
  by (metis hex_val_digit option.inject)

lemma hex_bytes_inj: "hex_bytes xs = hex_bytes ys \<Longrightarrow> xs = ys"
proof (induction xs arbitrary: ys)
  case (Cons x xs)
  then obtain y ys' where ys: "ys = y # ys'" by (cases ys) (auto simp: hex_bytes_def)
  have lt: "unat z div 16 < 16" for z :: u8 using unsigned_less [of z, where 'a = nat] by simp
  have "hex_digit (unat x div 16) = hex_digit (unat y div 16)" "hex_digit (unat x mod 16) = hex_digit (unat y mod 16)"
    and r: "hex_bytes xs = hex_bytes ys'" using Cons.prems by (simp_all add: ys hex_bytes_def)
  then have "unat x div 16 = unat y div 16" "unat x mod 16 = unat y mod 16" using hex_digit_inj lt by simp_all
  then have "unat x = unat y" by (metis div_mult_mod_eq)
  then show ?case using Cons.IH [OF r] ys by (simp add: word_unat_eq_iff)
qed (auto simp: hex_bytes_def split: list.splits elim: list.set_cases)

lemma until_NUL: "NUL \<notin> set a \<Longrightarrow> NUL \<notin> set b \<Longrightarrow> a @ NUL # x = b @ NUL # y \<Longrightarrow> a = b \<and> x = y"
proof -
  assume e: "a @ NUL # x = b @ NUL # y" and n: "NUL \<notin> set a" "NUL \<notin> set b"
  have h: "takeWhile (\<lambda>c. c \<noteq> NUL) (w @ NUL # z) = w" if "NUL \<notin> set w" for w z :: string
    using that by (induction w) auto
  have "a = b" using h [OF n(1), of x] h [OF n(2), of y] unfolding e by simp
  then show ?thesis using e by simp
qed

text \<open>For the same references, the texts between the separators can be read back when none of them holds a NUL byte.\<close>

lemma chunks_determined:
  "\<forall>r \<in> set refs. NUL \<notin> set (f r) \<and> NUL \<notin> set (g r) \<Longrightarrow>
   concat (map (\<lambda>r. [NUL] @ r @ [NUL] @ f r) refs) = concat (map (\<lambda>r. [NUL] @ r @ [NUL] @ g r) refs) \<Longrightarrow>
   \<forall>r \<in> set refs. f r = g r"
proof (induction refs)
  case (Cons r refs)
  let ?c = "\<lambda>h rs. concat (map (\<lambda>r. [NUL] @ r @ [NUL] @ h r) rs)"
  have n: "NUL \<notin> set (f r)" "NUL \<notin> set (g r)" using Cons.prems(1) by simp_all
  have e: "f r @ ?c f refs = g r @ ?c g refs" using Cons.prems(2) by simp
  have "f r = g r \<and> ?c f refs = ?c g refs"
  proof (cases refs)
    case (Cons r' rs)
    let ?t = "\<lambda>h. r' @ NUL # h r' @ ?c h rs"
    have "f r @ NUL # ?t f = g r @ NUL # ?t g" using e by (simp add: Cons)
    moreover have "NUL \<notin> set (f r)" "NUL \<notin> set (g r)" using n by simp_all
    ultimately have "f r = g r \<and> ?t f = ?t g" by (intro until_NUL)
    then show ?thesis by (simp add: Cons)
  qed (use e in simp)
  moreover from this have "\<forall>r \<in> set refs. f r = g r" using Cons.prems(1) by (intro Cons.IH) simp_all
  ultimately show ?case by simp
qed simp

lemma hashed_determines:
  assumes "hashed T fs (dec raw) raw d = hashed T fs2 (dec raw2) raw2 d" "NUL \<notin> set raw" "NUL \<notin> set raw2"
    and "\<forall>r \<in> set (trust_refs (dec raw)). NUL \<notin> set (ref_bytes T fs (dec raw) d r) \<and> NUL \<notin> set (ref_bytes T fs2 (dec raw) d r)"
  shows "raw2 = raw" "\<forall>r \<in> set (trust_refs (dec raw)). ref_bytes T fs2 (dec raw) d r = ref_bytes T fs (dec raw) d r"
proof -
  have head: "takeWhile (\<lambda>c. c \<noteq> NUL) (hashed T s b w d) = w" if "NUL \<notin> set w" for s b w
  proof -
    have "takeWhile (\<lambda>c. c \<noteq> NUL) (w @ z) = w" if "z = [] \<or> hd z = NUL" for z
      using that \<open>NUL \<notin> set w\<close> by (induction w; cases z) auto
    then show ?thesis unfolding hashed_def by (cases "trust_refs b") (use that in auto)
  qed
  show raw: "raw2 = raw" using head [OF assms(2)] head [OF assms(3)] assms(1) by metis
  have "\<forall>r \<in> set (trust_refs (dec raw)). ref_bytes T fs (dec raw) d r = ref_bytes T fs2 (dec raw) d r"
    using assms(1) by (intro chunks_determined [OF assms(4)]) (simp add: hashed_def raw)
  then show "\<forall>r \<in> set (trust_refs (dec raw)). ref_bytes T fs2 (dec raw) d r = ref_bytes T fs (dec raw) d r" by simp
qed

lemma TrustBoxfile_passed:
  assumes "TrustBoxfile T fs io b raw d token = (fs', None)" and "SecuritySummary b \<noteq> []"
  shows "IsTrusted T fs d (TrustFingerprint T fs b raw d) = Inr True \<and> fs' = fs \<or> MarkTrusted T fs d (TrustFingerprint T fs b raw d) = (fs', None)"
proof (cases "IsTrusted T fs d (TrustFingerprint T fs b raw d)")
  case (Inr t)
  then show ?thesis using assms by (cases t) (auto simp: TrustBoxfile_def Let_def split: if_splits)
qed (use assms in \<open>simp add: TrustBoxfile_def\<close>)

text \<open>What the gate relies on of the libraries: a written file reads back, and a cache that was written decodes to the same map.\<close>

locale json_map =
  fixes J :: json_ops
  assumes unmarshal_marshal: "js_Marshal J m = Some x \<Longrightarrow> \<exists>m'. js_Unmarshal J x = Some m' \<and> map_of m' = map_of m"

locale trust_store = file_store "tr_F T" + json_map "tr_J T" for T :: "'fs trust_env"
begin

lemma marked:
  assumes "MarkTrusted T fs d fp = (fs', None)" "trustCachePath T s = trustCachePath T fs"
    and "\<And>path. trustCachePath T fs = Inr path \<Longrightarrow> ReadFile (tr_F T) s path = ReadFile (tr_F T) fs' path"
    and "IsTrusted T s d f = Inr True" and "f \<noteq> []"
  shows "f = fp"
proof -
  obtain path tc where p: "trustCachePath T fs = Inr path" "loadTrustCache T fs = Inr tc"
    using assms(1) by (auto simp: MarkTrusted_def split: sum.splits)
  obtain x where x: "js_Marshal (tr_J T) (AList.update d fp tc) = Some x"
    using assms(1) p by (cases "js_Marshal (tr_J T) (AList.update d fp tc)") (simp_all add: MarkTrusted_def)
  obtain fs1 where w: "WriteFile (tr_F T) fs1 path x 384 = (fs', None)"
    using assms(1) p x by (auto simp: MarkTrusted_def split: option.splits prod.splits)
  obtain m' where m: "js_Unmarshal (tr_J T) x = Some m'" "map_of m' = map_of (AList.update d fp tc)"
    using unmarshal_marshal [OF x] by blast
  have "ReadFile (tr_F T) s path = ReadFile (tr_F T) fs' path" "trustCachePath T s = Inr path" using assms(2,3) p(1) by simp_all
  then show ?thesis
    using assms(4,5) read_written [OF w] m by (auto simp: IsTrusted_def loadTrustCache_def update_conv' split: sum.splits if_splits)
qed

lemma approved:
  assumes "TrustBoxfile T fs io b raw d token = (fs', None)" "SecuritySummary b \<noteq> []" "trustCachePath T s = trustCachePath T fs"
    and "\<And>path. trustCachePath T fs = Inr path \<Longrightarrow> ReadFile (tr_F T) s path = ReadFile (tr_F T) fs' path"
    and "IsTrusted T s d f = Inr True" and "f \<noteq> []"
  shows "f = TrustFingerprint T fs b raw d"
proof -
  let ?fp = "TrustFingerprint T fs b raw d"
  from TrustBoxfile_passed [OF assms(1,2)] consider "IsTrusted T fs d ?fp = Inr True" "fs' = fs" | "MarkTrusted T fs d ?fp = (fs', None)" by blast
  then show ?thesis
  proof cases
    case 1
    have "ReadFile (tr_F T) s p = ReadFile (tr_F T) fs p" if "trustCachePath T fs = Inr p" for p using assms(4) [OF that] 1(2) by simp
    then have "loadTrustCache T s = loadTrustCache T fs"
      by (cases "trustCachePath T fs") (simp_all add: loadTrustCache_def assms(3))
    then show ?thesis using 1(1) assms(5) by (cases "loadTrustCache T fs") (simp_all add: IsTrusted_def)
  next
    case 2
    then show ?thesis by (rule marked [OF _ assms(3) _ assms(5,6)]) (rule assms(4))
  qed
qed

end

text \<open>C17 (safety). A security-relevant file has passed the gate. While the trust cache is as that run left it, a later
  security-relevant file of the same directory passes without a terminal and without a token only when it has the same bytes of
  \<open>abox.yaml\<close> and its templates and policies have the same contents. The conditions: SHA-256 does not collide on the two
  inputs and never returns the empty text, and none of these texts holds a NUL byte (\<open>fingerprint_ambiguous\<close> shows that
  with NUL bytes text can move from one policy to the next). A later file that is not security-relevant passes with any
  bytes: the gate does not ask, and \<open>silent_boxfile_confined\<close> says what such a file can do.\<close>

theorem trust_binds_contents:
  assumes "trust_store T" and "TrustBoxfile T fs io (dec raw) raw d token = (fs', None)" and "SecuritySummary (dec raw) \<noteq> []"
    and "trustCachePath T fs2 = trustCachePath T fs"
    and "\<And>path. trustCachePath T fs = Inr path \<Longrightarrow> ReadFile (tr_F T) fs2 path = ReadFile (tr_F T) fs' path"
    and "TrustBoxfile T fs2 io2 (dec raw2) raw2 d [] = (fs3, None)" and "SecuritySummary (dec raw2) \<noteq> []" and "\<not> ti_terminal io2"
    and "tr_sum256 T (hashed T fs (dec raw) raw d) = tr_sum256 T (hashed T fs2 (dec raw2) raw2 d) \<Longrightarrow>
      hashed T fs (dec raw) raw d = hashed T fs2 (dec raw2) raw2 d"
    and "tr_sum256 T (hashed T fs2 (dec raw2) raw2 d) \<noteq> []"
    and "NUL \<notin> set raw" and "NUL \<notin> set raw2"
    and "\<forall>r \<in> set (trust_refs (dec raw)). NUL \<notin> set (ref_bytes T fs (dec raw) d r) \<and> NUL \<notin> set (ref_bytes T fs2 (dec raw) d r)"
  shows "raw2 = raw \<and> (\<forall>r \<in> set (trust_refs (dec raw)). ref_bytes T fs2 (dec raw) d r = ref_bytes T fs (dec raw) d r)"
proof -
  let ?f = "TrustFingerprint T fs2 (dec raw2) raw2 d"
  have "IsTrusted T fs2 d ?f = Inr True"
    using assms(6-8) by (auto simp: TrustBoxfile_def Let_def split: sum.splits if_splits)
  moreover have "?f \<noteq> []" using assms(10) by (cases "tr_sum256 T (hashed T fs2 (dec raw2) raw2 d)") (simp_all add: TrustFingerprint_def hex_bytes_def)
  ultimately have "?f = TrustFingerprint T fs (dec raw) raw d"
    using trust_store.approved [OF assms(1-3)] assms(4,5) by blast
  then have "hashed T fs (dec raw) raw d = hashed T fs2 (dec raw2) raw2 d"
    using hex_bytes_inj assms(9) unfolding TrustFingerprint_def by metis
  from hashed_determines [OF this assms(11-13)] show ?thesis by blast
qed

section \<open>Witnesses\<close>

text \<open>A codec for string maps: every byte is marked, every string ends with a zero.\<close>

definition ref_encode :: "string \<Rightarrow> string" where
  "ref_encode s = concat (map (\<lambda>c. [CHR ''1'', c]) s) @ ''0''"

fun ref_decode :: "string \<Rightarrow> string \<Rightarrow> string list" where
  "ref_decode acc (c # x # r) = (if c = CHR ''0'' then rev acc # ref_decode [] (x # r) else ref_decode (x # acc) r)"
| "ref_decode acc [c] = (if c = CHR ''0'' then [rev acc] else [])"
| "ref_decode acc [] = []"

fun pair_up :: "'a list \<Rightarrow> ('a \<times> 'a) list" where
  "pair_up (k # v # r) = (k, v) # pair_up r"
| "pair_up _ = []"

definition ref_json :: json_ops where
  "ref_json = \<lparr>js_Marshal = (\<lambda>m. Some (concat (map (\<lambda>(k, v). ref_encode k @ ref_encode v) m))), js_Unmarshal = (\<lambda>x. Some (pair_up (ref_decode [] x)))\<rparr>"

lemma ref_decode_encode: "ref_decode acc (ref_encode s @ r) = (rev acc @ s) # ref_decode [] r"
proof (induction s arbitrary: acc)
  case Nil
  show ?case by (cases r) (simp_all add: ref_encode_def)
next
  case (Cons c s)
  then show ?case by (simp add: ref_encode_def)
qed

interpretation ref_json: json_map ref_json
proof
  fix m x assume "js_Marshal ref_json m = Some x"
  then have x: "x = concat (map (\<lambda>(k, v). ref_encode k @ ref_encode v) m)" by (simp add: ref_json_def)
  have "pair_up (ref_decode [] x) = m" unfolding x by (induction m) (auto simp: ref_decode_encode)
  then show "\<exists>m'. js_Unmarshal ref_json x = Some m' \<and> map_of m' = map_of m" by (simp add: ref_json_def)
qed

definition demo_trust :: "MockFileSystem trust_env" where
  "demo_trust = \<lparr>tr_F = mock_fs, tr_P = demo_proc, tr_J = ref_json, tr_sum256 = map (\<lambda>c. word_of_nat (code c)), tr_errText = (\<lambda>_. ''error'')\<rparr>"

interpretation demo_trust: trust_store demo_trust
  by (simp add: demo_trust_def trust_store_def mock.file_store_axioms ref_json.json_map_axioms)

definition demo_box :: Boxfile where
  "demo_box = DefaultBoxfile\<lparr>b_HTTP := (b_HTTP DefaultBoxfile)\<lparr>bh_MITM := Some False\<rparr>, b_Monitor := (b_Monitor DefaultBoxfile)\<lparr>bm_Policies := [''p.yaml'']\<rparr>\<rparr>"

definition repo_fs :: MockFileSystem where
  "repo_fs = demo_fs\<lparr>Files := (Files demo_fs)(''/repo/p.yaml'' \<mapsto> ''kind: x'')\<rparr>"

definition ask :: trust_io where "ask = \<lparr>ti_terminal = True, ti_prompter = Some True\<rparr>"
definition silent :: trust_io where "silent = \<lparr>ti_terminal = False, ti_prompter = None\<rparr>"

abbreviation first_run :: "MockFileSystem \<times> trust_error option" where
  "first_run \<equiv> TrustBoxfile demo_trust repo_fs ask demo_box ''version: 1'' ''/repo'' []"

text \<open>The later state differs in a file that the approval does not cover.\<close>

definition later_fs :: MockFileSystem where
  "later_fs = (fst first_run)\<lparr>Files := (Files (fst first_run))(''/repo/other'' \<mapsto> ''x'')\<rparr>"

abbreviation cache_path :: string where
  "cache_path \<equiv> ''/data/abox/trusted-boxfiles.json''"

lemma demo_cache_path:
  assumes "EnvVars fs = EnvVars demo_fs"
  shows "trustCachePath demo_trust fs = Inr cache_path"
proof -
  have "getBaseDir mock_fs fs = getBaseDir mock_fs demo_fs" using assms by (simp add: getBaseDir_def mock_defs demo_fs_def)
  then show ?thesis
    by (simp add: trustCachePath_def demo_trust_def GetPaths_def GetPathsWithStorage_def demo_home path_eval Let_def build_paths_def)
qed

definition demo_print :: string where
  "demo_print = TrustFingerprint demo_trust repo_fs demo_box ''version: 1'' ''/repo''"

lemma demo_refs: "trust_refs demo_box = [''policy:0'']" "SecuritySummary demo_box \<noteq> []"
  by (simp_all add: trust_refs_def demo_box_def DefaultBoxfile_def sortedKeys_def SecuritySummary_def Itoa.simps [of 0] go_eval)

lemma demo_bytes:
  assumes "Files fs ''/repo/p.yaml'' = Some ''kind: x''" "ReadFileErr fs = None"
  shows "ref_bytes demo_trust fs demo_box ''/repo'' ''policy:0'' = ''kind: x''"
proof -
  have "policyIndex ''policy:0'' = 0" by (simp add: policyIndex_def TrimPrefix_def Atoi_def parse_digits_def dec_val_def digit_val_def go_eval)
  moreover have "ResolvePolicyPaths demo_box ''/repo'' = Inr [''/repo/p.yaml'']"
    by (simp add: ResolvePolicyPaths_def demo_box_def resolvePath_def path_eval Let_def)
  ultimately show ?thesis using assms by (simp add: ref_bytes_def ref_content_def demo_trust_def mock_defs)
qed

lemma demo_hashed:
  assumes "Files fs ''/repo/p.yaml'' = Some ''kind: x''" "ReadFileErr fs = None"
  shows "hashed demo_trust fs demo_box ''version: 1'' ''/repo'' = ''version: 1'' @ NUL # ''policy:0'' @ NUL # ''kind: x''"
  using demo_bytes [OF assms] by (simp add: hashed_def demo_refs)

lemma demo_repo: "Files repo_fs = [''/repo/p.yaml'' \<mapsto> ''kind: x'']" "EnvVars repo_fs = EnvVars demo_fs"
    "ReadFileErr repo_fs = None" "WriteFileErr repo_fs = None" "MkdirAllErr repo_fs = None"
  by (simp_all add: repo_fs_def demo_fs_def NewMockFileSystem_def)

lemma demo_print_not_Nil: "demo_print \<noteq> []"
  by (simp add: demo_print_def TrustFingerprint_def demo_hashed demo_repo) (simp add: demo_trust_def hex_bytes_def)

lemma demo_first:
  "\<exists>D. first_run = (repo_fs\<lparr>Dirs := D, Files := (Files repo_fs)(cache_path \<mapsto> ref_encode ''/repo'' @ ref_encode demo_print)\<rparr>, None)"
proof -
  have l: "loadTrustCache demo_trust repo_fs = Inr []"
    using demo_repo by (simp add: loadTrustCache_def demo_cache_path) (simp add: demo_trust_def mock_defs demo_repo)
  then have "first_run = MarkTrusted demo_trust repo_fs ''/repo'' demo_print"
    using demo_print_not_Nil demo_refs(2) by (simp add: TrustBoxfile_def demo_print_def [symmetric] IsTrusted_def ask_def Let_def)
  also have "\<dots> = (repo_fs\<lparr>Dirs := (Dirs repo_fs)(filepath_Dir cache_path := True),
      Files := (Files repo_fs)(cache_path \<mapsto> ref_encode ''/repo'' @ ref_encode demo_print)\<rparr>, None)"
    using l by (simp add: MarkTrusted_def demo_cache_path demo_repo) (simp add: demo_trust_def mock_defs ref_json_def demo_repo)
  finally show ?thesis by blast
qed

lemma demo_later:
  "Files later_fs ''/repo/p.yaml'' = Some ''kind: x''" "Files later_fs cache_path = Some (ref_encode ''/repo'' @ ref_encode demo_print)"
  "EnvVars later_fs = EnvVars demo_fs" "ReadFileErr later_fs = None"
  using demo_first by (auto simp: later_fs_def demo_repo)

lemma demo_second: "TrustBoxfile demo_trust later_fs silent demo_box ''version: 1'' ''/repo'' [] = (later_fs, None)"
proof -
  have p: "TrustFingerprint demo_trust later_fs demo_box ''version: 1'' ''/repo'' = demo_print"
    by (simp add: demo_print_def TrustFingerprint_def demo_hashed demo_later demo_repo)
  have "loadTrustCache demo_trust later_fs = Inr [(''/repo'', demo_print)]"
    by (simp add: loadTrustCache_def demo_cache_path demo_later)
      (simp add: demo_trust_def mock_defs demo_later ref_json_def ref_decode_encode ref_decode_encode [of "[]" _ "[]", simplified])
  then show ?thesis using demo_refs(2) by (simp add: TrustBoxfile_def p IsTrusted_def Let_def)
qed

theorem trust_binds_contents_witness:
  "TrustBoxfile demo_trust later_fs silent demo_box ''version: 1'' ''/repo'' [] = (later_fs, None)
   \<and> ref_bytes demo_trust later_fs demo_box ''/repo'' ''policy:0'' = ref_bytes demo_trust repo_fs demo_box ''/repo'' ''policy:0''"
proof -
  obtain D where f: "first_run = (repo_fs\<lparr>Dirs := D, Files := (Files repo_fs)(cache_path \<mapsto> ref_encode ''/repo'' @ ref_encode demo_print)\<rparr>, None)"
    using demo_first by blast
  have r: "ReadFile (tr_F demo_trust) later_fs path = ReadFile (tr_F demo_trust) (fst first_run) path" if "trustCachePath demo_trust repo_fs = Inr path" for path
    using that demo_cache_path [OF demo_repo(2)] demo_later f by (simp add: demo_trust_def mock_defs demo_repo)
  have b: "ref_bytes demo_trust later_fs demo_box ''/repo'' ''policy:0'' = ''kind: x''" "ref_bytes demo_trust repo_fs demo_box ''/repo'' ''policy:0'' = ''kind: x''"
    by (simp_all add: demo_bytes demo_later demo_repo)
  have "\<forall>x \<in> set (trust_refs demo_box). ref_bytes demo_trust later_fs demo_box ''/repo'' x = ref_bytes demo_trust repo_fs demo_box ''/repo'' x"
    using trust_binds_contents [of demo_trust repo_fs ask "\<lambda>_. demo_box" "''version: 1''" "''/repo''" "[]" "fst first_run" later_fs silent "''version: 1''" later_fs]
    by (simp add: demo_trust.trust_store_axioms f demo_refs demo_cache_path demo_repo demo_later demo_second b demo_hashed silent_def NUL_def go_eval r)
  then show ?thesis using demo_second by (simp add: demo_refs)
qed

definition demo_decl :: Boxfile where
  "demo_decl = DefaultBoxfile\<lparr>b_Name := ''dev'', b_Provision := [''setup.sh''], b_Overrides := [(''libvirt'', [(''network'', ''net.xml'')])]\<rparr>"

definition decl_fs :: MockFileSystem where
  "decl_fs = demo_fs\<lparr>Files := [''/repo/setup.sh'' \<mapsto> ''true'', ''/repo/net.xml'' \<mapsto> ''x'']\<rparr>"

lemma demo_decl_valid: "Boxfile_Validate mock_fs E R decl_fs ''/repo'' demo_decl = Inr demo_decl"
proof -
  have r: "resolvePath ''/repo'' ''setup.sh'' = Inr ''/repo/setup.sh''" "resolvePath ''/repo'' ''net.xml'' = Inr ''/repo/net.xml''"
    by (simp_all add: resolvePath_def path_eval Let_def)
  have c: "check_file mock_fs decl_fs ''/repo'' ''setup.sh'' = None" "check_file mock_fs decl_fs ''/repo'' ''net.xml'' = None"
    by (simp_all add: check_file_def r mock_defs decl_fs_def demo_fs_def)
  have v: "ValidateInstanceName ''dev'' = None" "ValidateSSHUser ''ubuntu'' = None"
    by (simp_all add: ValidateInstanceName_iff ValidateSSHUser_iff name_char_def go_eval)
  have "validateNameAndUser demo_decl = None" by (simp add: validateNameAndUser_def demo_decl_def DefaultBoxfile_def v)
  moreover have "validateResources demo_decl = None"
    by (simp add: validateResources_def demo_decl_def DefaultBoxfile_def DefaultDisk_def ValidateResourceLimits_def MinCPUs_def MaxCPUs_def MinMemory_def MaxMemory_def
        ValidateDiskSize_def Atoi_def parse_digits_def dec_val_def digit_val_def Let_def go_eval)
  ultimately show ?thesis
    unfolding Validate_iff using c
    by (simp add: validateProvisionScripts_def validateOverlay_def validateMonitor_def validateOverrides_def validateDNS_def
        demo_decl_def DefaultBoxfile_def DefaultUpstream_def NewTargetChecker_def ValidateSecretInjections_def ValidateMITMExceptions_def)
qed

theorem silent_boxfile_confined_witness:
  "SecuritySummary demo_decl = [] \<and> inside ''/repo'' ''setup.sh'' \<and> inside ''/repo'' ''net.xml''"
proof -
  have q: "SecuritySummary demo_decl = []"
    by (simp add: SecuritySummary_def summarizeOverrides_def summarizeAbsolutePaths_def override_note_def override_value_def sortedKeys_def demo_decl_def
        DefaultBoxfile_def DefaultUpstream_def overrideKeyTemplate_def IsAbs_def)
  have "IsAbs ''/repo''" "go_maps demo_decl" by (simp_all add: IsAbs_def go_maps_def demo_decl_def)
  from silent_boxfile_confined [OF demo_decl_valid q this] q show ?thesis by (simp add: demo_decl_def)
qed

text \<open>Without the restriction on NUL bytes the fingerprint is ambiguous: text can be moved from one policy file to the next.\<close>

lemma fingerprint_ambiguous:
  fixes x y z :: string
  defines "sep \<equiv> NUL # ''policy:1'' @ [NUL]"
  defines "fs1 \<equiv> demo_fs\<lparr>Files := [''/repo/p'' \<mapsto> x @ sep @ y, ''/repo/q'' \<mapsto> z]\<rparr>"
  defines "fs2 \<equiv> demo_fs\<lparr>Files := [''/repo/p'' \<mapsto> x, ''/repo/q'' \<mapsto> y @ sep @ z]\<rparr>"
  defines "b \<equiv> DefaultBoxfile\<lparr>b_Monitor := (b_Monitor DefaultBoxfile)\<lparr>bm_Policies := [''p'', ''q'']\<rparr>\<rparr>"
  shows "TrustFingerprint demo_trust fs1 b raw ''/repo'' = TrustFingerprint demo_trust fs2 b raw ''/repo''"
proof -
  have i: "Itoa 0 = ''0''" "Itoa (Suc 0) = ''1''" by (simp_all add: Itoa.simps [of 0] Itoa.simps [of "Suc 0"] go_eval)
  have refs: "trust_refs b = [''policy:0'', ''policy:1'']"
    by (simp add: trust_refs_def b_def DefaultBoxfile_def sortedKeys_def i numeral_2_eq_2)
  have n: "policyIndex ''policy:0'' = 0" "policyIndex ''policy:1'' = 1"
    by (simp_all add: policyIndex_def TrimPrefix_def Atoi_def parse_digits_def dec_val_def digit_val_def go_eval)
  have "ResolvePolicyPaths b ''/repo'' = Inr [''/repo/p'', ''/repo/q'']"
    by (simp add: ResolvePolicyPaths_def b_def resolvePath_def path_eval Let_def)
  then have "hashed demo_trust fs1 b raw ''/repo'' = hashed demo_trust fs2 b raw ''/repo''"
    by (simp add: hashed_def refs ref_bytes_def ref_content_def n) (simp add: demo_trust_def mock_defs fs1_def fs2_def demo_fs_def sep_def)
  then show ?thesis by (simp add: TrustFingerprint_def)
qed

end
