(* ===== verification/Create.thy ===== *)
theory Create
  imports Boxfile_Trust Config_Resources
begin

text \<open>
  Creating an instance from \<open>abox.yaml\<close>: the mapping of the declaration to options and to the saved configuration
  (\<open>pkg/cmd/create/create.go\<close>, with \<open>ResolveNetwork\<close> of \<open>backend/backend.go\<close>), and the comparison of a declaration with the configuration of
  an existing instance (\<open>boxfile/drift.go\<close>). The two agree: a fresh instance shows no drift, and its configuration is one that loads.
\<close>

section \<open>Drift\<close>

record FieldDiff =
  fd_Field :: string
  fd_Declared :: string
  fd_Current :: string
  fd_HowToApply :: string

definition mkDiff :: "string \<Rightarrow> string \<Rightarrow> string \<Rightarrow> string \<Rightarrow> FieldDiff" where
  "mkDiff f d c how = \<lparr>fd_Field = f, fd_Declared = d, fd_Current = c, fd_HowToApply = how\<rparr>"

definition applyViaConfigEdit :: string where
  "applyViaConfigEdit = ''apply with '' @ [CHR 0x60] @ ''abox config edit'' @ [CHR 0x60] @ '' + '' @ [CHR 0x60] @ ''abox restart'' @ [CHR 0x60]"

definition applyViaRecreate :: string where
  "applyViaRecreate = ''apply by recreating the instance ('' @ [CHR 0x60] @ ''abox down --remove'' @ [CHR 0x60] @ '' then '' @ [CHR 0x60] @ ''abox up'' @ [CHR 0x60] @ '')''"

definition FormatBool :: "bool \<Rightarrow> string" where
  "FormatBool b = (if b then ''true'' else ''false'')"

definition sliceStr :: "string list \<Rightarrow> string" where
  "sliceStr s = (if s = [] then ''(none)'' else ''['' @ Join s '' '' @ '']'')"

definition intSliceStr :: "int list \<Rightarrow> string" where
  "intSliceStr s = (if s = [] then ''(default)'' else ''['' @ Join (map Itoa_int s) '' '' @ '']'')"

definition injectionsStr :: "SecretInjection list \<Rightarrow> string" where
  "injectionsStr s = Itoa (length s) @ '' binding(s)''"

definition plural :: "nat \<Rightarrow> string" where
  "plural n = Itoa n @ '' file(s)''"

definition effectiveMaxConns :: "int \<Rightarrow> int" where
  "effectiveMaxConns v = (if v = 0 then DefaultHTTPMaxConnections else v)"

definition diff_if :: "bool \<Rightarrow> string \<Rightarrow> string \<Rightarrow> string \<Rightarrow> string \<Rightarrow> FieldDiff list" where
  "diff_if c f d i how = (if c then [mkDiff f d i how] else [])"

definition resourceDrift :: "Boxfile \<Rightarrow> Instance \<Rightarrow> FieldDiff list" where
  "resourceDrift b i =
     diff_if (b_CPUs b \<noteq> 0 \<and> b_CPUs b \<noteq> i_CPUs i) ''cpus'' (Itoa_int (b_CPUs b)) (Itoa_int (i_CPUs i)) applyViaConfigEdit
     @ diff_if (b_Memory b \<noteq> 0 \<and> b_Memory b \<noteq> i_Memory i) ''memory'' (Itoa_int (b_Memory b)) (Itoa_int (i_Memory i)) applyViaConfigEdit
     @ diff_if (b_Disk b \<noteq> [] \<and> b_Disk b \<noteq> i_Disk i) ''disk'' (b_Disk b) (i_Disk i) applyViaConfigEdit
     @ diff_if (bd_Upstream (b_DNS b) \<noteq> [] \<and> bd_Upstream (b_DNS b) \<noteq> dc_Upstream (i_DNS i)) ''dns.upstream''
         (bd_Upstream (b_DNS b)) (dc_Upstream (i_DNS i)) applyViaConfigEdit
     @ diff_if (b_Base b \<noteq> [] \<and> b_Base b \<noteq> i_Base i) ''base'' (b_Base b) (i_Base i) applyViaRecreate
     @ diff_if (b_Subnet b \<noteq> [] \<and> b_Subnet b \<noteq> i_Subnet i) ''subnet'' (b_Subnet b) (i_Subnet i) applyViaRecreate"

definition httpDrift :: "Boxfile \<Rightarrow> Instance \<Rightarrow> FieldDiff list" where
  "httpDrift b i =
     (let h = b_HTTP b; c = i_HTTP i in
      diff_if (GetMITM b \<noteq> hc_MITM c) ''http.mitm'' (FormatBool (GetMITM b)) (FormatBool (hc_MITM c)) applyViaRecreate
      @ diff_if (bh_AllowPrivateTargets h \<noteq> hc_AllowPrivateTargets c) ''http.allow_private_targets''
          (sliceStr (bh_AllowPrivateTargets h)) (sliceStr (hc_AllowPrivateTargets c)) applyViaRecreate
      @ diff_if (bh_AllowedPorts h \<noteq> hc_AllowedPorts c) ''http.allowed_ports''
          (intSliceStr (bh_AllowedPorts h)) (intSliceStr (hc_AllowedPorts c)) applyViaRecreate
      @ diff_if (GetMaxConnections b \<noteq> effectiveMaxConns (hc_MaxConnections c)) ''http.max_connections''
          (Itoa_int (GetMaxConnections b)) (Itoa_int (effectiveMaxConns (hc_MaxConnections c))) applyViaRecreate
      @ diff_if (bh_SecretInjections h \<noteq> hc_SecretInjections c) ''http.secret_injections''
          (injectionsStr (bh_SecretInjections h)) (injectionsStr (hc_SecretInjections c)) applyViaRecreate
      @ diff_if (bh_MITMExceptions h \<noteq> hc_MITMExceptions c) ''http.mitm_exceptions''
          (sliceStr (bh_MITMExceptions h)) (sliceStr (hc_MITMExceptions c)) applyViaRecreate)"

definition monitorDrift :: "Boxfile \<Rightarrow> Instance \<Rightarrow> FieldDiff list" where
  "monitorDrift b i =
     (let m = b_Monitor b; c = i_Monitor i in
      diff_if (bm_Enabled m \<noteq> mon_Enabled c) ''monitor.enabled'' (FormatBool (bm_Enabled m)) (FormatBool (mon_Enabled c)) applyViaRecreate
      @ diff_if (bm_Version m \<noteq> [] \<and> bm_Version m \<noteq> mon_Version c) ''monitor.version'' (bm_Version m) (mon_Version c) applyViaRecreate
      @ diff_if (GetKprobeMulti b \<noteq> mon_KprobeMulti c) ''monitor.kprobe_multi''
          (FormatBool (GetKprobeMulti b)) (FormatBool (mon_KprobeMulti c)) applyViaRecreate
      @ diff_if (slice (bm_Kprobes m) \<noteq> slice (mon_Kprobes c)) ''monitor.kprobes'' (sliceStr (slice (bm_Kprobes m))) (sliceStr (slice (mon_Kprobes c))) applyViaRecreate
      @ diff_if (length (bm_Policies m) \<noteq> length (mon_Policies c)) ''monitor.policies''
          (plural (length (bm_Policies m))) (plural (length (mon_Policies c))) applyViaRecreate)"

definition Drift :: "Boxfile \<Rightarrow> Instance \<Rightarrow> FieldDiff list" where
  "Drift b i = resourceDrift b i @ httpDrift b i @ monitorDrift b i"

lemma diff_if_Nil [simp]: "diff_if c f d i how = [] \<longleftrightarrow> \<not> c"
  by (simp add: diff_if_def)

section \<open>Options\<close>

record Options =
  o_CPUs :: int
  o_Memory :: int
  o_Base :: string
  o_Upstream :: string
  o_Disk :: string
  o_Subnet :: string
  o_User :: string
  o_DryRun :: bool
  o_Allowlist :: "string list option"
  o_MonitorEnabled :: bool
  o_MonitorVersion :: string
  o_MonitorKprobeMulti :: bool
  o_MonitorKprobes :: "string list option"
  o_MonitorPolicies :: "string list"
  o_MITM :: bool
  o_MaxConnections :: int
  o_AllowPrivateTargets :: "string list"
  o_AllowedPorts :: "int list"
  o_SecretInjections :: "SecretInjection list"
  o_MITMExceptions :: "string list"
  o_TemplateContent :: string
  o_BackendName :: string

text \<open>The zero value of the options, which \<open>RunFromBoxfile\<close> starts from.\<close>

definition zero_options :: Options where
  "zero_options =
    \<lparr>o_CPUs = 0, o_Memory = 0, o_Base = [], o_Upstream = [], o_Disk = [], o_Subnet = [], o_User = [], o_DryRun = False, o_Allowlist = None,
     o_MonitorEnabled = False, o_MonitorVersion = [], o_MonitorKprobeMulti = False, o_MonitorKprobes = None, o_MonitorPolicies = [],
     o_MITM = False, o_MaxConnections = 0, o_AllowPrivateTargets = [], o_AllowedPorts = [], o_SecretInjections = [], o_MITMExceptions = [],
     o_TemplateContent = [], o_BackendName = []\<rparr>"

definition applyBoxfile :: "Options \<Rightarrow> Boxfile \<Rightarrow> string \<Rightarrow> box_error + Options" where
  "applyBoxfile opts b boxDir =
     (case (if bm_Policies (b_Monitor b) \<noteq> [] then ResolvePolicyPaths b boxDir else Inr (o_MonitorPolicies opts)) of
        Inl e \<Rightarrow> Inl e
      | Inr policies \<Rightarrow>
          Inr (opts\<lparr>o_BackendName := b_Backend b, o_CPUs := b_CPUs b, o_Memory := b_Memory b, o_Base := b_Base b, o_Upstream := bd_Upstream (b_DNS b),
            o_Disk := b_Disk b, o_Subnet := b_Subnet b, o_User := b_User b, o_Allowlist := b_Allowlist b, o_MonitorEnabled := bm_Enabled (b_Monitor b),
            o_MonitorVersion := bm_Version (b_Monitor b), o_MonitorKprobeMulti := GetKprobeMulti b, o_MonitorKprobes := bm_Kprobes (b_Monitor b),
            o_MonitorPolicies := policies, o_MITM := GetMITM b, o_MaxConnections := GetMaxConnections b,
            o_AllowPrivateTargets := bh_AllowPrivateTargets (b_HTTP b), o_AllowedPorts := bh_AllowedPorts (b_HTTP b),
            o_SecretInjections := bh_SecretInjections (b_HTTP b), o_MITMExceptions := bh_MITMExceptions (b_HTTP b)\<rparr>))"

datatype create_error =
    CrBox box_error | CrName val_error | CrUser val_error | CrResources val_error | CrDisk val_error | CrUpstream upstream_error
  | CrNoMonitor | CrArch string | CrPath path_error | CrNoTemplate | CrExists | CrSubnet config_error | CrBackendSubnet config_error | CrSave config_error
  | CrTemplate os_error

definition validateCreateInputs :: "Options \<Rightarrow> string \<Rightarrow> create_error + Options" where
  "validateCreateInputs opts name =
     (case ValidateInstanceName name of Some e \<Rightarrow> Inl (CrName e) | None \<Rightarrow>
      case (if o_User opts \<noteq> [] then ValidateSSHUser (o_User opts) else None) of Some e \<Rightarrow> Inl (CrUser e) | None \<Rightarrow>
      case ValidateResourceLimits (o_CPUs opts) (o_Memory opts) of Some e \<Rightarrow> Inl (CrResources e) | None \<Rightarrow>
      case ValidateDiskSize (o_Disk opts) of Some e \<Rightarrow> Inl (CrDisk e) | None \<Rightarrow>
      if o_Upstream opts \<noteq> [] then
        (case NormalizeUpstreamDNS (o_Upstream opts) of Inl e \<Rightarrow> Inl (CrUpstream e) | Inr u \<Rightarrow> Inr (opts\<lparr>o_Upstream := u\<rparr>))
      else Inr opts)"

section \<open>Backends\<close>

text \<open>What creation takes from a backend: its names, the random MAC address, the subnets it allocates itself when it does, and whether it has a
  monitor transport and custom templates.\<close>

record backend =
  be_Name :: string
  be_StorageDir :: string
  be_Network :: "string \<Rightarrow> string"
  be_MAC :: string
  be_Defaults :: "(config_error + (string \<times> string)) option"
  be_hasMonitor :: bool
  be_hasTemplates :: bool

text \<open>The random MAC addresses of the three backends, by the three random bytes.\<close>

definition mac_bytes :: "u8 \<Rightarrow> u8 \<Rightarrow> u8 \<Rightarrow> string" where
  "mac_bytes a b c = hex_bytes [a] @ '':'' @ hex_bytes [b] @ '':'' @ hex_bytes [c]"

definition virsh_GenerateMAC :: "u8 \<Rightarrow> u8 \<Rightarrow> u8 \<Rightarrow> string" where
  "virsh_GenerateMAC a b c = ''52:54:00:'' @ mac_bytes a b c"

definition vmrun_GenerateMAC :: "u8 \<Rightarrow> u8 \<Rightarrow> u8 \<Rightarrow> string" where
  "vmrun_GenerateMAC a b c = ''00:0c:29:'' @ mac_bytes a b c"

definition vfkit_GenerateMAC :: "u8 \<Rightarrow> u8 \<Rightarrow> u8 \<Rightarrow> string" where
  "vfkit_GenerateMAC a b c = ''02:ab:00:'' @ mac_bytes a b c"

definition ResolveNetwork ::
  "('fs, 't) config_env \<Rightarrow> (string \<Rightarrow> bool) \<Rightarrow> 'fs \<Rightarrow> backend \<Rightarrow> string \<Rightarrow> create_error + (string \<times> string \<times> nat)" where
  "ResolveNetwork C routeProbe fs be requested =
     (if requested \<noteq> [] then
        (case ValidateSubnet C fs requested of Inl e \<Rightarrow> Inl (CrSubnet e) | Inr (gateway, third) \<Rightarrow> Inr (requested, gateway, third))
      else (case be_Defaults be of
        Some (Inl e) \<Rightarrow> Inl (CrSubnet e)
      | Some (Inr (subnet, gateway)) \<Rightarrow>
          (case ValidateSubnet C fs subnet of
             Inl e \<Rightarrow> Inl (CrBackendSubnet e)
           | Inr (derived, third) \<Rightarrow> Inr (subnet, if gateway = [] then derived else gateway, third))
      | None \<Rightarrow> (case AllocateSubnet C routeProbe fs [] of Inl e \<Rightarrow> Inl (CrSubnet e) | Inr r \<Rightarrow> Inr r)))"

definition BackendKeyCustomTemplate :: string where "BackendKeyCustomTemplate = ''custom_template''"

definition SetCustomTemplate :: "Instance \<Rightarrow> bool \<Rightarrow> Instance" where
  "SetCustomTemplate i has =
     i\<lparr>i_BackendConfig := Some ((case i_BackendConfig i of None \<Rightarrow> Map.empty | Some m \<Rightarrow> m)(BackendKeyCustomTemplate \<mapsto> AnyBool has))\<rparr>"

definition templatePath :: "Paths \<Rightarrow> string" where
  "templatePath paths = filepath_Join [p_Instance paths, ''domain.xml.tmpl'']"

definition StoreCustomTemplate :: "'fs FileSystem \<Rightarrow> 'fs \<Rightarrow> Paths \<Rightarrow> string \<Rightarrow> 'fs \<times> create_error option" where
  "StoreCustomTemplate F fs paths content =
     (case WriteFile F fs (templatePath paths) content 384 of (fs', e) \<Rightarrow> (fs', map_option CrTemplate e))"

section \<open>The configuration of a new instance\<close>

definition loadBackendOverrides ::
  "'fs FileSystem \<Rightarrow> 'fs \<Rightarrow> Options \<Rightarrow> Boxfile option \<Rightarrow> string \<Rightarrow> backend \<Rightarrow> create_error + Options" where
  "loadBackendOverrides F fs opts box boxDir be =
     (case (case box of None \<Rightarrow> Inr opts
            | Some b \<Rightarrow> (case LoadOverrideContent F fs b (be_Name be) ''template'' boxDir of
                          Inl e \<Rightarrow> Inl (CrBox e) | Inr content \<Rightarrow> Inr (opts\<lparr>o_TemplateContent := content\<rparr>))) of
        Inl e \<Rightarrow> Inl e
      | Inr opts' \<Rightarrow> if o_TemplateContent opts' \<noteq> [] \<and> \<not> be_hasTemplates be then Inl CrNoTemplate else Inr opts')"

definition buildInstanceConfig :: "Options \<Rightarrow> string \<Rightarrow> Paths \<Rightarrow> backend \<Rightarrow> string \<Rightarrow> string \<Rightarrow> Instance" where
  "buildInstanceConfig opts name paths be gateway subnet =
    \<lparr>i_Version = CurrentInstanceVersion, i_Name = name, i_Backend = be_Name be, i_BackendConfig = None, i_StorageDir = be_StorageDir be,
     i_CPUs = o_CPUs opts, i_Memory = o_Memory opts, i_Base = o_Base opts, i_Subnet = subnet, i_Gateway = gateway, i_Bridge = be_Network be name,
     i_DNS = \<lparr>dc_Port = 0, dc_Upstream = o_Upstream opts, dc_LogLevel = []\<rparr>,
     i_HTTP = \<lparr>hc_Port = 0, hc_LogLevel = [], hc_MITM = o_MITM opts, hc_MaxConnections = o_MaxConnections opts,
       hc_AllowPrivateTargets = o_AllowPrivateTargets opts, hc_AllowedPorts = o_AllowedPorts opts,
       hc_SecretInjections = o_SecretInjections opts, hc_MITMExceptions = o_MITMExceptions opts\<rparr>,
     i_Monitor = \<lparr>mon_Enabled = o_MonitorEnabled opts, mon_Version = o_MonitorVersion opts, mon_KprobeMulti = o_MonitorKprobeMulti opts,
       mon_Kprobes = o_MonitorKprobes opts, mon_Policies = o_MonitorPolicies opts\<rparr>,
     i_Provision = [], i_SSHKey = p_SSHKey paths, i_User = o_User opts, i_Disk = o_Disk opts, i_MACAddress = be_MAC be,
     i_IPAddress = DeriveHostIP gateway\<rparr>"

text \<open>The directories, the subnet, the configuration and the template of a new instance; \<open>order\<close> is the iteration order of the table of sockets.\<close>

definition initInstance ::
  "((string \<times> string) list \<Rightarrow> (string \<times> string) list) \<Rightarrow> ('fs, 't) config_env \<Rightarrow> (string \<Rightarrow> bool) \<Rightarrow> 'fs \<Rightarrow> Options \<Rightarrow> string \<Rightarrow> Paths \<Rightarrow> backend
     \<Rightarrow> 'fs \<times> (create_error + Instance)" where
  "initInstance order C routeProbe fs opts name paths be =
     (case EnsureDirs order (ce_F C) (ce_P C) fs paths of (fs1, Some e) \<Rightarrow> (fs1, Inl (CrPath e)) | (fs1, None) \<Rightarrow>
      case ResolveNetwork C routeProbe fs1 be (o_Subnet opts) of Inl e \<Rightarrow> (fs1, Inl e) | Inr (subnet, gateway, _) \<Rightarrow>
      let base = buildInstanceConfig opts name paths be gateway subnet;
          inst = (if o_TemplateContent opts \<noteq> [] \<and> be_hasTemplates be then SetCustomTemplate base True else base) in
      case Config_Save C fs1 inst paths of (fs2, Some e) \<Rightarrow> (fs2, Inl (CrSave e)) | (fs2, None) \<Rightarrow>
      if o_TemplateContent opts \<noteq> [] \<and> be_hasTemplates be then
        (case StoreCustomTemplate (ce_F C) fs2 paths (o_TemplateContent opts) of
           (fs3, Some e) \<Rightarrow> (fs3, Inl e) | (fs3, None) \<Rightarrow> (fs3, Inr inst))
      else (fs2, Inr inst))"

text \<open>\<open>runCreate\<close> from its checks to the saved configuration, under the creation lock and for a real run; \<open>arch\<close> is the architecture of the guest.\<close>

definition create_config ::
  "((string \<times> string) list \<Rightarrow> (string \<times> string) list) \<Rightarrow> ('fs, 't) config_env \<Rightarrow> (string \<Rightarrow> bool) \<Rightarrow> string \<Rightarrow> 'fs \<Rightarrow> Options \<Rightarrow> Boxfile option
     \<Rightarrow> string \<Rightarrow> string \<Rightarrow> backend \<Rightarrow> 'fs \<times> (create_error + Instance)" where
  "create_config order C routeProbe arch fs opts box boxDir name be =
     (case validateCreateInputs opts name of Inl e \<Rightarrow> (fs, Inl e) | Inr opts1 \<Rightarrow>
      if o_MonitorEnabled opts1 \<and> \<not> be_hasMonitor be then (fs, Inl CrNoMonitor)
      else if o_MonitorEnabled opts1 \<and> arch \<noteq> ''amd64'' then (fs, Inl (CrArch arch))
      else (case ce_paths C fs name (be_StorageDir be) of Inl e \<Rightarrow> (fs, Inl (CrPath e)) | Inr paths \<Rightarrow>
      case loadBackendOverrides (ce_F C) fs opts1 box boxDir be of Inl e \<Rightarrow> (fs, Inl e) | Inr opts2 \<Rightarrow>
      if Config_Exists C fs name then (fs, Inl CrExists)
      else initInstance order C routeProbe fs opts2 name paths be))"

definition RunFromBoxfile ::
  "((string \<times> string) list \<Rightarrow> (string \<times> string) list) \<Rightarrow> ('fs, 't) config_env \<Rightarrow> (string \<Rightarrow> bool) \<Rightarrow> string \<Rightarrow> 'fs \<Rightarrow> Boxfile \<Rightarrow> string \<Rightarrow> backend
     \<Rightarrow> 'fs \<times> (create_error + Instance)" where
  "RunFromBoxfile order C routeProbe arch fs box boxDir be =
     (case Boxfile_Validate (ce_F C) (ce_E C) (ce_R C) fs boxDir box of Inl e \<Rightarrow> (fs, Inl (CrBox e)) | Inr b \<Rightarrow>
      case applyBoxfile zero_options b boxDir of Inl e \<Rightarrow> (fs, Inl (CrBox e)) | Inr opts \<Rightarrow>
      create_config order C routeProbe arch fs opts (Some b) boxDir (b_Name b) be)"

section \<open>What a created instance looks like\<close>

lemma ResolveNetwork_requested: "ResolveNetwork C rp fs be req = Inr (subnet, gw, n) \<Longrightarrow> req \<noteq> [] \<Longrightarrow> subnet = req"
  by (auto simp: ResolveNetwork_def split: sum.splits)

lemma initInstance_result:
  assumes "initInstance ord C rp fs opts name paths be = (fs', Inr inst)"
  obtains subnet gateway bc where "inst = (buildInstanceConfig opts name paths be gateway subnet)\<lparr>i_BackendConfig := bc\<rparr>"
    "o_Subnet opts = [] \<or> subnet = o_Subnet opts"
proof -
  obtain fs1 subnet gateway n where r: "ResolveNetwork C rp fs1 be (o_Subnet opts) = Inr (subnet, gateway, n)"
    "inst = (let base = buildInstanceConfig opts name paths be gateway subnet in
       if o_TemplateContent opts \<noteq> [] \<and> be_hasTemplates be then SetCustomTemplate base True else base)"
    using assms by (auto simp: initInstance_def Let_def split: prod.splits option.splits sum.splits if_splits)
  have "\<exists>bc. inst = (buildInstanceConfig opts name paths be gateway subnet)\<lparr>i_BackendConfig := bc\<rparr>"
    unfolding r(2) Let_def SetCustomTemplate_def by (auto simp: buildInstanceConfig_def)
  then show ?thesis using that ResolveNetwork_requested [OF r(1)] by blast
qed

lemma loadBackendOverrides_result:
  "loadBackendOverrides F fs opts box d be = Inr opts' \<Longrightarrow> \<exists>c. opts' = opts\<lparr>o_TemplateContent := c\<rparr>"
proof -
  have "\<exists>c. x = x\<lparr>o_TemplateContent := c\<rparr>" for x :: Options by (rule exI [of _ "o_TemplateContent x"]) simp
  then show "loadBackendOverrides F fs opts box d be = Inr opts' \<Longrightarrow> \<exists>c. opts' = opts\<lparr>o_TemplateContent := c\<rparr>"
    by (auto simp: loadBackendOverrides_def split: option.splits sum.splits if_splits)
qed

lemma validateCreateInputs_result:
  assumes "validateCreateInputs opts name = Inr opts'"
  shows "opts' = opts\<lparr>o_Upstream := o_Upstream opts'\<rparr>" "o_Upstream opts \<noteq> [] \<Longrightarrow> NormalizeUpstreamDNS (o_Upstream opts) = Inr (o_Upstream opts')"
    "ValidateInstanceName name = None" "o_User opts \<noteq> [] \<Longrightarrow> ValidateSSHUser (o_User opts) = None"
    "ValidateResourceLimits (o_CPUs opts) (o_Memory opts) = None" "ValidateDiskSize (o_Disk opts) = None"
    "o_Upstream opts = [] \<Longrightarrow> opts' = opts"
  using assms by (auto simp: validateCreateInputs_def split: option.splits sum.splits if_splits)

lemma validated_upstream: "validateDNS b = Inr b \<Longrightarrow> bd_Upstream (b_DNS b) \<noteq> [] \<Longrightarrow> NormalizeUpstreamDNS (bd_Upstream (b_DNS b)) = Inr (bd_Upstream (b_DNS b))"
proof -
  assume v: "validateDNS b = Inr b" and n: "bd_Upstream (b_DNS b) \<noteq> []"
  obtain u where u: "NormalizeUpstreamDNS (bd_Upstream (b_DNS b)) = Inr u" "b\<lparr>b_DNS := (b_DNS b)\<lparr>bd_Upstream := u\<rparr>\<rparr> = b"
    using v n by (auto simp: validateDNS_def split: sum.splits)
  then have "bd_Upstream (b_DNS (b\<lparr>b_DNS := (b_DNS b)\<lparr>bd_Upstream := u\<rparr>\<rparr>)) = bd_Upstream (b_DNS b)" by (simp only:)
  then have "bd_Upstream (b_DNS b) = u" by simp
  then show ?thesis using u(1) by simp
qed

lemma applyBoxfile_result:
  assumes "applyBoxfile zero_options b d = Inr opts"
  shows "o_CPUs opts = b_CPUs b" "o_Memory opts = b_Memory b" "o_Base opts = b_Base b" "o_Upstream opts = bd_Upstream (b_DNS b)"
    "o_Disk opts = b_Disk b" "o_Subnet opts = b_Subnet b" "o_User opts = b_User b" "o_MonitorEnabled opts = bm_Enabled (b_Monitor b)"
    "o_MonitorVersion opts = bm_Version (b_Monitor b)" "o_MonitorKprobeMulti opts = GetKprobeMulti b" "o_MonitorKprobes opts = bm_Kprobes (b_Monitor b)"
    "o_MITM opts = GetMITM b" "o_MaxConnections opts = GetMaxConnections b" "o_AllowPrivateTargets opts = bh_AllowPrivateTargets (b_HTTP b)"
    "o_AllowedPorts opts = bh_AllowedPorts (b_HTTP b)" "o_SecretInjections opts = bh_SecretInjections (b_HTTP b)"
    "o_MITMExceptions opts = bh_MITMExceptions (b_HTTP b)" "length (o_MonitorPolicies opts) = length (bm_Policies (b_Monitor b))"
proof -
  obtain ps where p: "(if bm_Policies (b_Monitor b) \<noteq> [] then ResolvePolicyPaths b d else Inr (o_MonitorPolicies zero_options)) = Inr ps"
    using assms unfolding applyBoxfile_def
    by (cases "if bm_Policies (b_Monitor b) \<noteq> [] then ResolvePolicyPaths b d else Inr (o_MonitorPolicies zero_options)") (simp_all only: sum.case sum.distinct)
  then have l: "length ps = length (bm_Policies (b_Monitor b))"
    by (auto simp: ResolvePolicyPaths_def resolve_all_Inr zero_options_def dest: list_all2_lengthD split: if_splits)
  note e = assms [unfolded applyBoxfile_def p sum.case sum.inject, symmetric]
  show "o_CPUs opts = b_CPUs b" "o_Memory opts = b_Memory b" "o_Base opts = b_Base b" "o_Upstream opts = bd_Upstream (b_DNS b)"
    "o_Disk opts = b_Disk b" "o_Subnet opts = b_Subnet b" "o_User opts = b_User b" "o_MonitorEnabled opts = bm_Enabled (b_Monitor b)"
    "o_MonitorVersion opts = bm_Version (b_Monitor b)" "o_MonitorKprobeMulti opts = GetKprobeMulti b" "o_MonitorKprobes opts = bm_Kprobes (b_Monitor b)"
    "o_MITM opts = GetMITM b" "o_MaxConnections opts = GetMaxConnections b" "o_AllowPrivateTargets opts = bh_AllowPrivateTargets (b_HTTP b)"
    "o_AllowedPorts opts = bh_AllowedPorts (b_HTTP b)" "o_SecretInjections opts = bh_SecretInjections (b_HTTP b)"
    "o_MITMExceptions opts = bh_MITMExceptions (b_HTTP b)" "length (o_MonitorPolicies opts) = length (bm_Policies (b_Monitor b))"
    by (simp_all add: e l)
qed

text \<open>The instance that \<open>RunFromBoxfile\<close> saves, in terms of the validated declaration.\<close>

lemma created_instance:
  assumes "RunFromBoxfile ord C rp arch fs b0 d be = (fs', Inr inst)"
  obtains b opts paths subnet gateway bc where
    "Boxfile_Validate (ce_F C) (ce_E C) (ce_R C) fs d b0 = Inr b" "applyBoxfile zero_options b d = Inr opts"
    "inst = (buildInstanceConfig opts (b_Name b) paths be gateway subnet)\<lparr>i_BackendConfig := bc\<rparr>"
    "b_Subnet b = [] \<or> subnet = b_Subnet b" "validateCreateInputs opts (b_Name b) = Inr opts"
    "ce_paths C fs (b_Name b) (be_StorageDir be) = Inr paths"
proof -
  obtain b where b: "Boxfile_Validate (ce_F C) (ce_E C) (ce_R C) fs d b0 = Inr b"
    using assms by (auto simp: RunFromBoxfile_def split: sum.splits)
  obtain opts where o: "applyBoxfile zero_options b d = Inr opts"
    using assms b by (auto simp: RunFromBoxfile_def split: sum.splits)
  have c: "create_config ord C rp arch fs opts (Some b) d (b_Name b) be = (fs', Inr inst)"
    using assms b o by (simp add: RunFromBoxfile_def)
  obtain o1 where v: "validateCreateInputs opts (b_Name b) = Inr o1" using c by (auto simp: create_config_def split: sum.splits)
  obtain paths where p: "ce_paths C fs (b_Name b) (be_StorageDir be) = Inr paths" using c v by (auto simp: create_config_def split: sum.splits if_splits)
  obtain o2 where l: "loadBackendOverrides (ce_F C) fs o1 (Some b) d be = Inr o2" and i: "initInstance ord C rp fs o2 (b_Name b) paths be = (fs', Inr inst)"
    using c v p by (auto simp: create_config_def split: sum.splits if_splits)
  have "NormalizeUpstreamDNS (o_Upstream opts) = Inr (o_Upstream opts)" if "o_Upstream opts \<noteq> []"
    using validated_upstream [OF Validate_parts(11) [OF Validate_idem [OF b]]] that applyBoxfile_result(4) [OF o] by simp
  then have "o_Upstream o1 = o_Upstream opts" using validateCreateInputs_result(2,7) [OF v] by (cases "o_Upstream opts = []") auto
  then have o1: "o1 = opts" using validateCreateInputs_result(1) [OF v] by simp
  obtain t where o2: "o2 = opts\<lparr>o_TemplateContent := t\<rparr>" using loadBackendOverrides_result [OF l] o1 by blast
  obtain subnet gateway bc where "inst = (buildInstanceConfig o2 (b_Name b) paths be gateway subnet)\<lparr>i_BackendConfig := bc\<rparr>"
    "o_Subnet o2 = [] \<or> subnet = o_Subnet o2" using initInstance_result [OF i] .
  then show ?thesis using that b o p v o1 o2 applyBoxfile_result(6) [OF o] by (simp add: buildInstanceConfig_def)
qed

text \<open>C32 (equivalence). \<open>abox up\<close> compares the declaration with the saved configuration field by field. After the instance has been created from the
  declaration the comparison finds nothing, whatever subnet was allocated: the mapping of creation and the one of the comparison agree on every field.\<close>

theorem created_shows_no_drift:
  assumes "RunFromBoxfile ord C rp arch fs b0 d be = (fs', Inr inst)"
  shows "\<exists>b. Boxfile_Validate (ce_F C) (ce_E C) (ce_R C) fs d b0 = Inr b \<and> Drift b inst = []"
proof -
  from created_instance [OF assms] obtain b opts paths subnet gateway bc where
    c: "Boxfile_Validate (ce_F C) (ce_E C) (ce_R C) fs d b0 = Inr b" "applyBoxfile zero_options b d = Inr opts"
      "inst = (buildInstanceConfig opts (b_Name b) paths be gateway subnet)\<lparr>i_BackendConfig := bc\<rparr>" "b_Subnet b = [] \<or> subnet = b_Subnet b" .
  have "GetMaxConnections b \<noteq> 0"
    using Validate_parts(7) [OF Validate_idem [OF c(1)]] by (force simp: GetMaxConnections_def DefaultHTTPMaxConnections_def split: option.splits)
  then have "Drift b inst = []"
    using c(4) applyBoxfile_result [OF c(2)]
    by (auto simp: c(3) buildInstanceConfig_def Drift_def resourceDrift_def httpDrift_def monitorDrift_def Let_def effectiveMaxConns_def)
  then show ?thesis using c(1) by blast
qed

lemma find_case: "(case find P xs of None \<Rightarrow> r | Some c \<Rightarrow> Some (f c)) = None \<longleftrightarrow> (\<forall>x \<in> set xs. \<not> P x) \<and> r = None"
  by (induction xs) auto

lemma validateHTTPConfig_None:
  "validateHTTPConfig E R h = None \<longleftrightarrow>
     ValidateLogLevel (unicode_ToLower E) (hc_LogLevel h) = None \<and> 0 \<le> hc_MaxConnections h \<and> (\<forall>c \<in> set (hc_AllowPrivateTargets h). ParseCIDR c \<noteq> None)
     \<and> (\<forall>p \<in> set (hc_AllowedPorts h). 1 \<le> p \<and> p \<le> 65535) \<and> ValidateSecretInjections E (hc_SecretInjections h) = None
     \<and> ValidateMITMExceptions E R (hc_MITMExceptions h) (hc_SecretInjections h) = None"
  unfolding validateHTTPConfig_def by (auto simp: find_case not_less split: option.splits)

lemma Instance_Validate_None:
  "Instance_Validate E R i = None \<longleftrightarrow>
     ValidateInstanceName (i_Name i) = None \<and> (i_User i \<noteq> [] \<longrightarrow> ValidateSSHUser (i_User i) = None) \<and> (i_MACAddress i \<noteq> [] \<longrightarrow> ValidateMACAddress (i_MACAddress i) = None)
     \<and> ValidateLogLevel (unicode_ToLower E) (dc_LogLevel (i_DNS i)) = None \<and> validateHTTPConfig E R (i_HTTP i) = None
     \<and> validateStorageDir (i_StorageDir i) = None \<and> ValidateResourceLimits (i_CPUs i) (i_Memory i) = None \<and> ValidateDiskSize (i_Disk i) = None"
  by (auto simp: Instance_Validate_def split: option.splits)

text \<open>C31 (type). The configuration saved for a validated declaration is well-formed, so that loading accepts it, exactly when every listed
  private target is a network in its bare notation and every listed port is a port number; the validation of the declaration does not ask for either.\<close>

theorem created_config_wellformed:
  assumes "RunFromBoxfile ord C rp arch fs b0 d be = (fs', Inr inst)" and "ValidateMACAddress (be_MAC be) = None"
  shows "Instance_Validate (ce_E C) (ce_R C) inst = None \<longleftrightarrow>
    (\<forall>c \<in> set (hc_AllowPrivateTargets (i_HTTP inst)). ParseCIDR c \<noteq> None) \<and> (\<forall>p \<in> set (hc_AllowedPorts (i_HTTP inst)). 1 \<le> p \<and> p \<le> 65535)"
proof -
  from created_instance [OF assms(1)] obtain b opts paths subnet gateway bc where
    c: "Boxfile_Validate (ce_F C) (ce_E C) (ce_R C) fs d b0 = Inr b" "applyBoxfile zero_options b d = Inr opts"
      "inst = (buildInstanceConfig opts (b_Name b) paths be gateway subnet)\<lparr>i_BackendConfig := bc\<rparr>"
      "validateCreateInputs opts (b_Name b) = Inr opts" "ce_paths C fs (b_Name b) (be_StorageDir be) = Inr paths" .
  note v = Validate_parts [OF Validate_idem [OF c(1)]] and o = applyBoxfile_result [OF c(2)] and i = validateCreateInputs_result(3-6) [OF c(4)]
  have s: "validateStorageDir (be_StorageDir be) = None"
    using c(5) by (cases "be_StorageDir be = []") (simp add: validateStorageDir_def, auto simp: GetPathsWithStorage_def split: sum.splits option.splits)
  have l: "ValidateLogLevel u [] = None" for u by (simp add: ValidateLogLevel_def)
  have "1 \<le> GetMaxConnections b" using v(7) by (auto simp: GetMaxConnections_def DefaultHTTPMaxConnections_def split: option.splits)
  then show ?thesis
    using i s l assms(2) v(9,10) o(7,13-17) by (simp add: c(3) buildInstanceConfig_def Instance_Validate_None validateHTTPConfig_None)
qed

section \<open>Witnesses\<close>

text \<open>Every random MAC address has the accepted form.\<close>

lemma hexdig_hex_digit: "n < 16 \<Longrightarrow> hexdig (hex_digit n)"
  by (auto simp: hexdig_def hex_digit_def is_digit_def)

lemma lang_SeqI: "u \<in> lang r \<Longrightarrow> v \<in> lang s \<Longrightarrow> u @ v \<in> lang (Seq r s)"
  by (auto simp: lang.simps)

lemma lang_TimesI: "\<forall>w \<in> set ws. w \<in> lang r \<Longrightarrow> concat ws \<in> lang (Times r (length ws))"
  by (induction ws) (auto simp: lang.simps(2) intro: lang_SeqI)

lemma mac_accepted:
  assumes "\<forall>w \<in> set [w1, w2, w3, w4, w5, w6]. \<exists>x y. w = [x, y] \<and> hexdig x \<and> hexdig y"
  shows "ValidateMACAddress (w1 @ '':'' @ w2 @ '':'' @ w3 @ '':'' @ w4 @ '':'' @ w5 @ '':'' @ w6) = None"
proof -
  have two: "w \<in> lang (Times (Cls hexdig) 2)" if "w \<in> set [w1, w2, w3, w4, w5, w6]" for w
  proof -
    note e = bspec [OF assms that]
    obtain x y where "w = [x, y]" "hexdig x" "hexdig y" using e by blast
    then have "\<forall>v \<in> set [[x], [y]]. v \<in> lang (Cls hexdig)" by (simp add: lang.simps(3))
    from lang_TimesI [OF this] \<open>w = [x, y]\<close> show ?thesis by (simp del: Times.simps add: numeral_2_eq_2)
  qed
  have "w @ '':'' \<in> lang (Seq (Times (Cls hexdig) 2) (Chr CHR '':''))" if "w \<in> set [w1, w2, w3, w4, w5, w6]" for w
    by (rule lang_SeqI [OF two [OF that]]) (simp add: lang.simps(3))
  then have "\<forall>v \<in> set (map (\<lambda>w. w @ '':'') [w1, w2, w3, w4, w5]). v \<in> lang (Seq (Times (Cls hexdig) 2) (Chr CHR '':''))" by simp
  from lang_SeqI [OF lang_TimesI [OF this] two [of w6]]
  have "rx_match validMACAddressRegex (w1 @ '':'' @ w2 @ '':'' @ w3 @ '':'' @ w4 @ '':'' @ w5 @ '':'' @ w6)"
    unfolding rx_match_lang validMACAddressRegex_def by (simp del: Times.simps add: numeral_eq_Suc)
  then show ?thesis by (simp add: ValidateMACAddress_def)
qed

lemma GenerateMAC_valid:
  "ValidateMACAddress (virsh_GenerateMAC a b c) = None" "ValidateMACAddress (vmrun_GenerateMAC a b c) = None" "ValidateMACAddress (vfkit_GenerateMAC a b c) = None"
proof -
  have h: "hex_bytes [x] = [hex_digit (unat x div 16), hex_digit (unat x mod 16)]" "hexdig (hex_digit (unat x div 16))" "hexdig (hex_digit (unat x mod 16))" for x :: u8
    using unsigned_less [of x, where 'a = nat] by (simp_all add: hexdig_hex_digit hex_bytes_def)
  show "ValidateMACAddress (virsh_GenerateMAC a b c) = None"
    using mac_accepted [of "''52''" "''54''" "''00''" "hex_bytes [a]" "hex_bytes [b]" "hex_bytes [c]"] h by (simp add: virsh_GenerateMAC_def mac_bytes_def go_eval)
  show "ValidateMACAddress (vmrun_GenerateMAC a b c) = None"
    using mac_accepted [of "''00''" "''0c''" "''29''" "hex_bytes [a]" "hex_bytes [b]" "hex_bytes [c]"] h by (simp add: vmrun_GenerateMAC_def mac_bytes_def go_eval)
  show "ValidateMACAddress (vfkit_GenerateMAC a b c) = None"
    using mac_accepted [of "''02''" "''ab''" "''00''" "hex_bytes [a]" "hex_bytes [b]" "hex_bytes [c]"] h by (simp add: vfkit_GenerateMAC_def mac_bytes_def go_eval)
qed

definition demo_ports :: "int list \<Rightarrow> Boxfile" where
  "demo_ports ps = demo_decl\<lparr>b_HTTP := (b_HTTP demo_decl)\<lparr>bh_AllowedPorts := ps\<rparr>\<rparr>"

definition demo_be :: backend where
  "demo_be = \<lparr>be_Name = ''vfkit'', be_StorageDir = [], be_Network = (\<lambda>n. ''abox-'' @ n), be_MAC = vfkit_GenerateMAC 1 2 3,
     be_Defaults = Some (Inr (v4_string [192, 168, 128, 0] @ ''/24'', [])), be_hasMonitor = False, be_hasTemplates = False\<rparr>"

abbreviation demo_create :: "int list \<Rightarrow> MockFileSystem \<times> (create_error + Instance)" where
  "demo_create ps \<equiv> RunFromBoxfile id demo_env (\<lambda>_. False) ''arm64'' decl_fs (demo_ports ps) ''/repo'' demo_be"

lemma demo_ports_valid: "Boxfile_Validate mock_fs E R decl_fs ''/repo'' (demo_ports ps) = Inr (demo_ports ps)"
proof -
  let ?b = "demo_ports ps"
  have x: "b_Name ?b = b_Name demo_decl" "b_User ?b = b_User demo_decl" "b_CPUs ?b = b_CPUs demo_decl" "b_Memory ?b = b_Memory demo_decl" "b_Disk ?b = b_Disk demo_decl"
    "b_Provision ?b = b_Provision demo_decl" "b_Overlay ?b = b_Overlay demo_decl" "b_Monitor ?b = b_Monitor demo_decl" "b_Overrides ?b = b_Overrides demo_decl"
    by (simp_all add: demo_ports_def)
  have "validateNameAndUser ?b = validateNameAndUser demo_decl" "validateResources ?b = validateResources demo_decl"
    "validateProvisionScripts mock_fs decl_fs ''/repo'' ?b = validateProvisionScripts mock_fs decl_fs ''/repo'' demo_decl"
    "validateOverlay mock_fs decl_fs ''/repo'' ?b = validateOverlay mock_fs decl_fs ''/repo'' demo_decl"
    "validateMonitor mock_fs decl_fs ''/repo'' ?b = validateMonitor mock_fs decl_fs ''/repo'' demo_decl"
    "validateOverrides mock_fs decl_fs ''/repo'' ?b = validateOverrides mock_fs decl_fs ''/repo'' demo_decl"
    by (simp_all only: validateNameAndUser_def validateResources_def validateProvisionScripts_def validateOverlay_def validateMonitor_def validateOverrides_def x)
  moreover have "validateDNS ?b = Inr ?b" by (simp add: validateDNS_def demo_ports_def demo_decl_def DefaultBoxfile_def DefaultUpstream_def)
  ultimately show ?thesis using demo_decl_valid [of E R] unfolding Validate_iff by (simp add: demo_ports_def)
qed

lemma decl_base: "EnvVars fs = EnvVars demo_fs \<Longrightarrow> getBaseDir mock_fs fs = Inr ''/data/abox''"
  using demo_home(2) by (simp add: getBaseDir_def mock_defs demo_fs_def)

lemma demo_dirs:
  assumes "GetPathsWithStorage mock_fs demo_proc decl_fs ''dev'' [] = Inr p"
  shows "\<exists>D. EnsureDirs id mock_fs demo_proc decl_fs p = (decl_fs\<lparr>Dirs := D\<rparr>, None) \<and> Config_List demo_env (decl_fs\<lparr>Dirs := D\<rparr>) = Inr []"
proof -
  have e: "EnvVars decl_fs = EnvVars demo_fs" by (simp add: decl_fs_def)
  obtain D where d: "EnsureDirs id mock_fs demo_proc decl_fs p = (decl_fs\<lparr>Dirs := D\<rparr>, None)"
    using assms by (simp add: EnsureDirs_def ValidateSocketPaths_def maxUnixSocketPathLen_def demo_proc_def mock_defs decl_fs_def demo_fs_def)
  obtain q where "GetPaths mock_fs demo_proc (decl_fs\<lparr>Dirs := D\<rparr>) [] = Inr q"
    using decl_base [of "decl_fs\<lparr>Dirs := D\<rparr>"] e by (simp add: GetPaths_def GetPathsWithStorage_def path_eval Let_def build_paths_def)
  then have "Config_List demo_env (decl_fs\<lparr>Dirs := D\<rparr>) = Inr []" by (simp add: Config_List_def demo_env_def mock_defs decl_fs_def demo_fs_def)
  with d show ?thesis by blast
qed

lemma demo_created: "\<exists>fs' inst. demo_create ps = (fs', Inr inst) \<and> hc_AllowedPorts (i_HTTP inst) = ps \<and> hc_AllowPrivateTargets (i_HTTP inst) = []"
proof -
  have n: "b_Name (demo_ports ps) = ''dev''" "b_Subnet (demo_ports ps) = []" by (simp_all add: demo_ports_def demo_decl_def DefaultBoxfile_def)
  obtain opts where o: "applyBoxfile zero_options (demo_ports ps) ''/repo'' = Inr opts" "o_MonitorEnabled opts = False"
    by (simp add: applyBoxfile_def demo_ports_def demo_decl_def DefaultBoxfile_def zero_options_def)
  note r = applyBoxfile_result [OF o(1)]
  have u: "o_Upstream opts = []" using r(4) by (simp add: demo_ports_def demo_decl_def DefaultBoxfile_def DefaultUpstream_def)
  have "validateNameAndUser (demo_ports ps) = None" "validateResources (demo_ports ps) = None" using demo_ports_valid [of ref_ext ref_radix ps] by (simp_all only: Validate_iff)
  moreover have "b_Disk (demo_ports ps) \<noteq> []" by (simp add: demo_ports_def demo_decl_def DefaultBoxfile_def DefaultDisk_def)
  ultimately have v: "validateCreateInputs opts ''dev'' = Inr opts"
    using r(1,2,5,7) u n by (auto simp: validateCreateInputs_def validateNameAndUser_def validateResources_def split: option.splits if_splits)
  have e: "EnvVars decl_fs = EnvVars demo_fs" by (simp add: decl_fs_def)
  obtain p where p: "GetPathsWithStorage mock_fs demo_proc decl_fs ''dev'' [] = Inr p" "p_Config p = ''/data/abox/instances/dev/config.yaml''"
    by (simp add: GetPathsWithStorage_def decl_base [OF e] path_eval Let_def build_paths_def)
  have x: "\<not> Config_Exists demo_env decl_fs ''dev''"
    using p by (simp add: Config_Exists_def demo_env_def GetPaths_def mock_defs decl_fs_def demo_fs_def)
  have l: "loadBackendOverrides mock_fs decl_fs opts (Some (demo_ports ps)) ''/repo'' demo_be = Inr (opts\<lparr>o_TemplateContent := []\<rparr>)"
    by (simp add: loadBackendOverrides_def LoadOverrideContent_def override_value_def demo_be_def demo_ports_def demo_decl_def)
  obtain D where d: "EnsureDirs id mock_fs demo_proc decl_fs p = (decl_fs\<lparr>Dirs := D\<rparr>, None)" and "Config_List demo_env (decl_fs\<lparr>Dirs := D\<rparr>) = Inr []"
    using demo_dirs [OF p(1)] by blast
  then have s: "ValidateSubnet demo_env (decl_fs\<lparr>Dirs := D\<rparr>) (v4_string [192, 168, 128, 0] @ ''/24'') = Inr (gateway_of 192 168 128, unat (128 :: u8))"
    using ValidateSubnet_net24 [of "''24''" demo_env "decl_fs\<lparr>Dirs := D\<rparr>" "[]" 192 168 128] by simp
  have "o_Subnet opts = []" using r(6) n by simp
  then have "\<exists>fs'. initInstance id demo_env (\<lambda>_. False) decl_fs (opts\<lparr>o_TemplateContent := []\<rparr>) ''dev'' p demo_be
      = (fs', Inr (buildInstanceConfig opts ''dev'' p demo_be (gateway_of 192 168 128) (v4_string [192, 168, 128, 0] @ ''/24'')))"
    using d s by (simp add: initInstance_def ResolveNetwork_def Config_Save_def demo_be_def Let_def buildInstanceConfig_def demo_env_def demo_yaml_def mock_defs decl_fs_def demo_fs_def)
  then show ?thesis
    using o v p x l n r(14,15) demo_ports_valid [of "ce_E demo_env" "ce_R demo_env" ps]
    by (auto simp: RunFromBoxfile_def create_config_def demo_env_def demo_be_def buildInstanceConfig_def) (simp_all add: demo_ports_def demo_decl_def DefaultBoxfile_def)
qed

theorem created_shows_no_drift_witness:
  "\<exists>fs' inst b. demo_create [443] = (fs', Inr inst) \<and> Boxfile_Validate mock_fs ref_ext ref_radix decl_fs ''/repo'' (demo_ports [443]) = Inr b \<and> Drift b inst = []"
proof -
  obtain fs' inst where c: "demo_create [443] = (fs', Inr inst)" using demo_created [of "[443]"] by blast
  from created_shows_no_drift [OF this] c show ?thesis by (simp add: demo_env_def)
qed

text \<open>A port number out of range passes the validation of the declaration; the saved configuration cannot be loaded.\<close>

theorem created_config_wellformed_witness:
  "\<exists>fs' inst. demo_create [70000] = (fs', Inr inst) \<and> Instance_Validate ref_ext ref_radix inst \<noteq> None"
proof -
  obtain fs' inst where c: "demo_create [70000] = (fs', Inr inst)" "hc_AllowedPorts (i_HTTP inst) = [70000]" using demo_created [of "[70000]"] by blast
  have "ValidateMACAddress (be_MAC demo_be) = None" by (simp add: demo_be_def GenerateMAC_valid)
  from created_config_wellformed [OF c(1) this] c show ?thesis by (simp add: demo_env_def)
qed

end
