(* ===== verification/Lifecycle.thy ===== *)
theory Lifecycle
  imports Egress_Control Create
begin

text \<open>
  The commands that start, stop, restart and remove an instance: \<^verbatim>\<open>pkg/cmd/start/start.go\<close>, \<^verbatim>\<open>stop/stop.go\<close>, \<^verbatim>\<open>restart/restart.go\<close>,
  \<^verbatim>\<open>remove/remove.go\<close>, the common part of \<^verbatim>\<open>down/down.go\<close>, and \<^verbatim>\<open>internal/instance\<close>. The managers of a backend
  and the daemons are operations on a state \<open>'v\<close> of the host, which holds the files as well; the packet filters are a state \<open>'p\<close> that only the
  egress controller changes. Progress messages, audit records and the wait for SSH are left out. The
  lemmas say when a guest can run without its rules.
\<close>

section \<open>Steps that can fail\<close>

fun bind_step :: "'s \<times> ('e + 'a) \<Rightarrow> ('a \<Rightarrow> 's \<Rightarrow> 's \<times> ('e + 'b)) \<Rightarrow> 's \<times> ('e + 'b)" where
  "bind_step (s, Inl e) f = (s, Inl e)"
| "bind_step (s, Inr a) f = f a s"

definition check_step :: "('x \<Rightarrow> 'e) \<Rightarrow> 's \<times> 'x option \<Rightarrow> 's \<times> ('e + unit)" where
  "check_step wrap r = (case r of (s, None) \<Rightarrow> (s, Inr ()) | (s, Some x) \<Rightarrow> (s, Inl (wrap x)))"

lemma bind_step_Inr: "bind_step r f = (s', Inr b) \<longleftrightarrow> (\<exists>s a. r = (s, Inr a) \<and> f a s = (s', Inr b))"
  by (cases r; cases "snd r") auto

lemma bind_step_assoc: "bind_step (bind_step r f) g = bind_step r (\<lambda>a s. bind_step (f a s) g)"
  by (cases r; cases "snd r") auto

lemma check_step_Inr: "check_step wrap r = (s', Inr u) \<longleftrightarrow> r = (s', None)"
  by (cases r; cases "snd r") (auto simp: check_step_def)

lemma fst_check_step [simp]: "fst (check_step wrap r) = fst r"
  by (cases r; cases "snd r") (auto simp: check_step_def)

section \<open>The host\<close>

datatype daemon = DNSDaemon | HTTPDaemon | MonitorDaemon

record 'v machine_ops =
  vm_Create :: "Instance \<Rightarrow> Paths \<Rightarrow> VMCreateOptions \<Rightarrow> 'v \<Rightarrow> 'v \<times> string option"
  vm_Start :: "string \<Rightarrow> 'v \<Rightarrow> 'v \<times> string option"
  vm_Stop :: "string \<Rightarrow> 'v \<Rightarrow> 'v \<times> string option"
  vm_ForceStop :: "string \<Rightarrow> 'v \<Rightarrow> 'v \<times> string option"
  vm_Remove :: "string \<Rightarrow> 'v \<Rightarrow> 'v \<times> string option"
  vm_Exists :: "string \<Rightarrow> 'v \<Rightarrow> bool"
  vm_IsRunning :: "string \<Rightarrow> 'v \<Rightarrow> bool"
  vm_GetUUID :: "string \<Rightarrow> 'v \<Rightarrow> string"
  vm_Redefine :: "Instance \<Rightarrow> Paths \<Rightarrow> VMCreateOptions \<Rightarrow> 'v \<Rightarrow> 'v \<times> string option"
  net_Create :: "Instance \<Rightarrow> 'v \<Rightarrow> 'v \<times> string option"
  net_Start :: "string \<Rightarrow> 'v \<Rightarrow> 'v \<times> string option"
  net_Delete :: "string \<Rightarrow> 'v \<Rightarrow> 'v \<times> string option"
  net_Exists :: "string \<Rightarrow> 'v \<Rightarrow> bool"
  net_IsActive :: "string \<Rightarrow> 'v \<Rightarrow> bool"
  disk_Create :: "Instance \<Rightarrow> Paths \<Rightarrow> 'v \<Rightarrow> 'v \<times> string option"
  disk_EnsureBaseImage :: "Instance \<Rightarrow> Paths \<Rightarrow> 'v \<Rightarrow> 'v \<times> string option"
  disk_EnsureAccess :: "Instance \<Rightarrow> Paths \<Rightarrow> 'v \<Rightarrow> 'v \<times> string option"
  tv_Validate :: "string \<Rightarrow> string option"
  mt_GuestDevice :: string

text \<open>The daemons and the rest of the host. \<open>ho_Status\<close> is one call for the port of a filter; \<open>ho_second\<close> lets a second pass and says whether the
  command was cancelled meanwhile; \<open>ho_cloudinit\<close> gets the certificate and the device of the monitor.\<close>

record 'v host_ops =
  ho_start :: "daemon \<Rightarrow> string \<Rightarrow> Paths \<Rightarrow> string \<Rightarrow> 'v \<Rightarrow> 'v \<times> string option"
  ho_stop :: "daemon \<Rightarrow> string \<Rightarrow> 'v \<Rightarrow> 'v"
  ho_client :: "daemon \<Rightarrow> string \<Rightarrow> 'v \<Rightarrow> 'v \<times> string option"
  ho_Status :: "daemon \<Rightarrow> string \<Rightarrow> 'v \<Rightarrow> 'v \<times> (string + int)"
  ho_tetragon :: "string \<Rightarrow> Paths \<Rightarrow> 'v \<Rightarrow> 'v \<times> string option"
  ho_cloudinit :: "Instance \<Rightarrow> Paths \<Rightarrow> string \<Rightarrow> string \<Rightarrow> 'v \<Rightarrow> 'v \<times> string option"
  ho_lock :: "'v \<Rightarrow> 'v \<times> string option"
  ho_unlock :: "'v \<Rightarrow> 'v"
  ho_second :: "'v \<Rightarrow> 'v \<times> bool"
  ho_CleanupForwards :: "string \<Rightarrow> 'v \<Rightarrow> 'v"
  ho_unlink :: "string \<Rightarrow> 'v \<Rightarrow> 'v"

record ('v, 'p, 't) life_env =
  li_C :: "('v, 't) config_env"
  li_be :: backend
  li_be_error :: "string option"
  li_M :: "'v machine_ops"
  li_H :: "'v host_ops"
  li_K :: "('v, 'p) controller option"

datatype life_error =
    LcNotFound | LcConfig config_error | LcLegacy | LcBackend string | LcLock string | LcNotRunning | LcNoEgress
  | LcNetCreate string | LcNetStart string | LcDaemon daemon string | LcClient daemon string | LcStatus daemon string | LcPortZero daemon
  | LcCACert os_error | LcNoMonitor | LcTetragon string | LcCloudInit string | LcTemplateFile os_error | LcTemplate string | LcRedefine string
  | LcDefine ctl_error | LcApply ctl_error | LcRecover daemon string | LcReassert life_error | LcAccess string | LcVMStart string
  | LcForceStop string | LcStop string | LcCancelled | LcConfirm | LcDelete config_error | LcRestartStop life_error | LcRestartStart life_error
  | LcDownStop life_error | LcDownRemove life_error

text \<open>A step on the host leaves the packet filters alone.\<close>

definition on_host :: "('x \<Rightarrow> life_error) \<Rightarrow> ('v \<Rightarrow> 'v \<times> 'x option) \<Rightarrow> 'v \<times> 'p \<Rightarrow> ('v \<times> 'p) \<times> (life_error + unit)" where
  "on_host wrap f s = (case f (fst s) of (v, e) \<Rightarrow> check_step wrap ((v, snd s), e))"

definition on_filters :: "(ctl_error \<Rightarrow> life_error) \<Rightarrow> ('v \<Rightarrow> 'p \<Rightarrow> 'p \<times> ctl_error option) \<Rightarrow> 'v \<times> 'p \<Rightarrow> ('v \<times> 'p) \<times> (life_error + unit)" where
  "on_filters wrap f s = (case f (fst s) (snd s) of (p, e) \<Rightarrow> check_step wrap ((fst s, p), e))"

section \<open>Loading an instance\<close>

definition LoadRequired :: "('v, 't) config_env \<Rightarrow> 'v \<Rightarrow> string \<Rightarrow> life_error + (Instance \<times> Paths)" where
  "LoadRequired C v name =
     (if \<not> Config_Exists C v name then Inl LcNotFound
      else (case Config_Load C v name of Inl e \<Rightarrow> Inl (LcConfig e) | Inr r \<Rightarrow> Inr r))"

definition LoadRunning :: "('v, 'p, 't) life_env \<Rightarrow> 'v \<Rightarrow> string \<Rightarrow> life_error + (Instance \<times> Paths)" where
  "LoadRunning X v name =
     (case LoadRequired (li_C X) v name of
        Inl e \<Rightarrow> Inl e
      | Inr r \<Rightarrow> if vm_IsRunning (li_M X) name v then Inr r else Inl LcNotRunning)"

definition RequireMigrated :: "proc_env \<Rightarrow> Instance \<Rightarrow> Paths \<Rightarrow> life_error option" where
  "RequireMigrated P inst paths = (if IsLegacyStorage P (i_StorageDir inst) paths then Some LcLegacy else None)"

text \<open>What \<open>start\<close> and \<open>remove\<close> check first.\<close>

definition load_checked :: "('v, 'p, 't) life_env \<Rightarrow> string \<Rightarrow> 'v \<Rightarrow> life_error + (Instance \<times> Paths)" where
  "load_checked X name v =
     (case LoadRequired (li_C X) v name of Inl e \<Rightarrow> Inl e | Inr (inst, paths) \<Rightarrow>
      case RequireMigrated (ce_P (li_C X)) inst paths of Some e \<Rightarrow> Inl e | None \<Rightarrow>
      case li_be_error X of Some e \<Rightarrow> Inl (LcBackend e) | None \<Rightarrow> Inr (inst, paths))"

definition ApplyFiltered :: "('v, 'p, 't) life_env \<Rightarrow> string \<Rightarrow> 'v \<times> 'p \<Rightarrow> ('v \<times> 'p) \<times> (life_error + unit)" where
  "ApplyFiltered X name s =
     (case LoadRunning X (fst s) name of Inl e \<Rightarrow> (s, Inl e) | Inr (inst, _) \<Rightarrow>
      case li_K X of None \<Rightarrow> (s, Inl LcNoEgress) | Some K \<Rightarrow>
      bind_step (on_filters LcDefine (ctl_Define K inst (BuildEgressPolicy inst)) s) (\<lambda>_ s.
      case ctl_Apply K inst (fst s) (snd s) of
        (p, None) \<Rightarrow> ((fst s, p), Inr ())
      | (p, Some e) \<Rightarrow> ((fst s, fst (ctl_Remove K inst (fst s) p)), Inl (LcApply e))))"

section \<open>Start\<close>

definition ensureNetwork :: "('v, 'p, 't) life_env \<Rightarrow> Instance \<Rightarrow> 'v \<times> 'p \<Rightarrow> ('v \<times> 'p) \<times> (life_error + unit)" where
  "ensureNetwork X inst s =
     bind_step (on_host LcLock (ho_lock (li_H X)) s) (\<lambda>_ s.
     (case bind_step (if \<not> net_Exists (li_M X) (i_Bridge inst) (fst s) then on_host LcNetCreate (net_Create (li_M X) inst) s else (s, Inr ())) (\<lambda>_ s.
           if \<not> net_IsActive (li_M X) (i_Bridge inst) (fst s) then on_host LcNetStart (net_Start (li_M X) (i_Bridge inst)) s else (s, Inr ())) of
        (s', r) \<Rightarrow> ((ho_unlock (li_H X) (fst s'), snd s'), r)))"

text \<open>The log level given to a daemon is part of its configuration; the monitor has none.\<close>

definition start_daemon :: "('v, 'p, 't) life_env \<Rightarrow> (daemon \<Rightarrow> string \<Rightarrow> life_error) \<Rightarrow> daemon \<Rightarrow> string \<Rightarrow> Instance \<Rightarrow> Paths \<Rightarrow> 'v \<times> 'p \<Rightarrow> ('v \<times> 'p) \<times> (life_error + unit)" where
  "start_daemon X wrap d name inst paths s =
     on_host (wrap d)
       (ho_start (li_H X) d name paths (case d of DNSDaemon \<Rightarrow> dc_LogLevel (i_DNS inst) | HTTPDaemon \<Rightarrow> hc_LogLevel (i_HTTP inst) | MonitorDaemon \<Rightarrow> [])) s"

fun retry :: "nat \<Rightarrow> ('v \<Rightarrow> 'v \<times> (string + int)) \<Rightarrow> 'v \<Rightarrow> 'v \<times> (string + int)" where
  "retry 0 f v = (v, Inl [])"
| "retry (Suc n) f v =
     (case f v of
        (v', Inr x) \<Rightarrow> (v', Inr x)
      | (v', Inl e) \<Rightarrow> if n = 0 then (v', Inl e) else retry n f v')"

text \<open>Asking a filter for its port, up to the given number of attempts; the port is recorded when it changed, and a failure to save it is only logged.\<close>

definition port_of :: "daemon \<Rightarrow> Instance \<Rightarrow> int" where
  "port_of d inst = (if d = DNSDaemon then dc_Port (i_DNS inst) else hc_Port (i_HTTP inst))"

definition with_port :: "daemon \<Rightarrow> int \<Rightarrow> Instance \<Rightarrow> Instance" where
  "with_port d port inst = (if d = DNSDaemon then set_ports inst port (hc_Port (i_HTTP inst)) else set_ports inst (dc_Port (i_DNS inst)) port)"

definition record_port :: "('v, 'p, 't) life_env \<Rightarrow> daemon \<Rightarrow> Paths \<Rightarrow> Instance \<Rightarrow> int \<Rightarrow> 'v \<Rightarrow> 'v \<times> (life_error + Instance)" where
  "record_port X d paths inst port v =
     (if port = 0 then (v, Inl (LcPortZero d))
      else if port = port_of d inst then (v, Inr inst)
      else (fst (Config_Save (li_C X) v (with_port d port inst) paths), Inr (with_port d port inst)))"

definition ask_port :: "('v, 'p, 't) life_env \<Rightarrow> daemon \<Rightarrow> nat \<Rightarrow> Paths \<Rightarrow> Instance \<Rightarrow> 'v \<Rightarrow> 'v \<times> (life_error + Instance)" where
  "ask_port X d attempts paths inst v =
     (case retry attempts (ho_Status (li_H X) d (i_Name inst)) v of
        (v', Inl e) \<Rightarrow> (v', Inl (LcStatus d e))
      | (v', Inr port) \<Rightarrow> record_port X d paths inst port v')"

definition resolve_port ::
  "('v, 'p, 't) life_env \<Rightarrow> daemon \<Rightarrow> nat \<Rightarrow> Paths \<Rightarrow> Instance \<Rightarrow> 'v \<times> 'p \<Rightarrow> ('v \<times> 'p) \<times> (life_error + Instance)" where
  "resolve_port X d attempts paths inst s =
     bind_step (on_host (LcClient d) (ho_client (li_H X) d (i_Name inst)) s) (\<lambda>_ s.
     (case ask_port X d attempts paths inst (fst s) of (v, r) \<Rightarrow> ((v, snd s), r)))"

definition setupDNSResources :: "('v, 'p, 't) life_env \<Rightarrow> Paths \<Rightarrow> Instance \<Rightarrow> 'v \<times> 'p \<Rightarrow> ('v \<times> 'p) \<times> (life_error + Instance)" where
  "setupDNSResources X = resolve_port X DNSDaemon 10"

definition resolveHTTPPort :: "('v, 'p, 't) life_env \<Rightarrow> Paths \<Rightarrow> Instance \<Rightarrow> 'v \<times> 'p \<Rightarrow> ('v \<times> 'p) \<times> (life_error + Instance)" where
  "resolveHTTPPort X = resolve_port X HTTPDaemon 15"

definition generateCloudInit :: "('v, 'p, 't) life_env \<Rightarrow> Instance \<Rightarrow> Paths \<Rightarrow> 'v \<times> 'p \<Rightarrow> ('v \<times> 'p) \<times> (life_error + unit)" where
  "generateCloudInit X inst paths s =
     (case (case ReadFile (ce_F (li_C X)) (fst s) (p_CACert paths) of
              Inr c \<Rightarrow> Inr (TrimSpace c)
            | Inl e \<Rightarrow> if e = os_error.ErrNotExist then Inr [] else Inl (LcCACert e)) of
        Inl e \<Rightarrow> (s, Inl e)
      | Inr caCert \<Rightarrow>
          if mon_Enabled (i_Monitor inst) \<and> \<not> be_hasMonitor (li_be X) then (s, Inl LcNoMonitor)
          else bind_step (if mon_Enabled (i_Monitor inst) then on_host LcTetragon (ho_tetragon (li_H X) (mon_Version (i_Monitor inst)) paths) s else (s, Inr ())) (\<lambda>_ s.
               on_host LcCloudInit (ho_cloudinit (li_H X) inst paths caCert (if be_hasMonitor (li_be X) then mt_GuestDevice (li_M X) else [])) s))"

definition HasCustomTemplate :: "Instance \<Rightarrow> bool" where
  "HasCustomTemplate inst = fst (BackendBool (Some inst) BackendKeyCustomTemplate)"

definition LoadCustomTemplate :: "'v FileSystem \<Rightarrow> 'v \<Rightarrow> Paths \<Rightarrow> os_error + string" where
  "LoadCustomTemplate F v paths = ReadFile F v (templatePath paths)"

definition redefineVM :: "('v, 'p, 't) life_env \<Rightarrow> Instance \<Rightarrow> Paths \<Rightarrow> 'v \<times> 'p \<Rightarrow> ('v \<times> 'p) \<times> (life_error + unit)" where
  "redefineVM X inst paths s =
     (let opts = \<lparr>vo_AssumeCloudInitExists = False, vo_MonitorEnabled = mon_Enabled (i_Monitor inst),
                  vo_UUID = vm_GetUUID (li_M X) (i_Name inst) (fst s), vo_CustomTemplate = []\<rparr> in
      case (if be_hasTemplates (li_be X) \<and> HasCustomTemplate inst then
              (case LoadCustomTemplate (ce_F (li_C X)) (fst s) paths of
                 Inl e \<Rightarrow> Inl (LcTemplateFile e)
               | Inr content \<Rightarrow> (case tv_Validate (li_M X) content of Some e \<Rightarrow> Inl (LcTemplate e) | None \<Rightarrow> Inr (opts\<lparr>vo_CustomTemplate := content\<rparr>)))
            else Inr opts) of
        Inl e \<Rightarrow> (s, Inl e)
      | Inr opts' \<Rightarrow> on_host LcRedefine (vm_Redefine (li_M X) inst paths opts') s)"

definition define_egress :: "('v, 'p, 't) life_env \<Rightarrow> Instance \<Rightarrow> 'v \<times> 'p \<Rightarrow> ('v \<times> 'p) \<times> (life_error + unit)" where
  "define_egress X inst s =
     (case li_K X of None \<Rightarrow> (s, Inr ()) | Some K \<Rightarrow> on_filters LcDefine (ctl_Define K inst (BuildEgressPolicy inst)) s)"

definition setupHTTPResources :: "('v, 'p, 't) life_env \<Rightarrow> Paths \<Rightarrow> Instance \<Rightarrow> 'v \<times> 'p \<Rightarrow> ('v \<times> 'p) \<times> (life_error + Instance)" where
  "setupHTTPResources X paths inst s =
     bind_step (resolveHTTPPort X paths inst s) (\<lambda>inst s.
     bind_step (generateCloudInit X inst paths s) (\<lambda>_ s.
     bind_step (redefineVM X inst paths s) (\<lambda>_ s.
     bind_step (define_egress X inst s) (\<lambda>_ s. (s, Inr inst)))))"

definition startFilters :: "('v, 'p, 't) life_env \<Rightarrow> string \<Rightarrow> Paths \<Rightarrow> Instance \<Rightarrow> 'v \<times> 'p \<Rightarrow> ('v \<times> 'p) \<times> (life_error + Instance)" where
  "startFilters X name paths inst s =
     bind_step (start_daemon X LcDaemon DNSDaemon name inst paths s) (\<lambda>_ s.
     bind_step (setupDNSResources X paths inst s) (\<lambda>inst s.
     bind_step (start_daemon X LcDaemon HTTPDaemon name inst paths s) (\<lambda>_ s.
     setupHTTPResources X paths inst s)))"

definition failClosedStopVM :: "('v, 'p, 't) life_env \<Rightarrow> string \<Rightarrow> 'v \<times> 'p \<Rightarrow> 'v \<times> 'p" where
  "failClosedStopVM X name s = (fst (vm_ForceStop (li_M X) name (fst s)), snd s)"

definition startVMAndApplyFilter :: "('v, 'p, 't) life_env \<Rightarrow> string \<Rightarrow> Paths \<Rightarrow> Instance \<Rightarrow> 'v \<times> 'p \<Rightarrow> ('v \<times> 'p) \<times> (life_error + unit)" where
  "startVMAndApplyFilter X name paths inst s =
     bind_step (if mon_Enabled (i_Monitor inst) then start_daemon X LcDaemon MonitorDaemon name inst paths s else (s, Inr ())) (\<lambda>_ s.
     bind_step (on_host LcAccess (disk_EnsureAccess (li_M X) inst paths) s) (\<lambda>_ s.
     bind_step (on_host LcVMStart (vm_Start (li_M X) name) s) (\<lambda>_ s.
     (case li_K X of None \<Rightarrow> (s, Inr ()) | Some K \<Rightarrow>
      (case ctl_Apply K inst (fst s) (snd s) of
         (p, None) \<Rightarrow> ((fst s, p), Inr ())
       | (p, Some e) \<Rightarrow> (failClosedStopVM X name (fst s, p), Inl (LcApply e)))))))"

definition recoverDaemons :: "('v, 'p, 't) life_env \<Rightarrow> string \<Rightarrow> Paths \<Rightarrow> Instance \<Rightarrow> 'v \<times> 'p \<Rightarrow> ('v \<times> 'p) \<times> (life_error + unit)" where
  "recoverDaemons X name paths inst s =
     bind_step (start_daemon X LcRecover DNSDaemon name inst paths s) (\<lambda>_ s.
     bind_step (start_daemon X LcRecover HTTPDaemon name inst paths s) (\<lambda>_ s.
     bind_step (if mon_Enabled (i_Monitor inst) then start_daemon X LcRecover MonitorDaemon name inst paths s else (s, Inr ())) (\<lambda>_ s.
     (case li_K X of None \<Rightarrow> (s, Inr ()) | Some _ \<Rightarrow>
      (case ApplyFiltered X name s of (s', Inl e) \<Rightarrow> (s', Inl (LcReassert e)) | (s', Inr u) \<Rightarrow> (s', Inr u))))))"

definition runStart :: "('v, 'p, 't) life_env \<Rightarrow> string \<Rightarrow> 'v \<times> 'p \<Rightarrow> ('v \<times> 'p) \<times> (life_error + unit)" where
  "runStart X name s =
     (case load_checked X name (fst s) of Inl e \<Rightarrow> (s, Inl e) | Inr (inst, paths) \<Rightarrow>
      if vm_IsRunning (li_M X) name (fst s) then recoverDaemons X name paths inst s
      else bind_step (ensureNetwork X inst s) (\<lambda>_ s.
           bind_step (startFilters X name paths inst s) (\<lambda>inst s. startVMAndApplyFilter X name paths inst s)))"

section \<open>Stop\<close>

fun wait_stopped :: "('v, 'p, 't) life_env \<Rightarrow> string \<Rightarrow> nat \<Rightarrow> 'v \<Rightarrow> 'v \<times> bool" where
  "wait_stopped X name 0 v = (v, False)"
| "wait_stopped X name (Suc n) v =
     (case ho_second (li_H X) v of
        (v', True) \<Rightarrow> (v', True)
      | (v', False) \<Rightarrow> if \<not> vm_IsRunning (li_M X) name v' then (v', False) else wait_stopped X name n v')"

definition force_stop :: "('v, 'p, 't) life_env \<Rightarrow> string \<Rightarrow> 'v \<times> 'p \<Rightarrow> ('v \<times> 'p) \<times> (life_error + unit)" where
  "force_stop X name s = on_host LcForceStop (vm_ForceStop (li_M X) name) s"

definition gracefulStop :: "('v, 'p, 't) life_env \<Rightarrow> string \<Rightarrow> 'v \<times> 'p \<Rightarrow> ('v \<times> 'p) \<times> (life_error + unit)" where
  "gracefulStop X name s =
     bind_step (on_host LcStop (vm_Stop (li_M X) name) s) (\<lambda>_ s.
     (case wait_stopped X name 60 (fst s) of
        (v, True) \<Rightarrow> ((v, snd s), Inl LcCancelled)
      | (v, False) \<Rightarrow> if vm_IsRunning (li_M X) name v then force_stop X name (v, snd s) else ((v, snd s), Inr ())))"

definition stopVM :: "('v, 'p, 't) life_env \<Rightarrow> string \<Rightarrow> bool \<Rightarrow> 'v \<times> 'p \<Rightarrow> ('v \<times> 'p) \<times> (life_error + unit)" where
  "stopVM X name force s = (if force then force_stop X name s else gracefulStop X name s)"

definition remove_egress :: "('v, 'p, 't) life_env \<Rightarrow> Instance \<Rightarrow> 'v \<times> 'p \<Rightarrow> 'v \<times> 'p" where
  "remove_egress X inst s = (case li_K X of None \<Rightarrow> s | Some K \<Rightarrow> (fst s, fst (ctl_Remove K inst (fst s) (snd s))))"

definition cleanupAfterStop :: "('v, 'p, 't) life_env \<Rightarrow> string \<Rightarrow> Instance \<Rightarrow> 'v \<times> 'p \<Rightarrow> 'v \<times> 'p" where
  "cleanupAfterStop X name inst s =
     (let s1 = remove_egress X inst s;
          v2 = (if mon_Enabled (i_Monitor inst) then ho_stop (li_H X) MonitorDaemon name (fst s1) else fst s1) in
      (ho_stop (li_H X) DNSDaemon name (ho_stop (li_H X) HTTPDaemon name v2), snd s1))"

definition runStop :: "('v, 'p, 't) life_env \<Rightarrow> string \<Rightarrow> bool \<Rightarrow> 'v \<times> 'p \<Rightarrow> ('v \<times> 'p) \<times> (life_error + unit)" where
  "runStop X name force s =
     (case LoadRequired (li_C X) (fst s) name of Inl e \<Rightarrow> (s, Inl e) | Inr (inst, _) \<Rightarrow>
      case li_be_error X of Some e \<Rightarrow> (s, Inl (LcBackend e)) | None \<Rightarrow>
      if \<not> vm_IsRunning (li_M X) name (fst s) then (s, Inr ())
      else bind_step (stopVM X name force s) (\<lambda>_ s. (cleanupAfterStop X name inst s, Inr ())))"

definition wrap_error :: "('e \<Rightarrow> 'f) \<Rightarrow> 's \<times> ('e + 'a) \<Rightarrow> 's \<times> ('f + 'a)" where
  "wrap_error w r = (case r of (s, Inl e) \<Rightarrow> (s, Inl (w e)) | (s, Inr a) \<Rightarrow> (s, Inr a))"

definition runRestart :: "('v, 'p, 't) life_env \<Rightarrow> string \<Rightarrow> bool \<Rightarrow> 'v \<times> 'p \<Rightarrow> ('v \<times> 'p) \<times> (life_error + unit)" where
  "runRestart X name force s =
     bind_step (wrap_error LcRestartStop (runStop X name force s)) (\<lambda>_ s. wrap_error LcRestartStart (runStart X name s))"

section \<open>Remove\<close>

definition stopServices :: "('v, 'p, 't) life_env \<Rightarrow> string \<Rightarrow> Paths \<Rightarrow> bool \<Rightarrow> 'v \<Rightarrow> 'v" where
  "stopServices X name paths skipDaemonStop v =
     (let v1 = ho_CleanupForwards (li_H X) (p_Instance paths) v in
      if skipDaemonStop then v1
      else ho_stop (li_H X) HTTPDaemon name (ho_stop (li_H X) DNSDaemon name (ho_stop (li_H X) MonitorDaemon name v1)))"

definition cleanupBackendResources :: "('v, 'p, 't) life_env \<Rightarrow> string \<Rightarrow> Instance \<Rightarrow> 'v \<times> 'p \<Rightarrow> 'v \<times> 'p" where
  "cleanupBackendResources X name inst s =
     (let s1 = (if vm_Exists (li_M X) name (fst s) then (fst (vm_Remove (li_M X) name (fst s)), snd s) else s);
          s2 = remove_egress X inst s1 in
      if net_Exists (li_M X) (i_Bridge inst) (fst s2) then (fst (net_Delete (li_M X) (i_Bridge inst) (fst s2)), snd s2) else s2)"

definition RemoveDiskDir :: "'v FileSystem \<Rightarrow> Paths \<Rightarrow> 'v \<Rightarrow> 'v \<times> os_error option" where
  "RemoveDiskDir F paths v = RemoveAll F v (p_DiskDir paths)"

definition deleteDiskDirectory :: "'v FileSystem \<Rightarrow> Paths \<Rightarrow> 'v \<Rightarrow> 'v" where
  "deleteDiskDirectory F paths v = (if p_DiskDir paths = [] then v else fst (RemoveDiskDir F paths v))"

text \<open>\<open>order\<close> is the order in which the table of runtime files is traversed.\<close>

definition removeSocketFiles :: "('v, 'p, 't) life_env \<Rightarrow> (string list \<Rightarrow> string list) \<Rightarrow> Paths \<Rightarrow> 'v \<Rightarrow> 'v" where
  "removeSocketFiles X order paths v =
     fold (\<lambda>f v. if f = [] then v else ho_unlink (li_H X) f v)
       (order [p_DNSSocket paths, p_DNSPIDFile paths, p_HTTPSocket paths, p_HTTPPIDFile paths, p_MonitorRPCSocket paths, p_MonitorPIDFile paths]) v"

text \<open>\<open>confirm\<close> is the answer to the question, which is asked unless the removal is forced; without a terminal it is no.\<close>

definition runRemove ::
  "('v, 'p, 't) life_env \<Rightarrow> (string list \<Rightarrow> string list) \<Rightarrow> string \<Rightarrow> bool \<Rightarrow> bool \<Rightarrow> bool \<Rightarrow> 'v \<times> 'p \<Rightarrow> ('v \<times> 'p) \<times> (life_error + unit)" where
  "runRemove X order name force confirm skipDaemonStop s =
     (case load_checked X name (fst s) of Inl e \<Rightarrow> (s, Inl e) | Inr (inst, paths) \<Rightarrow>
      if \<not> force \<and> \<not> confirm then (s, Inl LcConfirm)
      else bind_step (on_host LcLock (ho_lock (li_H X)) s) (\<lambda>_ s.
           (let s1 = cleanupBackendResources X name inst (stopServices X name paths skipDaemonStop (fst s), snd s) in
            case Config_Delete (li_C X) (fst s1) name of
              (v, Some e) \<Rightarrow> ((ho_unlock (li_H X) v, snd s1), Inl (LcDelete e))
            | (v, None) \<Rightarrow> ((ho_unlock (li_H X) (removeSocketFiles X order paths (deleteDiskDirectory (ce_F (li_C X)) paths v)), snd s1), Inr ()))))"

definition doDown :: "('v, 'p, 't) life_env \<Rightarrow> (string list \<Rightarrow> string list) \<Rightarrow> string \<Rightarrow> bool \<Rightarrow> 'v \<times> 'p \<Rightarrow> ('v \<times> 'p) \<times> (life_error + unit)" where
  "doDown X order name rm s =
     bind_step (wrap_error LcDownStop (runStop X name False s)) (\<lambda>_ s.
     if rm then wrap_error LcDownRemove (runRemove X order name True False True s) else (s, Inr ()))"

text \<open>The commands take several names and go on after a failure.\<close>

fun ForEach :: "('n \<Rightarrow> 's \<Rightarrow> 's \<times> ('e + unit)) \<Rightarrow> 'n list \<Rightarrow> 's \<Rightarrow> 's \<times> ('n \<times> 'e) list" where
  "ForEach f [] s = (s, [])"
| "ForEach f (name # names) s =
     (case f name s of (s1, r) \<Rightarrow> (case ForEach f names s1 of (s2, errs) \<Rightarrow> (s2, (case r of Inl e \<Rightarrow> (name, e) # errs | Inr _ \<Rightarrow> errs))))"

section \<open>Properties that steps keep\<close>

definition stays :: "('s \<Rightarrow> bool) \<Rightarrow> ('s \<Rightarrow> 's \<times> 'r) \<Rightarrow> bool" where
  "stays P f \<longleftrightarrow> (\<forall>s. P s \<longrightarrow> P (fst (f s)))"

named_theorems keeping

lemma stays_bind [keeping]: "stays P f \<Longrightarrow> (\<And>a. stays P (g a)) \<Longrightarrow> stays P (\<lambda>s. bind_step (f s) g)"
  unfolding stays_def
proof (intro allI impI)
  fix s
  assume f: "\<forall>s. P s \<longrightarrow> P (fst (f s))" and g: "\<And>a. \<forall>s. P s \<longrightarrow> P (fst (g a s))" and "P s"
  then show "P (fst (bind_step (f s) g))" by (cases "f s"; cases "snd (f s)") (fastforce dest: spec [of _ s])+
qed

lemma stays_return [keeping]: "stays P (\<lambda>s. (s, r s))"
  by (simp add: stays_def)

lemma stays_if [keeping]: "stays P f \<Longrightarrow> stays P g \<Longrightarrow> stays P (\<lambda>s. if c s then f s else g s)"
  by (simp add: stays_def)

lemma stays_sum_case [keeping]:
  "(\<And>e. stays P (f e)) \<Longrightarrow> (\<And>x. stays P (g x)) \<Longrightarrow> stays P (\<lambda>s. case c s of Inl e \<Rightarrow> f e s | Inr x \<Rightarrow> g x s)"
  by (simp add: stays_def split: sum.splits)

lemma stays_let [keeping]: "(\<And>x. stays P (f x)) \<Longrightarrow> stays P (\<lambda>s. let x = c s in f x s)"
  by (simp add: stays_def)

lemma stays_wrap [keeping]: "stays P f \<Longrightarrow> stays P (\<lambda>s. wrap_error w (f s))"
  by (auto simp: stays_def wrap_error_def split: prod.splits sum.splits)

lemma stays_on_host [keeping]: "(\<And>v p. P (v, p) \<Longrightarrow> P (fst (f v), p)) \<Longrightarrow> stays P (on_host w f)"
  unfolding stays_def on_host_def by (simp add: split_beta)

text \<open>What is relied on of a backend and of the host: only \<open>vm_Start\<close> makes a guest run, and one that was forced to stop does not run.\<close>

definition keeps_off :: "('v, 'p, 't) life_env \<Rightarrow> string \<Rightarrow> ('v \<Rightarrow> 'v) \<Rightarrow> bool" where
  "keeps_off X name f \<longleftrightarrow> (\<forall>v. \<not> vm_IsRunning (li_M X) name v \<longrightarrow> \<not> vm_IsRunning (li_M X) name (f v))"

locale quiet_host =
  fixes X :: "('v, 'p, 't) life_env" and name :: string
  assumes quiet_net: "keeps_off X name (\<lambda>v. fst (net_Create (li_M X) inst v))" "keeps_off X name (\<lambda>v. fst (net_Start (li_M X) b v))"
    and quiet_vm: "keeps_off X name (\<lambda>v. fst (vm_Redefine (li_M X) inst paths opts v))" "keeps_off X name (\<lambda>v. fst (disk_EnsureAccess (li_M X) inst paths v))"
      "keeps_off X name (\<lambda>v. fst (vm_ForceStop (li_M X) name v))"
    and quiet_daemons: "keeps_off X name (\<lambda>v. fst (ho_start (li_H X) d n paths l v))" "keeps_off X name (ho_stop (li_H X) d n)"
      "keeps_off X name (\<lambda>v. fst (ho_client (li_H X) d n v))" "keeps_off X name (\<lambda>v. fst (ho_Status (li_H X) d n v))"
    and quiet_files: "keeps_off X name (\<lambda>v. fst (ho_tetragon (li_H X) ver paths v))" "keeps_off X name (\<lambda>v. fst (ho_cloudinit (li_H X) inst paths c g v))"
      "keeps_off X name (\<lambda>v. fst (WriteFile (ce_F (li_C X)) v f data m))"
    and quiet_lock: "keeps_off X name (\<lambda>v. fst (ho_lock (li_H X) v))" "keeps_off X name (ho_unlock (li_H X))"
    and force_stops: "vm_ForceStop (li_M X) name v = (v', None) \<Longrightarrow> \<not> vm_IsRunning (li_M X) name v'"
begin

abbreviation off :: "'v \<times> 'p \<Rightarrow> bool" where
  "off s \<equiv> \<not> vm_IsRunning (li_M X) name (fst s)"

lemma stays_off [keeping]: "keeps_off X name (\<lambda>v. fst (f v)) \<Longrightarrow> stays off (on_host w f)"
  by (rule stays_on_host) (simp add: keeps_off_def)

lemma off_fst: "keeps_off X name (\<lambda>v. fst (f v)) \<Longrightarrow> f v = (v', r) \<Longrightarrow> \<not> vm_IsRunning (li_M X) name v \<Longrightarrow> \<not> vm_IsRunning (li_M X) name v'"
  unfolding keeps_off_def by (metis fst_conv)

lemma retry_off: "keeps_off X name (\<lambda>v. fst (f v)) \<Longrightarrow> keeps_off X name (\<lambda>v. fst (retry n f v))"
proof -
  assume f: "keeps_off X name (\<lambda>v. fst (f v))"
  have "\<not> vm_IsRunning (li_M X) name (fst (retry n f v))" if "\<not> vm_IsRunning (li_M X) name v" for v
    using that
  proof (induction n arbitrary: v)
    case (Suc n)
    then show ?case using off_fst [OF f] by (auto split: prod.splits sum.splits)
  qed simp
  then show ?thesis by (simp add: keeps_off_def)
qed

lemma Config_Save_off: "keeps_off X name (\<lambda>v. fst (Config_Save (li_C X) v inst paths))"
  using off_fst [OF quiet_files(3)] by (auto simp: keeps_off_def Config_Save_def split: option.splits prod.splits)

lemma ask_port_off: "keeps_off X name (\<lambda>v. fst (ask_port X d n paths inst v))"
proof -
  have "\<not> vm_IsRunning (li_M X) name (fst (record_port X d paths inst port v))" if "\<not> vm_IsRunning (li_M X) name v" for port v
    using that Config_Save_off by (auto simp: record_port_def keeps_off_def)
  then show ?thesis
    using off_fst [OF retry_off [OF quiet_daemons(4)]] by (auto simp: keeps_off_def ask_port_def split: prod.splits sum.splits)
qed

lemma resolve_port_off [keeping]: "stays off (resolve_port X d n paths inst)"
proof -
  have "stays off (\<lambda>s. case ask_port X d n paths inst (fst s) of (v, r) \<Rightarrow> ((v, snd s), r))"
    using off_fst [OF ask_port_off] by (auto simp: stays_def split: prod.splits)
  then show ?thesis unfolding resolve_port_def by (intro keeping quiet_daemons)
qed

lemma start_daemon_off [keeping]: "stays off (start_daemon X w d n inst paths)"
  unfolding start_daemon_def by (intro keeping quiet_daemons)

lemma generateCloudInit_off [keeping]: "stays off (generateCloudInit X inst paths)"
  unfolding generateCloudInit_def by (intro keeping quiet_files)

lemma redefineVM_off [keeping]: "stays off (redefineVM X inst paths)"
  unfolding redefineVM_def by (intro keeping quiet_vm)

lemma define_egress_off [keeping]: "stays off (define_egress X inst)"
  by (auto simp: stays_def define_egress_def on_filters_def split: option.splits prod.splits)

lemma startFilters_off [keeping]: "stays off (startFilters X n paths inst)"
  unfolding startFilters_def setupDNSResources_def setupHTTPResources_def resolveHTTPPort_def by (intro keeping)

lemma ensureNetwork_off [keeping]: "stays off (ensureNetwork X inst)"
proof -
  let ?net = "\<lambda>s. bind_step (if \<not> net_Exists (li_M X) (i_Bridge inst) (fst s) then on_host LcNetCreate (net_Create (li_M X) inst) s else (s, Inr ())) (\<lambda>_ s.
           if \<not> net_IsActive (li_M X) (i_Bridge inst) (fst s) then on_host LcNetStart (net_Start (li_M X) (i_Bridge inst)) s else (s, Inr ()))"
  have "stays off ?net" by (intro keeping quiet_net)
  then have "stays off (\<lambda>s. case ?net s of (s', r) \<Rightarrow> ((ho_unlock (li_H X) (fst s'), snd s'), r))"
    using quiet_lock(2) by (simp add: stays_def keeps_off_def split_beta)
  then show ?thesis unfolding ensureNetwork_def by (intro keeping quiet_lock)
qed

text \<open>A stop that leaves the guest running leaves its rules alone.\<close>

lemma stop_keeps_rules:
  assumes "runStop X name force s = (s', r)" and "vm_IsRunning (li_M X) name (fst s')"
  shows "snd s' = snd s"
proof (cases "\<exists>inst paths. LoadRequired (li_C X) (fst s) name = Inr (inst, paths) \<and> li_be_error X = None \<and> vm_IsRunning (li_M X) name (fst s)")
  case False
  then show ?thesis using assms(1) by (auto simp: runStop_def split: sum.splits option.splits if_splits)
next
  case True
  then obtain inst paths where t: "bind_step (stopVM X name force s) (\<lambda>_ s. (cleanupAfterStop X name inst s, Inr ())) = (s', r)"
    using assms(1) by (auto simp: runStop_def)
  obtain s1 r1 where s1: "stopVM X name force s = (s1, r1)" by (meson surj_pair)
  have "snd s1 = snd s"
    using s1 by (auto simp: stopVM_def force_stop_def gracefulStop_def on_host_def check_step_def split: if_splits prod.splits option.splits bool.splits
      elim!: bind_step.elims)
  moreover have False if "r1 = Inr u" for u
  proof -
    have "off s1" using s1 that force_stops
      by (auto simp: stopVM_def force_stop_def gracefulStop_def on_host_def check_step_Inr bind_step_Inr split: if_splits prod.splits bool.splits)
    then have "off (cleanupAfterStop X name inst s1)"
      using quiet_daemons(2) by (auto simp: cleanupAfterStop_def remove_egress_def Let_def keeps_off_def split: option.splits)
    then show False using t s1 that assms(2) by auto
  qed
  ultimately show ?thesis using t s1 by (cases r1) auto
qed

end

section \<open>The filters during a start\<close>

text \<open>No step before the definition of the policy touches the packet filters.\<close>

lemma on_host_filters [keeping]: "stays (\<lambda>s. snd s = p) (on_host w f)"
  by (rule stays_on_host) simp

lemma resolve_port_filters [keeping]: "stays (\<lambda>s. snd s = p) (resolve_port X d n paths inst)"
  unfolding resolve_port_def by (intro keeping) (simp add: stays_def split_beta)

lemma start_daemon_filters [keeping]: "stays (\<lambda>s. snd s = p) (start_daemon X w d n inst paths)"
  unfolding start_daemon_def by (intro keeping)

lemma generateCloudInit_filters [keeping]: "stays (\<lambda>s. snd s = p) (generateCloudInit X inst paths)"
  unfolding generateCloudInit_def by (intro keeping)

lemma redefineVM_filters [keeping]: "stays (\<lambda>s. snd s = p) (redefineVM X inst paths)"
  unfolding redefineVM_def by (intro keeping)

lemma ensureNetwork_filters [keeping]: "stays (\<lambda>s. snd s = p) (ensureNetwork X inst)"
proof -
  let ?net = "\<lambda>s. bind_step (if \<not> net_Exists (li_M X) (i_Bridge inst) (fst s) then on_host LcNetCreate (net_Create (li_M X) inst) s else (s, Inr ())) (\<lambda>_ s.
           if \<not> net_IsActive (li_M X) (i_Bridge inst) (fst s) then on_host LcNetStart (net_Start (li_M X) (i_Bridge inst)) s else (s, Inr ()))"
  have "stays (\<lambda>s. snd s = p) ?net" by (intro keeping)
  then have "stays (\<lambda>s. snd s = p) (\<lambda>s. case ?net s of (s', r) \<Rightarrow> ((ho_unlock (li_H X) (fst s'), snd s'), r))" by (simp add: stays_def split_beta)
  then show ?thesis unfolding ensureNetwork_def by (intro keeping)
qed

lemma stays_result: "stays (\<lambda>s. snd s = p) f \<Longrightarrow> f s = (s', r) \<Longrightarrow> snd s = p \<Longrightarrow> snd s' = p"
  unfolding stays_def by (metis fst_conv)

text \<open>A port that the filter has reported.\<close>

definition reported :: "('v, 'p, 't) life_env \<Rightarrow> daemon \<Rightarrow> string \<Rightarrow> int \<Rightarrow> bool" where
  "reported X d name port \<longleftrightarrow> (\<exists>v v'. ho_Status (li_H X) d name v = (v', Inr port))"

lemma retry_Inr: "retry n f v = (v', Inr x) \<Longrightarrow> \<exists>u u'. f u = (u', Inr x)"
  by (induction n arbitrary: v) (auto split: prod.splits sum.splits if_splits)

lemma with_port_id: "with_port d (port_of d inst) inst = inst"
  by (simp add: with_port_def port_of_def set_ports_def)

lemma record_port_inst: "record_port X d paths inst port v = (v', Inr inst') \<Longrightarrow> inst' = with_port d port inst"
  by (auto simp: record_port_def with_port_id split: if_splits)

lemma ask_port_inst: "ask_port X d n paths inst v = (v', Inr inst') \<Longrightarrow> \<exists>port. inst' = with_port d port inst \<and> reported X d (i_Name inst) port"
  using record_port_inst retry_Inr unfolding reported_def by (fastforce simp: ask_port_def split: prod.splits sum.splits)

lemma resolve_port_inst:
  assumes "resolve_port X d n paths inst s = (s', Inr inst')"
  shows "\<exists>port. inst' = with_port d port inst \<and> reported X d (i_Name inst) port"
proof -
  obtain s1 where "(case ask_port X d n paths inst (fst s1) of (v, r) \<Rightarrow> ((v, snd s1), r)) = (s', Inr inst')"
    using assms by (auto simp: resolve_port_def bind_step_Inr)
  then show ?thesis by (intro ask_port_inst [of X d n paths inst "fst s1" "fst s'"]) (auto split: prod.splits)
qed

lemma startFilters_defines:
  assumes "startFilters X n paths inst s = (s', Inr inst')" and "li_K X = Some K"
  obtains d h v where "inst' = set_ports inst d h" "reported X DNSDaemon (i_Name inst) d" "reported X HTTPDaemon (i_Name inst) h" "ctl_Define K inst' (BuildEgressPolicy inst') v (snd s) = (snd s', None)"
proof -
  let ?same = "\<lambda>x. snd x = snd s"
  obtain s1 u1 s2 i2 s3 u3 s4 s5 u5 s6 u6 s7 u7 where
    1: "start_daemon X LcDaemon DNSDaemon n inst paths s = (s1, Inr u1)" and
    2: "resolve_port X DNSDaemon 10 paths inst s1 = (s2, Inr i2)" and
    3: "start_daemon X LcDaemon HTTPDaemon n i2 paths s2 = (s3, Inr u3)" and
    4: "resolve_port X HTTPDaemon 15 paths i2 s3 = (s4, Inr inst')" and
    5: "generateCloudInit X inst' paths s4 = (s5, Inr u5)" and
    6: "redefineVM X inst' paths s5 = (s6, Inr u6)" and
    7: "define_egress X inst' s6 = (s', Inr u7)"
    using assms(1) by (auto simp: startFilters_def setupDNSResources_def setupHTTPResources_def resolveHTTPPort_def bind_step_Inr)
  have "?same s1" by (rule stays_result [OF start_daemon_filters 1]) simp
  then have "?same s2" by (rule stays_result [OF resolve_port_filters 2])
  then have "?same s3" by (rule stays_result [OF start_daemon_filters 3])
  then have "?same s4" by (rule stays_result [OF resolve_port_filters 4])
  then have "?same s5" by (rule stays_result [OF generateCloudInit_filters 5])
  then have "?same s6" by (rule stays_result [OF redefineVM_filters 6])
  then have "ctl_Define K inst' (BuildEgressPolicy inst') (fst s6) (snd s) = (snd s', None)"
    using 7 assms(2) by (auto simp: define_egress_def on_filters_def check_step_Inr split: prod.splits)
  moreover obtain d h where "inst' = set_ports inst d h" "reported X DNSDaemon (i_Name inst) d" "reported X HTTPDaemon (i_Name inst) h"
    using resolve_port_inst [OF 2] resolve_port_inst [OF 4] by (auto simp: with_port_def)
  ultimately show ?thesis using that by blast
qed

section \<open>A guest never starts without its rules\<close>

text \<open>A host on which only a start makes guests run, and whose controller confines them.\<close>

locale guarded_host = quiet_host X name + confining K inv okay confined enforced
  for X :: "('v, 'p, 't) life_env" and name :: string and K :: "('v, 'p) controller" and inv okay confined enforced +
  assumes controller: "li_K X = Some K"
begin

lemma startVM_confined:
  assumes "inv (snd s)" "okay inst" "confined inst (snd s)" and "startVMAndApplyFilter X n paths inst s = (s', r)"
  shows "confined inst (snd s')" and "r = Inr () \<Longrightarrow> enforced inst (fst s') (snd s')"
proof -
  let ?f = "\<lambda>s. if mon_Enabled (i_Monitor inst) then start_daemon X LcDaemon MonitorDaemon n inst paths s else (s, Inr ())"
  let ?g = "\<lambda>s. bind_step (?f s) (\<lambda>_ s. bind_step (on_host LcAccess (disk_EnsureAccess (li_M X) inst paths) s) (\<lambda>_. on_host LcVMStart (vm_Start (li_M X) n)))"
  obtain s1 r1 where g: "?g s = (s1, r1)" by (meson surj_pair)
  have "stays (\<lambda>x. snd x = snd s) ?g" by (intro keeping)
  then have p: "snd s1 = snd s" using g unfolding stays_def by (metis fst_conv)
  have b: "startVMAndApplyFilter X n paths inst s = bind_step (s1, r1) (\<lambda>_ s. case ctl_Apply K inst (fst s) (snd s) of
         (p, None) \<Rightarrow> ((fst s, p), Inr ()) | (p, Some e) \<Rightarrow> (failClosedStopVM X n (fst s, p), Inl (LcApply e)))"
    unfolding g [symmetric] bind_step_assoc startVMAndApplyFilter_def controller option.case ..
  obtain p' e where a: "ctl_Apply K inst (fst s1) (snd s) = (p', e)" by (meson surj_pair)
  have c: "confined inst p'" using apply_confines [OF assms(1-3), of "fst s1"] a by simp
  show "confined inst (snd s')"
    using assms(3,4) b p a c by (cases r1; cases e) (auto simp: failClosedStopVM_def)
  show "enforced inst (fst s') (snd s')" if "r = Inr ()"
    using assms(4) b p a that apply_enforces [OF assms(1-3)] by (cases r1; cases e) (auto simp: failClosedStopVM_def)
qed

theorem start_confined:
  assumes "inv (snd s)" and "\<not> vm_IsRunning (li_M X) name (fst s)" and "\<And>inst paths. load_checked X name (fst s) = Inr (inst, paths) \<Longrightarrow> okay inst"
    and "runStart X name s = (s', r)" and "vm_IsRunning (li_M X) name (fst s') \<or> r = Inr ()"
  shows "\<exists>inst paths d h. load_checked X name (fst s) = Inr (inst, paths) \<and> reported X DNSDaemon (i_Name inst) d \<and> reported X HTTPDaemon (i_Name inst) h
    \<and> confined (set_ports inst d h) (snd s') \<and> (r = Inr () \<longrightarrow> enforced (set_ports inst d h) (fst s') (snd s'))"
proof -
  obtain inst paths where l: "load_checked X name (fst s) = Inr (inst, paths)"
    using assms(2,4,5) by (cases "load_checked X name (fst s)") (auto simp: runStart_def)
  let ?f = "\<lambda>s. bind_step (ensureNetwork X inst s) (\<lambda>_. startFilters X name paths inst)"
  obtain s1 r1 where f: "?f s = (s1, r1)" by (meson surj_pair)
  have run: "bind_step (s1, r1) (\<lambda>inst s. startVMAndApplyFilter X name paths inst s) = (s', r)"
    using assms(2,4) l unfolding f [symmetric] bind_step_assoc by (simp add: runStart_def)
  have "stays off ?f" by (intro keeping)
  then have o1: "off s1" using f assms(2) unfolding stays_def by (metis fst_conv)
  obtain inst' where r1: "r1 = Inr inst'" using run o1 assms(5) by (cases r1) auto
  obtain s0 u where n: "ensureNetwork X inst s = (s0, Inr u)" "startFilters X name paths inst s0 = (s1, Inr inst')"
    using f r1 by (auto simp: bind_step_Inr)
  have p0: "snd s0 = snd s" by (rule stays_result [OF ensureNetwork_filters n(1)]) simp
  obtain d h v where d: "inst' = set_ports inst d h" and q: "reported X DNSDaemon (i_Name inst) d" "reported X HTTPDaemon (i_Name inst) h"
    and D: "ctl_Define K inst' (BuildEgressPolicy inst') v (snd s) = (snd s1, None)"
    by (rule startFilters_defines [OF n(2) controller, unfolded p0])
  have ok: "okay inst'" using okay_ports [OF assms(3) [OF l]] d by simp
  have c: "confined inst' (snd s1)" by (rule define_confines [OF assms(1) ok D])
  have i: "inv (snd s1)" by (rule define_inv [OF assms(1) ok D])
  have "startVMAndApplyFilter X name paths inst' s1 = (s', r)" using run r1 by simp
  note e = startVM_confined [OF i ok c this]
  then show ?thesis using l d q by blast
qed

end

end
