(* ===== verification/Guest_Safety.thy ===== *)
theory Guest_Safety
  imports Lifecycle
begin

text \<open>
  When a guest can run without its rules: the properties of \<open>start\<close>, \<open>stop\<close> and \<open>remove\<close> (\<^verbatim>\<open>Lifecycle\<close>) over the controllers
  of the backends (\<^verbatim>\<open>Egress_Control\<close>), and a concrete host on which the interfaces \<open>quiet_host\<close> and \<open>guarded_host\<close> hold.
\<close>

section \<open>A concrete host\<close>

text \<open>The state of the host: its files and the guests that run. The operations of a file system act on the first part.\<close>

definition lift_fs :: "'f FileSystem \<Rightarrow> ('f \<times> 'g) FileSystem" where
  "lift_fs F =
     \<lparr>ReadFile = (\<lambda>s. ReadFile F (fst s)), WriteFile = (\<lambda>s p d m. case WriteFile F (fst s) p d m of (f, e) \<Rightarrow> ((f, snd s), e)),
      MkdirAll = (\<lambda>s p m. case MkdirAll F (fst s) p m of (f, e) \<Rightarrow> ((f, snd s), e)), Stat = (\<lambda>s. Stat F (fst s)), ReadDir = (\<lambda>s. ReadDir F (fst s)),
      RemoveAll = (\<lambda>s p. case RemoveAll F (fst s) p of (f, e) \<Rightarrow> ((f, snd s), e)), OpenFile = (\<lambda>s p m. case OpenFile F (fst s) p m of (f, e) \<Rightarrow> ((f, snd s), e)),
      UserHomeDir = (\<lambda>s. UserHomeDir F (fst s)), Getenv = (\<lambda>s. Getenv F (fst s))\<rparr>"

type_synonym 'f guests = "'f \<times> (string \<Rightarrow> bool)"

definition ref_machine :: "'f guests machine_ops" where
  "ref_machine =
     \<lparr>vm_Create = (\<lambda>_ _ _ v. (v, None)), vm_Start = (\<lambda>n v. ((fst v, (snd v)(n := True)), None)), vm_Stop = (\<lambda>n v. ((fst v, (snd v)(n := False)), None)),
      vm_ForceStop = (\<lambda>n v. ((fst v, (snd v)(n := False)), None)), vm_Remove = (\<lambda>n v. ((fst v, (snd v)(n := False)), None)),
      vm_Exists = (\<lambda>_ _. True), vm_IsRunning = (\<lambda>n v. snd v n), vm_GetUUID = (\<lambda>_ _. []), vm_Redefine = (\<lambda>_ _ _ v. (v, None)),
      net_Create = (\<lambda>_ v. (v, None)), net_Start = (\<lambda>_ v. (v, None)), net_Delete = (\<lambda>_ v. (v, None)), net_Exists = (\<lambda>_ _. True), net_IsActive = (\<lambda>_ _. True),
      disk_Create = (\<lambda>_ _ v. (v, None)), disk_EnsureBaseImage = (\<lambda>_ _ v. (v, None)), disk_EnsureAccess = (\<lambda>_ _ v. (v, None)),
      tv_Validate = (\<lambda>_. None), mt_GuestDevice = []\<rparr>"

definition ref_daemons :: "'f guests host_ops" where
  "ref_daemons =
     \<lparr>ho_start = (\<lambda>_ _ _ _ v. (v, None)), ho_stop = (\<lambda>_ _ v. v), ho_client = (\<lambda>_ _ v. (v, None)),
      ho_Status = (\<lambda>d _ v. (v, Inr (if d = DNSDaemon then 5353 else 8080))), ho_tetragon = (\<lambda>_ _ v. (v, None)),
      ho_cloudinit = (\<lambda>_ _ _ _ v. (v, None)), ho_lock = (\<lambda>v. (v, None)), ho_unlock = (\<lambda>v. v), ho_second = (\<lambda>v. (v, False)),
      ho_CleanupForwards = (\<lambda>_ v. v), ho_unlink = (\<lambda>_ v. v)\<rparr>"

text \<open>An instance on the in-memory file system, with the bridge of its running guest recorded.\<close>

definition guest_instance :: Instance where
  "guest_instance = demo_instance\<lparr>i_Subnet := v4_string [10, 10, 1, 0] @ ''/24'', i_Gateway := v4_string [10, 10, 1, 1], i_Bridge := ''abox-a'',
     i_MACAddress := virsh_GenerateMAC 1 2 3, i_BackendConfig := Some [''bridge'' \<mapsto> AnyString ''bridge100'']\<rparr>"

definition disk_env :: "Instance \<Rightarrow> (MockFileSystem guests, alist) config_env" where
  "disk_env inst = \<lparr>ce_F = lift_fs mock_fs, ce_P = demo_proc, ce_E = ref_ext, ce_R = ref_radix, ce_Y = demo_yaml\<lparr>yaml_Unmarshal := (\<lambda>_. Some inst)\<rparr>\<rparr>"

definition guest_host :: "(MockFileSystem guests, 'p) controller \<Rightarrow> (MockFileSystem guests, 'p, alist) life_env" where
  "guest_host K = \<lparr>li_C = disk_env guest_instance, li_be = demo_be, li_be_error = None, li_M = ref_machine, li_H = ref_daemons, li_K = Some K\<rparr>"

interpretation guest: quiet_host "guest_host K" name for K name
  by unfold_locales (simp_all add: keeps_off_def guest_host_def disk_env_def ref_machine_def ref_daemons_def lift_fs_def split_beta)

interpretation mac_guest: guarded_host "guest_host (vfkit_controller ref_pf_env)" name "vfkit_controller ref_pf_env"
  "\<lambda>w. wired_loaded (pw_disk w)" allocated "anchor_confined ref_read (\<lambda>k. k)"
  "\<lambda>i v w. \<exists>iface. recorded_bridge ref_pf_env v i iface \<and> anchor_enforced ref_read (\<lambda>k. k) iface i w" for name
  by unfold_locales (simp add: guest_host_def)

text \<open>libvirt with a state of its own that no command changes.\<close>

definition ref_virsh :: "unit commander" where
  "ref_virsh args inp s = (s, Some [])"

definition ref_virsh_env :: virsh_env where
  "ref_virsh_env =
     \<lparr>ve_domainXMLTemplate = [], ve_exec_domain = (\<lambda>_ _. Some []), ve_exec_network = (\<lambda>_. Some []), ve_exec_nwfilter = (\<lambda>_. Some []),
      ve_uuid_of = (\<lambda>_. None), ve_uid = 1000, ve_gid = 1000\<rparr>"

abbreviation ref_libvirt :: "(MockFileSystem guests, (ref_table, ref_table) tables \<times> unit) controller" where
  "ref_libvirt \<equiv> libvirt_controller ref_linux ref_virsh_env ref_virsh"

interpretation linux_guest: guarded_host "guest_host ref_libvirt" name ref_libvirt
  "\<lambda>s. egress_reach ref_env rt_filter rt_filter {''abox-a''} (fst s)" "\<lambda>i. i_Bridge i \<in> {''abox-a''}"
  "\<lambda>i s. linux_confined (ref_linux :: (MockFileSystem guests, ref_table, ref_table) linux_env) rt_filter rt_filter (i_Bridge i) i (fst s)"
  "\<lambda>i v s. linux_confined (ref_linux :: (MockFileSystem guests, ref_table, ref_table) linux_env) rt_filter rt_filter (i_Bridge i) i (fst s)"
  for name
proof -
  have "confining ref_libvirt (\<lambda>s. egress_reach ref_env rt_filter rt_filter {''abox-a''} (fst s)) (\<lambda>i. i_Bridge i \<in> {''abox-a''})
    (\<lambda>i s. linux_confined (ref_linux :: (MockFileSystem guests, ref_table, ref_table) linux_env) rt_filter rt_filter (i_Bridge i) i (fst s))
    (\<lambda>i v s. linux_confined (ref_linux :: (MockFileSystem guests, ref_table, ref_table) linux_env) rt_filter rt_filter (i_Bridge i) i (fst s))"
    using libvirt_confining [of "ref_linux :: (MockFileSystem guests, ref_table, ref_table) linux_env" rt_filter rt_filter "{''abox-a''}" ref_virsh_env ref_virsh] ref.iptables_axioms
    by (simp add: ref_linux_def ref_env_def distinct_chains_def)
  then show "guarded_host (guest_host ref_libvirt) name ref_libvirt
    (\<lambda>s. egress_reach ref_env rt_filter rt_filter {''abox-a''} (fst s)) (\<lambda>i. i_Bridge i \<in> {''abox-a''})
    (\<lambda>i s. linux_confined (ref_linux :: (MockFileSystem guests, ref_table, ref_table) linux_env) rt_filter rt_filter (i_Bridge i) i (fst s))
    (\<lambda>i v s. linux_confined (ref_linux :: (MockFileSystem guests, ref_table, ref_table) linux_env) rt_filter rt_filter (i_Bridge i) i (fst s))"
    by (intro guarded_host.intro guest.quiet_host_axioms guarded_host_axioms.intro) (simp_all add: guest_host_def)
qed

subsection \<open>The start of its guest\<close>

lemma lift_fs_simps [simp]:
  "ReadFile (lift_fs F) s = ReadFile F (fst s)" "Stat (lift_fs F) s = Stat F (fst s)" "Getenv (lift_fs F) s = Getenv F (fst s)"
  "UserHomeDir (lift_fs F) s = UserHomeDir F (fst s)" "snd (fst (WriteFile (lift_fs F) s p d m)) = snd s"
  "fst (fst (WriteFile (lift_fs F) s p d m)) = fst (WriteFile F (fst s) p d m)"
  by (simp_all add: lift_fs_def split_beta)

lemma lift_fs_paths [simp]: "GetPathsWithStorage (lift_fs F) P s name st = GetPathsWithStorage F P (fst s) name st"
  "GetPaths (lift_fs F) P s name = GetPaths F P (fst s) name"
  unfolding GetPaths_def GetPathsWithStorage_def getBaseDir_def RuntimeDirOr_def RuntimeDir_def lift_fs_simps by (rule refl)+

lemma guest_instance_valid: "Instance_Validate ref_ext ref_radix guest_instance = None"
  using demo_instance_valid by (auto simp: guest_instance_def Instance_Validate_def GenerateMAC_valid split: option.splits if_splits)

lemma disk_loaded:
  assumes "li_C X = disk_env inst" "li_be_error X = None" "Instance_Validate ref_ext ref_radix inst = None" "i_StorageDir inst = []" "i_Version inst = CurrentInstanceVersion"
  obtains p where "LoadRequired (li_C X) (demo_disk, run) ''dev'' = Inr (inst, p)" "load_checked X ''dev'' (demo_disk, run) = Inr (inst, p)"
proof -
  have "getBaseDir mock_fs demo_disk = Inr ''/data/abox''" by (simp add: getBaseDir_def demo_disk_def demo_fs_def mock_defs path_eval)
  then have "\<exists>p. GetPaths mock_fs demo_proc demo_disk ''dev'' = Inr p \<and> p_Config p = ''/data/abox/instances/dev/config.yaml''
      \<and> p_Disk p = ''/data/abox/disks/instances/dev/disk.qcow2''"
    by (simp add: GetPaths_def GetPathsWithStorage_def path_eval Let_def build_paths_def)
  then obtain p where p: "GetPaths mock_fs demo_proc demo_disk ''dev'' = Inr p" "p_Config p = ''/data/abox/instances/dev/config.yaml''"
    "p_Disk p = ''/data/abox/disks/instances/dev/disk.qcow2''" by blast
  have f: "ReadFile mock_fs demo_disk ''/data/abox/instances/dev/config.yaml'' = Inr ''i''" "Stat mock_fs demo_disk ''/data/abox/instances/dev/config.yaml'' = Inr (mockFileInfo False)"
    by (simp_all add: demo_disk_def demo_fs_def mock_defs)
  have "\<not> IsLegacyStorage demo_proc [] p"
    by (simp add: IsLegacyStorage_def p(3) LibvirtImagesDir_def LibvirtStorageDir_def Let_def path_eval demo_proc_def Itoa.simps HasPrefix_iff)
  moreover have "LoadRequired (li_C X) (demo_disk, run) ''dev'' = Inr (inst, p)"
    using f p(1,2) assms by (simp add: LoadRequired_def Config_Exists_def Config_Load_def disk_env_def demo_yaml_def CheckVersion_def CurrentInstanceVersion_def)
  ultimately show ?thesis using that assms by (simp add: load_checked_def RequireMigrated_def disk_env_def)
qed

lemma guest_instance_facts: "i_StorageDir guest_instance = []" "i_Version guest_instance = CurrentInstanceVersion"
  by (simp_all add: guest_instance_def demo_instance_def DefaultInstance_def)

lemma guest_loaded: "\<exists>p. load_checked (guest_host K) ''dev'' (demo_disk, run) = Inr (guest_instance, p)"
proof -
  have "li_C (guest_host K) = disk_env guest_instance" "li_be_error (guest_host K) = None" by (simp_all add: guest_host_def)
  from disk_loaded [OF this guest_instance_valid guest_instance_facts] show ?thesis by blast
qed

text \<open>After the daemons have given their ports, all that is left are the calls of the controller.\<close>

definition ported :: Instance where
  "ported = set_ports guest_instance 5353 8080"

text \<open>The file system may refuse to be written, but a file can be read unless it is missing.\<close>

abbreviation ref_port :: "daemon \<Rightarrow> int" where
  "ref_port d \<equiv> (if d = DNSDaemon then 5353 else 8080)"

lemma guest_steps [simp]:
  "ensureNetwork (guest_host K) inst s = (s, Inr ())" "start_daemon (guest_host K) w d name inst paths s = (s, Inr ())"
  "redefineVM (guest_host K) inst paths s = (s, Inr ())" "define_egress (guest_host K) inst s = on_filters LcDefine (ctl_Define K inst (BuildEgressPolicy inst)) s"
  by (simp_all add: ensureNetwork_def start_daemon_def redefineVM_def define_egress_def guest_host_def ref_machine_def ref_daemons_def demo_be_def on_host_def check_step_def Let_def)

lemma guest_port:
  assumes "ReadFileErr f = None" and "0 < n"
  shows "\<exists>f'. resolve_port (guest_host K) d n paths inst ((f, run), p) = (((f', run), p), Inr (with_port d (ref_port d) inst)) \<and> ReadFileErr f' = None"
proof -
  have r: "retry n (\<lambda>v. (v, Inr x)) v = (v, Inr x)" for v :: "MockFileSystem guests" and x
    using assms(2) by (cases n) simp_all
  have w: "\<exists>f'. fst (Config_Save (disk_env guest_instance) (f, run) x paths) = (f', run) \<and> ReadFileErr f' = None" for x
    using assms(1) by (auto simp: Config_Save_def disk_env_def demo_yaml_def lift_fs_def mock_defs split: prod.splits option.splits)
  have "\<exists>f'. record_port (guest_host K) d paths inst (ref_port d) (f, run) = ((f', run), Inr (with_port d (ref_port d) inst)) \<and> ReadFileErr f' = None"
    using w [of "with_port d (ref_port d) inst"] assms(1) with_port_id [of d inst] by (auto simp: record_port_def guest_host_def)
  then show ?thesis
    by (auto simp: resolve_port_def ask_port_def on_host_def check_step_def guest_host_def ref_daemons_def r)
qed

lemma guest_cloudinit: "ReadFileErr f = None \<Longrightarrow> generateCloudInit (guest_host K) guest_instance' paths ((f, run), p) = (((f, run), p), Inr ())"
  if "\<not> mon_Enabled (i_Monitor guest_instance')"
  using that by (auto simp: generateCloudInit_def guest_host_def disk_env_def mock_defs ref_daemons_def on_host_def check_step_def split: option.splits)

lemma guest_start:
  assumes "\<And>v. ctl_Define K ported (BuildEgressPolicy ported) v p = (p', None)" and "\<And>v. ctl_Apply K ported v p' = (p'', None)"
  shows "\<exists>f. runStart (guest_host K) ''dev'' ((demo_disk, (\<lambda>_. False)), p) = (((f, (\<lambda>_. False)(''dev'' := True)), p''), Inr ())"
proof -
  let ?off = "\<lambda>_ :: string. False"
  obtain paths where l: "load_checked (guest_host K) ''dev'' (demo_disk, ?off) = Inr (guest_instance, paths)" using guest_loaded by blast
  have "ReadFileErr demo_disk = None" by (simp add: demo_disk_def demo_fs_def NewMockFileSystem_def)
  then obtain f1 where 1: "resolve_port (guest_host K) DNSDaemon 10 paths guest_instance ((demo_disk, ?off), p) = (((f1, ?off), p), Inr (with_port DNSDaemon 5353 guest_instance))"
    "ReadFileErr f1 = None"
    using guest_port [of demo_disk 10 K DNSDaemon paths guest_instance ?off p] by auto
  then obtain f2 where 2: "resolve_port (guest_host K) HTTPDaemon 15 paths (with_port DNSDaemon 5353 guest_instance) ((f1, ?off), p) = (((f2, ?off), p), Inr ported)"
    "ReadFileErr f2 = None"
    using guest_port [of f1 15 K HTTPDaemon paths "with_port DNSDaemon 5353 guest_instance" ?off p] by (auto simp: with_port_def ported_def)
  have m: "\<not> mon_Enabled (i_Monitor ported)" by (simp add: ported_def guest_instance_def demo_instance_def DefaultInstance_def set_ports_def)
  have "startFilters (guest_host K) ''dev'' paths guest_instance ((demo_disk, ?off), p) = (((f2, ?off), p'), Inr ported)"
    using 1(1) 2 guest_cloudinit [OF m 2(2), of K paths ?off p] assms(1)
    by (simp add: startFilters_def setupDNSResources_def setupHTTPResources_def resolveHTTPPort_def on_filters_def check_step_def)
  moreover have "startVMAndApplyFilter (guest_host K) ''dev'' paths ported ((f2, ?off), p') = (((f2, ?off(''dev'' := True)), p''), Inr ())"
    using m assms(2) by (simp add: startVMAndApplyFilter_def guest_host_def ref_machine_def on_host_def check_step_def)
  moreover have "\<not> vm_IsRunning (li_M (guest_host K)) ''dev'' (demo_disk, ?off)" by (simp add: guest_host_def ref_machine_def)
  ultimately show ?thesis by (simp add: runStart_def l)
qed

section \<open>A started guest is confined\<close>

text \<open>
  C1 (safety). Starting a stopped instance on macOS (its subnet and gateway those of an allocation, and no reference to the anchors of abox in the main
  rule file that the packet filter has not loaded): if its guest runs afterwards, even though the start failed half way, \<open>pf\<close> is on, its loaded main
  rules lead into the anchors of abox, and the anchor of the instance blocks every IPv4 packet of the subnet except a redirected DNS query, the proxy port
  and ICMP at the gateway, and SSH from the host. A start that reports success has the whole policy of the instance in force, with the ports that the filters
  reported and IPv6 closed on the recorded bridge of the guest; before that nothing is said of IPv6, which the rules loaded before the boot do not close.
\<close>

theorem started_guest_confined:
  fixes X :: "('v, 'k pf_world, 't) life_env"
  assumes "pf_reader read" "pfctl_anchors (pe_run P) anchor" and "quiet_host X name" and "li_K X = Some (vfkit_controller P)"
    and "wired_loaded (pw_disk (snd s))"
    and "\<not> vm_IsRunning (li_M X) name (fst s)" and "\<And>inst paths. load_checked X name (fst s) = Inr (inst, paths) \<Longrightarrow> allocated inst"
    and "runStart X name s = (s', r)" and "vm_IsRunning (li_M X) name (fst s') \<or> r = Inr ()"
  shows "\<exists>inst paths d h. load_checked X name (fst s) = Inr (inst, paths) \<and> reported X DNSDaemon (i_Name inst) d \<and> reported X HTTPDaemon (i_Name inst) h
    \<and> anchor_confined read anchor (set_ports inst d h) (snd s')
    \<and> (r = Inr () \<longrightarrow> (\<exists>iface. recorded_bridge P (fst s') (set_ports inst d h) iface \<and> anchor_enforced read anchor iface (set_ports inst d h) (snd s')))"
proof -
  have "guarded_host X name (vfkit_controller P) (\<lambda>w. wired_loaded (pw_disk w)) allocated (anchor_confined read anchor)
      (\<lambda>i v w. \<exists>iface. recorded_bridge P v i iface \<and> anchor_enforced read anchor iface i w)"
    using assms(3) vfkit_confining [OF assms(1,2)] assms(4) by (intro guarded_host.intro guarded_host_axioms.intro)
  from guarded_host.start_confined [OF this assms(5-9)] show ?thesis .
qed

text \<open>
  C2 (safety). The same on Linux with libvirt, after any history of requests for the bridges of \<open>B\<close>: a guest that runs after \<open>abox start\<close> of a stopped
  instance, successful or not, has the tables of the host confine its bridge to the ports of the filters, on IPv4 and on IPv6.
\<close>

theorem started_guest_confined_libvirt:
  fixes X :: "('v, ('x, 'y) tables \<times> 'n, 't) life_env"
  assumes "iptables (ee_4 (le_V L)) ft4" "iptables (ee_6 (le_V L)) ft6" "distinct_chains (ee_sum256 (le_V L)) B"
    and "egress_reach (le_V L) ft4 ft6 B (fst (snd s))" and "quiet_host X name" and "li_K X = Some (libvirt_controller L E cmd)"
    and "\<not> vm_IsRunning (li_M X) name (fst s)" and "\<And>inst paths. load_checked X name (fst s) = Inr (inst, paths) \<Longrightarrow> i_Bridge inst \<in> B"
    and "runStart X name s = (s', r)" and "vm_IsRunning (li_M X) name (fst s') \<or> r = Inr ()"
  shows "\<exists>inst paths d h. load_checked X name (fst s) = Inr (inst, paths) \<and> reported X DNSDaemon (i_Name inst) d \<and> reported X HTTPDaemon (i_Name inst) h
    \<and> bridge_confined (le_V L) ft4 ft6 (egressReq (i_Bridge inst) (BuildEgressPolicy (set_ports inst d h))) (fst (snd s'))"
proof -
  have "guarded_host X name (libvirt_controller L E cmd) (\<lambda>s. egress_reach (le_V L) ft4 ft6 B (fst s)) (\<lambda>i. i_Bridge i \<in> B)
    (\<lambda>i s. linux_confined L ft4 ft6 (i_Bridge i) i (fst s)) (\<lambda>i v s. linux_confined L ft4 ft6 (i_Bridge i) i (fst s))"
    using assms(5) libvirt_confining [OF assms(1-3)] assms(6) by (intro guarded_host.intro guarded_host_axioms.intro)
  from guarded_host.start_confined [OF this assms(4,7-10)] show ?thesis by fastforce
qed

text \<open>
  C12 (safety). Whatever happens during \<open>abox stop\<close> (a shutdown that fails, a cancellation, a guest that does not stop in time), if the guest still runs
  afterwards then nothing has been removed from the packet filters.
\<close>

theorem stopped_guest_keeps_rules:
  assumes "quiet_host X name" and "runStop X name force s = (s', r)" and "vm_IsRunning (li_M X) name (fst s')"
  shows "snd s' = snd s"
  using quiet_host.stop_keeps_rules [OF assms] .

section \<open>Witnesses\<close>

lemma ported_facts:
  "i_Name ported = ''dev''" "i_Bridge ported = ''abox-a''" "i_Subnet ported = candidateSubnet [10, 10, 0, 0] 1" "i_Gateway ported = candidateGateway [10, 10, 0, 0] 1"
  "dc_Port (i_DNS ported) = 5353" "hc_Port (i_HTTP ported) = 8080" "BackendString (Some ported) ''bridge'' = (''bridge100'', True)"
  "ValidateMACAddress (i_MACAddress ported) = None"
  using candidate_texts [of "[10, 10, 0, 0]" 1]
  by (simp_all add: ported_def guest_instance_def demo_instance_def DefaultInstance_def set_ports_def BackendString_def backend_value_def GenerateMAC_valid)

lemma ported_allocated: "allocated ported" "allocated guest_instance"
proof -
  show "allocated ported" unfolding allocated_def ported_facts by (intro exI [of _ "[10, 10, 0, 0]"] exI [of _ 1]) simp
  then show "allocated guest_instance" by (simp add: allocated_def ported_def)
qed

subsection \<open>macOS\<close>

definition pf_before :: "(string \<Rightarrow> string) pf_world" where
  "pf_before = \<lparr>pw_kernel = (\<lambda>_. []), pw_disk = demo_conf, pw_marker = (\<lambda>_. False)\<rparr>"

lemma pf_before_enabled: "\<exists>d'. Pf_Enable (demo_host\<lparr>ph_reload := (\<lambda>_. True)\<rparr>) (pw_disk pf_before) = (d', None)"
  using demo_wired by (simp add: pf_before_def Pf_Enable_def demo_host_def reloadPfConf_def pf_switch_on_def)

lemma ported_ports: "pf_ValidatePort 5353" "pf_ValidatePort 8080"
  by (simp_all add: pf_ValidatePort_def)

abbreviation mac_env :: "(MockFileSystem guests, string \<Rightarrow> string) pf_env" where
  "mac_env \<equiv> ref_pf_env"

lemma ref_load:
  assumes "validatePFRules rules subnet = None"
  shows "pf_LoadAnchor mac_env v ''dev'' subnet rules w = (w\<lparr>pw_kernel := (pw_kernel w)(''abox/dev'' := rules)\<rparr>, None)"
  using assms demo_name_ok(1,2) by (simp add: pf_LoadAnchor_def ref_pf_env_def over_rpc_def LoadAnchor_def validateInstanceName_def demo_name_def)

lemma mac_provider: "ResolveEnforcer (pe_provider mac_env v) = None" "pe_write_marker mac_env v"
  by (simp_all add: ResolveEnforcer_def ref_pf_env_def)

lemma mac_defined:
  assumes "Pf_Enable (demo_host\<lparr>ph_reload := (\<lambda>_. True)\<rparr>) (pw_disk w) = (d', None)" "i_Name inst = i_Name ported" "i_Subnet inst = i_Subnet ported" "hc_Port (i_HTTP inst) = 8080"
  shows "\<exists>p'. \<forall>v. ctl_Define (vfkit_controller mac_env) inst (BuildEgressPolicy inst) v w = (p', None)"
proof -
  obtain n g where "ParseSubnet24 (i_Subnet ported) = Inr (n, g)" by (rule allocated_subnet [OF ported_allocated(1)])
  then have s: "PreBootDenyRules ''dev'' (i_Subnet ported) 8080 = Inr (BuildPreBootDenyRules (i_Subnet ported) 8080)"
    using demo_name_ok(1) ported_ports by (simp add: PreBootDenyRules_def validatePfPort_def demo_name_def)
  have e: "pf_Enable mac_env v w = (w\<lparr>pw_disk := d'\<rparr>, None)" for v
    using assms(1) by (simp add: pf_Enable_def ref_pf_env_def over_rpc_def)
  note l = ref_load [OF preboot_valid [OF ported_allocated(1) ported_ports(2)], of _ "w\<lparr>pw_disk := d'\<rparr>"]
  show ?thesis
    by (rule exI, rule allI)
      (simp only: vfkit_controller_def controller.select_convs vfkit_Define_def LoadPreBootDeny_def BuildEgressPolicy_def EgressPolicy.select_convs
        mac_provider e s l assms(2-4) ported_facts(1) option.case prod.case sum.case)
qed

lemma mac_applied: "\<exists>p''. \<forall>v. ctl_Apply (vfkit_controller mac_env) ported v p' = (p'', None)"
proof -
  obtain n g where s: "ParseSubnet24 (i_Subnet ported) = Inr (n, g)" "i_Subnet ported = IPNet_String n" "i_Gateway ported = IP_String g"
    by (rule allocated_subnet [OF ported_allocated(1)])
  obtain a b c where "n = \<lparr>net_IP = [a, b, c, 0], net_Mask = [255, 255, 255, 0]\<rparr>" and g: "g = [a, b, c, 1]" by (rule ParseSubnet24_shape [OF s(1)])
  let ?rules = "BuildInstanceRules (i_Subnet ported) (i_Gateway ported) ''bridge100'' 5353 8080"
  have "validatePfSubnetGateway (i_Subnet ported) (i_Gateway ported) = None"
    unfolding validatePfSubnetGateway_def s(1,3) g net24_text by (simp add: ParseIP_v4 To4_v4 IP_Equal_def)
  then have i: "InstanceRules ''dev'' (i_Subnet ported) (i_Gateway ported) ''bridge100'' 5353 8080 = Inr ?rules"
    using demo_name_ok ported_ports by (simp add: InstanceRules_def validatePfArgs_def validatePfPort_def demo_name_def)
  have b: "bridgeFor mac_env v ported = Inr ''bridge100''" for v by (simp add: bridgeFor_def bridgeFromConfig_def ported_facts(7))
  note l = ref_load [OF generated_valid(1) [OF s demo_name_ok(3) ported_ports], of _ p']
  show ?thesis
    by (rule exI, rule allI)
      (simp only: vfkit_controller_def controller.select_convs vfkit_Apply_def LoadInstanceAnchor_def BuildEgressPolicy_def EgressPolicy.select_convs
        mac_provider b i l ported_facts(1,5,6) option.case prod.case sum.case if_True)
qed

text \<open>On a host whose main rule file has no reference yet.\<close>

theorem started_guest_confined_witness:
  "\<exists>s'. runStart (guest_host (vfkit_controller mac_env)) ''dev'' ((demo_disk, (\<lambda>_. False)), pf_before) = (s', Inr ())
     \<and> snd (fst s') ''dev'' \<and> anchor_enforced ref_read (\<lambda>k. k) ''bridge100'' ported (snd s')"
proof -
  let ?X = "guest_host (vfkit_controller mac_env)" and ?s = "((demo_disk, \<lambda>_ :: string. False), pf_before)"
  obtain p' p'' where "\<forall>v. ctl_Define (vfkit_controller mac_env) ported (BuildEgressPolicy ported) v pf_before = (p', None)"
    "\<forall>v. ctl_Apply (vfkit_controller mac_env) ported v p' = (p'', None)"
    using mac_defined [of pf_before _ ported] mac_applied pf_before_enabled by (metis ported_facts(6))
  then obtain f where r: "runStart ?X ''dev'' ?s = (((f, (\<lambda>_. False)(''dev'' := True)), p''), Inr ())"
    using guest_start [of "vfkit_controller mac_env" pf_before p' p''] by auto
  have "pf_reader ref_read" "pfctl_anchors (pe_run mac_env) (\<lambda>k. k)" "quiet_host ?X ''dev''" "li_K ?X = Some (vfkit_controller mac_env)"
    "\<not> vm_IsRunning (li_M ?X) ''dev'' (fst ?s)" "wired_loaded (pw_disk (snd ?s))"
    using ref_reader.pf_reader_axioms ref_pfctl.pfctl_anchors_axioms guest.quiet_host_axioms demo_lines_facts(2)
    by (simp_all add: ref_pf_env_def guest_host_def ref_machine_def wired_loaded_def pf_before_def demo_conf_def)
  moreover have "allocated inst" if "load_checked ?X ''dev'' (fst ?s) = Inr (inst, paths)" for inst paths
    using that guest_loaded [of "vfkit_controller mac_env" "\<lambda>_. False"] ported_allocated by auto
  moreover have "reported ?X DNSDaemon ''dev'' d \<longleftrightarrow> d = 5353" "reported ?X HTTPDaemon ''dev'' d \<longleftrightarrow> d = 8080" for d
    by (auto simp: reported_def guest_host_def ref_daemons_def)
  moreover have "inst = guest_instance" if "load_checked ?X ''dev'' (fst ?s) = Inr (inst, paths)" for inst paths
    using that guest_loaded [of "vfkit_controller mac_env" "\<lambda>_. False"] by auto
  moreover have "iface = ''bridge100''" if "recorded_bridge mac_env v ported iface" for v iface
    using that by (auto simp: recorded_bridge_def ported_facts(7))
  ultimately have "anchor_enforced ref_read (\<lambda>k. k) ''bridge100'' ported p''"
    using started_guest_confined [of ref_read mac_env "\<lambda>k. k" ?X "''dev''" ?s, OF _ _ _ _ _ _ _ r]
      ported_facts(1) by (fastforce simp: ported_def)
  then show ?thesis using r by auto
qed

subsection \<open>Linux\<close>

abbreviation linux_env :: "(MockFileSystem guests, ref_table, ref_table) linux_env" where
  "linux_env \<equiv> ref_linux"

lemma linux_request: "egressReq (i_Bridge ported) (BuildEgressPolicy ported) = req_a"
proof -
  have "i_Gateway ported = ''10.10.1.1''" by (simp add: ported_def guest_instance_def v4_string_def Itoa.simps char_of_eq_iff)
  then show ?thesis by (simp add: egressReq_def BuildEgressPolicy_def standardDNSPort_def ported_facts int32_def req_a_def)
qed

lemma linux_defined: "\<exists>t. \<forall>v. ctl_Define ref_libvirt ported (BuildEgressPolicy ported) v ((clean_table, clean_table), ()) = ((t, ()), None)"
proof -
  obtain t where t: "Egress_Apply ref_env req_a (clean_table, clean_table) = (t, None)" using applied_a by (metis prod.collapse)
  have "enf_Apply linux_env v ''abox-a'' (BuildEgressPolicy ported) (clean_table, clean_table) = (t, None)" for v
    using t linux_request by (simp add: enf_Apply_def ref_linux_def over_rpc_def ported_facts(2))
  moreover have "NWFilterXML ref_virsh_env ported u 53 = Inr []" for u
    using demo_names_valid(1) by (simp add: NWFilterXML_def ported_facts ref_virsh_env_def executed_def)
  moreover have "ep_GuestDNSPort (BuildEgressPolicy ported) = 53" by (simp add: BuildEgressPolicy_def standardDNSPort_def)
  ultimately show ?thesis
    by (simp add: libvirt_controller_def libvirt_Define_def Let_def ported_facts DefineNWFilter_def virsh_stdin_def ref_virsh_def ResolveEnforcer_def ref_linux_def)
qed

lemma linux_applied: "ctl_Apply ref_libvirt ported v p = (p, None)"
  by (cases p) (simp add: libvirt_controller_def libvirt_Apply_def ApplyNWFilter_def ported_facts virsh_stdin_def ref_virsh_def)

text \<open>A guest that tries the SSH port of its host.\<close>

theorem started_guest_confined_libvirt_witness:
  "\<exists>s'. runStart (guest_host ref_libvirt) ''dev'' ((demo_disk, (\<lambda>_. False)), ((clean_table, clean_table), ())) = (s', Inr ())
     \<and> snd (fst s') ''dev'' \<and> walk 1 (rt_filter (fst (fst (snd s')))) (the (rt_filter (fst (fst (snd s'))) ''INPUT''))
         \<lparr>pk_in = ''abox-a'', pk_dst = ''10.10.1.1'', pk_proto = ''tcp'', pk_dport = 22, pk_established = False\<rparr> = Some Dropped"
proof -
  let ?X = "guest_host ref_libvirt" and ?s = "((demo_disk, \<lambda>_ :: string. False), ((clean_table, clean_table), ()))"
  let ?p = "\<lparr>pk_in = ''abox-a'', pk_dst = ''10.10.1.1'', pk_proto = ''tcp'', pk_dport = 22, pk_established = False\<rparr>"
  obtain t where "\<forall>v. ctl_Define ref_libvirt ported (BuildEgressPolicy ported) v ((clean_table, clean_table), ()) = ((t, ()), None)"
    using linux_defined by blast
  then obtain f where r: "runStart ?X ''dev'' ?s = (((f, (\<lambda>_. False)(''dev'' := True)), (t, ())), Inr ())"
    using guest_start [of ref_libvirt "((clean_table, clean_table), ())" "(t, ())" "(t, ())"] linux_applied by auto
  have i: "inst = guest_instance" if "load_checked ?X ''dev'' (fst ?s) = Inr (inst, paths)" for inst paths
    using that guest_loaded [of ref_libvirt "\<lambda>_. False"] by auto
  have "iptables (ee_4 (le_V linux_env)) rt_filter" "iptables (ee_6 (le_V linux_env)) rt_filter" "distinct_chains (ee_sum256 (le_V linux_env)) {''abox-a''}"
    "quiet_host ?X ''dev''" "li_K ?X = Some ref_libvirt" "\<not> vm_IsRunning (li_M ?X) ''dev'' (fst ?s)"
    using ref.iptables_axioms guest.quiet_host_axioms by (simp_all add: ref_linux_def ref_env_def distinct_chains_def guest_host_def ref_machine_def)
  moreover have "egress_reach (le_V linux_env) rt_filter rt_filter {''abox-a''} (fst (snd ?s))"
    unfolding snd_conv fst_conv by (rule egress_reach.start)
      (simp_all add: fresh_table_def clean_table_def ref_linux_def ref_env_def chain_name_def hex_bytes_def inputChain_def forwardChain_def)
  moreover have "reported ?X DNSDaemon n d \<longleftrightarrow> d = 5353" "reported ?X HTTPDaemon n d \<longleftrightarrow> d = 8080" for d n
    by (auto simp: reported_def guest_host_def ref_daemons_def)
  ultimately have "bridge_confined (le_V linux_env) rt_filter rt_filter (egressReq (i_Bridge guest_instance) (BuildEgressPolicy ported)) t"
    using started_guest_confined_libvirt [of linux_env rt_filter rt_filter "{''abox-a''}" ?s ?X "''dev''" ref_virsh_env ref_virsh, OF _ _ _ _ _ _ _ _ r] i
      ported_facts(2) by (fastforce simp: ported_def)
  then have "bridge_confined (le_V linux_env) rt_filter rt_filter req_a t" using linux_request by (simp add: ported_def)
  moreover have "pk_in ?p = eq_Bridge req_a" by (simp add: req_a_def)
  ultimately have "walk (Suc 0) (rt_filter (fst t)) (the (rt_filter (fst t) ''INPUT'')) ?p = Some (verdict_of (guest_may req_a ?p))"
    unfolding bridge_confined_def by blast
  then show ?thesis using r by (auto simp: verdict_of_def guest_may_def req_a_def)
qed

text \<open>A guest whose shutdown is refused.\<close>

definition stuck_host :: "(MockFileSystem guests, 'p) controller \<Rightarrow> (MockFileSystem guests, 'p, alist) life_env" where
  "stuck_host K = (guest_host K)\<lparr>li_M := ref_machine\<lparr>vm_Stop := (\<lambda>_ v. (v, Some []))\<rparr>\<rparr>"

lemma stuck_quiet: "quiet_host (stuck_host K) name"
  by unfold_locales (simp_all add: stuck_host_def keeps_off_def guest_host_def disk_env_def ref_machine_def ref_daemons_def lift_fs_def split_beta)

theorem stopped_guest_keeps_rules_witness:
  "\<exists>s'. runStop (stuck_host (vfkit_controller mac_env)) ''dev'' False ((demo_disk, (\<lambda>_. True)), pf_before) = (s', Inl (LcStop []))
     \<and> snd (fst s') ''dev'' \<and> snd s' = pf_before"
proof -
  let ?X = "stuck_host (vfkit_controller mac_env)" and ?s = "((demo_disk, \<lambda>_ :: string. True), pf_before)"
  have "li_C ?X = disk_env guest_instance" "li_be_error ?X = None" by (simp_all add: stuck_host_def guest_host_def)
  then obtain paths where "LoadRequired (li_C ?X) (demo_disk, \<lambda>_. True) ''dev'' = Inr (guest_instance, paths)"
    by (rule disk_loaded [OF _ _ guest_instance_valid guest_instance_facts])
  then have r: "runStop ?X ''dev'' False ?s = (?s, Inl (LcStop []))"
    by (simp add: runStop_def stopVM_def gracefulStop_def on_host_def check_step_def stuck_host_def guest_host_def ref_machine_def)
  have "vm_IsRunning (li_M ?X) ''dev'' (fst ?s)" by (simp add: stuck_host_def ref_machine_def)
  from stopped_guest_keeps_rules [OF stuck_quiet r this] r show ?thesis by auto
qed

section \<open>Where the rules are lost\<close>

text \<open>An instance whose configuration has the ports but no longer the bridge of the running guest.\<close>

definition bare_host :: "(MockFileSystem guests, 'p) controller \<Rightarrow> (MockFileSystem guests, 'p, alist) life_env" where
  "bare_host K = (guest_host K)\<lparr>li_C := disk_env (ported\<lparr>i_BackendConfig := None\<rparr>)\<rparr>"

definition wired_disk :: pf_disk where
  "wired_disk = demo_conf\<lparr>pd_conf := Some (wire (lines_text demo_lines), 420), pd_main := wire (lines_text demo_lines), pd_on := True\<rparr>"

definition pf_running :: "(string \<Rightarrow> string) pf_world" where
  "pf_running =
     \<lparr>pw_kernel = (\<lambda>_. [])(''abox/dev'' := BuildInstanceRules (i_Subnet ported) (i_Gateway ported) ''bridge100'' 5353 8080),
      pw_disk = wired_disk, pw_marker = (\<lambda>_. False)\<rparr>"

lemma wired_disk_facts: "evaluated wired_disk" "Pf_Enable (demo_host\<lparr>ph_reload := (\<lambda>_. True)\<rparr>) wired_disk = (wired_disk, None)"
proof -
  have h: "HasAnchorReferences (wire (lines_text demo_lines))" by (rule wire_lines(2) [OF demo_lines_facts(3)])
  then show "evaluated wired_disk" by (simp add: evaluated_def wired_disk_def)
  show "Pf_Enable (demo_host\<lparr>ph_reload := (\<lambda>_. True)\<rparr>) wired_disk = (wired_disk, None)"
    using unloaded_references_stay [OF _ h, of wired_disk 420 "demo_host\<lparr>ph_reload := (\<lambda>_. True)\<rparr>"] by (simp add: wired_disk_def demo_host_def)
qed

lemma running_enforced: "anchor_enforced ref_read (\<lambda>k. k) ''bridge100'' ported pf_running"
proof -
  obtain n g where s: "ParseSubnet24 (i_Subnet ported) = Inr (n, g)" "i_Subnet ported = IPNet_String n" "i_Gateway ported = IP_String g"
    by (rule allocated_subnet [OF ported_allocated(1)])
  let ?rules = "BuildInstanceRules (i_Subnet ported) (i_Gateway ported) ''bridge100'' 5353 8080"
  note v = generated_valid [OF s demo_name_ok(3) ported_ports]
  have "pf_eval (ref_read ?rules) p = instance_policy n g ''bridge100'' 5353 8080 p" for p
    unfolding ref_reader.plain [OF v(2)] v(3) by (rule instance_statements_eval [OF s(1) ported_ports, folded s(2,3)])
  moreover have "pw_kernel pf_running (''abox/'' @ i_Name ported) = ?rules" by (simp add: pf_running_def ported_facts(1))
  moreover have "evaluated (pw_disk pf_running)" using wired_disk_facts(1) by (simp add: pf_running_def)
  ultimately show ?thesis unfolding anchor_enforced_def using s(1) ported_facts(5,6) by metis
qed

text \<open>The removal empties the anchor when the request arrives and \<open>pfctl\<close> carries it out, even though the reply is lost.\<close>

lemma pf_Remove_flushed:
  assumes "pfctl_anchors (pe_run P) anchor" "ResolveEnforcer (pe_provider P v) = None" "pe_rpc P v CallFlush \<noteq> LostRequest"
    and "validateInstanceName (i_Name inst) = None" "snd (pe_run P [''-a'', ''abox/'' @ i_Name inst, ''-F'', ''all''] [] (pw_kernel w))"
  shows "anchor (pw_kernel (fst (pf_Remove P inst v w))) (''abox/'' @ i_Name inst) = []"
proof -
  obtain k where k: "FlushAnchor (pe_run P) (i_Name inst) (pw_kernel w) = (k, None)"
    using assms(4,5) that [of "fst (FlushAnchor (pe_run P) (i_Name inst) (pw_kernel w))"] by (simp add: FlushAnchor_def split_beta)
  then have "pw_kernel (fst (pf_Remove P inst v w)) = k"
    using assms(2,3) by (auto simp: pf_Remove_def pf_FlushAnchor_def over_rpc_def Let_def split: rpc_outcome.splits option.splits)
  then show ?thesis using pfctl_anchors.FlushAnchor_anchor [OF assms(1) k] by simp
qed

text \<open>What has happened when the rules of a running guest could not be re-asserted.\<close>

lemma ApplyFiltered_failed:
  assumes "ApplyFiltered X name s = (s', Inl (LcApply e))" "li_K X = Some K"
  obtains inst paths p where "LoadRunning X (fst s') name = Inr (inst, paths)" "ctl_Define K inst (BuildEgressPolicy inst) (fst s') (snd s) = (p, None)"
    "snd s' = fst (ctl_Remove K inst (fst s') (fst (ctl_Apply K inst (fst s') p)))"
proof -
  obtain inst paths where l: "LoadRunning X (fst s) name = Inr (inst, paths)"
    using assms(1) by (auto simp: ApplyFiltered_def LoadRunning_def LoadRequired_def split: sum.splits if_splits)
  obtain p e1 where D: "ctl_Define K inst (BuildEgressPolicy inst) (fst s) (snd s) = (p, e1)" by (meson surj_pair)
  have "e1 = None" using assms D l by (cases e1) (auto simp: ApplyFiltered_def on_filters_def check_step_def)
  moreover obtain p2 e2 where A: "ctl_Apply K inst (fst s) p = (p2, e2)" by (meson surj_pair)
  ultimately have "s' = (fst s, fst (ctl_Remove K inst (fst s) p2))"
    using assms D l by (cases e2) (auto simp: ApplyFiltered_def on_filters_def check_step_def)
  then show thesis using that [of inst paths p] l D A \<open>e1 = None\<close> by simp
qed

lemma bind_step_Inl: "bind_step r f = (s', Inl e) \<longleftrightarrow> r = (s', Inl e) \<or> (\<exists>s a. r = (s, Inr a) \<and> f a s = (s', Inl e))"
  by (cases r; cases "snd r") auto

lemma recover_failed:
  assumes "recoverDaemons X name paths inst s = (s', Inl (LcReassert e))"
  obtains s1 where "ApplyFiltered X name s1 = (s', Inl e)"
proof -
  have d: "start_daemon X LcRecover k n i ps x \<noteq> (y, Inl (LcReassert e))" for k n i ps x y
    by (auto simp: start_daemon_def on_host_def check_step_def split: prod.splits option.splits)
  have c: "(case ApplyFiltered X name x of (y, Inl e) \<Rightarrow> (y, Inl (LcReassert e)) | (y, Inr u) \<Rightarrow> (y, Inr ())) = (s', Inl (LcReassert e))
      \<longleftrightarrow> ApplyFiltered X name x = (s', Inl e)" for x
    by (cases "ApplyFiltered X name x"; cases "snd (ApplyFiltered X name x)") auto
  have "\<exists>s1. ApplyFiltered X name s1 = (s', Inl e)"
    using assms unfolding recoverDaemons_def by (auto simp: bind_step_Inl d c split: option.splits if_splits)
  then show thesis using that by blast
qed

text \<open>
  C13 (safety). On macOS, \<open>abox start\<close> on an instance whose guest already runs re-asserts its rules and does not fail closed: whenever the policy could
  be defined but not applied, and the helper can be reached and carries out the removal that follows, the anchor of the instance is empty
  afterwards, so that no packet of the guest matches any rule of it, and the guest goes on running.
\<close>

theorem reassert_opens_running_guest:
  fixes X :: "('v, 'k pf_world, 't) life_env"
  assumes "pf_reader read" "pfctl_anchors (pe_run P) anchor" and "li_K X = Some (vfkit_controller P)"
    and "vm_IsRunning (li_M X) name (fst s)" and "runStart X name s = (s', Inl (LcReassert (LcApply e)))"
    and "ResolveEnforcer (pe_provider P (fst s')) = None" and "pe_rpc P (fst s') CallFlush \<noteq> LostRequest"
    and "\<And>a k. snd (pe_run P [''-a'', a, ''-F'', ''all''] [] k)"
  shows "\<exists>inst paths. LoadRequired (li_C X) (fst s') name = Inr (inst, paths) \<and> vm_IsRunning (li_M X) name (fst s')
    \<and> anchor (pw_kernel (snd s')) (''abox/'' @ i_Name inst) = []
    \<and> (\<forall>q. pf_eval (read (anchor (pw_kernel (snd s')) (''abox/'' @ i_Name inst))) q = PfNone)"
proof -
  obtain s1 where "ApplyFiltered X name s1 = (s', Inl (LcApply e))"
    using assms(4,5) by (auto simp: runStart_def LoadRequired_def RequireMigrated_def load_checked_def split: sum.splits option.splits if_splits elim: recover_failed)
  then obtain inst paths p where f: "LoadRunning X (fst s') name = Inr (inst, paths)"
      "vfkit_Define P inst (BuildEgressPolicy inst) (fst s') (snd s1) = (p, None)"
      "snd s' = fst (pf_Remove P inst (fst s') (fst (vfkit_Apply P inst (fst s') p)))"
    by (rule ApplyFiltered_failed [OF _ assms(3)]) (simp add: vfkit_controller_def)
  then have "validateInstanceName (i_Name inst) = None"
    by (auto simp: vfkit_Define_def LoadPreBootDeny_def pf_LoadAnchor_def over_rpc_ok LoadAnchor_def split: option.splits prod.splits sum.splits)
  then have a: "anchor (pw_kernel (snd s')) (''abox/'' @ i_Name inst) = []"
    unfolding f(3) using pf_Remove_flushed [OF assms(2,6,7) _ assms(8)] by blast
  have "pf_eval (read []) q = PfNone" for q
    by (simp add: pf_reader.plain [OF assms(1)] pf_plain_def plain_statements_def pf_eval_def not_statement_Nil)
  then show ?thesis using f(1) a by (auto simp: LoadRunning_def split: sum.splits if_splits)
qed

text \<open>A configuration that has lost the bridge of the running guest: before the command the policy is in force, after it a packet to any host matches no rule.\<close>

theorem reassert_opens_running_guest_witness:
  "\<exists>s'. runStart (bare_host (vfkit_controller mac_env)) ''dev'' ((demo_disk, (\<lambda>_. True)), pf_running) = (s', Inl (LcReassert (LcApply (CtlNoBridge ''dev''))))
     \<and> snd (fst s') ''dev'' \<and> anchor_enforced ref_read (\<lambda>k. k) ''bridge100'' ported pf_running
     \<and> (\<forall>q. pf_eval (ref_read (pw_kernel (snd s') ''abox/dev'')) q = PfNone)"
proof -
  let ?K = "vfkit_controller mac_env" and ?i = "ported\<lparr>i_BackendConfig := None\<rparr>" and ?v = "(demo_disk, \<lambda>_ :: string. True)"
  let ?X = "bare_host ?K"
  have "li_C ?X = disk_env ?i" "li_be_error ?X = None" by (simp_all add: bare_host_def guest_host_def)
  moreover have "Instance_Validate ref_ext ref_radix ?i = None"
    using guest_instance_valid by (simp add: Instance_Validate_def ported_def set_ports_def validateHTTPConfig_def cong: if_cong option.case_cong)
  moreover have "i_StorageDir ?i = []" "i_Version ?i = CurrentInstanceVersion" using guest_instance_facts by (simp_all add: ported_def set_ports_def)
  ultimately obtain paths where l: "LoadRequired (li_C ?X) ?v ''dev'' = Inr (?i, paths)" "load_checked ?X ''dev'' ?v = Inr (?i, paths)" by (rule disk_loaded)
  have d: "start_daemon ?X w k n inst ps s = (s, Inr ())" for w k n inst ps s
    by (simp add: start_daemon_def bare_host_def guest_host_def ref_daemons_def on_host_def check_step_def)
  have r: "vm_IsRunning (li_M ?X) ''dev'' ?v" "li_K ?X = Some ?K" by (simp_all add: bare_host_def guest_host_def ref_machine_def)
  obtain p' where p': "\<forall>v. ctl_Define ?K ?i (BuildEgressPolicy ?i) v pf_running = (p', None)"
    using mac_defined [of pf_running wired_disk ?i] ported_facts(6) wired_disk_facts(2) by (auto simp: pf_running_def)
  have b: "ctl_Apply ?K ?i v p' = (p', Some (CtlNoBridge ''dev''))" for v
    by (simp add: vfkit_controller_def vfkit_Apply_def bridgeFor_def bridgeFromConfig_def BackendString_def backend_value_def ref_pf_env_def ported_facts(1))
  have "ApplyFiltered ?X ''dev'' (?v, pf_running) = ((?v, fst (pf_Remove mac_env ?i ?v p')), Inl (LcApply (CtlNoBridge ''dev'')))"
    using l(1) r p' b by (simp add: ApplyFiltered_def LoadRunning_def on_filters_def check_step_def) (simp add: vfkit_controller_def)
  then have s: "runStart ?X ''dev'' (?v, pf_running) = ((?v, fst (pf_Remove mac_env ?i ?v p')), Inl (LcReassert (LcApply (CtlNoBridge ''dev''))))"
    using l(2) r d by (simp add: runStart_def recoverDaemons_def)
  have "pfctl_anchors (pe_run mac_env) (\<lambda>k. k)" "pe_rpc mac_env ?v CallFlush \<noteq> LostRequest" "snd (pe_run mac_env [''-a'', a, ''-F'', ''all''] [] k)" for a k
    using ref_pfctl.pfctl_anchors_axioms by (simp_all add: ref_pf_env_def)
  from reassert_opens_running_guest [OF ref_reader.pf_reader_axioms this(1) r(2) _ s _ _ this(3)] this(2) r(1) mac_provider(1) l(1)
  show ?thesis using s running_enforced ported_facts(1) by auto
qed

end
