(* ===== verification/Archive.thy ===== *)
theory Archive
  imports Config_Paths
begin

unbundle bit_operations_syntax

text \<open>
  Archives of instances: the extraction of \<^verbatim>\<open>pkg/cmd/importcmd/import.go\<close> and the writer of \<^verbatim>\<open>pkg/cmd/export/export.go\<close>. A
  compressed tar stream is the list of its entries, each with the bytes that can be read after its header; the disk is a map from
  the segments of a path to a directory or a file. The extraction makes no links, so a path below the new directory means what its text says.
\<close>

section \<open>Disk and archive\<close>

datatype os_node = NDir "32 word" | NFile string "32 word"

type_synonym os_tree = "string list \<rightharpoonup> os_node"

text \<open>What the system refuses, in a given tree: making a directory, opening a file, and writing more than some number of bytes to it.\<close>

record os_env =
  oe_umask :: "32 word"
  oe_mkdir :: "string list \<Rightarrow> os_tree \<Rightarrow> os_error option"
  oe_open :: "string list \<Rightarrow> os_tree \<Rightarrow> os_error option"
  oe_write :: "string list \<Rightarrow> nat option"

datatype tar_type = TypeReg | TypeDir | TypeOther

record tar_header =
  th_Name :: string
  th_Typeflag :: tar_type
  th_Size :: int
  th_Mode :: int

text \<open>The stream may break off inside the data of an entry or between two entries.\<close>

record tar_entry =
  te_header :: tar_header
  te_data :: string
  te_broken :: bool

record tar_stream =
  ts_entries :: "tar_entry list"
  ts_broken :: bool

datatype archive_error =
    ArEntry string | ArNegative string int | ArFileCap string | ArTotalCap | ArEntryCount | ArRead | ArWrite | ArOS os_error

definition masked :: "os_env \<Rightarrow> 32 word \<Rightarrow> 32 word" where
  "masked E mode = mode AND 511 AND NOT (oe_umask E)"

text \<open>\<open>os.MkdirAll\<close>, on the reversed path: an existing directory ends the climb, the missing ones are made from the top.\<close>

fun os_MkdirAll :: "os_env \<Rightarrow> 32 word \<Rightarrow> string list \<Rightarrow> os_tree \<Rightarrow> os_tree \<times> os_error option" where
  "os_MkdirAll E mode [] t = (t, None)"
| "os_MkdirAll E mode (x # xs) t =
     (let p = rev (x # xs) in
      case t p of
        Some (NDir _) \<Rightarrow> (t, None)
      | Some (NFile _ _) \<Rightarrow> (t, Some (ErrOther ''not a directory''))
      | None \<Rightarrow>
          (case os_MkdirAll E mode xs t of
             (t', Some e) \<Rightarrow> (t', Some e)
           | (t', None) \<Rightarrow> (case oe_mkdir E p t' of Some e \<Rightarrow> (t', Some e) | None \<Rightarrow> (t'(p \<mapsto> NDir (masked E mode)), None))))"

text \<open>\<open>os.OpenFile\<close> for writing, which creates or empties the file; an existing file keeps its mode.\<close>

definition os_Create :: "os_env \<Rightarrow> 32 word \<Rightarrow> string list \<Rightarrow> os_tree \<Rightarrow> os_tree \<times> os_error option" where
  "os_Create E mode p t =
     (case oe_open E p t of Some e \<Rightarrow> (t, Some e) | None \<Rightarrow>
      if p = [] then (t, Some (ErrOther ''is a directory''))
      else (case t p of
        Some (NDir _) \<Rightarrow> (t, Some (ErrOther ''is a directory''))
      | Some (NFile _ m) \<Rightarrow> (t(p \<mapsto> NFile [] m), None)
      | None \<Rightarrow>
          (case t (butlast p) of
             Some (NDir _) \<Rightarrow> (t(p \<mapsto> NFile [] (masked E mode)), None)
           | Some (NFile _ _) \<Rightarrow> (t, Some (ErrOther ''not a directory''))
           | None \<Rightarrow> if butlast p = [] then (t(p \<mapsto> NFile [] (masked E mode)), None) else (t, Some ErrNotExist))))"

definition put_content :: "string list \<Rightarrow> string \<Rightarrow> os_tree \<Rightarrow> os_tree" where
  "put_content p c t = (case t p of Some (NFile _ m) \<Rightarrow> t(p \<mapsto> NFile c m) | _ \<Rightarrow> t)"

text \<open>\<open>io.Copy\<close> from the stream with a limit into an open file: the number of bytes, or an error after some of them.\<close>

definition copy_limited :: "os_env \<Rightarrow> tar_entry \<Rightarrow> int \<Rightarrow> string list \<Rightarrow> os_tree \<Rightarrow> os_tree \<times> (archive_error + int)" where
  "copy_limited E ent limit p t =
     (let data = take (nat limit) (te_data ent) in
      case oe_write E p of
        Some k \<Rightarrow> if k < length data then (put_content p (take k data) t, Inl ArWrite)
                   else (put_content p data t, if te_broken ent \<and> length data < nat limit then Inl ArRead else Inr (int (length data)))
      | None \<Rightarrow> (put_content p data t, if te_broken ent \<and> length data < nat limit then Inl ArRead else Inr (int (length data))))"

section \<open>Extraction\<close>

definition maxImportFileBytes :: int where "maxImportFileBytes = 10 * 1024 * 1024 * 1024 * 1024"
definition maxImportUncompressedBytes :: int where "maxImportUncompressedBytes = 11 * 1024 * 1024 * 1024 * 1024"
definition maxImportEntries :: nat where "maxImportEntries = 100000"

definition path_key :: "string \<Rightarrow> string list" where
  "path_key p = clean_segments True p"

definition extractTarFile :: "os_env \<Rightarrow> tar_entry \<Rightarrow> string \<Rightarrow> int \<Rightarrow> os_tree \<Rightarrow> os_tree \<times> (archive_error + int)" where
  "extractTarFile E ent targetPath totalBytes t =
     (let h = te_header ent in
      if th_Size h < 0 then (t, Inl (ArNegative (th_Name h) (th_Size h)))
      else if maxImportFileBytes < th_Size h then (t, Inl (ArFileCap (th_Name h)))
      else let remaining = maxImportUncompressedBytes - totalBytes in
      if remaining \<le> 0 then (t, Inl ArTotalCap)
      else (case os_MkdirAll E 493 (rev (path_key (filepath_Dir targetPath))) t of
        (t1, Some e) \<Rightarrow> (t1, Inl (ArOS e))
      | (t1, None) \<Rightarrow>
     (case os_Create E (word_of_int (th_Mode h)) (path_key targetPath) t1 of
        (t2, Some e) \<Rightarrow> (t2, Inl (ArOS e))
      | (t2, None) \<Rightarrow>
          (let limit = (if remaining < th_Size h then remaining + 1 else th_Size h) in
           case copy_limited E ent limit (path_key targetPath) t2 of
             (t3, Inl e) \<Rightarrow> (t3, Inl e)
           | (t3, Inr n) \<Rightarrow>
               (t3, if maxImportUncompressedBytes < totalBytes + n then Inl ArTotalCap else Inr (totalBytes + n))))))"

definition extractTarEntry :: "os_env \<Rightarrow> tar_entry \<Rightarrow> string \<Rightarrow> int \<Rightarrow> os_tree \<Rightarrow> os_tree \<times> (archive_error + int)" where
  "extractTarEntry E ent destDir totalBytes t =
     (let h = te_header ent;
          targetPath = filepath_Join [destDir, th_Name h];
          cleanTarget = path_Clean targetPath;
          cleanDest = path_Clean destDir @ ''/'' in
      if \<not> HasPrefix cleanTarget cleanDest \<and> cleanTarget \<noteq> path_Clean destDir then (t, Inl (ArEntry (th_Name h)))
      else (case th_Typeflag h of
        TypeDir \<Rightarrow>
          (case os_MkdirAll E (word_of_int (th_Mode h)) (rev (path_key targetPath)) t of
             (t', Some e) \<Rightarrow> (t', Inl (ArOS e)) | (t', None) \<Rightarrow> (t', Inr totalBytes))
      | TypeReg \<Rightarrow> extractTarFile E ent targetPath totalBytes t
      | TypeOther \<Rightarrow> (t, Inr totalBytes)))"

fun extract_loop :: "os_env \<Rightarrow> string \<Rightarrow> bool \<Rightarrow> tar_entry list \<Rightarrow> nat \<Rightarrow> int \<Rightarrow> os_tree \<Rightarrow> os_tree \<times> archive_error option" where
  "extract_loop E destDir broken [] entries totalBytes t = (t, if broken then Some ArRead else None)"
| "extract_loop E destDir broken (ent # ents) entries totalBytes t =
     (if maxImportEntries < Suc entries then (t, Some ArEntryCount)
      else (case extractTarEntry E ent destDir totalBytes t of
        (t', Inl e) \<Rightarrow> (t', Some e)
      | (t', Inr total') \<Rightarrow> extract_loop E destDir broken ents (Suc entries) total' t'))"

text \<open>\<open>tr.Next\<close> skips what is left of the data of an entry; a stream that breaks off there ends with an error.\<close>

definition extractTarGz :: "os_env \<Rightarrow> tar_stream \<Rightarrow> string \<Rightarrow> os_tree \<Rightarrow> os_tree \<times> archive_error option" where
  "extractTarGz E s destDir t = extract_loop E destDir (ts_broken s) (ts_entries s) 0 0 t"

section \<open>Writing an archive\<close>

text \<open>The directory that is archived, with the entries of each directory in the order in which it is read.\<close>

datatype src_node = SFile string "32 word" | SLink string | SDir "32 word" "(string \<times> src_node) list"

text \<open>What fails: the creation of the archive; for each entry below the directory (by its relative path, the directory itself being the empty one) the look at it,
  its information, its header, its opening and its copying after some bytes; and the closing of the three writers.\<close>

record export_env =
  xe_create :: "os_error option"
  xe_walk :: "string list \<Rightarrow> os_error option"
  xe_info :: "string list \<Rightarrow> os_error option"
  xe_header :: "string list \<Rightarrow> os_error option"
  xe_open :: "string list \<Rightarrow> os_error option"
  xe_copy :: "string list \<Rightarrow> (nat \<times> os_error) option"
  xe_tar :: "os_error option"
  xe_gzip :: "os_error option"
  xe_file :: "os_error option"

text \<open>The header of \<open>tar.FileInfoHeader\<close> with the relative path as its name.\<close>

definition tar_entry_of :: "string list \<Rightarrow> os_node \<Rightarrow> tar_entry" where
  "tar_entry_of rel nd =
     (case nd of
        NDir m \<Rightarrow> \<lparr>te_header = \<lparr>th_Name = Join rel ''/'', th_Typeflag = TypeDir, th_Size = 0, th_Mode = uint m\<rparr>, te_data = [], te_broken = False\<rparr>
      | NFile c m \<Rightarrow>
          \<lparr>te_header = \<lparr>th_Name = Join rel ''/'', th_Typeflag = TypeReg, th_Size = int (length c), th_Mode = uint m\<rparr>, te_data = c, te_broken = False\<rparr>)"

text \<open>What the call leaves in the archive, and its error. An entry whose content could not be copied is cut off.\<close>

definition writeTarFileContent :: "export_env \<Rightarrow> string list \<Rightarrow> tar_entry \<Rightarrow> tar_entry \<times> os_error option" where
  "writeTarFileContent X rel ent =
     (case xe_open X rel of
        Some e \<Rightarrow> (ent\<lparr>te_data := [], te_broken := True\<rparr>, Some e)
      | None \<Rightarrow>
          (case xe_copy X rel of
             Some (n, e) \<Rightarrow> (ent\<lparr>te_data := take n (te_data ent), te_broken := True\<rparr>, Some e)
           | None \<Rightarrow> (ent, None)))"

definition writeTarEntry :: "export_env \<Rightarrow> string list \<Rightarrow> os_node \<Rightarrow> tar_entry list \<times> os_error option" where
  "writeTarEntry X rel nd =
     (case xe_info X rel of Some e \<Rightarrow> ([], Some e) | None \<Rightarrow>
      case xe_header X rel of Some e \<Rightarrow> ([], Some e) | None \<Rightarrow>
      case nd of
        NDir m \<Rightarrow> ([tar_entry_of rel nd], None)
      | NFile c m \<Rightarrow> (case writeTarFileContent X rel (tar_entry_of rel nd) of (ent, e) \<Rightarrow> ([ent], e)))"

text \<open>\<open>filepath.WalkDir\<close> with the function that \<open>createTarGz\<close> gives it: links are skipped, a directory is written and then read, and the first error ends
  the walk. \<open>es\<close> is what was written so far.\<close>

function walk_node :: "export_env \<Rightarrow> string list \<Rightarrow> src_node \<Rightarrow> tar_entry list \<Rightarrow> tar_entry list \<times> os_error option"
  and walk_entries :: "export_env \<Rightarrow> string list \<Rightarrow> (string \<times> src_node) list \<Rightarrow> tar_entry list \<Rightarrow> tar_entry list \<times> os_error option" where
  "walk_node X rel (SLink target) es = (es, None)"
| "walk_node X rel (SFile c m) es = (case writeTarEntry X rel (NFile c m) of (new, e) \<Rightarrow> (es @ new, e))"
| "walk_node X rel (SDir m nodes) es =
     (case writeTarEntry X rel (NDir m) of
        (new, Some e) \<Rightarrow> (es @ new, Some e)
      | (new, None) \<Rightarrow> (case xe_walk X rel of Some e \<Rightarrow> (es @ new, Some e) | None \<Rightarrow> walk_entries X rel nodes (es @ new)))"
| "walk_entries X rel [] es = (es, None)"
| "walk_entries X rel ((n, nd) # nodes) es =
     (case walk_node X (rel @ [n]) nd es of
        (es', Some e) \<Rightarrow> (es', Some e)
      | (es', None) \<Rightarrow> walk_entries X rel nodes es')"
  by pat_completeness auto
termination
  by (relation "measure (case_sum (\<lambda>(X, rel, nd, es). 2 * size nd) (\<lambda>(X, rel, nodes, es). 1 + 2 * size_list (size_prod (\<lambda>_. 0) size) nodes))") auto

text \<open>The archive that is left, if it could be created, and the error. The writers are closed after a failed walk too. A source that is no directory
  (\<open>export\<close> passes a directory it has made) is visited once, as the path that is skipped.\<close>

definition first_failure :: "os_error option list \<Rightarrow> os_error option" where
  "first_failure es = (case find (\<lambda>e. e \<noteq> None) es of None \<Rightarrow> None | Some e \<Rightarrow> e)"

definition createTarGz :: "export_env \<Rightarrow> src_node \<Rightarrow> tar_stream option \<times> os_error option" where
  "createTarGz X src =
     (case xe_create X of Some e \<Rightarrow> (None, Some e) | None \<Rightarrow>
      case (case xe_walk X [] of Some e \<Rightarrow> ([], Some e) | None \<Rightarrow>
            (case src of SDir m nodes \<Rightarrow> walk_entries X [] nodes [] | _ \<Rightarrow> ([], None))) of
        (es, walkErr) \<Rightarrow>
          (Some \<lparr>ts_entries = es, ts_broken = (xe_tar X \<noteq> None \<or> xe_gzip X \<noteq> None \<or> xe_file X \<noteq> None)\<rparr>,
           first_failure [walkErr, xe_tar X, xe_gzip X, xe_file X]))"

section \<open>Nothing outside the directory is touched\<close>

lemma path_key_rooted [simp]: "list_all normal_seg ss \<Longrightarrow> path_key (rooted ss) = ss"
  by (simp add: path_key_def)

lemma Dir_rooted:
  assumes "list_all normal_seg ss"
  shows "filepath_Dir (rooted ss) = rooted (butlast ss)"
proof (cases ss rule: rev_cases)
  case Nil
  then show ?thesis by (simp add: filepath_Dir_def rooted_def path_Clean_def clean_segments_def)
next
  case (snoc as x)
  have x: "CHR ''/'' \<notin> set x" and n: "list_all normal_seg as" using assms snoc by (auto simp: normal_seg_def seg_ok_def)
  have r: "rooted ss = (if as = [] then ''/'' else rooted as @ ''/'') @ x"
    using snoc by (simp add: rooted_append) (simp add: rooted_def)
  have d: "rev (dropWhile (\<lambda>c. c \<noteq> CHR ''/'') (rev (w @ ''/'' @ x))) = w @ ''/''" for w
  proof -
    have "dropWhile (\<lambda>c. c \<noteq> CHR ''/'') (rev x @ CHR ''/'' # rev w) = CHR ''/'' # rev w" using x by (subst dropWhile_append2) auto
    then show ?thesis by simp
  qed
  have "clean_segments True (rooted as @ ''/'') = as"
    using clean_segments_rooted [OF n] Split_append_sep [of "rooted as" "CHR ''/''" "[]"] by (simp add: clean_segments_def)
  then have "path_Clean (rooted as @ ''/'') = rooted as"
    using path_Clean_rooted [of "rooted as @ ''/''"] by (simp add: rooted_def)
  then show ?thesis
    using d [of "[]"] d [of "rooted as"] snoc unfolding filepath_Dir_def r by (auto simp: rooted_def path_Clean_def clean_segments_def)
qed

definition unchanged_outside :: "string list \<Rightarrow> os_tree \<Rightarrow> os_tree \<Rightarrow> bool" where
  "unchanged_outside ds t t' \<longleftrightarrow> (\<forall>k. \<not> strict_prefix ds k \<longrightarrow> t' k = t k)"

lemma unchanged_trans: "unchanged_outside ds t t' \<Longrightarrow> unchanged_outside ds t' t'' \<Longrightarrow> unchanged_outside ds t t''"
  by (simp add: unchanged_outside_def)

lemma unchanged_dir: "unchanged_outside ds t t' \<Longrightarrow> t' ds = t ds"
  by (simp add: unchanged_outside_def)

lemma unchanged_update: "strict_prefix ds p \<Longrightarrow> unchanged_outside ds t (t(p \<mapsto> n))"
  by (auto simp: unchanged_outside_def)

lemma unchanged_refl [simp]: "unchanged_outside ds t t"
  by (simp add: unchanged_outside_def)

lemma MkdirAll_outside:
  assumes "t ds = Some (NDir m)" and "prefix ds (rev xs)"
  shows "unchanged_outside ds t (fst (os_MkdirAll E mode xs t))"
  using assms(2)
proof (induction xs)
  case (Cons x xs)
  show ?case
  proof (cases "rev (x # xs) = ds")
    case True
    then show ?thesis using assms(1) by (simp add: Let_def)
  next
    case False
    then have p: "prefix ds (rev xs)" "strict_prefix ds (rev xs @ [x])" using Cons.prems by (auto simp: strict_prefix_def)
    note u = Cons.IH [OF p(1)]
    show ?thesis using u p(2)
      by (auto simp: Let_def unchanged_outside_def split: option.splits os_node.splits prod.splits)
  qed
qed simp

lemma Create_outside:
  assumes "t ds = Some (NDir m)" and "prefix ds p"
  shows "unchanged_outside ds t (fst (os_Create E mode p t))" "os_Create E mode p t = (t', None) \<Longrightarrow> strict_prefix ds p"
proof -
  have "p \<noteq> ds" if "os_Create E mode p t = (t', None)" for t' using that assms(1) by (auto simp: os_Create_def split: option.splits if_splits)
  then show s: "os_Create E mode p t = (t', None) \<Longrightarrow> strict_prefix ds p" for t' using assms(2) by (simp add: strict_prefix_def)
  show "unchanged_outside ds t (fst (os_Create E mode p t))"
  proof (cases "p = ds")
    case True
    then show ?thesis using assms(1) by (auto simp: os_Create_def split: option.splits)
  next
    case False
    then have "strict_prefix ds p" using assms(2) by (simp add: strict_prefix_def)
    then show ?thesis by (auto simp: os_Create_def unchanged_update split: option.splits os_node.splits)
  qed
qed

lemma copy_outside: "strict_prefix ds p \<Longrightarrow> unchanged_outside ds t (fst (copy_limited E ent limit p t))"
  by (auto simp: copy_limited_def put_content_def Let_def unchanged_update split: option.splits os_node.splits)

text \<open>The target of an accepted entry.\<close>

lemma entry_target:
  assumes "list_all normal_seg ds" "ds \<noteq> []"
    and "HasPrefix (path_Clean (filepath_Join [rooted ds, name])) (path_Clean (rooted ds) @ ''/'') \<or> path_Clean (filepath_Join [rooted ds, name]) = path_Clean (rooted ds)"
  obtains "filepath_Join [rooted ds, name] = rooted (resolve ds name)" "prefix ds (resolve ds name)" "list_all normal_seg (resolve ds name)"
proof -
  have n: "list_all normal_seg (resolve ds name)" by (rule normal_resolve [OF assms(1)])
  have j: "filepath_Join [rooted ds, name] = rooted (resolve ds name)" by (rule Join_resolve [OF assms(1)])
  have "within (rooted ds) (rooted (resolve ds name))" using assms(1,3) n by (auto simp: within_def j)
  then show ?thesis using that j n within_rooted [OF assms(1,2) n] by simp
qed

text \<open>A directory that exists, with all above it.\<close>

definition dir_exists :: "os_tree \<Rightarrow> string list \<Rightarrow> bool" where
  "dir_exists t ds \<longleftrightarrow> (\<forall>k. prefix k ds \<and> k \<noteq> [] \<longrightarrow> (\<exists>m. t k = Some (NDir m)))"

lemma dir_exists_unchanged: "dir_exists t ds \<Longrightarrow> unchanged_outside ds t t' \<Longrightarrow> dir_exists t' ds"
  unfolding dir_exists_def unchanged_outside_def by (metis prefix_order.leD)

lemma MkdirAll_exists: "dir_exists t p \<Longrightarrow> os_MkdirAll E mode (rev p) t = (t, None)"
  unfolding dir_exists_def by (cases p rule: rev_cases) (auto simp: Let_def)

lemma dir_exists_butlast: "dir_exists t ds \<Longrightarrow> dir_exists t (butlast ds)"
  unfolding dir_exists_def by (metis prefix_order.trans prefixeq_butlast)

lemma extractTarFile_outside:
  fixes tot :: int
  assumes "dir_exists t ds" "ds \<noteq> []" "prefix ds p" "list_all normal_seg p"
  shows "unchanged_outside ds t (fst (extractTarFile E ent (rooted p) tot t))"
proof -
  obtain m where m: "t ds = Some (NDir m)" using assms(1,2) unfolding dir_exists_def by blast
  have d: "path_key (filepath_Dir (rooted p)) = butlast p"
    using assms(4) by (simp add: Dir_rooted list_all_iff in_set_butlastD)
  obtain t1 e1 where 1: "os_MkdirAll E 493 (rev (butlast p)) t = (t1, e1)" by (meson surj_pair)
  have u1: "unchanged_outside ds t t1"
  proof (cases "p = ds")
    case True
    then show ?thesis using 1 MkdirAll_exists [OF dir_exists_butlast [OF assms(1)]] by simp
  next
    case False
    then have "prefix ds (butlast p)" using assms(3) by (cases p rule: rev_cases) auto
    then show ?thesis using MkdirAll_outside [of t ds m "rev (butlast p)" E 493] m 1 by simp
  qed
  have m1: "t1 ds = Some (NDir m)" using m unchanged_dir [OF u1] by simp
  obtain t2 e2 where 2: "os_Create E (word_of_int (th_Mode (te_header ent))) p t1 = (t2, e2)" by (meson surj_pair)
  have u2: "unchanged_outside ds t t2" using unchanged_trans [OF u1] Create_outside(1) [of t1 ds m p] m1 assms(3) 2 by (metis fst_conv)
  have "e2 = None \<Longrightarrow> unchanged_outside ds t2 (fst (copy_limited E ent limit p t2))" for limit
    using copy_outside Create_outside(2) [of t1 ds m p] m1 assms(3) 2 by blast
  note u3 = unchanged_trans [OF u2 this]
  show ?thesis
    using u1 u2 u3 assms(4) d 1 2
    by (auto simp: extractTarFile_def Let_def split: option.splits prod.splits sum.splits) (metis fst_conv)+
qed

lemma extractTarEntry_outside:
  assumes "dir_exists t ds" "ds \<noteq> []" "list_all normal_seg ds"
  shows "unchanged_outside ds t (fst (extractTarEntry E ent (rooted ds) tot t))"
proof -
  let ?p = "resolve ds (th_Name (te_header ent))"
  obtain m where m: "t ds = Some (NDir m)" using assms(1,2) unfolding dir_exists_def by blast
  show ?thesis
  proof (cases "HasPrefix (path_Clean (filepath_Join [rooted ds, th_Name (te_header ent)])) (path_Clean (rooted ds) @ ''/'')
      \<or> path_Clean (filepath_Join [rooted ds, th_Name (te_header ent)]) = path_Clean (rooted ds)")
    case True
    then obtain a: "filepath_Join [rooted ds, th_Name (te_header ent)] = rooted ?p" "prefix ds ?p" "list_all normal_seg ?p"
      by (rule entry_target [OF assms(3,2)])
    have d: "unchanged_outside ds t (fst (os_MkdirAll E mode (rev ?p) t))" for mode using MkdirAll_outside [of t ds m "rev ?p"] m a(2) by simp
    show ?thesis
      using True a d extractTarFile_outside [OF assms(1,2) a(2,3)]
      by (simp add: extractTarEntry_def Let_def split: tar_type.splits prod.splits option.splits) (metis fst_conv)
  next
    case False
    then show ?thesis by (simp add: extractTarEntry_def Let_def)
  qed
qed

lemma extract_outside:
  assumes "ds \<noteq> []" "list_all normal_seg ds" and "dir_exists t ds"
  shows "unchanged_outside ds t (fst (extract_loop E (rooted ds) b ents k tot t))"
  using assms(3)
proof (induction ents arbitrary: k tot t)
  case (Cons ent ents)
  obtain t' r where s: "extractTarEntry E ent (rooted ds) tot t = (t', r)" by (meson surj_pair)
  have u: "unchanged_outside ds t t'" using extractTarEntry_outside [OF Cons.prems assms(1,2), of E ent tot] s by simp
  show ?case
    using u s unchanged_trans [OF u Cons.IH [OF dir_exists_unchanged [OF Cons.prems u]]] by (auto split: sum.splits)
qed simp

section \<open>The disk cannot be filled\<close>

definition content_length :: "os_node option \<Rightarrow> nat" where
  "content_length nd = (case nd of Some (NFile c _) \<Rightarrow> length c | _ \<Rightarrow> 0)"

definition files_below :: "string list \<Rightarrow> os_tree \<Rightarrow> string list set" where
  "files_below ds t = {k. prefix ds k \<and> content_length (t k) \<noteq> 0}"

definition bytes_below :: "string list \<Rightarrow> os_tree \<Rightarrow> nat" where
  "bytes_below ds t = (\<Sum>k \<in> files_below ds t. content_length (t k))"

text \<open>The files below a directory, with the bytes counted so far.\<close>

definition stored :: "string list \<Rightarrow> int \<Rightarrow> os_tree \<Rightarrow> bool" where
  "stored ds n t \<longleftrightarrow> finite (files_below ds t) \<and> int (bytes_below ds t) \<le> n"

lemma stored_mono: "stored ds n t \<Longrightarrow> n \<le> n' \<Longrightarrow> stored ds n' t"
  by (simp add: stored_def)

lemma stored_update:
  assumes "stored ds n t"
  shows "stored ds (n + int (content_length (Some nd))) (t(p \<mapsto> nd))"
proof -
  let ?t = "t(p \<mapsto> nd)" and ?A = "files_below ds t - {p}"
  have f: "finite ?A" using assms by (simp add: stored_def)
  have s: "files_below ds ?t \<subseteq> insert p ?A" by (auto simp: files_below_def)
  have 1: "bytes_below ds ?t \<le> (\<Sum>k \<in> insert p ?A. content_length (?t k))"
    unfolding bytes_below_def by (rule sum_mono2) (use f s in auto)
  have 2: "(\<Sum>k \<in> insert p ?A. content_length (?t k)) = content_length (Some nd) + (\<Sum>k \<in> ?A. content_length (?t k))"
    by (subst sum.insert) (use f in simp_all)
  have 3: "(\<Sum>k \<in> ?A. content_length (?t k)) = (\<Sum>k \<in> ?A. content_length (t k))" by (rule sum.cong) auto
  have 4: "(\<Sum>k \<in> ?A. content_length (t k)) \<le> bytes_below ds t"
    unfolding bytes_below_def by (rule sum_mono2) (use assms in \<open>auto simp: stored_def\<close>)
  have "int (bytes_below ds ?t) \<le> int (bytes_below ds t) + int (content_length (Some nd))" using 1 2 3 4 by linarith
  then show ?thesis using assms f finite_subset [OF s] unfolding stored_def by fastforce
qed

lemma stored_dir: "stored ds n t \<Longrightarrow> stored ds n (t(p \<mapsto> NDir m))"
  using stored_update [of ds n t "NDir m" p] by (simp add: content_length_def)

lemma stored_empty: "stored ds n t \<Longrightarrow> stored ds n (t(p \<mapsto> NFile [] m))"
  using stored_update [of ds n t "NFile [] m" p] by (simp add: content_length_def)

lemma stored_MkdirAll: "stored ds n t \<Longrightarrow> stored ds n (fst (os_MkdirAll E mode xs t))"
  by (induction xs) (auto simp: Let_def stored_dir split: option.splits os_node.splits prod.splits)

lemma stored_Create: "stored ds n t \<Longrightarrow> stored ds n (fst (os_Create E mode p t))"
  by (auto simp: os_Create_def stored_empty split: option.splits os_node.splits)

lemma stored_put: "stored ds n t \<Longrightarrow> stored ds (n + int (length c)) (put_content p c t)"
  using stored_update [of ds n t "NFile c m" p for m] by (auto simp: put_content_def content_length_def intro: stored_mono split: option.splits os_node.splits)

lemma copy_limited_stored:
  assumes "stored ds n t" and "copy_limited E ent limit p t = (t', r)" and "0 \<le> limit"
  shows "stored ds (n + limit) t'" "r = Inr k \<Longrightarrow> stored ds (n + k) t' \<and> k \<le> limit"
proof -
  let ?data = "take (nat limit) (te_data ent)"
  have l: "int (length ?data) \<le> limit" using assms(3) by (auto simp: min_def)
  have s: "stored ds (n + int (length c)) (put_content p c t)" for c by (rule stored_put [OF assms(1)])
  have g: "stored ds (n + limit) (put_content p c t)" if "int (length c) \<le> limit" for c using stored_mono [OF s] that by simp
  show "stored ds (n + limit) t'"
    using assms(2) l by (auto simp: copy_limited_def Let_def intro!: g split: option.splits if_splits)
  show "r = Inr k \<Longrightarrow> stored ds (n + k) t' \<and> k \<le> limit"
    using assms(2) s [of ?data] l by (auto simp: copy_limited_def Let_def split: option.splits if_splits)
qed

abbreviation cap :: int where "cap \<equiv> maxImportUncompressedBytes"

lemma extractTarFile_stored:
  assumes "stored ds tot t" "0 \<le> tot" "tot \<le> cap" and "extractTarFile E ent p tot t = (t', r)"
  shows "stored ds (cap + 1) t'" "r = Inr tot' \<Longrightarrow> stored ds tot' t' \<and> 0 \<le> tot' \<and> tot' \<le> cap"
proof -
  let ?h = "te_header ent" and ?rem = "cap - tot"
  let ?limit = "if ?rem < th_Size ?h then ?rem + 1 else th_Size ?h"
  obtain t1 e1 where 1: "os_MkdirAll E 493 (rev (path_key (filepath_Dir p))) t = (t1, e1)" by (meson surj_pair)
  obtain t2 e2 where 2: "os_Create E (word_of_int (th_Mode ?h)) (path_key p) t1 = (t2, e2)" by (meson surj_pair)
  obtain t3 r3 where 3: "copy_limited E ent ?limit (path_key p) t2 = (t3, r3)" by (meson surj_pair)
  have s1: "stored ds tot t1" using stored_MkdirAll [OF assms(1), of E 493 "rev (path_key (filepath_Dir p))"] 1 by simp
  have s2: "stored ds tot t2" using stored_Create [OF s1, of E "word_of_int (th_Mode ?h)" "path_key p"] 2 by simp
  have "stored ds (cap + 1) t" "stored ds (cap + 1) t1" "stored ds (cap + 1) t2" using assms(1-3) s1 s2 by (auto intro: stored_mono)
  note small = this
  have c: "stored ds (cap + 1) t3" "\<And>k. r3 = Inr k \<Longrightarrow> stored ds (tot + k) t3" if "0 \<le> th_Size ?h" "0 < ?rem"
  proof -
    have l: "0 \<le> ?limit" "tot + ?limit \<le> cap + 1" using that by auto
    show "stored ds (cap + 1) t3" using stored_mono [OF copy_limited_stored(1) [OF s2 3 l(1)] l(2)] .
    show "r3 = Inr k \<Longrightarrow> stored ds (tot + k) t3" for k using copy_limited_stored(2) [OF s2 3 l(1)] by blast
  qed
  have nn: "0 \<le> k" if "r3 = Inr k" for k using 3 that by (auto simp: copy_limited_def Let_def split: option.splits if_splits)
  show "stored ds (cap + 1) t'"
    using assms(4) small c 1 2 3 by (auto simp: extractTarFile_def Let_def split: if_splits option.splits sum.splits)
  show "stored ds tot' t' \<and> 0 \<le> tot' \<and> tot' \<le> cap" if "r = Inr tot'"
    using that assms(2,4) c nn 1 2 3 by (fastforce simp: extractTarFile_def Let_def split: if_splits option.splits sum.splits)
qed

lemma extractTarEntry_stored:
  assumes "stored ds tot t" "0 \<le> tot" "tot \<le> cap" and "extractTarEntry E ent d tot t = (t', r)"
  shows "stored ds (cap + 1) t'" "r = Inr tot' \<Longrightarrow> stored ds tot' t' \<and> 0 \<le> tot' \<and> tot' \<le> cap"
proof -
  note f = extractTarFile_stored [OF assms(1-3)]
  have m: "stored ds tot t'" if "os_MkdirAll E mode xs t = (t', e)" for mode xs e
    using stored_MkdirAll [OF assms(1), of E mode xs] that by simp
  have s: "stored ds (cap + 1) x" if "stored ds tot x" for x using that assms(3) by (auto intro: stored_mono)
  show "stored ds (cap + 1) t'"
    using assms(1,4) m s f(1) by (auto simp: extractTarEntry_def Let_def split: if_splits tar_type.splits prod.splits option.splits)
  show "stored ds tot' t' \<and> 0 \<le> tot' \<and> tot' \<le> cap" if "r = Inr tot'"
    using that assms m f(2) by (auto simp: extractTarEntry_def Let_def split: if_splits tar_type.splits prod.splits option.splits)
qed

lemma extract_stored:
  assumes "stored ds tot t" "0 \<le> tot" "tot \<le> cap" and "extract_loop E d b ents k tot t = (t', r)"
  shows "stored ds (cap + 1) t' \<and> (r = None \<longrightarrow> stored ds cap t' \<and> k + length ents \<le> max k maxImportEntries)"
  using assms
proof (induction ents arbitrary: k tot t)
  case Nil
  then show ?case by (auto intro: stored_mono)
next
  case (Cons ent ents)
  obtain t1 r1 where s: "extractTarEntry E ent d tot t = (t1, r1)" by (meson surj_pair)
  note e = extractTarEntry_stored [OF Cons.prems(1-3) s]
  show ?case
  proof (cases "maxImportEntries < Suc k")
    case True
    then show ?thesis using Cons.prems by (auto intro: stored_mono)
  next
    case False
    show ?thesis
    proof (cases r1)
      case (Inl x)
      then show ?thesis using False Cons.prems(4) s e(1) by auto
    next
      case (Inr tot1)
      then have "extract_loop E d b ents (Suc k) tot1 t1 = (t', r)" using False Cons.prems(4) s by simp
      from Cons.IH [OF _ _ _ this] e(2) [OF Inr] False show ?thesis by auto
    qed
  qed
qed

section \<open>What is written can be read\<close>

text \<open>The files and directories of a tree with their relative paths, in the order of the walk.\<close>

function flatten :: "string list \<Rightarrow> src_node \<Rightarrow> (string list \<times> os_node) list"
  and flatten_nodes :: "string list \<Rightarrow> (string \<times> src_node) list \<Rightarrow> (string list \<times> os_node) list" where
  "flatten rel (SLink target) = []"
| "flatten rel (SFile c m) = [(rel, NFile c m)]"
| "flatten rel (SDir m nodes) = (rel, NDir m) # flatten_nodes rel nodes"
| "flatten_nodes rel [] = []"
| "flatten_nodes rel ((n, nd) # nodes) = flatten (rel @ [n]) nd @ flatten_nodes rel nodes"
  by pat_completeness auto
termination
  by (relation "measure (case_sum (\<lambda>(rel, nd). 2 * size nd) (\<lambda>(rel, nodes). 1 + 2 * size_list (size_prod (\<lambda>_. 0) size) nodes))") auto

text \<open>What is at a relative path, links apart.\<close>

fun src_lookup :: "string list \<Rightarrow> src_node \<Rightarrow> os_node option" where
  "src_lookup [] nd = (case nd of SLink _ \<Rightarrow> None | SFile c m \<Rightarrow> Some (NFile c m) | SDir m nodes \<Rightarrow> Some (NDir m))"
| "src_lookup (n # rel) nd =
     (case nd of SDir m nodes \<Rightarrow> (case map_of nodes n of None \<Rightarrow> None | Some nd' \<Rightarrow> src_lookup rel nd') | _ \<Rightarrow> None)"

text \<open>The names of a directory are names, and different.\<close>

function src_ok :: "src_node \<Rightarrow> bool" and nodes_ok :: "(string \<times> src_node) list \<Rightarrow> bool" where
  "src_ok (SLink target) = True"
| "src_ok (SFile c m) = True"
| "src_ok (SDir m nodes) = nodes_ok nodes"
| "nodes_ok [] = True"
| "nodes_ok ((n, nd) # nodes) = (normal_seg n \<and> n \<notin> fst ` set nodes \<and> src_ok nd \<and> nodes_ok nodes)"
  by pat_completeness auto
termination
  by (relation "measure (case_sum (\<lambda>nd. 2 * size nd) (\<lambda>nodes. 1 + 2 * size_list (size_prod (\<lambda>_. 0) size) nodes))") auto

lemma writeTarEntry_ok: "writeTarEntry X rel nd = (new, None) \<Longrightarrow> new = [tar_entry_of rel nd]"
  by (auto simp: writeTarEntry_def writeTarFileContent_def split: option.splits os_node.splits prod.splits)

lemma walk_flatten:
  "walk_node X rel nd es = (es', None) \<Longrightarrow> es' = es @ map (\<lambda>(rel, nd). tar_entry_of rel nd) (flatten rel nd)"
  "walk_entries X rel nodes es = (es', None) \<Longrightarrow> es' = es @ map (\<lambda>(rel, nd). tar_entry_of rel nd) (flatten_nodes rel nodes)"
  by (induction X rel nd es and X rel nodes es arbitrary: es' and es' rule: walk_node_walk_entries.induct)
    (fastforce split: prod.splits option.splits dest: writeTarEntry_ok)+

text \<open>The order of a walk: a directory comes before what it contains, and nothing comes twice.\<close>

fun walked :: "(string list \<times> os_node) list \<Rightarrow> (string list \<times> os_node) list \<Rightarrow> bool" where
  "walked ws [] \<longleftrightarrow> True"
| "walked ws ((rel, nd) # us) \<longleftrightarrow>
     rel \<noteq> [] \<and> list_all normal_seg rel \<and> rel \<notin> fst ` set ws \<and> (\<forall>k. k \<noteq> [] \<and> strict_prefix k rel \<longrightarrow> (\<exists>m. (k, NDir m) \<in> set ws))
     \<and> walked (ws @ [(rel, nd)]) us"

lemma walked_append: "walked ws (us @ vs) \<longleftrightarrow> walked ws us \<and> walked (ws @ us) vs"
  by (induction us arbitrary: ws) auto

lemma distinct_walked_from: "walked ws us \<Longrightarrow> distinct (map fst ws) \<Longrightarrow> distinct (map fst (ws @ us))"
proof (induction us arbitrary: ws)
  case (Cons u us)
  then show ?case using Cons.IH [of "ws @ [u]"] by (cases u) auto
qed simp

lemma distinct_walked: "walked [] us \<Longrightarrow> distinct (map fst us)"
  using distinct_walked_from [of "[]"] by simp

lemma flatten_prefix:
  "x \<in> set (flatten rel nd) \<Longrightarrow> prefix rel (fst x)"
  "x \<in> set (flatten_nodes rel nodes) \<Longrightarrow> \<exists>n \<in> fst ` set nodes. prefix (rel @ [n]) (fst x)"
proof (induction rel nd and rel nodes rule: flatten_flatten_nodes.induct)
  case (3 rel m nodes)
  then show ?case by (auto dest: append_prefixD)
qed auto

lemma strict_prefix_snoc: "strict_prefix k (rel @ [n]) \<longleftrightarrow> prefix k rel"
  by (auto simp: strict_prefix_def)

lemma flatten_walked:
  "rel \<noteq> [] \<Longrightarrow> list_all normal_seg rel \<Longrightarrow> src_ok nd \<Longrightarrow> \<forall>k. k \<noteq> [] \<and> strict_prefix k rel \<longrightarrow> (\<exists>m. (k, NDir m) \<in> set ws) \<Longrightarrow>
     \<forall>x \<in> set ws. \<not> prefix rel (fst x) \<Longrightarrow> walked ws (flatten rel nd)"
  "list_all normal_seg rel \<Longrightarrow> nodes_ok nodes \<Longrightarrow> \<forall>k. k \<noteq> [] \<and> prefix k rel \<longrightarrow> (\<exists>m. (k, NDir m) \<in> set ws) \<Longrightarrow>
     \<forall>n \<in> fst ` set nodes. \<forall>x \<in> set ws. \<not> prefix (rel @ [n]) (fst x) \<Longrightarrow> walked ws (flatten_nodes rel nodes)"
proof (induction rel nd and rel nodes arbitrary: ws and ws rule: flatten_flatten_nodes.induct)
  case (3 rel m nodes)
  have "walked (ws @ [(rel, NDir m)]) (flatten_nodes rel nodes)"
  proof (rule "3.IH")
    show "\<forall>k. k \<noteq> [] \<and> prefix k rel \<longrightarrow> (\<exists>m'. (k, NDir m') \<in> set (ws @ [(rel, NDir m)]))"
      using "3.prems"(4) by (auto simp: strict_prefix_def)
    show "\<forall>n \<in> fst ` set nodes. \<forall>x \<in> set (ws @ [(rel, NDir m)]). \<not> prefix (rel @ [n]) (fst x)"
      using "3.prems"(5) by (auto dest: append_prefixD)
  qed (use "3.prems" in auto)
  then show ?case using "3.prems" by auto
next
  case (5 rel n nd nodes)
  have "walked ws (flatten (rel @ [n]) nd)"
    by (rule "5.IH"(1)) (use "5.prems" in \<open>auto simp: strict_prefix_snoc\<close>)
  moreover have "walked (ws @ flatten (rel @ [n]) nd) (flatten_nodes rel nodes)"
  proof (rule "5.IH"(2))
    have "\<not> prefix (rel @ [n']) (fst x)" if "x \<in> set (flatten (rel @ [n]) nd)" "n' \<in> fst ` set nodes" for x n'
    proof -
      have "n' \<noteq> n" using that(2) "5.prems"(2) by auto
      then show ?thesis using flatten_prefix(1) [OF that(1)] by (auto simp: prefix_def)
    qed
    then show "\<forall>n' \<in> fst ` set nodes. \<forall>x \<in> set (ws @ flatten (rel @ [n]) nd). \<not> prefix (rel @ [n']) (fst x)"
      using "5.prems"(4) by auto
  qed (use "5.prems" in auto)
  ultimately show ?case by (simp add: walked_append)
qed auto

lemma flatten_lookup:
  "src_ok nd \<Longrightarrow> map_of (flatten rel nd) (rel @ r) = src_lookup r nd"
  "nodes_ok nodes \<Longrightarrow> map_of (flatten_nodes rel nodes) (rel @ n # r) = (case map_of nodes n of None \<Rightarrow> None | Some nd \<Rightarrow> src_lookup r nd)"
proof (induction rel nd and rel nodes arbitrary: r and n r rule: flatten_flatten_nodes.induct)
  case (1 rel target)
  then show ?case by (cases r) simp_all
next
  case (2 rel c m)
  then show ?case by (cases r) simp_all
next
  case (3 rel m nodes)
  then show ?case by (cases r) (auto simp: map_of_eq_None_iff dest!: flatten_prefix(2))
next
  case (5 rel n' nd nodes)
  show ?case
  proof (cases "n = n'")
    case True
    have "n \<notin> fst ` set nodes" using "5.prems" True by simp
    have "rel @ n # r \<noteq> fst x" if x: "x \<in> set (flatten_nodes rel nodes)" for x
    proof -
      obtain n' where "n' \<in> fst ` set nodes" "prefix (rel @ [n']) (fst x)" using flatten_prefix(2) [OF x] ..
      with \<open>n \<notin> fst ` set nodes\<close> have "n' \<noteq> n" by metis
      with \<open>prefix (rel @ [n']) (fst x)\<close> show ?thesis by (auto simp: prefix_def)
    qed
    then have "map_of (flatten_nodes rel nodes) (rel @ n # r) = None" unfolding map_of_eq_None_iff by auto
    moreover have "map_of (flatten (rel @ [n']) nd) ((rel @ [n']) @ r) = src_lookup r nd" using "5.IH"(1) "5.prems" by simp
    ultimately show ?thesis using True by (simp add: map_add_def split: option.splits)
  next
    case False
    then have "map_of (flatten (rel @ [n']) nd) (rel @ n # r) = None"
      by (auto simp: map_of_eq_None_iff dest!: flatten_prefix(1))
    then show ?thesis using "5.IH"(2) "5.prems" False by (simp add: map_add_def split: option.splits)
  qed
qed simp

definition node_size :: "os_node \<Rightarrow> int" where
  "node_size nd = (case nd of NDir _ \<Rightarrow> 0 | NFile c _ \<Rightarrow> int (length c))"

definition remode :: "os_env \<Rightarrow> os_node \<Rightarrow> os_node" where
  "remode E nd = (case nd of NDir m \<Rightarrow> NDir (masked E m) | NFile c m \<Rightarrow> NFile c (masked E m))"

definition unpacked :: "os_env \<Rightarrow> string list \<Rightarrow> os_tree \<Rightarrow> (string list \<times> os_node) list \<Rightarrow> os_tree" where
  "unpacked E ds t ws k = (if strict_prefix ds k then map_option (remode E) (map_of ws (drop (length ds) k)) else t k)"

text \<open>A system that refuses nothing below a directory which the modes of the directories between permit: their owner may write and search them.\<close>

definition obliging :: "os_env \<Rightarrow> string list \<Rightarrow> bool" where
  "obliging E ds \<longleftrightarrow>
     (\<forall>p t. strict_prefix ds p \<and> (\<forall>k. strict_prefix ds k \<and> strict_prefix k p \<longrightarrow> (\<exists>m. t k = Some (NDir m) \<and> m AND 192 = 192)) \<longrightarrow>
        oe_mkdir E p t = None \<and> oe_open E p t = None)
     \<and> (\<forall>p. oe_write E p = None)"

lemma unpacked_below: "rel \<noteq> [] \<Longrightarrow> unpacked E ds t ws (ds @ rel) = map_option (remode E) (map_of ws rel)"
  by (simp add: unpacked_def strict_prefix_def)

lemma unpacked_snoc:
  assumes "rel \<noteq> []" "rel \<notin> fst ` set ws"
  shows "unpacked E ds t (ws @ [(rel, nd)]) = (unpacked E ds t ws)(ds @ rel \<mapsto> remode E nd)"
proof
  fix k
  show "unpacked E ds t (ws @ [(rel, nd)]) k = ((unpacked E ds t ws)(ds @ rel \<mapsto> remode E nd)) k"
  proof (cases "strict_prefix ds k")
    case True
    then obtain r where r: "k = ds @ r" "r \<noteq> []" by (auto simp: strict_prefix_def prefix_def)
    have "map_of (ws @ [(rel, nd)]) r = (if r = rel then Some nd else map_of ws r)"
    proof -
      have "map_of ws rel = None" using assms(2) by (simp add: map_of_eq_None_iff)
      then show ?thesis by (auto simp: map_add_def split: option.splits)
    qed
    then show ?thesis using r assms(1) by (auto simp: unpacked_below)
  next
    case False
    then show ?thesis using assms(1) by (auto simp: unpacked_def strict_prefix_def)
  qed
qed

lemma unpacked_permits:
  assumes "obliging E ds" and "rel \<noteq> []" and "\<forall>k. k \<noteq> [] \<and> strict_prefix k rel \<longrightarrow> (\<exists>m. map_of ws k = Some (NDir m) \<and> masked E m AND 192 = 192)"
  shows "oe_mkdir E (ds @ rel) (unpacked E ds t ws) = None" "oe_open E (ds @ rel) (unpacked E ds t ws) = None"
proof -
  have "\<exists>m. unpacked E ds t ws k = Some (NDir m) \<and> m AND 192 = 192" if k: "strict_prefix ds k" "strict_prefix k (ds @ rel)" for k
  proof -
    obtain r where r: "k = ds @ r" "r \<noteq> []" using k(1) by (auto simp: strict_prefix_def prefix_def)
    then have "strict_prefix r rel" using k(2) by (simp add: strict_prefix_def)
    then obtain m where "map_of ws r = Some (NDir m)" "masked E m AND 192 = 192" using assms(3) r(2) by blast
    then show ?thesis using r by (simp add: unpacked_below remode_def)
  qed
  moreover have "strict_prefix ds (ds @ rel)" using assms(2) by (simp add: strict_prefix_def)
  ultimately show "oe_mkdir E (ds @ rel) (unpacked E ds t ws) = None" "oe_open E (ds @ rel) (unpacked E ds t ws) = None"
    using assms(1) unfolding obliging_def by blast+
qed

lemma unpack_entry:
  assumes "obliging E ds" "list_all normal_seg ds" "ds \<noteq> []" "t ds = Some (NDir m0)"
    and "rel \<noteq> []" "list_all normal_seg rel" "rel \<notin> fst ` set ws"
    and "\<forall>k. k \<noteq> [] \<and> strict_prefix k rel \<longrightarrow> (\<exists>m. map_of ws k = Some (NDir m) \<and> masked E m AND 192 = 192)"
    and "0 \<le> tot" "tot + node_size nd \<le> cap" "tot < cap" "node_size nd \<le> maxImportFileBytes"
  shows "extractTarEntry E (tar_entry_of rel nd) (rooted ds) tot (unpacked E ds t ws) = (unpacked E ds t (ws @ [(rel, nd)]), Inr (tot + node_size nd))"
proof -
  let ?p = "ds @ rel" and ?t = "unpacked E ds t ws"
  note free = unpacked_permits [OF assms(1,5,8), of t]
  have wr: "oe_write E ?p = None" using assms(1) by (simp add: obliging_def)
  have n: "list_all normal_seg ?p" using assms(2,6) by simp
  have "concat (map (\<lambda>w. Split w CHR ''/'') [Join rel ''/'']) = rel"
    using Split_Join [of rel "CHR ''/''"] assms(5) normal_no_slash [OF assms(6)] by simp
  then have j: "filepath_Join [rooted ds, Join rel ''/''] = rooted ?p"
    using filepath_Join_rooted [OF assms(2), of "[Join rel ''/'']"] assms(6) by (simp add: foldl_clean_normal)
  have w: "HasPrefix (rooted ?p) (rooted ds @ ''/'')"
  proof -
    have "within (rooted ds) (rooted ?p)" using within_rooted [OF assms(2,3) n] by simp
    moreover have "rooted ?p \<noteq> rooted ds" using rooted_inj [OF n assms(2)] assms(5) by simp
    ultimately show ?thesis by (simp add: within_def)
  qed
  have new: "?t ?p = None" using assms(5,7) by (simp add: unpacked_below map_of_eq_None_iff)
  have parent: "\<exists>m. ?t (butlast ?p) = Some (NDir m)"
  proof (cases "butlast rel = []")
    case True
    then show ?thesis using assms(4,5) by (simp add: butlast_append unpacked_def)
  next
    case False
    then have "strict_prefix (butlast rel) rel" by (metis assms(5) prefix_order.le_imp_less_or_eq prefixeq_butlast append_butlast_last_id append_self_conv not_Cons_self2)
    then show ?thesis using assms(5,8) False by (fastforce simp: butlast_append unpacked_below remode_def)
  qed
  have mk: "os_MkdirAll E mode (rev (butlast ?p)) ?t = (?t, None)" for mode
    using parent assms(3) by (cases "butlast ?p" rule: rev_cases) (auto simp: Let_def)
  have d: "path_key (filepath_Dir (rooted ?p)) = butlast ?p"
  proof -
    have "list_all normal_seg (butlast ?p)" using n by (metis in_set_butlastD list_all_iff)
    then show ?thesis using n by (simp only: Dir_rooted path_key_rooted)
  qed
  have u: "word_of_int (uint m) = m" for m :: "32 word" by simp
  have snoc: "unpacked E ds t (ws @ [(rel, nd)]) = ?t(?p \<mapsto> remode E nd)" by (rule unpacked_snoc [OF assms(5,7)])
  show ?thesis
  proof (cases nd)
    case (NDir m)
    have "os_MkdirAll E m (rev ?p) ?t = (?t(?p \<mapsto> NDir (masked E m)), None)"
    proof -
      obtain x where x: "?p = butlast ?p @ [x]" using assms(5) by (metis append_butlast_last_id append_is_Nil_conv)
      then have "rev ?p = x # rev (butlast ?p)" by (metis rev_append rev_singleton_conv append_Cons append_Nil)
      then show ?thesis using new mk [of m] free(1) x by (simp only: os_MkdirAll.simps Let_def rev.simps rev_rev_ident) simp
    qed
    then show ?thesis using j w n NDir snoc assms(2) by (simp add: extractTarEntry_def tar_entry_of_def Let_def node_size_def remode_def u)
  next
    case (NFile c m)
    have "os_Create E m ?p ?t = (?t(?p \<mapsto> NFile [] (masked E m)), None)"
      using new parent free(2) assms(5) by (auto simp: os_Create_def)
    moreover have "int (length c) \<le> maxImportFileBytes" "\<not> cap - tot < int (length c)" using assms(10,12) NFile by (simp_all add: node_size_def)
    ultimately show ?thesis
      using j w n d mk NFile snoc wr assms(2,11)
      by (simp add: extractTarEntry_def extractTarFile_def tar_entry_of_def copy_limited_def put_content_def Let_def node_size_def remode_def u)
  qed
qed

lemma unpack_loop:
  assumes "obliging E ds" "list_all normal_seg ds" "ds \<noteq> []" "t ds = Some (NDir m0)" and "walked ws us" and "distinct (map fst ws)"
    and "\<forall>(rel, nd) \<in> set (ws @ us). \<forall>m. nd = NDir m \<longrightarrow> masked E m AND 192 = 192"
    and "\<forall>(rel, nd) \<in> set us. node_size nd \<le> maxImportFileBytes" "0 \<le> tot" "tot + sum_list (map (\<lambda>w. node_size (snd w)) us) < cap" "k + length us \<le> maxImportEntries"
  shows "extract_loop E (rooted ds) False (map (\<lambda>(rel, nd). tar_entry_of rel nd) us) k tot (unpacked E ds t ws) = (unpacked E ds t (ws @ us), None)"
  using assms(5-11)
proof (induction us arbitrary: ws k tot)
  case (Cons u us)
  obtain rel nd where u: "u = (rel, nd)" by fastforce
  have r: "rel \<noteq> []" "list_all normal_seg rel" "rel \<notin> fst ` set ws" using Cons.prems(1) by (auto simp: u)
  have par: "\<forall>k. k \<noteq> [] \<and> strict_prefix k rel \<longrightarrow> (\<exists>m. map_of ws k = Some (NDir m) \<and> masked E m AND 192 = 192)"
  proof (intro allI impI)
    fix k assume "k \<noteq> [] \<and> strict_prefix k rel"
    then obtain m where "(k, NDir m) \<in> set ws" using Cons.prems(1) by (auto simp: u)
    then show "\<exists>m. map_of ws k = Some (NDir m) \<and> masked E m AND 192 = 192" using Cons.prems(2,3) by fastforce
  qed
  have nn: "0 \<le> node_size x" for x by (cases x) (simp_all add: node_size_def)
  have "0 \<le> sum_list (map (\<lambda>w. node_size (snd w)) us)" by (rule sum_list_nonneg) (auto simp: nn)
  then have s: "tot + node_size nd \<le> cap" "tot < cap" "0 \<le> tot + node_size nd" "node_size nd \<le> maxImportFileBytes"
    using Cons.prems(4-6) nn [of nd] by (auto simp: u)
  have e: "extractTarEntry E (tar_entry_of rel nd) (rooted ds) tot (unpacked E ds t ws) = (unpacked E ds t (ws @ [(rel, nd)]), Inr (tot + node_size nd))"
    by (rule unpack_entry [where t = t, OF assms(1-4) r par Cons.prems(5) s(1,2,4)])
  have "extract_loop E (rooted ds) False (map (\<lambda>(rel, nd). tar_entry_of rel nd) us) (Suc k) (tot + node_size nd) (unpacked E ds t (ws @ [u]))
      = (unpacked E ds t ((ws @ [u]) @ us), None)"
    by (rule Cons.IH) (use Cons.prems s(3) r(3) in \<open>auto simp: u\<close>)
  then show ?case using e Cons.prems(7) by (simp add: u)
qed simp

section \<open>Properties\<close>

text \<open>
  C19 (safety). Whatever an archive holds (absolute names, names that climb, files declared larger than they are, endless data), extracting it changes
  nothing outside the new directory, and never leaves more than the cap and one byte in it; a successful extraction stays within
  the caps on bytes and on entries.
\<close>

theorem extraction_confined:
  assumes "list_all normal_seg ds" "ds \<noteq> []" and "dir_exists t ds" and "\<And>k. strict_prefix ds k \<Longrightarrow> t k = None"
    and "extractTarGz E s (rooted ds) t = (t', r)"
  shows "(\<forall>k. \<not> strict_prefix ds k \<longrightarrow> t' k = t k) \<and> int (bytes_below ds t') \<le> maxImportUncompressedBytes + 1
    \<and> (r = None \<longrightarrow> int (bytes_below ds t') \<le> maxImportUncompressedBytes \<and> length (ts_entries s) \<le> maxImportEntries)"
proof -
  obtain m where m: "t ds = Some (NDir m)" using assms(2,3) unfolding dir_exists_def by blast
  have "content_length (t k) = 0" if "prefix ds k" for k
    using that assms(4) [of k] m by (cases "k = ds") (simp_all add: content_length_def strict_prefix_def)
  then have "files_below ds t = {}" by (simp add: files_below_def)
  then have "stored ds 0 t" by (simp add: stored_def bytes_below_def)
  moreover have "(0 :: int) \<le> cap" by (simp add: maxImportUncompressedBytes_def)
  ultimately have "stored ds (cap + 1) t' \<and> (r = None \<longrightarrow> stored ds cap t' \<and> 0 + length (ts_entries s) \<le> max 0 maxImportEntries)"
    using extract_stored [of ds 0 t E "rooted ds" "ts_broken s" "ts_entries s" 0] assms(5) by (simp add: extractTarGz_def)
  moreover have "unchanged_outside ds t t'"
    using extract_outside [OF assms(2,1,3), of E "ts_broken s" "ts_entries s" 0 0] assms(5) by (simp add: extractTarGz_def)
  ultimately show ?thesis by (simp add: unchanged_outside_def stored_def)
qed

lemma createTarGz_ok:
  assumes "createTarGz X (SDir m0 nodes) = (Some s, None)"
  shows "ts_entries s = map (\<lambda>(rel, nd). tar_entry_of rel nd) (flatten_nodes [] nodes) \<and> \<not> ts_broken s"
proof -
  obtain es e where w: "walk_entries X [] nodes [] = (es, e)" by fastforce
  have "xe_create X = None \<and> xe_walk X [] = None \<and> e = None \<and> xe_tar X = None \<and> xe_gzip X = None \<and> xe_file X = None \<and> s = \<lparr>ts_entries = es, ts_broken = False\<rparr>"
    using assms w by (cases "xe_walk X []"; cases e) (auto simp: createTarGz_def first_failure_def split: option.splits if_splits)
  then show ?thesis using walk_flatten(2) [of X "[]" nodes "[]" es] w by simp
qed

lemma entry_size: "th_Size (te_header (tar_entry_of rel nd)) = node_size nd"
  by (cases nd) (simp_all add: tar_entry_of_def node_size_def)

text \<open>
  C34 (roundtrip). \<open>createTarGz\<close> has written an archive of a directory without an error, where the names in each directory are names and different. The archive is
  within the caps of an import: no file over the cap for one, less than the total cap in all, not too many entries. It is extracted into a new directory, on a system
  that refuses nothing which the modes permit, and every archived directory keeps its owner's write and search bits under the umask. Then the extraction succeeds and gives the tree
  that was archived, without its symbolic links: every file with its bytes, every file and directory with its mode under the umask, and nothing
  else; outside the new directory nothing changes.
\<close>

theorem archive_roundtrip:
  assumes "createTarGz X (SDir m0 nodes) = (Some s, None)" and "nodes_ok nodes"
    and "list_all normal_seg ds" "ds \<noteq> []" and "dir_exists t ds" and "\<And>k. strict_prefix ds k \<Longrightarrow> t k = None" and "obliging E ds"
    and "\<forall>rel m. rel \<noteq> [] \<and> src_lookup rel (SDir m0 nodes) = Some (NDir m) \<longrightarrow> masked E m AND 192 = 192"
    and "\<forall>ent \<in> set (ts_entries s). th_Size (te_header ent) \<le> maxImportFileBytes"
    and "sum_list (map (\<lambda>ent. th_Size (te_header ent)) (ts_entries s)) < maxImportUncompressedBytes" and "length (ts_entries s) \<le> maxImportEntries"
  shows "\<exists>t'. extractTarGz E s (rooted ds) t = (t', None)
    \<and> (\<forall>rel. rel \<noteq> [] \<longrightarrow> t' (ds @ rel) = map_option (remode E) (src_lookup rel (SDir m0 nodes))) \<and> (\<forall>k. \<not> strict_prefix ds k \<longrightarrow> t' k = t k)"
proof -
  let ?ws = "flatten_nodes [] nodes"
  have s: "ts_entries s = map (\<lambda>(rel, nd). tar_entry_of rel nd) ?ws" "\<not> ts_broken s" using createTarGz_ok [OF assms(1)] by auto
  have o: "walked [] ?ws" by (rule flatten_walked(2)) (use assms(2) in auto)
  have look: "map_of ?ws rel = src_lookup rel (SDir m0 nodes)" if "rel \<noteq> []" for rel
    using flatten_lookup(2) [OF assms(2), of "[]"] that by (cases rel) auto
  obtain m where m: "t ds = Some (NDir m)" using assms(4,5) unfolding dir_exists_def by blast
  have dirs: "masked E m AND 192 = 192" if "(rel, NDir m) \<in> set ?ws" for rel m
  proof -
    have "rel \<noteq> []" using flatten_prefix(2) [OF that] by auto
    moreover have "map_of ?ws rel = Some (NDir m)" using that distinct_walked [OF o] by simp
    ultimately show ?thesis using look assms(8) by metis
  qed
  have size_eq: "map (\<lambda>ent. th_Size (te_header ent)) (ts_entries s) = map (\<lambda>w. node_size (snd w)) ?ws"
    by (simp add: s(1) entry_size case_prod_unfold)
  have sizes: "\<forall>(rel, nd) \<in> set ?ws. node_size nd \<le> maxImportFileBytes"
    using assms(9) by (auto simp: s(1) entry_size case_prod_unfold)
  have "unpacked E ds t [] = t" using assms(6) by (auto simp: unpacked_def)
  moreover have "extract_loop E (rooted ds) False (map (\<lambda>(rel, nd). tar_entry_of rel nd) ?ws) 0 0 (unpacked E ds t []) = (unpacked E ds t ([] @ ?ws), None)"
  proof (rule unpack_loop [where t = t, OF assms(7,3,4) m o])
    show "\<forall>(rel, nd) \<in> set ([] @ ?ws). \<forall>m. nd = NDir m \<longrightarrow> masked E m AND 192 = 192" using dirs by auto
    show "0 + sum_list (map (\<lambda>w. node_size (snd w)) ?ws) < cap" using assms(10) unfolding size_eq by simp
    show "0 + length ?ws \<le> maxImportEntries" using assms(11) by (simp add: s(1))
  qed (use sizes in simp_all)
  ultimately have "extractTarGz E s (rooted ds) t = (unpacked E ds t ?ws, None)"
    using s by (simp add: extractTarGz_def)
  moreover have "\<forall>k. \<not> strict_prefix ds k \<longrightarrow> unpacked E ds t ?ws k = t k" by (simp add: unpacked_def)
  ultimately show ?thesis using unpacked_below look by (intro exI [of _ "unpacked E ds t ?ws"]) simp
qed

section \<open>Witnesses\<close>

definition calm_os :: os_env where
  "calm_os = \<lparr>oe_umask = 18, oe_mkdir = (\<lambda>_ _. None), oe_open = (\<lambda>_ _. None), oe_write = (\<lambda>_. None)\<rparr>"

definition new_dir :: os_tree where
  "new_dir = [[''tmp''] \<mapsto> NDir 511, [''tmp'', ''import''] \<mapsto> NDir 448]"

lemma new_dir_facts:
  "list_all normal_seg [''tmp'', ''import'']" "[''tmp'', ''import''] \<noteq> []" "dir_exists new_dir [''tmp'', ''import'']"
  "strict_prefix [''tmp'', ''import''] k \<Longrightarrow> new_dir k = None"
proof -
  show "list_all normal_seg [''tmp'', ''import'']" "[''tmp'', ''import''] \<noteq> []" by (simp_all add: normal_seg_def seg_ok_def)
  show "dir_exists new_dir [''tmp'', ''import'']" by (auto simp: dir_exists_def new_dir_def prefix_Cons)
  show "strict_prefix [''tmp'', ''import''] k \<Longrightarrow> new_dir k = None" by (auto simp: new_dir_def strict_prefix_def)
qed

text \<open>An archive that tries to overwrite a file of its reader.\<close>

definition hostile :: tar_stream where
  "hostile = \<lparr>ts_entries = [\<lparr>te_header = \<lparr>th_Name = ''a/../../../.bashrc'', th_Typeflag = TypeReg, th_Size = 1, th_Mode = 420\<rparr>, te_data = ''x'', te_broken = False\<rparr>], ts_broken = False\<rparr>"

theorem extraction_confined_witness:
  "extractTarGz calm_os hostile ''/tmp/import'' new_dir = (new_dir, Some (ArEntry ''a/../../../.bashrc''))
     \<and> int (bytes_below [''tmp'', ''import''] new_dir) \<le> maxImportUncompressedBytes + 1"
proof -
  have r: "rooted [''tmp'', ''import''] = ''/tmp/import''" by (simp add: rooted_def)
  have e: "extractTarGz calm_os hostile ''/tmp/import'' new_dir = (new_dir, Some (ArEntry ''a/../../../.bashrc''))"
    by (simp add: extractTarGz_def hostile_def extractTarEntry_def maxImportEntries_def path_eval)
  from extraction_confined [OF new_dir_facts e [folded r]] e show ?thesis by blast
qed

text \<open>A system that looks at the modes of the directories, from the third segment of a path on.\<close>

definition mode_check :: "string list \<Rightarrow> os_tree \<Rightarrow> os_error option" where
  "mode_check p t =
     (if list_all (\<lambda>i. case t (take i p) of Some (NDir m) \<Rightarrow> m AND 192 = 192 | _ \<Rightarrow> False) [3..<length p] then None
      else Some (ErrOther ''permission denied''))"

definition unix_os :: os_env where
  "unix_os = \<lparr>oe_umask = 18, oe_mkdir = mode_check, oe_open = mode_check, oe_write = (\<lambda>_. None)\<rparr>"

lemma unix_obliging: "obliging unix_os [''tmp'', ''import'']"
proof -
  have "mode_check p t = None"
    if "strict_prefix [''tmp'', ''import''] p" "\<forall>k. strict_prefix [''tmp'', ''import''] k \<and> strict_prefix k p \<longrightarrow> (\<exists>m. t k = Some (NDir m) \<and> m AND 192 = 192)" for p t
  proof -
    note below = that(2)
    have "\<exists>m. t (take i p) = Some (NDir m) \<and> m AND 192 = 192" if i: "3 \<le> i" "i < length p" for i
    proof -
      obtain r where p: "p = [''tmp'', ''import''] @ r" using \<open>strict_prefix [''tmp'', ''import''] p\<close> by (auto simp: strict_prefix_def prefix_def)
      have "take i p = [''tmp'', ''import''] @ take (i - 2) r" using i by (simp add: p take_Cons' numeral_2_eq_2)
      moreover have "take (i - 2) r \<noteq> []" using i by (auto simp: p)
      ultimately have "strict_prefix [''tmp'', ''import''] (take i p)" by (simp add: strict_prefix_def)
      moreover have "strict_prefix (take i p) p" using i(2) by (metis take_is_prefix strict_prefixI length_take min.absorb4 nat_neq_iff)
      ultimately show ?thesis using below by blast
    qed
    then show ?thesis by (fastforce simp: mode_check_def list_all_iff)
  qed
  then show ?thesis by (simp add: obliging_def unix_os_def)
qed

definition calm_export :: export_env where
  "calm_export = \<lparr>xe_create = None, xe_walk = (\<lambda>_. None), xe_info = (\<lambda>_. None), xe_header = (\<lambda>_. None), xe_open = (\<lambda>_. None), xe_copy = (\<lambda>_. None),
     xe_tar = None, xe_gzip = None, xe_file = None\<rparr>"

definition exported :: "(string \<times> src_node) list" where
  "exported = [(''allowlist.conf'', SFile ''github.com'' 384), (''link'', SLink ''/etc/passwd''), (''logs'', SDir 493 [(''dns.log'', SFile ''x'' 420)])]"

definition exported_stream :: tar_stream where
  "exported_stream = \<lparr>ts_entries = [tar_entry_of [''allowlist.conf''] (NFile ''github.com'' 384), tar_entry_of [''logs''] (NDir 493), tar_entry_of [''logs'', ''dns.log''] (NFile ''x'' 420)],
     ts_broken = False\<rparr>"

lemma exported_written: "createTarGz calm_export (SDir 448 exported) = (Some exported_stream, None)"
  by (simp add: createTarGz_def calm_export_def exported_def exported_stream_def writeTarEntry_def writeTarFileContent_def first_failure_def)

theorem archive_roundtrip_witness:
  "\<exists>t'. createTarGz calm_export (SDir 448 exported) = (Some exported_stream, None)
     \<and> extractTarGz unix_os exported_stream (rooted [''tmp'', ''import'']) new_dir = (t', None)
     \<and> t' [''tmp'', ''import'', ''allowlist.conf''] = Some (NFile ''github.com'' 384) \<and> t' [''tmp'', ''import'', ''logs'', ''dns.log''] = Some (NFile ''x'' 420)
     \<and> t' [''tmp'', ''import'', ''link''] = None"
proof -
  have ok: "nodes_ok exported" by (simp add: exported_def normal_seg_def seg_ok_def)
  have "m = 493" if "rel \<noteq> []" "src_lookup rel (SDir 448 exported) = Some (NDir m)" for rel m
    using that by (cases rel; cases "tl rel"; cases "tl (tl rel)") (auto simp: exported_def split: if_splits)
  then have d: "\<forall>rel m. rel \<noteq> [] \<and> src_lookup rel (SDir 448 exported) = Some (NDir m) \<longrightarrow> masked unix_os m AND 192 = 192"
    by (fastforce simp: masked_def unix_os_def)
  have z: "\<forall>ent \<in> set (ts_entries exported_stream). th_Size (te_header ent) \<le> maxImportFileBytes"
    "sum_list (map (\<lambda>ent. th_Size (te_header ent)) (ts_entries exported_stream)) < maxImportUncompressedBytes" "length (ts_entries exported_stream) \<le> maxImportEntries"
    by (simp_all add: exported_stream_def tar_entry_of_def maxImportFileBytes_def maxImportUncompressedBytes_def maxImportEntries_def)
  obtain t' where t': "extractTarGz unix_os exported_stream (rooted [''tmp'', ''import'']) new_dir = (t', None)"
    "\<forall>rel. rel \<noteq> [] \<longrightarrow> t' ([''tmp'', ''import''] @ rel) = map_option (remode unix_os) (src_lookup rel (SDir 448 exported))"
    using archive_roundtrip [OF exported_written ok new_dir_facts unix_obliging d z] by metis
  have "remode unix_os (NFile ''github.com'' 384) = NFile ''github.com'' 384" "remode unix_os (NFile ''x'' 420) = NFile ''x'' 420"
    by (simp_all add: remode_def masked_def unix_os_def)
  then show ?thesis using exported_written t'(1) t'(2) [THEN spec, of "[''allowlist.conf'']"] t'(2) [THEN spec, of "[''logs'', ''dns.log'']"] t'(2) [THEN spec, of "[''link'']"]
    by (simp add: exported_def)
qed

text \<open>The condition on the modes is needed: a directory that its owner may not write is archived, and on such a system it cannot be filled again.\<close>

lemma readonly_directory_lost:
  "\<exists>s. createTarGz calm_export (SDir 448 [(''logs'', SDir 365 [(''dns.log'', SFile ''x'' 420)])]) = (Some s, None)
     \<and> snd (extractTarGz unix_os s (rooted [''tmp'', ''import'']) new_dir) = Some (ArOS (ErrOther ''permission denied''))"
proof -
  let ?s = "\<lparr>ts_entries = [tar_entry_of [''logs''] (NDir 365), tar_entry_of [''logs'', ''dns.log''] (NFile ''x'' 420)], ts_broken = False\<rparr>"
  have c: "createTarGz calm_export (SDir 448 [(''logs'', SDir 365 [(''dns.log'', SFile ''x'' 420)])]) = (Some ?s, None)"
    by (simp add: createTarGz_def calm_export_def writeTarEntry_def writeTarFileContent_def first_failure_def)
  have k: "path_key ''/tmp/import/logs'' = [''tmp'', ''import'', ''logs'']" "path_key (filepath_Dir ''/tmp/import/logs/dns.log'') = [''tmp'', ''import'', ''logs'']"
    "path_key ''/tmp/import/logs/dns.log'' = [''tmp'', ''import'', ''logs'', ''dns.log'']"
    by (simp_all add: path_key_def filepath_Dir_def path_eval)
  have "snd (extractTarGz unix_os ?s (rooted [''tmp'', ''import'']) new_dir) = Some (ArOS (ErrOther ''permission denied''))"
    by (simp add: extractTarGz_def tar_entry_of_def maxImportEntries_def extractTarEntry_def extractTarFile_def rooted_def path_eval k
        maxImportFileBytes_def maxImportUncompressedBytes_def os_Create_def unix_os_def mode_check_def masked_def new_dir_def Let_def)
  with c show ?thesis by blast
qed

end
