(* ===== verification/Disk_Images.thy ===== *)
theory Disk_Images
  imports Boxfile_Trust
begin

unbundle bit_operations_syntax

text \<open>
  Disk images: the calls of \<open>qemu-img\<close> (\<^verbatim>\<open>internal/qemuimg/qemuimg.go\<close>), the atomic copy (\<^verbatim>\<open>internal/fsutil/copy.go\<close>) and the disk
  manager of libvirt (\<^verbatim>\<open>internal/backend/libvirt/disk.go\<close>). The disk maps a path to a file, a directory or a link; \<open>qemu-img\<close> and the
  reader of its report are parameters.
\<close>

section \<open>Files\<close>

datatype file_kind = Regular | Directory | SymLink

record dfile =
  df_kind :: file_kind
  df_data :: string
  df_mode :: "32 word"
  df_uid :: nat

type_synonym disk = "string \<rightharpoonup> dfile"

text \<open>The part of the report of \<open>qemu-img info\<close> that is read; \<open>ii_DataFile\<close> is missing when there is no part for the format.\<close>

record image_info =
  ii_Format :: string
  ii_BackingFilename :: string
  ii_DataFile :: "string option"

datatype copy_stage = StCreateTemp | StCopy | StChmod | StSync | StClose | StRename

text \<open>The user, the tools and what the system refuses. A storage provider that was not injected is \<open>None\<close>.\<close>

record disk_env =
  dk_uid :: nat
  dk_qemu :: "string list \<Rightarrow> disk \<Rightarrow> disk \<times> string option"
  dk_json :: "string \<Rightarrow> image_info option"
  dk_storage :: "string option option"
  dk_mkdir :: "string \<Rightarrow> disk \<Rightarrow> disk \<times> os_error option"
  dk_chmod_refused :: "string \<Rightarrow> os_error option"
  dk_copy_fault :: "string \<Rightarrow> string \<Rightarrow> copy_stage option"
  dk_lock_refused :: "string \<Rightarrow> os_error option"

datatype disk_error =
    DkQemu string | DkParse | DkBacking string | DkDataFile string | DkStorage string | DkMkdir os_error | DkOS os_error | DkSymlink string
  | DkNotRegular string | DkCopy copy_stage | DkForeign string | DkNoBase string | DkLock os_error

definition Lstat :: "string \<Rightarrow> disk \<Rightarrow> os_error + dfile" where
  "Lstat path d = (case d path of None \<Rightarrow> Inl os_error.ErrNotExist | Some f \<Rightarrow> Inr f)"

text \<open>A link is followed once; one that leads nowhere does not exist.\<close>

definition os_Stat :: "string \<Rightarrow> disk \<Rightarrow> os_error + dfile" where
  "os_Stat path d =
     (case d path of
        None \<Rightarrow> Inl os_error.ErrNotExist
      | Some f \<Rightarrow> if df_kind f = SymLink then Lstat (df_data f) d else Inr f)"

definition os_RemoveAll :: "string \<Rightarrow> disk \<Rightarrow> disk" where
  "os_RemoveAll path d p = (if p = path \<or> HasPrefix p (path @ ''/'') then None else d p)"

subsection \<open>Copying\<close>

definition CopyFile :: "disk_env \<Rightarrow> string \<Rightarrow> string \<Rightarrow> disk \<Rightarrow> disk \<times> disk_error option" where
  "CopyFile E src dst d =
     (case Lstat src d of Inl e \<Rightarrow> (d, Some (DkOS e)) | Inr f \<Rightarrow>
      if df_kind f \<noteq> Regular then (d, Some (DkNotRegular src))
      else (case dk_copy_fault E src dst of Some st \<Rightarrow> (d, Some (DkCopy st)) | None \<Rightarrow>
      case d dst of
        Some g \<Rightarrow> if df_kind g = Directory then (d, Some (DkCopy StRename))
                   else (d(dst \<mapsto> \<lparr>df_kind = Regular, df_data = df_data f, df_mode = df_mode f AND 511, df_uid = dk_uid E\<rparr>), None)
      | None \<Rightarrow> (d(dst \<mapsto> \<lparr>df_kind = Regular, df_data = df_data f, df_mode = df_mode f AND 511, df_uid = dk_uid E\<rparr>), None)))"

section \<open>The calls of qemu-img\<close>

definition formatQCOW2 :: string where "formatQCOW2 = ''qcow2''"
definition formatRaw :: string where "formatRaw = ''raw''"
definition formatVMDK :: string where "formatVMDK = ''vmdk''"
definition subformatMonolithicSparse :: string where "subformatMonolithicSparse = ''monolithicSparse''"
definition cmdConvert :: string where "cmdConvert = ''convert''"

definition qemu_do :: "disk_env \<Rightarrow> string \<Rightarrow> string list \<Rightarrow> disk \<Rightarrow> disk \<times> disk_error option" where
  "qemu_do E label args d = (case dk_qemu E args d of (d', None) \<Rightarrow> (d', Some (DkQemu label)) | (d', Some _) \<Rightarrow> (d', None))"

definition infoOf :: "disk_env \<Rightarrow> string \<Rightarrow> disk \<Rightarrow> disk \<times> (disk_error + image_info)" where
  "infoOf E path d =
     (case dk_qemu E [''info'', ''--output=json'', ''--'', path] d of
        (d', None) \<Rightarrow> (d', Inl (DkQemu ''info''))
      | (d', Some out) \<Rightarrow> (d', (case dk_json E out of None \<Rightarrow> Inl DkParse | Some i \<Rightarrow> Inr i)))"

definition dataFile :: "image_info \<Rightarrow> string" where
  "dataFile i = (case ii_DataFile i of None \<Rightarrow> [] | Some f \<Rightarrow> f)"

definition Format :: "disk_env \<Rightarrow> string \<Rightarrow> disk \<Rightarrow> disk \<times> (disk_error + string)" where
  "Format E path d = (case infoOf E path d of (d', Inl e) \<Rightarrow> (d', Inl e) | (d', Inr i) \<Rightarrow> (d', Inr (ii_Format i)))"

definition BackingFile :: "disk_env \<Rightarrow> string \<Rightarrow> disk \<Rightarrow> disk \<times> (disk_error + string)" where
  "BackingFile E path d = (case infoOf E path d of (d', Inl e) \<Rightarrow> (d', Inl e) | (d', Inr i) \<Rightarrow> (d', Inr (ii_BackingFilename i)))"

definition rebase_args :: "string \<Rightarrow> string \<Rightarrow> string list" where
  "rebase_args disk_path backingFile = [''rebase'', ''-u'', ''-b'', backingFile, ''-F'', formatQCOW2, ''--'', disk_path]"

definition Rebase :: "disk_env \<Rightarrow> string \<Rightarrow> string \<Rightarrow> disk \<Rightarrow> disk \<times> disk_error option" where
  "Rebase E disk_path backingFile d = qemu_do E ''rebase'' (rebase_args disk_path backingFile) d"

definition Check :: "disk_env \<Rightarrow> string \<Rightarrow> disk \<Rightarrow> disk \<times> disk_error option" where
  "Check E path d = qemu_do E ''info'' [''info'', ''--backing-chain'', ''--output=json'', ''--'', path] d"

definition create_args :: "string \<Rightarrow> string \<Rightarrow> string \<Rightarrow> string list" where
  "create_args backingFile output sz = [''create'', ''-f'', formatQCOW2, ''-F'', formatQCOW2, ''-b'', backingFile, ''--'', output, sz]"

definition qemuimg_Create :: "disk_env \<Rightarrow> string \<Rightarrow> string \<Rightarrow> string \<Rightarrow> disk \<Rightarrow> disk \<times> disk_error option" where
  "qemuimg_Create E backingFile output sz d = qemu_do E ''create'' (create_args backingFile output sz) d"

record convertOpts =
  co_src :: string
  co_dst :: string
  co_srcFormat :: string
  co_dstFormat :: string
  co_subformat :: string
  co_compress :: bool
  co_label :: string

definition convert_args :: "convertOpts \<Rightarrow> string list" where
  "convert_args opts =
     [cmdConvert] @ (if co_compress opts then [''-c''] else []) @ (if co_srcFormat opts \<noteq> [] then [''-f'', co_srcFormat opts] else [])
     @ [''-O'', co_dstFormat opts] @ (if co_subformat opts \<noteq> [] then [''-o'', ''subformat='' @ co_subformat opts] else [])
     @ [''--'', co_src opts, co_dst opts]"

definition convert :: "disk_env \<Rightarrow> convertOpts \<Rightarrow> disk \<Rightarrow> disk \<times> disk_error option" where
  "convert E opts d = qemu_do E (co_label opts) (convert_args opts) d"

abbreviation conversion :: "string \<Rightarrow> string \<Rightarrow> string \<Rightarrow> string \<Rightarrow> string \<Rightarrow> bool \<Rightarrow> string \<Rightarrow> convertOpts" where
  "conversion src dst sf df sub c l \<equiv>
     \<lparr>co_src = src, co_dst = dst, co_srcFormat = sf, co_dstFormat = df, co_subformat = sub, co_compress = c, co_label = l\<rparr>"

definition Convert :: "disk_env \<Rightarrow> string \<Rightarrow> string \<Rightarrow> bool \<Rightarrow> disk \<Rightarrow> disk \<times> disk_error option" where
  "Convert E src dst compress = convert E (conversion src dst formatQCOW2 formatQCOW2 [] compress cmdConvert)"

definition ConvertFrom :: "disk_env \<Rightarrow> string \<Rightarrow> string \<Rightarrow> string \<Rightarrow> disk \<Rightarrow> disk \<times> disk_error option" where
  "ConvertFrom E src dst srcFormat = convert E (conversion src dst srcFormat formatQCOW2 [] False cmdConvert)"

definition ConvertToRaw :: "disk_env \<Rightarrow> string \<Rightarrow> string \<Rightarrow> string \<Rightarrow> disk \<Rightarrow> disk \<times> disk_error option" where
  "ConvertToRaw E src srcFormat dst = convert E (conversion src dst srcFormat formatRaw [] False ''convert to raw'')"

definition ConvertToQcow2Compressed :: "disk_env \<Rightarrow> string \<Rightarrow> string \<Rightarrow> string \<Rightarrow> disk \<Rightarrow> disk \<times> disk_error option" where
  "ConvertToQcow2Compressed E src srcFormat dst = convert E (conversion src dst srcFormat formatQCOW2 [] True ''convert to qcow2'')"

definition ConvertToVMDKFrom :: "disk_env \<Rightarrow> string \<Rightarrow> string \<Rightarrow> string \<Rightarrow> disk \<Rightarrow> disk \<times> disk_error option" where
  "ConvertToVMDKFrom E src srcFormat dst = convert E (conversion src dst srcFormat formatVMDK subformatMonolithicSparse False ''convert to vmdk'')"

definition ConvertToVMDK :: "disk_env \<Rightarrow> string \<Rightarrow> string \<Rightarrow> disk \<Rightarrow> disk \<times> disk_error option" where
  "ConvertToVMDK E src dst = ConvertToVMDKFrom E src formatQCOW2 dst"

definition FormatForExt :: "string \<Rightarrow> string" where
  "FormatForExt ext = (if ext = ''.raw'' then formatRaw else formatQCOW2)"

definition FlattenVMDK :: "disk_env \<Rightarrow> string \<Rightarrow> string \<Rightarrow> disk \<Rightarrow> disk \<times> disk_error option" where
  "FlattenVMDK E src dst = convert E (conversion src dst [] formatVMDK subformatMonolithicSparse False ''convert vmdk to vmdk'')"

definition ConvertVMDKToQcow2 :: "disk_env \<Rightarrow> string \<Rightarrow> string \<Rightarrow> disk \<Rightarrow> disk \<times> disk_error option" where
  "ConvertVMDKToQcow2 E src dst = convert E (conversion src dst [] formatQCOW2 [] False ''convert vmdk to qcow2'')"

definition ConvertVMDKToVMDK :: "disk_env \<Rightarrow> string \<Rightarrow> string \<Rightarrow> disk \<Rightarrow> disk \<times> disk_error option" where
  "ConvertVMDKToVMDK E src dst = convert E (conversion src dst formatVMDK formatVMDK subformatMonolithicSparse False ''convert vmdk to vmdk'')"

definition RejectExternalReferences :: "disk_env \<Rightarrow> string \<Rightarrow> bool \<Rightarrow> disk \<Rightarrow> disk \<times> disk_error option" where
  "RejectExternalReferences E path allowBackingFile d =
     (case infoOf E path d of
        (d', Inl e) \<Rightarrow> (d', Some e)
      | (d', Inr i) \<Rightarrow>
          (d', if ii_BackingFilename i \<noteq> [] \<and> \<not> allowBackingFile then Some (DkBacking (ii_BackingFilename i))
               else if dataFile i \<noteq> [] then Some (DkDataFile (dataFile i)) else None))"

definition RejectBackingFile :: "disk_env \<Rightarrow> string \<Rightarrow> disk \<Rightarrow> disk \<times> disk_error option" where
  "RejectBackingFile E path d = RejectExternalReferences E path False d"

section \<open>The disk manager of libvirt\<close>

definition storageDirMode :: "32 word" where "storageDirMode = 488"
definition diskFileMode :: "32 word" where "diskFileMode = 432"
definition roFileMode :: "32 word" where "roFileMode = 416"

definition ensureStorageRoot :: "disk_env \<Rightarrow> disk_error option" where
  "ensureStorageRoot E = (case dk_storage E of None \<Rightarrow> None | Some None \<Rightarrow> None | Some (Some e) \<Rightarrow> Some (DkStorage e))"

definition prepareDir :: "disk_env \<Rightarrow> string \<Rightarrow> disk \<Rightarrow> disk \<times> disk_error option" where
  "prepareDir E dir d = (case dk_mkdir E dir d of (d', e) \<Rightarrow> (d', map_option DkMkdir e))"

definition lstatNoSymlink :: "string \<Rightarrow> disk \<Rightarrow> disk_error + dfile" where
  "lstatNoSymlink path d =
     (case Lstat path d of Inl e \<Rightarrow> Inl (DkOS e) | Inr f \<Rightarrow> if df_kind f = SymLink then Inl (DkSymlink path) else Inr f)"

definition do_chmod :: "disk_env \<Rightarrow> string \<Rightarrow> 32 word \<Rightarrow> disk \<Rightarrow> disk \<times> disk_error option" where
  "do_chmod E path mode d =
     (case dk_chmod_refused E path of
        Some e \<Rightarrow> (d, Some (DkOS e))
      | None \<Rightarrow> (case d path of None \<Rightarrow> (d, Some (DkOS os_error.ErrNotExist)) | Some f \<Rightarrow> (d(path \<mapsto> f\<lparr>df_mode := mode\<rparr>), None)))"

definition chmodNoFollow :: "disk_env \<Rightarrow> string \<Rightarrow> 32 word \<Rightarrow> disk \<Rightarrow> disk \<times> disk_error option" where
  "chmodNoFollow E path mode d = (case lstatNoSymlink path d of Inl e \<Rightarrow> (d, Some e) | Inr _ \<Rightarrow> do_chmod E path mode d)"

definition chmodIfOwned :: "disk_env \<Rightarrow> string \<Rightarrow> 32 word \<Rightarrow> disk \<Rightarrow> disk \<times> disk_error option" where
  "chmodIfOwned E path mode d =
     (case lstatNoSymlink path d of Inl e \<Rightarrow> (d, Some e)
      | Inr f \<Rightarrow> if df_uid f \<noteq> dk_uid E then (d, None) else do_chmod E path mode d)"

fun and_next :: "disk \<times> disk_error option \<Rightarrow> (disk \<Rightarrow> disk \<times> disk_error option) \<Rightarrow> disk \<times> disk_error option" where
  "and_next (d, Some e) f = (d, Some e)"
| "and_next (d, None) f = f d"

definition base_image :: "string \<Rightarrow> Instance \<Rightarrow> string" where
  "base_image dir inst = filepath_Join [dir, i_Base inst @ ''.qcow2'']"

definition libvirt_disk_Create :: "disk_env \<Rightarrow> Instance \<Rightarrow> Paths \<Rightarrow> disk \<Rightarrow> disk \<times> disk_error option" where
  "libvirt_disk_Create E inst paths d =
     and_next (d, ensureStorageRoot E) (\<lambda>d.
     and_next (prepareDir E (p_DiskDir paths) d) (\<lambda>d.
     let baseImage = base_image (p_BaseImages paths) inst in
     and_next (d, map_option DkLock (dk_lock_refused E baseImage)) (\<lambda>d.
     and_next (qemuimg_Create E baseImage (p_Disk paths) (i_Disk inst) d) (\<lambda>d.
     chmodNoFollow E (p_Disk paths) diskFileMode d))))"

definition libvirt_disk_Delete :: "Paths \<Rightarrow> disk \<Rightarrow> disk" where
  "libvirt_disk_Delete paths d = os_RemoveAll (p_DiskDir paths) d"

definition libvirt_EnsureBaseImage :: "disk_env \<Rightarrow> Instance \<Rightarrow> Paths \<Rightarrow> disk \<Rightarrow> disk \<times> disk_error option" where
  "libvirt_EnsureBaseImage E inst paths d =
     and_next (d, ensureStorageRoot E) (\<lambda>d.
     let stored = base_image (p_BaseImages paths) inst; user = base_image (p_UserBaseImages paths) inst;
         copy = (\<lambda>d. and_next (prepareDir E (p_BaseImages paths) d) (\<lambda>d.
                      and_next (CopyFile E user stored d) (\<lambda>d. chmodNoFollow E stored roFileMode d))) in
     case os_Stat stored d of
       Inr f \<Rightarrow>
         if df_uid f = dk_uid E then chmodNoFollow E stored roFileMode d
         else (case os_Stat user d of Inl _ \<Rightarrow> (d, Some (DkForeign stored)) | Inr _ \<Rightarrow> copy d)
     | Inl _ \<Rightarrow> (case os_Stat user d of Inl _ \<Rightarrow> (d, Some (DkNoBase (i_Base inst))) | Inr _ \<Rightarrow> copy d))"

definition libvirt_EnsureAccess :: "disk_env \<Rightarrow> Instance \<Rightarrow> Paths \<Rightarrow> disk \<Rightarrow> disk \<times> disk_error option" where
  "libvirt_EnsureAccess E inst paths d =
     and_next (d, ensureStorageRoot E) (\<lambda>d.
     and_next (chmodIfOwned E (p_Disk paths) diskFileMode d) (\<lambda>d.
     and_next (case os_Stat (base_image (p_BaseImages paths) inst) d of
                 Inl _ \<Rightarrow> (d, None) | Inr _ \<Rightarrow> chmodIfOwned E (base_image (p_BaseImages paths) inst) roFileMode d) (\<lambda>d.
     case os_Stat (p_CloudInitISO paths) d of Inl _ \<Rightarrow> (d, None) | Inr _ \<Rightarrow> chmodIfOwned E (p_CloudInitISO paths) roFileMode d)))"

definition importSnapshotDisk :: "disk_env \<Rightarrow> string \<Rightarrow> Instance \<Rightarrow> Paths \<Rightarrow> disk \<Rightarrow> disk \<times> disk_error option" where
  "importSnapshotDisk E src inst paths d =
     and_next (CopyFile E src (p_Disk paths) d) (\<lambda>d.
     let baseImage = base_image (p_BaseImages paths) inst in
     and_next (Rebase E (p_Disk paths) baseImage d) (\<lambda>d.
     case os_Stat baseImage d of Inl _ \<Rightarrow> (d, None) | Inr _ \<Rightarrow> chmodNoFollow E baseImage roFileMode d))"

definition libvirt_disk_Import :: "disk_env \<Rightarrow> string \<Rightarrow> Instance \<Rightarrow> Paths \<Rightarrow> bool \<Rightarrow> disk \<Rightarrow> disk \<times> disk_error option" where
  "libvirt_disk_Import E src inst paths snapshot d =
     and_next (d, ensureStorageRoot E) (\<lambda>d.
     and_next (prepareDir E (p_DiskDir paths) d) (\<lambda>d.
     and_next (RejectExternalReferences E src snapshot d) (\<lambda>d.
     and_next (if snapshot then importSnapshotDisk E src inst paths d else Convert E src (p_Disk paths) False d) (\<lambda>d.
     chmodNoFollow E (p_Disk paths) diskFileMode d))))"

definition libvirt_disk_Export :: "disk_env \<Rightarrow> string \<Rightarrow> Paths \<Rightarrow> bool \<Rightarrow> disk \<Rightarrow> disk \<times> disk_error option" where
  "libvirt_disk_Export E dst paths snapshot d = (if snapshot then CopyFile E (p_Disk paths) dst d else Convert E (p_Disk paths) dst True d)"

section \<open>Lemmas\<close>

lemma and_next_None: "and_next r f = (d', None) \<longleftrightarrow> (\<exists>d. r = (d, None) \<and> f d = (d', None))"
  by (cases r; cases "snd r") auto

lemma and_next_rel:
  assumes "\<And>a b c. R a b \<Longrightarrow> R b c \<Longrightarrow> R a c" and "R d (fst r)" and "\<And>d'. R d' (fst (f d'))"
  shows "R d (fst (and_next r f))"
proof (cases r)
  case (Pair d1 e)
  show ?thesis using assms(1) [OF assms(2) assms(3)] assms(2) Pair by (cases e) simp_all
qed

text \<open>Paths never stand where \<open>qemu-img\<close> reads options.\<close>

lemma convert_args_shape:
  "\<exists>opts. convert_args o' = opts @ [''--'', co_src o', co_dst o']
     \<and> set opts \<subseteq> {cmdConvert, ''-c'', ''-f'', co_srcFormat o', ''-O'', co_dstFormat o', ''-o'', ''subformat='' @ co_subformat o'}"
  by (intro exI [of _ "[cmdConvert] @ (if co_compress o' then [''-c''] else []) @ (if co_srcFormat o' \<noteq> [] then [''-f'', co_srcFormat o'] else [])
     @ [''-O'', co_dstFormat o'] @ (if co_subformat o' \<noteq> [] then [''-o'', ''subformat='' @ co_subformat o'] else [])"])
    (simp add: convert_args_def, auto)

text \<open>A disk is imported only after its report was read: it names no external data file, and no backing file unless it is rebased.\<close>

lemma Import_inspected:
  assumes "libvirt_disk_Import E src inst paths snapshot d = (d', None)"
  obtains d1 d2 i where "infoOf E src d1 = (d2, Inr i)" "dataFile i = []" "snapshot \<or> ii_BackingFilename i = []"
proof -
  obtain d1 d2 where "RejectExternalReferences E src snapshot d1 = (d2, None)"
    using assms by (auto simp: libvirt_disk_Import_def and_next_None)
  then show ?thesis using that by (auto simp: RejectExternalReferences_def split: prod.splits sum.splits if_splits)
qed

text \<open>The every-boot path changes modes only, of files of the caller that are no links, and leaves nothing to others.\<close>

definition owned_mode :: "nat \<Rightarrow> dfile option \<Rightarrow> dfile option \<Rightarrow> bool" where
  "owned_mode uid x y \<longleftrightarrow> y = x \<or> (\<exists>f m. x = Some f \<and> df_kind f \<noteq> SymLink \<and> df_uid f = uid \<and> m AND 7 = 0 \<and> y = Some (f\<lparr>df_mode := m\<rparr>))"

definition owned_modes :: "nat \<Rightarrow> disk \<Rightarrow> disk \<Rightarrow> bool" where
  "owned_modes uid d d' \<longleftrightarrow> (\<forall>p. owned_mode uid (d p) (d' p))"

lemma owned_mode_trans: "owned_mode uid x y \<Longrightarrow> owned_mode uid y z \<Longrightarrow> owned_mode uid x z"
proof (cases "y = x")
  case False
  assume "owned_mode uid x y" and z: "owned_mode uid y z"
  then obtain f m where f: "x = Some f" "df_kind f \<noteq> SymLink" "df_uid f = uid" "m AND 7 = 0" "y = Some (f\<lparr>df_mode := m\<rparr>)"
    using False unfolding owned_mode_def by blast
  consider "z = y" | m' where "m' AND 7 = 0" "z = Some (f\<lparr>df_mode := m'\<rparr>)"
    using z f(5) unfolding owned_mode_def by auto
  then show ?thesis using f unfolding owned_mode_def by cases blast+
qed simp

lemma owned_modes_refl: "owned_modes uid d d"
  by (simp add: owned_modes_def owned_mode_def)

lemma owned_modes_trans: "owned_modes uid a b \<Longrightarrow> owned_modes uid b c \<Longrightarrow> owned_modes uid a c"
  unfolding owned_modes_def using owned_mode_trans by blast

lemma chmodIfOwned_modes:
  assumes "mode AND 7 = 0"
  shows "owned_modes (dk_uid E) d (fst (chmodIfOwned E path mode d))"
proof (cases "lstatNoSymlink path d")
  case (Inr f)
  then have "d path = Some f" "df_kind f \<noteq> SymLink" by (auto simp: lstatNoSymlink_def Lstat_def split: option.splits if_splits)
  then show ?thesis
    using Inr assms by (auto simp: chmodIfOwned_def do_chmod_def owned_modes_def owned_mode_def split: option.splits)
qed (simp add: chmodIfOwned_def owned_modes_refl)

lemma EnsureAccess_modes: "owned_modes (dk_uid E) d (fst (libvirt_EnsureAccess E inst paths d))"
proof -
  have m: "diskFileMode AND 7 = 0" "roFileMode AND 7 = 0" by (simp_all add: diskFileMode_def roFileMode_def)
  note c = chmodIfOwned_modes [OF m(1)] chmodIfOwned_modes [OF m(2)]
  show ?thesis
    unfolding libvirt_EnsureAccess_def
    by (intro and_next_rel [of "owned_modes (dk_uid E)"] owned_modes_refl c; (erule owned_modes_trans)?; auto simp: owned_modes_refl intro: c split: sum.splits)
qed

section \<open>The base of an imported snapshot\<close>

lemma build_paths_more:
  "p_BaseImages (build_paths b sd ins i rd name) = filepath_Join [sd, ''base'']"
  "p_Disk (build_paths b sd ins i rd name) = filepath_Join [p_DiskDir (build_paths b sd ins i rd name), ''disk.qcow2'']"
  by (simp_all add: build_paths_def Let_def)

lemma base_reaches_other_disk:
  assumes "abs_home F fs" and "GetPathsWithStorage F P fs name st = Inr p" and "GetPathsWithStorage F P fs other st = Inr po"
    and "ValidateInstanceName other = None"
  shows "base_image (p_BaseImages p) (inst\<lparr>i_Base := ''../instances/'' @ other @ ''/disk''\<rparr>) = p_Disk po"
proof -
  obtain base where b: "getBaseDir F fs = Inr base" using assms(2) by (auto simp: GetPathsWithStorage_def split: sum.splits)
  obtain bs where bs: "base = rooted (bs @ [''abox''])" "list_all normal_seg (bs @ [''abox''])" using getBaseDir_rooted [OF assms(1) b] by auto
  let ?sd = "storage_root base st" and ?c = "clean_segments True (storage_root base st)"
  note r = GetPaths_result [OF bs(2) b [unfolded bs(1)]]
  have abs: "HasPrefix ?sd ''/''" using r(5) [OF assms(2)] by (simp add: IsAbs_def bs(1))
  have n: "list_all normal_seg ?c" by (rule clean_segments_normal)
  have o: "normal_seg other" "CHR ''/'' \<notin> set other" using instance_name_seg [OF assms(4)] by simp_all
  have l: "normal_seg ''base''" "normal_seg ''disk.qcow2''" by (simp_all add: normal_seg_def seg_ok_def)
  have "p_BaseImages p = filepath_Join [?sd, ''base'']" "p_Disk po = filepath_Join [p_DiskDir po, ''disk.qcow2'']"
    using GetPaths_build [OF assms(2)] GetPaths_build [OF assms(3)] b by (metis Inr_inject build_paths_more)+
  then have bi: "p_BaseImages p = rooted (?c @ [''base''])" and pd: "p_Disk po = rooted (?c @ [''instances'', other, ''disk.qcow2''])"
    using filepath_Join_normal [OF abs, of "[''base'']"] l r(4) [OF assms(3)] n o
    by (simp_all add: bs(1) resolve_normal filepath_Join_normal)
  have s: "Split (other @ ''/disk.qcow2'') CHR ''/'' = [other, ''disk.qcow2'']"
    using Split_append_sep [of other "CHR ''/''" "''disk.qcow2''"] Split_atom [OF o(2)] by simp
  have "base_image (p_BaseImages p) (inst\<lparr>i_Base := ''../instances/'' @ other @ ''/disk''\<rparr>)
      = filepath_Join [rooted (?c @ [''base'']), ''../instances/'' @ other @ ''/disk.qcow2'']"
    by (simp add: base_image_def bi)
  also have "\<dots> = rooted (?c @ [''instances'', other, ''disk.qcow2''])"
    using filepath_Join_rooted [of "?c @ [''base'']" "[''../instances/'' @ other @ ''/disk.qcow2'']"] n l o(1)
    by (simp add: s clean_step_def normal_seg_def seg_ok_def)
  finally show ?thesis using pd by simp
qed

text \<open>Nothing looks at the base of a declaration.\<close>

lemma Validate_base:
  assumes "Boxfile_Validate F E R fs d b = Inr b'"
  shows "Boxfile_Validate F E R fs d (b\<lparr>b_Base := x\<rparr>) = Inr (b'\<lparr>b_Base := x\<rparr>)"
proof -
  let ?b = "b\<lparr>b_Base := x\<rparr>"
  have f: "b_Name ?b = b_Name b" "b_User ?b = b_User b" "b_CPUs ?b = b_CPUs b" "b_Memory ?b = b_Memory b" "b_Disk ?b = b_Disk b" "b_Provision ?b = b_Provision b"
    "b_Overlay ?b = b_Overlay b" "b_Monitor ?b = b_Monitor b" "b_Overrides ?b = b_Overrides b"
    by simp_all
  have "validateNameAndUser ?b = validateNameAndUser b" "validateResources ?b = validateResources b"
    "validateProvisionScripts F fs d ?b = validateProvisionScripts F fs d b" "validateOverlay F fs d ?b = validateOverlay F fs d b"
    "validateMonitor F fs d ?b = validateMonitor F fs d b" "validateOverrides F fs d ?b = validateOverrides F fs d b"
    by (simp_all only: validateNameAndUser_def validateResources_def validateProvisionScripts_def validateOverlay_def validateMonitor_def validateOverrides_def f)
  moreover have "validateDNS ?b = Inr (b'\<lparr>b_Base := x\<rparr>)"
    using assms unfolding Validate_iff by (auto simp: validateDNS_def split: if_splits sum.splits)
  ultimately show ?thesis using assms unfolding Validate_iff by simp
qed

lemma Summary_base: "SecuritySummary (b\<lparr>b_Base := x\<rparr>) = SecuritySummary b"
  by (simp add: SecuritySummary_def summarizeOverrides_def summarizeAbsolutePaths_def override_note_def [abs_def] override_value_def)

lemma EnsureBase_owned:
  assumes "base_image (p_BaseImages p) inst = stored" and "ensureStorageRoot D = None" and "k stored = Some f"
    and "df_kind f = Regular" and "df_uid f = dk_uid D" and "dk_chmod_refused D stored = None"
  shows "libvirt_EnsureBaseImage D inst p k = (k(stored \<mapsto> f\<lparr>df_mode := roFileMode\<rparr>), None)"
  using assms by (simp add: libvirt_EnsureBaseImage_def os_Stat_def chmodNoFollow_def lstatNoSymlink_def Lstat_def do_chmod_def Let_def)

lemma Create_backing:
  assumes "libvirt_disk_Create D inst p k = (k', None)"
  shows "\<exists>k1 k2 out. dk_qemu D (create_args (base_image (p_BaseImages p) inst) (p_Disk p) (i_Disk inst)) k1 = (k2, Some out)"
proof -
  obtain k1 k2 where "qemuimg_Create D (base_image (p_BaseImages p) inst) (p_Disk p) (i_Disk inst) k1 = (k2, None)"
    using assms by (auto simp: libvirt_disk_Create_def and_next_None Let_def)
  then show ?thesis by (auto simp: qemuimg_Create_def qemu_do_def split: prod.splits option.splits)
qed

text \<open>
  C37 (safety). The base image of an instance is joined to the directory of the base images without a check. Any abox.yaml that the trust gate lets
  pass without a question can name as its base, in the form \<open>../instances/other/disk\<close>, the disk of another instance of the user: it is still valid and still passes without a
  question. When that disk is a regular file of the caller (and the storage root is usable and the change of mode is not refused), \<open>EnsureBaseImage\<close> of
  the libvirt backend accepts it as the base image of an instance with that base, making it read-only; and the creation of the instance's disk,
  when it succeeds, has run \<open>qemu-img create\<close> with the other instance's disk as the backing file, which the new guest then reads.
\<close>

theorem silent_base_reaches_other_disk:
  assumes "abs_home F fs" and "GetPathsWithStorage F P fs name st = Inr p" and "GetPathsWithStorage F P fs other st = Inr po"
    and "ValidateInstanceName other = None" and "Boxfile_Validate G E R gs d b = Inr b'" and "SecuritySummary b' = []"
    and "ensureStorageRoot D = None" and "k (p_Disk po) = Some f" and "df_kind f = Regular" and "df_uid f = dk_uid D"
    and "dk_chmod_refused D (p_Disk po) = None" and "base = ''../instances/'' @ other @ ''/disk''"
  shows "Boxfile_Validate G E R gs d (b\<lparr>b_Base := base\<rparr>) = Inr (b'\<lparr>b_Base := base\<rparr>) \<and> SecuritySummary (b'\<lparr>b_Base := base\<rparr>) = []
    \<and> libvirt_EnsureBaseImage D (inst\<lparr>i_Base := base\<rparr>) p k = (k(p_Disk po \<mapsto> f\<lparr>df_mode := roFileMode\<rparr>), None)
    \<and> (\<forall>k1 k'. libvirt_disk_Create D (inst\<lparr>i_Base := base\<rparr>) p k1 = (k', None) \<longrightarrow>
         (\<exists>k2 k3 out. dk_qemu D (create_args (p_Disk po) (p_Disk p) (i_Disk inst)) k2 = (k3, Some out)))"
proof -
  have bi: "base_image (p_BaseImages p) (inst\<lparr>i_Base := base\<rparr>) = p_Disk po"
    unfolding assms(12) by (rule base_reaches_other_disk [OF assms(1-4)])
  have "\<exists>k2 k3 out. dk_qemu D (create_args (p_Disk po) (p_Disk p) (i_Disk inst)) k2 = (k3, Some out)"
    if "libvirt_disk_Create D (inst\<lparr>i_Base := base\<rparr>) p k1 = (k', None)" for k1 k'
    using Create_backing [OF that] by (simp add: bi)
  then show ?thesis
    using Validate_base [OF assms(5), of base] Summary_base [of base b'] assms(6) EnsureBase_owned [where k = k, OF bi assms(7-11)] by simp
qed

text \<open>In the witness a \<open>qemu-img\<close> that records the backing file in the disk it makes runs as user 1000.\<close>

definition demo_qemu :: "string list \<Rightarrow> disk \<Rightarrow> disk \<times> string option" where
  "demo_qemu args k = (k(args ! 8 \<mapsto> \<lparr>df_kind = Regular, df_data = args ! 6, df_mode = 420, df_uid = 1000\<rparr>), Some [])"

definition demo_disk_env :: disk_env where
  "demo_disk_env = \<lparr>dk_uid = 1000, dk_qemu = demo_qemu, dk_json = (\<lambda>_. None), dk_storage = None, dk_mkdir = (\<lambda>_ k. (k, None)),
     dk_chmod_refused = (\<lambda>_. None), dk_copy_fault = (\<lambda>_ _. None), dk_lock_refused = (\<lambda>_. None)\<rparr>"

lemma demo_disk_Create:
  assumes "base_image (p_BaseImages p) inst = stored"
  shows "libvirt_disk_Create demo_disk_env inst p k =
    (k(p_Disk p \<mapsto> \<lparr>df_kind = Regular, df_data = stored, df_mode = diskFileMode, df_uid = 1000\<rparr>), None)"
  using assms by (simp add: libvirt_disk_Create_def ensureStorageRoot_def prepareDir_def qemuimg_Create_def qemu_do_def create_args_def
      chmodNoFollow_def lstatNoSymlink_def Lstat_def do_chmod_def demo_disk_env_def demo_qemu_def Let_def)

theorem silent_base_reaches_other_disk_witness:
  "\<exists>p po base f. GetPathsWithStorage mock_fs demo_proc demo_fs ''dev'' [] = Inr p \<and> GetPathsWithStorage mock_fs demo_proc demo_fs ''dev-dns'' [] = Inr po
     \<and> SecuritySummary (demo_decl\<lparr>b_Base := base\<rparr>) = []
     \<and> libvirt_EnsureBaseImage demo_disk_env ((DefaultInstance ''dev'')\<lparr>i_Base := base\<rparr>) p [p_Disk po \<mapsto> f] = ([p_Disk po \<mapsto> f\<lparr>df_mode := roFileMode\<rparr>], None)
     \<and> (\<exists>k' g. libvirt_disk_Create demo_disk_env ((DefaultInstance ''dev'')\<lparr>i_Base := base\<rparr>) p [p_Disk po \<mapsto> f] = (k', None)
          \<and> k' (p_Disk p) = Some g \<and> df_data g = p_Disk po)"
proof -
  obtain p po where g: "GetPathsWithStorage mock_fs demo_proc demo_fs ''dev'' [] = Inr p" "GetPathsWithStorage mock_fs demo_proc demo_fs ''dev-dns'' [] = Inr po"
    using demo_accepted2 by blast
  let ?f = "\<lparr>df_kind = Regular, df_data = ''secret'', df_mode = 432, df_uid = 1000\<rparr>"
  let ?b = "''../instances/'' @ ''dev-dns'' @ ''/disk''"
  let ?i = "(DefaultInstance ''dev'')\<lparr>i_Base := ?b\<rparr>"
  have q: "SecuritySummary demo_decl = []"
    by (simp add: SecuritySummary_def summarizeOverrides_def summarizeAbsolutePaths_def override_note_def override_value_def sortedKeys_def demo_decl_def
        DefaultBoxfile_def DefaultUpstream_def overrideKeyTemplate_def IsAbs_def)
  have s: "ensureStorageRoot demo_disk_env = None" "dk_chmod_refused demo_disk_env (p_Disk po) = None" "df_uid ?f = dk_uid demo_disk_env"
    by (simp_all add: ensureStorageRoot_def demo_disk_env_def)
  have "[p_Disk po \<mapsto> ?f] (p_Disk po) = Some ?f" "df_kind ?f = Regular" by simp_all
  note w = silent_base_reaches_other_disk [where k = "[p_Disk po \<mapsto> ?f]" and inst = "DefaultInstance ''dev''",
      OF demo_home(1) g demo_names_valid(2) demo_decl_valid [of ref_ext ref_radix] q s(1) this s(3,2) refl]
  have c: "libvirt_disk_Create demo_disk_env ?i p k = (k(p_Disk p \<mapsto> \<lparr>df_kind = Regular, df_data = p_Disk po, df_mode = diskFileMode, df_uid = 1000\<rparr>), None)" for k
    by (rule demo_disk_Create, rule base_reaches_other_disk [OF demo_home(1) g demo_names_valid(2)])
  show ?thesis
    by (rule exI [of _ p], rule exI [of _ po], rule exI [of _ ?b], rule exI [of _ ?f]) (use g w in \<open>simp add: c del: append.simps\<close>)
qed

end
