(* ===== verification/Import.thy ===== *)
theory Import
  imports Archive Disk_Images Lifecycle
begin

text \<open>
  The import of an archive (\<^verbatim>\<open>pkg/cmd/importcmd/import.go\<close>) and the manifest and files of an export (\<^verbatim>\<open>pkg/cmd/export/export.go\<close>). The archive is extracted
  into a new directory of the model of \<^verbatim>\<open>Archive\<close>; the managers of the backend and the files of the instance are a state \<open>'v\<close>, as in
  \<^verbatim>\<open>Lifecycle\<close>. Progress messages and audit records are left out.
\<close>

section \<open>Manifest\<close>

record ManifestInstance =
  mi_Name :: string
  mi_CPUs :: int
  mi_Memory :: int
  mi_Base :: string
  mi_Disk :: string

record Manifest =
  mf_Version :: int
  mf_Format :: string
  mf_CreatedAt :: string
  mf_AboxVersion :: string
  mf_Snapshot :: bool
  mf_Instance :: ManifestInstance

definition ArchiveFormat :: string where "ArchiveFormat = ''abox-archive''"

datatype import_error =
    ImNotFound | ImArchive archive_error | ImManifestParse | ImFormat string | ImNoManifest | ImVersion int | ImManifestRead os_error
  | ImName val_error | ImLock string | ImExists string | ImBackend string | ImPath path_error | ImNoBase string | ImTemp os_error
  | ImSubnet create_error | ImDisk string | ImCopy string os_error | ImChmod os_error | ImSave config_error | ImNetwork string | ImVM string

text \<open>\<open>json.Unmarshal\<close> into a manifest is a parameter. Only the first mebibyte of the first entry of that name is read.\<close>

definition parse_manifest :: "(string \<Rightarrow> Manifest option) \<Rightarrow> string \<Rightarrow> import_error + Manifest" where
  "parse_manifest json data =
     (case json data of
        None \<Rightarrow> Inl ImManifestParse
      | Some m \<Rightarrow> if mf_Format m \<noteq> ArchiveFormat then Inl (ImFormat (mf_Format m)) else Inr m)"

definition manifestLimit :: nat where "manifestLimit = 1048576"

fun peek_loop :: "(string \<Rightarrow> Manifest option) \<Rightarrow> bool \<Rightarrow> tar_entry list \<Rightarrow> import_error + Manifest" where
  "peek_loop json broken [] = Inl (if broken then ImArchive ArRead else ImNoManifest)"
| "peek_loop json broken (ent # ents) =
     (if th_Name (te_header ent) = ''manifest.json'' then
        (let data = take manifestLimit (te_data ent) in
         if te_broken ent \<and> length (te_data ent) < manifestLimit then Inl (ImArchive ArRead) else parse_manifest json data)
      else peek_loop json broken ents)"

definition peekManifest :: "(string \<Rightarrow> Manifest option) \<Rightarrow> tar_stream \<Rightarrow> import_error + Manifest" where
  "peekManifest json s = peek_loop json (ts_broken s) (ts_entries s)"

definition validateExtractedManifest :: "(string \<Rightarrow> Manifest option) \<Rightarrow> string list \<Rightarrow> os_tree \<Rightarrow> import_error option" where
  "validateExtractedManifest json dir t =
     (case t (dir @ [''manifest.json'']) of
        None \<Rightarrow> Some (ImManifestRead os_error.ErrNotExist)
      | Some (NDir _) \<Rightarrow> Some (ImManifestRead (ErrOther ''is a directory''))
      | Some (NFile data _) \<Rightarrow>
          (case parse_manifest json data of
             Inl e \<Rightarrow> Some e
           | Inr m \<Rightarrow> if mf_Version m \<noteq> 1 then Some (ImVersion (mf_Version m)) else None))"

section \<open>The command\<close>

text \<open>What the command uses: \<open>im_temp\<close> is the new directory with the disk it is on; \<open>im_install\<close> puts a complete file in place of a path, as the atomic copy
  does with its temporary file.\<close>

record ('v, 't) import_env =
  im_C :: "('v, 't) config_env"
  im_be :: backend
  im_be_error :: "string option"
  im_M :: "'v machine_ops"
  im_H :: "'v host_ops"
  im_E :: os_env
  im_json :: "string \<Rightarrow> Manifest option"
  im_order :: "(string \<times> string) list \<Rightarrow> (string \<times> string) list"
  im_route :: "string \<Rightarrow> bool"
  im_temp :: "os_error + (string list \<times> os_tree)"
  im_disk_Import :: "os_node option \<Rightarrow> Instance \<Rightarrow> Paths \<Rightarrow> bool \<Rightarrow> 'v \<Rightarrow> 'v \<times> string option"
  im_disk_Delete :: "Paths \<Rightarrow> 'v \<Rightarrow> 'v"
  im_install :: "string \<Rightarrow> string \<Rightarrow> 32 word \<Rightarrow> 'v \<Rightarrow> 'v \<times> os_error option"
  im_chmod :: "string \<Rightarrow> 32 word \<Rightarrow> 'v \<Rightarrow> 'v \<times> os_error option"

record import_options =
  io_CPUs :: int
  io_Memory :: int

definition verifySnapshotBaseImage :: "'v FileSystem \<Rightarrow> proc_env \<Rightarrow> 'v \<Rightarrow> Paths \<Rightarrow> string \<Rightarrow> import_error option" where
  "verifySnapshotBaseImage F P v paths base =
     (if list_ex (\<lambda>dir. \<not> isl (Stat F v (filepath_Join [dir, UserBaseImageName P base]))) [p_BaseImages paths, p_UserBaseImages paths]
      then None else Some (ImNoBase base))"

record cleanupState =
  cu_diskCreated :: bool
  cu_configCreated :: bool
  cu_networkCreated :: bool
  cu_domainCreated :: bool
  cu_success :: bool

definition no_cleanup :: cleanupState where
  "no_cleanup = \<lparr>cu_diskCreated = False, cu_configCreated = False, cu_networkCreated = False, cu_domainCreated = False, cu_success = False\<rparr>"

definition cleanup_run :: "('v, 't) import_env \<Rightarrow> string \<Rightarrow> string \<Rightarrow> Paths \<Rightarrow> cleanupState \<Rightarrow> 'v \<Rightarrow> 'v" where
  "cleanup_run X name bridge paths cu v =
     (if cu_success cu then v
      else
       (let v1 = (if cu_domainCreated cu then fst (vm_Remove (im_M X) name v) else v);
            v2 = (if cu_networkCreated cu then fst (net_Delete (im_M X) bridge v1) else v1);
            v3 = (if cu_diskCreated cu then im_disk_Delete X paths v2 else v2) in
        if cu_configCreated cu \<or> cu_diskCreated cu then fst (RemoveAll (ce_F (im_C X)) v3 (p_Instance paths)) else v3))"

definition imported_instance :: "('v, 't) import_env \<Rightarrow> import_options \<Rightarrow> string \<Rightarrow> Manifest \<Rightarrow> Paths \<Rightarrow> string \<Rightarrow> string \<Rightarrow> Instance" where
  "imported_instance X opts name m paths subnet gateway =
    \<lparr>i_Version = CurrentInstanceVersion, i_Name = name, i_Backend = be_Name (im_be X), i_BackendConfig = None, i_StorageDir = be_StorageDir (im_be X),
     i_CPUs = (if 0 < io_CPUs opts then io_CPUs opts else mi_CPUs (mf_Instance m)), i_Memory = (if 0 < io_Memory opts then io_Memory opts else mi_Memory (mf_Instance m)),
     i_Base = mi_Base (mf_Instance m), i_Subnet = subnet, i_Gateway = gateway, i_Bridge = be_Network (im_be X) name,
     i_DNS = \<lparr>dc_Port = 0, dc_Upstream = DefaultUpstream, dc_LogLevel = []\<rparr>,
     i_HTTP = \<lparr>hc_Port = 0, hc_LogLevel = [], hc_MITM = False, hc_MaxConnections = 0, hc_AllowPrivateTargets = [], hc_AllowedPorts = [],
       hc_SecretInjections = [], hc_MITMExceptions = []\<rparr>,
     i_Monitor = \<lparr>mon_Enabled = False, mon_Version = [], mon_KprobeMulti = False, mon_Kprobes = None, mon_Policies = []\<rparr>,
     i_Provision = [], i_SSHKey = p_SSHKey paths, i_User = [], i_Disk = mi_Disk (mf_Instance m), i_MACAddress = be_MAC (im_be X),
     i_IPAddress = DeriveHostIP gateway\<rparr>"

definition allocateResources :: "('v, 't) import_env \<Rightarrow> import_options \<Rightarrow> string \<Rightarrow> Manifest \<Rightarrow> 'v \<Rightarrow> 'v \<times> (import_error + Instance \<times> Paths)" where
  "allocateResources X opts name m v =
     (case im_be_error X of Some e \<Rightarrow> (v, Inl (ImBackend e)) | None \<Rightarrow>
      case ce_paths (im_C X) v name (be_StorageDir (im_be X)) of Inl e \<Rightarrow> (v, Inl (ImPath e)) | Inr paths \<Rightarrow>
      case EnsureDirs (im_order X) (ce_F (im_C X)) (ce_P (im_C X)) v paths of (v1, Some e) \<Rightarrow> (v1, Inl (ImPath e)) | (v1, None) \<Rightarrow>
      case ResolveNetwork (im_C X) (im_route X) v1 (im_be X) [] of
        Inl e \<Rightarrow> (v1, Inl (ImSubnet e))
      | Inr (subnet, gateway, _) \<Rightarrow> (v1, Inr (imported_instance X opts name m paths subnet gateway, paths)))"

text \<open>The atomic copy of a file of the extracted archive.\<close>

definition copy_extracted :: "('v, 't) import_env \<Rightarrow> os_node option \<Rightarrow> string \<Rightarrow> 'v \<Rightarrow> 'v \<times> os_error option" where
  "copy_extracted X nd dst v =
     (case nd of
        None \<Rightarrow> (v, Some os_error.ErrNotExist)
      | Some (NDir _) \<Rightarrow> (v, Some (ErrOther ''not a regular file''))
      | Some (NFile c m) \<Rightarrow> im_install X dst c m v)"

fun copy_files :: "('v, 't) import_env \<Rightarrow> (string \<Rightarrow> os_node option) \<Rightarrow> (string \<times> string \<times> 32 word option) list \<Rightarrow> 'v \<Rightarrow> 'v \<times> import_error option" where
  "copy_files X get [] v = (v, None)"
| "copy_files X get ((src, dst, mode) # fs) v =
     (case copy_extracted X (get src) dst v of
        (v1, Some e) \<Rightarrow> (v1, Some (ImCopy src e))
      | (v1, None) \<Rightarrow>
          (case mode of
             None \<Rightarrow> copy_files X get fs v1
           | Some md \<Rightarrow> (case im_chmod X dst md v1 of (v2, Some e) \<Rightarrow> (v2, Some (ImChmod e)) | (v2, None) \<Rightarrow> copy_files X get fs v2)))"

definition copyDiskAndConfig ::
  "('v, 't) import_env \<Rightarrow> (string \<Rightarrow> os_node option) \<Rightarrow> Manifest \<Rightarrow> Paths \<Rightarrow> Instance \<Rightarrow> cleanupState \<Rightarrow> 'v \<Rightarrow> 'v \<times> cleanupState \<times> import_error option" where
  "copyDiskAndConfig X get m paths inst cu v =
     (case im_disk_Import X (get ''disk.qcow2'') inst paths (mf_Snapshot m) v of (v1, Some e) \<Rightarrow> (v1, cu, Some (ImDisk e)) | (v1, None) \<Rightarrow>
      let cu1 = cu\<lparr>cu_diskCreated := True\<rparr> in
      case copy_files X get [(''id_ed25519'', p_SSHKey paths, Some 384), (''id_ed25519.pub'', p_SSHKey paths @ ''.pub'', None),
                             (''allowlist.conf'', p_Allowlist paths, None)] v1 of
        (v2, Some e) \<Rightarrow> (v2, cu1, Some e)
      | (v2, None) \<Rightarrow>
          (case Config_Save (im_C X) v2 inst paths of
             (v3, Some e) \<Rightarrow> (v3, cu1, Some (ImSave e))
           | (v3, None) \<Rightarrow> (v3, cu1\<lparr>cu_configCreated := True\<rparr>, None)))"

definition createNetworkAndVM ::
  "('v, 't) import_env \<Rightarrow> Instance \<Rightarrow> Paths \<Rightarrow> cleanupState \<Rightarrow> 'v \<Rightarrow> 'v \<times> cleanupState \<times> import_error option" where
  "createNetworkAndVM X inst paths cu v =
     (case net_Create (im_M X) inst v of (v1, Some e) \<Rightarrow> (v1, cu, Some (ImNetwork e)) | (v1, None) \<Rightarrow>
      let cu1 = cu\<lparr>cu_networkCreated := True\<rparr> in
      case vm_Create (im_M X) inst paths \<lparr>vo_AssumeCloudInitExists = False, vo_MonitorEnabled = False, vo_UUID = [], vo_CustomTemplate = []\<rparr> v1 of
        (v2, Some e) \<Rightarrow> (v2, cu1, Some (ImVM e))
      | (v2, None) \<Rightarrow> (v2, cu1\<lparr>cu_domainCreated := True, cu_success := True\<rparr>, None))"

definition doImport :: "('v, 't) import_env \<Rightarrow> import_options \<Rightarrow> tar_stream \<Rightarrow> string \<Rightarrow> Manifest \<Rightarrow> 'v \<Rightarrow> 'v \<times> import_error option" where
  "doImport X opts s name m v =
     (case im_temp X of Inl e \<Rightarrow> (v, Some (ImTemp e)) | Inr (dir, t) \<Rightarrow>
      case extractTarGz (im_E X) s (rooted dir) t of (_, Some e) \<Rightarrow> (v, Some (ImArchive e)) | (t', None) \<Rightarrow>
      case validateExtractedManifest (im_json X) dir t' of Some e \<Rightarrow> (v, Some e) | None \<Rightarrow>
      case allocateResources X opts name m v of (v1, Inl e) \<Rightarrow> (v1, Some e) | (v1, Inr (inst, paths)) \<Rightarrow>
      case (case copyDiskAndConfig X (\<lambda>f. t' (dir @ [f])) m paths inst no_cleanup v1 of
              (v2, cu, Some e) \<Rightarrow> (v2, cu, Some e)
            | (v2, cu, None) \<Rightarrow> createNetworkAndVM X inst paths cu v2) of
        (v3, cu, r) \<Rightarrow> (cleanup_run X name (i_Bridge inst) paths cu v3, r))"

text \<open>A missing file is \<open>None\<close>; an empty new name means the name of the manifest.\<close>

definition runImport :: "('v, 't) import_env \<Rightarrow> import_options \<Rightarrow> tar_stream option \<Rightarrow> string \<Rightarrow> 'v \<Rightarrow> 'v \<times> import_error option" where
  "runImport X opts archive newName v =
     (case archive of None \<Rightarrow> (v, Some ImNotFound) | Some s \<Rightarrow>
      case peekManifest (im_json X) s of Inl e \<Rightarrow> (v, Some e) | Inr m \<Rightarrow>
      let name = (if newName = [] then mi_Name (mf_Instance m) else newName) in
      case ValidateInstanceName name of Some e \<Rightarrow> (v, Some (ImName e)) | None \<Rightarrow>
      case ho_lock (im_H X) v of (v1, Some e) \<Rightarrow> (v1, Some (ImLock e)) | (v1, None) \<Rightarrow>
      case (if Config_Exists (im_C X) v1 name then (v1, Some (ImExists name))
            else case (if mf_Snapshot m then
                         (case im_be_error X of Some e \<Rightarrow> Some (ImBackend e) | None \<Rightarrow>
                          case ce_paths (im_C X) v1 name (be_StorageDir (im_be X)) of
                            Inl e \<Rightarrow> Some (ImPath e)
                          | Inr paths \<Rightarrow> verifySnapshotBaseImage (ce_F (im_C X)) (ce_P (im_C X)) v1 paths (mi_Base (mf_Instance m)))
                       else None) of
              Some e \<Rightarrow> (v1, Some e)
            | None \<Rightarrow> doImport X opts s name m v1) of
        (v2, r) \<Rightarrow> (ho_unlock (im_H X) v2, r))"

section \<open>Export\<close>

definition export_manifest :: "string \<Rightarrow> string \<Rightarrow> bool \<Rightarrow> Instance \<Rightarrow> Manifest" where
  "export_manifest createdAt version snapshot inst =
     \<lparr>mf_Version = 1, mf_Format = ArchiveFormat, mf_CreatedAt = createdAt, mf_AboxVersion = version, mf_Snapshot = snapshot,
      mf_Instance = \<lparr>mi_Name = i_Name inst, mi_CPUs = i_CPUs inst, mi_Memory = i_Memory inst, mi_Base = i_Base inst, mi_Disk = i_Disk inst\<rparr>\<rparr>"

text \<open>The temporary directory that is archived, with the disk already exported; \<open>marshal\<close> is \<open>json.MarshalIndent\<close>.\<close>

definition exported_files :: "(Manifest \<Rightarrow> string) \<Rightarrow> Manifest \<Rightarrow> (string \<Rightarrow> string \<times> 32 word) \<Rightarrow> (string \<times> src_node) list" where
  "exported_files marshal m files =
     map (\<lambda>f. (f, if f = ''manifest.json'' then SFile (marshal m) 420 else (case files f of (c, md) \<Rightarrow> SFile c md)))
       [''allowlist.conf'', ''config.yaml'', ''disk.qcow2'', ''id_ed25519'', ''id_ed25519.pub'', ''manifest.json'']"

section \<open>Lemmas\<close>

lemma tar_entry_of_simps [simp]:
  "th_Name (te_header (tar_entry_of rel nd)) = Join rel ''/''" "te_data (tar_entry_of rel (NFile c md)) = c" "\<not> te_broken (tar_entry_of rel nd)"
  by (cases nd; simp add: tar_entry_of_def)+

text \<open>The manifest of an exported archive is the one that an import reads first.\<close>

lemma export_peeked:
  assumes "json (marshal m) = Some m" "mf_Format m = ArchiveFormat" "length (marshal m) \<le> manifestLimit"
    and "createTarGz X (SDir md (exported_files marshal m files)) = (Some s, None)"
  shows "peekManifest json s = Inr m"
  using assms(1-3) createTarGz_ok [OF assms(4)] by (simp add: peekManifest_def exported_files_def parse_manifest_def split: prod.splits)

text \<open>A second manifest in the same archive replaces the first on disk, so that the version that is checked is not that of the manifest that is used.\<close>

definition two_manifests :: tar_stream where
  "two_manifests = \<lparr>ts_entries = map (\<lambda>c. tar_entry_of [''manifest.json''] (NFile c 420)) [''a'', ''b''], ts_broken = False\<rparr>"

lemma used_version_unchecked:
  assumes "json ''a'' = Some (m\<lparr>mf_Version := 7, mf_Format := ArchiveFormat\<rparr>)" "json ''b'' = Some (m\<lparr>mf_Version := 1, mf_Format := ArchiveFormat\<rparr>)"
  shows "\<exists>t'. peekManifest json two_manifests = Inr (m\<lparr>mf_Version := 7, mf_Format := ArchiveFormat\<rparr>)
    \<and> extractTarGz calm_os two_manifests (rooted [''tmp'', ''import'']) new_dir = (t', None) \<and> validateExtractedManifest json [''tmp'', ''import''] t' = None"
proof -
  have k: "path_key ''/tmp/import/manifest.json'' = [''tmp'', ''import'', ''manifest.json'']" "path_key (filepath_Dir ''/tmp/import/manifest.json'') = [''tmp'', ''import'']"
    by (simp_all add: path_key_def filepath_Dir_def path_eval)
  have "extractTarGz calm_os two_manifests (rooted [''tmp'', ''import'']) new_dir
      = (new_dir([''tmp'', ''import'', ''manifest.json''] \<mapsto> NFile ''b'' (masked calm_os 420)), None)"
    by (simp add: extractTarGz_def two_manifests_def tar_entry_of_def maxImportEntries_def extractTarEntry_def extractTarFile_def rooted_def path_eval k
        maxImportFileBytes_def maxImportUncompressedBytes_def os_Create_def copy_limited_def put_content_def calm_os_def new_dir_def Let_def)
  then show ?thesis
    using assms by (simp add: peekManifest_def two_manifests_def parse_manifest_def validateExtractedManifest_def manifestLimit_def)
qed

text \<open>When the disk cannot be imported nothing is cleaned up, neither the directories that were made nor a part of the disk.\<close>

lemma disk_failure_keeps_everything:
  assumes "copyDiskAndConfig X get m paths inst no_cleanup v = (v', cu, Some (ImDisk e))"
  shows "cleanup_run X name bridge paths cu v' = v'"
  using assms by (auto simp: copyDiskAndConfig_def cleanup_run_def no_cleanup_def Let_def split: prod.splits option.splits)

text \<open>
  The configuration an import saves is well-formed exactly when the CPU count, the memory and the disk size are, and these come from the
  manifest unchecked: an archive with other values gives an instance that no later command can load. Interception is always off
  in an imported instance, whatever the exported one had.
\<close>

theorem imported_config_wellformed:
  assumes "ValidateInstanceName name = None" and "ValidateMACAddress (be_MAC (im_be X)) = None"
    and "allocateResources X opts name m v = (v', Inr (inst, paths))"
  shows "(Instance_Validate E R inst = None \<longleftrightarrow> ValidateResourceLimits (i_CPUs inst) (i_Memory inst) = None \<and> ValidateDiskSize (mi_Disk (mf_Instance m)) = None)
    \<and> i_Name inst = name \<and> \<not> hc_MITM (i_HTTP inst)"
proof -
  obtain subnet gateway where i: "inst = imported_instance X opts name m paths subnet gateway"
    and p: "ce_paths (im_C X) v name (be_StorageDir (im_be X)) = Inr paths"
    using assms(3) by (auto simp: allocateResources_def split: option.splits sum.splits prod.splits)
  have "validateStorageDir (be_StorageDir (im_be X)) = None"
    using p by (auto simp: GetPathsWithStorage_def validateStorageDir_def split: sum.splits option.splits if_splits)
  moreover have "validateHTTPConfig E R (i_HTTP inst) = None" "ValidateLogLevel (unicode_ToLower E) (dc_LogLevel (i_DNS inst)) = None"
    by (simp_all add: i imported_instance_def validateHTTPConfig_def ValidateLogLevel_def ValidateSecretInjections_def ValidateMITMExceptions_def)
  moreover have "i_Name inst = name" "i_User inst = []" "i_MACAddress inst = be_MAC (im_be X)" "i_StorageDir inst = be_StorageDir (im_be X)"
    "i_Disk inst = mi_Disk (mf_Instance m)" "\<not> hc_MITM (i_HTTP inst)" by (simp_all add: i imported_instance_def)
  ultimately show ?thesis using assms(1,2) by (auto simp: Instance_Validate_def split: option.splits)
qed

text \<open>An import over the file system of \<^verbatim>\<open>Create\<close>, with managers that do nothing, of an archive that asks for no CPU.\<close>

definition idle_machine :: "'v machine_ops" where
  "idle_machine = \<lparr>vm_Create = (\<lambda>_ _ _ v. (v, None)), vm_Start = (\<lambda>_ v. (v, None)), vm_Stop = (\<lambda>_ v. (v, None)), vm_ForceStop = (\<lambda>_ v. (v, None)),
     vm_Remove = (\<lambda>_ v. (v, None)), vm_Exists = (\<lambda>_ _. False), vm_IsRunning = (\<lambda>_ _. False), vm_GetUUID = (\<lambda>_ _. []), vm_Redefine = (\<lambda>_ _ _ v. (v, None)),
     net_Create = (\<lambda>_ v. (v, None)), net_Start = (\<lambda>_ v. (v, None)), net_Delete = (\<lambda>_ v. (v, None)), net_Exists = (\<lambda>_ _. False), net_IsActive = (\<lambda>_ _. False),
     disk_Create = (\<lambda>_ _ v. (v, None)), disk_EnsureBaseImage = (\<lambda>_ _ v. (v, None)), disk_EnsureAccess = (\<lambda>_ _ v. (v, None)),
     tv_Validate = (\<lambda>_. None), mt_GuestDevice = []\<rparr>"

definition idle_host :: "'v host_ops" where
  "idle_host = \<lparr>ho_start = (\<lambda>_ _ _ _ v. (v, None)), ho_stop = (\<lambda>_ _ v. v), ho_client = (\<lambda>_ _ v. (v, None)), ho_Status = (\<lambda>_ _ v. (v, Inr 53)),
     ho_tetragon = (\<lambda>_ _ v. (v, None)), ho_cloudinit = (\<lambda>_ _ _ _ v. (v, None)), ho_lock = (\<lambda>v. (v, None)), ho_unlock = id, ho_second = (\<lambda>v. (v, False)),
     ho_CleanupForwards = (\<lambda>_ v. v), ho_unlink = (\<lambda>_ v. v)\<rparr>"

definition demo_import :: "(MockFileSystem, alist) import_env" where
  "demo_import =
     \<lparr>im_C = demo_env, im_be = demo_be, im_be_error = None, im_M = idle_machine, im_H = idle_host, im_E = calm_os, im_json = Map.empty, im_order = id,
      im_route = (\<lambda>_. False), im_temp = Inr ([''tmp'', ''import''], new_dir), im_disk_Import = (\<lambda>_ _ _ _ v. (v, None)), im_disk_Delete = (\<lambda>_ v. v),
      im_install = (\<lambda>_ _ _ v. (v, None)), im_chmod = (\<lambda>_ _ v. (v, None))\<rparr>"

definition no_cpu_manifest :: Manifest where
  "no_cpu_manifest = \<lparr>mf_Version = 1, mf_Format = ArchiveFormat, mf_CreatedAt = [], mf_AboxVersion = [], mf_Snapshot = False,
     mf_Instance = \<lparr>mi_Name = ''dev'', mi_CPUs = 0, mi_Memory = 4096, mi_Base = ''ubuntu-24.04'', mi_Disk = ''20G''\<rparr>\<rparr>"

lemma demo_allocates:
  "\<exists>fs' inst p. allocateResources demo_import \<lparr>io_CPUs = 0, io_Memory = 0\<rparr> ''dev'' no_cpu_manifest decl_fs = (fs', Inr (inst, p)) \<and> i_CPUs inst = 0 \<and> i_Memory inst = 4096"
proof -
  have e: "EnvVars decl_fs = EnvVars demo_fs" by (simp add: decl_fs_def)
  obtain p where p: "GetPathsWithStorage mock_fs demo_proc decl_fs ''dev'' [] = Inr p"
    by (simp add: GetPathsWithStorage_def decl_base [OF e] path_eval Let_def build_paths_def)
  obtain D where d: "EnsureDirs id mock_fs demo_proc decl_fs p = (decl_fs\<lparr>Dirs := D\<rparr>, None)" and "Config_List demo_env (decl_fs\<lparr>Dirs := D\<rparr>) = Inr []"
    using demo_dirs [OF p] by blast
  then have "ValidateSubnet demo_env (decl_fs\<lparr>Dirs := D\<rparr>) (v4_string [192, 168, 128, 0] @ ''/24'') = Inr (gateway_of 192 168 128, unat (128 :: u8))"
    using ValidateSubnet_net24 [of "''24''" demo_env "decl_fs\<lparr>Dirs := D\<rparr>" "[]" 192 168 128] by simp
  with p d show ?thesis
    by (simp add: allocateResources_def demo_import_def demo_env_def demo_be_def ResolveNetwork_def imported_instance_def no_cpu_manifest_def)
qed

theorem imported_config_wellformed_witness:
  "\<exists>fs' inst p. allocateResources demo_import \<lparr>io_CPUs = 0, io_Memory = 0\<rparr> ''dev'' no_cpu_manifest decl_fs = (fs', Inr (inst, p))
    \<and> Instance_Validate ref_ext ref_radix inst \<noteq> None"
proof -
  obtain fs' inst p where a: "allocateResources demo_import \<lparr>io_CPUs = 0, io_Memory = 0\<rparr> ''dev'' no_cpu_manifest decl_fs = (fs', Inr (inst, p))"
    and c: "i_CPUs inst = 0" using demo_allocates by blast
  have b: "ValidateMACAddress (be_MAC (im_be demo_import)) = None" by (simp add: demo_import_def demo_be_def GenerateMAC_valid)
  from imported_config_wellformed [OF demo_names_valid(1) b a] a c show ?thesis by (auto simp: ValidateResourceLimits_def MinCPUs_def)
qed

end
