(* ===== verification/Storage_Helper.thy ===== *)
theory Storage_Helper
  imports Archive Allowlist_Loader "HOL-Library.Char_ord" "HOL-Library.List_Lexorder"
begin

unbundle bit_operations_syntax

text \<open>
  The storage operation of the privileged helper (\<^verbatim>\<open>internal/privilege/storage_linux.go\<close>), which runs as root and changes owner, group and mode of the
  disk directories of the calling user. The file system is a table of names and a table of inodes, because the code has to tell a hard link from
  a file of its own: names that share an inode share its owner and mode. Any call of the operating system may fail, and the account
  database and \<^verbatim>\<open>qemu.conf\<close> are parameters. The main lemma says which inodes the operation can change, whatever the user put into the subtree.
\<close>

section \<open>Names and inodes\<close>

datatype node_kind = KReg | KDir | KSym | KOther

record inode =
  n_kind :: node_kind
  n_uid :: int
  n_gid :: int
  n_mode :: "32 word"
  n_nlink :: nat

record store =
  st_names :: "(string list \<times> nat) list"
  st_inode :: "nat \<Rightarrow> inode"
  st_next :: nat

text \<open>The calls that may fail. Those of the walk are kept apart, so that each is made at most once for a path.\<close>

datatype store_op = SMkdir | SOpen | SChown | SChmod | WOpenRoot | WReadDir | WLchown | WChown | WChmod | WOpen | WStat

text \<open>\<open>sg_chown_mode\<close> is what a change of the owner leaves of the mode; the kernel may clear the set-id bits.\<close>

record storage_env =
  sg_fail :: "store_op \<Rightarrow> string list \<Rightarrow> os_error option"
  sg_umask :: "32 word"
  sg_chown_mode :: "node_kind \<Rightarrow> 32 word \<Rightarrow> 32 word"
  sg_conf :: "string option"
  sg_LookupGroup :: "string \<Rightarrow> string option"
  sg_LookupUser :: "string \<Rightarrow> string option"
  sg_LookupGroupId :: "string \<Rightarrow> string option"

datatype walk_error = WkOS os_error | WkLinks "string list" nat
datatype storage_error = StNotPermitted string | StNoGroup | StPrepare string os_error | StRegroup walk_error

definition errExist :: os_error where "errExist = ErrOther ''file exists''"

abbreviation inode_at :: "store \<Rightarrow> string list \<Rightarrow> nat option" where
  "inode_at s p \<equiv> map_of (st_names s) p"

definition change_inode :: "nat \<Rightarrow> (inode \<Rightarrow> inode) \<Rightarrow> store \<Rightarrow> store" where
  "change_inode i f s = s\<lparr>st_inode := (st_inode s)(i := f (st_inode s i))\<rparr>"

definition chown_inode :: "storage_env \<Rightarrow> store_op \<Rightarrow> string list \<Rightarrow> nat \<Rightarrow> int \<Rightarrow> int \<Rightarrow> store \<Rightarrow> store \<times> os_error option" where
  "chown_inode E op p i uid gid s =
     (case sg_fail E op p of Some e \<Rightarrow> (s, Some e) | None \<Rightarrow>
      (change_inode i (\<lambda>n. n\<lparr>n_uid := uid, n_gid := gid, n_mode := sg_chown_mode E (n_kind n) (n_mode n)\<rparr>) s, None))"

definition chmod_inode :: "storage_env \<Rightarrow> store_op \<Rightarrow> string list \<Rightarrow> nat \<Rightarrow> 32 word \<Rightarrow> store \<Rightarrow> store \<times> os_error option" where
  "chmod_inode E op p i mode s =
     (case sg_fail E op p of Some e \<Rightarrow> (s, Some e) | None \<Rightarrow> (change_inode i (n_mode_update (\<lambda>_. mode)) s, None))"

text \<open>The owner is changed before the mode, since that change may clear bits of the mode.\<close>

definition chown_chmod ::
  "storage_env \<Rightarrow> store_op \<Rightarrow> store_op \<Rightarrow> string list \<Rightarrow> nat \<Rightarrow> int \<Rightarrow> int \<Rightarrow> 32 word \<Rightarrow> store \<Rightarrow> store \<times> os_error option" where
  "chown_chmod E op op' p i uid gid mode s =
     (case chown_inode E op p i uid gid s of (s1, Some e) \<Rightarrow> (s1, Some e) | (s1, None) \<Rightarrow> chmod_inode E op' p i mode s1)"

text \<open>A new directory of root; below a directory with the set-group bit it takes over group and bit.\<close>

definition store_Mkdir :: "storage_env \<Rightarrow> string list \<Rightarrow> 32 word \<Rightarrow> store \<Rightarrow> store \<times> os_error option" where
  "store_Mkdir E p perm s =
     (case sg_fail E SMkdir p of Some e \<Rightarrow> (s, Some e) | None \<Rightarrow>
      case inode_at s p of Some _ \<Rightarrow> (s, Some errExist) | None \<Rightarrow>
      case inode_at s (butlast p) of None \<Rightarrow> (s, Some os_error.ErrNotExist) | Some i \<Rightarrow>
      let up = st_inode s i in
      if n_kind up \<noteq> KDir then (s, Some (ErrOther ''not a directory''))
      else let inherit = n_mode up AND 1024 \<noteq> 0;
               new = \<lparr>n_kind = KDir, n_uid = 0, n_gid = (if inherit then n_gid up else 0),
                      n_mode = (perm AND NOT (sg_umask E)) OR (if inherit then 1024 else 0), n_nlink = 2\<rparr> in
           (\<lparr>st_names = (p, st_next s) # st_names s, st_inode = (st_inode s)(st_next s := new), st_next = Suc (st_next s)\<rparr>, None))"

section \<open>Preparing directories\<close>

definition libvirtImagesParent :: string where "libvirtImagesParent = ''/var/lib/libvirt/images/abox''"
definition diskFileName :: string where "diskFileName = ''disk.qcow2''"
definition sharedStorageSubdirs :: "string list" where "sharedStorageSubdirs = [''instances'', ''base'']"
definition storageRootMode :: "32 word" where "storageRootMode = 1512"

definition ensureDir :: "storage_env \<Rightarrow> string \<Rightarrow> int \<Rightarrow> int \<Rightarrow> 32 word \<Rightarrow> store \<Rightarrow> store \<times> os_error option" where
  "ensureDir E path uid gid mode s =
     (let p = path_key path in
      case store_Mkdir E p (mode AND 511) s of (s1, r) \<Rightarrow>
      if r \<noteq> None \<and> r \<noteq> Some errExist then (s1, r)
      else
       (case sg_fail E SOpen p of Some e \<Rightarrow> (s1, Some e) | None \<Rightarrow>
        case inode_at s1 p of None \<Rightarrow> (s1, Some os_error.ErrNotExist) | Some i \<Rightarrow>
        if n_kind (st_inode s1 i) \<noteq> KDir then (s1, Some (ErrOther ''too many levels of symbolic links or not a directory''))
        else chown_chmod E SChown SChmod p i uid gid mode s1))"

fun ensure_each :: "storage_env \<Rightarrow> (string \<times> int \<times> int \<times> 32 word) list \<Rightarrow> store \<Rightarrow> store \<times> storage_error option" where
  "ensure_each E [] s = (s, None)"
| "ensure_each E ((path, uid, gid, mode) # ds) s =
     (case ensureDir E path uid gid mode s of (s1, Some e) \<Rightarrow> (s1, Some (StPrepare path e)) | (s1, None) \<Rightarrow> ensure_each E ds s1)"

section \<open>The walk\<close>

definition regroupFile :: "storage_env \<Rightarrow> int \<Rightarrow> int \<Rightarrow> string list \<Rightarrow> nat \<Rightarrow> store \<Rightarrow> store \<times> walk_error option" where
  "regroupFile E uid gid p i s =
     (case sg_fail E WOpen p of Some e \<Rightarrow> (s, Some (WkOS e)) | None \<Rightarrow>
      case sg_fail E WStat p of Some e \<Rightarrow> (s, Some (WkOS e)) | None \<Rightarrow>
      let fi = st_inode s i in
      if 1 < n_nlink fi then (s, Some (WkLinks p (n_nlink fi)))
      else
       (case chown_chmod E WChown WChmod p i uid gid ((n_mode fi AND 448) OR (if last p = diskFileName then 48 else 32)) s of
          (s1, e) \<Rightarrow> (s1, map_option WkOS e)))"

text \<open>The callback of the walk; a directory is read after its own visit, and a failure then goes through the callback as well.\<close>

definition regroup_entry :: "storage_env \<Rightarrow> int \<Rightarrow> int \<Rightarrow> string list \<Rightarrow> store \<Rightarrow> store \<times> walk_error option" where
  "regroup_entry E uid gid p s =
     (case inode_at s p of None \<Rightarrow> (s, Some (WkOS os_error.ErrNotExist)) | Some i \<Rightarrow>
      case n_kind (st_inode s i) of
        KSym \<Rightarrow> (case chown_inode E WLchown p i uid gid s of (s1, e) \<Rightarrow> (s1, map_option WkOS e))
      | KDir \<Rightarrow>
          (case chown_chmod E WChown WChmod p i uid gid storageRootMode s of
             (s1, Some e) \<Rightarrow> (s1, Some (WkOS e))
           | (s1, None) \<Rightarrow> (s1, map_option WkOS (sg_fail E WReadDir p)))
      | KReg \<Rightarrow> regroupFile E uid gid p i s
      | KOther \<Rightarrow> (case chown_inode E WChown p i uid gid s of (s1, e) \<Rightarrow> (s1, map_option WkOS e)))"

fun regroup_each :: "storage_env \<Rightarrow> int \<Rightarrow> int \<Rightarrow> string list list \<Rightarrow> store \<Rightarrow> store \<times> walk_error option" where
  "regroup_each E uid gid [] s = (s, None)"
| "regroup_each E uid gid (p # ps) s =
     (case regroup_entry E uid gid p s of (s1, Some e) \<Rightarrow> (s1, Some e) | (s1, None) \<Rightarrow> regroup_each E uid gid ps s1)"

text \<open>A directory comes before its entries and these in the order of their names, which is the lexical order of the paths.\<close>

definition walk_paths :: "string list \<Rightarrow> store \<Rightarrow> string list list" where
  "walk_paths root s = sort (filter (prefix root) (map fst (st_names s)))"

definition regroupSubtree :: "storage_env \<Rightarrow> string \<Rightarrow> int \<Rightarrow> int \<Rightarrow> store \<Rightarrow> store \<times> walk_error option" where
  "regroupSubtree E root uid gid s =
     (case sg_fail E WOpenRoot (path_key root) of Some e \<Rightarrow> (s, Some (WkOS e)) | None \<Rightarrow>
      regroup_each E uid gid (walk_paths (path_key root) s) s)"

section \<open>The group of QEMU\<close>

definition conf_value :: "string \<Rightarrow> string \<Rightarrow> string option" where
  "conf_value key raw =
     (let line = TrimSpace raw in
      if line = [] \<or> HasPrefix line ''#'' then None
      else (case IndexByte line CHR ''='' of
              None \<Rightarrow> None
            | Some k \<Rightarrow>
                if TrimSpace (take k line) \<noteq> key then None
                else let unquote = dropWhile (\<lambda>c. c = CHR 0x22) in
                     Some (rev (unquote (rev (unquote (TrimSpace (drop (Suc k) line))))))))"

definition valueFromQemuConf :: "storage_env \<Rightarrow> string \<Rightarrow> string" where
  "valueFromQemuConf E key =
     (case sg_conf E of
        None \<Rightarrow> []
      | Some text \<Rightarrow> (case List.map_filter (conf_value key) (fst (scan_lines text)) of [] \<Rightarrow> [] | v # _ \<Rightarrow> v))"

definition lookupGID :: "storage_env \<Rightarrow> string \<Rightarrow> int option" where
  "lookupGID E name = (case sg_LookupGroup E name of None \<Rightarrow> None | Some gid \<Rightarrow> Atoi gid)"

definition knownQEMUUsers :: "string list" where "knownQEMUUsers = [''libvirt-qemu'', ''qemu'']"
definition qemuDiskGroups :: "string list" where "qemuDiskGroups = [''libvirt-qemu'', ''qemu'', ''kvm'']"

definition user_group :: "storage_env \<Rightarrow> string \<Rightarrow> (int \<times> string) option" where
  "user_group E name =
     (if name = [] then None
      else (case sg_LookupUser E name of
              None \<Rightarrow> None
            | Some g \<Rightarrow>
                (case Atoi g of
                   None \<Rightarrow> None
                 | Some gid \<Rightarrow> Some (gid, case sg_LookupGroupId E g of Some n \<Rightarrow> n | None \<Rightarrow> g))))"

fun first_some :: "('a \<Rightarrow> 'b option) \<Rightarrow> 'a list \<Rightarrow> 'b option" where
  "first_some f [] = None"
| "first_some f (x # xs) = (case f x of Some y \<Rightarrow> Some y | None \<Rightarrow> first_some f xs)"

definition resolveQEMUGroupGID :: "storage_env \<Rightarrow> (int \<times> string) option" where
  "resolveQEMUGroupGID E =
     (let name = valueFromQemuConf E ''group'';
          known = (\<lambda>n. map_option (\<lambda>gid. (gid, n)) (lookupGID E n)) in
      case (if name \<noteq> [] then known name else None) of Some r \<Rightarrow> Some r | None \<Rightarrow>
      case first_some (user_group E) (valueFromQemuConf E ''user'' # knownQEMUUsers) of Some r \<Rightarrow> Some r | None \<Rightarrow>
      first_some known qemuDiskGroups)"

section \<open>The operation\<close>

definition user_root :: "int \<Rightarrow> string" where
  "user_root uid = filepath_Join [libvirtImagesParent, Itoa_int uid]"

text \<open>The directories with owner, group and mode, in the order in which they are prepared.\<close>

definition storage_dirs :: "int \<Rightarrow> int \<Rightarrow> (string \<times> int \<times> int \<times> 32 word) list" where
  "storage_dirs uid gid = [(libvirtImagesParent, 0, 0, 493), (user_root uid, uid, gid, storageRootMode)]
     @ map (\<lambda>sub. (filepath_Join [user_root uid, sub], uid, gid, storageRootMode)) sharedStorageSubdirs"

text \<open>\<open>uid\<close> is the peer of the socket.\<close>

definition EnsureStorageRoot :: "storage_env \<Rightarrow> int \<Rightarrow> string \<Rightarrow> bool \<Rightarrow> store \<Rightarrow> store \<times> storage_error option" where
  "EnsureStorageRoot E uid path regroup s =
     (let want = user_root uid in
      if path_Clean path \<noteq> want then (s, Some (StNotPermitted path))
      else
       (case resolveQEMUGroupGID E of None \<Rightarrow> (s, Some StNoGroup) | Some (gid, _) \<Rightarrow>
        case ensure_each E (storage_dirs uid gid) s of
          (s1, Some e) \<Rightarrow> (s1, Some e)
        | (s1, None) \<Rightarrow>
            if regroup then (case regroupSubtree E want uid gid s1 of (s2, e) \<Rightarrow> (s2, map_option StRegroup e)) else (s1, None)))"

section \<open>What the operation can change\<close>

text \<open>Every inode with a name is in use, a regular file has at least as many links as names, and a directory has one name.\<close>

definition names_of :: "nat \<Rightarrow> store \<Rightarrow> string list list" where
  "names_of i s = map fst (filter (\<lambda>(_, j). j = i) (st_names s))"

definition store_ok :: "store \<Rightarrow> bool" where
  "store_ok s \<longleftrightarrow> distinct (map fst (st_names s))
    \<and> list_all (\<lambda>(_, i). i < st_next s
        \<and> (n_kind (st_inode s i) = KReg \<longrightarrow> length (names_of i s) \<le> n_nlink (st_inode s i))
        \<and> (n_kind (st_inode s i) = KDir \<longrightarrow> length (names_of i s) \<le> 1)) (st_names s)"

text \<open>A transition that keeps kinds and link counts, gives names only to new inodes, and changes another inode only through a name for which \<open>R\<close> holds.\<close>

definition moves :: "(string list \<Rightarrow> inode \<Rightarrow> bool) \<Rightarrow> store \<Rightarrow> store \<Rightarrow> bool" where
  "moves R s s' \<longleftrightarrow> st_next s \<le> st_next s'
    \<and> (\<exists>new. st_names s' = new @ st_names s \<and> (\<forall>x\<in>set new. st_next s \<le> snd x))
    \<and> (\<forall>i < st_next s. n_kind (st_inode s' i) = n_kind (st_inode s i) \<and> n_nlink (st_inode s' i) = n_nlink (st_inode s i)
         \<and> (st_inode s' i = st_inode s i \<or> (\<exists>p. inode_at s p = Some i \<and> R p (st_inode s i))))"

definition link_rule :: "(string list \<Rightarrow> inode \<Rightarrow> bool) \<Rightarrow> bool" where
  "link_rule R \<longleftrightarrow> (\<forall>p n n'. n_kind n = n_kind n' \<longrightarrow> n_nlink n = n_nlink n' \<longrightarrow> R p n \<longrightarrow> R p n')"

lemma moves_refl [simp, intro]: "moves R s s"
  by (simp add: moves_def)

lemma moves_old_name:
  assumes "moves R s s'" "inode_at s' p = Some i" "i < st_next s"
  shows "inode_at s p = Some i"
proof -
  obtain new where "st_names s' = new @ st_names s" "\<forall>x\<in>set new. st_next s \<le> snd x" using assms(1) by (auto simp: moves_def)
  with assms(2,3) show ?thesis by (cases "map_of new p") (auto simp: map_add_def dest!: map_of_SomeD)
qed

lemma moves_trans:
  assumes R: "link_rule R" and a: "moves R s s'" and b: "moves R s' s''"
  shows "moves R s s''"
proof -
  obtain new where new: "st_names s' = new @ st_names s" "\<forall>x\<in>set new. st_next s \<le> snd x" and n: "st_next s \<le> st_next s'"
    using a by (auto simp: moves_def)
  note old = moves_old_name [OF a]
  have "\<exists>new. st_names s'' = new @ st_names s \<and> (\<forall>x\<in>set new. st_next s \<le> snd x)"
  proof -
    obtain new' where "st_names s'' = new' @ st_names s'" "\<forall>x\<in>set new'. st_next s' \<le> snd x" using b by (auto simp: moves_def)
    with new n show ?thesis by (intro exI [of _ "new' @ new"]) fastforce
  qed
  moreover have "n_kind (st_inode s'' i) = n_kind (st_inode s i) \<and> n_nlink (st_inode s'' i) = n_nlink (st_inode s i)
      \<and> (st_inode s'' i = st_inode s i \<or> (\<exists>p. inode_at s p = Some i \<and> R p (st_inode s i)))" if "i < st_next s" for i
  proof -
    have x: "n_kind (st_inode s' i) = n_kind (st_inode s i)" "n_nlink (st_inode s' i) = n_nlink (st_inode s i)"
      "st_inode s' i = st_inode s i \<or> (\<exists>p. inode_at s p = Some i \<and> R p (st_inode s i))"
      using a that by (auto simp: moves_def)
    have y: "n_kind (st_inode s'' i) = n_kind (st_inode s' i)" "n_nlink (st_inode s'' i) = n_nlink (st_inode s' i)"
      "st_inode s'' i = st_inode s' i \<or> (\<exists>p. inode_at s' p = Some i \<and> R p (st_inode s' i))"
      using b that n by (auto simp: moves_def)
    show ?thesis using x y old [OF _ that] R unfolding link_rule_def by metis
  qed
  moreover have "st_next s \<le> st_next s''" using n b by (auto simp: moves_def)
  ultimately show ?thesis by (simp add: moves_def)
qed

lemma change_moves:
  assumes "inode_at s p = Some i" "R p (st_inode s i)" "n_kind (f (st_inode s i)) = n_kind (st_inode s i)" "n_nlink (f (st_inode s i)) = n_nlink (st_inode s i)"
  shows "moves R s (change_inode i f s)"
  using assms by (auto simp: moves_def change_inode_def)

lemma chown_moves:
  assumes "inode_at s p = Some i" "R p (st_inode s i)"
  shows "moves R s (fst (chown_inode E op p i uid gid s))"
  using assms by (auto simp: chown_inode_def intro: change_moves split: option.splits)

lemma chmod_moves:
  assumes "inode_at s p = Some i" "R p (st_inode s i)"
  shows "moves R s (fst (chmod_inode E op p i mode s))"
  using assms by (auto simp: chmod_inode_def intro: change_moves split: option.splits)

lemma chown_chmod_moves:
  assumes R: "link_rule R" and i: "inode_at s p = Some i" "R p (st_inode s i)"
  shows "moves R s (fst (chown_chmod E op op' p i uid gid mode s))"
proof -
  obtain s1 e where c: "chown_inode E op p i uid gid s = (s1, e)" by fastforce
  have 1: "moves R s s1" using chown_moves [of s p i R E op uid gid] i c by simp
  have k: "n_kind (st_inode s1 i) = n_kind (st_inode s i)" "n_nlink (st_inode s1 i) = n_nlink (st_inode s i)" "st_names s1 = st_names s"
    using c by (auto simp: chown_inode_def change_inode_def split: option.splits)
  then have "R p (st_inode s1 i)" using R i(2) unfolding link_rule_def by metis
  then have "moves R s1 (fst (chmod_inode E op' p i mode s1))" using chmod_moves i(1) k(3) by simp
  with 1 show ?thesis by (cases e) (auto simp: chown_chmod_def c intro: moves_trans [OF R])
qed

lemma Mkdir_moves: "moves R s (fst (store_Mkdir E p perm s))"
  by (auto simp: store_Mkdir_def moves_def Let_def split: option.splits)

lemma moves_fresh:
  assumes "moves R s s'" "st_next s \<le> i" "\<And>j. j \<noteq> i \<Longrightarrow> st_inode s'' j = st_inode s' j" "st_names s'' = st_names s'" "st_next s'' = st_next s'"
  shows "moves R s s''"
  using assms unfolding moves_def by (metis not_le)

lemma ensureDir_moves:
  assumes R: "link_rule R" and ok: "\<And>i n. inode_at s (path_key path) = Some i \<Longrightarrow> n_kind n = KDir \<Longrightarrow> R (path_key path) n"
  shows "moves R s (fst (ensureDir E path uid gid mode s))"
proof -
  let ?p = "path_key path"
  obtain s1 r where m: "store_Mkdir E ?p (mode AND 511) s = (s1, r)" by fastforce
  have 1: "moves R s s1" using Mkdir_moves [of R s E ?p "mode AND 511"] m by simp
  show ?thesis
  proof (cases "\<exists>i. inode_at s1 ?p = Some i \<and> n_kind (st_inode s1 i) = KDir")
    case True
    then obtain i where i: "inode_at s1 ?p = Some i" "n_kind (st_inode s1 i) = KDir" by blast
    have "moves R s (fst (chown_chmod E SChown SChmod ?p i uid gid mode s1))"
    proof (cases "inode_at s ?p = None")
      case False
      then have "R ?p (st_inode s1 i)" using ok i by auto
      from chown_chmod_moves [OF R i(1) this] show ?thesis by (rule moves_trans [OF R 1])
    next
      case True
      then have f: "st_next s \<le> i" using moves_old_name [OF 1 i(1)] by force
      show ?thesis
        by (intro moves_fresh [OF 1 f]) (auto simp: chown_chmod_def chown_inode_def chmod_inode_def change_inode_def split: option.splits)
    qed
    then show ?thesis using m i 1 by (auto simp: ensureDir_def Let_def split: option.splits prod.splits)
  next
    case False
    then show ?thesis using m 1 by (auto simp: ensureDir_def Let_def split: option.splits prod.splits)
  qed
qed

lemma ensure_each_moves:
  assumes R: "link_rule R" and ok: "\<And>d n. d \<in> set ds \<Longrightarrow> n_kind n = KDir \<Longrightarrow> R (path_key (fst d)) n"
  shows "moves R s (fst (ensure_each E ds s))"
  using ok
proof (induction ds arbitrary: s)
  case (Cons d ds)
  obtain path uid gid mode where d: "d = (path, uid, gid, mode)" by (cases d) auto
  have 1: "moves R s (fst (ensureDir E path uid gid mode s))" using ensureDir_moves [OF R] Cons.prems [of d] d by simp
  obtain s1 e where s1: "ensureDir E path uid gid mode s = (s1, e)" by fastforce
  have "moves R s1 (fst (ensure_each E ds s1))" using Cons by simp
  with 1 show ?case by (cases e) (auto simp: d s1 intro: moves_trans [OF R])
qed simp

lemma entry_moves:
  assumes R: "link_rule R" and ok: "\<And>n. n_kind n = KReg \<longrightarrow> n_nlink n \<le> 1 \<Longrightarrow> R p n"
  shows "moves R s (fst (regroup_entry E uid gid p s))"
proof (cases "inode_at s p")
  case None
  then show ?thesis by (simp add: regroup_entry_def)
next
  case (Some i)
  show ?thesis
  proof (cases "n_kind (st_inode s i) = KReg \<and> 1 < n_nlink (st_inode s i)")
    case True
    then show ?thesis by (auto simp: regroup_entry_def regroupFile_def Some Let_def split: option.splits)
  next
    case False
    then have r: "R p (st_inode s i)" using ok by auto
    have c: "fst (regroup_entry E uid gid p s) = fst (chown_inode E op p i uid gid s)
        \<or> fst (regroup_entry E uid gid p s) \<in> {s, fst (chown_chmod E WChown WChmod p i uid gid mode s)}"
      if "op = (if n_kind (st_inode s i) = KSym then WLchown else WChown)"
        and "mode = (if n_kind (st_inode s i) = KDir then storageRootMode else (n_mode (st_inode s i) AND 448) OR (if last p = diskFileName then 48 else 32))"
      for op mode
      using that False by (cases "n_kind (st_inode s i)") (simp_all add: regroup_entry_def regroupFile_def Some Let_def split: option.split prod.split)
    show ?thesis using c [OF refl refl] chown_chmod_moves [OF R Some r] chown_moves [of s p i R, OF Some r] by (elim disjE insertE) auto
  qed
qed

lemma regroup_each_moves:
  assumes R: "link_rule R" and ok: "\<And>p n. p \<in> set ps \<Longrightarrow> n_kind n = KReg \<longrightarrow> n_nlink n \<le> 1 \<Longrightarrow> R p n"
  shows "moves R s (fst (regroup_each E uid gid ps s))"
  using ok
proof (induction ps arbitrary: s)
  case (Cons p ps)
  obtain s1 e where s1: "regroup_entry E uid gid p s = (s1, e)" by fastforce
  have 1: "moves R s s1" using entry_moves [OF R, of p s E uid gid] Cons.prems s1 by simp
  have "moves R s1 (fst (regroup_each E uid gid ps s1))" using Cons by simp
  with 1 show ?case by (cases e) (auto simp: s1 intro: moves_trans [OF R])
qed simp

text \<open>What a request of user \<open>uid\<close> may reach: the shared directory and what has a name in the user's subtree, a regular file only if it has no other link.\<close>

definition in_reach :: "int \<Rightarrow> string list \<Rightarrow> inode \<Rightarrow> bool" where
  "in_reach uid p n \<longleftrightarrow>
     (if n_kind n = KDir then p = path_key libvirtImagesParent \<or> prefix (path_key (user_root uid)) p
      else prefix (path_key (user_root uid)) p \<and> (n_kind n = KReg \<longrightarrow> n_nlink n \<le> 1))"

lemma in_reach_rule: "link_rule (in_reach uid)"
  by (auto simp: link_rule_def in_reach_def)

lemma subdir_below:
  assumes "sub \<in> set sharedStorageSubdirs"
  shows "prefix (path_key (user_root uid)) (path_key (filepath_Join [user_root uid, sub]))"
proof -
  have "HasPrefix (user_root uid) ''/''" by (simp add: user_root_def libvirtImagesParent_def filepath_Join_abs)
  moreover have "normal_seg sub" using assms by (auto simp: sharedStorageSubdirs_def normal_seg_def seg_ok_def)
  ultimately show ?thesis by (simp add: filepath_Join_normal path_key_def clean_segments_normal)
qed

lemma storage_moves:
  assumes "EnsureStorageRoot E uid path regroup s = (s', r)"
  shows "moves (in_reach uid) s s'"
proof -
  have e: "moves (in_reach uid) s (fst (ensure_each E (storage_dirs uid gid) s))" for gid
    using subdir_below by (intro ensure_each_moves in_reach_rule) (auto simp: in_reach_def storage_dirs_def)
  have w: "moves (in_reach uid) s1 (fst (regroupSubtree E (user_root uid) uid gid s1))" for gid s1
    by (auto simp: regroupSubtree_def walk_paths_def in_reach_def split: option.split intro!: regroup_each_moves in_reach_rule)
  from assms show ?thesis
    using e w moves_trans [OF in_reach_rule e w] by (auto simp: EnsureStorageRoot_def Let_def split: if_splits option.splits prod.splits
        dest!: arg_cong [of "regroupSubtree _ _ _ _ _" _ fst] arg_cong [of "ensure_each _ _ _" _ fst])
qed

text \<open>
  C18 (safety). Whatever the calling user has put into the storage directory, hard links included, and whichever call fails, a request to the privileged
  helper leaves every other path alone: a regular file or directory whose owner, group or mode changes has no name outside the subtree of the user,
  apart from the shared parent directory, and a link to another kind of node is the only way past it. A request for another path changes nothing.
\<close>

theorem storage_confined:
  assumes "store_ok s" and "EnsureStorageRoot E uid path regroup s = (s', r)"
  shows "(path_Clean path \<noteq> user_root uid \<longrightarrow> s' = s)
    \<and> (\<forall>(q, i) \<in> set (st_names s). st_inode s' i \<noteq> st_inode s i \<longrightarrow>
         (q = path_key libvirtImagesParent \<and> n_kind (st_inode s i) = KDir \<or> prefix (path_key (user_root uid)) q)
         \<or> n_kind (st_inode s i) \<in> {KSym, KOther} \<and> (\<exists>p \<in> set (names_of i s). prefix (path_key (user_root uid)) p))"
proof -
  have "(q = path_key libvirtImagesParent \<and> n_kind (st_inode s i) = KDir \<or> prefix (path_key (user_root uid)) q)
      \<or> n_kind (st_inode s i) \<in> {KSym, KOther} \<and> (\<exists>p \<in> set (names_of i s). prefix (path_key (user_root uid)) p)"
    if q: "(q, i) \<in> set (st_names s)" and c: "st_inode s' i \<noteq> st_inode s i" for q i
  proof -
    have i: "i < st_next s" "n_kind (st_inode s i) = KReg \<Longrightarrow> length (names_of i s) \<le> n_nlink (st_inode s i)"
      "n_kind (st_inode s i) = KDir \<Longrightarrow> length (names_of i s) \<le> 1"
      using assms(1) q by (auto simp: store_ok_def list_all_iff)
    obtain p where p: "inode_at s p = Some i" "in_reach uid p (st_inode s i)"
      using storage_moves [OF assms(2)] i(1) c by (auto simp: moves_def)
    have n: "p \<in> set (names_of i s)" "q \<in> set (names_of i s)"
      using p(1) q by (force simp: names_of_def dest: map_of_SomeD)+
    show ?thesis
    proof (cases "n_kind (st_inode s i) \<in> {KSym, KOther}")
      case True
      with p(2) n show ?thesis by (auto simp: in_reach_def)
    next
      case False
      then have "n_kind (st_inode s i) = KDir \<or> n_kind (st_inode s i) = KReg" by (cases "n_kind (st_inode s i)") auto
      then have "length (names_of i s) \<le> 1" using i p(2) by (auto simp: in_reach_def)
      then have "p = q" using n by (cases "names_of i s") auto
      with p(2) False show ?thesis by (auto simp: in_reach_def split: if_splits)
    qed
  qed
  moreover have "path_Clean path \<noteq> user_root uid \<Longrightarrow> s' = s" using assms(2) by (simp add: EnsureStorageRoot_def Let_def)
  ultimately show ?thesis by blast
qed

text \<open>A disk of user 1000 that is also known under a name in another directory, and a fifo of the same kind.\<close>

definition planted :: store where
  "planted = \<lparr>st_names = [([''var'', ''lib'', ''libvirt'', ''images''], 0), (path_key libvirtImagesParent, 1), (path_key (user_root 1000), 2),
       (path_key (user_root 1000) @ [''disk.qcow2''], 3), (path_key (user_root 1000) @ [''pipe''], 4), ([''etc'', ''shadow''], 3), ([''var'', ''spool'', ''pipe''], 4)],
     st_inode = (\<lambda>i. \<lparr>n_kind = (if i \<le> 2 then KDir else if i = 3 then KReg else KOther), n_uid = (if i = 2 then 1000 else 0), n_gid = 0, n_mode = 416, n_nlink = 2\<rparr>),
     st_next = 5\<rparr>"

definition plain_env :: storage_env where
  "plain_env = \<lparr>sg_fail = (\<lambda>_ _. None), sg_umask = 18, sg_chown_mode = (\<lambda>_ m. m), sg_conf = None, sg_LookupGroup = (\<lambda>g. if g = ''kvm'' then Some ''36'' else None),
     sg_LookupUser = Map.empty, sg_LookupGroupId = Map.empty\<rparr>"

lemma key_1000: "path_key (user_root 1000) = [''var'', ''lib'', ''libvirt'', ''images'', ''abox'', ''1000'']"
  "path_key libvirtImagesParent = [''var'', ''lib'', ''libvirt'', ''images'', ''abox'']"
proof -
  have "Itoa_int 1000 = ''1000''" by (simp add: Itoa_int_def Itoa.simps char_of_def bit_0)
  then show "path_key (user_root 1000) = [''var'', ''lib'', ''libvirt'', ''images'', ''abox'', ''1000'']"
    by (simp add: user_root_def libvirtImagesParent_def path_key_def path_eval)
qed (simp add: libvirtImagesParent_def path_key_def path_eval)

lemma planted_ok: "store_ok planted"
  by (simp add: store_ok_def planted_def names_of_def key_1000)

theorem storage_confined_witness:
  "st_inode (fst (EnsureStorageRoot plain_env 1000 (user_root 1000) True planted)) 3 = st_inode planted 3"
proof -
  obtain s' r where s': "EnsureStorageRoot plain_env 1000 (user_root 1000) True planted = (s', r)" by fastforce
  have q: "([''etc'', ''shadow''], 3) \<in> set (st_names planted)" and k: "n_kind (st_inode planted 3) = KReg" by (simp_all add: planted_def)
  have "st_inode s' 3 = st_inode planted 3"
  proof (rule ccontr)
    assume "st_inode s' 3 \<noteq> st_inode planted 3"
    with storage_confined [OF planted_ok s', THEN conjunct2, THEN bspec, OF q] k have "prefix (path_key (user_root 1000)) [''etc'', ''shadow'']" by simp
    then show False by (simp add: key_1000)
  qed
  with s' show ?thesis by simp
qed

text \<open>The fifo next to it changes its owner under both names: nodes that are neither files nor directories are not checked for other links.\<close>

lemma planted_pipe_taken: "n_uid (st_inode (fst (regroup_each plain_env 1000 36 [path_key (user_root 1000) @ [''pipe'']] planted)) 4) = 1000"
  by (simp add: regroup_entry_def planted_def key_1000 chown_inode_def change_inode_def plain_env_def)

text \<open>The directory that the client asks for is the one the helper permits.\<close>

lemma client_root_permitted: "path_Clean (LibvirtStorageDir P) = user_root (int (Getuid P))"
proof -
  have "user_root (int (Getuid P)) = LibvirtStorageDir P" by (simp add: user_root_def LibvirtStorageDir_def libvirtImagesParent_def LibvirtImagesDir_def Itoa_int_def)
  moreover obtain x where "LibvirtStorageDir P = path_Clean x" "HasPrefix x ''/''"
    by (simp add: LibvirtStorageDir_def LibvirtImagesDir_def filepath_Join_def)
  ultimately show ?thesis by (simp add: path_Clean_rooted clean_segments_normal)
qed

section \<open>A finished walk\<close>

text \<open>What a successful request for regrouping leaves: everything in the subtree belongs to the user and the group of QEMU, directories pass the group
  on, and files are readable by the group and closed to others.\<close>

definition regrouped :: "int \<Rightarrow> int \<Rightarrow> inode \<Rightarrow> bool" where
  "regrouped uid gid n \<longleftrightarrow> n_uid n = uid \<and> n_gid n = gid \<and> (n_kind n = KDir \<longrightarrow> n_mode n = storageRootMode)
    \<and> (n_kind n = KReg \<longrightarrow> n_mode n AND 7 = 0 \<and> n_mode n AND 32 = 32)"

lemma file_mode [simp]:
  "((m AND 448) OR 48) AND 7 = (0 :: 32 word)" "((m AND 448) OR 32) AND 7 = (0 :: 32 word)"
  "((m AND 448) OR 48) AND 32 = (32 :: 32 word)" "((m AND 448) OR 32) AND 32 = (32 :: 32 word)"
  by (simp_all add: bit.conj_disj_distrib2 and.assoc)

lemma chown_chmod_done:
  assumes "chown_chmod E op op' p i uid gid mode s = (s', None)"
  shows "st_names s' = st_names s" "st_inode s' i = (st_inode s i)\<lparr>n_uid := uid, n_gid := gid, n_mode := mode\<rparr>" "j \<noteq> i \<Longrightarrow> st_inode s' j = st_inode s j"
  using assms by (auto simp: chown_chmod_def chown_inode_def chmod_inode_def change_inode_def split: option.splits)

lemma chown_done:
  assumes "chown_inode E op p i uid gid s = (s', None)"
  shows "st_names s' = st_names s" "n_kind (st_inode s' i) = n_kind (st_inode s i)" "n_uid (st_inode s' i) = uid" "n_gid (st_inode s' i) = gid"
    "j \<noteq> i \<Longrightarrow> st_inode s' j = st_inode s j"
  using assms by (auto simp: chown_inode_def change_inode_def split: option.splits)

lemma entry_done:
  assumes "regroup_entry E uid gid p s = (s', None)"
  shows "st_names s' = st_names s \<and> (\<exists>i. inode_at s p = Some i \<and> regrouped uid gid (st_inode s' i) \<and> (\<forall>j. j \<noteq> i \<longrightarrow> st_inode s' j = st_inode s j))"
proof -
  obtain i where i: "inode_at s p = Some i" using assms by (auto simp: regroup_entry_def split: option.splits)
  show ?thesis
  proof (cases "n_kind (st_inode s i)")
    case KReg
    then obtain mode where "chown_chmod E WChown WChmod p i uid gid mode s = (s', None)" "mode AND 7 = 0" "mode AND 32 = 32"
      using assms i by (auto simp: regroup_entry_def regroupFile_def Let_def split: option.splits if_splits prod.splits)
    with i KReg show ?thesis using chown_chmod_done by (auto simp: regrouped_def)
  next
    case KDir
    then have "chown_chmod E WChown WChmod p i uid gid storageRootMode s = (s', None)"
      using assms i by (auto simp: regroup_entry_def split: option.splits prod.splits)
    with i KDir show ?thesis using chown_chmod_done by (auto simp: regrouped_def)
  next
    case KSym
    then have "chown_inode E WLchown p i uid gid s = (s', None)" using assms i by (auto simp: regroup_entry_def split: prod.splits)
    with i KSym show ?thesis using chown_done by (auto simp: regrouped_def)
  next
    case KOther
    then have "chown_inode E WChown p i uid gid s = (s', None)" using assms i by (auto simp: regroup_entry_def split: prod.splits)
    with i KOther show ?thesis using chown_done by (auto simp: regrouped_def)
  qed
qed

lemma regroup_each_done:
  assumes "regroup_each E uid gid ps s = (s', None)" "\<And>q i. q \<in> Q \<Longrightarrow> inode_at s q = Some i \<Longrightarrow> regrouped uid gid (st_inode s i)"
  shows "st_names s' = st_names s \<and> (\<forall>q i. q \<in> Q \<union> set ps \<longrightarrow> inode_at s q = Some i \<longrightarrow> regrouped uid gid (st_inode s' i))"
  using assms
proof (induction ps arbitrary: s Q)
  case (Cons p ps)
  obtain s1 where s1: "regroup_entry E uid gid p s = (s1, None)" "regroup_each E uid gid ps s1 = (s', None)"
    using Cons.prems(1) by (auto split: option.splits prod.splits)
  note d = entry_done [OF s1(1)]
  have "regrouped uid gid (st_inode s1 i)" if "q \<in> insert p Q" "inode_at s1 q = Some i" for q i
    using that d Cons.prems(2) by (cases "inode_at s p = Some i") auto
  then have "st_names s' = st_names s1 \<and> (\<forall>q i. q \<in> insert p Q \<union> set ps \<longrightarrow> inode_at s1 q = Some i \<longrightarrow> regrouped uid gid (st_inode s' i))"
    by (intro Cons.IH [OF s1(2)])
  with d show ?case by auto
qed simp

lemma storage_regrouped:
  assumes "EnsureStorageRoot E uid path True s = (s', None)" "inode_at s' p = Some i" "prefix (path_key (user_root uid)) p"
  shows "\<exists>gid g. resolveQEMUGroupGID E = Some (gid, g) \<and> regrouped uid gid (st_inode s' i)"
proof -
  obtain gid g s1 where r: "resolveQEMUGroupGID E = Some (gid, g)" and w: "regroup_each E uid gid (walk_paths (path_key (user_root uid)) s1) s1 = (s', None)"
    using assms(1) by (auto simp: EnsureStorageRoot_def regroupSubtree_def Let_def split: if_splits option.splits prod.splits)
  have "inode_at s1 p = Some i \<and> p \<in> set (walk_paths (path_key (user_root uid)) s1)"
    using assms(2,3) regroup_each_done [OF w, of "{}"] by (auto simp: walk_paths_def) (metis fst_conv image_eqI map_of_SomeD)
  then show ?thesis using r regroup_each_done [OF w, of "{}"] by auto
qed

end
