(* ===== verification/VMware_Net.thy ===== *)
theory VMware_Net
  imports Config_Resources "HOL-Library.AList" "HOL-Library.Char_ord" "HOL-Library.List_Lexorder"
begin

text \<open>
  The host-only networks of the VMware backend: the registry that gives every instance a \<open>vmnet\<close> number
  (\<^verbatim>\<open>internal/vmrun/network.go\<close>), the edit of the networking file of the vendor (\<^verbatim>\<open>internal/vmrun/netcfg_answerfile.go\<close>,
  \<^verbatim>\<open>netcfg.go\<close>, \<^verbatim>\<open>netcfg_linux.go\<close>) and the network manager that joins them (\<^verbatim>\<open>internal/backend/vmware/network.go\<close>).
  The registry file is given by the document it holds, the files are replaced atomically, and every call of the operating system
  and every restart command may fail. The lemmas say that no two instances share a network, that a network is never given an uplink by the
  directives that are written, and that the lines of all other networks stay as they are.
\<close>

section \<open>The registry\<close>

datatype reg_file = RegMissing | RegUnreadable os_error | RegGarbled | RegDoc "(string \<times> string) list"

datatype vm_error =
    VeRead os_error | VeParse | VeSave os_error | VeExhausted | VeUplink string | VeName string | VeNetRead os_error | VeNetWrite os_error
  | VeNoTool | VeTool "string list" string | VePaths path_error | VeLoad config_error | VePersist config_error

definition vmnetPoolLow :: nat where "vmnetPoolLow = 2"
definition vmnetPoolHigh :: nat where "vmnetPoolHigh = 19"
definition vmnetNATNum :: nat where "vmnetNATNum = 8"

definition vmnetName :: "nat \<Rightarrow> string" where
  "vmnetName n = ''vmnet'' @ Itoa n"

definition parseVMNet :: "string \<Rightarrow> int option" where
  "parseVMNet name = (if length name \<le> 5 \<or> take 5 name \<noteq> ''vmnet'' then None else Atoi (drop 5 name))"

definition loadRegistry :: "reg_file \<Rightarrow> vm_error + (string \<times> string) list" where
  "loadRegistry f = (case f of RegMissing \<Rightarrow> Inr [] | RegUnreadable e \<Rightarrow> Inl (VeRead e) | RegGarbled \<Rightarrow> Inl VeParse | RegDoc r \<Rightarrow> Inr r)"

text \<open>\<open>io\<close> is the failure of the atomic write, if any.\<close>

definition saveRegistry :: "os_error option \<Rightarrow> (string \<times> string) list \<Rightarrow> reg_file \<Rightarrow> reg_file \<times> vm_error option" where
  "saveRegistry io r f = (case io of Some e \<Rightarrow> (f, Some (VeSave e)) | None \<Rightarrow> (RegDoc r, None))"

definition used_nums :: "(string \<times> string) list \<Rightarrow> int list" where
  "used_nums r = List.map_filter (\<lambda>(_, v). parseVMNet v) r"

definition vmnet_pool :: "nat list" where
  "vmnet_pool = filter (\<lambda>n. n \<noteq> vmnetNATNum) [vmnetPoolLow..<Suc vmnetPoolHigh]"

definition Allocate :: "os_error option \<Rightarrow> string \<Rightarrow> reg_file \<Rightarrow> reg_file \<times> (vm_error + string)" where
  "Allocate io inst f =
     (case loadRegistry f of Inl e \<Rightarrow> (f, Inl e) | Inr r \<Rightarrow>
      case map_of r inst of Some v \<Rightarrow> (f, Inr v) | None \<Rightarrow>
      case find (\<lambda>n. int n \<notin> set (used_nums r)) vmnet_pool of
        None \<Rightarrow> (f, Inl VeExhausted)
      | Some n \<Rightarrow>
          (case saveRegistry io (AList.update inst (vmnetName n) r) f of
             (f', Some e) \<Rightarrow> (f', Inl e)
           | (f', None) \<Rightarrow> (f', Inr (vmnetName n))))"

definition Release :: "os_error option \<Rightarrow> string \<Rightarrow> reg_file \<Rightarrow> reg_file \<times> vm_error option" where
  "Release io inst f =
     (case loadRegistry f of Inl e \<Rightarrow> (f, Some e) | Inr r \<Rightarrow>
      if map_of r inst = None then (f, None) else saveRegistry io (AList.delete inst r) f)"

definition LookupErr :: "string \<Rightarrow> reg_file \<Rightarrow> vm_error + string option" where
  "LookupErr inst f = (case loadRegistry f of Inl e \<Rightarrow> Inl e | Inr r \<Rightarrow> Inr (map_of r inst))"

definition Lookup :: "string \<Rightarrow> reg_file \<Rightarrow> string option" where
  "Lookup inst f = (case LookupErr inst f of Inl _ \<Rightarrow> None | Inr v \<Rightarrow> v)"

definition AllocatedInstancesErr :: "reg_file \<Rightarrow> vm_error + string list" where
  "AllocatedInstancesErr f = (case loadRegistry f of Inl e \<Rightarrow> Inl e | Inr r \<Rightarrow> Inr (sort (map fst r)))"

definition AllocatedInstances :: "reg_file \<Rightarrow> string list" where
  "AllocatedInstances f = (case AllocatedInstancesErr f of Inl _ \<Rightarrow> [] | Inr ns \<Rightarrow> ns)"

section \<open>Uplinks\<close>

record HostOnlyConfig =
  ho_VNet :: string
  ho_Subnet :: string
  ho_Gateway :: string
  ho_Netmask :: string

definition uplinkTokens :: "string list" where
  "uplinkTokens = [''nat'', ''bridge'', ''bridged'', ''uplink'', ''connectiontype'']"

text \<open>\<open>strings.FieldsFunc\<close> at hyphens and equals signs.\<close>

fun flag_fields :: "string \<Rightarrow> string \<Rightarrow> string list" where
  "flag_fields w [] = (if w = [] then [] else [rev w])"
| "flag_fields w (c # s) = (if c = CHR ''-'' \<or> c = CHR ''='' then (if w = [] then [] else [rev w]) @ flag_fields [] s else flag_fields (c # w) s)"

definition forbidden_arg :: "(string \<Rightarrow> string) \<Rightarrow> string \<Rightarrow> bool" where
  "forbidden_arg u a = (let lower = ToLower u a in list_ex (\<lambda>frag. list_ex (Contains frag) uplinkTokens) (lower # flag_fields [] lower))"

definition assertNoUplink :: "(string \<Rightarrow> string) \<Rightarrow> string list \<Rightarrow> vm_error option" where
  "assertNoUplink u args = map_option VeUplink (find (forbidden_arg u) args)"

definition assertNoUplinkConfig :: "(string \<Rightarrow> string) \<Rightarrow> HostOnlyConfig \<Rightarrow> vm_error option" where
  "assertNoUplinkConfig u cfg = assertNoUplink u [ho_VNet cfg, ho_Subnet cfg, ho_Gateway cfg, ho_Netmask cfg]"

section \<open>The networking file\<close>

definition vnetNum :: "string \<Rightarrow> int" where
  "vnetNum vnet = (case parseVMNet vnet of Some n \<Rightarrow> n | None \<Rightarrow> - 1)"

definition splitNetworkingLines :: "string \<Rightarrow> string list" where
  "splitNetworkingLines content =
     (if content = [] then [] else let lines = Split content LF in if last lines = [] then butlast lines else lines)"

definition joinNetworkingLines :: "string list \<Rightarrow> string" where
  "joinNetworkingLines lines = (if lines = [] then [] else Join lines [LF] @ [LF])"

definition vnet_prefix :: "int \<Rightarrow> string" where
  "vnet_prefix n = ''answer VNET_'' @ Itoa_int n @ ''_''"

definition vnet_line :: "int \<Rightarrow> string \<Rightarrow> bool" where
  "vnet_line n line \<longleftrightarrow> HasPrefix (TrimSpace line) (vnet_prefix n)"

definition dropVNetLines :: "string \<Rightarrow> int \<Rightarrow> string list" where
  "dropVNetLines content n = filter (\<lambda>line. \<not> vnet_line n line) (splitNetworkingLines content)"

definition networkingVersionHeader :: string where "networkingVersionHeader = ''VERSION=1,0''"

definition ensureVersionHeader :: "string list \<Rightarrow> string list" where
  "ensureVersionHeader lines =
     (if list_ex (\<lambda>l. HasPrefix (TrimSpace l) ''VERSION='') lines then lines else networkingVersionHeader # lines)"

definition hostOnlyDirectives :: "HostOnlyConfig \<Rightarrow> string list" where
  "hostOnlyDirectives cfg =
     (let p = vnet_prefix (vnetNum (ho_VNet cfg)) in
      [p @ ''HOSTONLY_SUBNET '' @ ho_Subnet cfg, p @ ''HOSTONLY_NETMASK '' @ ho_Netmask cfg, p @ ''VIRTUAL_ADAPTER yes'', p @ ''NAT no'', p @ ''DHCP no''])"

definition applyHostOnlyDirectives :: "string \<Rightarrow> HostOnlyConfig \<Rightarrow> vm_error + string" where
  "applyHostOnlyDirectives existing cfg =
     (let n = vnetNum (ho_VNet cfg) in
      if n < 0 then Inl (VeName (ho_VNet cfg))
      else Inr (joinNetworkingLines (ensureVersionHeader (dropVNetLines existing n) @ hostOnlyDirectives cfg)))"

definition removeHostOnlyDirectives :: "string \<Rightarrow> string \<Rightarrow> string \<times> bool" where
  "removeHostOnlyDirectives existing vnet =
     (let n = vnetNum vnet; kept = dropVNetLines existing n in
      if n < 0 then (existing, False)
      else if length kept = length (splitNetworkingLines existing) then (existing, False)
      else (joinNetworkingLines kept, True))"

text \<open>The host: whether the file can be read and written, which tool is found, how its runs end, and whether the registry can be saved. The content is \<open>None\<close> when there is no file.\<close>

record vm_host =
  vh_lower :: "string \<Rightarrow> string"
  vh_read :: "os_error option"
  vh_write :: "os_error option"
  vh_stat :: "string \<Rightarrow> bool"
  vh_lookPath :: "string \<Rightarrow> string option"
  vh_run :: "string list \<Rightarrow> string option"
  vh_alloc_io :: "os_error option"
  vh_release_io :: "os_error option"
  vh_applyArgs :: "string list list"
  vh_tools :: "string list"

definition linux_tools :: "string list" where "linux_tools = [''vmware-networks'', ''vnetlib'']"
definition linux_applyArgs :: "string list list" where "linux_applyArgs = [[''--stop''], [''--start'']]"

fun resolveNetTool :: "vm_host \<Rightarrow> string list \<Rightarrow> string option" where
  "resolveNetTool H [] = None"
| "resolveNetTool H (c # cs) =
     (if IsAbs c then (if vh_stat H c then Some c else resolveNetTool H cs)
      else (case vh_lookPath H c of Some p \<Rightarrow> Some p | None \<Rightarrow> resolveNetTool H cs))"

definition runNetCmd :: "vm_host \<Rightarrow> string list \<Rightarrow> vm_error option" where
  "runNetCmd H args = (case assertNoUplink (vh_lower H) args of Some e \<Rightarrow> Some e | None \<Rightarrow> map_option (VeTool args) (vh_run H args))"

fun run_each :: "vm_host \<Rightarrow> string list list \<Rightarrow> vm_error option" where
  "run_each H [] = None"
| "run_each H (args # rest) = (case runNetCmd H args of Some e \<Rightarrow> Some e | None \<Rightarrow> run_each H rest)"

definition apply_networking :: "vm_host \<Rightarrow> vm_error option" where
  "apply_networking H = (case resolveNetTool H (vh_tools H) of None \<Rightarrow> Some VeNoTool | Some _ \<Rightarrow> run_each H (vh_applyArgs H))"

definition readNetworkingFile :: "vm_host \<Rightarrow> string option \<Rightarrow> vm_error + string" where
  "readNetworkingFile H file =
     (case vh_read H of Some e \<Rightarrow> Inl (VeNetRead e) | None \<Rightarrow> Inr (case file of None \<Rightarrow> [] | Some c \<Rightarrow> c))"

definition write_and_apply :: "vm_host \<Rightarrow> string \<Rightarrow> string option \<Rightarrow> string option \<times> vm_error option" where
  "write_and_apply H updated file =
     (case vh_write H of Some e \<Rightarrow> (file, Some (VeNetWrite e)) | None \<Rightarrow> (Some updated, apply_networking H))"

definition configure :: "vm_host \<Rightarrow> HostOnlyConfig \<Rightarrow> string option \<Rightarrow> string option \<times> vm_error option" where
  "configure H cfg file =
     (case assertNoUplinkConfig (vh_lower H) cfg of Some e \<Rightarrow> (file, Some e) | None \<Rightarrow>
      case readNetworkingFile H file of Inl e \<Rightarrow> (file, Some e) | Inr existing \<Rightarrow>
      case applyHostOnlyDirectives existing cfg of Inl e \<Rightarrow> (file, Some e) | Inr updated \<Rightarrow> write_and_apply H updated file)"

definition unconfigure :: "vm_host \<Rightarrow> string \<Rightarrow> string option \<Rightarrow> string option \<times> vm_error option" where
  "unconfigure H vnet file =
     (case assertNoUplink (vh_lower H) [vnet] of Some e \<Rightarrow> (file, Some e) | None \<Rightarrow>
      case readNetworkingFile H file of Inl e \<Rightarrow> (file, Some e) | Inr existing \<Rightarrow>
      case removeHostOnlyDirectives existing vnet of
        (_, False) \<Rightarrow> (file, None)
      | (updated, True) \<Rightarrow> write_and_apply H updated file)"

section \<open>The network manager\<close>

definition VNetConfigKey :: string where "VNetConfigKey = ''vnet''"

definition subnetNetworkAddr :: "string \<Rightarrow> string" where
  "subnetNetworkAddr cidr = (case IndexByte cidr CHR ''/'' of Some k \<Rightarrow> take k cidr | None \<Rightarrow> cidr)"

definition hostOnlyConfigFor :: "Instance \<Rightarrow> string \<Rightarrow> HostOnlyConfig" where
  "hostOnlyConfigFor inst vnet =
     \<lparr>ho_VNet = vnet, ho_Subnet = subnetNetworkAddr (i_Subnet inst), ho_Gateway = i_Gateway inst, ho_Netmask = ''255.255.255.0''\<rparr>"

text \<open>The state: the files of the configuration, the registry and the networking file.\<close>

record 'v vm_world =
  vw_fs :: 'v
  vw_reg :: reg_file
  vw_net :: "string option"

definition set_vnet :: "Instance \<Rightarrow> string \<Rightarrow> Instance" where
  "set_vnet inst vnet =
     inst\<lparr>i_BackendConfig := Some ((case i_BackendConfig inst of None \<Rightarrow> Map.empty | Some m \<Rightarrow> m)(VNetConfigKey \<mapsto> AnyString vnet))\<rparr>"

definition rollbackNetworkCreate :: "vm_host \<Rightarrow> ('v, 't) config_env \<Rightarrow> Instance \<Rightarrow> 'v vm_world \<Rightarrow> 'v vm_world" where
  "rollbackNetworkCreate H C inst w =
     (let w1 = w\<lparr>vw_reg := fst (Release (vh_release_io H) (i_Name inst) (vw_reg w))\<rparr> in
      case Config_Load C (vw_fs w1) (i_Name inst) of Inl _ \<Rightarrow> w1 | Inr (loaded, lpaths) \<Rightarrow>
      case i_BackendConfig loaded of None \<Rightarrow> w1 | Some m \<Rightarrow>
      if m VNetConfigKey = None then w1
      else w1\<lparr>vw_fs := fst (Config_Save C (vw_fs w1) (loaded\<lparr>i_BackendConfig := Some (m(VNetConfigKey := None))\<rparr>) lpaths)\<rparr>)"

text \<open>The instance in memory gets the network as soon as it is allocated, so the new value is part of the result.\<close>

definition persist_vnet :: "('v, 't) config_env \<Rightarrow> string \<Rightarrow> string \<Rightarrow> 'v vm_world \<Rightarrow> 'v vm_world \<times> vm_error option" where
  "persist_vnet C name vnet w =
     (case Config_Load C (vw_fs w) name of Inl e \<Rightarrow> (w, Some (VeLoad e)) | Inr (loaded, lpaths) \<Rightarrow>
      case Config_Save C (vw_fs w) (set_vnet loaded vnet) lpaths of (v, e) \<Rightarrow> (w\<lparr>vw_fs := v\<rparr>, map_option VePersist e))"

definition vmware_net_Create ::
  "vm_host \<Rightarrow> ('v, 't) config_env \<Rightarrow> Instance \<Rightarrow> 'v vm_world \<Rightarrow> 'v vm_world \<times> Instance \<times> vm_error option" where
  "vmware_net_Create H C inst w =
     (case ce_paths C (vw_fs w) (i_Name inst) (i_StorageDir inst) of Inl e \<Rightarrow> (w, inst, Some (VePaths e)) | Inr _ \<Rightarrow>
      let existed = (case LookupErr (i_Name inst) (vw_reg w) of Inr (Some _) \<Rightarrow> True | _ \<Rightarrow> False) in
      case Allocate (vh_alloc_io H) (i_Name inst) (vw_reg w) of (f, Inl e) \<Rightarrow> (w\<lparr>vw_reg := f\<rparr>, inst, Some e) | (f, Inr vnet) \<Rightarrow>
      let w1 = w\<lparr>vw_reg := f\<rparr>; inst1 = set_vnet inst vnet in
      case (case persist_vnet C (i_Name inst) vnet w1 of
              (w2, Some e) \<Rightarrow> (w2, Some e)
            | (w2, None) \<Rightarrow> (case configure H (hostOnlyConfigFor inst1 vnet) (vw_net w2) of (file, e) \<Rightarrow> (w2\<lparr>vw_net := file\<rparr>, e))) of
        (w3, None) \<Rightarrow> (w3, inst1, None)
      | (w3, Some e) \<Rightarrow> (if existed then w3 else rollbackNetworkCreate H C inst w3, inst1, Some e))"

definition instanceForBridgeErr :: "(string \<Rightarrow> u8 list) \<Rightarrow> string \<Rightarrow> reg_file \<Rightarrow> vm_error + string option" where
  "instanceForBridgeErr sum256 bridge f =
     (case AllocatedInstancesErr f of Inl e \<Rightarrow> Inl e | Inr ns \<Rightarrow> Inr (find (\<lambda>n. GenerateBridgeName sum256 n = bridge) ns))"

definition instanceForBridge :: "(string \<Rightarrow> u8 list) \<Rightarrow> string \<Rightarrow> reg_file \<Rightarrow> string option" where
  "instanceForBridge sum256 bridge f = find (\<lambda>n. GenerateBridgeName sum256 n = bridge) (AllocatedInstances f)"

definition vmware_net_Delete ::
  "vm_host \<Rightarrow> ('v, 't) config_env \<Rightarrow> (string \<Rightarrow> u8 list) \<Rightarrow> string \<Rightarrow> 'v vm_world \<Rightarrow> 'v vm_world \<times> vm_error option" where
  "vmware_net_Delete H C sum256 bridge w =
     (case GetPaths (ce_F C) (ce_P C) (vw_fs w) [] of Inl e \<Rightarrow> (w, Some (VePaths e)) | Inr _ \<Rightarrow>
      case instanceForBridgeErr sum256 bridge (vw_reg w) of Inl e \<Rightarrow> (w, Some e) | Inr None \<Rightarrow> (w, None) | Inr (Some inst) \<Rightarrow>
      case LookupErr inst (vw_reg w) of Inl e \<Rightarrow> (w, Some e) | Inr vnet \<Rightarrow>
      case (case vnet of None \<Rightarrow> (vw_net w, None) | Some v \<Rightarrow> unconfigure H v (vw_net w)) of
        (file, Some e) \<Rightarrow> (w\<lparr>vw_net := file\<rparr>, Some e)
      | (file, None) \<Rightarrow> (case Release (vh_release_io H) inst (vw_reg w) of (f, e) \<Rightarrow> (w\<lparr>vw_net := file, vw_reg := f\<rparr>, e)))"

definition vmware_net_Exists :: "('v, 't) config_env \<Rightarrow> (string \<Rightarrow> u8 list) \<Rightarrow> string \<Rightarrow> 'v vm_world \<Rightarrow> bool" where
  "vmware_net_Exists C sum256 bridge w \<longleftrightarrow>
     (case GetPaths (ce_F C) (ce_P C) (vw_fs w) [] of Inl _ \<Rightarrow> False | Inr _ \<Rightarrow> instanceForBridge sum256 bridge (vw_reg w) \<noteq> None)"

section \<open>One network per instance\<close>

definition reg_ok :: "(string \<times> string) list \<Rightarrow> bool" where
  "reg_ok r \<longleftrightarrow> distinct (map fst r) \<and> distinct (map snd r) \<and> set (map snd r) \<subseteq> vmnetName ` set vmnet_pool"

definition file_ok :: "reg_file \<Rightarrow> bool" where
  "file_ok f = (case f of RegDoc r \<Rightarrow> reg_ok r | _ \<Rightarrow> True)"

lemma reg_ok_Nil [simp]: "reg_ok []"
  by (simp add: reg_ok_def)

lemma set_pool: "set vmnet_pool = {2..19} - {8}" "distinct vmnet_pool" "length vmnet_pool = 17"
  by (auto simp: vmnet_pool_def vmnetPoolLow_def vmnetPoolHigh_def vmnetNATNum_def) presburger

lemma parse_vmnetName: "n < 2 ^ 63 \<Longrightarrow> parseVMNet (vmnetName n) = Some (int n)"
  by (simp add: parseVMNet_def vmnetName_def Atoi_Itoa)

lemma pool_name_parsed: "n \<in> set vmnet_pool \<Longrightarrow> parseVMNet (vmnetName n) = Some (int n)"
  by (rule parse_vmnetName) (simp add: set_pool)

lemma used_numsI: "(k, v) \<in> set r \<Longrightarrow> parseVMNet v = Some n \<Longrightarrow> n \<in> set (used_nums r)"
  by (force simp: used_nums_def List.map_filter_def)

lemma update_new: "k \<notin> set (map fst r) \<Longrightarrow> AList.update k v r = r @ [(k, v)]"
  by (induction r) auto

lemma allocate_ok:
  assumes "reg_ok r" "map_of r k = None" "find (\<lambda>n. int n \<notin> set (used_nums r)) vmnet_pool = Some n"
  shows "reg_ok (AList.update k (vmnetName n) r)"
proof -
  have n: "n \<in> set vmnet_pool" "int n \<notin> set (used_nums r)" using assms(3) by (auto simp: find_Some_iff)
  have "vmnetName n \<notin> set (map snd r)" using n used_numsI pool_name_parsed [OF n(1)] by fastforce
  moreover have "k \<notin> set (map fst r)" using assms(2) by (simp add: map_of_eq_None_iff)
  ultimately show ?thesis using assms(1) n(1) by (auto simp: reg_ok_def update_new)
qed

text \<open>An allocation fails for want of a number only when all seventeen are taken.\<close>

lemma exhausted_full:
  assumes "find (\<lambda>n. int n \<notin> set (used_nums r)) vmnet_pool = None"
  shows "17 \<le> length r"
proof -
  have "int ` set vmnet_pool \<subseteq> set (used_nums r)" using assms by (auto simp: find_None_iff)
  then have "card (int ` set vmnet_pool) \<le> length (used_nums r)" by (meson card_length card_mono finite_set le_trans)
  also have "\<dots> \<le> length r" by (induction r) (auto simp: used_nums_def List.map_filter_simps split: option.splits)
  finally show ?thesis using set_pool(2,3) by (simp add: card_image distinct_card)
qed

lemma delete_ok: "reg_ok r \<Longrightarrow> reg_ok (AList.delete k r)"
proof -
  assume r: "reg_ok r"
  have "distinct (map snd r) \<Longrightarrow> distinct (map snd (AList.delete k r))" "set (AList.delete k r) \<subseteq> set r"
    by (auto simp: AList.delete_eq intro: distinct_map_filter)
  with r show ?thesis by (auto simp: reg_ok_def distinct_delete)
qed

lemma Allocate_keeps: "file_ok f \<Longrightarrow> file_ok (fst (Allocate io k f))"
  using allocate_ok [of "[]" k] by (auto simp: Allocate_def loadRegistry_def saveRegistry_def file_ok_def intro: allocate_ok split: reg_file.splits option.splits sum.splits)

lemma Release_keeps: "file_ok f \<Longrightarrow> file_ok (fst (Release io k f))"
  by (auto simp: Release_def loadRegistry_def saveRegistry_def file_ok_def intro: delete_ok split: reg_file.splits option.splits sum.splits)

lemma rollback_reg: "vw_reg (rollbackNetworkCreate H C inst w) = fst (Release (vh_release_io H) (i_Name inst) (vw_reg w))"
  by (auto simp: rollbackNetworkCreate_def Let_def split: sum.splits option.splits prod.splits)

lemma persist_reg: "vw_reg (fst (persist_vnet C n v w)) = vw_reg w"
  by (auto simp: persist_vnet_def split: sum.splits prod.splits)

lemma Create_keeps:
  assumes "file_ok (vw_reg w)"
  shows "file_ok (vw_reg (fst (vmware_net_Create H C inst w)))"
proof -
  obtain f v where a: "Allocate (vh_alloc_io H) (i_Name inst) (vw_reg w) = (f, v)" by fastforce
  have f: "file_ok f" using Allocate_keeps [OF assms, of "vh_alloc_io H" "i_Name inst"] a by simp
  show ?thesis
    using assms f persist_reg [of C "i_Name inst" _ "w\<lparr>vw_reg := f\<rparr>"]
    by (auto simp: vmware_net_Create_def a Let_def rollback_reg intro: Release_keeps split: sum.splits prod.splits option.splits)
      (metis Release_keeps fst_conv vm_world.select_convs(2) vm_world.simps)+
qed

lemma Delete_keeps: "file_ok (vw_reg w) \<Longrightarrow> file_ok (vw_reg (fst (vmware_net_Delete H C sum256 bridge w)))"
  by (auto simp: vmware_net_Delete_def split: sum.splits option.splits prod.splits dest: Release_keeps) (metis Release_keeps fst_conv)+

text \<open>Any history of creations and deletions, on hosts that may fail in any way.\<close>

inductive vm_reach :: "('v, 't) config_env \<Rightarrow> 'v vm_world \<Rightarrow> bool" for C where
  vm_start: "vw_reg w = RegMissing \<Longrightarrow> vm_reach C w"
| vm_create: "vm_reach C w \<Longrightarrow> vm_reach C (fst (vmware_net_Create H C inst w))"
| vm_delete: "vm_reach C w \<Longrightarrow> vm_reach C (fst (vmware_net_Delete H C sum256 bridge w))"
| vm_other: "vm_reach C w \<Longrightarrow> vw_reg w' = vw_reg w \<Longrightarrow> vm_reach C w'"

inductive_cases vm_reachE: "vm_reach C w"

lemma vm_reach_ok: "vm_reach C w \<Longrightarrow> file_ok (vw_reg w)"
  by (induction rule: vm_reach.induct) (auto simp: file_ok_def [of RegMissing] intro: Create_keeps Delete_keeps)

text \<open>
  C24 (invariant). After any history of creations and deletions of VMware networks, failed ones included, no two instances have the same network, no instance has
  one of the vendor's networks with an uplink, and a new instance is refused for want of a network only when seventeen instances have one.
\<close>

theorem networks_separate:
  assumes "vm_reach C w" "loadRegistry (vw_reg w) = Inr r"
  shows "(\<forall>a b v. map_of r a = Some v \<longrightarrow> map_of r b = Some v \<longrightarrow> a = b)
    \<and> (\<forall>a v. map_of r a = Some v \<longrightarrow> (\<exists>n. v = vmnetName n \<and> n \<in> {2..19} - {8}))
    \<and> (\<forall>io a f. Allocate io a (vw_reg w) = (f, Inl VeExhausted) \<longrightarrow> map_of r a = None \<and> card (dom (map_of r)) = 17)"
proof -
  have ok: "reg_ok r" using vm_reach_ok [OF assms(1)] assms(2) by (auto simp: loadRegistry_def file_ok_def split: reg_file.splits)
  have "a = b" if "map_of r a = Some v" "map_of r b = Some v" for a b v
    using that ok by (auto simp: reg_ok_def distinct_map inj_on_def dest!: map_of_SomeD) (metis prod.inject snd_conv)
  moreover have "\<exists>n. v = vmnetName n \<and> n \<in> {2..19} - {8}" if "map_of r a = Some v" for a v
    using that ok by (auto simp: reg_ok_def set_pool(1) dest!: map_of_SomeD)
  moreover have "map_of r a = None \<and> card (dom (map_of r)) = 17" if "Allocate io a (vw_reg w) = (f, Inl VeExhausted)" for io a f
  proof -
    have m: "map_of r a = None" "find (\<lambda>n. int n \<notin> set (used_nums r)) vmnet_pool = None"
      using that assms(2) by (auto simp: Allocate_def saveRegistry_def split: option.splits prod.splits)
    have "length r = card (set (map snd r))" using ok by (metis reg_ok_def distinct_card length_map)
    also have "\<dots> \<le> card (vmnetName ` set vmnet_pool)" using ok by (intro card_mono) (auto simp: reg_ok_def)
    also have "\<dots> \<le> 17" using card_image_le [of "set vmnet_pool" vmnetName] set_pool(2,3) by (simp add: distinct_card)
    finally have "length r = 17" using exhausted_full [OF m(2)] by simp
    moreover have "card (dom (map_of r)) = length r" using ok distinct_card [of "map fst r"] by (simp add: dom_map_of_conv_image_fst reg_ok_def)
    ultimately show ?thesis using m(1) by simp
  qed
  ultimately show ?thesis by blast
qed

text \<open>Two instances on a host where everything works.\<close>

definition calm_host :: vm_host where
  "calm_host = \<lparr>vh_lower = id, vh_read = None, vh_write = None, vh_stat = (\<lambda>_. False), vh_lookPath = Some, vh_run = Map.empty, vh_alloc_io = None, vh_release_io = None,
     vh_applyArgs = linux_applyArgs, vh_tools = linux_tools\<rparr>"

text \<open>A file system on which every read gives one configuration and every write succeeds.\<close>

definition steady_fs :: "unit FileSystem" where
  "steady_fs = \<lparr>ReadFile = (\<lambda>_ _. Inr ''i''), WriteFile = (\<lambda>s _ _ _. (s, None)), MkdirAll = (\<lambda>s _ _. (s, None)), Stat = (\<lambda>_ _. Inl os_error.ErrNotExist),
     ReadDir = (\<lambda>_ _. Inr []), RemoveAll = (\<lambda>s _. (s, None)), OpenFile = (\<lambda>s _ _. (s, Inl os_error.ErrNotExist)), UserHomeDir = (\<lambda>_. Inr ''/home/u''), Getenv = (\<lambda>_ _. [])\<rparr>"

definition steady_env :: "(unit, alist) config_env" where
  "steady_env = \<lparr>ce_F = steady_fs, ce_P = demo_proc, ce_E = ref_ext, ce_R = ref_radix, ce_Y = demo_yaml\<rparr>"

lemma steady_paths: "\<exists>p. GetPathsWithStorage steady_fs demo_proc () ''dev'' [] = Inr p" "\<exists>p. GetPathsWithStorage steady_fs demo_proc () ''web'' [] = Inr p"
  "\<exists>p. GetPathsWithStorage steady_fs demo_proc () ''api'' [] = Inr p" "\<exists>p. GetPathsWithStorage steady_fs demo_proc () [] [] = Inr p"
  by (simp_all add: GetPathsWithStorage_def getBaseDir_def steady_fs_def path_eval Let_def)

lemma steady_persist:
  assumes "\<exists>p. GetPathsWithStorage steady_fs demo_proc () name [] = Inr p"
  shows "persist_vnet steady_env name vnet w = (w, None)"
proof -
  obtain p where p: "GetPaths steady_fs demo_proc () name = Inr p" using assms by (auto simp: GetPaths_def)
  have "ReadFile steady_fs () q = Inr ''i''" for q by (simp add: steady_fs_def)
  then have "\<exists>p. Config_Load steady_env () name = Inr (demo_instance, p)"
    using p demo_instance_valid
    by (simp add: Config_Load_def steady_env_def demo_yaml_def CheckVersion_def CurrentInstanceVersion_def)
      (simp add: demo_instance_def DefaultInstance_def CurrentInstanceVersion_def)
  then show ?thesis by (auto simp: persist_vnet_def Config_Save_def steady_env_def demo_yaml_def steady_fs_def)
qed

definition net_instance :: "string \<Rightarrow> Instance" where
  "net_instance name = (DefaultInstance name)\<lparr>i_Subnet := ''10.10.10.0/24'', i_Gateway := ''10.10.10.1''\<rparr>"

lemma calm_apply: "apply_networking calm_host = None"
  by (simp add: apply_networking_def calm_host_def linux_tools_def linux_applyArgs_def runNetCmd_def assertNoUplink_def forbidden_arg_def uplinkTokens_def go_eval IsAbs_def)

lemma calm_uplink: "assertNoUplinkConfig id (hostOnlyConfigFor (net_instance name) ''vmnet2'') = None"
  "assertNoUplinkConfig id (hostOnlyConfigFor (net_instance name) ''vmnet3'') = None" "assertNoUplink id [''vmnet2''] = None"
  by (simp_all add: assertNoUplinkConfig_def assertNoUplink_def hostOnlyConfigFor_def net_instance_def subnetNetworkAddr_def forbidden_arg_def uplinkTokens_def go_eval)

lemma calm_create:
  assumes "\<exists>p. GetPathsWithStorage steady_fs demo_proc () name [] = Inr p" and "loadRegistry (vw_reg w) = Inr r" and "map_of r name = None"
    and "find (\<lambda>n. int n \<notin> set (used_nums r)) vmnet_pool = Some n" and "vmnetName n \<in> {''vmnet2'', ''vmnet3''}"
  shows "vw_reg (fst (vmware_net_Create calm_host steady_env (net_instance name) w)) = RegDoc (AList.update name (vmnetName n) r)
    \<and> snd (snd (vmware_net_Create calm_host steady_env (net_instance name) w)) = None"
proof -
  let ?i = "net_instance name"
  have a: "Allocate None name (vw_reg w) = (RegDoc (AList.update name (vmnetName n) r), Inr (vmnetName n))"
    using assms(2-4) by (simp add: Allocate_def saveRegistry_def)
  have cfg: "hostOnlyConfigFor (set_vnet ?i v) v = hostOnlyConfigFor ?i v" for v by (simp add: hostOnlyConfigFor_def set_vnet_def)
  have "vnetNum ''vmnet2'' = 2" "vnetNum ''vmnet3'' = 3"
    by (simp_all add: vnetNum_def parseVMNet_def Atoi_def parse_digits_def dec_val_def digit_val_def is_digit_def go_eval)
  then have "\<exists>f. configure calm_host (hostOnlyConfigFor ?i (vmnetName n)) g = (Some f, None)" for g
    using assms(5) calm_uplink calm_apply
    by (auto simp: configure_def readNetworkingFile_def write_and_apply_def applyHostOnlyDirectives_def hostOnlyConfigFor_def calm_host_def)
  then obtain f where "configure calm_host (hostOnlyConfigFor ?i (vmnetName n)) (vw_net w) = (Some f, None)" by blast
  moreover have "i_Name ?i = name" "i_StorageDir ?i = []" "vh_alloc_io calm_host = None" "ce_F steady_env = steady_fs" "ce_P steady_env = demo_proc"
    by (simp_all add: net_instance_def DefaultInstance_def calm_host_def steady_env_def)
  ultimately show ?thesis using assms(1) steady_persist [OF assms(1)] a
    by (auto simp: vmware_net_Create_def cfg Let_def)
qed

lemma used_two: "used_nums [(a, ''vmnet2'')] = [2]" "used_nums [(a, ''vmnet3'')] = [3]" "used_nums [] = []"
  by (simp_all add: used_nums_def List.map_filter_simps parseVMNet_def Atoi_def parse_digits_def dec_val_def digit_val_def is_digit_def go_eval)

lemma pool_first: "vmnet_pool = 2 # 3 # filter (\<lambda>n. n \<noteq> 8) [4..<20]" "vmnetName 2 = ''vmnet2''" "vmnetName 3 = ''vmnet3''"
  by (simp_all add: vmnet_pool_def vmnetPoolLow_def vmnetPoolHigh_def vmnetNATNum_def upt_conv_Cons vmnetName_def Itoa.simps char_of_def bit_0)

definition net_history :: "unit vm_world list" where
  "net_history =
     (let w0 = \<lparr>vw_fs = (), vw_reg = RegMissing, vw_net = None\<rparr>;
          w1 = fst (vmware_net_Create calm_host steady_env (net_instance ''dev'') w0);
          w2 = fst (vmware_net_Create calm_host steady_env (net_instance ''web'') w1);
          w3 = fst (vmware_net_Delete calm_host steady_env (\<lambda>_. []) ''abox-dev'' w2);
          w4 = fst (vmware_net_Create calm_host steady_env (net_instance ''api'') w3)
      in [w0, w1, w2, w3, w4])"

lemma calm_delete:
  assumes "vw_reg w = RegDoc [(''dev'', ''vmnet2''), (''web'', ''vmnet3'')]"
  shows "vw_reg (fst (vmware_net_Delete calm_host steady_env (\<lambda>_. []) ''abox-dev'' w)) = RegDoc [(''web'', ''vmnet3'')]"
proof -
  have "find (\<lambda>n. GenerateBridgeName (\<lambda>_. []) n = ''abox-dev'') (sort [''dev'', ''web'']) = Some ''dev''"
    by (simp add: GenerateBridgeName_def)
  moreover have "\<exists>f. unconfigure calm_host ''vmnet2'' (vw_net w) = (f, None)"
    using calm_uplink(3) calm_apply
    by (cases "removeHostOnlyDirectives (case vw_net w of None \<Rightarrow> [] | Some c \<Rightarrow> c) ''vmnet2''"; cases "snd (removeHostOnlyDirectives (case vw_net w of None \<Rightarrow> [] | Some c \<Rightarrow> c) ''vmnet2'')")
      (auto simp: unconfigure_def readNetworkingFile_def write_and_apply_def calm_host_def)
  moreover have "vh_release_io calm_host = None" "ce_F steady_env = steady_fs" "ce_P steady_env = demo_proc" by (simp_all add: calm_host_def steady_env_def)
  ultimately show ?thesis using assms steady_paths(4)
    by (auto simp: vmware_net_Delete_def GetPaths_def instanceForBridgeErr_def AllocatedInstancesErr_def loadRegistry_def LookupErr_def Release_def saveRegistry_def AList.delete_eq)
qed

lemma net_history_ok:
  "vm_reach steady_env (net_history ! 4)" "loadRegistry (vw_reg (net_history ! 2)) = Inr [(''dev'', ''vmnet2''), (''web'', ''vmnet3'')]"
  "loadRegistry (vw_reg (net_history ! 4)) = Inr [(''web'', ''vmnet3''), (''api'', ''vmnet2'')]"
proof -
  define w0 :: "unit vm_world" where "w0 = \<lparr>vw_fs = (), vw_reg = RegMissing, vw_net = None\<rparr>"
  define w1 where "w1 = fst (vmware_net_Create calm_host steady_env (net_instance ''dev'') w0)"
  define w2 where "w2 = fst (vmware_net_Create calm_host steady_env (net_instance ''web'') w1)"
  define w3 where "w3 = fst (vmware_net_Delete calm_host steady_env (\<lambda>_. []) ''abox-dev'' w2)"
  define w4 where "w4 = fst (vmware_net_Create calm_host steady_env (net_instance ''api'') w3)"
  have h: "net_history = [w0, w1, w2, w3, w4]" by (simp add: net_history_def Let_def w0_def w1_def w2_def w3_def w4_def)
  have "vm_reach steady_env w0" by (rule vm_start) (simp add: w0_def)
  then show "vm_reach steady_env (net_history ! 4)"
    unfolding h by (simp add: w1_def w2_def w3_def w4_def vm_create vm_delete)
  have "loadRegistry (vw_reg w0) = Inr []" by (simp add: w0_def loadRegistry_def)
  then have "vw_reg w1 = RegDoc [(''dev'', ''vmnet2'')]"
    using calm_create [OF steady_paths(1), of w0 "[]" 2] by (auto simp: w1_def used_two pool_first)
  then have "vw_reg w2 = RegDoc [(''dev'', ''vmnet2''), (''web'', ''vmnet3'')]"
    using calm_create [OF steady_paths(2), of w1 "[(''dev'', ''vmnet2'')]" 3] by (auto simp: w2_def used_two pool_first loadRegistry_def)
  moreover from this have "vw_reg w3 = RegDoc [(''web'', ''vmnet3'')]" unfolding w3_def by (rule calm_delete)
  then have "vw_reg w4 = RegDoc [(''web'', ''vmnet3''), (''api'', ''vmnet2'')]"
    using calm_create [OF steady_paths(3), of w3 "[(''web'', ''vmnet3'')]" 2] by (auto simp: w4_def used_two pool_first loadRegistry_def)
  ultimately show "loadRegistry (vw_reg (net_history ! 2)) = Inr [(''dev'', ''vmnet2''), (''web'', ''vmnet3'')]"
    "loadRegistry (vw_reg (net_history ! 4)) = Inr [(''web'', ''vmnet3''), (''api'', ''vmnet2'')]"
    by (simp_all add: h loadRegistry_def)
qed

text \<open>In the witness two instances get networks, the first is deleted, and a third gets the number that became free.\<close>

theorem networks_separate_witness:
  "vm_reach steady_env (net_history ! 4) \<and> loadRegistry (vw_reg (net_history ! 2)) = Inr [(''dev'', ''vmnet2''), (''web'', ''vmnet3'')]
   \<and> loadRegistry (vw_reg (net_history ! 4)) = Inr [(''web'', ''vmnet3''), (''api'', ''vmnet2'')]
   \<and> (\<exists>n. ''vmnet3'' = vmnetName n \<and> n \<in> {2..19} - {8}) \<and> snd (Allocate None ''new'' (vw_reg (net_history ! 4))) \<noteq> Inl VeExhausted"
proof -
  note s = networks_separate [OF net_history_ok(1,3)]
  have "\<exists>n. ''vmnet3'' = vmnetName n \<and> n \<in> {2..19} - {8}" using s [THEN conjunct2, THEN conjunct1, rule_format, of "''web''" "''vmnet3''"] by simp
  moreover have "snd (Allocate None ''new'' (vw_reg (net_history ! 4))) \<noteq> Inl VeExhausted"
  proof
    assume "snd (Allocate None ''new'' (vw_reg (net_history ! 4))) = Inl VeExhausted"
    then have "Allocate None ''new'' (vw_reg (net_history ! 4)) = (fst (Allocate None ''new'' (vw_reg (net_history ! 4))), Inl VeExhausted)" by (metis prod.collapse)
    then have "card (dom (map_of [(''web'', ''vmnet3''), (''api'', ''vmnet2'')])) = 17" using s by blast
    then show False by (simp add: card_insert_if)
  qed
  ultimately show ?thesis using net_history_ok by blast
qed

section \<open>The lines of a network\<close>

lemma lines_split: "splitNetworkingLines c = raw_lines c"
  by (simp add: splitNetworkingLines_def raw_lines_def Let_def)

lemma lines_join: "joinNetworkingLines ls = lines_text ls"
proof (cases "ls = []")
  case False
  then have "Join ls [LF] @ [LF] = lines_text ls" by (induction ls "[LF]" rule: Join.induct) (auto simp: lines_text_def)
  with False show ?thesis by (simp add: joinNetworkingLines_def)
qed (simp add: joinNetworkingLines_def lines_text_def)

text \<open>What follows a graphic byte cannot make \<open>TrimSpace\<close> remove it.\<close>

lemma trim_left_by_stops_at:
  assumes "\<And>w x. w \<in> set ws \<Longrightarrow> x \<in> set w \<Longrightarrow> \<not> is_graphic x" "is_graphic c"
  shows "\<exists>a'. trim_left_by ws (a @ c # b) = a' @ c # b"
proof (induction "length a" arbitrary: a rule: less_induct)
  case less
  show ?case
  proof (cases "find (\<lambda>w. w \<noteq> [] \<and> HasPrefix (a @ c # b) w) ws")
    case None
    then show ?thesis by (subst trim_left_by.simps) auto
  next
    case (Some w)
    then have w: "w \<in> set ws" "w \<noteq> []" "prefix w (a @ c # b)" by (auto simp: find_Some_iff HasPrefix_iff)
    have "length w \<le> length a"
    proof (rule ccontr)
      assume "\<not> length w \<le> length a"
      then have "c \<in> set w" using w(3) by (auto simp: prefix_append prefix_Cons dest: prefix_length_le)
      then show False using assms w(1) by blast
    qed
    then have "drop (length w) (a @ c # b) = drop (length w) a @ c # b" "length (drop (length w) a) < length a"
      using w(2) \<open>length w \<le> length a\<close> by (cases w; simp)+
    with less Some show ?thesis by (subst trim_left_by.simps) auto
  qed
qed

lemma space_rune_bytes: "w \<in> set space_runes \<Longrightarrow> x \<in> set w \<Longrightarrow> \<not> is_graphic x"
  by (auto simp: space_runes_def ascii_spaces_def unicode_spaces_def bytes_def is_graphic_def)

lemma TrimSpace_keeps:
  assumes "is_graphic (hd g)" "is_graphic (last g)" "g \<noteq> []"
  shows "HasPrefix (TrimSpace (g @ x)) g"
proof -
  have 1: "trim_left_by space_runes (g @ x) = g @ x"
    using assms space_rune_ends by (intro trim_left_by_id) (fastforce simp: HasPrefix_iff prefix_def append_eq_append_conv2 hd_append)
  obtain y c where g: "g = y @ [c]" using assms(3) by (cases g rule: rev_cases) auto
  have "\<exists>a'. trim_left_by (map rev space_runes) (rev x @ c # rev y) = a' @ c # rev y"
    using assms(2) g by (intro trim_left_by_stops_at) (auto dest: space_rune_bytes)
  then show ?thesis unfolding TrimSpace_def 1 using g by (auto simp: HasPrefix_iff)
qed

lemma vnet_prefix_ends: "vnet_prefix n \<noteq> []" "is_graphic (hd (vnet_prefix n))" "is_graphic (last (vnet_prefix n))"
  by (simp_all add: vnet_prefix_def go_eval)

lemma vnet_line_own [simp]: "vnet_line n (vnet_prefix n @ x)"
  using TrimSpace_keeps [of "vnet_prefix n" x] vnet_prefix_ends by (simp add: vnet_line_def)

lemma digits_stop:
  assumes "list_all is_digit a" "list_all is_digit b" "\<not> is_digit c" "prefix (a @ [c]) s" "prefix (b @ [c]) s"
  shows "a = b"
proof -
  have "takeWhile is_digit s = w" if "list_all is_digit w" "prefix (w @ [c]) s" for w
    using that assms(3) by (auto simp: prefix_def list_all_iff)
  with assms show ?thesis by metis
qed

text \<open>A line belongs to one network: \<open>VNET_1\<close> is not taken for \<open>VNET_10\<close>.\<close>

lemma vnet_line_unique:
  assumes "vnet_line n l" "vnet_line m l" "0 \<le> n" "0 \<le> m"
  shows "n = m"
proof -
  define s where "s = drop 12 (TrimSpace l)"
  have s: "prefix (Itoa (nat n) @ ''_'') s" "prefix (Itoa (nat m) @ ''_'') s"
    using assms(1,3) assms(2,4) unfolding s_def vnet_line_def vnet_prefix_def Itoa_int_def HasPrefix_iff prefix_def
    by (elim exE, simp only: if_not_P not_less, simp)+
  have "Itoa (nat n) = Itoa (nat m)" by (rule digits_stop [OF Itoa_digits Itoa_digits _ s]) (simp add: go_eval)
  then show ?thesis using assms(3,4) by (metis dec_val_Itoa nat_eq_iff2)
qed

lemma header_line: "\<not> vnet_line n networkingVersionHeader"
  by (simp add: vnet_line_def networkingVersionHeader_def vnet_prefix_def go_eval)

lemma header_other: "filter (vnet_line m) (ensureVersionHeader ls) = filter (vnet_line m) ls"
  by (simp add: ensureVersionHeader_def header_line)

definition net_lines :: "string option \<Rightarrow> string list" where
  "net_lines file = splitNetworkingLines (case file of None \<Rightarrow> [] | Some c \<Rightarrow> c)"

lemma net_lines_no_LF: "l \<in> set (net_lines file) \<Longrightarrow> LF \<notin> set l"
  by (auto simp: net_lines_def lines_split raw_lines_def Let_def split: if_splits option.splits dest: in_set_butlastD Split_no_sep)

lemma net_lines_join: "\<forall>l\<in>set ls. LF \<notin> set l \<Longrightarrow> net_lines (Some (joinNetworkingLines ls)) = ls"
  using raw_lines_text [of ls "[]"] by (simp add: net_lines_def lines_split lines_join)

lemma directives_own: "filter (vnet_line (vnetNum (ho_VNet cfg))) (hostOnlyDirectives cfg) = hostOnlyDirectives cfg"
  by (simp add: hostOnlyDirectives_def Let_def)

lemma prefix_no_LF: "LF \<notin> set (vnet_prefix n)"
proof -
  have "LF \<notin> set ''answer VNET_''" "LF \<notin> set ''_''" "LF \<noteq> CHR ''-''" by (simp_all add: char_of_def bit_0)
  then show ?thesis using Itoa_no_LF by (simp only: vnet_prefix_def Itoa_int_def set_append Un_iff split: if_split) simp
qed

lemma directives_lines:
  assumes "LF \<notin> set (ho_Subnet cfg)" "LF \<notin> set (ho_Netmask cfg)" "l \<in> set (hostOnlyDirectives cfg)"
  shows "LF \<notin> set l"
  using assms prefix_no_LF by (auto simp: hostOnlyDirectives_def Let_def char_of_def bit_0)

text \<open>
  C33 (roundtrip). Whatever the networking file of the vendor holds and whatever fails, configuring a host-only network either leaves the file as it is or replaces
  exactly the lines of that network by the directives for a private network without an uplink: the lines of every other network, in
  particular those of one with address translation, stay as they are. Removing it gives the other lines back.
\<close>

theorem hostonly_roundtrip:
  assumes "LF \<notin> set (ho_Subnet cfg)" "LF \<notin> set (ho_Netmask cfg)" "configure H cfg file = (file', r)"
  defines "n \<equiv> vnetNum (ho_VNet cfg)"
  shows "file' = file \<and> r \<noteq> None \<or>
    filter (vnet_line n) (net_lines file') = hostOnlyDirectives cfg
    \<and> (\<forall>m. 0 \<le> m \<longrightarrow> m \<noteq> n \<longrightarrow> filter (vnet_line m) (net_lines file') = filter (vnet_line m) (net_lines file))
    \<and> removeHostOnlyDirectives (the file') (ho_VNet cfg) = (joinNetworkingLines (ensureVersionHeader (filter (\<lambda>l. \<not> vnet_line n l) (net_lines file))), True)"
proof -
  let ?kept = "filter (\<lambda>l. \<not> vnet_line n l) (net_lines file)"
  let ?new = "ensureVersionHeader ?kept @ hostOnlyDirectives cfg"
  have "file' = file \<and> r \<noteq> None \<or> 0 \<le> n \<and> file' = Some (joinNetworkingLines ?new)"
    using assms(3) by (cases "assertNoUplinkConfig (vh_lower H) cfg") (auto simp: configure_def readNetworkingFile_def write_and_apply_def applyHostOnlyDirectives_def dropVNetLines_def net_lines_def n_def Let_def
        split: option.splits sum.splits if_splits dest!: sym [of "Some _"])
  moreover have ?thesis if n: "0 \<le> n" and f: "file' = Some (joinNetworkingLines ?new)"
  proof -
    have lf: "\<forall>l\<in>set ?new. LF \<notin> set l"
      using directives_lines [OF assms(1,2)] net_lines_no_LF
      by (auto simp: ensureVersionHeader_def networkingVersionHeader_def char_of_def bit_0 split: if_splits)
    then have l: "net_lines file' = ?new" unfolding f by (rule net_lines_join)
    have own: "filter (vnet_line n) ?new = hostOnlyDirectives cfg"
      using directives_own [of cfg] by (simp add: header_other flip: n_def)
    have rest: "filter (\<lambda>l. \<not> vnet_line n l) ?new = ensureVersionHeader ?kept"
      using directives_own [of cfg] by (auto simp: ensureVersionHeader_def header_line filter_empty_conv filter_id_conv simp flip: n_def)
    have "filter (vnet_line m) ?new = filter (vnet_line m) (net_lines file)" if "0 \<le> m" "m \<noteq> n" for m
    proof -
      have x: "vnet_line m l \<Longrightarrow> \<not> vnet_line n l" for l using vnet_line_unique that n by blast
      have "\<not> vnet_line m l" if "l \<in> set (hostOnlyDirectives cfg)" for l
        using that directives_own [of cfg] x unfolding filter_id_conv by (auto simp flip: n_def)
      then show ?thesis using x by (auto simp: header_other intro!: filter_cong)
    qed
    moreover have "removeHostOnlyDirectives (the file') (ho_VNet cfg) = (joinNetworkingLines (ensureVersionHeader ?kept), True)"
    proof -
      have s: "splitNetworkingLines (joinNetworkingLines ?new) = ?new" using l f by (simp add: net_lines_def)
      have "length (ensureVersionHeader ?kept) \<noteq> length ?new" by (simp add: hostOnlyDirectives_def Let_def)
      then show ?thesis using n rest unfolding f removeHostOnlyDirectives_def dropVNetLines_def option.sel s n_def [symmetric] Let_def by simp
    qed
    ultimately show ?thesis using own l by simp
  qed
  ultimately show ?thesis by blast
qed

definition demo_hostonly :: HostOnlyConfig where
  "demo_hostonly = \<lparr>ho_VNet = ''vmnet2'', ho_Subnet = ''10.10.10.0'', ho_Gateway = ''10.10.10.1'', ho_Netmask = ''255.255.255.0''\<rparr>"

definition vendor_file :: "string option" where
  "vendor_file = Some (lines_text [''VERSION=1,0'', ''answer VNET_8_NAT yes'', ''answer VNET_2_NAT yes''])"

theorem hostonly_roundtrip_witness:
  "\<exists>file' r. configure calm_host demo_hostonly vendor_file = (file', r) \<and> filter (vnet_line 8) (net_lines file') = filter (vnet_line 8) (net_lines vendor_file)"
proof -
  obtain file' r where c: "configure calm_host demo_hostonly vendor_file = (file', r)" by fastforce
  have "LF \<notin> set (ho_Subnet demo_hostonly)" "LF \<notin> set (ho_Netmask demo_hostonly)" by (simp_all add: demo_hostonly_def char_of_def bit_0)
  moreover have "vnetNum (ho_VNet demo_hostonly) = 2"
    by (simp add: demo_hostonly_def vnetNum_def parseVMNet_def Atoi_def parse_digits_def dec_val_def digit_val_def is_digit_def go_eval)
  ultimately show ?thesis using hostonly_roundtrip [OF _ _ c] c by fastforce
qed

text \<open>When the restart of the vendor's service fails after the lines of a network were removed, the next attempt finds nothing to remove and
  reports success without a restart.\<close>

lemma failed_removal_forgotten:
  assumes "unconfigure H vnet file = (Some c, Some (VeTool args e))" "assertNoUplink (vh_lower H') [vnet] = None" "vh_read H' = None" "0 \<le> vnetNum vnet"
  shows "unconfigure H' vnet (Some c) = (Some c, None)"
proof -
  let ?n = "vnetNum vnet" and ?old = "case file of None \<Rightarrow> [] | Some c \<Rightarrow> c"
  have "c = joinNetworkingLines (dropVNetLines ?old ?n)"
    using assms(1,4) by (auto simp: unconfigure_def readNetworkingFile_def removeHostOnlyDirectives_def write_and_apply_def assertNoUplink_def Let_def
        split: option.splits sum.splits prod.splits if_splits bool.splits)
  moreover have "\<forall>l\<in>set (dropVNetLines ?old ?n). LF \<notin> set l"
    using net_lines_no_LF by (auto simp: dropVNetLines_def net_lines_def)
  ultimately have l: "splitNetworkingLines c = dropVNetLines ?old ?n" using net_lines_join by (simp add: net_lines_def)
  then have "dropVNetLines c ?n = splitNetworkingLines c" by (simp add: dropVNetLines_def)
  then show ?thesis using assms(2,3) by (simp add: unconfigure_def readNetworkingFile_def removeHostOnlyDirectives_def Let_def)
qed

text \<open>A creation that fails at the restart takes back the allocation, but not the lines of the network.\<close>

lemma rollback_keeps_lines: "vw_net (rollbackNetworkCreate H C inst w) = vw_net w"
  by (auto simp: rollbackNetworkCreate_def Let_def split: sum.splits option.splits prod.splits)

end
