(* ===== verification/VMDK.thy ===== *)
theory VMDK
  imports Disk_Images
begin

text \<open>
  The inspection of a disk image before it is imported (\<^verbatim>\<open>internal/vmrun/disk.go\<close>): a VMDK names its data files and a parent in a descriptor, which is text
  of its own or a part of the image that a binary header points to. The content of the file is a parameter, as is the failure of any call;
  \<open>u\<close> lowers text that is not ASCII. The lemmas say where the files of an accepted descriptor can be, and that no header makes the reader leave the file.
\<close>

datatype vmdk_call = VRewind | VReadAll | VStat | VSeek | VRead

datatype vmdk_error =
    VdOS os_error | VdParentHint | VdParentCID string | VdAbsolute string | VdEscapes string | VdScan | VdNotSelfContained vmdk_error
  | VdInspect vmdk_error | VdUnknown | VdFormat disk_error | VdBacking disk_error

section \<open>Descriptor lines\<close>

definition quote_char :: char where "quote_char = CHR 0x22"

definition descriptorValue :: "string \<Rightarrow> string" where
  "descriptorValue line =
     (case IndexByte line CHR ''='' of
        None \<Rightarrow> []
      | Some k \<Rightarrow> let unquote = dropWhile (\<lambda>c. c = quote_char) in rev (unquote (rev (unquote (TrimSpace (drop (Suc k) line))))))"

definition extentFileName :: "string \<Rightarrow> string" where
  "extentFileName line =
     (case IndexByte line quote_char of
        None \<Rightarrow> []
      | Some i \<Rightarrow> (case IndexByte (drop (Suc i) line) quote_char of None \<Rightarrow> [] | Some j \<Rightarrow> take j (drop (Suc i) line)))"

definition isExtentLine :: "string \<Rightarrow> bool" where
  "isExtentLine lower = (case Fields lower of [] \<Rightarrow> False | f # _ \<Rightarrow> f \<in> {''rw'', ''rdonly'', ''noaccess''})"

definition slashes :: "string \<Rightarrow> string" where
  "slashes name = map (\<lambda>c. if c = CHR 0x5C then CHR ''/'' else c) name"

definition checkExtentPath :: "string \<Rightarrow> string \<Rightarrow> vmdk_error option" where
  "checkExtentPath name dir =
     (if IsAbs name \<or> HasPrefix name ''/'' \<or> 2 \<le> length name \<and> name ! 1 = CHR '':'' \<or> HasPrefix name [CHR 0x5C] then Some (VdAbsolute name)
      else if rel_escapes (filepath_Rel dir (path_Clean (filepath_Join [dir, slashes name]))) then Some (VdEscapes name)
      else None)"

definition checkDescriptorLine :: "(string \<Rightarrow> string) \<Rightarrow> string \<Rightarrow> string \<Rightarrow> vmdk_error option" where
  "checkDescriptorLine u line dir =
     (if line = [] \<or> HasPrefix line ''#'' then None
      else let lower = ToLower u line in
        if HasPrefix lower ''parentfilenamehint'' then Some VdParentHint
        else if HasPrefix lower ''parentcid'' \<and> descriptorValue line \<noteq> [] \<and> \<not> EqualFold (descriptorValue line) ''ffffffff''
          then Some (VdParentCID (descriptorValue line))
        else if isExtentLine lower \<and> extentFileName line \<noteq> [] then checkExtentPath (extentFileName line) dir
        else None)"

fun check_lines :: "(string \<Rightarrow> string) \<Rightarrow> string \<Rightarrow> string list \<Rightarrow> vmdk_error option" where
  "check_lines u dir [] = None"
| "check_lines u dir (l # ls) = (case checkDescriptorLine u (TrimSpace l) dir of Some e \<Rightarrow> Some e | None \<Rightarrow> check_lines u dir ls)"

definition validateVMDKDescriptor :: "(string \<Rightarrow> string) \<Rightarrow> string \<Rightarrow> string \<Rightarrow> vmdk_error option" where
  "validateVMDKDescriptor u desc dir =
     (case scan_lines desc of (ls, too_long) \<Rightarrow>
      case check_lines u dir ls of Some e \<Rightarrow> Some e | None \<Rightarrow> if too_long then Some VdScan else None)"

section \<open>Finding the descriptor\<close>

definition vmdkSparseMagic :: nat where "vmdkSparseMagic = 0x564d444b"
definition maxDescriptorBytes :: nat where "maxDescriptorBytes = 2 ^ 20"
definition maxScanBytes :: nat where "maxScanBytes = 2 ^ 20"
definition plainVMDKToken :: string where "plainVMDKToken = ''version''"

function looksLikePlainVMDKDescriptor :: "string \<Rightarrow> bool" where
  "looksLikePlainVMDKDescriptor b =
     (case b of
        [] \<Rightarrow> False
      | c # r \<Rightarrow>
          if c = CHR ''#'' then
            (case IndexByte b LF of None \<Rightarrow> False | Some nl \<Rightarrow> looksLikePlainVMDKDescriptor (drop (Suc nl) b))
          else if c \<in> {CHR '' '', char_of (9 :: nat), char_of (13 :: nat), LF} then looksLikePlainVMDKDescriptor r
          else HasPrefix b plainVMDKToken)"
  by pat_completeness auto
termination
  by (relation "measure length") auto

declare looksLikePlainVMDKDescriptor.simps [simp del]

text \<open>\<open>binary.LittleEndian\<close>.\<close>

fun little_endian :: "string \<Rightarrow> nat" where
  "little_endian [] = 0"
| "little_endian (c # s) = of_char c + 256 * little_endian s"

definition header_word :: "string \<Rightarrow> nat \<Rightarrow> 64 word" where
  "header_word hdr k = of_nat (little_endian (take 8 (drop k hdr)))"

definition trim_nul :: "string \<Rightarrow> string" where
  "trim_nul s = rev (dropWhile (\<lambda>c. c = char_of (0 :: nat)) (rev s))"

definition readSparseDescriptor :: "(vmdk_call \<Rightarrow> os_error option) \<Rightarrow> string \<Rightarrow> string \<Rightarrow> vmdk_error + string" where
  "readSparseDescriptor io hdr file =
     (let offSectors = header_word hdr 28; sizeSectors = header_word hdr 36 in
      if sizeSectors = 0 \<or> of_nat (maxDescriptorBytes div 512) < sizeSectors then Inr []
      else let byteSize = sizeSectors * 512 in
        if of_nat ((2 ^ 63 - 1) div 512) < offSectors then Inr []
        else let off = sint (offSectors * 512) in
          case io VStat of Some e \<Rightarrow> Inl (VdOS e) | None \<Rightarrow>
          if off \<le> 0 \<or> int (length file) \<le> off then Inr []
          else if int (length file) - off < sint byteSize then Inr []
          else (case io VSeek of Some e \<Rightarrow> Inl (VdOS e) | None \<Rightarrow>
                case io VRead of Some e \<Rightarrow> Inl (VdOS e) | None \<Rightarrow>
                Inr (trim_nul (take (unat byteSize) (drop (nat off) file)))))"

definition readVMDKDescriptor :: "(vmdk_call \<Rightarrow> os_error option) \<Rightarrow> (os_error + string) \<Rightarrow> vmdk_error + string" where
  "readVMDKDescriptor io opened =
     (case opened of Inl e \<Rightarrow> Inl (VdOS e) | Inr file \<Rightarrow>
      let hdr = take 44 file in
      if length hdr = 44 \<and> little_endian (take 4 hdr) = vmdkSparseMagic then readSparseDescriptor io hdr file
      else (case io VRewind of Some e \<Rightarrow> Inl (VdOS e) | None \<Rightarrow>
            case io VReadAll of Some e \<Rightarrow> Inl (VdOS e) | None \<Rightarrow>
            Inr (if looksLikePlainVMDKDescriptor (take maxScanBytes file) then take maxScanBytes file else [])))"

section \<open>Inspecting an image\<close>

definition IsVMDK :: "(vmdk_call \<Rightarrow> os_error option) \<Rightarrow> (os_error + string) \<Rightarrow> vmdk_error + bool" where
  "IsVMDK io opened = (case readVMDKDescriptor io opened of Inl e \<Rightarrow> Inl e | Inr desc \<Rightarrow> Inr (desc \<noteq> []))"

definition ValidateSelfContainedVMDK :: "(vmdk_call \<Rightarrow> os_error option) \<Rightarrow> (string \<Rightarrow> string) \<Rightarrow> string \<Rightarrow> (os_error + string) \<Rightarrow> vmdk_error option" where
  "ValidateSelfContainedVMDK io u path opened =
     (case readVMDKDescriptor io opened of
        Inl e \<Rightarrow> Some e
      | Inr desc \<Rightarrow> if desc = [] then None else validateVMDKDescriptor u desc (filepath_Dir path))"

definition ValidateImportVMDK :: "(vmdk_call \<Rightarrow> os_error option) \<Rightarrow> (string \<Rightarrow> string) \<Rightarrow> string \<Rightarrow> (os_error + string) \<Rightarrow> vmdk_error option" where
  "ValidateImportVMDK io u path opened =
     (case IsVMDK io opened of
        Inl e \<Rightarrow> Some (VdInspect e)
      | Inr isVMDK \<Rightarrow> if \<not> isVMDK then None else map_option VdNotSelfContained (ValidateSelfContainedVMDK io u path opened))"

text \<open>\<open>qemu-img\<close> reports the format of anything that is not recognized as a VMDK; a report of that format then means that the two disagree.\<close>

definition InspectImportSource ::
  "disk_env \<Rightarrow> (vmdk_call \<Rightarrow> os_error option) \<Rightarrow> (string \<Rightarrow> string) \<Rightarrow> string \<Rightarrow> (os_error + string) \<Rightarrow> disk \<Rightarrow> disk \<times> (vmdk_error + string)" where
  "InspectImportSource E io u src opened d =
     (case IsVMDK io opened of
        Inl e \<Rightarrow> (d, Inl (VdInspect e))
      | Inr True \<Rightarrow> (d, (case ValidateImportVMDK io u src opened of Some e \<Rightarrow> Inl e | None \<Rightarrow> Inr formatVMDK))
      | Inr False \<Rightarrow>
          (case Format E src d of
             (d1, Inl e) \<Rightarrow> (d1, Inl (VdFormat e))
           | (d1, Inr fmt) \<Rightarrow>
               if fmt = formatVMDK then (d1, Inl VdUnknown)
               else (case RejectBackingFile E src d1 of (d2, Some e) \<Rightarrow> (d2, Inl (VdBacking e)) | (d2, None) \<Rightarrow> (d2, Inr fmt))))"

section \<open>What an accepted image can name\<close>

lemma check_lines_None: "check_lines u dir ls = None \<longleftrightarrow> (\<forall>l\<in>set ls. checkDescriptorLine u (TrimSpace l) dir = None)"
  by (induction ls) (auto split: option.splits)

lemma extent_inside:
  assumes "checkExtentPath name (rooted ds) = None" "list_all normal_seg ds"
  shows "\<not> HasPrefix name ''/''" "prefix ds (clean_segments True (filepath_Join [rooted ds, slashes name]))"
proof -
  let ?j = "filepath_Join [rooted ds, slashes name]"
  show "\<not> HasPrefix name ''/''" using assms(1) by (simp add: checkExtentPath_def split: if_splits)
  have "\<not> rel_escapes (filepath_Rel (rooted ds) (path_Clean ?j))" using assms(1) by (simp add: checkExtentPath_def split: if_splits)
  moreover have "path_Clean ?j = rooted (clean_segments True ?j)" by (rule path_Clean_rooted) (simp add: filepath_Join_abs)
  ultimately show "prefix ds (clean_segments True ?j)" using rel_escapes_iff [OF assms(2) clean_segments_normal] by simp
qed

lemma descriptor_lines_checked:
  assumes "validateVMDKDescriptor u desc dir = None" and "raw \<in> set (Split desc LF)"
  shows "checkDescriptorLine u (TrimSpace raw) dir = None"
proof -
  obtain ls long where s: "scan_lines desc = (ls, long)" by fastforce
  then have "\<not> long" and c: "\<forall>l\<in>set ls. checkDescriptorLine u (TrimSpace l) dir = None"
    using assms(1) by (auto simp: validateVMDKDescriptor_def check_lines_None split: option.splits if_splits)
  then have "ls = map drop_cr (raw_lines desc)" using scan_lines_ok(1) s by auto
  then have "\<forall>l\<in>set (raw_lines desc). checkDescriptorLine u (TrimSpace l) dir = None" using c by simp
  then show ?thesis
    using raw_lines_ball [of "\<lambda>l. checkDescriptorLine u (TrimSpace l) dir = None" desc] assms(2)
    by (simp add: checkDescriptorLine_def go_eval)
qed

lemma IndexByte_first: "c \<notin> set a \<Longrightarrow> IndexByte (a @ c # b) c = Some (length a)"
  by (induction a) auto

lemma extentFileName_quoted:
  assumes "quote_char \<notin> set a" and "quote_char \<notin> set name"
  shows "extentFileName (a @ quote_char # name @ quote_char # b) = name"
  using IndexByte_first [OF assms(1)] IndexByte_first [OF assms(2)] by (simp add: extentFileName_def)

lemma descriptorValue_word:
  assumes "CHR ''='' \<notin> set k" and "list_all is_graphic x" and "x \<noteq> []" and "quote_char \<notin> set x" and "v = x \<or> v = quote_char # x @ [quote_char]"
  shows "descriptorValue (k @ CHR ''='' # v) = x"
proof -
  have g: "is_graphic quote_char" by (simp add: quote_char_def go_eval)
  have "TrimSpace v = v" using assms(2,3,5) g by (intro TrimSpace_graphic) (auto simp: list_all_iff)
  moreover have "dropWhile (\<lambda>c. c = quote_char) x = x" "dropWhile (\<lambda>c. c = quote_char) (rev x) = rev x"
    using assms(4) by (metis (mono_tags) dropWhile_eq_self_iff hd_in_set, metis (mono_tags) dropWhile_eq_self_iff hd_in_set set_rev)
  moreover have "dropWhile (\<lambda>c. c = quote_char) (x @ [quote_char]) = x @ [quote_char]"
    using assms(3,4) by (cases x) auto
  ultimately show ?thesis using assms(5) IndexByte_first [OF assms(1), of v] by (auto simp: descriptorValue_def Let_def)
qed

text \<open>
  C35 (safety). An image passes the inspection as a VMDK with some descriptor. Of every line of the whole descriptor that is not a comment (without the
  white space around it), whatever the length of the lines: its key, in any case, is not that of a parent's file name; when the key is \<open>parentCID\<close>, in any case, with a
  plain word as its value, bare or in quotes, then that word means that there is no parent; and when its first word, in any case, is an access mode, the name between its
  first two quotes is empty or a path that is not absolute in either notation, has no drive letter and stays in the directory of the
  image, in either notation of the separators.
\<close>

theorem accepted_vmdk_inside:
  assumes "ValidateImportVMDK io u path opened = None" "readVMDKDescriptor io opened = Inr desc" "desc \<noteq> []"
    and "filepath_Dir path = rooted ds" "list_all normal_seg ds" "raw \<in> set (Split desc LF)"
  defines "line \<equiv> TrimSpace raw"
  assumes "line \<noteq> []" "\<not> HasPrefix line ''#''"
  shows "\<not> HasPrefix (ToLower u line) ''parentfilenamehint''
    \<and> (\<forall>k v x. HasPrefix (ToLower u line) ''parentcid'' \<and> line = k @ CHR ''='' # v \<and> CHR ''='' \<notin> set k \<and> (v = x \<or> v = quote_char # x @ [quote_char])
         \<and> list_all is_graphic x \<and> x \<noteq> [] \<and> quote_char \<notin> set x \<longrightarrow> EqualFold x ''ffffffff'')
    \<and> (\<forall>w ws a name b. Fields (ToLower u line) = w # ws \<and> w \<in> {''rw'', ''rdonly'', ''noaccess''}
         \<and> line = a @ quote_char # name @ quote_char # b \<and> quote_char \<notin> set a \<and> quote_char \<notin> set name \<and> name \<noteq> [] \<longrightarrow>
         hd name \<noteq> CHR ''/'' \<and> hd name \<noteq> CHR 0x5C \<and> \<not> (2 \<le> length name \<and> name ! 1 = CHR '':'')
         \<and> prefix ds (clean_segments True (filepath_Join [rooted ds, slashes name])))"
proof -
  have "validateVMDKDescriptor u desc (rooted ds) = None"
    using assms(1-4) by (auto simp: ValidateImportVMDK_def IsVMDK_def ValidateSelfContainedVMDK_def)
  then have c: "checkDescriptorLine u line (rooted ds) = None"
    unfolding line_def using assms(6) by (rule descriptor_lines_checked)
  then have hint: "\<not> HasPrefix (ToLower u line) ''parentfilenamehint''"
    using assms(8,9) by (auto simp: checkDescriptorLine_def Let_def split: if_splits)
  have cid: "EqualFold (descriptorValue line) ''ffffffff''" if "HasPrefix (ToLower u line) ''parentcid''" "descriptorValue line \<noteq> []"
    using c assms(8,9) that by (auto simp: checkDescriptorLine_def Let_def simp del: EqualFold.simps split: if_splits)
  have ext: "checkExtentPath name (rooted ds) = None"
    if "Fields (ToLower u line) = w # ws" "w \<in> {''rw'', ''rdonly'', ''noaccess''}" "extentFileName line = name" "name \<noteq> []" for w ws name
  proof -
    have x: "isExtentLine (ToLower u line)" using that(1,2) by (simp add: isExtentLine_def)
    have p: "\<not> HasPrefix (ToLower u line) ''parentcid'' \<or> descriptorValue line = [] \<or> EqualFold (descriptorValue line) ''ffffffff''" using cid by blast
    show ?thesis using c assms(8,9) hint p x that(3,4) by (auto simp: checkDescriptorLine_def Let_def simp del: EqualFold.simps split: if_splits)
  qed
  have "EqualFold x ''ffffffff''" if "HasPrefix (ToLower u line) ''parentcid''" "line = k @ CHR ''='' # v" "CHR ''='' \<notin> set k"
    "v = x \<or> v = quote_char # x @ [quote_char]" "list_all is_graphic x" "x \<noteq> []" "quote_char \<notin> set x" for k v x
    using cid [OF that(1)] descriptorValue_word [OF that(3,5,6,7,4)] that(2,6) by simp
  moreover have "hd name \<noteq> CHR ''/'' \<and> hd name \<noteq> CHR 0x5C \<and> \<not> (2 \<le> length name \<and> name ! 1 = CHR '':'')
      \<and> prefix ds (clean_segments True (filepath_Join [rooted ds, slashes name]))"
    if "Fields (ToLower u line) = w # ws" "w \<in> {''rw'', ''rdonly'', ''noaccess''}" "line = a @ quote_char # name @ quote_char # b"
      "quote_char \<notin> set a" "quote_char \<notin> set name" "name \<noteq> []" for w ws a name b
  proof -
    have e: "checkExtentPath name (rooted ds) = None" using ext [OF that(1,2) _ that(6)] extentFileName_quoted [OF that(4,5)] that(3) by simp
    then have "hd name \<noteq> CHR ''/'' \<and> hd name \<noteq> CHR 0x5C \<and> \<not> (2 \<le> length name \<and> name ! 1 = CHR '':'')"
      using that(6) by (cases name) (auto simp: checkExtentPath_def split: if_splits)
    with extent_inside [OF e assms(5)] show ?thesis by blast
  qed
  ultimately show ?thesis using hint by blast
qed

text \<open>The reader of an embedded descriptor: whatever the header says, the arithmetic does not wrap and only bytes of the file are read.\<close>

lemma sparse_in_bounds:
  assumes "readSparseDescriptor io hdr file = Inr desc" "desc \<noteq> []" 
  shows "\<exists>k n. 0 < k \<and> 0 < n \<and> k + n \<le> length file \<and> n \<le> maxDescriptorBytes \<and> k = 512 * unat (header_word hdr 28) \<and> n = 512 * unat (header_word hdr 36)
    \<and> desc = trim_nul (take n (drop k file))"
proof -
  let ?o = "header_word hdr 28" and ?z = "header_word hdr 36"
  have c: "?z \<noteq> 0" "\<not> of_nat (maxDescriptorBytes div 512) < ?z" "\<not> of_nat ((2 ^ 63 - 1) div 512) < ?o"
    "0 < sint (?o * 512)" "sint (?o * 512) < int (length file)" "sint (?z * 512) \<le> int (length file) - sint (?o * 512)"
    "desc = trim_nul (take (unat (?z * 512)) (drop (nat (sint (?o * 512))) file))"
    using assms by (auto simp: readSparseDescriptor_def Let_def split: if_splits option.splits)
  have z: "unat ?z \<le> 2048" using c(2) by (simp add: maxDescriptorBytes_def word_le_nat_alt not_less)
  have o: "unat ?o \<le> 18014398509481983" using c(3) by (simp add: word_le_nat_alt not_less)
  have uz: "unat (?z * 512) = 512 * unat ?z" using z by (simp add: unat_word_ariths)
  have uo: "unat (?o * 512) = 512 * unat ?o" using o by (simp add: unat_word_ariths)
  have s: "sint w = int (unat w)" if "unat w < 2 ^ 63" for w :: "64 word"
  proof -
    have "int (unat w) < int (2 ^ 63)" using that by (simp only: of_nat_less_iff)
    then have "uint w < 2 ^ 63" "0 \<le> uint w" by simp_all
    then have "signed_take_bit 63 (uint w) = uint w" by (intro signed_take_bit_int_eq_self) linarith+
    then show ?thesis by (simp add: sint_uint)
  qed
  define a b where "a = unat ?o" and "b = unat ?z"
  have sab: "sint (?o * 512) = int (512 * a)" "sint (?z * 512) = int (512 * b)"
  proof -
    have "unat (?o * 512) < 2 ^ 63" "unat (?z * 512) < 2 ^ 63" using uo uz o z by simp_all
    then show "sint (?o * 512) = int (512 * a)" "sint (?z * 512) = int (512 * b)" using s uo uz by (simp_all only: a_def b_def)
  qed
  have "b \<noteq> 0" using c(1) by (simp add: b_def unat_eq_0)
  moreover have "unat (?z * 512) = 512 * b" "b \<le> 2048" using uz z by (simp_all add: b_def)
  ultimately have "0 < 512 * a \<and> 0 < 512 * b \<and> 512 * a + 512 * b \<le> length file \<and> 512 * b \<le> maxDescriptorBytes
      \<and> desc = trim_nul (take (512 * b) (drop (512 * a) file))"
    using c(4-7) unfolding sab by (simp add: maxDescriptorBytes_def nat_mult_distrib)
  then show ?thesis unfolding a_def b_def by blast
qed

section \<open>Separators of an extent\<close>

definition plain_word :: "string \<Rightarrow> bool" where
  "plain_word w \<longleftrightarrow> w \<noteq> [] \<and> list_all is_graphic w"

lemma space_at_LF [simp]: "space_at (LF # s) = 1"
  by (simp add: space_at_def space_runes_def ascii_spaces_def)

lemma Fields_line: "plain_word w \<Longrightarrow> Fields (w @ LF # s) = w # Fields s"
  by (simp add: plain_word_def Fields_def fields_acc_run fields_acc.simps [of "rev w" "LF # s"])

lemma Fields_lines: "list_all plain_word ws \<Longrightarrow> Fields (lines_text ws) = ws"
  by (induction ws) (auto simp: lines_text_def Fields_line, simp add: Fields_def fields_acc_Nil)

lemma Fields_blanks: "list_all plain_word ws \<Longrightarrow> Fields (Join ws '' '') = ws"
  by (induction ws "'' ''" rule: Join.induct) (auto simp: plain_word_def Fields_Cons Fields_single, simp add: Fields_def fields_acc_Nil)

lemma scan_plain:
  assumes "list_all (\<lambda>l. l \<noteq> [] \<and> length l < 100 \<and> list_all (\<lambda>c. is_graphic c \<or> c = CHR '' '') l) ls"
  shows "scan_lines (lines_text ls) = (ls, False)"
proof -
  have "LF \<notin> set l \<and> length l < max_token" "drop_cr l = l" if "l \<in> set ls" for l
  proof -
    have g: "\<forall>c\<in>set l. is_graphic c \<or> c = CHR '' ''" "length l < 100" using that assms by (simp_all add: list_all_iff)
    have "32 \<le> code c" if "is_graphic c \<or> c = CHR '' ''" for c using that by (elim disjE) (simp_all add: is_graphic_def go_eval)
    with g have l: "\<forall>c\<in>set l. 32 \<le> code c" "length l < 100" by blast+
    have "LF \<notin> set l"
    proof
      assume "LF \<in> set l"
      with l(1) have "32 \<le> code LF" by (rule bspec)
      then show False by simp
    qed
    with l(2) show "LF \<notin> set l \<and> length l < max_token" by (simp add: max_token_def)
    have "CR \<notin> set l"
    proof
      assume "CR \<in> set l"
      with l(1) have "32 \<le> code CR" by (rule bspec)
      then show False by simp
    qed
    then have "\<not> HasSuffix l [CR]" by (auto simp: HasSuffix_iff suffix_def)
    then show "drop_cr l = l" by (simp add: drop_cr_def TrimSuffix_def)
  qed
  then show ?thesis using scan_lines_text [of ls] by (simp add: map_idI)
qed

definition demo_vmdk :: "string list" where
  "demo_vmdk = [''version=1'', ''RW 1 SPARSE \"disk.vmdk\"'']"

lemma demo_vmdk_read: "readVMDKDescriptor (\<lambda>_. None) (Inr (lines_text demo_vmdk)) = Inr (lines_text demo_vmdk)"
proof -
  have l: "length (lines_text demo_vmdk) = 34" by (simp add: demo_vmdk_def lines_text_def)
  then have "take maxScanBytes (lines_text demo_vmdk) = lines_text demo_vmdk" by (simp add: maxScanBytes_def)
  moreover have "looksLikePlainVMDKDescriptor (lines_text demo_vmdk)"
    by (subst looksLikePlainVMDKDescriptor.simps) (simp add: demo_vmdk_def lines_text_def plainVMDKToken_def char_of_def bit_0)
  ultimately show ?thesis using l by (simp add: readVMDKDescriptor_def)
qed

lemma demo_extent: "isExtentLine ''rw 1 sparse \"disk.vmdk\"''" "extentFileName ''RW 1 SPARSE \"disk.vmdk\"'' = ''disk.vmdk''"
proof -
  have "Fields ''rw 1 sparse \"disk.vmdk\"'' = [''rw'', ''1'', ''sparse'', ''\"disk.vmdk\"'']"
    using Fields_blanks [of "[''rw'', ''1'', ''sparse'', ''\"disk.vmdk\"'']"] by (simp add: plain_word_def go_eval)
  then show "isExtentLine ''rw 1 sparse \"disk.vmdk\"''" by (simp add: isExtentLine_def)
qed (simp add: extentFileName_def quote_char_def)

lemma demo_scan: "scan_lines (lines_text demo_vmdk) = (demo_vmdk, False)"
  by (rule scan_plain) (simp add: demo_vmdk_def go_eval)

lemma demo_dir: "filepath_Dir ''/images/disk.vmdk'' = rooted [''images'']" "rooted [''images''] = ''/images''"
  by (simp_all add: filepath_Dir_def path_eval rooted_def)

lemma demo_vmdk_accepted: "ValidateImportVMDK (\<lambda>_. None) id ''/images/disk.vmdk'' (Inr (lines_text demo_vmdk)) = None"
proof -
  have "check_lines id ''/images'' demo_vmdk = None"
    using demo_extent by (simp add: demo_vmdk_def checkDescriptorLine_def Let_def go_eval isExtentLine_def [of "''version=1''"] Fields_single checkExtentPath_def slashes_def path_eval)
  then have "validateVMDKDescriptor id (lines_text demo_vmdk) ''/images'' = None" by (simp add: validateVMDKDescriptor_def demo_scan)
  then show ?thesis using demo_dir by (simp add: ValidateImportVMDK_def IsVMDK_def demo_vmdk_read ValidateSelfContainedVMDK_def)
qed

theorem accepted_vmdk_inside_witness:
  "Fields (ToLower id ''RW 1 SPARSE \"disk.vmdk\"'') = [''rw'', ''1'', ''sparse'', ''\"disk.vmdk\"'']
   \<and> prefix [''images''] (clean_segments True (filepath_Join [rooted [''images''], slashes ''disk.vmdk'']))"
proof -
  let ?l = "''RW 1 SPARSE \"disk.vmdk\"''"
  have t: "TrimSpace ?l = ?l" "ToLower id ?l = ''rw 1 sparse \"disk.vmdk\"''" by (simp_all add: go_eval)
  have f: "Fields (ToLower id ?l) = [''rw'', ''1'', ''sparse'', ''\"disk.vmdk\"'']"
    unfolding t(2) using Fields_blanks [of "[''rw'', ''1'', ''sparse'', ''\"disk.vmdk\"'']"] by (simp add: plain_word_def go_eval)
  have m: "?l \<in> set (Split (lines_text demo_vmdk) LF)" by (simp add: demo_vmdk_def lines_text_def go_eval)
  have n: "lines_text demo_vmdk \<noteq> []" "list_all normal_seg [''images'']" by (simp_all add: lines_text_def demo_vmdk_def normal_seg_def seg_ok_def)
  have h: "?l \<noteq> []" "\<not> HasPrefix ?l ''#''" by simp_all
  have w: "\<forall>w ws a name b. Fields (ToLower id ?l) = w # ws \<and> w \<in> {''rw'', ''rdonly'', ''noaccess''}
         \<and> ?l = a @ quote_char # name @ quote_char # b \<and> quote_char \<notin> set a \<and> quote_char \<notin> set name \<and> name \<noteq> [] \<longrightarrow>
         prefix [''images''] (clean_segments True (filepath_Join [rooted [''images''], slashes name]))"
    using accepted_vmdk_inside [OF demo_vmdk_accepted demo_vmdk_read n(1) demo_dir(1) n(2) m, unfolded t(1), OF h] by blast
  have "?l = ''RW 1 SPARSE '' @ quote_char # ''disk.vmdk'' @ quote_char # []" "quote_char \<notin> set ''RW 1 SPARSE ''" "quote_char \<notin> set ''disk.vmdk''"
    by (simp_all add: quote_char_def)
  with w f show ?thesis by blast
qed

section \<open>An extent on several lines\<close>

lemma lower_graphic: "is_graphic c \<Longrightarrow> is_graphic (lower_char c)"
  by (auto simp: is_graphic_def code_lower_char is_upper_def)

lemma graphic_ascii: "is_graphic c \<Longrightarrow> is_ascii c"
  by (simp add: is_graphic_def is_ascii_def)

lemma plain_lower: "plain_word w \<Longrightarrow> plain_word (map lower_char w) \<and> ToLower u w = map lower_char w \<and> TrimSpace w = w"
  using lower_graphic graphic_ascii by (auto simp: plain_word_def list_all_iff ToLower_def intro!: TrimSpace_graphic)

text \<open>A word that is neither a comment nor a key of a parent, nor in quotes, says nothing on a line of its own.\<close>

definition harmless :: "string \<Rightarrow> bool" where
  "harmless w \<longleftrightarrow> plain_word w \<and> hd w \<noteq> CHR ''#'' \<and> quote_char \<notin> set w \<and> \<not> HasPrefix (map lower_char w) ''parent''"

lemma IndexByte_absent: "c \<notin> set s \<Longrightarrow> IndexByte s c = None"
  by (induction s) auto

lemma HasPrefix_append_D: "HasPrefix s (a @ b) \<Longrightarrow> HasPrefix s a"
  by (auto simp: HasPrefix_iff prefix_def)

lemma parent_keys: "\<not> HasPrefix s ''parent'' \<Longrightarrow> \<not> HasPrefix s ''parentfilenamehint'' \<and> \<not> HasPrefix s ''parentcid''"
  using HasPrefix_append_D [of s "''parent''" "''filenamehint''"] HasPrefix_append_D [of s "''parent''" "''cid''"] by auto

lemma harmless_line: "harmless w \<Longrightarrow> checkDescriptorLine u w dir = None"
proof -
  assume w: "harmless w"
  then have "extentFileName w = []" by (simp add: harmless_def extentFileName_def IndexByte_absent)
  moreover have "ToLower u w = map lower_char w" "\<not> HasPrefix (map lower_char w) ''parentfilenamehint''" "\<not> HasPrefix (map lower_char w) ''parentcid''"
    using w plain_lower parent_keys by (simp_all add: harmless_def)
  ultimately show ?thesis by (simp add: checkDescriptorLine_def Let_def)
qed

lemma quoted_line:
  assumes "plain_word name"
  shows "checkDescriptorLine u (quote_char # name @ [quote_char]) dir = None"
proof -
  let ?w = "quote_char # name @ [quote_char]"
  have w: "plain_word ?w" using assms by (simp add: plain_word_def quote_char_def go_eval)
  have l: "lower_char quote_char = quote_char" by (simp add: quote_char_def go_eval)
  have "Fields (map lower_char ?w) = [map lower_char ?w]"
    by (rule Fields_single) (use plain_lower [OF w, unfolded plain_word_def] in blast)+
  then have "\<not> isExtentLine (map lower_char ?w)" using l by (auto simp: isExtentLine_def quote_char_def)
  then show ?thesis using plain_lower [OF w, of u] l by (simp add: checkDescriptorLine_def Let_def) (simp add: quote_char_def)
qed

definition extent_fields :: "string \<Rightarrow> string \<Rightarrow> string \<Rightarrow> string \<Rightarrow> string \<Rightarrow> string list" where
  "extent_fields mode sectors type name offset = [mode, sectors, type, quote_char # name @ [quote_char], offset]"

lemma one_line_refused:
  assumes "map lower_char mode \<in> {''rw'', ''rdonly'', ''noaccess''}" and "list_all harmless [mode, sectors, type, offset]"
    and "plain_word name" and "HasPrefix name ''/''" and "quote_char \<notin> set name"
  defines "line \<equiv> Join (extent_fields mode sectors type name offset) '' ''"
  shows "checkDescriptorLine u (TrimSpace line) dir = Some (VdAbsolute name)"
proof -
  let ?ws = "extent_fields mode sectors type name offset"
  have q: "is_graphic quote_char" "lower_char quote_char = quote_char" by (simp_all add: quote_char_def go_eval)
  have p: "list_all plain_word ?ws" using assms(2,3) q(1) by (simp add: extent_fields_def harmless_def plain_word_def)
  have line: "line = mode @ '' '' @ sectors @ '' '' @ type @ '' '' @ quote_char # name @ quote_char # '' '' @ offset"
    by (simp add: line_def extent_fields_def)
  have "TrimSpace line = line"
    using assms(2) by (intro TrimSpace_graphic) (auto simp: line harmless_def plain_word_def list_all_iff hd_append)
  moreover have "list_all is_ascii line"
    using p graphic_ascii by (auto simp: line extent_fields_def plain_word_def list_all_iff quote_char_def is_ascii_def code_def)
  then have low: "ToLower u line = map lower_char line" by (rule ToLower_ascii)
  have "lower_char CHR '' '' = CHR '' ''" by (simp add: go_eval)
  then have ml: "map lower_char line = map lower_char mode @ '' '' @ map lower_char (drop (Suc (length mode)) line)" by (simp add: line)
  have "plain_word (map lower_char mode)" using assms(2) plain_lower by (simp add: harmless_def)
  then have f: "Fields (map lower_char line) = map lower_char mode # Fields (map lower_char (drop (Suc (length mode)) line))"
    unfolding ml using Fields_Cons by (simp add: plain_word_def)
  then have "isExtentLine (map lower_char line)" using assms(1) by (simp add: isExtentLine_def)
  moreover have "extentFileName line = name"
    using extentFileName_quoted [of "mode @ '' '' @ sectors @ '' '' @ type @ '' ''" name "'' '' @ offset"] assms(2,5)
    by (simp add: line harmless_def) (simp add: quote_char_def)
  moreover have "\<not> HasPrefix (map lower_char line) ''parentfilenamehint'' \<and> \<not> HasPrefix (map lower_char line) ''parentcid''"
    using assms(1) unfolding ml by auto
  moreover have "line \<noteq> []" "\<not> HasPrefix line ''#''" using assms(2) by (cases mode; simp add: line harmless_def)+
  moreover have "name \<noteq> []" using assms(3) by (simp add: plain_word_def)
  moreover have "checkExtentPath name dir = Some (VdAbsolute name)" using assms(4) by (simp add: checkExtentPath_def)
  ultimately show ?thesis using low by (simp add: checkDescriptorLine_def Let_def)
qed

lemma validate_lines:
  assumes "\<forall>l\<in>set ls. LF \<notin> set l"
  shows "validateVMDKDescriptor u (lines_text ls) dir =
    (if \<forall>l\<in>set ls. length l < max_token then check_lines u dir ls
     else case check_lines u dir (takeWhile (\<lambda>l. length l < max_token) ls) of Some e \<Rightarrow> Some e | None \<Rightarrow> Some VdScan)"
proof -
  have r: "raw_lines (lines_text ls) = ls" using raw_lines_text [OF assms, of "[]"] by simp
  have d: "check_lines u dir (map drop_cr ks) = check_lines u dir ks" for ks by (induction ks) (simp_all split: option.splits)
  have "length (takeWhile (\<lambda>l. length l < max_token) ls) < length ls \<longleftrightarrow> \<not> (\<forall>l\<in>set ls. length l < max_token)"
    by (induction ls) auto
  then show ?thesis
    by (auto simp: validateVMDKDescriptor_def scan_lines_def r d Let_def takeWhile_eq_all_conv [THEN iffD2] split: option.splits)
qed

lemma check_lines_append: "check_lines u dir (a @ b) = (case check_lines u dir a of Some e \<Rightarrow> Some e | None \<Rightarrow> check_lines u dir b)"
  by (induction a) (auto split: option.splits)

text \<open>
  C36 (error). The fields of an extent may be separated by any run of blanks, tabs and newlines, as the comment of \<open>isExtentLine\<close> says of the reader it protects; the
  check looks at single lines. In any descriptor that the check accepts, insert anywhere between its lines an extent with an absolute path: an access mode, a
  size, a type, the path in quotes and an offset, all plain words, none of the unquoted ones a comment or a parent's key, together shorter than the longest line the scanner takes. Written on one
  line it is refused for its absolute path; written with each field on a line of its own the descriptor is accepted, although the fields are the same.
\<close>

theorem newline_extent_accepted:
  assumes "validateVMDKDescriptor u (lines_text (pre @ post)) dir = None" and "\<forall>l\<in>set (pre @ post). LF \<notin> set l"
    and "map lower_char mode \<in> {''rw'', ''rdonly'', ''noaccess''}" and "list_all harmless [mode, sectors, type, offset]"
    and "plain_word name" and "HasPrefix name ''/''" and "quote_char \<notin> set name"
    and "length (Join (extent_fields mode sectors type name offset) '' '') < max_token"
  shows "validateVMDKDescriptor u (lines_text (pre @ [Join (extent_fields mode sectors type name offset) '' ''] @ post)) dir = Some (VdAbsolute name)
    \<and> validateVMDKDescriptor u (lines_text (pre @ extent_fields mode sectors type name offset @ post)) dir = None
    \<and> Fields (Join (extent_fields mode sectors type name offset) '' '') = extent_fields mode sectors type name offset
    \<and> Fields (lines_text (extent_fields mode sectors type name offset)) = extent_fields mode sectors type name offset"
proof -
  let ?ws = "extent_fields mode sectors type name offset"
  have q: "is_graphic quote_char" by (simp add: quote_char_def go_eval)
  have p: "list_all plain_word ?ws" using assms(4,5) q by (simp add: extent_fields_def harmless_def plain_word_def)
  have ok: "\<forall>l\<in>set (pre @ post). length l < max_token" "check_lines u dir (pre @ post) = None"
    using assms(1) unfolding validate_lines [OF assms(2)] by (auto split: if_splits option.splits)
  have g: "\<not> is_graphic LF" "LF \<noteq> CHR '' ''" by (simp_all add: is_graphic_def char_of_eq_iff)
  have lf: "\<forall>l\<in>set ?ws. LF \<notin> set l" "LF \<notin> set (Join ?ws '' '')"
    using p g by (auto simp: list_all_iff plain_word_def extent_fields_def)
  have len: "\<forall>l\<in>set ?ws. length l < max_token" using assms(8) by (simp add: extent_fields_def)
  have lines: "check_lines u dir ?ws = None"
    using assms(4,5) harmless_line [of _ u dir] quoted_line [OF assms(5), of u dir] p plain_lower
    by (simp add: check_lines_None list_all_iff extent_fields_def)
  have "validateVMDKDescriptor u (lines_text (pre @ [Join ?ws '' ''] @ post)) dir = check_lines u dir (pre @ [Join ?ws '' ''] @ post)"
    by (rule trans [OF validate_lines if_P]) (use assms(2,8) lf(2) ok(1) in auto)
  also have "\<dots> = Some (VdAbsolute name)"
    using ok(2) one_line_refused [OF assms(3-7), of u dir] by (simp add: check_lines_append split: option.splits)
  finally have 1: "validateVMDKDescriptor u (lines_text (pre @ [Join ?ws '' ''] @ post)) dir = Some (VdAbsolute name)" .
  have "validateVMDKDescriptor u (lines_text (pre @ ?ws @ post)) dir = check_lines u dir (pre @ ?ws @ post)"
    by (rule trans [OF validate_lines if_P]) (use assms(2) lf(1) ok(1) len in auto)
  also have "\<dots> = None" using ok(2) lines by (simp add: check_lines_append split: option.splits)
  finally show ?thesis using 1 Fields_lines [OF p] Fields_blanks [OF p] by simp
qed

theorem newline_extent_accepted_witness:
  "validateVMDKDescriptor id (lines_text [''version=1'', ''RW 1 FLAT \"/etc/shadow\" 0'']) ''/images'' = Some (VdAbsolute ''/etc/shadow'')
   \<and> validateVMDKDescriptor id (lines_text [''version=1'', ''RW'', ''1'', ''FLAT'', ''\"/etc/shadow\"'', ''0'']) ''/images'' = None"
proof -
  have v: "validateVMDKDescriptor id (lines_text ([''version=1''] @ [])) ''/images'' = None"
    using validate_lines [of "[''version=1'']"]
    by (simp add: checkDescriptorLine_def Let_def go_eval isExtentLine_def Fields_single max_token_def)
  have l: "\<forall>l\<in>set ([''version=1''] @ []). LF \<notin> set l" by (simp add: go_eval)
  have e: "extent_fields ''RW'' ''1'' ''FLAT'' ''/etc/shadow'' ''0'' = [''RW'', ''1'', ''FLAT'', ''\"/etc/shadow\"'', ''0'']"
    by (simp add: extent_fields_def quote_char_def)
  have m: "map lower_char ''RW'' \<in> {''rw'', ''rdonly'', ''noaccess''}" "list_all harmless [''RW'', ''1'', ''FLAT'', ''0'']"
    "plain_word ''/etc/shadow''" "HasPrefix ''/etc/shadow'' ''/''" "quote_char \<notin> set ''/etc/shadow''"
    by (simp_all add: harmless_def plain_word_def quote_char_def go_eval)
  have n: "length (Join (extent_fields ''RW'' ''1'' ''FLAT'' ''/etc/shadow'' ''0'') '' '') < max_token" by (simp add: e max_token_def)
  show ?thesis using newline_extent_accepted [OF v l m n] by (simp add: e)
qed

end
