(* ===== verification/Natsort.thy ===== *)
theory Natsort
  imports Go_Text
begin

text \<open>
  Natural string comparison, \<open>natsort/natsort.go\<close>, which orders the base images in listings. The comparison loop is a
  \<open>partial_function\<close> whose result \<open>None\<close> would mean that it does not return. It is shown to return on every pair of strings, and to be
  the lexicographic order of the strings read as sequences of numbers and bytes.
\<close>

text \<open>On overflow \<open>strconv.Atoi\<close> returns the largest \<open>int64\<close> beside the error, which the code ignores.\<close>

definition extractNumber :: "string \<Rightarrow> nat \<Rightarrow> int \<times> nat" where
  "extractNumber s i = (let ds = takeWhile is_digit (drop i s) in (min (int (dec_val ds)) (2 ^ 63 - 1), i + length ds))"

partial_function (option) Less :: "string \<Rightarrow> string \<Rightarrow> bool option" where
  "Less a b =
     (if a = b then Some False
      else if a = [] then Some True
      else if b = [] then Some False
      else let aDigit = is_digit (hd a); bDigit = is_digit (hd b) in
        if aDigit \<and> bDigit then
          (let (an, aj) = extractNumber a 0; (bn, bj) = extractNumber b 0 in
           if an \<noteq> bn then Some (an < bn) else Less (drop aj a) (drop bj b))
        else if aDigit \<noteq> bDigit then Some (code (hd a) < code (hd b))
        else if hd a \<noteq> hd b then Some (code (hd a) < code (hd b))
        else Less (tl a) (tl b))"

section \<open>Keys\<close>

text \<open>A run of digits is one token, its value up to the largest \<open>int64\<close>; every other byte is a token. A number stands among the
  bytes where the digits stand.\<close>

datatype token = Number int | Byte char

definition rank :: "token \<Rightarrow> nat \<times> int" where
  "rank t = (case t of Number n \<Rightarrow> (48, 2 * n) | Byte c \<Rightarrow> (code c, 1))"

lemma rank_inj: "rank t = rank u \<longleftrightarrow> t = u"
  by (auto simp: rank_def split: token.splits) presburger+

instantiation token :: linorder
begin

definition less_token :: "token \<Rightarrow> token \<Rightarrow> bool" where
  "less_token t u \<longleftrightarrow> fst (rank t) < fst (rank u) \<or> fst (rank t) = fst (rank u) \<and> snd (rank t) < snd (rank u)"

definition less_eq_token :: "token \<Rightarrow> token \<Rightarrow> bool" where
  "less_eq_token t u \<longleftrightarrow> t < u \<or> t = u"

instance
proof
  fix t u v :: token
  show "t < u \<longleftrightarrow> t \<le> u \<and> \<not> u \<le> t" by (auto simp: less_token_def less_eq_token_def)
  show "t \<le> t" by (simp add: less_eq_token_def)
  show "t \<le> u \<Longrightarrow> u \<le> v \<Longrightarrow> t \<le> v" by (auto simp: less_token_def less_eq_token_def)
  show "t \<le> u \<Longrightarrow> u \<le> t \<Longrightarrow> t = u" by (auto simp: less_token_def less_eq_token_def)
  show "t \<le> u \<or> u \<le> t" using rank_inj [of t u] by (auto simp: less_token_def less_eq_token_def prod_eq_iff)
qed

end

lemma token_less [simp]:
  "Number m < Number n \<longleftrightarrow> m < n" "Byte c < Byte d \<longleftrightarrow> code c < code d"
  "\<not> is_digit c \<Longrightarrow> Number n < Byte c \<longleftrightarrow> 48 \<le> code c" "\<not> is_digit c \<Longrightarrow> Byte c < Number n \<longleftrightarrow> code c < 48"
  by (auto simp: less_token_def rank_def is_digit_def)

function natural_key :: "string \<Rightarrow> token list" where
  "natural_key s =
     (case s of
        [] \<Rightarrow> []
      | c # r \<Rightarrow>
          if is_digit c then Number (fst (extractNumber s 0)) # natural_key (dropWhile is_digit s)
          else Byte c # natural_key r)"
  by pat_completeness auto
termination
  by (relation "measure length") (auto simp: less_Suc_eq_le intro: length_dropWhile_le)

declare natural_key.simps [simp del]

lemma natural_key_simps [simp]:
  "natural_key [] = []"
  "is_digit c \<Longrightarrow> natural_key (c # r) = Number (fst (extractNumber (c # r) 0)) # natural_key (dropWhile is_digit r)"
  "\<not> is_digit c \<Longrightarrow> natural_key (c # r) = Byte c # natural_key r"
  by (simp_all add: natural_key.simps)

lemma drop_number: "drop (snd (extractNumber s 0)) s = dropWhile is_digit s"
  by (simp add: extractNumber_def Let_def dropWhile_eq_drop)

lemma lexordp_heads:
  "ord_class.lexordp (x # xs) (y # ys) \<longleftrightarrow> x < y \<or> x = y \<and> ord_class.lexordp xs ys" for x :: "'a :: linorder"
  by auto

lemma Less_number:
  "is_digit c \<Longrightarrow> is_digit d \<Longrightarrow> c # a \<noteq> d # b \<Longrightarrow>
   Less (c # a) (d # b) =
     (if fst (extractNumber (c # a) 0) \<noteq> fst (extractNumber (d # b) 0) then Some (fst (extractNumber (c # a) 0) < fst (extractNumber (d # b) 0))
      else Less (dropWhile is_digit a) (dropWhile is_digit b))"
  using drop_number [of "c # a"] drop_number [of "d # b"] by (subst Less.simps) (auto simp: split_beta Let_def)

text \<open>C40 (termination). The comparison returns on every pair of strings, and its result is the lexicographic order of their keys: numbers by value,
  other bytes by code, a proper prefix first. Strings with the same key, such as those that differ in leading zeros, are neither above nor
  below each other, so the result is the strict weak order that a sort needs.\<close>

theorem Less_returns: "Less a b = Some (ord_class.lexordp (natural_key a) (natural_key b))"
proof (induction "length a + length b" arbitrary: a b rule: less_induct)
  case less
  show ?case
  proof (cases a; cases b)
    fix c a' d b' assume e: "a = c # a'" "b = d # b'"
    have dw: "length (dropWhile is_digit r) \<le> length r" for r by (rule length_dropWhile_le)
    show ?thesis
    proof (cases "c # a' = d # b'")
      case True
      then show ?thesis using e by (subst Less.simps) (simp add: lexordp_irreflexive)
    next
      case ne: False
      consider (num) "is_digit c" "is_digit d" | (mixed) "is_digit c \<noteq> is_digit d" | (byte) "\<not> is_digit c" "\<not> is_digit d" by blast
      then show ?thesis
      proof cases
        case num
        then have "Less (dropWhile is_digit a') (dropWhile is_digit b')
            = Some (ord_class.lexordp (natural_key (dropWhile is_digit a')) (natural_key (dropWhile is_digit b')))"
          using less [of "dropWhile is_digit a'" "dropWhile is_digit b'"] e dw [of a'] dw [of b'] by auto
        then show ?thesis using num ne e by (auto simp: Less_number)
      next
        case mixed
        then show ?thesis using e ne by (subst Less.simps) (auto simp: is_digit_def)
      next
        case byte
        moreover have "code c < code d \<or> code d < code c" if "c \<noteq> d" using that code_eq_iff [of c d] by linarith
        ultimately show ?thesis using e ne less [of a' b'] by (subst Less.simps) auto
      qed
    qed
  next
    assume "a = []" "b = []" then show ?thesis by (simp add: Less.simps)
  next
    fix d b' assume "a = []" "b = d # b'" then show ?thesis by (cases "is_digit d") (simp_all add: Less.simps)
  next
    fix c a' assume "a = c # a'" "b = []" then show ?thesis by (cases "is_digit c") (simp_all add: Less.simps)
  qed
qed

end
