(* ===== verification/Up.thy ===== *)
theory Up
  imports Create
begin

text \<open>
  \<open>abox up\<close>: the policy that decides what happens to a changed allowlist (\<open>reconcile/reconcile.go\<close>), the command itself
  (\<open>pkg/cmd/up/up.go\<close>) and the allowlist files it and \<open>create\<close> write. Replacing the allowlist makes the next comparison equal exactly when every declared
  entry is a valid domain, and provisioning leaves the filters in active mode on every path.
\<close>

section \<open>Reconciliation policy\<close>

datatype Decision = DecisionPrompt | DecisionKeep | DecisionReplace

definition ParseDecision :: "(string \<Rightarrow> string) \<Rightarrow> string \<Rightarrow> Decision option" where
  "ParseDecision ul s =
     (let t = ToLower ul (TrimSpace s) in
      if t = [] then Some DecisionPrompt
      else if t \<in> {''prompt'', ''ask''} then Some DecisionPrompt
      else if t \<in> {''keep'', ''confold'', ''old''} then Some DecisionKeep
      else if t \<in> {''replace'', ''confnew'', ''new''} then Some DecisionReplace
      else None)"

record Request =
  rq_Equal :: bool
  rq_Current :: string
  rq_Desired :: string
  rq_Decision :: Decision

text \<open>The menu loop over the answers the user gives, with the number of times the difference was shown. It returns \<open>None\<close> when the answers end before
  a choice.\<close>

fun promptLoop :: "bool \<Rightarrow> int list \<Rightarrow> (Decision \<times> nat) option" where
  "promptLoop hasDiff [] = None"
| "promptLoop hasDiff (a # as) =
     (if a = 0 then Some (DecisionKeep, 0)
      else if a = 1 then Some (DecisionReplace, 0)
      else if a = 2 then (if hasDiff then map_option (map_prod id Suc) (promptLoop hasDiff as) else Some (DecisionKeep, 0))
      else Some (DecisionKeep, 0))"

definition Resolve :: "bool \<Rightarrow> int list option \<Rightarrow> Request \<Rightarrow> Decision option" where
  "Resolve terminal prompter req =
     (if rq_Equal req then Some DecisionKeep
      else if rq_Decision req = DecisionKeep \<or> rq_Decision req = DecisionReplace then Some (rq_Decision req)
      else (case (terminal, prompter) of
              (True, Some answers) \<Rightarrow> map_option fst (promptLoop (rq_Current req \<noteq> [] \<or> rq_Desired req \<noteq> []) answers)
            | _ \<Rightarrow> Some DecisionKeep))"

text \<open>The loop returns as soon as an answer is not the one for the difference; only the answer 1 replaces the file.\<close>

lemma promptLoop_returns:
  "(\<exists>r. promptLoop h as = Some r) \<longleftrightarrow> as \<noteq> [] \<and> (h \<longrightarrow> (\<exists>a \<in> set as. a \<noteq> 2))"
  by (induction as) auto

lemma promptLoop_replace:
  "promptLoop h as = Some (DecisionReplace, n) \<longleftrightarrow> (\<exists>r. as = replicate n 2 @ 1 # r) \<and> (n = 0 \<or> h)"
proof (induction as arbitrary: n)
  case (Cons a as)
  show ?case using Cons.IH [of "n - 1"] by (cases n) auto
qed simp

definition differCommand :: "string \<Rightarrow> string \<times> string list" where
  "differCommand diffprog =
     (case Fields (TrimSpace diffprog) of
        p # as \<Rightarrow> (p, as)
      | [] \<Rightarrow> (''diff'', [''-u'', ''--label'', ''current'', ''--label'', ''desired'']))"

section \<open>Allowlist files\<close>

definition allowlist_header :: "string list" where
  "allowlist_header = [''# Domain Allowlist (from abox.yaml)'', ''# One domain per line. Subdomains are automatically allowed.'', []]"

definition allowlist_lines :: "string list \<Rightarrow> string list" where
  "allowlist_lines domains = List.filter (\<lambda>d. d \<noteq> []) (map TrimSpace domains)"

text \<open>\<open>os.WriteFile\<close> replaces the contents of the file, or those of the target of a symbolic link; \<open>fault\<close> is its error.\<close>

definition WriteAllowlist :: "os_error option \<Rightarrow> string list \<Rightarrow> fnode \<Rightarrow> fnode \<times> os_error option" where
  "WriteAllowlist fault domains node =
     (case fault of
        Some e \<Rightarrow> (node, Some e)
      | None \<Rightarrow> ((case node of Symlink \<Rightarrow> Symlink | _ \<Rightarrow> Regular (lines_text (allowlist_header @ allowlist_lines domains))), None))"

definition default_allowlist :: "string list" where
  "default_allowlist =
    [''# Abox Domain Allowlist'', ''# One domain per line. Subdomains are automatically allowed.'', ''# Lines starting with # are comments.'', ''#'',
     ''# No domains are allowed by default. Add domains as needed:'', ''#   abox allowlist add <instance> example.com'',
     ''#   abox allowlist add <instance> '' @ [CHR 0x22] @ ''*.github.com'' @ [CHR 0x22], ''#'', ''# Or specify domains in abox.yaml:'', ''#   allowlist:'',
     ''#     - '' @ [CHR 0x22] @ ''*.github.com'' @ [CHR 0x22], ''#     - '' @ [CHR 0x22] @ ''*.pypi.org'' @ [CHR 0x22]]"

definition createDefaultAllowlist :: "os_error option \<Rightarrow> fnode \<Rightarrow> fnode \<times> os_error option" where
  "createDefaultAllowlist fault node =
     (case fault of
        Some e \<Rightarrow> (node, Some e)
      | None \<Rightarrow> ((case node of Symlink \<Rightarrow> Symlink | _ \<Rightarrow> Regular (lines_text default_allowlist)), None))"

definition createAllowlist :: "os_error option \<Rightarrow> string list option \<Rightarrow> fnode \<Rightarrow> fnode \<times> os_error option" where
  "createAllowlist fault domains node =
     (case domains of None \<Rightarrow> createDefaultAllowlist fault node | Some ds \<Rightarrow> WriteAllowlist fault ds node)"

section \<open>An existing instance\<close>

definition buildReconcileRequest :: "dom_ext \<Rightarrow> Decision \<Rightarrow> string list \<Rightarrow> fnode \<Rightarrow> load_error + Request" where
  "buildReconcileRequest E decision declared node =
     (let desired = DomainSet E declared in
      case LoadDomainSet E node of
        Inl e \<Rightarrow> Inl e
      | Inr cur \<Rightarrow> Inr \<lparr>rq_Equal = DomainSetsEqual cur desired, rq_Current = RenderDomainSet cur, rq_Desired = RenderDomainSet desired, rq_Decision = decision\<rparr>)"

text \<open>\<open>resolveConfDecision\<close>: a failure leaves the decision as it is. The outer option is the loop that waits for the user.\<close>

definition resolveConfDecision :: "dom_ext \<Rightarrow> bool \<Rightarrow> int list option \<Rightarrow> Decision \<Rightarrow> string list option \<Rightarrow> fnode option \<Rightarrow> Decision option" where
  "resolveConfDecision E terminal prompter decision declared node =
     (case declared of
        None \<Rightarrow> Some decision
      | Some ds \<Rightarrow>
          (case node of
             None \<Rightarrow> Some decision
           | Some n \<Rightarrow>
               (case buildReconcileRequest E decision ds n of Inl _ \<Rightarrow> Some decision | Inr req \<Rightarrow> Resolve terminal prompter req)))"

datatype sync_error = SyncLoad load_error | SyncWrite os_error
datatype sync_note = Synced | Kept_Differs | Quiet

definition syncAllowlist :: "dom_ext \<Rightarrow> os_error option \<Rightarrow> Decision \<Rightarrow> string list \<Rightarrow> fnode \<Rightarrow> fnode \<times> (sync_error + sync_note)" where
  "syncAllowlist E fault decision declared node =
     (case buildReconcileRequest E decision declared node of
        Inl e \<Rightarrow> (node, Inl (SyncLoad e))
      | Inr req \<Rightarrow>
          if decision = DecisionReplace then
            (case WriteAllowlist fault declared node of (node', Some e) \<Rightarrow> (node', Inl (SyncWrite e)) | (node', None) \<Rightarrow> (node', Inr Synced))
          else (node, Inr (if rq_Equal req then Quiet else Kept_Differs)))"

section \<open>Provisioning\<close>

text \<open>What the command does to the instance, in order. The results of the steps that can fail are inputs; an error of setting a mode is only logged.\<close>

datatype up_event = CreateInstance | StartInstance | ApplyFiltered | SetDNSMode string | SetHTTPMode string | WaitSSH | RunScripts "string list" string

record up_results =
  ur_create :: bool
  ur_start :: bool
  ur_backend :: bool
  ur_filtered :: bool
  ur_load :: bool
  ur_backend2 :: bool
  ur_ip :: bool
  ur_ssh :: bool
  ur_provision :: bool

datatype up_error = UpCreate | UpStart | UpBackend | UpFilter | UpPaths box_error | UpLoad | UpIP | UpSSH | UpProvision

definition setFilterMode :: "string \<Rightarrow> up_event list" where
  "setFilterMode mode = [SetDNSMode mode, SetHTTPMode mode]"

definition resolveOverlayOrEmpty :: "Boxfile \<Rightarrow> string \<Rightarrow> string" where
  "resolveOverlayOrEmpty b boxDir = (case ResolveOverlayPath b boxDir of Inl _ \<Rightarrow> [] | Inr p \<Rightarrow> p)"

text \<open>The body of \<open>doProvision\<close> between setting the mode and its deferred reset.\<close>

definition provision_body :: "up_results \<Rightarrow> Boxfile \<Rightarrow> string \<Rightarrow> string list \<Rightarrow> up_event list \<times> up_error option" where
  "provision_body u b boxDir scripts =
     (if \<not> ur_load u then ([], Some UpLoad)
      else if \<not> ur_backend2 u then ([], Some UpBackend)
      else if \<not> ur_ip u then ([], Some UpIP)
      else if \<not> ur_ssh u then ([WaitSSH], Some UpSSH)
      else ([WaitSSH, RunScripts scripts (resolveOverlayOrEmpty b boxDir)], if ur_provision u then None else Some UpProvision))"

definition doProvision :: "up_results \<Rightarrow> Boxfile \<Rightarrow> string \<Rightarrow> string list \<Rightarrow> up_event list \<times> up_error option" where
  "doProvision u b boxDir scripts =
     (case provision_body u b boxDir scripts of (es, r) \<Rightarrow> (setFilterMode ''passive'' @ es @ setFilterMode ''active'', r))"

definition doNewInstance :: "up_results \<Rightarrow> Boxfile \<Rightarrow> string \<Rightarrow> up_event list \<times> up_error option" where
  "doNewInstance u b boxDir =
     (if \<not> ur_create u then ([CreateInstance], Some UpCreate)
      else if \<not> ur_start u then ([CreateInstance, StartInstance], Some UpStart)
      else if \<not> ur_backend u then ([CreateInstance, StartInstance], Some UpBackend)
      else if \<not> ur_filtered u then ([CreateInstance, StartInstance, ApplyFiltered], Some UpFilter)
      else if b_Provision b = [] then ([CreateInstance, StartInstance, ApplyFiltered], None)
      else (case ResolveProvisionPaths b boxDir of
              Inl e \<Rightarrow> ([CreateInstance, StartInstance, ApplyFiltered], Some (UpPaths e))
            | Inr scripts \<Rightarrow>
                (case doProvision u b boxDir scripts of (es, r) \<Rightarrow> ([CreateInstance, StartInstance, ApplyFiltered] @ es, r))))"

text \<open>The last mode each filter was set to.\<close>

fun last_modes :: "up_event list \<Rightarrow> string option \<times> string option \<Rightarrow> string option \<times> string option" where
  "last_modes [] m = m"
| "last_modes (e # es) (d, h) = last_modes es (case e of SetDNSMode x \<Rightarrow> (Some x, h) | SetHTTPMode x \<Rightarrow> (d, Some x) | _ \<Rightarrow> (d, h))"

text \<open>Scripts run only on a filtered instance, in passive mode, and a filter that was set to passive mode is back in active mode at the end.\<close>

lemma doNewInstance_order:
  assumes "doNewInstance u b d = (es, r)"
  shows "es = as @ RunScripts ss ov # bs \<Longrightarrow> ApplyFiltered \<in> set as \<and> last_modes as (None, None) = (Some ''passive'', Some ''passive'')"
    and "last_modes es (None, None) \<in> {(None, None), (Some ''active'', Some ''active'')}" and "r = None \<Longrightarrow> ApplyFiltered \<in> set es"
  using assms
  by (auto simp: doNewInstance_def doProvision_def provision_body_def setFilterMode_def Cons_eq_append_conv split: if_splits sum.splits)

section \<open>Convergence\<close>

text \<open>The lines written for the declared entries parse to their canonical forms, without the invalid ones.\<close>

definition plain_entry :: "string \<Rightarrow> bool" where
  "plain_entry d \<longleftrightarrow> LF \<notin> set d \<and> length d < max_token \<and> \<not> HasPrefix (TrimSpace d) ''#''"

lemma TrimSpace_length: "length (TrimSpace s) \<le> length s"
proof (rule TrimSpace_sublist [of s])
  fix a b assume "s = a @ TrimSpace s @ b"
  then have "length s = length a + length (TrimSpace s) + length b" by (metis add.assoc length_append)
  then show ?thesis by simp
qed

lemma parse_header: "parse_lines E (allowlist_header @ ls) = parse_lines E ls"
proof -
  have "is_skipped (TrimSpace h)" if "h \<in> set allowlist_header" for h
  proof -
    have "h = [] \<or> is_graphic (hd h) \<and> is_graphic (last h)" "h = [] \<or> HasPrefix h ''#''"
      using that by (auto simp: allowlist_header_def is_graphic_def code_def)
    then show ?thesis using TrimSpace_graphic [of h] by (auto simp: is_skipped_def)
  qed
  then have "parse_lines E allowlist_header = []" by (simp add: allowlist_header_def)
  then show ?thesis by (simp add: parse_lines_append)
qed

lemma canonical_trim [simp]: "canonicalAllowlistEntry E (TrimSpace d) = canonicalAllowlistEntry E d"
  by (simp add: canonicalAllowlistEntry_def)

lemma parse_declared:
  assumes "\<forall>d \<in> set ds. plain_entry d"
  shows "parse_lines E (allowlist_lines ds) =
    List.filter (\<lambda>e. ValidateDomain e = None) (map (canonicalAllowlistEntry E) (List.filter (\<lambda>d. TrimSpace d \<noteq> []) ds))"
  using assms by (induction ds) (auto simp: allowlist_lines_def plain_entry_def is_skipped_def Let_def)

lemma written_file:
  assumes "\<forall>d \<in> set ds. plain_entry d"
  shows "parseAllowlistFile E (Regular (lines_text (allowlist_header @ allowlist_lines ds))) = Inr (parse_lines E (allowlist_lines ds))"
proof -
  have "LF \<notin> set (TrimSpace d) \<and> length (TrimSpace d) < max_token" if "d \<in> set ds" for d
    using assms that set_TrimSpace [of d] TrimSpace_length [of d] by (fastforce simp: plain_entry_def)
  then have "\<forall>l \<in> set (allowlist_header @ allowlist_lines ds). LF \<notin> set l \<and> length l < max_token"
    by (auto simp: allowlist_lines_def allowlist_header_def max_token_def go_eval)
  then show ?thesis using rewrite_lines parse_header by metis
qed

text \<open>After \<open>abox up\<close> has replaced the allowlist, the next run finds the file equal to the declaration, and asks nothing, exactly when every
  declared entry that is not blank is a valid domain in its canonical form; any other entry makes every later run find a difference.\<close>

theorem replace_converges:
  assumes "idna_names E" and "syncAllowlist E fault DecisionReplace ds node = (node', Inr r)" and "\<forall>d \<in> set ds. plain_entry d"
    and "\<forall>d \<in> set ds. ValidateDomain (canonicalAllowlistEntry E d) = None \<longrightarrow> bare (canonicalAllowlistEntry E d)"
  shows "\<exists>req. buildReconcileRequest E DecisionPrompt ds node' = Inr req
    \<and> (rq_Equal req \<longleftrightarrow> (\<forall>d \<in> set ds. TrimSpace d \<noteq> [] \<longrightarrow> ValidateDomain (canonicalAllowlistEntry E d) = None))
    \<and> (rq_Equal req \<longrightarrow> Resolve terminal prompter req = Some DecisionKeep)"
proof -
  let ?cs = "map (canonicalAllowlistEntry E) (List.filter (\<lambda>d. TrimSpace d \<noteq> []) ds)"
  let ?es = "List.filter (\<lambda>e. ValidateDomain e = None) ?cs"
  have n: "node \<noteq> Symlink" using assms(2) by (auto simp: syncAllowlist_def buildReconcileRequest_def LoadDomainSet_def parseAllowlistFile_def)
  then have w: "node' = Regular (lines_text (allowlist_header @ allowlist_lines ds))"
    using assms(2) by (auto simp: syncAllowlist_def WriteAllowlist_def split: sum.splits option.splits fnode.splits)
  have k: "canonicalAllowlistEntry E e = e \<and> TrimSpace e \<noteq> []" if "e \<in> set ?es" for e
  proof -
    obtain d where d: "d \<in> set ds" "e = canonicalAllowlistEntry E d" "ValidateDomain e = None" using \<open>e \<in> set ?es\<close> by auto
    then have b: "bare e" "list_all plain_char e"
      using assms(4) idna_names.toASCII_valid [OF assms(1)] by (auto simp: canonicalAllowlistEntry_def)
    show ?thesis using idna_names.bare_normal(2,3) [OF assms(1) b] bare_line [OF b] by simp
  qed
  have "List.filter (\<lambda>d. TrimSpace d \<noteq> []) ?es = ?es" by (intro filter_True ballI) (use k in blast)
  moreover have "map (canonicalAllowlistEntry E) ?es = ?es" by (rule map_idI) (use k in blast)
  ultimately have "DomainSet E ?es = set ?es" unfolding DomainSet_def by (simp only:)
  then have l: "LoadDomainSet E node' = Inr (set ?es)"
    by (simp add: LoadDomainSet_def w written_file [OF assms(3)] parse_declared [OF assms(3)])
  have "DomainSetsEqual (set ?es) (DomainSet E ds) \<longleftrightarrow> set ?es = set ?cs"
    by (simp add: DomainSetsEqual_iff DomainSet_def)
  also have "\<dots> \<longleftrightarrow> (\<forall>d \<in> set ds. TrimSpace d \<noteq> [] \<longrightarrow> ValidateDomain (canonicalAllowlistEntry E d) = None)" by auto
  finally show ?thesis using l by (simp add: buildReconcileRequest_def Resolve_def)
qed

theorem replace_converges_witness:
  "\<exists>req. buildReconcileRequest ref_ext DecisionPrompt [''*.a.com''] (fst (syncAllowlist ref_ext None DecisionReplace [''*.a.com''] Missing)) = Inr req
     \<and> rq_Equal req \<and> Resolve True None req = Some DecisionKeep"
proof -
  obtain r where s: "syncAllowlist ref_ext None DecisionReplace [''*.a.com''] Missing = (fst (syncAllowlist ref_ext None DecisionReplace [''*.a.com''] Missing), Inr r)"
    by (simp add: syncAllowlist_def buildReconcileRequest_def LoadDomainSet_def parseAllowlistFile_def WriteAllowlist_def Let_def)
  have "canonicalAllowlistEntry ref_ext ''*.a.com'' = ''a.com''" "TrimSpace ''*.a.com'' = ''*.a.com''"
    by (simp_all add: canonicalAllowlistEntry_def toASCIIDomain_def ref_ext_def ToLower_def TrimPrefix_def TrimSuffix_def HasSuffix_def go_eval)
  moreover have "ValidateDomain ''a.com'' = None" "bare ''a.com''" by (simp_all add: bare_def domain_eval domain_body_def)
  ultimately show ?thesis
    using replace_converges [OF ref_idna.idna_names_axioms s, of True None] by (auto simp: plain_entry_def max_token_def go_eval)
qed

end
