(* ===== verification/Backend_Registry.thy ===== *)
theory Backend_Registry
  imports Config "HOL-Library.AList" "HOL-Library.Char_ord" "HOL-Library.List_Lexorder" "HOL-Library.Product_Lexorder"
begin

text \<open>
  Which backend runs an instance: the registry of \<^verbatim>\<open>internal/backend/registry.go\<close> and the choice of
  \<^verbatim>\<open>pkg/cmd/factory/factory.go\<close>. The map of factories is an association list in the order in which Go happens to
  iterate over it, and a factory is represented by the backend it makes; \<open>avail\<close> gives the reason why a backend cannot be used, if any.
  The lemmas say that the order of iteration does not matter, that the least priority wins and that an
  experimental backend is never chosen by detection or by a declaration file.
\<close>

section \<open>The registry\<close>

record Tool =
  tl_Name :: string
  tl_UsedBy :: string
  tl_Hint :: string

record 'b backendRegistry =
  rg_backends :: "(string \<times> 'b) list"
  rg_priority :: "string \<Rightarrow> int"
  rg_experimental :: "string \<Rightarrow> bool"

datatype registry_error =
    ErrNoBackendAvailable "string option"
  | ErrBackendNotFound string
  | ErrBackendUnavailable string string

definition Register :: "string \<Rightarrow> int \<Rightarrow> 'b \<Rightarrow> 'b backendRegistry \<Rightarrow> 'b backendRegistry" where
  "Register name priority b r =
     r\<lparr>rg_backends := AList.update name b (rg_backends r), rg_priority := (rg_priority r)(name := priority)\<rparr>"

definition RegisterExperimental :: "string \<Rightarrow> int \<Rightarrow> 'b \<Rightarrow> 'b backendRegistry \<Rightarrow> 'b backendRegistry" where
  "RegisterExperimental name priority b r =
     (Register name priority b r)\<lparr>rg_experimental := (rg_experimental r)(name := True)\<rparr>"

definition ResetForTesting :: "'b backendRegistry" where
  "ResetForTesting = \<lparr>rg_backends = [], rg_priority = (\<lambda>_. 0), rg_experimental = (\<lambda>_. False)\<rparr>"

abbreviation IsExperimental :: "'b backendRegistry \<Rightarrow> string \<Rightarrow> bool" where
  "IsExperimental r name \<equiv> rg_experimental r name"

definition IsRegistered :: "'b backendRegistry \<Rightarrow> string \<Rightarrow> bool" where
  "IsRegistered r name \<longleftrightarrow> map_of (rg_backends r) name \<noteq> None"

definition RegisteredNames :: "'b backendRegistry \<Rightarrow> string list" where
  "RegisteredNames r = sort_key (\<lambda>n. (rg_priority r n, n)) (map fst (rg_backends r))"

definition DefaultName :: "'b backendRegistry \<Rightarrow> string" where
  "DefaultName r =
     (if rg_backends r = [] then []
      else case find (\<lambda>n. \<not> rg_experimental r n) (RegisteredNames r) of Some n \<Rightarrow> n | None \<Rightarrow> hd (RegisteredNames r))"

definition RequiredToolsByBackend :: "('b \<Rightarrow> Tool list option) \<Rightarrow> 'b backendRegistry \<Rightarrow> string \<Rightarrow> Tool list option" where
  "RequiredToolsByBackend tools r name = Option.bind (map_of (rg_backends r) name) tools"

definition Registry_Get :: "('b \<Rightarrow> string option) \<Rightarrow> 'b backendRegistry \<Rightarrow> string \<Rightarrow> registry_error + 'b" where
  "Registry_Get avail r name =
     (case map_of (rg_backends r) name of
        None \<Rightarrow> Inl (ErrBackendNotFound name)
      | Some b \<Rightarrow> (case avail b of Some e \<Rightarrow> Inl (ErrBackendUnavailable name e) | None \<Rightarrow> Inr b))"

text \<open>The loop of \<open>AutoDetect\<close>, with the errors of stable backends, those of experimental backends, and the experimental backends that could be used.\<close>

record detect_notes =
  dn_errs :: "string list"
  dn_experimentalErrs :: "string list"
  dn_availableExperimental :: "string list"

fun detect_loop ::
  "('b \<Rightarrow> string option) \<Rightarrow> 'b backendRegistry \<Rightarrow> string list \<Rightarrow> detect_notes \<Rightarrow> 'b option \<times> detect_notes" where
  "detect_loop avail r [] d = (None, d)"
| "detect_loop avail r (name # names) d =
     (let b = the (map_of (rg_backends r) name); err = avail b in
      if rg_experimental r name then
        detect_loop avail r names
          (case err of
             None \<Rightarrow> d\<lparr>dn_availableExperimental := dn_availableExperimental d @ [name]\<rparr>
           | Some e \<Rightarrow> d\<lparr>dn_experimentalErrs := dn_experimentalErrs d @ [name @ '': '' @ e]\<rparr>)
      else (case err of
              None \<Rightarrow> (Some b, d)
            | Some e \<Rightarrow> detect_loop avail r names (d\<lparr>dn_errs := dn_errs d @ [name @ '': '' @ e]\<rparr>)))"

definition detect_message :: "detect_notes \<Rightarrow> string option" where
  "detect_message d =
     (if dn_availableExperimental d \<noteq> [] then
        Some (''no stable backend detected; the experimental backend(s) '' @ Join (dn_availableExperimental d) '', ''
          @ '' are available but must be selected explicitly (set ABOX_BACKEND=<name>)''
          @ (if dn_errs d \<noteq> [] then ''; stable backends unavailable: '' @ Join (dn_errs d) ''; '' else []))
      else if dn_errs d \<noteq> [] then
        Some (Join (dn_errs d) ''; ''
          @ (if dn_experimentalErrs d \<noteq> [] then ''; experimental backends also unavailable: '' @ Join (dn_experimentalErrs d) ''; '' else []))
      else if dn_experimentalErrs d \<noteq> [] then
        Some (''the only registered backend(s) are experimental and unavailable: '' @ Join (dn_experimentalErrs d) ''; ''
          @ '' (select one explicitly with ABOX_BACKEND=<name> once its requirements are met)'')
      else None)"

definition AutoDetect :: "('b \<Rightarrow> string option) \<Rightarrow> 'b backendRegistry \<Rightarrow> registry_error + 'b" where
  "AutoDetect avail r =
     (if rg_backends r = [] then Inl (ErrNoBackendAvailable None)
      else case detect_loop avail r (RegisteredNames r) \<lparr>dn_errs = [], dn_experimentalErrs = [], dn_availableExperimental = []\<rparr> of
             (Some b, _) \<Rightarrow> Inr b
           | (None, d) \<Rightarrow> Inl (ErrNoBackendAvailable (detect_message d)))"

definition ForInstance :: "('b \<Rightarrow> string option) \<Rightarrow> 'b backendRegistry \<Rightarrow> Instance \<Rightarrow> registry_error + 'b" where
  "ForInstance avail r inst = (if i_Backend inst = [] then AutoDetect avail r else Registry_Get avail r (i_Backend inst))"

section \<open>The choice of the command\<close>

datatype factory_error =
    FErrDetect registry_error
  | FErrEnv string registry_error
  | FErrRecorded string registry_error
  | FErrBoxfile string registry_error
  | FErrExperimental string

definition resolveBackend :: "('b \<Rightarrow> string option) \<Rightarrow> 'b backendRegistry \<Rightarrow> string \<Rightarrow> factory_error + 'b" where
  "resolveBackend avail r env =
     (if env \<noteq> [] then (case Registry_Get avail r env of Inl e \<Rightarrow> Inl (FErrEnv env e) | Inr b \<Rightarrow> Inr b)
      else (case AutoDetect avail r of Inl e \<Rightarrow> Inl (FErrDetect e) | Inr b \<Rightarrow> Inr b))"

definition BackendForNew :: "('b \<Rightarrow> string option) \<Rightarrow> 'b backendRegistry \<Rightarrow> string \<Rightarrow> string \<Rightarrow> factory_error + 'b" where
  "BackendForNew avail r env preferred =
     (if env \<noteq> [] then resolveBackend avail r env
      else if preferred \<noteq> [] then
        (if IsExperimental r preferred then Inl (FErrExperimental preferred)
         else case Registry_Get avail r preferred of Inl e \<Rightarrow> Inl (FErrBoxfile preferred e) | Inr b \<Rightarrow> Inr b)
      else (case AutoDetect avail r of Inl e \<Rightarrow> Inl (FErrDetect e) | Inr b \<Rightarrow> Inr b))"

definition AutoDetectBackend :: "('b \<Rightarrow> string option) \<Rightarrow> 'b backendRegistry \<Rightarrow> string \<Rightarrow> factory_error + 'b" where
  "AutoDetectBackend avail r env = BackendForNew avail r env []"

text \<open>\<open>BackendFor\<close> keeps the backends it has given out; \<open>cfg\<close> is the result of loading the configuration.\<close>

definition BackendFor ::
  "('b \<Rightarrow> string option) \<Rightarrow> 'b backendRegistry \<Rightarrow> string \<Rightarrow> (string \<Rightarrow> config_error + (Instance \<times> Paths)) \<Rightarrow> string \<Rightarrow> (string \<rightharpoonup> 'b)
     \<Rightarrow> (string \<rightharpoonup> 'b) \<times> (factory_error + 'b)" where
  "BackendFor avail r env cfg name cache =
     (case cache name of
        Some b \<Rightarrow> (cache, Inr b)
      | None \<Rightarrow>
          (case (case cfg name of
                   Inr (inst, _) \<Rightarrow>
                     if i_Backend inst \<noteq> []
                     then (case Registry_Get avail r (i_Backend inst) of Inl e \<Rightarrow> Inl (FErrRecorded (i_Backend inst) e) | Inr b \<Rightarrow> Inr b)
                     else resolveBackend avail r env
                 | Inl _ \<Rightarrow> resolveBackend avail r env) of
             Inl e \<Rightarrow> (cache, Inl e)
           | Inr b \<Rightarrow> (cache(name \<mapsto> b), Inr b)))"

section \<open>What is chosen\<close>

lemma wrap_error_iff [simp]: "(case x of Inl e \<Rightarrow> Inl (f e) | Inr b \<Rightarrow> Inr b) = Inr b \<longleftrightarrow> x = Inr b"
  by (cases x) auto

lemma Registry_Get_iff: "Registry_Get avail r name = Inr b \<longleftrightarrow> map_of (rg_backends r) name = Some b \<and> avail b = None"
  by (auto simp: Registry_Get_def split: option.splits)

lemma detect_loop_find:
  "fst (detect_loop avail r names d) =
     map_option (\<lambda>n. the (map_of (rg_backends r) n))
       (find (\<lambda>n. \<not> rg_experimental r n \<and> avail (the (map_of (rg_backends r) n)) = None) names)"
  by (induction names arbitrary: d) (auto simp: Let_def split: option.splits)

lemma find_sorted_least:
  assumes "sorted (map f xs)"
  shows "find P xs = Some x \<Longrightarrow> x \<in> set xs \<and> P x \<and> (\<forall>y \<in> set xs. P y \<longrightarrow> f x \<le> f y)"
  using assms by (induction xs) (auto split: if_splits)

text \<open>A backend that detection may choose, and the one it prefers.\<close>

definition detectable :: "('b \<Rightarrow> string option) \<Rightarrow> 'b backendRegistry \<Rightarrow> string \<Rightarrow> 'b \<Rightarrow> bool" where
  "detectable avail r n b \<longleftrightarrow> map_of (rg_backends r) n = Some b \<and> \<not> rg_experimental r n \<and> avail b = None"

definition preferred_by :: "'b backendRegistry \<Rightarrow> string \<Rightarrow> string \<Rightarrow> bool" where
  "preferred_by r n m \<longleftrightarrow> rg_priority r n < rg_priority r m \<or> rg_priority r n = rg_priority r m \<and> n \<le> m"

definition first_choice :: "('b \<Rightarrow> string option) \<Rightarrow> 'b backendRegistry \<Rightarrow> string \<Rightarrow> 'b \<Rightarrow> bool" where
  "first_choice avail r n b \<longleftrightarrow> detectable avail r n b \<and> (\<forall>m c. detectable avail r m c \<longrightarrow> preferred_by r n m)"

lemma first_choice_unique: "first_choice avail r n b \<Longrightarrow> first_choice avail r m c \<Longrightarrow> n = m \<and> b = c"
  unfolding first_choice_def preferred_by_def detectable_def
  by (metis antisym less_asym' option.inject order.strict_implies_not_eq)

lemma key_le: "(rg_priority r n, n) \<le> (rg_priority r m, m) \<longleftrightarrow> preferred_by r n m"
  by (auto simp: preferred_by_def less_eq_prod_def)

lemma set_RegisteredNames [simp]: "set (RegisteredNames r) = fst ` set (rg_backends r)"
  by (simp add: RegisteredNames_def)

lemma registered_value: "n \<in> fst ` set (rg_backends r) \<Longrightarrow> \<exists>b. map_of (rg_backends r) n = Some b"
  by (metis map_of_eq_None_iff not_Some_eq)

lemma AutoDetect_first: "AutoDetect avail r = Inr b \<longleftrightarrow> (\<exists>n. first_choice avail r n b)"
proof -
  let ?P = "\<lambda>n. \<not> rg_experimental r n \<and> avail (the (map_of (rg_backends r) n)) = None"
  let ?d = "\<lparr>dn_errs = [], dn_experimentalErrs = [], dn_availableExperimental = []\<rparr>"
  have reg: "n \<in> set (RegisteredNames r) \<and> ?P n \<longleftrightarrow> (\<exists>c. detectable avail r n c)" for n
  proof (cases "map_of (rg_backends r) n")
    case None
    then have "n \<notin> fst ` set (rg_backends r)" by (simp add: map_of_eq_None_iff)
    then show ?thesis using None by (simp add: detectable_def)
  next
    case (Some c)
    then have "n \<in> fst ` set (rg_backends r)" by (metis map_of_eq_None_iff option.distinct(1))
    then show ?thesis using Some by (simp add: detectable_def)
  qed
  have sorted: "sorted (map (\<lambda>n. (rg_priority r n, n)) (RegisteredNames r))" by (simp add: RegisteredNames_def)
  have auto: "AutoDetect avail r = Inr b \<longleftrightarrow> (\<exists>n. find ?P (RegisteredNames r) = Some n \<and> b = the (map_of (rg_backends r) n))"
    using detect_loop_find [of avail r "RegisteredNames r" ?d]
    by (cases "rg_backends r = []"; cases "detect_loop avail r (RegisteredNames r) ?d") (auto simp: AutoDetect_def RegisteredNames_def split: option.splits)
  show ?thesis
  proof
    assume "AutoDetect avail r = Inr b"
    then obtain n where n: "find ?P (RegisteredNames r) = Some n" "b = the (map_of (rg_backends r) n)" using auto by blast
    note l = find_sorted_least [OF sorted n(1)]
    then obtain c where "detectable avail r n c" using reg by blast
    moreover have "preferred_by r n m" if "detectable avail r m c'" for m c' using l reg [of m] that key_le by blast
    ultimately show "\<exists>n. first_choice avail r n b" using n(2) unfolding first_choice_def detectable_def by fastforce
  next
    assume "\<exists>n. first_choice avail r n b"
    then obtain n where n: "first_choice avail r n b" by blast
    then have "n \<in> set (RegisteredNames r) \<and> ?P n" using reg unfolding first_choice_def by blast
    then obtain m where m: "find ?P (RegisteredNames r) = Some m" by (cases "find ?P (RegisteredNames r)") (auto simp: find_None_iff)
    note l = find_sorted_least [OF sorted m]
    then obtain c where "detectable avail r m c" using reg by blast
    moreover have "preferred_by r m k" if "detectable avail r k c'" for k c' using l reg [of k] that key_le by blast
    ultimately have "first_choice avail r m c" unfolding first_choice_def by blast
    then have "m = n" using first_choice_unique [OF _ n] by blast
    moreover have "map_of (rg_backends r) n = Some b" using n by (simp add: first_choice_def detectable_def)
    ultimately show "AutoDetect avail r = Inr b" using auto m by simp
  qed
qed

text \<open>The choice for a new instance: the backend named in the environment, else the one named in the declaration file
  unless it is experimental, else the available stable backend of least priority and name, whatever the order of iteration.\<close>

theorem BackendForNew_choice:
  "BackendForNew avail r env preferred = Inr b \<longleftrightarrow>
     (if env \<noteq> [] then map_of (rg_backends r) env = Some b \<and> avail b = None
      else if preferred \<noteq> [] then detectable avail r preferred b
      else (\<exists>n. first_choice avail r n b))"
  by (auto simp: BackendForNew_def resolveBackend_def detectable_def Registry_Get_iff AutoDetect_first [symmetric])

lemma DefaultName_stable:
  assumes "rg_backends r \<noteq> []"
  shows "IsRegistered r (DefaultName r)"
    and "n \<in> fst ` set (rg_backends r) \<Longrightarrow> \<not> rg_experimental r n \<Longrightarrow> \<not> rg_experimental r (DefaultName r) \<and> preferred_by r (DefaultName r) n"
proof -
  have sorted: "sorted (map (\<lambda>n. (rg_priority r n, n)) (RegisteredNames r))" by (simp add: RegisteredNames_def)
  have "set (RegisteredNames r) \<noteq> {}" using assms by simp
  then have ne: "hd (RegisteredNames r) \<in> set (RegisteredNames r)" by (intro hd_in_set) force
  show "IsRegistered r (DefaultName r)"
  proof (cases "find (\<lambda>n. \<not> rg_experimental r n) (RegisteredNames r)")
    case None
    then show ?thesis using assms ne registered_value [of "DefaultName r" r] by (auto simp: IsRegistered_def DefaultName_def)
  next
    case (Some m)
    then have "m \<in> fst ` set (rg_backends r)" using find_sorted_least [OF sorted Some] by simp
    then show ?thesis using assms Some registered_value [of m r] by (auto simp: IsRegistered_def DefaultName_def)
  qed
  assume n: "n \<in> fst ` set (rg_backends r)" "\<not> rg_experimental r n"
  then obtain m where m: "find (\<lambda>n. \<not> rg_experimental r n) (RegisteredNames r) = Some m"
    by (cases "find (\<lambda>n. \<not> rg_experimental r n) (RegisteredNames r)") (auto simp: find_None_iff)
  then show "\<not> rg_experimental r (DefaultName r) \<and> preferred_by r (DefaultName r) n"
    using find_sorted_least [OF sorted m] n assms key_le by (fastforce simp: DefaultName_def)
qed

lemma BackendFor_cached:
  assumes "BackendFor avail r env cfg name cache = (cache', Inr b)"
  shows "cache' name = Some b" and "BackendFor avail r env' cfg' name cache' = (cache', Inr b)"
proof -
  show "cache' name = Some b" using assms by (auto simp: BackendFor_def split: option.splits sum.splits if_splits)
  then show "BackendFor avail r env' cfg' name cache' = (cache', Inr b)" by (simp add: BackendFor_def)
qed

end
