(* ===== verification/Spec2Isabelle.thy ===== *)
theory Spec2Isabelle
  imports DNS_Filter HTTP_Daemon Guest_Safety Import Storage_Helper VMware_Net VMDK Natsort Up Backend_Registry
begin

text \<open>
  abox runs coding agents in virtual machines. A guest can reach the outside only through two
  filters on the host: a DNS server that answers for the domains of an allowlist, and an HTTP
  proxy that tunnels, intercepts or forwards requests to them and sets secrets on some. A
  privileged helper installs packet filter rules that leave the guest no other way out. An instance
  is declared in a file \<open>abox.yaml\<close>, which comes with a repository and is therefore not trusted;
  \<open>abox up\<close> asks for approval where the file relaxes the confinement, creates the instance,
  reconciles its allowlist and provisions it. This development models that host side. Paths below
  are relative to \<open>src/\<close>; \<open>internal/\<close> is left out of them.

  \<^bold>\<open>The Go library.\<close> A Go string is a list of bytes (a \<open>string\<close> here). \<open>Abox_Prelude\<close> and \<open>Go_Text\<close>
  hold the functions of \<open>strings\<close>, \<open>strconv\<close>, \<open>bufio\<close> and \<open>unicode\<close> that the program calls with
  the lemmas the components share, \<open>Go_Net\<close> those of \<open>net\<close> and \<open>netip\<close>, with addresses as bytes and
  words of fixed width, \<open>Go_Path\<close> those of \<open>path\<close> and \<open>filepath\<close>, and \<open>Go_Regexp\<close> a matcher by
  derivatives for the patterns the validators use, with its language and the proof that they agree.

  \<^bold>\<open>Validation.\<close> \<open>Validation\<close> has one definition per validator of \<open>validation/validation.go\<close>. The
  lemmas say what each one accepts, in closed form, and that sizes computed in \<open>int64\<close> do not wrap
  around for accepted values.

  \<^bold>\<open>The allowlist.\<close> \<open>Allowlist_Filter\<close> (\<open>allowlist/filter.go\<close>) is a set of names in a radix tree
  under reversed labels; \<open>Allowlist_Loader\<close> (\<open>loader.go\<close>, \<open>defaults.go\<close>) parses, watches, appends to
  and rewrites the file behind it; \<open>Allowlist_Profile\<close> (\<open>profile.go\<close>, \<open>mode.go\<close>) logs the names seen
  in passive mode; \<open>Allowlist_API\<close> (\<open>api.go\<close>, \<open>diff.go\<close>) is the RPC handler that changes filter, file
  and mode together. Shown: the filter refines a set of domains; a name is allowed exactly when an
  entry is a suffix of its labels; loading, removing and reloading agree; a rewrite is atomic under
  every failure; the handler keeps filter and file in step and records every change.

  \<^bold>\<open>The filters.\<close> \<open>SSRF\<close> (\<open>filterbase/ssrf.go\<close>, \<open>display.go\<close>) classifies addresses. \<open>DNS_Filter\<close>
  (\<open>dnsfilter/server.go\<close>, \<open>resolver.go\<close>, \<open>api.go\<close>) has the whole handler of a query;
  \<open>HTTP_Policy\<close> and \<open>HTTP_Proxy\<close> (\<open>httpfilter/server.go\<close>, \<open>proxy.go\<close>, \<open>inject.go\<close>) have the decision
  for a request, its dispatch, the injection of secrets and the bounded listener. \<open>HTTP_Daemon\<close>
  (\<open>cmd/http/serve/serve.go\<close>) builds the state of the proxy from configuration and secrets. Shown: in
  active mode only allowed names on permitted ports are reached; no answer points the guest at a
  dangerous address; a secret leaves only on an intercepted request to a host it is bound to and
  replaces the guest's header; the connection limit is an invariant of a step relation.

  \<^bold>\<open>Configuration.\<close> \<open>Config_Paths\<close> (\<open>config/filesystem.go\<close>, path resolution of \<open>config.go\<close>), \<open>Config\<close>
  (\<open>config.go\<close>, \<open>global.go\<close>, \<open>version.go\<close>, \<open>backendconfig.go\<close>) and \<open>Config_Resources\<close> (subnets and
  the creation lock) model the data of an instance, its validation, storage and resources;
  \<open>Secret_Store\<close> (\<open>secretstore/store.go\<close>) the file of secrets. Shown: paths stay inside the instances
  directory and those of two instances are disjoint; allocated subnets are fresh; the lock excludes
  under every interleaving of its system calls; secrets read back byte for byte.

  \<^bold>\<open>Enforcement.\<close> \<open>Egress\<close> (\<open>privilege/egress_linux.go\<close>, \<open>egress_ipv6_linux.go\<close>, \<open>validation.go\<close>) is
  the Linux helper over a command that lists, checks and changes tables; \<open>Egress_Enforced\<close> defines
  how a table decides about a packet and shows that after every history of requests for several
  bridges, failed ones included, a successful \<open>Apply\<close> leaves exactly the intended packets accepted.
  \<open>PF_Validate\<close> (\<open>pfvalidate/pfvalidate.go\<close>), \<open>PF_Rules\<close> (\<open>firewall/pfctl.go\<close>,
  \<open>privilege/pfrules_darwin.go\<close>), \<open>PF_Confined\<close> and \<open>PF_Conf\<close> (\<open>pfconf_darwin.go\<close>,
  \<open>helper_darwin.go\<close>) do the same for the macOS packet filter: what any accepted rule text can do,
  that the generated text is accepted and has the intended meaning, and what \<open>pf.conf\<close> holds after
  every outcome of wiring and teardown.

  \<^bold>\<open>Declaration.\<close> \<open>Boxfile_Strict\<close> (\<open>boxfile/strict.go\<close>), \<open>Boxfile\<close> (\<open>boxfile.go\<close>), \<open>Boxfile_Trust\<close>
  (\<open>trust.go\<close>, \<open>cmdutil/boxfile.go\<close>), \<open>Create\<close> (\<open>drift.go\<close>, \<open>cmd/create/create.go\<close>) and \<open>Up\<close>
  (\<open>reconcile/reconcile.go\<close>, \<open>cmd/up/up.go\<close>) follow \<open>abox.yaml\<close> from its decoding errors to the
  running instance. Shown: a file that passes the gate without a question relaxes nothing and names
  no path outside its directory; an approval binds the bytes of the file and of what it refers to;
  creation and drift detection agree on every field; replacing the allowlist converges.
  \<open>Natsort\<close> (\<open>natsort/natsort.go\<close>) is the order of listings.

  \<^bold>\<open>Backends and the life of an instance.\<close> \<open>Backend_Registry\<close> (\<open>backend/registry.go\<close>,
  \<open>cmd/factory/factory.go\<close>) chooses the backend. \<open>Virsh\<close> (\<open>virsh/virsh.go\<close>, the managers of
  \<open>backend/libvirt\<close>) has every call of \<open>virsh\<close> with the XML it is given; no value of an instance leaves
  the attribute it is put into. \<open>Egress_Control\<close> (\<open>backend/egress\<close>, \<open>firewall/egress.go\<close>, the
  \<open>EgressController\<close> of libvirt, VMware and vfkit) ties a guest to the rules of the helpers.
  \<open>Lifecycle\<close> (\<open>cmd/start\<close>, \<open>stop\<close>, \<open>restart\<close>, \<open>remove\<close>, \<open>down\<close>, \<open>instance\<close>) has the commands
  over a record of the operations of a backend, with every failure as a branch. \<open>Guest_Safety\<close> joins
  them with the models of the filters: a guest that runs after the start of a stopped instance,
  successful or not, is confined; a guest that survives a stop keeps its rules; re-asserting
  the rules of a running guest can remove them.

  \<^bold>\<open>Images and archives.\<close> \<open>Archive\<close> (extraction of \<open>cmd/importcmd/import.go\<close>, writer of
  \<open>cmd/export/export.go\<close>), \<open>Disk_Images\<close> (\<open>qemuimg/qemuimg.go\<close>, \<open>fsutil/copy.go\<close>,
  \<open>backend/libvirt/disk.go\<close>), \<open>Import\<close> (the rest of the import, with its rollback) and \<open>VMDK\<close>
  (\<open>vmrun/disk.go\<close>). Shown: an extraction stays in its directory and within its caps, and is the inverse of the
  writer; an accepted VMDK names no parent and, on the lines recognized as extents, no file outside its
  directory. Where the code does not keep such a promise (the name of a base image, an
  extent spread over lines) the theorem says so.

  \<^bold>\<open>Storage and VMware networks.\<close> \<open>Storage_Helper\<close> (\<open>privilege/storage_linux.go\<close>) is the helper
  that prepares the storage directory of a user as root, over a store of inodes with names and
  link counts: it changes no file or directory that has a name outside that directory. \<open>VMware_Net\<close>
  (\<open>vmrun/network.go\<close>, \<open>netcfg.go\<close>, \<open>netcfg_answerfile.go\<close>, \<open>netcfg_linux.go\<close>,
  \<open>backend/vmware/network.go\<close>) allots the private networks and edits the vendor's file: no
  two instances share a network after any history, and the lines of other networks are kept.

  \<^bold>\<open>Interfaces.\<close> Code that is not in the repository is an argument, and what is relied on of it is a
  locale that each theory interprets on a concrete instance: \<open>dns_names\<close> and \<open>radix_tree\<close>, which
  \<open>allowlist_filter\<close> joins (the DNS label splitter, the IDNA profile, the tree), \<open>idna_names\<close>,
  \<open>dns_lib\<close> (copying, truncating and answering messages), \<open>file_store\<close> (a written file reads back),
  \<open>json_map\<close> and, over both, \<open>trust_store\<close>, \<open>iptables\<close> and \<open>egress_tables\<close> (its IPv4 and IPv6
  instances), \<open>pf_reader\<close> (how pf splits a rule text into lines), \<open>pfctl_anchors\<close> (a loaded anchor holds the
  text). Between components of the model, \<open>confining\<close> is what the commands rely on of an egress
  controller, \<open>quiet_host\<close> what starting and stopping rely on of a host (no other step starts a guest), and
  \<open>guarded_host\<close> joins the two; the controllers of libvirt, vfkit and VMware interpret them. The in-memory
  file system of the program interprets \<open>file_store\<close>. YAML, SHA-256, \<open>pfctl\<close>, the route prober and the failures of the
  operating system are plain arguments, the last as values that select the branch taken.

  \<^bold>\<open>Loops and bounds.\<close> Recursion is structural or has a measure, except for the comparison of
  \<open>Natsort\<close>, a \<open>partial_function\<close> that is shown to return on every input, and the menu of \<open>abox up\<close>,
  which consumes a finite list of answers and is undefined when they run out. Bounds are those of the
  code: 100 rounds of rule removal in the helper, tokens of 64 KiB in the scanner (8 MiB in
  the secret store), 245 candidate subnets, 17 VMware networks, 253 bytes of a domain, the caps on the
  bytes and entries of an archive, one second per round of the wait for a shutdown. No fuel is added.

  \<^bold>\<open>Not modelled.\<close> Sockets, TLS, copying of bytes, gRPC plumbing (\<open>filterbase\<close>, \<open>rpc\<close>), the process
  and credential part of the privileged helper, the machine and disk drivers of VMware and vfkit with
  their wrappers (\<open>vmrun\<close>, \<open>vfkit\<close>, \<open>vmnethelper\<close>), snapshots, the rollback of \<open>create\<close>,
  cloud-init templates, image downloads, the monitor relay, logging, certificates, the processes
  behind a daemon (the commands see a start that succeeds or fails and a port that it reports), and the
  terminal output of the commands: what they do lies in programs and libraries outside the repository, or
  no decision of the modelled components depends on it. \<open>virsh\<close> and \<open>qemu-img\<close> themselves are
  arguments. Concurrency inside a daemon is left to its mutexes: an operation that holds one is a
  single step.
\<close>

end
